(* ===== verification/Prelude.thy ===== *)
theory Prelude
  imports Main "HOL-Library.AList" "HOL-Library.List_Lexorder" "HOL-Library.Char_ord"
    "HOL-Library.Multiset"
begin

section \<open>Shared vocabulary of the development\<close>

text \<open>
  Errors as values, the traversal combinators of throwing callbacks, insertion-ordered sets and
  maps, and the string primitives the translated code uses. Nothing here is specific to one
  component: the theories of the components import this one and rewrite with the collections
  declared below.
\<close>

named_theorems res_simps \<open>inversion rules of the error monad\<close>
named_theorems js_simps \<open>evaluation rules of the JavaScript value layer\<close>

subsection \<open>Errors and the result type\<close>

text \<open>
  One constructor per error class the modelled code throws. \<open>NativeErr\<close> is a \<open>TypeError\<close>
  raised by the language itself (reading a property of \<open>undefined\<close>, iterating a value that is
  not iterable), as opposed to one thrown by a \<open>throw\<close> statement of the source.
\<close>

datatype err =
    TypeErr string
  | RangeErr string
  | PolicyErr string
  | ExecErr string
  | ConflictErr string
  | AuthenticationErr string
  | AuthorizationErr string
  | AttestationErr string
  | NativeErr string

type_synonym 'a res = "err + 'a"

primrec err_message :: "err \<Rightarrow> string" where
  "err_message (TypeErr m) = m"
| "err_message (RangeErr m) = m"
| "err_message (PolicyErr m) = m"
| "err_message (ExecErr m) = m"
| "err_message (ConflictErr m) = m"
| "err_message (AuthenticationErr m) = m"
| "err_message (AuthorizationErr m) = m"
| "err_message (AttestationErr m) = m"
| "err_message (NativeErr m) = m"

definition bnd :: "'a res \<Rightarrow> ('a \<Rightarrow> 'b res) \<Rightarrow> 'b res" where
  "bnd m f = (case m of Inl e \<Rightarrow> Inl e | Inr x \<Rightarrow> f x)"

lemma bnd_simps [simp]: "bnd (Inl e) f = Inl e" "bnd (Inr x) f = f x"
  by (simp_all add: bnd_def)

lemma bnd_eq_Inr [res_simps]: "bnd m f = Inr y \<longleftrightarrow> (\<exists>x. m = Inr x \<and> f x = Inr y)"
  by (cases m) simp_all

lemma bnd_eq_Inl: "bnd m f = Inl e \<longleftrightarrow> m = Inl e \<or> (\<exists>x. m = Inr x \<and> f x = Inl e)"
  by (cases m) simp_all

lemma bnd_assoc: "bnd (bnd m f) g = bnd m (\<lambda>x. bnd (f x) g)"
  by (cases m) simp_all

lemma bnd_cong [fundef_cong]:
  "m = m' \<Longrightarrow> (\<And>x. m' = Inr x \<Longrightarrow> f x = g x) \<Longrightarrow> bnd m f = bnd m' g"
  by (cases m') simp_all

text \<open>A guard \<open>if (c) throw e\<close> followed by the rest of the body.\<close>

definition throw_if :: "bool \<Rightarrow> err \<Rightarrow> 'a res \<Rightarrow> 'a res" where
  "throw_if c e k = (if c then Inl e else k)"

lemma throw_if_simps [simp]: "throw_if True e k = Inl e" "throw_if False e k = k"
  by (simp_all add: throw_if_def)

lemma throw_if_eq_Inr [res_simps]: "throw_if c e k = Inr y \<longleftrightarrow> \<not> c \<and> k = Inr y"
  by (simp add: throw_if_def)

lemma throw_if_cong [fundef_cong]:
  "c = c' \<Longrightarrow> e = e' \<Longrightarrow> (\<not> c' \<Longrightarrow> k = k') \<Longrightarrow> throw_if c e k = throw_if c' e' k'"
  by (simp add: throw_if_def)

lemma if_eq_Inr [res_simps]:
  "(if c then Inl e else k) = Inr y \<longleftrightarrow> \<not> c \<and> k = Inr y"
  "(if c then k else Inl e) = Inr y \<longleftrightarrow> c \<and> k = Inr y"
  by simp_all

definition is_ok :: "'a res \<Rightarrow> bool" where
  "is_ok r = (case r of Inl _ \<Rightarrow> False | Inr _ \<Rightarrow> True)"

lemma is_ok_simps [simp]: "is_ok (Inr x)" "\<not> is_ok (Inl e)"
  by (simp_all add: is_ok_def)

lemma ok_bndI: "is_ok m \<Longrightarrow> (\<And>x. m = Inr x \<Longrightarrow> is_ok (f x)) \<Longrightarrow> is_ok (bnd m f)"
  by (cases m) simp_all

text \<open>From an evaluated outcome to the result it shows.\<close>

lemma resE:
  assumes "case r of Inl e \<Rightarrow> False | Inr x \<Rightarrow> P x"
  obtains x where "r = Inr x" "P x"
  using assms by (cases r) auto

lemma map_eq_snocE:
  assumes "map f xs = ys @ [y]"
  obtains pre x where "xs = pre @ [x]" "map f pre = ys" "f x = y"
  using assms by (cases xs rule: rev_cases) auto

subsection \<open>Arrays traversed by a throwing callback\<close>

text \<open>\<open>xs.map(f)\<close> where \<open>f\<close> may throw: the first error ends the traversal.\<close>

fun mapR :: "('a \<Rightarrow> 'b res) \<Rightarrow> 'a list \<Rightarrow> 'b list res" where
  "mapR f [] = Inr []"
| "mapR f (x # xs) = bnd (f x) (\<lambda>y. bnd (mapR f xs) (\<lambda>ys. Inr (y # ys)))"

text \<open>\<open>xs.map((x, index) => ...)\<close>, with the index of the first element as an argument.\<close>

fun mapiR :: "(nat \<Rightarrow> 'a \<Rightarrow> 'b res) \<Rightarrow> nat \<Rightarrow> 'a list \<Rightarrow> 'b list res" where
  "mapiR f i [] = Inr []"
| "mapiR f i (x # xs) = bnd (f i x) (\<lambda>y. bnd (mapiR f (Suc i) xs) (\<lambda>ys. Inr (y # ys)))"

text \<open>\<open>xs.some(p)\<close> and \<open>xs.filter(p)\<close> with a throwing predicate.\<close>

fun someR :: "('a \<Rightarrow> bool res) \<Rightarrow> 'a list \<Rightarrow> bool res" where
  "someR p [] = Inr False"
| "someR p (x # xs) = bnd (p x) (\<lambda>b. if b then Inr True else someR p xs)"

fun filterR :: "('a \<Rightarrow> bool res) \<Rightarrow> 'a list \<Rightarrow> 'a list res" where
  "filterR p [] = Inr []"
| "filterR p (x # xs) = bnd (p x) (\<lambda>b. bnd (filterR p xs) (\<lambda>ys. Inr (if b then x # ys else ys)))"

text \<open>A \<open>for\<close> loop over an array whose body updates a state and may throw.\<close>

fun foldR :: "('s \<Rightarrow> 'a \<Rightarrow> 's res) \<Rightarrow> 's \<Rightarrow> 'a list \<Rightarrow> 's res" where
  "foldR f s [] = Inr s"
| "foldR f s (x # xs) = bnd (f s x) (\<lambda>s'. foldR f s' xs)"

text \<open>A \<open>for\<close> loop whose body only checks and throws.\<close>

fun eachR :: "('a \<Rightarrow> unit res) \<Rightarrow> 'a list \<Rightarrow> unit res" where
  "eachR f [] = Inr ()"
| "eachR f (x # xs) = bnd (f x) (\<lambda>_. eachR f xs)"

lemma eachR_cong [fundef_cong]:
  "xs = ys \<Longrightarrow> (\<And>x. x \<in> set ys \<Longrightarrow> f x = g x) \<Longrightarrow> eachR f xs = eachR g ys"
  by (induction ys arbitrary: xs) auto

lemma eachR_Inr: "eachR f xs = Inr u \<longleftrightarrow> (\<forall>x\<in>set xs. f x = Inr ())"
  by (induction xs) (auto simp: bnd_eq_Inr)

lemma mapR_cong [fundef_cong]:
  "xs = ys \<Longrightarrow> (\<And>x. x \<in> set ys \<Longrightarrow> f x = g x) \<Longrightarrow> mapR f xs = mapR g ys"
  by (induction ys arbitrary: xs) auto

lemma mapR_Inr_iff: "mapR f xs = Inr ys \<longleftrightarrow> list_all2 (\<lambda>x y. f x = Inr y) xs ys"
  by (induction xs arbitrary: ys) (auto simp: bnd_eq_Inr list_all2_Cons1)

lemma mapR_Inr_map: "mapR f xs = Inr ys \<longleftrightarrow> map f xs = map Inr ys"
  by (induction xs arbitrary: ys) (auto simp: bnd_eq_Inr Cons_eq_map_conv)

lemma mapR_length: "mapR f xs = Inr ys \<Longrightarrow> length ys = length xs"
  by (auto simp: mapR_Inr_iff dest: list_all2_lengthD)

lemma mapR_in_set:
  "mapR f xs = Inr ys \<Longrightarrow> y \<in> set ys \<Longrightarrow> \<exists>x\<in>set xs. f x = Inr y"
  by (induction xs arbitrary: ys) (auto simp: bnd_eq_Inr)

lemma mapR_total: "(\<And>x. x \<in> set xs \<Longrightarrow> f x = Inr (g x)) \<Longrightarrow> mapR f xs = Inr (map g xs)"
  by (induction xs) auto

lemma mapiR_length: "mapiR f i xs = Inr ys \<Longrightarrow> length ys = length xs"
  by (induction xs arbitrary: i ys) (auto simp: bnd_eq_Inr)

lemma mapiR_nth:
  "mapiR f i xs = Inr ys \<Longrightarrow> j < length xs \<Longrightarrow> f (i + j) (xs ! j) = Inr (ys ! j)"
proof (induction xs arbitrary: i j ys)
  case (Cons x xs)
  from Cons.prems(1) obtain y zs where
    y: "f i x = Inr y" and zs: "mapiR f (Suc i) xs = Inr zs" and ys: "ys = y # zs"
    by (auto simp: bnd_eq_Inr)
  show ?case
  proof (cases j)
    case (Suc k)
    with Cons.IH [OF zs, of k] Cons.prems(2) ys show ?thesis by simp
  qed (simp add: y ys)
qed simp

lemma mapiR_in_set:
  assumes "mapiR f i xs = Inr ys" and "y \<in> set ys"
  shows "\<exists>j x. x \<in> set xs \<and> f j x = Inr y"
proof -
  from assms(2) obtain j where j: "j < length ys" "ys ! j = y" by (auto simp: in_set_conv_nth)
  with assms(1) have "j < length xs" by (simp add: mapiR_length)
  with mapiR_nth [OF assms(1)] j have "xs ! j \<in> set xs" "f (i + j) (xs ! j) = Inr y" by auto
  then show ?thesis by blast
qed

lemma filterR_Inr: "filterR p xs = Inr ys \<Longrightarrow> ys = filter (\<lambda>x. p x = Inr True) xs"
  by (induction xs arbitrary: ys) (auto simp: bnd_eq_Inr)

lemma filterR_ok: "filterR p xs = Inr ys \<Longrightarrow> x \<in> set xs \<Longrightarrow> \<exists>b. p x = Inr b"
  by (induction xs arbitrary: ys) (auto simp: bnd_eq_Inr)

lemma someR_Inr_False: "someR p xs = Inr False \<longleftrightarrow> (\<forall>x\<in>set xs. p x = Inr False)"
  by (induction xs) (auto simp: bnd_eq_Inr)

lemma someR_Inr_True: "someR p xs = Inr True \<Longrightarrow> \<exists>x\<in>set xs. p x = Inr True"
  by (induction xs) (auto simp: bnd_eq_Inr split: if_splits)

lemma someR_total: "(\<And>x. x \<in> set xs \<Longrightarrow> p x = Inr (q x)) \<Longrightarrow> someR p xs = Inr (list_ex q xs)"
  by (induction xs) auto

lemma someR_Inr_b: "someR p xs = Inr b \<Longrightarrow> b \<longleftrightarrow> (\<exists>x\<in>set xs. p x = Inr True)"
  by (cases b) (auto simp: someR_Inr_False dest: someR_Inr_True)

lemma foldR_append: "foldR f s (xs @ ys) = bnd (foldR f s xs) (\<lambda>s'. foldR f s' ys)"
  by (induction xs arbitrary: s) (auto simp: bnd_assoc)

lemma foldR_invariant:
  assumes "foldR f s xs = Inr t" and "I s"
    and "\<And>s x s'. I s \<Longrightarrow> x \<in> set xs \<Longrightarrow> f s x = Inr s' \<Longrightarrow> I s'"
  shows "I t"
  using assms
proof (induction xs arbitrary: s)
  case (Cons x xs)
  from Cons.prems(1) obtain s' where s': "f s x = Inr s'" and t: "foldR f s' xs = Inr t"
    by (auto simp: bnd_eq_Inr)
  have "I s'" by (rule Cons.prems(3) [OF Cons.prems(2) _ s']) simp
  then show ?case by (rule Cons.IH [OF t]) (rule Cons.prems(3), auto)
qed simp

subsection \<open>Insertion-ordered sets and maps\<close>

text \<open>
  \<open>[...new Set(xs)]\<close> keeps the first occurrence of every element, in order. (The library's
  \<open>remdups\<close> keeps the last one.)
\<close>

fun js_set :: "'a list \<Rightarrow> 'a list" where
  "js_set [] = []"
| "js_set (x # xs) = x # filter (\<lambda>y. y \<noteq> x) (js_set xs)"

lemma set_js_set [simp]: "set (js_set xs) = set xs"
  by (induction xs) auto

lemma distinct_js_set [simp]: "distinct (js_set xs)"
  by (induction xs) auto

lemma js_set_distinct: "distinct xs \<Longrightarrow> js_set xs = xs"
proof (induction xs)
  case (Cons x xs)
  then have "js_set xs = xs" by simp
  moreover have "filter (\<lambda>y. y \<noteq> x) xs = xs"
    using Cons.prems by (auto intro!: filter_True)
  ultimately show ?case by simp
qed simp

lemma js_set_idem [simp]: "js_set (js_set xs) = js_set xs"
  by (simp add: js_set_distinct)

lemma js_set_eq_Nil [simp]: "js_set xs = [] \<longleftrightarrow> xs = []"
  by (cases xs) auto

lemma length_js_set: "length (js_set xs) = card (set xs)"
  by (metis distinct_card distinct_js_set set_js_set)

text \<open>\<open>new Set(xs).size !== xs.length\<close> is the test for duplicates.\<close>

lemma length_js_set_iff: "length (js_set xs) = length xs \<longleftrightarrow> distinct xs"
  by (simp add: length_js_set card_distinct distinct_card eq_commute [of _ "length xs"])
     (metis card_distinct distinct_card)

text \<open>
  \<open>new Map(entries)\<close>: a later entry overwrites the value of an earlier one and keeps its
  position, which is \<open>AList.update\<close>.
\<close>

definition js_map :: "('k \<times> 'v) list \<Rightarrow> ('k \<times> 'v) list" where
  "js_map es = foldl (\<lambda>m e. AList.update (fst e) (snd e) m) [] es"

lemma keys_foldl_update:
  "set (map fst (foldl (\<lambda>m e. AList.update (fst e) (snd e) m) m es)) =
     set (map fst m) \<union> fst ` set es"
  by (induction es arbitrary: m) (auto simp: dom_update)

lemma keys_js_map: "set (map fst (js_map es)) = fst ` set es"
  unfolding js_map_def by (subst keys_foldl_update) simp

lemma distinct_foldl_update:
  "distinct (map fst m) \<Longrightarrow>
   distinct (map fst (foldl (\<lambda>m e. AList.update (fst e) (snd e) m) m es))"
  by (induction es arbitrary: m) (simp_all add: distinct_update)

lemma distinct_js_map [simp]: "distinct (map fst (js_map es))"
  unfolding js_map_def by (rule distinct_foldl_update) simp

lemma map_of_foldl_update:
  "map_of (foldl (\<lambda>m e. AList.update (fst e) (snd e) m) m es) = map_of m ++ map_of (rev es)"
proof (induction es arbitrary: m)
  case (Cons e es)
  have upd: "map_of (AList.update (fst e) (snd e) m) = (map_of m)(fst e \<mapsto> snd e)"
    by (simp add: update_conv')
  show ?case
    by (simp only: foldl_Cons Cons.IH upd)
       (auto simp: fun_eq_iff map_add_def split: option.splits prod.splits)
qed simp

text \<open>The lookup of a map built from entries: the last entry of a key wins.\<close>

lemma map_of_js_map: "map_of (js_map es) = map_of (rev es)"
  unfolding js_map_def by (simp add: map_of_foldl_update)

lemma js_map_Nil [simp]: "js_map [] = []"
  by (simp add: js_map_def)

lemma js_map_in_set: "e \<in> set (js_map es) \<Longrightarrow> e \<in> set es"
proof -
  assume "e \<in> set (js_map es)"
  moreover have "distinct (map fst (js_map es))" by simp
  ultimately have "map_of (js_map es) (fst e) = Some (snd e)"
    by (metis map_of_eq_Some_iff prod.collapse)
  then have "map_of (rev es) (fst e) = Some (snd e)" by (simp add: map_of_js_map)
  then show "e \<in> set es" by (metis map_of_SomeD prod.collapse set_rev)
qed

subsection \<open>Stable sorting with a comparator\<close>

text \<open>
  \<open>xs.sort(cmp)\<close> is stable; \<open>before a b\<close> is \<open>cmp(a, b) < 0\<close>. An element is inserted in front
  of the first one that it does not follow.
\<close>

fun insert_by :: "('a \<Rightarrow> 'a \<Rightarrow> bool) \<Rightarrow> 'a \<Rightarrow> 'a list \<Rightarrow> 'a list" where
  "insert_by before x [] = [x]"
| "insert_by before x (y # ys) = (if before y x then y # insert_by before x ys else x # y # ys)"

fun sort_by :: "('a \<Rightarrow> 'a \<Rightarrow> bool) \<Rightarrow> 'a list \<Rightarrow> 'a list" where
  "sort_by before [] = []"
| "sort_by before (x # xs) = insert_by before x (sort_by before xs)"

lemma mset_insert_by [simp]: "mset (insert_by before x xs) = add_mset x (mset xs)"
  by (induction xs) auto

lemma mset_sort_by [simp]: "mset (sort_by before xs) = mset xs"
  by (induction xs) auto

lemma set_sort_by [simp]: "set (sort_by before xs) = set xs"
  by (metis mset_sort_by set_mset_mset)

lemma length_sort_by [simp]: "length (sort_by before xs) = length xs"
  by (metis mset_sort_by size_mset)

lemma distinct_map_sort_by: "distinct (map f (sort_by before xs)) \<longleftrightarrow> distinct (map f xs)"
  by (metis mset_sort_by mset_map mset_eq_imp_distinct_iff)

text \<open>
  No element comes before the first one of the result, for a comparator that is asymmetric and whose
  negation is transitive on the elements.
\<close>

lemma sort_by_hd:
  assumes "\<And>x y. x \<in> set xs \<Longrightarrow> y \<in> set xs \<Longrightarrow> before x y \<Longrightarrow> \<not> before y x"
    and "\<And>x y z. x \<in> set xs \<Longrightarrow> y \<in> set xs \<Longrightarrow> z \<in> set xs \<Longrightarrow>
           \<not> before x y \<Longrightarrow> \<not> before y z \<Longrightarrow> \<not> before x z"
    and "y \<in> set xs"
  shows "\<not> before y (hd (sort_by before xs))"
  using assms
proof (induction xs arbitrary: y)
  case (Cons x xs)
  have irrefl: "\<not> before x x" using Cons.prems(1) [of x x] by auto
  show ?case
  proof (cases "sort_by before xs")
    case Nil
    then have "xs = []" by (metis set_empty2 set_sort_by)
    with Cons.prems(3) irrefl show ?thesis by simp
  next
    case (Cons h t)
    then have h: "h \<in> set xs" by (metis list.set_intros(1) set_sort_by)
    have IH: "\<not> before z h" if "z \<in> set xs" for z
    proof -
      have "\<not> before z (hd (sort_by before xs))"
      proof (rule Cons.IH [OF _ _ that])
        show "\<not> before v u" if "u \<in> set xs" "v \<in> set xs" "before u v" for u v
          using Cons.prems(1) [of u v] that by simp
        show "\<not> before u w" if "u \<in> set xs" "v \<in> set xs" "w \<in> set xs" "\<not> before u v" "\<not> before v w" for u v w
          using Cons.prems(2) [of u v w] that by simp
      qed
      then show ?thesis by (simp add: Cons)
    qed
    show ?thesis
    proof (cases "before h x")
      case True
      with Cons Cons.prems(1) [of h x] Cons.prems(3) IH h show ?thesis by auto
    next
      case False
      have "\<not> before y x"
      proof (cases "y = x")
        case False
        with Cons.prems(3) have "y \<in> set xs" by simp
        with IH Cons.prems(2) [of y h x] h \<open>\<not> before h x\<close> show ?thesis by simp
      qed (simp add: irrefl)
      with False Cons show ?thesis by simp
    qed
  qed
next
  case Nil
  from Nil.prems(3) show ?case by simp
qed


subsection \<open>Strings\<close>

text \<open>
  A \<open>string\<close> is a list of code units below 256 (the Latin-1 range of UTF-16). \<open>trim\<close> removes the
  white space and line terminators of that range: tab, line feed, vertical tab, form feed,
  carriage return, space and no-break space.
\<close>

definition is_space :: "char \<Rightarrow> bool" where
  "is_space c \<longleftrightarrow> (let n = (of_char c :: nat) in (9 \<le> n \<and> n \<le> 13) \<or> n = 32 \<or> n = 160)"

definition js_trim :: "string \<Rightarrow> string" where
  "js_trim s = rev (dropWhile is_space (rev (dropWhile is_space s)))"

lemma js_trim_eq_Nil: "js_trim s = [] \<longleftrightarrow> (\<forall>c\<in>set s. is_space c)"
proof -
  have "js_trim s = [] \<longleftrightarrow> (\<forall>c\<in>set (dropWhile is_space s). is_space c)"
    by (simp add: js_trim_def dropWhile_eq_Nil_conv)
  also have "\<dots> \<longleftrightarrow> (\<forall>c\<in>set s. is_space c)"
    by (metis dropWhile_eq_Nil_conv hd_dropWhile list.set_sel(1) empty_iff empty_set)
  finally show ?thesis .
qed

text \<open>ASCII case mapping (letters above 127 are left unchanged).\<close>

definition lower_char :: "char \<Rightarrow> char" where
  "lower_char c = (let n = (of_char c :: nat) in if 65 \<le> n \<and> n \<le> 90 then char_of (n + 32) else c)"

definition upper_char :: "char \<Rightarrow> char" where
  "upper_char c = (let n = (of_char c :: nat) in if 97 \<le> n \<and> n \<le> 122 then char_of (n - 32) else c)"

definition to_lower :: "string \<Rightarrow> string" where
  "to_lower s = map lower_char s"

definition to_upper :: "string \<Rightarrow> string" where
  "to_upper s = map upper_char s"

definition starts_with :: "string \<Rightarrow> string \<Rightarrow> bool" where
  "starts_with p s \<longleftrightarrow> take (length p) s = p"

lemma starts_with_iff: "starts_with p s \<longleftrightarrow> (\<exists>r. s = p @ r)"
  unfolding starts_with_def by (metis append_eq_conv_conj append_take_drop_id)

lemma starts_with_code [code]:
  "starts_with [] s \<longleftrightarrow> True"
  "starts_with (c # p) [] \<longleftrightarrow> False"
  "starts_with (c # p) (d # s) \<longleftrightarrow> c = d \<and> starts_with p s"
  by (auto simp: starts_with_def)

text \<open>\<open>s.includes(sub)\<close>\<close>

fun includes_str :: "string \<Rightarrow> string \<Rightarrow> bool" where
  "includes_str sub [] = (sub = [])"
| "includes_str sub (c # cs) = (starts_with sub (c # cs) \<or> includes_str sub cs)"

lemma includes_str_iff: "includes_str sub s \<longleftrightarrow> (\<exists>l r. s = l @ sub @ r)"
proof (induction s)
  case (Cons c cs)
  show ?case
  proof
    assume "includes_str sub (c # cs)"
    then consider "starts_with sub (c # cs)" | "includes_str sub cs" by auto
    then show "\<exists>l r. c # cs = l @ sub @ r"
    proof cases
      case 1
      then show ?thesis unfolding starts_with_iff by (metis append_Nil)
    next
      case 2
      with Cons.IH show ?thesis by (metis append_Cons)
    qed
  next
    assume "\<exists>l r. c # cs = l @ sub @ r"
    then obtain l r where lr: "c # cs = l @ sub @ r" by blast
    show "includes_str sub (c # cs)"
    proof (cases l)
      case Nil
      with lr have "starts_with sub (c # cs)" by (auto simp: starts_with_iff)
      then show ?thesis by simp
    next
      case (Cons a l')
      with lr have "cs = l' @ sub @ r" by simp
      with Cons.IH show ?thesis by auto
    qed
  qed
qed auto

text \<open>\<open>s.split(sep).join(by)\<close> for a non-empty separator: replace every occurrence, left to right.\<close>

function replace_all :: "string \<Rightarrow> string \<Rightarrow> string \<Rightarrow> string" where
  "replace_all sep by [] = []"
| "replace_all sep by (c # cs) =
     (if sep \<noteq> [] \<and> starts_with sep (c # cs)
      then by @ replace_all sep by (drop (length sep) (c # cs))
      else c # replace_all sep by cs)"
  by pat_completeness auto
termination
  by (relation "measure (\<lambda>(sep, by, s). length s)") (auto simp: length_greater_0_conv)

text \<open>Decimal numerals.\<close>

definition digit_char :: "nat \<Rightarrow> char" where
  "digit_char d = char_of (48 + d)"

fun nat_str :: "nat \<Rightarrow> string" where
  "nat_str n = (if n < 10 then [digit_char n] else nat_str (n div 10) @ [digit_char (n mod 10)])"

declare nat_str.simps [simp del]

definition int_str :: "int \<Rightarrow> string" where
  "int_str i = (if i < 0 then CHR ''-'' # nat_str (nat (- i)) else nat_str (nat i))"

definition is_digit :: "char \<Rightarrow> bool" where
  "is_digit c \<longleftrightarrow> 48 \<le> (of_char c :: nat) \<and> (of_char c :: nat) \<le> 57"

definition digit_val :: "char \<Rightarrow> nat" where
  "digit_val c = of_char c - 48"

lemma of_digit_char [simp]: "d < 10 \<Longrightarrow> of_char (digit_char d) = 48 + d"
  by (simp add: digit_char_def)

lemma is_digit_digit_char [simp]: "d < 10 \<Longrightarrow> is_digit (digit_char d)"
  by (simp add: is_digit_def)

lemma digit_val_digit_char [simp]: "d < 10 \<Longrightarrow> digit_val (digit_char d) = d"
  by (simp add: digit_val_def)

definition num_of_digits :: "string \<Rightarrow> nat" where
  "num_of_digits s = foldl (\<lambda>n c. 10 * n + digit_val c) 0 s"

lemma num_of_digits_snoc: "num_of_digits (s @ [c]) = 10 * num_of_digits s + digit_val c"
  by (simp add: num_of_digits_def)

lemma num_of_nat_str [simp]: "num_of_digits (nat_str n) = n"
proof (induction n rule: nat_str.induct)
  case (1 n)
  show ?case
  proof (cases "n < 10")
    case True
    then show ?thesis by (subst nat_str.simps) (simp add: num_of_digits_def)
  next
    case False
    with 1 have "num_of_digits (nat_str (n div 10)) = n div 10" by simp
    with False show ?thesis by (subst nat_str.simps) (simp add: num_of_digits_snoc)
  qed
qed

lemma nat_str_digits: "c \<in> set (nat_str n) \<Longrightarrow> is_digit c"
proof (induction n rule: nat_str.induct)
  case (1 n)
  then show ?case by (cases "n < 10") (auto simp: nat_str.simps [of n])
qed

lemma nat_str_inj [simp]: "nat_str m = nat_str n \<longleftrightarrow> m = n"
  by (metis num_of_nat_str)

lemma nat_str_not_Nil [simp]: "nat_str n \<noteq> []"
  by (subst nat_str.simps) simp

text \<open>\<open>xs.join(sep)\<close>\<close>

fun join :: "string \<Rightarrow> string list \<Rightarrow> string" where
  "join sep [] = []"
| "join sep [x] = x"
| "join sep (x # y # ys) = x @ sep @ join sep (y # ys)"

text \<open>A lowercase hexadecimal string, \<open>/^[a-f0-9]{n}$/\<close>.\<close>

definition is_hex_char :: "char \<Rightarrow> bool" where
  "is_hex_char c \<longleftrightarrow> is_digit c \<or> (97 \<le> (of_char c :: nat) \<and> (of_char c :: nat) \<le> 102)"

definition is_hex :: "nat \<Rightarrow> string \<Rightarrow> bool" where
  "is_hex n s \<longleftrightarrow> length s = n \<and> list_all is_hex_char s"

end
