(* ===== verification/Js_Value.thy ===== *)
theory Js_Value
  imports Prelude
begin

section \<open>JavaScript values\<close>

text \<open>
  The untyped values the code receives from JSON documents, and the operators it applies to them:
  property access with and without \<open>?.\<close>, \<open>??\<close>, truthiness, strict equality, string conversion,
  \<open>Object.hasOwn\<close>, \<open>Array.isArray\<close>, object literals and spreads.

  Numbers are the integers JSON documents of this program carry (\<open>JNum\<close>) and the finite
  non-integral numbers (\<open>JFrac\<close>, kept as the literal \<open>Number.prototype.toString\<close> prints for them).
  An object is the list of its own properties in enumeration order. Objects are immutable values
  here: every record the modelled code builds is frozen (\<open>deepFreeze\<close>) or cloned
  (\<open>structuredClone\<close>), both the identity on values.
\<close>

datatype jsv =
    JUndef
  | JNull
  | JBool bool
  | JNum int
  | JFrac string
  | JStr string
  | JArr "jsv list"
  | JObj "(string \<times> jsv) list"

subsection \<open>Kinds of values\<close>

fun nullish :: "jsv \<Rightarrow> bool" where
  "nullish JUndef = True"
| "nullish JNull = True"
| "nullish _ = False"

text \<open>\<open>value !== null && typeof value === "object" && !Array.isArray(value)\<close>\<close>

fun is_plain_object :: "jsv \<Rightarrow> bool" where
  "is_plain_object (JObj _) = True"
| "is_plain_object _ = False"

text \<open>\<open>value !== null && typeof value === "object"\<close>, which arrays satisfy too\<close>

fun is_object :: "jsv \<Rightarrow> bool" where
  "is_object (JObj _) = True"
| "is_object (JArr _) = True"
| "is_object _ = False"

fun is_array :: "jsv \<Rightarrow> bool" where
  "is_array (JArr _) = True"
| "is_array _ = False"

fun is_string :: "jsv \<Rightarrow> bool" where
  "is_string (JStr _) = True"
| "is_string _ = False"

lemma is_string_iff: "is_string v \<longleftrightarrow> (\<exists>s. v = JStr s)"
  by (cases v) auto

lemma is_array_iff: "is_array v \<longleftrightarrow> (\<exists>xs. v = JArr xs)"
  by (cases v) auto

lemma is_plain_object_iff: "is_plain_object v \<longleftrightarrow> (\<exists>fs. v = JObj fs)"
  by (cases v) auto

fun truthy :: "jsv \<Rightarrow> bool" where
  "truthy JUndef = False"
| "truthy JNull = False"
| "truthy (JBool b) = b"
| "truthy (JNum i) = (i \<noteq> 0)"
| "truthy (JStr s) = (s \<noteq> [])"
| "truthy _ = True"

text \<open>\<open>a ?? b\<close>\<close>

definition coalesce :: "jsv \<Rightarrow> jsv \<Rightarrow> jsv" where
  "coalesce a b = (if nullish a then b else a)"

lemma coalesce_simps [simp]:
  "coalesce JUndef b = b" "coalesce JNull b = b" "coalesce (JBool x) b = JBool x"
  "coalesce (JNum i) b = JNum i" "coalesce (JFrac s) b = JFrac s" "coalesce (JStr s) b = JStr s"
  "coalesce (JArr xs) b = JArr xs" "coalesce (JObj fs) b = JObj fs"
  by (simp_all add: coalesce_def)

text \<open>
  \<open>a === b\<close>. Two objects or arrays are equal only when they are the same reference, which two
  separately parsed values never are.
\<close>

definition strict_eq :: "jsv \<Rightarrow> jsv \<Rightarrow> bool" where
  "strict_eq a b \<longleftrightarrow> a = b \<and> \<not> is_object a"

lemma strict_eq_str [simp]: "strict_eq (JStr s) v \<longleftrightarrow> v = JStr s" "strict_eq v (JStr s) \<longleftrightarrow> v = JStr s"
  by (auto simp: strict_eq_def)

lemma strict_eq_num [simp]: "strict_eq (JNum i) v \<longleftrightarrow> v = JNum i" "strict_eq v (JNum i) \<longleftrightarrow> v = JNum i"
  by (auto simp: strict_eq_def)

lemma strict_eq_bool [simp]: "strict_eq v (JBool b) \<longleftrightarrow> v = JBool b"
  by (auto simp: strict_eq_def)

lemma strict_eqD: "strict_eq a b \<Longrightarrow> a = b"
  by (simp add: strict_eq_def)

text \<open>\<open>a > b\<close> on two integers; a comparison with anything else is not made by the modelled code.\<close>

fun num_gt :: "jsv \<Rightarrow> jsv \<Rightarrow> bool" where
  "num_gt (JNum a) (JNum b) = (a > b)"
| "num_gt _ _ = False"

lemma num_gt_iff: "num_gt a b \<longleftrightarrow> (\<exists>i j. a = JNum i \<and> b = JNum j \<and> i > j)"
  by (cases a; cases b) simp_all

text \<open>\<open>xs.includes(v)\<close> on an array of values\<close>

definition arr_includes :: "jsv list \<Rightarrow> jsv \<Rightarrow> bool" where
  "arr_includes xs v \<longleftrightarrow> list_ex (\<lambda>x. strict_eq x v) xs"

lemma arr_includes_strs:
  "arr_includes (map JStr ss) v \<longleftrightarrow> (\<exists>s\<in>set ss. v = JStr s)"
  by (induction ss) (auto simp: arr_includes_def)

text \<open>\<open>[...constants].includes(v)\<close> where the constants are strings\<close>

definition one_of :: "string list \<Rightarrow> jsv \<Rightarrow> bool" where
  "one_of ss v = (case v of JStr s \<Rightarrow> s \<in> set ss | _ \<Rightarrow> False)"

lemma one_of_str [simp]: "one_of ss (JStr s) \<longleftrightarrow> s \<in> set ss"
  by (simp add: one_of_def)

lemma one_of_iff: "one_of ss v \<longleftrightarrow> (\<exists>s\<in>set ss. v = JStr s)"
  by (cases v) (auto simp: one_of_def)

lemma one_of_other [simp]:
  "\<not> one_of ss JUndef" "\<not> one_of ss JNull" "\<not> one_of ss (JBool b)" "\<not> one_of ss (JNum i)"
  "\<not> one_of ss (JFrac f)" "\<not> one_of ss (JArr xs)" "\<not> one_of ss (JObj fs)"
  by (simp_all add: one_of_def)

subsection \<open>Property access\<close>

text \<open>
  A key that is an array index is the decimal numeral of a number below \<open>2^32 - 1\<close> without leading
  zeros.
\<close>

definition index_key :: "string \<Rightarrow> nat option" where
  "index_key k =
     (if k \<noteq> [] \<and> list_all is_digit k \<and> nat_str (num_of_digits k) = k
         \<and> num_of_digits k < 2 ^ 32 - 1
      then Some (num_of_digits k) else None)"

definition elem_at :: "'a list \<Rightarrow> string \<Rightarrow> 'a option" where
  "elem_at xs k =
     (case index_key k of None \<Rightarrow> None | Some i \<Rightarrow> if i < length xs then Some (xs ! i) else None)"

text \<open>The own property of a value, as \<open>Object.hasOwn\<close> and property reads find it.\<close>

fun own_prop :: "jsv \<Rightarrow> string \<Rightarrow> jsv option" where
  "own_prop (JObj fs) k = map_of fs k"
| "own_prop (JArr xs) k = (if k = ''length'' then Some (JNum (int (length xs))) else elem_at xs k)"
| "own_prop (JStr s) k =
     (if k = ''length'' then Some (JNum (int (length s)))
      else map_option (\<lambda>c. JStr [c]) (elem_at s k))"
| "own_prop _ k = None"

definition has_own :: "jsv \<Rightarrow> string \<Rightarrow> bool" where
  "has_own v k \<longleftrightarrow> own_prop v k \<noteq> None"

text \<open>\<open>v?.k\<close>: \<open>undefined\<close> where \<open>v\<close> is nullish or has no such property.\<close>

definition oget :: "jsv \<Rightarrow> string \<Rightarrow> jsv" where
  "oget v k = (case own_prop v k of None \<Rightarrow> JUndef | Some x \<Rightarrow> x)"

text \<open>\<open>v.k\<close>: reading a property of \<open>undefined\<close> or \<open>null\<close> throws.\<close>

definition pget :: "jsv \<Rightarrow> string \<Rightarrow> jsv res" where
  "pget v k =
     (if nullish v
      then Inl (NativeErr (''Cannot read properties of ''
             @ (if v = JNull then ''null'' else ''undefined'') @ '' (reading '' @ [CHR 0x27] @ k @ [CHR 0x27] @ '')''))
      else Inr (oget v k))"

lemma oget_simps [simp]:
  "oget JUndef k = JUndef" "oget JNull k = JUndef" "oget (JBool b) k = JUndef"
  "oget (JNum i) k = JUndef" "oget (JFrac f) k = JUndef"
  "oget (JObj fs) k = (case map_of fs k of None \<Rightarrow> JUndef | Some x \<Rightarrow> x)"
  by (simp_all add: oget_def)

lemma has_own_obj [simp]: "has_own (JObj fs) k \<longleftrightarrow> k \<in> fst ` set fs"
  by (auto simp: has_own_def map_of_eq_None_iff)

lemma pget_obj [simp]: "pget (JObj fs) k = Inr (oget (JObj fs) k)"
  by (simp add: pget_def)

lemma pget_Inr [res_simps]: "pget v k = Inr x \<longleftrightarrow> \<not> nullish v \<and> x = oget v k"
  by (auto simp: pget_def)

lemma oget_not_undef: "oget v k \<noteq> JUndef \<Longrightarrow> \<not> nullish v"
  by (cases v) auto

text \<open>The elements of \<open>xs ?? []\<close> where the code iterates it: a value that is not an array is not
  iterable (a string would be; no caller passes one).\<close>

fun array_elems :: "jsv \<Rightarrow> jsv list res" where
  "array_elems (JArr xs) = Inr xs"
| "array_elems _ = Inl (NativeErr ''value is not iterable'')"

text \<open>\<open>Array.isArray(value) ? value : []\<close>, for reading elements already known to be an array.\<close>

fun elems :: "jsv \<Rightarrow> jsv list" where
  "elems (JArr xs) = xs"
| "elems _ = []"

fun props :: "jsv \<Rightarrow> (string \<times> jsv) list" where
  "props (JObj fs) = fs"
| "props _ = []"

fun str_of :: "jsv \<Rightarrow> string" where
  "str_of (JStr s) = s"
| "str_of _ = []"

subsection \<open>String conversion\<close>

text \<open>\<open>String(v)\<close>, also the conversion of a property key; nested arrays join with commas.\<close>

fun js_string :: "jsv \<Rightarrow> string" where
  "js_string JUndef = ''undefined''"
| "js_string JNull = ''null''"
| "js_string (JBool b) = (if b then ''true'' else ''false'')"
| "js_string (JNum i) = int_str i"
| "js_string (JFrac f) = f"
| "js_string (JStr s) = s"
| "js_string (JArr xs) = join '','' (map (\<lambda>x. if nullish x then [] else js_string x) xs)"
| "js_string (JObj fs) = ''[object Object]''"

text \<open>
  \<open>table[v]\<close> where the table is an object literal: a key that is a member name of
  \<open>Object.prototype\<close> finds a built-in function or object there, which is truthy and equals no other
  value (it stands here as an empty object).
\<close>

definition prototype_members :: "string list" where
  "prototype_members = [''constructor'', ''__defineGetter__'', ''__defineSetter__'', ''hasOwnProperty'',
     ''__lookupGetter__'', ''__lookupSetter__'', ''isPrototypeOf'', ''propertyIsEnumerable'', ''toString'',
     ''valueOf'', ''__proto__'', ''toLocaleString'']"

definition literal_get :: "(string \<times> jsv) list \<Rightarrow> jsv \<Rightarrow> jsv" where
  "literal_get table v = (case map_of table (js_string v) of
      Some x \<Rightarrow> x
    | None \<Rightarrow> if js_string v \<in> set prototype_members then JObj [] else JUndef)"

subsection \<open>Building objects\<close>

text \<open>
  An object literal \<open>{ k1: e1, ..., kn: en }\<close> whose member expressions may throw: they are
  evaluated in order and the first error is the result.
\<close>

fun mk_props :: "(string \<times> jsv res) list \<Rightarrow> (string \<times> jsv) list res" where
  "mk_props [] = Inr []"
| "mk_props ((k, r) # es) = bnd r (\<lambda>v. bnd (mk_props es) (\<lambda>fs. Inr ((k, v) # fs)))"

definition mk_obj :: "(string \<times> jsv res) list \<Rightarrow> jsv res" where
  "mk_obj es = bnd (mk_props es) (\<lambda>fs. Inr (JObj fs))"

text \<open>\<open>{ ...base, k1: v1, ... }\<close>: a later member replaces an earlier one in place.\<close>

definition spread :: "(string \<times> jsv) list \<Rightarrow> (string \<times> jsv) list \<Rightarrow> (string \<times> jsv) list" where
  "spread base es = foldl (\<lambda>m e. AList.update (fst e) (snd e) m) base es"

text \<open>\<open>delete o.k\<close>, and the rest pattern \<open>{ k: _, ...rest }\<close>.\<close>

definition without :: "string list \<Rightarrow> (string \<times> jsv) list \<Rightarrow> (string \<times> jsv) list" where
  "without ks fs = filter (\<lambda>p. fst p \<notin> set ks) fs"

lemma mk_props_Inr_iff:
  "mk_props es = Inr fs \<longleftrightarrow> list_all2 (\<lambda>e f. fst f = fst e \<and> snd e = Inr (snd f)) es fs"
proof (induction es arbitrary: fs)
  case (Cons e es)
  obtain k r where e: "e = (k, r)" by (cases e)
  show ?case
    by (cases fs) (auto simp: e bnd_eq_Inr Cons.IH)
qed auto

lemma mk_props_keys: "mk_props es = Inr fs \<Longrightarrow> map fst fs = map fst es"
  by (induction es arbitrary: fs) (auto simp: bnd_eq_Inr)

lemma mk_props_map_of:
  "mk_props es = Inr fs \<Longrightarrow> map_of es k = Some r \<Longrightarrow> \<exists>v. r = Inr v \<and> map_of fs k = Some v"
proof (induction es arbitrary: fs)
  case (Cons e es)
  obtain k' r' where e: "e = (k', r')" by (cases e)
  from Cons.prems(1) obtain v' fs' where
    v': "r' = Inr v'" and fs': "mk_props es = Inr fs'" and fs: "fs = (k', v') # fs'"
    by (auto simp: e bnd_eq_Inr)
  show ?case
  proof (cases "k' = k")
    case True
    with Cons.prems(2) v' fs e show ?thesis by simp
  next
    case False
    with Cons.prems(2) e have "map_of es k = Some r" by simp
    from Cons.IH [OF fs' this] False fs show ?thesis by simp
  qed
qed simp

lemma mk_obj_Inr [res_simps]: "mk_obj es = Inr v \<longleftrightarrow> (\<exists>fs. mk_props es = Inr fs \<and> v = JObj fs)"
  by (auto simp: mk_obj_def bnd_eq_Inr)

lemma mk_props_Cons_Inr [res_simps]:
  "mk_props ((k, r) # es) = Inr fs \<longleftrightarrow>
     (\<exists>v fs'. r = Inr v \<and> mk_props es = Inr fs' \<and> fs = (k, v) # fs')"
  by (auto simp: bnd_eq_Inr)

lemma mk_props_Nil_Inr [res_simps]: "mk_props [] = Inr fs \<longleftrightarrow> fs = []"
  by auto

text \<open>The member of a constructed object is the value its expression returned.\<close>

lemma mk_obj_member:
  assumes "mk_obj es = Inr v" and "map_of es k = Some r"
  shows "r = Inr (oget v k)"
proof -
  from assms(1) obtain fs where "mk_props es = Inr fs" "v = JObj fs"
    by (auto simp: mk_obj_Inr)
  with mk_props_map_of [OF _ assms(2)] show ?thesis by auto
qed

lemma map_of_spread: "map_of (spread base es) = map_of base ++ map_of (rev es)"
  by (simp add: spread_def map_of_foldl_update)

text \<open>\<open>{ ...base, k1: e1, ... }\<close> where the members may throw.\<close>

definition spread_obj :: "jsv \<Rightarrow> (string \<times> jsv res) list \<Rightarrow> jsv res" where
  "spread_obj base es = bnd (mk_props es) (\<lambda>fs. Inr (JObj (spread (props base) fs)))"

lemma mk_props_map_of_rev:
  "mk_props es = Inr fs \<Longrightarrow> map_of (rev es) k = Some r \<Longrightarrow> \<exists>v. r = Inr v \<and> map_of (rev fs) k = Some v"
  by (rule mk_props_map_of) (auto simp: mk_props_Inr_iff)

lemma spread_obj_member:
  assumes "spread_obj base es = Inr v" and "map_of (rev es) k = Some r"
  shows "r = Inr (oget v k)"
proof -
  from assms(1) obtain fs where "mk_props es = Inr fs" "v = JObj (spread (props base) fs)"
    by (auto simp: spread_obj_def bnd_eq_Inr)
  with mk_props_map_of_rev [OF _ assms(2)] show ?thesis by (auto simp: map_of_spread)
qed

lemma spread_obj_other:
  assumes "spread_obj base es = Inr v" and "k \<notin> set (map fst es)"
  shows "oget v k = oget (JObj (props base)) k"
proof -
  from assms(1) obtain fs where fs: "mk_props es = Inr fs" "v = JObj (spread (props base) fs)"
    by (auto simp: spread_obj_def bnd_eq_Inr)
  have "map_of (rev fs) k = None"
    using assms(2) arg_cong [OF mk_props_keys [OF fs(1)], of set] by (simp add: map_of_eq_None_iff)
  then show ?thesis by (simp add: fs(2) map_of_spread map_add_def)
qed

subsection \<open>Sets and default sorting of values\<close>

text \<open>\<open>[...new Set(xs)]\<close> on values: two objects are different members even when they look alike.\<close>

fun js_value_set :: "jsv list \<Rightarrow> jsv list" where
  "js_value_set [] = []"
| "js_value_set (x # xs) = x # filter (\<lambda>y. \<not> strict_eq x y) (js_value_set xs)"

lemma js_value_set_subset: "set (js_value_set xs) \<subseteq> set xs"
  by (induction xs) auto

lemma js_value_set_Nil [simp]: "js_value_set xs = [] \<longleftrightarrow> xs = []"
  by (cases xs) auto

lemma js_value_set_scalar: "list_all (\<lambda>x. \<not> is_object x) xs \<Longrightarrow> js_value_set xs = js_set xs"
proof (induction xs)
  case (Cons x xs)
  then have *: "js_value_set xs = js_set xs" "\<not> is_object x" by simp_all
  then have "filter (\<lambda>y. \<not> strict_eq x y) (js_set xs) = filter (\<lambda>y. y \<noteq> x) (js_set xs)"
    by (intro filter_cong) (auto simp: strict_eq_def)
  with * show ?case by simp
qed simp

lemma js_value_set_strs: "list_all is_string xs \<Longrightarrow> js_value_set xs = js_set xs"
  by (rule js_value_set_scalar) (auto simp: list_all_iff is_string_iff)

text \<open>\<open>xs.sort()\<close> without a comparator: by \<open>String(x)\<close>, stable, \<open>undefined\<close> last.\<close>

definition js_sort :: "jsv list \<Rightarrow> jsv list" where
  "js_sort xs = sort_key js_string (filter (\<lambda>x. x \<noteq> JUndef) xs) @ filter (\<lambda>x. x = JUndef) xs"

lemma set_js_sort [simp]: "set (js_sort xs) = set xs"
  by (auto simp: js_sort_def)

lemma mset_js_sort [simp]: "mset (js_sort xs) = mset xs"
  by (simp add: js_sort_def)

lemma js_sort_Nil [simp]: "js_sort xs = [] \<longleftrightarrow> xs = []"
  by (metis mset_js_sort mset_zero_iff)

subsection \<open>Well-formed JSON values\<close>

text \<open>
  \<open>wf_js\<close>: the property names of every object are distinct, and a \<open>JFrac\<close> literal is the printed
  form of a non-integral number. \<open>json_value\<close>: moreover nothing is \<open>undefined\<close>, which holds of
  every parsed document.
\<close>

definition num_char :: "char \<Rightarrow> bool" where
  "num_char c \<longleftrightarrow> is_digit c \<or> c \<in> {CHR ''-'', CHR ''+'', CHR ''.'', CHR ''e''}"

definition frac_literal :: "string \<Rightarrow> bool" where
  "frac_literal s \<longleftrightarrow> list_all num_char s \<and> (CHR ''.'' \<in> set s \<or> CHR ''e'' \<in> set s)
     \<and> s \<noteq> [] \<and> (is_digit (hd s) \<or> hd s = CHR ''-'')"

fun wf_js :: "jsv \<Rightarrow> bool" where
  "wf_js (JFrac s) = frac_literal s"
| "wf_js (JArr xs) = (\<forall>x\<in>set xs. wf_js x)"
| "wf_js (JObj fs) = (distinct (map fst fs) \<and> (\<forall>p\<in>set fs. wf_js (snd p)))"
| "wf_js _ = True"

fun json_value :: "jsv \<Rightarrow> bool" where
  "json_value JUndef = False"
| "json_value (JFrac s) = frac_literal s"
| "json_value (JArr xs) = (\<forall>x\<in>set xs. json_value x)"
| "json_value (JObj fs) = (distinct (map fst fs) \<and> (\<forall>p\<in>set fs. json_value (snd p)))"
| "json_value _ = True"

lemma json_value_wf: "json_value v \<Longrightarrow> wf_js v"
  by (induction v) auto

end
