(* ===== verification/Sha256.thy ===== *)
theory Sha256
  imports Prelude "HOL-Library.Word"
begin

section \<open>SHA-256 and HMAC-SHA256\<close>

text \<open>
  The two functions of \<open>node:crypto\<close> the code calls: \<open>createHash("sha256").update(s).digest("hex")\<close>
  and \<open>createHmac("sha256", key).update(s).digest("hex")\<close>, written out after FIPS 180-4 and
  RFC 2104 on 32-bit words. A string is hashed as its UTF-8 encoding. The development never needs
  more of them than that they are functions with a 64-digit lowercase hexadecimal result;
  they are executable, and evaluate to the published digests on the test vectors of the standards.
\<close>

unbundle bit_operations_syntax

type_synonym w32 = "32 word"

definition utf8 :: "string \<Rightarrow> int list" where
  "utf8 s = concat (map (\<lambda>c. let n = (of_char c :: int) in
     if n < 128 then [n] else [192 + n div 64, 128 + n mod 64]) s)"

definition rotr :: "nat \<Rightarrow> w32 \<Rightarrow> w32" where
  "rotr n x = drop_bit n x OR push_bit (32 - n) x"

definition small_sigma0 :: "w32 \<Rightarrow> w32" where
  "small_sigma0 x = rotr 7 x XOR rotr 18 x XOR drop_bit 3 x"

definition small_sigma1 :: "w32 \<Rightarrow> w32" where
  "small_sigma1 x = rotr 17 x XOR rotr 19 x XOR drop_bit 10 x"

definition big_sigma0 :: "w32 \<Rightarrow> w32" where
  "big_sigma0 x = rotr 2 x XOR rotr 13 x XOR rotr 22 x"

definition big_sigma1 :: "w32 \<Rightarrow> w32" where
  "big_sigma1 x = rotr 6 x XOR rotr 11 x XOR rotr 25 x"

definition ch :: "w32 \<Rightarrow> w32 \<Rightarrow> w32 \<Rightarrow> w32" where
  "ch x y z = (x AND y) XOR (NOT x AND z)"

definition maj :: "w32 \<Rightarrow> w32 \<Rightarrow> w32 \<Rightarrow> w32" where
  "maj x y z = (x AND y) XOR (x AND z) XOR (y AND z)"

definition round_constants :: "w32 list" where
  "round_constants =
    [1116352408, 1899447441, 3049323471, 3921009573, 961987163, 1508970993, 2453635748, 2870763221,
     3624381080, 310598401, 607225278, 1426881987, 1925078388, 2162078206, 2614888103, 3248222580,
     3835390401, 4022224774, 264347078, 604807628, 770255983, 1249150122, 1555081692, 1996064986,
     2554220882, 2821834349, 2952996808, 3210313671, 3336571891, 3584528711, 113926993, 338241895,
     666307205, 773529912, 1294757372, 1396182291, 1695183700, 1986661051, 2177026350, 2456956037,
     2730485921, 2820302411, 3259730800, 3345764771, 3516065817, 3600352804, 4094571909, 275423344,
     430227734, 506948616, 659060556, 883997877, 958139571, 1322822218, 1537002063, 1747873779,
     1955562222, 2024104815, 2227730452, 2361852424, 2428436474, 2756734187, 3204031479, 3329325298]"

type_synonym hash_state = "w32 \<times> w32 \<times> w32 \<times> w32 \<times> w32 \<times> w32 \<times> w32 \<times> w32"

definition initial_state :: hash_state where
  "initial_state = (1779033703, 3144134277, 1013904242, 2773480762,
     1359893119, 2600822924, 528734635, 1541459225)"

text \<open>The message schedule, kept with its latest word first.\<close>

fun extend_schedule :: "nat \<Rightarrow> w32 list \<Rightarrow> w32 list" where
  "extend_schedule 0 ws = ws"
| "extend_schedule (Suc n) ws =
     extend_schedule n
       ((small_sigma1 (ws ! 1) + ws ! 6 + small_sigma0 (ws ! 14) + ws ! 15) # ws)"

fun hash_round :: "hash_state \<Rightarrow> w32 \<times> w32 \<Rightarrow> hash_state" where
  "hash_round (a, b, c, d, e, f, g, h) (k, w) =
     (let t1 = h + big_sigma1 e + ch e f g + k + w;
          t2 = big_sigma0 a + maj a b c
      in (t1 + t2, a, b, c, d + t1, e, f, g))"

fun add_state :: "hash_state \<Rightarrow> hash_state \<Rightarrow> hash_state" where
  "add_state (a, b, c, d, e, f, g, h) (a', b', c', d', e', f', g', h') =
     (a + a', b + b', c + c', d + d', e + e', f + f', g + g', h + h')"

definition compress :: "hash_state \<Rightarrow> w32 list \<Rightarrow> hash_state" where
  "compress st block =
     add_state st (foldl hash_round st (zip round_constants (rev (extend_schedule 48 (rev block)))))"

definition be_word :: "int list \<Rightarrow> w32" where
  "be_word bs = of_int (foldl (\<lambda>n b. 256 * n + b) 0 bs)"

fun chunks :: "nat \<Rightarrow> nat \<Rightarrow> 'a list \<Rightarrow> 'a list list" where
  "chunks 0 n xs = []"
| "chunks (Suc k) n xs = take n xs # chunks k n (drop n xs)"

definition be_bytes :: "nat \<Rightarrow> int \<Rightarrow> int list" where
  "be_bytes n v = map (\<lambda>i. (v div 256 ^ (n - 1 - i)) mod 256) [0..<n]"

definition pad :: "int list \<Rightarrow> int list" where
  "pad bs = (let l = length bs; z = (119 - l mod 64) mod 64
             in bs @ [128] @ replicate z 0 @ be_bytes 8 (8 * int l))"

definition state_words :: "hash_state \<Rightarrow> w32 list" where
  "state_words st = (case st of (a, b, c, d, e, f, g, h) \<Rightarrow> [a, b, c, d, e, f, g, h])"

definition sha256_bytes :: "int list \<Rightarrow> int list" where
  "sha256_bytes bs =
     (let p = pad bs;
          blocks = chunks (length p div 64) 64 p;
          final = foldl compress initial_state (map (\<lambda>b. map be_word (chunks 16 4 b)) blocks)
      in concat (map (\<lambda>w. be_bytes 4 (uint w)) (state_words final)))"

definition hex_digit :: "int \<Rightarrow> char" where
  "hex_digit d = (if d < 10 then char_of (48 + nat d) else char_of (87 + nat d))"

definition hex_of_bytes :: "int list \<Rightarrow> string" where
  "hex_of_bytes bs = concat (map (\<lambda>b. [hex_digit (b div 16 mod 16), hex_digit (b mod 16)]) bs)"

definition sha256_hex :: "string \<Rightarrow> string" where
  "sha256_hex s = hex_of_bytes (sha256_bytes (utf8 s))"

definition hmac_key_block :: "int list \<Rightarrow> int list" where
  "hmac_key_block k =
     (let k' = (if length k > 64 then sha256_bytes k else k)
      in k' @ replicate (64 - length k') 0)"

definition xor_bytes :: "int \<Rightarrow> int list \<Rightarrow> int list" where
  "xor_bytes m bs = map (\<lambda>b. b XOR m) bs"

definition hmac_sha256_hex :: "string \<Rightarrow> string \<Rightarrow> string" where
  "hmac_sha256_hex key message =
     (let k = hmac_key_block (utf8 key)
      in hex_of_bytes (sha256_bytes (xor_bytes 92 k @ sha256_bytes (xor_bytes 54 k @ utf8 message))))"

subsection \<open>The shape of a digest\<close>

lemma length_be_bytes [simp]: "length (be_bytes n v) = n"
  by (simp add: be_bytes_def)

lemma length_sha256_bytes [simp]: "length (sha256_bytes bs) = 32"
  by (simp add: sha256_bytes_def Let_def length_concat comp_def state_words_def split: prod.splits)

lemma hex_digit_hex: "0 \<le> d \<Longrightarrow> d < 16 \<Longrightarrow> is_hex_char (hex_digit d)"
  by (auto simp: hex_digit_def is_hex_char_def is_digit_def)

lemma hex_of_bytes_is_hex: "is_hex (2 * length bs) (hex_of_bytes bs)"
  by (induction bs) (auto simp: hex_of_bytes_def is_hex_def hex_digit_hex)

lemma sha256_hex_is_hex: "is_hex 64 (sha256_hex s)"
  using hex_of_bytes_is_hex [of "sha256_bytes (utf8 s)"] by (simp add: sha256_hex_def)

lemma hmac_is_hex: "is_hex 64 (hmac_sha256_hex k m)"
  using hex_of_bytes_is_hex by (simp add: hmac_sha256_hex_def Let_def) (metis length_sha256_bytes mult_2 numeral_Bit0)

end
