(* ===== verification/Canonical.thy ===== *)
theory Canonical
  imports Js_Value Sha256
begin

section \<open>Canonical JSON and content ids\<close>

text \<open>
  \<open>src/domain/canonical-json.js\<close>: the normal form under which records are compared, hashed and
  signed. The lemmas show that \<open>canonicalJson\<close> decides structural equality: it ignores the order of
  object keys and nothing else.
\<close>

subsection \<open>The code\<close>

text \<open>
  Own properties enumerate in the order of the language: array-index keys in ascending numeric
  order first, then the others in the order of their creation. \<open>Object.fromEntries\<close> of sorted
  entries therefore moves the index keys to the front.
\<close>

definition own_order :: "(string \<times> jsv) list \<Rightarrow> (string \<times> jsv) list" where
  "own_order fs =
     sort_key (\<lambda>p. the (index_key (fst p))) (filter (\<lambda>p. index_key (fst p) \<noteq> None) fs)
     @ filter (\<lambda>p. index_key (fst p) = None) fs"

lemma size_prop: "p \<in> set fs \<Longrightarrow> size (snd p) < Suc (size_list (size_prod (\<lambda>x. 0) size) fs)"
  by (induction fs) (auto simp: less_Suc_eq_le trans_le_add1 trans_le_add2)

function canonicalizeValue :: "jsv \<Rightarrow> jsv" where
  "canonicalizeValue (JArr xs) = JArr (map canonicalizeValue xs)"
| "canonicalizeValue (JObj fs) =
     JObj (own_order (sort_key fst (map (\<lambda>p. (fst p, canonicalizeValue (snd p))) fs)))"
| "canonicalizeValue JUndef = JUndef"
| "canonicalizeValue JNull = JNull"
| "canonicalizeValue (JBool b) = JBool b"
| "canonicalizeValue (JNum i) = JNum i"
| "canonicalizeValue (JFrac f) = JFrac f"
| "canonicalizeValue (JStr s) = JStr s"
  by pat_completeness auto
termination
  by (relation "measure size") (auto dest: size_prop simp: less_Suc_eq_le size_list_estimation')

text \<open>String escapes of \<open>JSON.stringify\<close>.\<close>

definition escape_char :: "char \<Rightarrow> string" where
  "escape_char c =
     (let n = (of_char c :: nat); bs = CHR 0x5C
      in if n = 34 then [bs, CHR 0x22] else if n = 92 then [bs, bs]
         else if n = 8 then bs # ''b'' else if n = 12 then bs # ''f''
         else if n = 10 then bs # ''n'' else if n = 13 then bs # ''r''
         else if n = 9 then bs # ''t''
         else if n < 32 then bs # ''u00'' @ [hex_digit (int (n div 16)), hex_digit (int (n mod 16))]
         else [c])"

definition quote_string :: "string \<Rightarrow> string" where
  "quote_string s = CHR 0x22 # concat (map escape_char s) @ [CHR 0x22]"

text \<open>
  \<open>JSON.stringify\<close>: \<open>undefined\<close> has no text; as an array element it prints as \<open>null\<close>, and a
  member whose value is \<open>undefined\<close> is left out.
\<close>

function stringify :: "jsv \<Rightarrow> string option" where
  "stringify JUndef = None"
| "stringify JNull = Some ''null''"
| "stringify (JBool b) = Some (if b then ''true'' else ''false'')"
| "stringify (JNum i) = Some (int_str i)"
| "stringify (JFrac f) = Some f"
| "stringify (JStr s) = Some (quote_string s)"
| "stringify (JArr xs) =
     Some (''['' @ join '','' (map (\<lambda>x. case stringify x of None \<Rightarrow> ''null'' | Some t \<Rightarrow> t) xs) @ '']'')"
| "stringify (JObj fs) =
     Some (''{'' @ join '','' (concat (map (\<lambda>p. case stringify (snd p) of None \<Rightarrow> []
                                        | Some t \<Rightarrow> [quote_string (fst p) @ '':'' @ t]) fs)) @ ''}'')"
  by pat_completeness auto
termination
  by (relation "measure size") (auto dest: size_prop simp: less_Suc_eq_le size_list_estimation')

definition canonicalJson :: "jsv \<Rightarrow> string option" where
  "canonicalJson v = stringify (canonicalizeValue v)"

text \<open>The text hashed for a value; every caller passes an object, an array, a string or null.\<close>

definition canonical_text :: "jsv \<Rightarrow> string" where
  "canonical_text v = (case canonicalJson v of None \<Rightarrow> [] | Some s \<Rightarrow> s)"

definition contentId :: "string \<Rightarrow> jsv \<Rightarrow> string" where
  "contentId prefix v = prefix @ ''-'' @ take 24 (sha256_hex (canonical_text v))"

definition sha256_digest :: "jsv \<Rightarrow> string" where
  "sha256_digest v = ''sha256:'' @ sha256_hex (canonical_text v)"

subsection \<open>Structural equality\<close>

text \<open>
  Equality of JSON values up to the order of the members of their objects: what \<open>canonicalJson\<close> is
  meant to decide.
\<close>

function same_json :: "jsv \<Rightarrow> jsv \<Rightarrow> bool" where
  "same_json (JArr xs) w =
     (case w of JArr ys \<Rightarrow> length xs = length ys \<and> (\<forall>i\<in>{..<length xs}. same_json (xs ! i) (ys ! i))
      | _ \<Rightarrow> False)"
| "same_json (JObj fs) w =
     (case w of JObj gs \<Rightarrow> length fs = length gs \<and>
          (\<forall>p\<in>set fs. case map_of gs (fst p) of None \<Rightarrow> False | Some y \<Rightarrow> same_json (snd p) y)
      | _ \<Rightarrow> False)"
| "same_json JUndef w = (w = JUndef)"
| "same_json JNull w = (w = JNull)"
| "same_json (JBool b) w = (w = JBool b)"
| "same_json (JNum i) w = (w = JNum i)"
| "same_json (JFrac f) w = (w = JFrac f)"
| "same_json (JStr s) w = (w = JStr s)"
  by pat_completeness auto
termination
  by (relation "measure (\<lambda>(v, w). size v)")
     (auto dest: size_prop simp: less_Suc_eq_le intro: size_list_estimation' [OF nth_mem])


subsection \<open>The normal form depends on the set of members only\<close>

lemma set_own_order [simp]: "set (own_order fs) = set fs"
  by (auto simp: own_order_def)

lemma mset_own_order: "mset (own_order fs) = mset fs"
proof -
  have "mset (own_order fs) = filter_mset (\<lambda>p. index_key (fst p) \<noteq> None) (mset fs)
      + filter_mset (\<lambda>p. \<not> index_key (fst p) \<noteq> None) (mset fs)"
    by (simp add: own_order_def)
  then show ?thesis by (simp only: multiset_partition [symmetric])
qed

lemma distinct_keys_own_order [simp]: "distinct (map fst (own_order fs)) = distinct (map fst fs)"
  by (metis mset_map mset_own_order mset_eq_imp_distinct_iff)

lemma distinct_keys_sort [simp]: "distinct (map fst (sort_key fst fs)) = distinct (map fst fs)"
  by (metis mset_map mset_sort mset_eq_imp_distinct_iff)

lemma sort_key_set_unique:
  fixes fs gs :: "(string \<times> 'a) list"
  assumes "distinct (map fst fs)" "distinct (map fst gs)" "set fs = set gs"
  shows "sort_key fst fs = sort_key fst gs"
proof (rule map_sorted_distinct_set_unique [where f = fst])
  show "inj_on fst (set (sort_key fst fs) \<union> set (sort_key fst gs))"
    using assms by (simp add: distinct_map)
qed (use assms in \<open>simp_all add: distinct_map\<close>)

lemma members_order_iff:
  assumes "distinct (map fst fs)" "distinct (map fst gs)"
  shows "own_order (sort_key fst fs) = own_order (sort_key fst gs) \<longleftrightarrow> set fs = set gs"
proof
  assume "own_order (sort_key fst fs) = own_order (sort_key fst gs)"
  then have "set (own_order (sort_key fst fs)) = set (own_order (sort_key fst gs))" by simp
  then show "set fs = set gs" by simp
next
  assume "set fs = set gs"
  with assms show "own_order (sort_key fst fs) = own_order (sort_key fst gs)"
    by (metis sort_key_set_unique)
qed

lemma canonicalize_eq_simps [simp]:
  "JNull = canonicalizeValue v \<longleftrightarrow> v = JNull" "JUndef = canonicalizeValue v \<longleftrightarrow> v = JUndef"
  "canonicalizeValue v = JNull \<longleftrightarrow> v = JNull" "canonicalizeValue v = JUndef \<longleftrightarrow> v = JUndef"
  "canonicalizeValue v = JBool b \<longleftrightarrow> v = JBool b" "canonicalizeValue v = JNum i \<longleftrightarrow> v = JNum i"
  "canonicalizeValue v = JFrac f \<longleftrightarrow> v = JFrac f" "canonicalizeValue v = JStr s \<longleftrightarrow> v = JStr s"
  by (cases v; simp)+

lemma canonicalize_arr_iff:
  "canonicalizeValue w = JArr ys \<longleftrightarrow> (\<exists>xs. w = JArr xs \<and> ys = map canonicalizeValue xs)"
  by (cases w) auto

text \<open>Canonical forms are equal exactly when the values are the same JSON.\<close>

lemma set_members_iff:
  assumes df: "distinct (map fst fs)" and dg: "distinct (map fst gs)"
    and iff: "\<And>p y. p \<in> set fs \<Longrightarrow> map_of gs (fst p) = Some y \<Longrightarrow> c (snd p) = c y \<longleftrightarrow> eqv (snd p) y"
  shows "set (map (\<lambda>p. (fst p, c (snd p))) fs) = set (map (\<lambda>p. (fst p, c (snd p))) gs) \<longleftrightarrow>
     length fs = length gs \<and>
     (\<forall>p\<in>set fs. case map_of gs (fst p) of None \<Rightarrow> False | Some y \<Rightarrow> eqv (snd p) y)"
    (is "?F = ?G \<longleftrightarrow> ?len \<and> ?all")
proof
  assume eq: "?F = ?G"
  have keys: "fst ` set fs = fst ` set gs"
    using arg_cong [OF eq, of "image fst"] by (simp add: image_image)
  have ?len using keys df dg by (metis distinct_card length_map set_map)
  moreover have ?all
  proof
    fix p assume p: "p \<in> set fs"
    then have "(fst p, c (snd p)) \<in> ?G" unfolding eq [symmetric] by (auto simp: image_iff)
    then obtain q where q: "q \<in> set gs" "fst q = fst p" "c (snd q) = c (snd p)" by auto
    then have m: "map_of gs (fst p) = Some (snd q)" using dg by (metis map_of_eq_Some_iff prod.collapse)
    with iff [OF p m] q show "case map_of gs (fst p) of None \<Rightarrow> False | Some y \<Rightarrow> eqv (snd p) y" by simp
  qed
  ultimately show "?len \<and> ?all" ..
next
  assume r: "?len \<and> ?all"
  have sub: "?F \<subseteq> ?G"
  proof
    fix e assume "e \<in> ?F"
    then obtain p where p: "p \<in> set fs" "e = (fst p, c (snd p))" by auto
    with r obtain y where y: "map_of gs (fst p) = Some y" "eqv (snd p) y"
      by (auto split: option.splits)
    with iff [OF p(1) y(1)] have "c (snd p) = c y" by simp
    with p have "e = (fst (fst p, y), c (snd (fst p, y)))" by simp
    then show "e \<in> ?G" using map_of_SomeD [OF y(1)] unfolding set_map by (rule image_eqI)
  qed
  have inj: "inj_on (\<lambda>p. (fst p, c (snd p))) (set hs)" if "distinct (map fst hs)"
    for hs :: "('a \<times> 'b) list"
    using that by (auto simp: distinct_map inj_on_def)
  have "card ?F = card ?G"
    using r df dg card_image [OF inj [OF df]] card_image [OF inj [OF dg]]
    by (simp add: distinct_card distinct_map)
  with sub show "?F = ?G" by (intro card_subset_eq) simp_all
qed

lemma canonicalize_eq_iff:
  "wf_js v \<Longrightarrow> wf_js w \<Longrightarrow> canonicalizeValue v = canonicalizeValue w \<longleftrightarrow> same_json v w"
proof (induction v w rule: same_json.induct)
  case (1 xs w)
  show ?case
  proof (cases w)
    case (JArr ys)
    with 1 have "canonicalizeValue (xs ! i) = canonicalizeValue (ys ! i) \<longleftrightarrow> same_json (xs ! i) (ys ! i)"
      if "i < length xs" "length xs = length ys" for i
      using that by (auto simp: all_set_conv_all_nth)
    with JArr show ?thesis by (auto simp: list_eq_iff_nth_eq)
  qed auto
next
  case (2 fs w)
  show ?case
  proof (cases w)
    case (JObj gs)
    let ?m = "map (\<lambda>p. (fst p, canonicalizeValue (snd p)))"
    have df: "distinct (map fst fs)" and dg: "distinct (map fst gs)" using 2(2,3) JObj by simp_all
    have d': "distinct (map fst (?m fs))" "distinct (map fst (?m gs))"
      using df dg by (simp_all add: comp_def)
    have iff: "canonicalizeValue (snd p) = canonicalizeValue y \<longleftrightarrow> same_json (snd p) y"
      if "p \<in> set fs" "map_of gs (fst p) = Some y" for p y
      using 2(1) [OF JObj that] 2(2,3) that JObj map_of_SomeD [OF that(2)] by fastforce
    have "canonicalizeValue (JObj fs) = canonicalizeValue w \<longleftrightarrow> set (?m fs) = set (?m gs)"
      using members_order_iff [OF d'] JObj by simp
    also have "\<dots> \<longleftrightarrow> same_json (JObj fs) w"
      using set_members_iff [where c = canonicalizeValue and eqv = same_json, OF df dg iff] JObj by simp
    finally show ?thesis .
  qed auto
qed (auto simp: eq_commute)


subsection \<open>Printing is unambiguous\<close>

lemma escape_char_not_Nil [simp]: "escape_char c \<noteq> []"
  by (simp add: escape_char_def Let_def)

lemma escape_char_hd: "hd (escape_char c) \<noteq> CHR 0x22"
  by (auto simp: escape_char_def Let_def)

text \<open>A reader of one escaped character, to see that its text determines it and the rest.\<close>

definition hex_val :: "char \<Rightarrow> nat" where
  "hex_val c = (let n = (of_char c :: nat) in if n < 58 then n - 48 else n - 87)"

definition read_escaped :: "string \<Rightarrow> nat \<times> string" where
  "read_escaped s =
     (if hd s \<noteq> CHR 0x5C then (of_char (hd s), tl s)
      else let k = hd (tl s); r = tl (tl s)
        in if k = CHR 0x22 then (34, r) else if k = CHR 0x5C then (92, r)
           else if k = CHR ''b'' then (8, r) else if k = CHR ''f'' then (12, r)
           else if k = CHR ''n'' then (10, r) else if k = CHR ''r'' then (13, r)
           else if k = CHR ''t'' then (9, r)
           else (16 * hex_val (r ! 2) + hex_val (r ! 3), drop 4 r))"

lemma hex_val_digit: "n < 16 \<Longrightarrow> hex_val (hex_digit (int n)) = n"
  by (auto simp: hex_val_def hex_digit_def Let_def)

lemma read_escape_char: "read_escaped (escape_char c @ x) = (of_char c, x)"
proof -
  define n where "n = (of_char c :: nat)"
  have bs: "c = CHR 0x5C \<longleftrightarrow> n = 92" unfolding n_def
    using of_char_eq_iff [where 'a = nat, of c "CHR 0x5C"] by simp
  consider "n = 34" | "n = 92" | "n = 8" | "n = 12" | "n = 10" | "n = 13" | "n = 9"
    | "n < 32" "n \<notin> {8, 9, 10, 12, 13}" | "32 \<le> n" "n \<noteq> 34" "n \<noteq> 92"
    by fastforce
  then show ?thesis
  proof cases
    case 8
    then have "n div 16 < 16" "n mod 16 < 16" "16 * (n div 16) + n mod 16 = n" by auto
    with 8 show ?thesis
      by (simp add: escape_char_def Let_def n_def [symmetric] read_escaped_def hex_val_digit)
  next
    case 9
    with bs show ?thesis by (simp add: escape_char_def Let_def n_def [symmetric] read_escaped_def)
  qed (simp_all add: escape_char_def Let_def n_def [symmetric] read_escaped_def)
qed

lemma escape_char_prefix:
  assumes "escape_char c @ x = escape_char d @ y"
  shows "c = d \<and> x = y"
proof -
  have "(of_char c :: nat, x) = (of_char d, y)"
    unfolding read_escape_char [symmetric] assms ..
  then show ?thesis by simp
qed

lemma quote_string_prefix:
  assumes "quote_string s @ x = quote_string t @ y"
  shows "s = t \<and> x = y"
proof -
  have "concat (map escape_char s) @ CHR 0x22 # x = concat (map escape_char t) @ CHR 0x22 # y
    \<Longrightarrow> s = t \<and> x = y"
  proof (induction s arbitrary: t)
    case Nil
    then show ?case
    proof (cases t)
      case (Cons d ds)
      with Nil have "hd (escape_char d) = CHR 0x22"
        by (cases "escape_char d") auto
      then show ?thesis using escape_char_hd by blast
    qed simp
  next
    case (Cons c cs)
    show ?case
    proof (cases t)
      case Nil
      with Cons.prems have "hd (escape_char c) = CHR 0x22"
        by (cases "escape_char c") auto
      then show ?thesis using escape_char_hd by blast
    next
      case (Cons d ds)
      with Cons.prems have "escape_char c @ concat (map escape_char cs) @ CHR 0x22 # x
          = escape_char d @ concat (map escape_char ds) @ CHR 0x22 # y" by simp
      from escape_char_prefix [OF this] Cons.IH [of ds] Cons show ?thesis by simp
    qed
  qed
  with assms show ?thesis by (simp add: quote_string_def)
qed


text \<open>
  The text of a value ends where a delimiter follows: the end of the input, a comma or a closing
  bracket.
\<close>

definition delimited :: "string \<Rightarrow> bool" where
  "delimited r \<longleftrightarrow> r = [] \<or> hd r \<in> {CHR '','', CHR '']'', CHR ''}''}"

lemma delimited_simps [simp]:
  "delimited []" "delimited (CHR '','' # r)" "delimited (CHR '']'' # r)" "delimited (CHR ''}'' # r)"
  by (simp_all add: delimited_def)

lemma number_text_prefix:
  assumes "list_all num_char a" "list_all num_char b" "a @ r = b @ s" "delimited r" "delimited s"
  shows "a = b \<and> r = s"
proof -
  have split: "takeWhile num_char (a @ r) = a" if "list_all num_char a" "delimited r" for a r
    using that by (cases r) (auto simp: delimited_def list_all_iff num_char_def is_digit_def takeWhile_append)
  from split [OF assms(1,4)] split [OF assms(2,5)] assms(3) show ?thesis by simp
qed

lemma int_str_num_chars: "list_all num_char (int_str i)" and int_str_not_Nil: "int_str i \<noteq> []"
  by (auto simp: int_str_def list_all_iff num_char_def dest: nat_str_digits)

lemma nat_str_no_minus: "CHR ''-'' \<notin> set (nat_str n)"
  using nat_str_digits [of "CHR ''-''" n] by (auto simp: is_digit_def)

lemma nat_str_hd: "is_digit (hd (nat_str n))"
  by (rule nat_str_digits [OF hd_in_set]) simp

lemma int_str_inj: "int_str i = int_str j \<longleftrightarrow> i = j"
proof
  assume eq: "int_str i = int_str j"
  have "hd (nat_str n) \<noteq> CHR ''-''" for n using nat_str_hd [of n] by (auto simp: is_digit_def)
  then have "i < 0 \<longleftrightarrow> j < 0" using eq
    by (metis int_str_def list.sel(1))
  with eq show "i = j" by (auto simp: int_str_def split: if_splits)
qed simp

lemma int_str_no_point: "CHR ''.'' \<notin> set (int_str i)" "CHR ''e'' \<notin> set (int_str i)"
  using nat_str_digits [of "CHR ''.''"] nat_str_digits [of "CHR ''e''"]
  by (auto simp: int_str_def is_digit_def)

lemma int_str_hd: "is_digit (hd (int_str i)) \<or> hd (int_str i) = CHR ''-''"
  using nat_str_hd by (auto simp: int_str_def)

text \<open>A bracketed, comma-separated list is read back when its items are.\<close>

lemma join_prefix:
  assumes items: "\<And>a b r s. a \<in> set as \<Longrightarrow> b \<in> set bs \<Longrightarrow> f a @ r = f b @ s \<Longrightarrow>
      delimited r \<Longrightarrow> delimited s \<Longrightarrow> a = b \<and> r = s"
    and start: "\<And>a. a \<in> set as \<union> set bs \<Longrightarrow> f a \<noteq> [] \<and> hd (f a) \<noteq> close"
    and close: "close \<in> {CHR '']'', CHR ''}''}"
    and eq: "join '','' (map f as) @ close # r = join '','' (map f bs) @ close # s"
  shows "as = bs \<and> r = s"
  using assms
proof (induction as arbitrary: bs)
  case Nil
  show ?case
  proof (cases bs)
    case (Cons b bs')
    have "hd (join '','' (map f bs) @ close # s) = hd (f b)"
      using Nil.prems(2) [of b] Cons by (cases bs') auto
    then have "hd (f b) = close"
      using Nil.prems(4) by (metis append_Nil join.simps(1) list.sel(1) list.simps(8))
    then show ?thesis using Nil.prems(2) [of b] Cons by simp
  qed (use Nil.prems in simp)
next
  case (Cons a as)
  show ?case
  proof (cases bs)
    case Nil
    have "hd (join '','' (map f (a # as)) @ close # r) = hd (f a)"
      using Cons.prems(2) [of a] by (cases as) auto
    then have "hd (f a) = close"
      using Cons.prems(4) Nil by (metis append_Nil join.simps(1) list.sel(1) list.simps(8))
    then show ?thesis using Cons.prems(2) [of a] by simp
  next
    case (Cons b bs')
    define rest where
      "rest xs t = (if xs = [] then close # t else CHR '','' # join '','' (map f xs) @ close # t)" for xs t
    have unroll: "join '','' (map f (x # xs)) @ close # t = f x @ rest xs t" for x xs t
      by (cases xs) (simp_all add: rest_def)
    have delim: "delimited (rest xs t)" for xs t
      using Cons.prems(3) by (auto simp: rest_def)
    have "f a @ rest as r = f b @ rest bs' s"
      using Cons.prems(4) unfolding Cons unroll .
    with Cons.prems(1) [of a b] Cons delim have ab: "a = b" and rest: "rest as r = rest bs' s" by simp_all
    have nc: "close \<noteq> CHR '',''" using Cons.prems(3) by auto
    show ?thesis
    proof (cases "as = []")
      case True
      with rest nc ab Cons show ?thesis by (auto simp: rest_def split: if_splits)
    next
      case False
      with rest nc have "bs' \<noteq> []" and eq: "join '','' (map f as) @ close # r = join '','' (map f bs') @ close # s"
        by (auto simp: rest_def split: if_splits)
      have "as = bs' \<and> r = s"
        by (rule Cons.IH [OF Cons.prems(1,2,3) eq]) (use Cons in auto)
      with ab Cons show ?thesis by simp
    qed
  qed
qed


text \<open>The first character of a text tells the kind of the value.\<close>

fun value_kind :: "jsv \<Rightarrow> nat" where
  "value_kind JUndef = 0"
| "value_kind JNull = 1"
| "value_kind (JBool b) = (if b then 2 else 3)"
| "value_kind (JNum i) = 4"
| "value_kind (JFrac f) = 4"
| "value_kind (JStr s) = 5"
| "value_kind (JArr xs) = 6"
| "value_kind (JObj fs) = 7"

definition char_kind :: "char \<Rightarrow> nat" where
  "char_kind c =
     (if c = CHR ''n'' then 1 else if c = CHR ''t'' then 2 else if c = CHR ''f'' then 3
      else if is_digit c \<or> c = CHR ''-'' then 4 else if c = CHR 0x22 then 5
      else if c = CHR ''['' then 6 else if c = CHR ''{'' then 7 else 8)"

lemma char_kind_number: "is_digit c \<or> c = CHR ''-'' \<Longrightarrow> char_kind c = 4"
  by (auto simp: char_kind_def is_digit_def)

lemma text_kind:
  assumes "json_value v" "stringify v = Some a"
  shows "a \<noteq> [] \<and> char_kind (hd a) = value_kind v"
proof (cases v)
  case (JNum i)
  with assms int_str_not_Nil char_kind_number [OF int_str_hd] show ?thesis by auto
next
  case (JFrac f)
  with assms have "f \<noteq> []" "is_digit (hd f) \<or> hd f = CHR ''-''" "a = f"
    by (simp_all add: frac_literal_def)
  with char_kind_number JFrac show ?thesis by simp
qed (use assms in \<open>auto simp: quote_string_def char_kind_def is_digit_def split: if_splits\<close>)

lemma json_value_text: "json_value v \<Longrightarrow> \<exists>a. stringify v = Some a"
  by (cases v) auto

definition text_of :: "jsv \<Rightarrow> string" where
  "text_of v = (case stringify v of None \<Rightarrow> ''null'' | Some t \<Rightarrow> t)"

lemma stringify_text_of: "json_value v \<Longrightarrow> stringify v = Some (text_of v)"
  using json_value_text [of v] by (auto simp: text_of_def)

lemma text_of_kind: "json_value v \<Longrightarrow> text_of v \<noteq> [] \<and> char_kind (hd (text_of v)) = value_kind v"
  by (rule text_kind) (simp_all add: stringify_text_of)

lemma text_of_arr: "text_of (JArr xs) = ''['' @ join '','' (map text_of xs) @ '']''"
  by (simp add: text_of_def [abs_def])

lemma text_of_obj:
  assumes "json_value (JObj fs)"
  shows "text_of (JObj fs) = ''{'' @ join '','' (map (\<lambda>p. quote_string (fst p) @ '':'' @ text_of (snd p)) fs) @ ''}''"
proof -
  have "concat (map (\<lambda>p. case stringify (snd p) of None \<Rightarrow> []
          | Some t \<Rightarrow> [quote_string (fst p) @ '':'' @ t]) fs)
      = map (\<lambda>p. quote_string (fst p) @ '':'' @ text_of (snd p)) fs"
    using assms by (induction fs) (auto simp: stringify_text_of)
  then show ?thesis by (simp add: text_of_def)
qed

lemma text_of_prefix:
  "json_value v \<Longrightarrow> json_value w \<Longrightarrow> text_of v @ r = text_of w @ s \<Longrightarrow> delimited r \<Longrightarrow> delimited s \<Longrightarrow>
   v = w \<and> r = s"
proof (induction v arbitrary: w r s)
  case JUndef
  then show ?case by simp
next
  case JNull
  have "value_kind w = 1" using text_of_kind [OF JNull(1)] text_of_kind [OF JNull(2)] JNull(3)
    by (metis hd_append2 value_kind.simps(2))
  then have "w = JNull" by (cases w) (auto split: if_splits)
  with JNull show ?case by simp
next
  case (JBool b)
  have "value_kind w = value_kind (JBool b)"
    using text_of_kind [OF JBool(1)] text_of_kind [OF JBool(2)] JBool(3) by (metis hd_append2)
  then have "w = JBool b" by (cases w) (auto split: if_splits)
  with JBool show ?case by simp
next
  case (JNum i)
  have k: "value_kind w = 4"
    using text_of_kind [OF JNum(1)] text_of_kind [OF JNum(2)] JNum(3) by (metis hd_append2 value_kind.simps(4))
  then have "list_all num_char (text_of w)" using JNum(2)
    by (cases w) (auto simp: text_of_def int_str_num_chars frac_literal_def split: if_splits)
  from number_text_prefix [OF int_str_num_chars [of i] this] JNum(3-5)
  have eq: "int_str i = text_of w" "r = s" by (auto simp: text_of_def)
  then show ?case using k JNum(2) int_str_no_point [of i]
    by (cases w) (auto simp: text_of_def int_str_inj frac_literal_def split: if_splits)
next
  case (JFrac f)
  have k: "value_kind w = 4"
    using text_of_kind [OF JFrac(1)] text_of_kind [OF JFrac(2)] JFrac(3) by (metis hd_append2 value_kind.simps(5))
  then have n: "list_all num_char (text_of w)" using JFrac(2)
    by (cases w) (auto simp: text_of_def int_str_num_chars frac_literal_def split: if_splits)
  from JFrac(1) have "list_all num_char f" by (simp add: frac_literal_def)
  from number_text_prefix [OF this n] JFrac(3-5)
  have eq: "f = text_of w" "r = s" by (auto simp: text_of_def)
  then show ?case using k JFrac(1,2) int_str_no_point
    by (cases w) (auto simp: text_of_def frac_literal_def split: if_splits)
next
  case (JStr t)
  have "value_kind w = 5"
    using text_of_kind [OF JStr(1)] text_of_kind [OF JStr(2)] JStr(3) by (metis hd_append2 value_kind.simps(6))
  then obtain u where w: "w = JStr u" by (cases w) (auto split: if_splits)
  with JStr(3) have "quote_string t @ r = quote_string u @ s" by (simp add: text_of_def)
  from quote_string_prefix [OF this] w show ?case by simp
next
  case (JArr xs)
  have "value_kind w = 6"
    using text_of_kind [OF JArr(2)] text_of_kind [OF JArr(3)] JArr(4) by (metis hd_append2 value_kind.simps(7))
  then obtain ys where w: "w = JArr ys" by (cases w) (auto split: if_splits)
  have "xs = ys \<and> r = s"
  proof (rule join_prefix [where f = text_of and close = "CHR '']''"])
    fix a b r s
    assume ab: "a \<in> set xs" "b \<in> set ys"
      and eq: "text_of a @ r = text_of b @ s" and d: "delimited r" "delimited s"
    show "a = b \<and> r = s"
      by (rule JArr.IH [OF ab(1) _ _ eq d]) (use ab JArr.prems(1,2) w in auto)
  next
    fix a assume "a \<in> set xs \<union> set ys"
    then have "json_value a" using JArr(2,3) w by auto
    from text_of_kind [OF this] show "text_of a \<noteq> [] \<and> hd (text_of a) \<noteq> CHR '']''"
      by (cases a) (auto simp: char_kind_def is_digit_def split: if_splits)
  qed (use JArr(4) w in \<open>simp_all add: text_of_arr\<close>)
  with w show ?case by simp
next
  case (JObj fs)
  have "value_kind w = 7"
    using text_of_kind [OF JObj(2)] text_of_kind [OF JObj(3)] JObj(4) by (metis hd_append2 value_kind.simps(8))
  then obtain gs where w: "w = JObj gs" by (cases w) (auto split: if_splits)
  have "fs = gs \<and> r = s"
  proof (rule join_prefix [where f = "\<lambda>p. quote_string (fst p) @ '':'' @ text_of (snd p)" and close = "CHR ''}''"])
    fix a b r s
    assume ab: "a \<in> set fs" "b \<in> set gs"
      and eq: "(quote_string (fst a) @ '':'' @ text_of (snd a)) @ r = (quote_string (fst b) @ '':'' @ text_of (snd b)) @ s"
      and d: "delimited r" "delimited s"
    from eq have "quote_string (fst a) @ CHR '':'' # text_of (snd a) @ r
        = quote_string (fst b) @ CHR '':'' # text_of (snd b) @ s" by simp
    from quote_string_prefix [OF this]
    have key: "fst a = fst b" and rest: "text_of (snd a) @ r = text_of (snd b) @ s" by simp_all
    have "snd a = snd b \<and> r = s"
      by (rule JObj.IH [OF ab(1) _ _ _ rest d]) (use ab JObj.prems(1,2) w in \<open>auto simp: snds.simps\<close>)
    with key show "a = b \<and> r = s" by (simp add: prod_eq_iff)
  qed (use JObj(4) w text_of_obj [OF JObj(2)] text_of_obj [of gs] JObj(3) in \<open>auto simp: quote_string_def\<close>)
  with w show ?case by simp
qed

lemma json_value_canonicalize: "json_value v \<Longrightarrow> json_value (canonicalizeValue v)"
proof (induction v rule: canonicalizeValue.induct)
  case (2 fs)
  then show ?case by (auto simp: comp_def)
qed auto

text \<open>\<open>canonicalJson\<close> decides structural equality.\<close>

lemma canonicalJson_eq_iff:
  assumes "json_value v" "json_value w"
  shows "canonicalJson v = canonicalJson w \<longleftrightarrow> same_json v w"
proof -
  have "canonicalJson v = canonicalJson w \<longleftrightarrow> canonicalizeValue v = canonicalizeValue w"
  proof
    assume "canonicalJson v = canonicalJson w"
    then have "text_of (canonicalizeValue v) @ [] = text_of (canonicalizeValue w) @ []"
      by (simp add: canonicalJson_def text_of_def)
    from text_of_prefix [OF _ _ this] assms show "canonicalizeValue v = canonicalizeValue w"
      by (simp add: json_value_canonicalize)
  qed (simp add: canonicalJson_def)
  with canonicalize_eq_iff assms show ?thesis by (simp add: json_value_wf)
qed

lemma canonicalJson_refl: "json_value v \<Longrightarrow> same_json v v"
  using canonicalJson_eq_iff by blast

lemma canonicalJson_Some: "json_value v \<Longrightarrow> canonicalJson v = Some (canonical_text v)"
  using stringify_text_of [OF json_value_canonicalize, of v]
  by (simp add: canonicalJson_def canonical_text_def)

lemma canonical_text_eq_iff:
  "json_value v \<Longrightarrow> json_value w \<Longrightarrow> canonical_text v = canonical_text w \<longleftrightarrow> same_json v w"
  using canonicalJson_eq_iff canonicalJson_Some by (metis option.inject)

text \<open>Equal content ids: the same content, or two texts whose digests agree on 24 digits.\<close>

definition digest_collision :: "nat \<Rightarrow> string \<Rightarrow> string \<Rightarrow> bool" where
  "digest_collision n s t \<longleftrightarrow> s \<noteq> t \<and> take n (sha256_hex s) = take n (sha256_hex t)"

lemma contentId_eq:
  assumes "json_value v" "json_value w" "contentId p v = contentId p w"
  shows "same_json v w \<or> digest_collision 24 (canonical_text v) (canonical_text w)"
  using assms canonical_text_eq_iff [OF assms(1,2)] by (auto simp: contentId_def digest_collision_def)

lemma contentId_cong: "canonicalJson v = canonicalJson w \<Longrightarrow> contentId p v = contentId p w"
  by (simp add: contentId_def canonical_text_def)

end
