(* ===== verification/Js_Date.thy ===== *)
theory Js_Date
  imports Prelude "HOL-Library.Monad_Syntax"
begin

section \<open>Dates\<close>

text \<open>
  \<open>Date.parse\<close> and \<open>Date.prototype.toISOString\<close> on the date-time string format of ECMA-262
  (\<open>YYYY-MM-DDTHH:mm:ss.sssZ\<close> and its shorter forms, with an offset or none). A time value is the
  number of milliseconds since 1970-01-01T00:00:00Z, and \<open>None\<close> is \<open>NaN\<close>. Strings outside the
  format, which an engine may also accept in an implementation-defined way, are not times here; a
  date-time without offset is read in UTC, the zone of the service's containers.
\<close>

subsection \<open>The proleptic Gregorian calendar\<close>

definition leap :: "int \<Rightarrow> bool" where
  "leap y \<longleftrightarrow> (y mod 4 = 0 \<and> y mod 100 \<noteq> 0) \<or> y mod 400 = 0"

text \<open>Days from 0000-01-01 to the first day of year \<open>y\<close>.\<close>

definition days_to_year :: "int \<Rightarrow> int" where
  "days_to_year y = 365 * y + (y + 3) div 4 - (y + 99) div 100 + (y + 399) div 400"

definition year_of_day :: "int \<Rightarrow> int" where
  "year_of_day d =
     (let y = 400 * d div 146097
      in if d < days_to_year y then y - 1 else if days_to_year (y + 1) \<le> d then y + 1 else y)"

definition month_starts :: "bool \<Rightarrow> int list" where
  "month_starts l =
     (if l then [0, 31, 60, 91, 121, 152, 182, 213, 244, 274, 305, 335, 366]
      else [0, 31, 59, 90, 120, 151, 181, 212, 243, 273, 304, 334, 365])"

text \<open>The month (from 0) of a day of the year.\<close>

definition month_of :: "bool \<Rightarrow> int \<Rightarrow> nat" where
  "month_of l d = length (takeWhile (\<lambda>m. m \<le> d) (tl (month_starts l)))"

definition epoch_day :: int where "epoch_day = 719528"

lemma ceil_div:
  assumes "(n::int) > 0" and "m = n - 1"
  shows "(y + m) div n = y div n + (if y mod n = 0 then 0 else 1)"
proof -
  define r where "r = y mod n"
  have r: "0 \<le> r" "r < n" using assms(1) by (simp_all add: r_def)
  have "y + (n - 1) = (r + (n - 1)) + n * (y div n)" by (simp add: r_def)
  then have *: "(y + (n - 1)) div n = y div n + (r + (n - 1)) div n"
    using assms(1) by (metis add.commute div_mult_self2 less_numeral_extra(3))
  show ?thesis
  proof (cases "r = 0")
    case True
    then have "(r + (n - 1)) div n = 0" using assms(1) by simp
    with True * show ?thesis by (simp add: r_def assms(2))
  next
    case False
    then have "(r + (n - 1)) div n = ((r - 1) + n) div n" by (simp add: algebra_simps)
    also have "\<dots> = (r - 1) div n + 1" using assms(1) by (intro div_add_self2) simp
    also have "(r - 1) div n = 0" using False r by (simp add: div_pos_pos_trivial)
    finally show ?thesis using False * by (simp add: r_def assms(2))
  qed
qed

lemma ceil_div_bounds:
  assumes "(n::int) > 0"
  shows "y \<le> n * ((y + (n - 1)) div n)" "n * ((y + (n - 1)) div n) \<le> y + (n - 1)"
proof -
  have "n * ((y + (n - 1)) div n) = y + (n - 1) - (y + (n - 1)) mod n"
    by (simp add: minus_mod_eq_mult_div)
  moreover have "0 \<le> (y + (n - 1)) mod n" "(y + (n - 1)) mod n < n" using assms by simp_all
  ultimately show "y \<le> n * ((y + (n - 1)) div n)" "n * ((y + (n - 1)) div n) \<le> y + (n - 1)"
    by linarith+
qed

lemma leap_counts:
  "y mod 400 = (0::int) \<Longrightarrow> y mod 100 = 0" "y mod 100 = (0::int) \<Longrightarrow> y mod 4 = 0"
  by (auto intro: dvd_trans [of _ 400] dvd_trans [of _ 100] simp flip: dvd_eq_mod_eq_0)

lemma leap_corrections:
  "(A \<Longrightarrow> B) \<Longrightarrow> (B \<Longrightarrow> C) \<Longrightarrow> (if C then 0 else 1) - (if B then 0 else 1) + (if A then 0 else 1)
     = (if C \<and> \<not> B \<or> A then 0 else (1::int))"
  by auto

lemma days_to_year_Suc: "days_to_year (y + 1) = days_to_year y + (if leap y then 366 else 365)"
proof -
  define q4 where "q4 = y div 4"
  define q100 where "q100 = y div 100"
  define q400 where "q400 = y div 400"
  have next_div: "(y + 1 + m) div n = y div n + 1" if "n = m + 1" "n \<noteq> 0" for m n :: int
  proof -
    have "y + 1 + m = y + n" using that by simp
    then show ?thesis using div_add_self2 [OF that(2)] by metis
  qed
  have "(y + 1 + 3) div 4 = q4 + 1" "(y + 1 + 99) div 100 = q100 + 1" "(y + 1 + 399) div 400 = q400 + 1"
    unfolding q4_def q100_def q400_def by (rule next_div; simp)+
  then have suc: "days_to_year (y + 1) = 365 * (y + 1) + (q4 + 1) - (q100 + 1) + (q400 + 1)"
    by (simp only: days_to_year_def)
  have "(y + 3) div 4 = q4 + (if y mod 4 = 0 then 0 else 1)"
    "(y + 99) div 100 = q100 + (if y mod 100 = 0 then 0 else 1)"
    "(y + 399) div 400 = q400 + (if y mod 400 = 0 then 0 else 1)"
    unfolding q4_def q100_def q400_def by (rule ceil_div; simp)+
  then have here: "days_to_year y = 365 * y + (q4 + (if y mod 4 = 0 then 0 else 1))
      - (q100 + (if y mod 100 = 0 then 0 else 1)) + (q400 + (if y mod 400 = 0 then 0 else 1))"
    by (simp only: days_to_year_def)
  define c4 where "c4 = (if y mod 4 = 0 then 0 else 1 :: int)"
  define c100 where "c100 = (if y mod 100 = 0 then 0 else 1 :: int)"
  define c400 where "c400 = (if y mod 400 = 0 then 0 else 1 :: int)"
  have step: "days_to_year (y + 1) = days_to_year y + 366 - c4 + c100 - c400"
    using suc here unfolding c4_def [symmetric] c100_def [symmetric] c400_def [symmetric]
    by (simp only:) (simp add: algebra_simps)
  have "c4 - c100 + c400 = (if leap y then 0 else 1)"
    unfolding c4_def c100_def c400_def leap_def by (rule leap_corrections) (rule leap_counts, assumption)+
  with step show ?thesis by auto
qed

lemma days_to_year_estimate:
  "400 * days_to_year y \<le> 146097 * y + 699" "146097 * y - 396 \<le> 400 * days_to_year y"
  using ceil_div_bounds [of 4 y] ceil_div_bounds [of 100 y] ceil_div_bounds [of 400 y]
  unfolding days_to_year_def by simp_all

lemma year_of_day_bounds:
  "days_to_year (year_of_day d) \<le> d" "d < days_to_year (year_of_day d + 1)"
proof -
  define y where "y = 400 * d div 146097"
  have lo: "146097 * y \<le> 400 * d" and hi: "400 * d < 146097 * y + 146097"
    unfolding y_def by (simp_all add: minus_mod_eq_mult_div [symmetric] algebra_simps)
  have below: "days_to_year (y - 1) \<le> d" and above: "d < days_to_year (y + 2)"
    using lo hi days_to_year_estimate(1) [of "y - 1"] days_to_year_estimate(2) [of "y + 2"] by auto
  have y2: "y + 1 + 1 = y + 2" by simp
  show "days_to_year (year_of_day d) \<le> d" "d < days_to_year (year_of_day d + 1)"
    using below above unfolding year_of_day_def Let_def y_def [symmetric] by (auto simp: y2)
qed

subsection \<open>Printing\<close>

definition two_digits :: "int \<Rightarrow> string" where
  "two_digits n = [digit_char (nat (n div 10)), digit_char (nat (n mod 10))]"

definition three_digits :: "int \<Rightarrow> string" where
  "three_digits n = digit_char (nat (n div 100)) # two_digits (n mod 100)"

definition four_digits :: "int \<Rightarrow> string" where
  "four_digits n = two_digits (n div 100) @ two_digits (n mod 100)"

definition six_digits :: "int \<Rightarrow> string" where
  "six_digits n = two_digits (n div 10000) @ four_digits (n mod 10000)"

definition year_string :: "int \<Rightarrow> string" where
  "year_string y =
     (if 0 \<le> y \<and> y \<le> 9999 then four_digits y
      else if y < 0 then CHR ''-'' # six_digits (- y) else CHR ''+'' # six_digits y)"

definition max_time :: int where "max_time = 8640000000000000"

text \<open>\<open>new Date(t).toISOString()\<close> for a time in range.\<close>

definition to_iso :: "int \<Rightarrow> string" where
  "to_iso t =
     (let day = t div 86400000; ms = t mod 86400000;
          d = day + epoch_day; y = year_of_day d; yd = d - days_to_year y;
          m = month_of (leap y) yd; md = yd - month_starts (leap y) ! m
      in year_string y @ ''-'' @ two_digits (int m + 1) @ ''-'' @ two_digits (md + 1) @ ''T''
         @ two_digits (ms div 3600000) @ '':'' @ two_digits (ms div 60000 mod 60) @ '':''
         @ two_digits (ms div 1000 mod 60) @ ''.'' @ three_digits (ms mod 1000) @ ''Z'')"

text \<open>The same on a time that may be \<open>NaN\<close> or out of range, where it throws a \<open>RangeError\<close>.\<close>

definition to_iso_checked :: "int option \<Rightarrow> string res" where
  "to_iso_checked t =
     (case t of
        Some ms \<Rightarrow> if \<bar>ms\<bar> \<le> max_time then Inr (to_iso ms) else Inl (RangeErr ''Invalid time value'')
      | None \<Rightarrow> Inl (RangeErr ''Invalid time value''))"

subsection \<open>Parsing\<close>

definition take_digits :: "nat \<Rightarrow> string \<Rightarrow> (int \<times> string) option" where
  "take_digits n s =
     (if length (take n s) = n \<and> list_all is_digit (take n s)
      then Some (int (num_of_digits (take n s)), drop n s) else None)"

fun take_char :: "char \<Rightarrow> string \<Rightarrow> string option" where
  "take_char c (x # xs) = (if x = c then Some xs else None)"
| "take_char c [] = None"

definition parse_year :: "string \<Rightarrow> (int \<times> string) option" where
  "parse_year s =
     (case s of
        c # r \<Rightarrow> if c = CHR ''-'' then do { (n, r') \<leftarrow> take_digits 6 r; Some (- n, r') }
                else if c = CHR ''+'' then take_digits 6 r
                else take_digits 4 s
      | [] \<Rightarrow> None)"

text \<open>An optional \<open>-NN\<close> field, 1 when absent.\<close>

definition parse_date_field :: "string \<Rightarrow> (int \<times> string) option" where
  "parse_date_field s =
     (case take_char (CHR ''-'') s of None \<Rightarrow> Some (1, s) | Some r \<Rightarrow> take_digits 2 r)"

text \<open>Milliseconds: the first three digits of the fraction count.\<close>

definition parse_fraction :: "string \<Rightarrow> (int \<times> string) option" where
  "parse_fraction s =
     (case take_char (CHR ''.'') s of
        None \<Rightarrow> Some (0, s)
      | Some r \<Rightarrow>
          let ds = takeWhile is_digit r
          in if ds = [] then None
             else Some (int (num_of_digits (take 3 (ds @ ''00''))), drop (length ds) r))"

definition parse_seconds :: "string \<Rightarrow> (int \<times> string) option" where
  "parse_seconds s =
     (case take_char (CHR '':'') s of
        None \<Rightarrow> Some (0, s)
      | Some r \<Rightarrow> do { (sec, r1) \<leftarrow> take_digits 2 r;
                       (ms, r2) \<leftarrow> parse_fraction r1;
                       if sec \<le> 59 then Some (1000 * sec + ms, r2) else None })"

text \<open>The offset in minutes: \<open>Z\<close>, \<open>+HH:mm\<close>, \<open>-HH:mm\<close> or nothing, up to the end.\<close>

definition parse_zone :: "string \<Rightarrow> int option" where
  "parse_zone s =
     (case s of
        [] \<Rightarrow> Some 0
      | c # r \<Rightarrow>
          if c = CHR ''Z'' then (if r = [] then Some 0 else None)
          else if c = CHR ''+'' \<or> c = CHR ''-'' then
            do { (h, r1) \<leftarrow> take_digits 2 r; r2 \<leftarrow> take_char (CHR '':'') r1;
                 (m, r3) \<leftarrow> take_digits 2 r2;
                 if r3 = [] \<and> h \<le> 23 \<and> m \<le> 59
                 then Some ((if c = CHR ''-'' then -1 else 1) * (60 * h + m)) else None }
          else None)"

text \<open>The time of day in milliseconds, less the offset.\<close>

definition parse_time :: "string \<Rightarrow> int option" where
  "parse_time s =
     (case s of
        [] \<Rightarrow> Some 0
      | c # r \<Rightarrow>
          if c \<noteq> CHR ''T'' then None
          else do { (h, r1) \<leftarrow> take_digits 2 r; r2 \<leftarrow> take_char (CHR '':'') r1;
                    (m, r3) \<leftarrow> take_digits 2 r2; (s, r4) \<leftarrow> parse_seconds r3;
                    z \<leftarrow> parse_zone r4;
                    if m \<le> 59 \<and> (h \<le> 23 \<or> h = 24 \<and> m = 0 \<and> s = 0)
                    then Some (3600000 * h + 60000 * m + s - 60000 * z) else None })"

definition date_parse :: "string \<Rightarrow> int option" where
  "date_parse s =
     do { (y, r1) \<leftarrow> parse_year s; (m, r2) \<leftarrow> parse_date_field r1;
          (d, r3) \<leftarrow> (if r2 = r1 then Some (1, r2) else parse_date_field r2);
          t \<leftarrow> parse_time r3;
          if 1 \<le> m \<and> m \<le> 12 \<and> 1 \<le> d \<and> d \<le> 31
          then let ms = 86400000 * (days_to_year y + month_starts (leap y) ! nat (m - 1) + d - 1 - epoch_day) + t
               in if \<bar>ms\<bar> \<le> max_time then Some ms else None
          else None }"


subsection \<open>Parsing inverts printing\<close>

lemma two_digits_facts:
  assumes "0 \<le> n" "n < 100"
  shows "length (two_digits n) = 2" "list_all is_digit (two_digits n)"
    "int (num_of_digits (two_digits n)) = n"
proof -
  have "0 \<le> n div 10" "nat (n div 10) < 10" "nat (n mod 10) < 10"
    using assms by (auto simp: nat_less_iff pos_imp_zdiv_nonneg_iff)
  then show "length (two_digits n) = 2" "list_all is_digit (two_digits n)"
    "int (num_of_digits (two_digits n)) = n"
    using assms by (simp_all add: two_digits_def num_of_digits_def)
qed

lemma num_of_digits_append:
  "num_of_digits (xs @ ys) = num_of_digits xs * 10 ^ length ys + num_of_digits ys"
proof (induction ys rule: rev_induct)
  case (snoc y ys)
  then show ?case
    by (simp add: num_of_digits_snoc append_assoc [symmetric] algebra_simps del: append_assoc)
qed (simp add: num_of_digits_def)

lemma three_digits_facts:
  assumes "0 \<le> n" "n < 1000"
  shows "length (three_digits n) = 3" "list_all is_digit (three_digits n)"
    "int (num_of_digits (three_digits n)) = n"
proof -
  have d: "0 \<le> n div 100" "nat (n div 100) < 10"
    using assms by (auto simp: nat_less_iff pos_imp_zdiv_nonneg_iff)
  have m: "0 \<le> n mod 100" "n mod 100 < 100" by simp_all
  note f = two_digits_facts [OF m]
  show "length (three_digits n) = 3" "list_all is_digit (three_digits n)"
    using f d by (simp_all add: three_digits_def)
  have "num_of_digits (three_digits n) = num_of_digits ([digit_char (nat (n div 100))] @ two_digits (n mod 100))"
    by (simp add: three_digits_def)
  also have "\<dots> = nat (n div 100) * 100 + num_of_digits (two_digits (n mod 100))"
    using f d by (subst num_of_digits_append) (simp add: num_of_digits_def)
  finally show "int (num_of_digits (three_digits n)) = n"
    using f d assms by simp
qed

lemma four_digits_facts:
  assumes "0 \<le> n" "n < 10000"
  shows "length (four_digits n) = 4" "list_all is_digit (four_digits n)"
    "int (num_of_digits (four_digits n)) = n"
proof -
  have hi: "0 \<le> n div 100" "n div 100 < 100" and lo: "0 \<le> n mod 100" "n mod 100 < 100"
    using assms by auto
  note f = two_digits_facts [OF hi] two_digits_facts [OF lo]
  show "length (four_digits n) = 4" "list_all is_digit (four_digits n)"
    "int (num_of_digits (four_digits n)) = n"
    using f by (simp_all add: four_digits_def num_of_digits_append)
qed

lemma six_digits_facts:
  assumes "0 \<le> n" "n < 1000000"
  shows "length (six_digits n) = 6" "list_all is_digit (six_digits n)"
    "int (num_of_digits (six_digits n)) = n"
proof -
  have hi: "0 \<le> n div 10000" "n div 10000 < 100" and lo: "0 \<le> n mod 10000" "n mod 10000 < 10000"
    using assms by auto
  note f = two_digits_facts [OF hi] four_digits_facts [OF lo]
  show "length (six_digits n) = 6" "list_all is_digit (six_digits n)"
    "int (num_of_digits (six_digits n)) = n"
    using f by (simp_all add: six_digits_def num_of_digits_append)
qed

lemma take_digits_append:
  "length ds = n \<Longrightarrow> list_all is_digit ds \<Longrightarrow> take_digits n (ds @ r) = Some (int (num_of_digits ds), r)"
  by (simp add: take_digits_def)

lemma take_two [simp]:
  "0 \<le> n \<Longrightarrow> n < 100 \<Longrightarrow> take_digits 2 (two_digits n @ r) = Some (n, r)"
  by (simp add: take_digits_append two_digits_facts)

lemma digit_not_sign: "is_digit c \<Longrightarrow> c \<noteq> CHR ''-'' \<and> c \<noteq> CHR ''+''"
  by (auto simp: is_digit_def)

lemma parse_year_string:
  assumes "\<bar>y\<bar> < 1000000"
  shows "parse_year (year_string y @ r) = Some (y, r)"
proof -
  consider "0 \<le> y" "y \<le> 9999" | "y < 0" | "9999 < y" by linarith
  then show ?thesis
  proof cases
    case 1
    then have f: "length (four_digits y) = 4" "list_all is_digit (four_digits y)"
      "int (num_of_digits (four_digits y)) = y"
      using four_digits_facts [of y] by simp_all
    then obtain c cs where c: "four_digits y = c # cs" by (cases "four_digits y") auto
    with f have "is_digit c" by simp
    then have "parse_year (four_digits y @ r) = take_digits 4 (four_digits y @ r)"
      using digit_not_sign [of c] by (simp add: c parse_year_def)
    with f 1 show ?thesis by (simp add: year_string_def take_digits_append)
  next
    case 2
    then have "take_digits 6 (six_digits (- y) @ r) = Some (- y, r)"
      using assms by (simp add: take_digits_append six_digits_facts)
    with 2 show ?thesis by (simp add: year_string_def parse_year_def)
  next
    case 3
    then have "take_digits 6 (six_digits y @ r) = Some (y, r)"
      using assms by (simp add: take_digits_append six_digits_facts)
    with 3 show ?thesis by (simp add: year_string_def parse_year_def)
  qed
qed

lemma parse_date_field_two:
  "0 \<le> n \<Longrightarrow> n < 100 \<Longrightarrow> parse_date_field (CHR ''-'' # two_digits n @ r) = Some (n, r)"
  by (simp add: parse_date_field_def)

lemma parse_fraction_three:
  assumes "0 \<le> n" "n < 1000"
  shows "parse_fraction (CHR ''.'' # three_digits n @ ''Z'') = Some (n, ''Z'')"
proof -
  note f = three_digits_facts [OF assms]
  have "takeWhile is_digit (three_digits n @ ''Z'') = three_digits n"
    using f(2) by (subst takeWhile_append2) (auto simp: list_all_iff is_digit_def)
  then show ?thesis
    using f by (auto simp: parse_fraction_def Let_def)
qed

lemma month_of_bounds:
  assumes "0 \<le> d" "d < (if l then 366 else 365)"
  shows "month_of l d < 12" "month_starts l ! month_of l d \<le> d"
    "d - month_starts l ! month_of l d < 31"
  using assms by (cases l; auto simp: month_of_def month_starts_def)+

lemma parse_time_parts:
  assumes "0 \<le> h" "h < 24" "0 \<le> m" "m < 60" "0 \<le> s" "s < 60" "0 \<le> f" "f < 1000"
  shows "parse_time (''T'' @ two_digits h @ '':'' @ two_digits m @ '':'' @ two_digits s
    @ ''.'' @ three_digits f @ ''Z'') = Some (3600000 * h + 60000 * m + (1000 * s + f))"
proof -
  have "parse_seconds (CHR '':'' # two_digits s @ CHR ''.'' # three_digits f @ ''Z'')
      = Some (1000 * s + f, ''Z'')"
    using assms by (simp add: parse_seconds_def parse_fraction_three)
  with assms show ?thesis by (simp add: parse_time_def parse_zone_def)
qed

lemma parts_linear:
  "60 * u + v = m \<Longrightarrow> 60 * m + w = a \<Longrightarrow> 1000 * a + z = ms \<Longrightarrow>
   3600000 * u + 60000 * v + (1000 * w + z) = (ms::int)"
  by linarith

lemma time_parts_sum:
  "3600000 * (ms div 3600000) + 60000 * (ms div 60000 mod 60)
     + (1000 * (ms div 1000 mod 60) + ms mod 1000) = (ms::int)"
proof -
  have m: "ms div 60000 = ms div 1000 div 60" and h: "ms div 3600000 = ms div 1000 div 60 div 60"
    by (simp_all add: zdiv_zmult2_eq [symmetric])
  show ?thesis unfolding m h
    by (rule parts_linear [of _ _ "ms div 1000 div 60" _ "ms div 1000"]) (rule mult_div_mod_eq)+
qed

lemma parse_time_string:
  assumes "0 \<le> ms" "ms < 86400000"
  shows "parse_time (''T'' @ two_digits (ms div 3600000) @ '':'' @ two_digits (ms div 60000 mod 60)
    @ '':'' @ two_digits (ms div 1000 mod 60) @ ''.'' @ three_digits (ms mod 1000) @ ''Z'') = Some ms"
proof -
  have "0 \<le> ms div 3600000" "ms div 3600000 < 24" using assms by auto
  note parts = parse_time_parts [OF this, of "ms div 60000 mod 60" "ms div 1000 mod 60" "ms mod 1000"]
  show ?thesis
    by (subst parts) (rule pos_mod_sign pos_mod_bound zero_less_numeral arg_cong [OF time_parts_sum])+
qed

text \<open>\<open>Date.parse(new Date(t).toISOString())\<close> is \<open>t\<close>, for every time in range.\<close>

lemma date_parse_to_iso:
  assumes "\<bar>t\<bar> \<le> max_time"
  shows "date_parse (to_iso t) = Some t"
proof -
  define day where "day = t div 86400000"
  define ms where "ms = t mod 86400000"
  define d where "d = day + epoch_day"
  define y where "y = year_of_day d"
  define yd where "yd = d - days_to_year y"
  define m where "m = month_of (leap y) yd"
  define md where "md = yd - month_starts (leap y) ! m"
  have ms: "0 \<le> ms" "ms < 86400000" by (simp_all add: ms_def)
  have t: "t = 86400000 * day + ms" by (simp add: day_def ms_def)
  have yd: "0 \<le> yd" "yd < (if leap y then 366 else 365)"
    using year_of_day_bounds [of d] days_to_year_Suc [of y] by (auto simp: yd_def y_def)
  note mb = month_of_bounds [OF yd, folded m_def]
  have md: "0 \<le> md" "md < 31" using mb by (simp_all add: md_def)
  have "\<bar>day\<bar> \<le> 100000000" using assms ms t by (simp add: max_time_def)
  then have "\<bar>y\<bar> < 1000000"
    using year_of_day_bounds [of d] days_to_year_estimate [of y] days_to_year_estimate [of "y + 1"]
    unfolding y_def [symmetric] by (simp add: d_def epoch_day_def)
  note py = parse_year_string [OF this]
  have ne: "\<And>r. r \<noteq> CHR ''-'' # two_digits (int m + 1) @ r"
  proof
    fix r assume "r = CHR ''-'' # two_digits (int m + 1) @ r"
    then have "length r = length (CHR ''-'' # two_digits (int m + 1) @ r)" by metis
    then show False by simp
  qed
  have iso: "to_iso t = year_string y @ CHR ''-'' # two_digits (int m + 1) @ CHR ''-'' # two_digits (md + 1)
      @ ''T'' @ two_digits (ms div 3600000) @ '':'' @ two_digits (ms div 60000 mod 60) @ '':''
      @ two_digits (ms div 1000 mod 60) @ ''.'' @ three_digits (ms mod 1000) @ ''Z''"
    by (simp add: to_iso_def Let_def day_def [symmetric] ms_def [symmetric] d_def [symmetric]
        y_def [symmetric] yd_def [symmetric] m_def [symmetric] md_def [symmetric])
  have ms_eq: "86400000 * (days_to_year y + month_starts (leap y) ! m + (md + 1) - 1 - epoch_day) + ms = t"
    by (simp add: md_def yd_def d_def t)
  show ?thesis
    unfolding iso date_parse_def
    using mb md ne parse_time_string [OF ms] ms_eq assms
    by (simp add: py parse_date_field_two)
qed

end
