(* ===== verification/Model.thy ===== *)
theory Model
  imports Canonical Js_Date
begin

section \<open>The domain vocabulary and its validators\<close>

text \<open>
  \<open>src/domain/model.js\<close>. An enumeration of the code is an object whose keys are its values; here
  it is the list of its keys in order. A validator returns the value it was given or throws.
\<close>

subsection \<open>Enumerations\<close>

definition ClaimType :: "string list" where
  "ClaimType =
    [''NORMATIVE_REQUIREMENT'', ''IMPLEMENTATION_BEHAVIOR'', ''DESIGN_INTENT'',
     ''QUALITY_EXPECTATION'']"

definition ClaimSourceType :: "string list" where
  "ClaimSourceType =
    [''AI_CANDIDATE'', ''HUMAN'', ''FORMAL_AUTHORITY'', ''DETERMINISTIC_DERIVATION'']"

definition DecisionType :: "string list" where
  "DecisionType =
    [''CONFIRMED'', ''REJECTED'', ''EXCEPTION_RECORDED'', ''INSUFFICIENT_EVIDENCE'',
     ''DEFERRED'', ''DEPRECATED'']"

definition TestRisk :: "string list" where
  "TestRisk =
    [''LOW'', ''MEDIUM'', ''HIGH'', ''CRITICAL'']"

definition TestOperationLevel :: "string list" where
  "TestOperationLevel =
    [''SAFE_READ'', ''CONTROLLED_WRITE'', ''DESTRUCTIVE'', ''EXTERNAL_SIDE_EFFECT'']"

definition TestExecutor :: "string list" where
  "TestExecutor =
    [''HTTP'', ''DATABASE'', ''EXISTING_TEST'']"

definition TestSpecOriginType :: "string list" where
  "TestSpecOriginType =
    [''MANUAL'', ''CONFIRMED_CLAIM_CONVERSION'', ''REVERSE_SKILL_CANDIDATE'']"

definition TestSpecViolationSeverity :: "string list" where
  "TestSpecViolationSeverity =
    [''WARNING'', ''BLOCKING'']"

definition AssertionResultStatus :: "string list" where
  "AssertionResultStatus =
    [''PASS'', ''FAIL'', ''ERROR'', ''INCONCLUSIVE'', ''SKIPPED'']"

definition ExecutionCompletionReason :: "string list" where
  "ExecutionCompletionReason =
    [''COMPLETED'', ''SKIPPED'', ''CANCELLED'']"

definition ExecutionPhaseStatus :: "string list" where
  "ExecutionPhaseStatus =
    [''PASS'', ''FAIL'', ''ERROR'', ''SKIPPED'']"

definition EvidenceType :: "string list" where
  "EvidenceType =
    [''HTTP'', ''DATABASE'', ''LOG'', ''TRACE'', ''COVERAGE'', ''SCREENSHOT'', ''ASSERTION'',
     ''OTHER'']"

definition FactNodeType :: "string list" where
  "FactNodeType =
    [''ARTIFACT'', ''MODULE'', ''CODE_SYMBOL'', ''ENDPOINT'', ''DATA_OBJECT'',
     ''CONFIGURATION'', ''EXTERNAL_DEPENDENCY'', ''TEST_ASSET'']"

definition FactPredicate :: "string list" where
  "FactPredicate =
    [''CONTAINS'', ''IMPLEMENTED_BY'', ''CALLS'', ''READS'', ''WRITES'', ''CONTROLLED_BY'',
     ''DEPENDS_ON'', ''EXERCISES'']"

definition ReverseSkillCapability :: "string list" where
  "ReverseSkillCapability =
    [''ARCHITECTURE_REVERSE'', ''FEATURE_DISCOVERY'', ''DOMAIN_MODELING'',
     ''BUSINESS_RULE_MINING'', ''STATE_MACHINE_RECOVERY'', ''PERMISSION_ANALYSIS'',
     ''DATA_SEMANTICS'', ''CONFIGURATION_ANALYSIS'', ''TEST_INVENTORY_REVIEW'', ''TEST_DESIGN'',
     ''RUNTIME_CORRELATION'', ''CHANGE_IMPACT'', ''REVERSE_REVIEW'']"

definition ReverseArtifactType :: "string list" where
  "ReverseArtifactType =
    [''CANDIDATE_FEATURE'', ''CANDIDATE_CLAIM'', ''CANDIDATE_TEST_SPEC'', ''EVIDENCE_LINK'',
     ''OPEN_QUESTION'']"

definition ReverseConfidence :: "string list" where
  "ReverseConfidence =
    [''LOW'', ''MEDIUM'', ''HIGH'']"

definition ReverseRunStatus :: "string list" where
  "ReverseRunStatus =
    [''CREATED'', ''FACT_SCANNING'', ''SKILL_PLANNING'', ''SKILL_RUNNING'', ''NORMALIZING'',
     ''CONFLICT_ANALYSIS'', ''WAITING_REVIEW'', ''BASELINED'', ''COMPLETED'', ''FAILED'',
     ''CANCELLED'']"

definition ReverseSkillStatus :: "string list" where
  "ReverseSkillStatus =
    [''ALLOWED'', ''OBSERVE'', ''BLOCKED'']"

definition ConstraintOperator :: "string list" where
  "ConstraintOperator =
    [''EQUALS'', ''NOT_EQUALS'', ''IN'', ''NOT_IN'', ''ALLOWS'', ''FORBIDS'', ''REQUIRES'']"

definition CandidateReviewOutcome :: "string list" where
  "CandidateReviewOutcome =
    [''CONFIRMED'', ''EXCEPTION_RECORDED'', ''REJECTED'', ''INSUFFICIENT_EVIDENCE'', ''DEFERRED'']"

definition ImplementationMappingStatus :: "string list" where
  "ImplementationMappingStatus =
    [''ACTIVE'', ''STALE'']"

definition AuthorityStatus :: "string list" where
  "AuthorityStatus =
    [''UNREVIEWED'', ''CONFIRMED'', ''EXCEPTION_RECORDED'', ''REJECTED'', ''DEPRECATED'']"

definition EvidenceSupport :: "string list" where
  "EvidenceSupport =
    [''NONE'', ''SINGLE_SOURCE'', ''MULTI_SOURCE'', ''CONTRADICTED'', ''INCOMPLETE'']"

definition ConformanceStatus :: "string list" where
  "ConformanceStatus =
    [''UNKNOWN'', ''CONFORMS'', ''DEVIATES'', ''PARTIAL'', ''CONFLICTED'', ''STALE'']"

definition VerificationStatus :: "string list" where
  "VerificationStatus =
    [''NOT_RUN'', ''PASS'', ''FAIL'', ''ERROR'', ''INCONCLUSIVE'', ''SKIPPED'', ''CANCELLED'']"

definition EvidenceFreshness :: "string list" where
  "EvidenceFreshness =
    [''FRESH'', ''EXPIRING'', ''STALE'', ''INCOMPLETE'']"

definition IntegrityStatus :: "string list" where
  "IntegrityStatus =
    [''VERIFIED'', ''UNVERIFIED'', ''INVALID'']"

definition TraceGapType :: "string list" where
  "TraceGapType =
    [''MISSING_NORMATIVE_CLAIM'', ''MISSING_AUTHORITY'', ''SCOPE_UNKNOWN'',
     ''SNAPSHOT_INCOMPLETE'', ''IMPLEMENTATION_UNMAPPED'', ''CONFORMANCE_UNKNOWN'',
     ''CONFORMANCE_STALE'', ''IMPLEMENTATION_DEVIATES'', ''UNRESOLVED_CONFLICT'',
     ''NO_TEST_SPEC'', ''TEST_SPEC_NOT_LINKED'', ''TEST_SPEC_UNAPPROVED'', ''NO_ASSERTION'',
     ''NOT_EXECUTED_ON_CURRENT_DEPLOYMENT'', ''VERIFICATION_FAILED'', ''EXECUTION_ERROR'',
     ''VERIFICATION_INCONCLUSIVE'', ''EVIDENCE_MISSING'', ''EVIDENCE_UNVERIFIED'',
     ''EVIDENCE_EXPIRING'', ''EVIDENCE_STALE'']"

definition GapSeverity :: "string list" where
  "GapSeverity =
    [''INFO'', ''WARNING'', ''BLOCKING'']"

definition ChangeType :: "string list" where
  "ChangeType =
    [''SOURCE_CODE'', ''API_CONTRACT'', ''SQL'', ''DATABASE_SCHEMA'', ''CONFIGURATION'',
     ''FEATURE_FLAG'', ''DEPENDENCY'', ''TEST_SPEC'', ''DEPLOYMENT'', ''RUNTIME_CONTEXT'',
     ''BUSINESS_AUTHORITY'', ''CLAIM_SCOPE'', ''CONTRADICTORY_EVIDENCE'']"

definition BusinessStateKind :: "string list" where
  "BusinessStateKind =
    [''INITIAL'', ''INTERMEDIATE'', ''TERMINAL'', ''EXCEPTION'']"

definition DesignElementType :: "string list" where
  "DesignElementType =
    [''MODULE'', ''SEQUENCE'', ''TRANSACTION'', ''EXCEPTION_HANDLER'']"

definition DecisionRisk :: "string list" where
  "DecisionRisk =
    [''LOW'', ''MEDIUM'', ''HIGH'', ''CRITICAL'']"

definition DecisionApprovalMode :: "string list" where
  "DecisionApprovalMode =
    [''SINGLE'', ''DUAL'', ''BUSINESS_COMPLIANCE'', ''BREAK_GLASS'']"

definition DecisionReviewAction :: "string list" where
  "DecisionReviewAction =
    [''APPROVE'', ''REJECT'', ''REVOKE'', ''DISPUTE'', ''REOPEN'', ''POST_REVIEW'']"

subsection \<open>Validators\<close>

text \<open>
  \<open>Object.hasOwn(enumObject, value)\<close> converts the value to a property key first, so the test is on
  \<open>String(value)\<close>: a one-element array of an enumeration member passes and is returned as an array.
\<close>

definition assertEnum :: "string list \<Rightarrow> jsv \<Rightarrow> string \<Rightarrow> jsv res" where
  "assertEnum enum v fieldName =
     (if js_string v \<notin> set enum
      then Inl (TypeErr (fieldName @ '' must be one of: '' @ join '', '' enum))
      else Inr v)"

definition requireNonEmptyString :: "jsv \<Rightarrow> string \<Rightarrow> jsv res" where
  "requireNonEmptyString v fieldName =
     (if \<not> is_string v \<or> js_trim (str_of v) = []
      then Inl (TypeErr (fieldName @ '' must be a non-empty string''))
      else Inr v)"

fun hasItems :: "jsv \<Rightarrow> bool" where
  "hasItems (JArr xs) = (xs \<noteq> [])"
| "hasItems _ = False"

text \<open>\<open>Date.parse(v)\<close>, which converts its argument to a string, and comparisons with \<open>NaN\<close>.\<close>

definition js_date_parse :: "jsv \<Rightarrow> int option" where
  "js_date_parse v = date_parse (js_string v)"

definition time_le :: "int option \<Rightarrow> int option \<Rightarrow> bool" where
  "time_le a b = (case (a, b) of (Some x, Some y) \<Rightarrow> x \<le> y | _ \<Rightarrow> False)"

definition time_less :: "int option \<Rightarrow> int option \<Rightarrow> bool" where
  "time_less a b = (case (a, b) of (Some x, Some y) \<Rightarrow> x < y | _ \<Rightarrow> False)"

definition requireIsoTimestamp :: "jsv \<Rightarrow> string \<Rightarrow> int res" where
  "requireIsoTimestamp v fieldName =
     bnd (requireNonEmptyString v fieldName) (\<lambda>_.
       case js_date_parse v of
         None \<Rightarrow> Inl (TypeErr (fieldName @ '' must be an ISO-8601 timestamp''))
       | Some t \<Rightarrow> Inr t)"

fun requirePositiveInteger :: "jsv \<Rightarrow> string \<Rightarrow> jsv res" where
  "requirePositiveInteger (JNum i) fieldName =
     (if i < 1 then Inl (TypeErr (fieldName @ '' must be a positive integer'')) else Inr (JNum i))"
| "requirePositiveInteger _ fieldName = Inl (TypeErr (fieldName @ '' must be a positive integer''))"

subsection \<open>Helpers the domain modules repeat\<close>

text \<open>\<open>optionalString\<close> of \<open>governance.js\<close>, \<open>decision-governance.js\<close>, \<open>test-spec.js\<close>, ...\<close>

definition optionalString :: "jsv \<Rightarrow> string \<Rightarrow> jsv res" where
  "optionalString v fieldName = (if nullish v then Inr JNull else requireNonEmptyString v fieldName)"

text \<open>\<open>requireObject\<close> of the same modules: plain objects only, returned as a clone.\<close>

definition requireObject :: "jsv \<Rightarrow> string \<Rightarrow> jsv res" where
  "requireObject v fieldName =
     (if is_plain_object v then Inr v else Inl (TypeErr (fieldName @ '' must be an object'')))"

definition requireArray :: "bool \<Rightarrow> jsv \<Rightarrow> string \<Rightarrow> jsv list res" where
  "requireArray nonEmpty v fieldName =
     (if \<not> is_array v \<or> nonEmpty \<and> elems v = []
      then Inl (TypeErr (fieldName @ '' must be '' @ (if nonEmpty then ''a non-empty array'' else ''an array'')))
      else Inr (elems v))"

text \<open>\<open>`${fieldName}[${index}]`\<close>\<close>

definition at_index :: "string \<Rightarrow> nat \<Rightarrow> string" where
  "at_index fieldName i = fieldName @ ''['' @ nat_str i @ '']''"

text \<open>\<open>/^sha256:[a-f0-9]{64}$/.test(s)\<close>\<close>

definition is_sha256_digest :: "string \<Rightarrow> bool" where
  "is_sha256_digest s \<longleftrightarrow> take 7 s = ''sha256:'' \<and> is_hex 64 (drop 7 s)"

text \<open>
  \<open>/(?:authorization|api[_-]?key|token|password|secret|certificate|private[_-]?key|credential|cookie)/i\<close>,
  the field names whose values must not be stored or shown.
\<close>

definition sensitive_words :: "string list" where
  "sensitive_words =
     [''authorization'', ''apikey'', ''api_key'', ''api-key'', ''token'', ''password'', ''secret'',
      ''certificate'', ''privatekey'', ''private_key'', ''private-key'', ''credential'', ''cookie'']"

definition sensitive_name :: "string \<Rightarrow> bool" where
  "sensitive_name n \<longleftrightarrow> list_ex (\<lambda>w. includes_str w (to_lower n)) sensitive_words"

text \<open>\<open>clock().toISOString()\<close> as a value, and \<open>input?.createdAt ?? clock().toISOString()\<close>.\<close>

definition now_iso :: "int option \<Rightarrow> jsv res" where
  "now_iso now = bnd (to_iso_checked now) (\<lambda>s. Inr (JStr s))"

definition created_at :: "jsv \<Rightarrow> int option \<Rightarrow> jsv res" where
  "created_at input now =
     (if nullish (oget input ''createdAt'') then now_iso now else Inr (oget input ''createdAt''))"

subsection \<open>What a successful validation says\<close>

lemma requireNonEmptyString_Inr [res_simps]:
  "requireNonEmptyString v f = Inr w \<longleftrightarrow> w = v \<and> (\<exists>s. v = JStr s \<and> js_trim s \<noteq> [])"
  by (cases v) (auto simp: requireNonEmptyString_def)

lemma requireNonEmptyString_str [simp]:
  "js_trim s \<noteq> [] \<Longrightarrow> requireNonEmptyString (JStr s) f = Inr (JStr s)"
  by (simp add: requireNonEmptyString_def)

lemma assertEnum_Inr [res_simps]: "assertEnum e v f = Inr w \<longleftrightarrow> w = v \<and> js_string v \<in> set e"
  by (auto simp: assertEnum_def)

lemma assertEnum_str: "assertEnum e (JStr s) f = Inr w \<longleftrightarrow> w = JStr s \<and> s \<in> set e"
  by (auto simp: assertEnum_def)

lemma requirePositiveInteger_Inr [res_simps]:
  "requirePositiveInteger v f = Inr w \<longleftrightarrow> w = v \<and> (\<exists>i. v = JNum i \<and> 1 \<le> i)"
  by (cases v) auto

lemma requireIsoTimestamp_Inr [res_simps]:
  "requireIsoTimestamp v f = Inr t \<longleftrightarrow> (\<exists>s. v = JStr s \<and> js_trim s \<noteq> [] \<and> date_parse s = Some t)"
  by (auto simp: requireIsoTimestamp_def bnd_eq_Inr requireNonEmptyString_Inr js_date_parse_def
      split: option.splits)

lemma optionalString_Inr [res_simps]:
  "optionalString v f = Inr w \<longleftrightarrow>
     (nullish v \<and> w = JNull) \<or> (w = v \<and> (\<exists>s. v = JStr s \<and> js_trim s \<noteq> []))"
  by (cases v) (auto simp: optionalString_def requireNonEmptyString_Inr)

lemma requireObject_Inr [res_simps]:
  "requireObject v f = Inr w \<longleftrightarrow> w = v \<and> (\<exists>fs. v = JObj fs)"
  by (cases v) (auto simp: requireObject_def)

lemma requireArray_Inr [res_simps]:
  "requireArray ne v f = Inr xs \<longleftrightarrow> v = JArr xs \<and> (ne \<longrightarrow> xs \<noteq> [])"
  by (cases v) (auto simp: requireArray_def)

lemma hasItems_iff: "hasItems v \<longleftrightarrow> (\<exists>xs. v = JArr xs \<and> xs \<noteq> [])"
  by (cases v) auto

lemma time_le_Some [simp]: "time_le (Some x) (Some y) \<longleftrightarrow> x \<le> y"
  and time_less_Some [simp]: "time_less (Some x) (Some y) \<longleftrightarrow> x < y"
  and time_le_None [simp]: "\<not> time_le None b" "\<not> time_le a None"
  and time_less_None [simp]: "\<not> time_less None b" "\<not> time_less a None"
  by (auto simp: time_le_def time_less_def split: option.splits)

lemma js_date_parse_str [simp]: "js_date_parse (JStr s) = date_parse s"
  by (simp add: js_date_parse_def)

lemma is_sha256_digest_digest [simp]: "is_sha256_digest (sha256_digest v)"
  by (simp add: is_sha256_digest_def sha256_digest_def sha256_hex_is_hex)

lemma created_at_not_nullish: "created_at input now = Inr c \<Longrightarrow> \<not> nullish c"
  by (auto simp: created_at_def now_iso_def bnd_eq_Inr split: if_splits)

lemma created_at_given [simp]:
  "map_of fs ''createdAt'' = Some c \<Longrightarrow> \<not> nullish c \<Longrightarrow> created_at (JObj fs) now = Inr c"
  by (simp add: created_at_def)

text \<open>A validated value passes the same validation again.\<close>

lemma validators_idem:
  "requireNonEmptyString v f = Inr w \<Longrightarrow> requireNonEmptyString w g = Inr w"
  "requirePositiveInteger v f = Inr w \<Longrightarrow> requirePositiveInteger w g = Inr w"
  "assertEnum e v f = Inr w \<Longrightarrow> assertEnum e w g = Inr w"
  "optionalString v f = Inr w \<Longrightarrow> optionalString w g = Inr w"
  "requireObject v f = Inr w \<Longrightarrow> requireObject w g = Inr w"
  by (simp_all add: res_simps) auto

text \<open>Taking a construction apart without looking into its validators.\<close>

lemmas build_simps = bnd_eq_Inr throw_if_eq_Inr if_eq_Inr mk_obj_Inr mk_props_Cons_Inr mk_props_Nil_Inr

text \<open>The finding behind the word "coerces": an array with one member name is accepted as is.\<close>

lemma assertEnum_singleton_array:
  "s \<in> set e \<Longrightarrow> assertEnum e (JArr [JStr s]) f = Inr (JArr [JStr s])"
  by (simp add: assertEnum_def)

end
