(* ===== verification/Trace_Chain.thy ===== *)
theory Trace_Chain
  imports Model
begin

section \<open>Evaluation of a trace chain\<close>

text \<open>
  \<open>src/domain/trace-chain.js\<close>: from the records a chain is made of (claim, scope, manifest,
  implementation, conformance, test, execution, evidence, conflicts) to its gaps, its dimensions and
  the verdict \<open>complete\<close>. The last part states what the verdict means.
\<close>

subsection \<open>Results\<close>

record trace_gap =
  gap_type :: string
  gap_severity :: string
  gap_ownerRole :: "string option"
  gap_message :: string

record trace_segment =
  seg_id :: string
  seg_from :: jsv
  seg_relation :: string
  seg_to :: jsv
  seg_provenance :: jsv
  seg_status :: string

record trace_dimensions =
  dim_authority :: jsv
  dim_evidenceSupport :: jsv
  dim_conformance :: jsv
  dim_verification :: jsv
  dim_freshness :: string
  dim_conflict :: string

record trace_conflict =
  conf_id :: jsv
  conf_type :: jsv
  conf_status :: jsv
  conf_reason :: jsv

record trace_chain =
  tc_id :: string
  tc_identity :: "(string \<times> jsv) list"
  tc_dimensions :: trace_dimensions
  tc_stages :: "(string \<times> jsv) list"
  tc_segments :: "trace_segment list"
  tc_conflicts :: "trace_conflict list"
  tc_complete :: bool
  tc_gaps :: "trace_gap list"
  tc_computedAt :: string

subsection \<open>Gaps\<close>

definition ownerByGap :: "(string \<times> string) list" where
  "ownerByGap =
    [(''MISSING_NORMATIVE_CLAIM'', ''business-owner''),
     (''MISSING_AUTHORITY'', ''business-owner''),
     (''SCOPE_UNKNOWN'', ''product-owner''),
     (''SNAPSHOT_INCOMPLETE'', ''platform-operator''),
     (''IMPLEMENTATION_UNMAPPED'', ''technical-owner''),
     (''CONFORMANCE_UNKNOWN'', ''technical-owner''),
     (''CONFORMANCE_STALE'', ''technical-owner''),
     (''IMPLEMENTATION_DEVIATES'', ''technical-owner''),
     (''UNRESOLVED_CONFLICT'', ''claim-owner''),
     (''NO_TEST_SPEC'', ''quality-owner''),
     (''TEST_SPEC_NOT_LINKED'', ''quality-owner''),
     (''TEST_SPEC_UNAPPROVED'', ''quality-owner''),
     (''NO_ASSERTION'', ''quality-owner''),
     (''NOT_EXECUTED_ON_CURRENT_DEPLOYMENT'', ''quality-owner''),
     (''VERIFICATION_FAILED'', ''technical-owner''),
     (''EXECUTION_ERROR'', ''platform-operator''),
     (''VERIFICATION_INCONCLUSIVE'', ''quality-owner''),
     (''EVIDENCE_MISSING'', ''quality-owner''),
     (''EVIDENCE_UNVERIFIED'', ''security-owner''),
     (''EVIDENCE_EXPIRING'', ''quality-owner''),
     (''EVIDENCE_STALE'', ''quality-owner'')]"

definition gap_with :: "string \<Rightarrow> string \<Rightarrow> string \<Rightarrow> trace_gap" where
  "gap_with ty message severity =
     \<lparr>gap_type = ty, gap_severity = severity, gap_ownerRole = map_of ownerByGap ty, gap_message = message\<rparr>"

definition gap :: "string \<Rightarrow> string \<Rightarrow> trace_gap" where
  "gap ty message = gap_with ty message ''BLOCKING''"

text \<open>\<open>if (cond) gaps.push(g)\<close>\<close>

definition gap_if :: "bool \<Rightarrow> trace_gap \<Rightarrow> trace_gap list" where
  "gap_if c g = (if c then [g] else [])"

lemma gap_if_simps [simp]: "gap_if True g = [g]" "gap_if False g = []"
  by (simp_all add: gap_if_def)

lemma gap_fields [simp]:
  "gap_severity (gap t m) = ''BLOCKING''" "gap_severity (gap_with t m s) = s"
  "gap_type (gap t m) = t" "gap_type (gap_with t m s) = t"
  "gap_ownerRole (gap t m) = map_of ownerByGap t" "gap_ownerRole (gap_with t m s) = map_of ownerByGap t"
  by (simp_all add: gap_def gap_with_def)

definition implementationMapped :: "jsv \<Rightarrow> bool" where
  "implementationMapped implementation \<longleftrightarrow> is_object implementation \<and>
     list_ex (\<lambda>key. hasItems (oget implementation key))
       [''endpoints'', ''codeSymbols'', ''dataObjects'', ''configurations'', ''dependencies'']"

definition conformance_current :: "jsv \<Rightarrow> jsv \<Rightarrow> jsv \<Rightarrow> jsv \<Rightarrow> jsv \<Rightarrow> bool" where
  "conformance_current conformance claimId claimVersion scopeId snapshotManifestId \<longleftrightarrow>
     strict_eq (oget conformance ''claimId'') claimId \<and>
     strict_eq (oget conformance ''claimVersion'') claimVersion \<and>
     strict_eq (oget conformance ''scopeId'') scopeId \<and>
     strict_eq (oget conformance ''snapshotManifestId'') snapshotManifestId"

text \<open>The gaps pushed for the effective status, and the status with them.\<close>

definition conformance_status_gaps :: "jsv \<Rightarrow> trace_gap list" where
  "conformance_status_gaps effective =
     (if effective = JStr ''UNKNOWN'' then
        [gap ''CONFORMANCE_UNKNOWN'' ''Implementation conformance has not been established.'']
      else if effective = JStr ''STALE'' then
        [gap ''CONFORMANCE_STALE'' ''Implementation conformance is stale for the selected manifest.'']
      else if one_of [''DEVIATES'', ''PARTIAL''] effective then
        [gap ''IMPLEMENTATION_DEVIATES'' (''Implementation conformance is '' @ js_string effective @ ''.'')]
      else if effective = JStr ''CONFLICTED'' then
        [gap ''UNRESOLVED_CONFLICT'' ''Implementation evidence is conflicted.'']
      else [])"

definition addConformanceGaps ::
  "jsv \<Rightarrow> jsv \<Rightarrow> jsv \<Rightarrow> jsv \<Rightarrow> jsv \<Rightarrow> (jsv \<times> trace_gap list) res" where
  "addConformanceGaps input claimId claimVersion scopeId snapshotManifestId =
     (let conformance = oget input ''conformance'';
          status0 = coalesce (oget conformance ''status'') (JStr ''UNKNOWN'')
      in bnd (assertEnum ConformanceStatus status0 ''conformance.status'') (\<lambda>status.
         let current = conformance_current conformance claimId claimVersion scopeId snapshotManifestId;
             effective = (if status \<noteq> JStr ''UNKNOWN'' \<and> \<not> current then JStr ''STALE'' else status)
         in Inr (effective, conformance_status_gaps effective)))"

definition verification_mappings :: "(string \<times> string \<times> string) list" where
  "verification_mappings =
    [(''FAIL'', ''VERIFICATION_FAILED'', ''Verification failed.''),
     (''ERROR'', ''EXECUTION_ERROR'', ''Execution failed before product correctness could be determined.''),
     (''INCONCLUSIVE'', ''VERIFICATION_INCONCLUSIVE'', ''Evidence is insufficient for a verdict.''),
     (''SKIPPED'', ''NOT_EXECUTED_ON_CURRENT_DEPLOYMENT'', ''Verification was skipped.''),
     (''CANCELLED'', ''NOT_EXECUTED_ON_CURRENT_DEPLOYMENT'', ''Verification was cancelled.''),
     (''NOT_RUN'', ''NOT_EXECUTED_ON_CURRENT_DEPLOYMENT'', ''Verification has not run.'')]"

definition addVerificationGaps :: "jsv \<Rightarrow> trace_gap list res" where
  "addVerificationGaps status =
     (if status = JStr ''PASS'' then Inr []
      else case map_of verification_mappings (js_string status) of
             None \<Rightarrow> Inl (NativeErr ''undefined is not iterable'')
           | Some (ty, message) \<Rightarrow> Inr [gap ty message])"

subsection \<open>Segments\<close>

definition trace_ref :: "string \<Rightarrow> jsv \<Rightarrow> jsv \<Rightarrow> jsv" where
  "trace_ref ty i version = JObj [(''type'', JStr ty), (''id'', i), (''version'', version)]"

definition traceNode :: "string \<Rightarrow> jsv \<Rightarrow> jsv \<Rightarrow> jsv" where
  "traceNode ty v fallbackId =
     (if is_plain_object v
      then trace_ref ty
             (coalesce (oget v ''id'') (coalesce (oget v ''factId'') (coalesce (oget v ''naturalKey'') fallbackId)))
             (coalesce (oget v ''version'') JNull)
      else trace_ref ty (if nullish v then fallbackId else JStr (js_string v)) JNull)"

definition segment :: "string \<Rightarrow> jsv \<Rightarrow> string \<Rightarrow> jsv \<Rightarrow> jsv \<Rightarrow> string \<Rightarrow> trace_segment" where
  "segment chainId from relation to provenance status =
     \<lparr>seg_id = contentId ''TRACE-SEGMENT''
        (JObj [(''chainId'', JStr chainId), (''from'', from), (''relation'', JStr relation), (''to'', to)]),
      seg_from = from, seg_relation = relation, seg_to = to, seg_provenance = provenance,
      seg_status = status\<rparr>"

text \<open>\<open>`${name}-${index + 1}`\<close>\<close>

definition numbered :: "string \<Rightarrow> nat \<Rightarrow> jsv" where
  "numbered name index = JStr (name @ ''-'' @ nat_str (index + 1))"

text \<open>\<open>xs ?? []\<close> iterated: nullish is empty, an array its elements, anything else throws.\<close>

definition list_or_empty :: "jsv \<Rightarrow> jsv list res" where
  "list_or_empty v = (if nullish v then Inr [] else array_elems v)"

definition implementationRelations :: "(string \<times> string \<times> string) list" where
  "implementationRelations =
    [(''endpoints'', ''ENDPOINT'', ''EXPOSED_BY''), (''codeSymbols'', ''CODE_SYMBOL'', ''IMPLEMENTED_BY''),
     (''dataObjects'', ''DATA_OBJECT'', ''USES_DATA''), (''configurations'', ''CONFIGURATION'', ''CONTROLLED_BY''),
     (''dependencies'', ''EXTERNAL_DEPENDENCY'', ''DEPENDS_ON'')]"

definition conformance_segments :: "jsv \<Rightarrow> string \<Rightarrow> (string \<times> jsv) list \<Rightarrow> jsv \<Rightarrow> jsv \<Rightarrow> trace_segment list" where
  "conformance_segments input chainId identity claim conformance =
     (if \<not> truthy (oget input ''conformance'') then []
      else
        let record = oget input ''conformance'';
            node = traceNode ''IMPLEMENTATION_CONFORMANCE'' record
              (JStr (contentId ''CONFORMANCE-REF''
                (JObj [(''claimId'', oget (JObj identity) ''claimId''),
                       (''claimVersion'', oget (JObj identity) ''claimVersion''),
                       (''snapshotManifestId'', oget (JObj identity) ''snapshotManifestId'')])))
        in segment chainId claim ''ASSESSED_BY'' node
             (coalesce (oget (oget record ''analysisMethod'') ''type'') (JStr ''CONFORMANCE_ASSESSMENT''))
             (if conformance = JStr ''STALE'' then ''STALE'' else ''ACTIVE'')
           # (if conformance = JStr ''CONFORMS'' then
                [segment chainId node ''CONFORMS_TO'' claim (JStr ''DETERMINISTIC_CONFORMANCE'') ''ACTIVE'']
              else if one_of [''DEVIATES'', ''PARTIAL''] conformance then
                [segment chainId node ''DEVIATES_FROM'' claim (JStr ''DETERMINISTIC_CONFORMANCE'') ''ACTIVE'']
              else []))"

definition implementation_segments :: "jsv \<Rightarrow> string \<Rightarrow> jsv \<Rightarrow> trace_segment list res" where
  "implementation_segments input chainId claim =
     bnd (mapR (\<lambda>(collection, ty, relation).
           bnd (list_or_empty (oget (oget input ''implementation'') collection)) (\<lambda>items.
             Inr (map (\<lambda>(index, item).
               segment chainId claim relation (traceNode ty item (numbered ty index))
                 (JStr (if truthy (oget item ''extractor'') then ''DETERMINISTIC_FACT'' else ''IMPLEMENTATION_MAPPING''))
                 (if oget input ''implementationStatus'' = JStr ''STALE'' then ''STALE'' else ''ACTIVE''))
               (enumerate 0 items))))
         implementationRelations)
       (\<lambda>groups. Inr (concat groups))"

definition execution_segments :: "jsv \<Rightarrow> string \<Rightarrow> jsv \<Rightarrow> jsv list \<Rightarrow> bool \<Rightarrow> trace_segment list res" where
  "execution_segments input chainId testSpec assertions executionIsCurrent =
     (let record = oget input ''execution''; executionId = oget record ''id''; 
          status = (if executionIsCurrent then ''ACTIVE'' else ''STALE'')
      in if \<not> truthy executionId then Inr []
         else
           let execution = traceNode ''TEST_EXECUTION'' record executionId
           in bnd (list_or_empty (oget input ''evidence'')) (\<lambda>evidence.
              bnd (mapR (\<lambda>(index, item).
                    bnd (pget item ''executionId'') (\<lambda>ref.
                      Inr (if \<not> strict_eq ref executionId then []
                        else [segment chainId execution ''PROVED_BY''
                                (traceNode ''EVIDENCE'' item (numbered ''EVIDENCE'' index))
                                (JStr (if oget item ''integrity'' = JStr ''VERIFIED''
                                       then ''VERIFIED_EVIDENCE'' else ''UNVERIFIED_EVIDENCE''))
                                (if oget item ''freshness'' = JStr ''STALE'' then ''STALE'' else ''ACTIVE'')])))
                  (enumerate 0 evidence)) (\<lambda>proofs.
              Inr (segment chainId testSpec ''EXECUTED_AS'' execution (JStr ''ATTESTED_RUNNER'') status
                   # map (\<lambda>a. segment chainId a ''EVALUATED_IN'' execution
                            (JStr ''DETERMINISTIC_ASSERTION_RESULT'') status) assertions
                   @ concat proofs))))"

definition test_segments :: "jsv \<Rightarrow> string \<Rightarrow> jsv \<Rightarrow> bool \<Rightarrow> trace_segment list res" where
  "test_segments input chainId claim executionIsCurrent =
     (let record = oget input ''testSpec''; testSpecId = oget record ''id'';
          status = (if truthy (oget record ''approved'') then ''ACTIVE'' else ''PENDING'')
      in if \<not> truthy testSpecId then Inr []
         else
           let testSpec = traceNode ''TEST_SPEC'' record testSpecId
           in bnd (list_or_empty (oget record ''assertions'')) (\<lambda>items.
              let assertions = map (\<lambda>(index, item). traceNode ''TEST_ASSERTION'' item
                    (JStr (js_string testSpecId @ '':ASSERTION:'' @ nat_str (index + 1)))) (enumerate 0 items)
              in bnd (execution_segments input chainId testSpec assertions executionIsCurrent) (\<lambda>rest.
                 Inr (segment chainId claim ''VERIFIED_BY'' testSpec (JStr ''APPROVED_TEST_SPEC'') status
                      # map (\<lambda>a. segment chainId testSpec ''HAS_ASSERTION'' a (JStr ''DETERMINISTIC_ASSERTION'') status)
                          assertions
                      @ rest))))"

definition createSegments :: "jsv \<Rightarrow> string \<Rightarrow> (string \<times> jsv) list \<Rightarrow> jsv \<Rightarrow> bool \<Rightarrow> trace_segment list res" where
  "createSegments input chainId identity conformance executionIsCurrent =
     (let feature = traceNode ''FEATURE'' (oget input ''feature'') (oget (JObj identity) ''featureId'');
          claim = traceNode ''CLAIM'' (oget input ''claim'') (oget (JObj identity) ''claimId'');
          decision = oget input ''decision''; scope = oget input ''scope''
      in bnd (list_or_empty (oget input ''requirements'')) (\<lambda>requirements.
         bnd (list_or_empty (oget input ''designs'')) (\<lambda>designs.
         bnd (implementation_segments input chainId claim) (\<lambda>implementation.
         bnd (test_segments input chainId claim executionIsCurrent) (\<lambda>tests.
         Inr (map (\<lambda>(index, r). segment chainId (traceNode ''REQUIREMENT_DOCUMENT'' r
                     (numbered ''REQUIREMENT-DOCUMENT'' index)) ''SPECIFIES'' feature
                     (JStr ''REVIEWED_SYSTEM_REQUIREMENT'') ''ACTIVE'') (enumerate 0 requirements)
              @ map (\<lambda>(index, d). segment chainId feature ''DESIGNED_BY''
                     (traceNode ''DESIGN_DOCUMENT'' d (numbered ''DESIGN-DOCUMENT'' index))
                     (JStr ''REVIEWED_DESIGN'') ''ACTIVE'') (enumerate 0 designs)
              @ segment chainId feature ''HAS_RULE'' claim (JStr ''GOVERNED_BASELINE'') ''ACTIVE''
              # (if truthy (oget decision ''id'')
                 then [segment chainId claim ''CONFIRMED_BY'' (traceNode ''DECISION'' decision (oget decision ''id''))
                         (JStr ''AUTHORIZED_HUMAN_DECISION'')
                         (if one_of [''CONFIRMED'', ''EXCEPTION_RECORDED''] (oget (oget input ''claim'') ''authorityStatus'')
                          then ''ACTIVE'' else ''PENDING'')] else [])
              @ (if truthy (oget scope ''id'')
                 then [segment chainId claim ''APPLIES_IN'' (traceNode ''CLAIM_SCOPE'' scope (oget (JObj identity) ''scopeId''))
                         (JStr ''GOVERNED_BASELINE'') ''ACTIVE''] else [])
              @ conformance_segments input chainId identity claim conformance
              @ implementation @ tests))))))"


subsection \<open>The evaluator\<close>

text \<open>The gaps pushed before conformance, in the order of the tests.\<close>

definition claim_gaps :: "jsv \<Rightarrow> jsv \<Rightarrow> jsv \<Rightarrow> trace_gap list" where
  "claim_gaps input claimType authority =
     gap_if (claimType \<noteq> JStr ''NORMATIVE_REQUIREMENT'')
       (gap ''MISSING_NORMATIVE_CLAIM'' ''Trace proof must start from a normative business claim.'')
     @ gap_if (\<not> one_of [''CONFIRMED'', ''EXCEPTION_RECORDED''] authority)
       (gap ''MISSING_AUTHORITY'' (''Normative claim authority is '' @ js_string authority @ ''.''))
     @ gap_if (\<not> truthy (oget (oget input ''scope'') ''id''))
       (gap ''SCOPE_UNKNOWN'' ''Claim scope has not been defined.'')
     @ gap_if (\<not> truthy (oget (oget input ''snapshotManifest'') ''complete''))
       (gap ''SNAPSHOT_INCOMPLETE'' ''Snapshot manifest is missing components or contains failed sources.'')
     @ gap_if (\<not> implementationMapped (oget input ''implementation''))
       (gap ''IMPLEMENTATION_UNMAPPED'' ''No technical implementation is mapped to the claim.'')"

text \<open>\<open>testSpec.verifiesClaims?.some(...)\<close>\<close>

definition verifies_claim :: "jsv \<Rightarrow> jsv \<Rightarrow> jsv \<Rightarrow> bool res" where
  "verifies_claim testSpec claimId claimVersion =
     bnd (list_or_empty (oget testSpec ''verifiesClaims'')) (\<lambda>claims.
       someR (\<lambda>claim. bnd (pget claim ''id'') (\<lambda>i.
         Inr (strict_eq i claimId \<and> strict_eq (oget claim ''version'') claimVersion))) claims)"

definition test_spec_gaps :: "jsv \<Rightarrow> jsv \<Rightarrow> jsv \<Rightarrow> trace_gap list res" where
  "test_spec_gaps testSpec claimId claimVersion =
     (if \<not> truthy (oget testSpec ''id'')
      then Inr [gap ''NO_TEST_SPEC'' ''No TestSpec verifies this claim.'']
      else bnd (verifies_claim testSpec claimId claimVersion) (\<lambda>verifiesCurrentClaim.
        Inr (gap_if (\<not> verifiesCurrentClaim)
               (gap ''TEST_SPEC_NOT_LINKED'' ''TestSpec does not declare that it verifies this claim.'')
             @ gap_if (\<not> truthy (oget testSpec ''approved''))
               (gap ''TEST_SPEC_UNAPPROVED'' ''TestSpec has not been approved.'')
             @ gap_if (\<not> hasItems (oget testSpec ''assertions''))
               (gap ''NO_ASSERTION'' ''TestSpec has no deterministic business assertion.''))))"

definition manifest_deployment_id :: "jsv \<Rightarrow> jsv" where
  "manifest_deployment_id input =
     oget (oget (oget (oget input ''snapshotManifest'') ''components'') ''deployment'') ''id''"

definition execution_is_current :: "jsv \<Rightarrow> bool" where
  "execution_is_current input \<longleftrightarrow>
     (let execution = oget input ''execution''; testSpec = oget input ''testSpec'';
          deploymentMatches = truthy (oget execution ''deploymentId'') \<and>
            strict_eq (oget execution ''deploymentId'') (manifest_deployment_id input);
          manifestMatches = truthy (oget execution ''snapshotManifestId'') \<and>
            strict_eq (oget execution ''snapshotManifestId'') (oget (oget input ''snapshotManifest'') ''id'');
          testSpecMatches = truthy (oget testSpec ''id'') \<and>
            strict_eq (oget execution ''testSpecId'') (oget testSpec ''id'') \<and>
            strict_eq (oget execution ''testSpecVersion'') (oget testSpec ''version'')
      in truthy (oget execution ''id'') \<and> deploymentMatches \<and> manifestMatches \<and> testSpecMatches)"

text \<open>The verification status and the gaps pushed with it.\<close>

definition execution_gaps :: "jsv \<Rightarrow> (jsv \<times> trace_gap list) res" where
  "execution_gaps input =
     (if \<not> execution_is_current input
      then Inr (JStr ''NOT_RUN'',
             [gap ''NOT_EXECUTED_ON_CURRENT_DEPLOYMENT''
                ''No execution proves the selected deployment, snapshot manifest, and TestSpec version.''])
      else bnd (assertEnum VerificationStatus (oget (oget input ''execution'') ''status'') ''execution.status'')
        (\<lambda>verification. bnd (addVerificationGaps verification) (\<lambda>gaps. Inr (verification, gaps))))"

text \<open>\<open>input.evidence.filter((item) => item.executionId === execution?.id)\<close>\<close>

definition linked_evidence :: "jsv \<Rightarrow> jsv list res" where
  "linked_evidence input =
     (if is_array (oget input ''evidence'')
      then filterR (\<lambda>item. bnd (pget item ''executionId'') (\<lambda>x.
             Inr (strict_eq x (oget (oget input ''execution'') ''id''))))
           (elems (oget input ''evidence''))
      else Inr [])"

definition freshness_of :: "bool \<Rightarrow> jsv list \<Rightarrow> string" where
  "freshness_of executionIsCurrent evidenceFreshness =
     (if \<not> executionIsCurrent then ''STALE''
      else if arr_includes evidenceFreshness (JStr ''STALE'') then ''STALE''
      else if arr_includes evidenceFreshness (JStr ''INCOMPLETE'') then ''INCOMPLETE''
      else if arr_includes evidenceFreshness (JStr ''EXPIRING'') then ''EXPIRING''
      else ''FRESH'')"

definition freshness_gaps :: "string \<Rightarrow> trace_gap list" where
  "freshness_gaps freshness =
     (if freshness = ''EXPIRING''
      then [gap_with ''EVIDENCE_EXPIRING''
              ''Evidence is still valid but is approaching its freshness limit.'' ''WARNING'']
      else if freshness \<noteq> ''FRESH''
      then [gap ''EVIDENCE_STALE'' (''Evidence freshness is '' @ freshness @ ''.'')]
      else [])"

definition evidence_gaps :: "bool \<Rightarrow> jsv list \<Rightarrow> (string \<times> trace_gap list) res" where
  "evidence_gaps executionIsCurrent evidence =
     (if evidence = []
      then Inr (''INCOMPLETE'',
             [gap ''EVIDENCE_MISSING'' ''No Evidence is linked to the selected execution.''])
      else bnd (someR (\<lambda>item. bnd (assertEnum IntegrityStatus (oget item ''integrity'') ''evidence.integrity'')
                 (\<lambda>integrity. Inr (integrity \<noteq> JStr ''VERIFIED''))) evidence) (\<lambda>invalidIntegrity.
           bnd (mapR (\<lambda>item. assertEnum EvidenceFreshness (oget item ''freshness'') ''evidence.freshness'')
                 evidence) (\<lambda>evidenceFreshness.
           let freshness = freshness_of executionIsCurrent evidenceFreshness
           in Inr (freshness,
                gap_if invalidIntegrity
                  (gap ''EVIDENCE_UNVERIFIED''
                    ''At least one Evidence item has not passed integrity verification.'')
                @ freshness_gaps freshness))))"

text \<open>\<open>[...new Map(gaps.map((item) => [item.type, item])).values()]\<close>\<close>

definition unique_gaps :: "trace_gap list \<Rightarrow> trace_gap list" where
  "unique_gaps gaps = map snd (js_map (map (\<lambda>g. (gap_type g, g)) gaps))"

definition trace_conflict_of :: "string \<Rightarrow> nat \<Rightarrow> jsv \<Rightarrow> trace_conflict res" where
  "trace_conflict_of chainId index conflict =
     (if is_string conflict
      then Inr \<lparr>conf_id = conflict, conf_type = JStr ''UNSPECIFIED'', conf_status = JStr ''OPEN'',
                conf_reason = JNull\<rparr>
      else bnd (pget conflict ''id'') (\<lambda>i.
        Inr \<lparr>conf_id = coalesce i (JStr (contentId ''TRACE-CONFLICT''
                (JObj [(''chainId'', JStr chainId), (''index'', JNum (int index)), (''conflict'', conflict)]))),
             conf_type = coalesce (oget conflict ''type'') (JStr ''UNSPECIFIED''),
             conf_status = coalesce (oget conflict ''status'') (JStr ''OPEN''),
             conf_reason = coalesce (oget conflict ''reason'') JNull\<rparr>))"

definition trace_stages :: "jsv \<Rightarrow> jsv \<Rightarrow> jsv \<Rightarrow> jsv \<Rightarrow> string \<Rightarrow> (string \<times> jsv) list" where
  "trace_stages input authority conformance verification freshness =
     [(''BUSINESS_INTENT'', authority),
      (''SCOPE'', JStr (if truthy (oget (oget input ''scope'') ''id'') then ''DEFINED'' else ''UNKNOWN'')),
      (''IMPLEMENTATION_CONFORMANCE'', conformance),
      (''TECHNICAL_IMPLEMENTATION'',
         JStr (if implementationMapped (oget input ''implementation'') then ''MAPPED'' else ''UNMAPPED'')),
      (''TEST_SPEC'', JStr (if truthy (oget (oget input ''testSpec'') ''approved'') then ''APPROVED''
         else if truthy (oget (oget input ''testSpec'') ''id'') then ''UNAPPROVED'' else ''MISSING'')),
      (''EXECUTION'', verification),
      (''EVIDENCE'', JStr freshness)]"

definition chain_identity :: "jsv \<Rightarrow> jsv \<Rightarrow> jsv \<Rightarrow> jsv \<Rightarrow> (string \<times> jsv) list" where
  "chain_identity input featureId claimId claimVersion =
     [(''featureId'', featureId), (''claimId'', claimId), (''claimVersion'', claimVersion),
      (''scopeId'', coalesce (oget (oget input ''scope'') ''id'') JNull),
      (''snapshotManifestId'', coalesce (oget (oget input ''snapshotManifest'') ''id'') JNull),
      (''deploymentId'', coalesce (manifest_deployment_id input) JNull)]"

definition evaluateTraceChain :: "jsv \<Rightarrow> int option \<Rightarrow> trace_chain res" where
  "evaluateTraceChain input now =
     throw_if (\<not> is_plain_object input) (TypeErr ''trace-chain input must be an object'') (
     bnd (requireNonEmptyString (oget (oget input ''feature'') ''id'') ''feature.id'') (\<lambda>featureId.
     bnd (requireNonEmptyString (oget (oget input ''claim'') ''id'') ''claim.id'') (\<lambda>claimId.
     bnd (requirePositiveInteger (oget (oget input ''claim'') ''version'') ''claim.version'') (\<lambda>claimVersion.
     bnd (assertEnum ClaimType (oget (oget input ''claim'') ''type'') ''claim.type'') (\<lambda>claimType.
     bnd (assertEnum AuthorityStatus
            (coalesce (oget (oget input ''claim'') ''authorityStatus'') (JStr ''UNREVIEWED''))
            ''claim.authorityStatus'') (\<lambda>authority.
     bnd (addConformanceGaps input claimId claimVersion
            (coalesce (oget (oget input ''scope'') ''id'') JNull)
            (coalesce (oget (oget input ''snapshotManifest'') ''id'') JNull)) (\<lambda>(conformance, gaps1).
     bnd (test_spec_gaps (oget input ''testSpec'') claimId claimVersion) (\<lambda>gaps2.
     bnd (execution_gaps input) (\<lambda>(verification, gaps3).
     bnd (linked_evidence input) (\<lambda>evidence.
     bnd (evidence_gaps (execution_is_current input) evidence) (\<lambda>(freshness, gaps4).
     bnd (assertEnum EvidenceSupport
            (coalesce (oget (oget input ''claim'') ''evidenceSupport'') (JStr ''NONE''))
            ''claim.evidenceSupport'') (\<lambda>evidenceSupport.
     let gaps = claim_gaps input claimType authority @ gaps1 @ gaps2 @ gaps3 @ gaps4
           @ gap_if (hasItems (oget input ''conflicts''))
               (gap ''UNRESOLVED_CONFLICT'' ''The trace chain contains unresolved conflicts.'');
         uniqueGaps = unique_gaps gaps;
         identity = chain_identity input featureId claimId claimVersion;
         chainId = contentId ''TRACE-CHAIN'' (JObj identity)
     in bnd (createSegments input chainId identity conformance (execution_is_current input)) (\<lambda>segments.
        bnd (list_or_empty (oget input ''conflicts'')) (\<lambda>items.
        bnd (mapiR (trace_conflict_of chainId) 0 items) (\<lambda>conflicts.
        bnd (to_iso_checked now) (\<lambda>computedAt.
        Inr \<lparr>tc_id = chainId, tc_identity = identity,
             tc_dimensions = \<lparr>dim_authority = authority, dim_evidenceSupport = evidenceSupport,
               dim_conformance = conformance, dim_verification = verification,
               dim_freshness = freshness,
               dim_conflict = (if hasItems (oget input ''conflicts'') then ''UNRESOLVED'' else ''NONE'')\<rparr>,
             tc_stages = trace_stages input authority conformance verification freshness,
             tc_segments = segments, tc_conflicts = conflicts,
             tc_complete = (\<not> list_ex (\<lambda>g. gap_severity g = ''BLOCKING'') uniqueGaps),
             tc_gaps = uniqueGaps, tc_computedAt = computedAt\<rparr>))))))))))))))))"


subsection \<open>The abstract specification of completeness\<close>

text \<open>
  What a complete chain is meant to prove, as one predicate over the input: an approved normative
  claim, a scope, a complete manifest, an implementation that conforms now, an approved test
  specification of that very claim with assertions, a passing run on that deployment, and
  verified evidence of that run that is not stale. It is written over the members of the input alone
  and uses none of the predicates of the evaluator.
\<close>

definition implementation_proved :: "jsv \<Rightarrow> bool" where
  "implementation_proved input \<longleftrightarrow>
     is_object (oget input ''implementation'') \<and>
     (\<exists>k\<in>{''endpoints'', ''codeSymbols'', ''dataObjects'', ''configurations'', ''dependencies''}.
        elems (oget (oget input ''implementation'') k) \<noteq> [])"

definition conformance_proved :: "jsv \<Rightarrow> bool" where
  "conformance_proved input \<longleftrightarrow>
     (let conformance = oget input ''conformance'' in
      oget conformance ''status'' = JStr ''CONFORMS'' \<and>
      strict_eq (oget conformance ''claimId'') (oget (oget input ''claim'') ''id'') \<and>
      strict_eq (oget conformance ''claimVersion'') (oget (oget input ''claim'') ''version'') \<and>
      strict_eq (oget conformance ''scopeId'') (coalesce (oget (oget input ''scope'') ''id'') JNull) \<and>
      strict_eq (oget conformance ''snapshotManifestId'') (coalesce (oget (oget input ''snapshotManifest'') ''id'') JNull))"

definition execution_proved :: "jsv \<Rightarrow> bool" where
  "execution_proved input \<longleftrightarrow>
     (let execution = oget input ''execution''; manifest = oget input ''snapshotManifest''; testSpec = oget input ''testSpec'' in
      truthy (oget execution ''id'') \<and> oget execution ''status'' = JStr ''PASS'' \<and>
      truthy (oget execution ''deploymentId'') \<and>
      strict_eq (oget execution ''deploymentId'') (oget (oget (oget manifest ''components'') ''deployment'') ''id'') \<and>
      truthy (oget execution ''snapshotManifestId'') \<and>
      strict_eq (oget execution ''snapshotManifestId'') (oget manifest ''id'') \<and>
      truthy (oget testSpec ''id'') \<and>
      strict_eq (oget execution ''testSpecId'') (oget testSpec ''id'') \<and>
      strict_eq (oget execution ''testSpecVersion'') (oget testSpec ''version''))"

definition test_spec_proved :: "jsv \<Rightarrow> bool" where
  "test_spec_proved input \<longleftrightarrow>
     (let testSpec = oget input ''testSpec'' in
      truthy (oget testSpec ''id'') \<and> truthy (oget testSpec ''approved'') \<and>
      elems (oget testSpec ''assertions'') \<noteq> [] \<and>
      list_ex (\<lambda>cl. oget cl ''id'' = oget (oget input ''claim'') ''id'' \<and>
                     oget cl ''version'' = oget (oget input ''claim'') ''version'')
        (elems (oget testSpec ''verifiesClaims'')))"

definition run_evidence :: "jsv \<Rightarrow> jsv list" where
  "run_evidence input =
     filter (\<lambda>item. strict_eq (oget item ''executionId'') (oget (oget input ''execution'') ''id''))
       (elems (oget input ''evidence''))"

definition evidence_proved :: "jsv \<Rightarrow> bool" where
  "evidence_proved input \<longleftrightarrow>
     run_evidence input \<noteq> [] \<and>
     list_all (\<lambda>item. oget item ''integrity'' = JStr ''VERIFIED'' \<and>
                      one_of [''FRESH'', ''EXPIRING''] (oget item ''freshness''))
       (run_evidence input)"

definition proof_obligations :: "jsv \<Rightarrow> bool" where
  "proof_obligations input \<longleftrightarrow>
     oget (oget input ''claim'') ''type'' = JStr ''NORMATIVE_REQUIREMENT'' \<and>
     one_of [''CONFIRMED'', ''EXCEPTION_RECORDED''] (oget (oget input ''claim'') ''authorityStatus'') \<and>
     truthy (oget (oget input ''scope'') ''id'') \<and>
     truthy (oget (oget input ''snapshotManifest'') ''complete'') \<and>
     implementation_proved input \<and> conformance_proved input \<and> test_spec_proved input \<and>
     execution_proved input \<and> evidence_proved input \<and> elems (oget input ''conflicts'') = []"

text \<open>The predicates of the evaluator decide these obligations.\<close>

lemma hasItems_elems: "hasItems v \<longleftrightarrow> elems v \<noteq> []"
  by (cases v) simp_all

lemma implementation_proved_iff: "implementation_proved input \<longleftrightarrow> implementationMapped (oget input ''implementation'')"
  by (simp add: implementation_proved_def implementationMapped_def hasItems_elems del: oget_simps)

lemma conformance_proved_iff:
  "conformance_proved input \<longleftrightarrow>
     oget (oget input ''conformance'') ''status'' = JStr ''CONFORMS'' \<and>
     conformance_current (oget input ''conformance'')
       (oget (oget input ''claim'') ''id'') (oget (oget input ''claim'') ''version'')
       (coalesce (oget (oget input ''scope'') ''id'') JNull)
       (coalesce (oget (oget input ''snapshotManifest'') ''id'') JNull)"
  by (simp add: conformance_proved_def conformance_current_def Let_def del: oget_simps)

lemma execution_proved_iff:
  "execution_proved input \<longleftrightarrow> execution_is_current input \<and> oget (oget input ''execution'') ''status'' = JStr ''PASS''"
  unfolding execution_proved_def execution_is_current_def manifest_deployment_id_def Let_def by iprover

text \<open>The statuses arrive as strings, as the schemas of the documents require.\<close>

definition statuses_are_strings :: "jsv \<Rightarrow> bool" where
  "statuses_are_strings input \<longleftrightarrow>
     (nullish (oget (oget input ''conformance'') ''status'') \<or>
      is_string (oget (oget input ''conformance'') ''status'')) \<and>
     list_all (\<lambda>item. is_string (oget item ''freshness'')) (run_evidence input)"

subsection \<open>Gap lists\<close>

definition blocking :: "trace_gap list \<Rightarrow> bool" where
  "blocking gs \<longleftrightarrow> list_ex (\<lambda>g. gap_severity g = ''BLOCKING'') gs"

lemma blocking_simps [simp]:
  "\<not> blocking []" "blocking (g # gs) \<longleftrightarrow> gap_severity g = ''BLOCKING'' \<or> blocking gs"
  "blocking (gs @ hs) \<longleftrightarrow> blocking gs \<or> blocking hs"
  "blocking (gap_if c g) \<longleftrightarrow> c \<and> gap_severity g = ''BLOCKING''"
  by (auto simp: blocking_def gap_if_def)

text \<open>Every gap is blocking but the one that says evidence expires soon, and has an owner.\<close>

definition regular_gap :: "trace_gap \<Rightarrow> bool" where
  "regular_gap g \<longleftrightarrow> gap_type g \<in> set TraceGapType \<and>
     gap_severity g = (if gap_type g = ''EVIDENCE_EXPIRING'' then ''WARNING'' else ''BLOCKING'') \<and>
     gap_ownerRole g = map_of ownerByGap (gap_type g) \<and> gap_ownerRole g \<noteq> None"

lemma regular_gap_if [simp]: "list_all regular_gap (gap_if c g) \<longleftrightarrow> (c \<longrightarrow> regular_gap g)"
  by (simp add: gap_if_def)

lemma unique_gaps_set: "set (unique_gaps gs) \<subseteq> set gs"
  unfolding unique_gaps_def using js_map_in_set by fastforce

lemma unique_gaps_key:
  "(k, g) \<in> set (js_map (map (\<lambda>g. (gap_type g, g)) gs)) \<Longrightarrow> k = gap_type g"
  by (drule js_map_in_set) auto

lemma unique_gaps_types: "map gap_type (unique_gaps gs) = map fst (js_map (map (\<lambda>g. (gap_type g, g)) gs))"
  unfolding unique_gaps_def by (auto dest: unique_gaps_key)

lemma unique_gaps_distinct: "distinct (map gap_type (unique_gaps gs))"
  by (simp add: unique_gaps_types)

lemma unique_gaps_same_types: "gap_type ` set (unique_gaps gs) = gap_type ` set gs"
  using arg_cong [OF unique_gaps_types [of gs], of set]
  by (simp add: keys_js_map [unfolded set_map] image_image)

lemma blocking_unique_gaps:
  assumes "list_all regular_gap gs"
  shows "blocking (unique_gaps gs) \<longleftrightarrow> blocking gs"
proof -
  have by_type: "gap_severity g = ''BLOCKING'' \<longleftrightarrow> gap_type g \<noteq> ''EVIDENCE_EXPIRING''" if "g \<in> set gs" for g
    using assms that by (auto simp: list_all_iff regular_gap_def)
  have "blocking (unique_gaps gs) \<longleftrightarrow> (\<exists>t\<in>gap_type ` set (unique_gaps gs). t \<noteq> ''EVIDENCE_EXPIRING'')"
    using by_type unique_gaps_set [of gs] by (auto simp: blocking_def list_ex_iff)
  also have "\<dots> \<longleftrightarrow> blocking gs"
    using by_type by (auto simp: unique_gaps_same_types blocking_def list_ex_iff)
  finally show ?thesis .
qed


subsection \<open>What each group of gaps says\<close>

lemma regular_gap_known [simp]:
  "regular_gap (gap t m) \<longleftrightarrow> t \<in> set TraceGapType \<and> t \<noteq> ''EVIDENCE_EXPIRING'' \<and> map_of ownerByGap t \<noteq> None"
  "regular_gap (gap_with ''EVIDENCE_EXPIRING'' m ''WARNING'')"
  by (auto simp: regular_gap_def TraceGapType_def ownerByGap_def)

lemmas gap_tables = TraceGapType_def ownerByGap_def

lemma claim_gaps_regular: "list_all regular_gap (claim_gaps input ct au)"
  by (simp add: claim_gaps_def gap_tables)

lemma claim_gaps_blocking:
  "blocking (claim_gaps input ct au) \<longleftrightarrow>
     \<not> (ct = JStr ''NORMATIVE_REQUIREMENT'' \<and> one_of [''CONFIRMED'', ''EXCEPTION_RECORDED''] au \<and>
        truthy (oget (oget input ''scope'') ''id'') \<and>
        truthy (oget (oget input ''snapshotManifest'') ''complete'') \<and>
        implementationMapped (oget input ''implementation''))"
  by (auto simp: claim_gaps_def)

lemma conformance_status_regular: "list_all regular_gap (conformance_status_gaps eff)"
  by (simp add: conformance_status_gaps_def gap_tables)

lemma conformance_status_blocking:
  "s \<in> set ConformanceStatus \<Longrightarrow> blocking (conformance_status_gaps (JStr s)) \<longleftrightarrow> s \<noteq> ''CONFORMS''"
  by (auto simp: conformance_status_gaps_def ConformanceStatus_def)

lemma conformance_gaps_regular:
  "addConformanceGaps input ci cv si mi = Inr (eff, gs) \<Longrightarrow> list_all regular_gap gs"
  by (auto simp: addConformanceGaps_def res_simps Let_def conformance_status_regular)

lemma conformance_gaps_blocking:
  assumes "addConformanceGaps input ci cv si mi = Inr (eff, gs)"
    and "nullish (oget (oget input ''conformance'') ''status'') \<or>
         is_string (oget (oget input ''conformance'') ''status'')"
  shows "blocking gs \<longleftrightarrow>
     \<not> (oget (oget input ''conformance'') ''status'' = JStr ''CONFORMS'' \<and>
        conformance_current (oget input ''conformance'') ci cv si mi)"
proof -
  let ?st = "oget (oget input ''conformance'') ''status''"
  let ?cur = "conformance_current (oget input ''conformance'') ci cv si mi"
  obtain s where s: "coalesce ?st (JStr ''UNKNOWN'') = JStr s"
    and conf: "?st = JStr ''CONFORMS'' \<longleftrightarrow> s = ''CONFORMS''"
    using assms(2) by (cases ?st) auto
  let ?s = "if s \<noteq> ''UNKNOWN'' \<and> \<not> ?cur then ''STALE'' else s"
  from assms(1) have "s \<in> set ConformanceStatus" and gs: "gs = conformance_status_gaps (JStr ?s)"
    by (auto simp: addConformanceGaps_def s Let_def res_simps)
  then have "?s \<in> set ConformanceStatus" by (simp add: ConformanceStatus_def)
  then have "blocking gs \<longleftrightarrow> ?s \<noteq> ''CONFORMS''" unfolding gs by (rule conformance_status_blocking)
  then show ?thesis by (simp add: conf)
qed

lemma test_spec_gaps_regular:
  "test_spec_gaps ts ci cv = Inr gs \<Longrightarrow> list_all regular_gap gs"
  by (auto simp: test_spec_gaps_def res_simps gap_tables split: if_splits)

lemma list_or_empty_Inr: "list_or_empty v = Inr xs \<Longrightarrow> xs = elems v"
  by (cases v) (auto simp: list_or_empty_def)

lemma verifies_claim_Inr:
  assumes "verifies_claim ts ci cv = Inr b" and "\<not> is_object ci" and "\<not> is_object cv"
  shows "b \<longleftrightarrow> list_ex (\<lambda>cl. oget cl ''id'' = ci \<and> oget cl ''version'' = cv) (elems (oget ts ''verifiesClaims''))"
proof -
  let ?p = "\<lambda>claim. bnd (pget claim ''id'') (\<lambda>i.
         Inr (strict_eq i ci \<and> strict_eq (oget claim ''version'') cv))"
  from assms(1) have some: "someR ?p (elems (oget ts ''verifiesClaims'')) = Inr b"
    by (auto simp: verifies_claim_def res_simps dest: list_or_empty_Inr)
  have p: "?p cl = Inr c \<Longrightarrow> c \<longleftrightarrow> oget cl ''id'' = ci \<and> oget cl ''version'' = cv" for cl c
    using assms(2,3) by (auto simp: res_simps strict_eq_def)
  show ?thesis
  proof (cases b)
    case True
    with someR_Inr_True [of ?p] some p show ?thesis by (fastforce simp: list_ex_iff)
  next
    case False
    with some have "\<forall>cl\<in>set (elems (oget ts ''verifiesClaims'')). ?p cl = Inr False"
      by (simp add: someR_Inr_False)
    with p False show ?thesis by (fastforce simp: list_ex_iff)
  qed
qed

lemma test_spec_gaps_blocking:
  assumes "test_spec_gaps (oget input ''testSpec'') ci cv = Inr gs"
    and "ci = oget (oget input ''claim'') ''id''" and "cv = oget (oget input ''claim'') ''version''"
    and "\<not> is_object ci" and "\<not> is_object cv"
  shows "blocking gs \<longleftrightarrow> \<not> test_spec_proved input"
  using assms(1) verifies_claim_Inr [OF _ assms(4,5), of "oget input ''testSpec''"]
  by (auto simp: test_spec_gaps_def test_spec_proved_def hasItems_elems Let_def res_simps assms(2,3) split: if_splits)

lemma verification_gaps_regular: "addVerificationGaps st = Inr gs \<Longrightarrow> list_all regular_gap gs"
  by (auto simp: addVerificationGaps_def verification_mappings_def gap_tables split: if_splits)

lemma execution_gaps_regular: "execution_gaps input = Inr (v, gs) \<Longrightarrow> list_all regular_gap gs"
  by (auto simp: execution_gaps_def res_simps gap_tables verification_gaps_regular split: if_splits)

lemma verification_gaps_blocking: "addVerificationGaps st = Inr gs \<Longrightarrow> blocking gs \<longleftrightarrow> st \<noteq> JStr ''PASS''"
  by (auto simp: addVerificationGaps_def split: if_splits option.splits)

lemma execution_gaps_blocking:
  "execution_gaps input = Inr (v, gs) \<Longrightarrow>
   blocking gs \<longleftrightarrow> \<not> (execution_is_current input \<and> oget (oget input ''execution'') ''status'' = JStr ''PASS'')"
  by (auto simp: execution_gaps_def res_simps VerificationStatus_def verification_gaps_blocking split: if_splits)

lemma linked_evidence_Inr: "linked_evidence input = Inr xs \<Longrightarrow> xs = run_evidence input"
proof -
  assume linked: "linked_evidence input = Inr xs"
  show ?thesis
  proof (cases "is_array (oget input ''evidence'')")
    case True
    let ?p = "\<lambda>item. bnd (pget item ''executionId'') (\<lambda>x.
             Inr (strict_eq x (oget (oget input ''execution'') ''id'')))"
    from linked True have f: "filterR ?p (elems (oget input ''evidence'')) = Inr xs"
      by (simp add: linked_evidence_def)
    have "xs = filter (\<lambda>x. ?p x = Inr True) (elems (oget input ''evidence''))"
      by (rule filterR_Inr [OF f])
    also have "\<dots> = run_evidence input"
      unfolding run_evidence_def
      by (rule filter_cong [OF refl], drule filterR_ok [OF f]) (auto simp: res_simps)
    finally show ?thesis .
  next
    case False
    with linked show ?thesis
      by (cases "oget input ''evidence''") (auto simp: linked_evidence_def run_evidence_def)
  qed
qed

lemma freshness_gaps_regular: "list_all regular_gap (freshness_gaps f)"
  by (auto simp: freshness_gaps_def gap_tables)

lemma freshness_gaps_blocking: "blocking (freshness_gaps f) \<longleftrightarrow> f \<notin> {''FRESH'', ''EXPIRING''}"
  by (auto simp: freshness_gaps_def)

lemma evidence_gaps_regular: "evidence_gaps cur ev = Inr (f, gs) \<Longrightarrow> list_all regular_gap gs"
  by (auto simp: evidence_gaps_def res_simps Let_def freshness_gaps_regular gap_tables split: if_splits)

lemma freshness_of_fresh:
  "freshness_of True (map JStr ss) \<in> {''FRESH'', ''EXPIRING''} \<longleftrightarrow> ''STALE'' \<notin> set ss \<and> ''INCOMPLETE'' \<notin> set ss"
  by (simp add: freshness_of_def arr_includes_strs)

lemma evidence_freshness_strings:
  assumes "mapR (\<lambda>item. assertEnum EvidenceFreshness (oget item ''freshness'') m) ev = Inr fs"
    and "list_all (\<lambda>item. is_string (oget item ''freshness'')) ev"
  shows "\<exists>ss. fs = map JStr ss \<and> map (\<lambda>item. oget item ''freshness'') ev = map JStr ss \<and>
              set ss \<subseteq> {''FRESH'', ''EXPIRING'', ''STALE'', ''INCOMPLETE''}"
  using assms
proof (induction ev arbitrary: fs)
  case (Cons item ev)
  from Cons.prems obtain f fs' where f: "f = oget item ''freshness''" "is_string f"
    "js_string f \<in> set EvidenceFreshness" and rest: "fs = f # fs'"
    "mapR (\<lambda>item. assertEnum EvidenceFreshness (oget item ''freshness'') m) ev = Inr fs'"
    by (auto simp: res_simps)
  from f obtain s where s: "f = JStr s" "s \<in> {''FRESH'', ''EXPIRING'', ''STALE'', ''INCOMPLETE''}"
    by (auto simp: EvidenceFreshness_def is_string_iff)
  from Cons.IH [OF rest(2)] Cons.prems(2) obtain ss where ss: "fs' = map JStr ss"
    "map (\<lambda>item. oget item ''freshness'') ev = map JStr ss"
    "set ss \<subseteq> {''FRESH'', ''EXPIRING'', ''STALE'', ''INCOMPLETE''}"
    by auto
  show ?case by (rule exI [of _ "s # ss"]) (use f s ss rest in auto)
qed simp

lemma all_fresh_iff:
  assumes "map (\<lambda>item. oget item ''freshness'') ev = map JStr ss"
    and "set ss \<subseteq> {''FRESH'', ''EXPIRING'', ''STALE'', ''INCOMPLETE''}"
  shows "(\<forall>item\<in>set ev. one_of [''FRESH'', ''EXPIRING''] (oget item ''freshness'')) \<longleftrightarrow>
         ''STALE'' \<notin> set ss \<and> ''INCOMPLETE'' \<notin> set ss"
  using assms
proof (induction ev arbitrary: ss)
  case (Cons item ev)
  then show ?case by (cases ss) auto
qed simp

lemma evidence_gaps_blocking:
  assumes "evidence_gaps True ev = Inr (f, gs)"
    and str: "list_all (\<lambda>item. is_string (oget item ''freshness'')) ev"
  shows "blocking gs \<longleftrightarrow>
     \<not> (ev \<noteq> [] \<and> list_all (\<lambda>item. oget item ''integrity'' = JStr ''VERIFIED'' \<and>
            one_of [''FRESH'', ''EXPIRING''] (oget item ''freshness'')) ev)"
proof (cases "ev = []")
  case True
  with assms(1) show ?thesis by (auto simp: evidence_gaps_def)
next
  case False
  let ?p = "\<lambda>item. bnd (assertEnum IntegrityStatus (oget item ''integrity'') ''evidence.integrity'')
                 (\<lambda>integrity. Inr (integrity \<noteq> JStr ''VERIFIED''))"
  from False assms(1) obtain b fs where
    b: "someR ?p ev = Inr b" and
    fs: "mapR (\<lambda>item. assertEnum EvidenceFreshness (oget item ''freshness'') ''evidence.freshness'') ev = Inr fs"
    and f: "f = freshness_of True fs"
    and gs: "gs = gap_if b (gap ''EVIDENCE_UNVERIFIED''
       ''At least one Evidence item has not passed integrity verification.'') @ freshness_gaps f"
    by (auto simp: evidence_gaps_def res_simps Let_def)
  have integrity: "b \<longleftrightarrow> \<not> (\<forall>item\<in>set ev. oget item ''integrity'' = JStr ''VERIFIED'')"
  proof (cases b)
    case True
    with someR_Inr_True [of ?p ev] b show ?thesis by (auto simp: res_simps)
  next
    case False
    with b show ?thesis by (auto simp: someR_Inr_False res_simps)
  qed
  obtain ss where ss: "fs = map JStr ss" "map (\<lambda>item. oget item ''freshness'') ev = map JStr ss"
    "set ss \<subseteq> {''FRESH'', ''EXPIRING'', ''STALE'', ''INCOMPLETE''}"
    using evidence_freshness_strings [OF fs str] by blast
  show ?thesis
    using False integrity all_fresh_iff [OF ss(2,3)]
    by (auto simp: gs f ss(1) freshness_gaps_blocking freshness_of_fresh list_all_iff
        simp del: insert_iff)
qed

subsection \<open>Completeness implements its specification\<close>

text \<open>The run of the evaluator, with the value of every local variable that the verdict depends on.\<close>

lemma evaluateTraceChain_run:
  assumes "evaluateTraceChain input now = Inr c"
  obtains ct au eff gaps1 gaps2 v gaps3 f gaps4 where
    "oget (oget input ''claim'') ''type'' = ct"
    "au = coalesce (oget (oget input ''claim'') ''authorityStatus'') (JStr ''UNREVIEWED'')"
    "\<not> is_object (oget (oget input ''claim'') ''id'')" "\<not> is_object (oget (oget input ''claim'') ''version'')"
    "addConformanceGaps input (oget (oget input ''claim'') ''id'') (oget (oget input ''claim'') ''version'')
       (coalesce (oget (oget input ''scope'') ''id'') JNull)
       (coalesce (oget (oget input ''snapshotManifest'') ''id'') JNull) = Inr (eff, gaps1)"
    "test_spec_gaps (oget input ''testSpec'') (oget (oget input ''claim'') ''id'')
       (oget (oget input ''claim'') ''version'') = Inr gaps2"
    "execution_gaps input = Inr (v, gaps3)"
    "evidence_gaps (execution_is_current input) (run_evidence input) = Inr (f, gaps4)"
    "tc_gaps c = unique_gaps (claim_gaps input ct au @ gaps1 @ gaps2 @ gaps3 @ gaps4
       @ gap_if (hasItems (oget input ''conflicts''))
           (gap ''UNRESOLVED_CONFLICT'' ''The trace chain contains unresolved conflicts.''))"
    "tc_complete c = (\<not> blocking (tc_gaps c))"
  using assms
  by (auto simp: evaluateTraceChain_def res_simps Let_def blocking_def dest!: linked_evidence_Inr)

lemma evaluateTraceChain_gaps:
  assumes "evaluateTraceChain input now = Inr c"
  shows "list_all regular_gap (tc_gaps c)" "distinct (map gap_type (tc_gaps c))"
    "tc_complete c \<longleftrightarrow> \<not> blocking (tc_gaps c)"
proof -
  from assms show "list_all regular_gap (tc_gaps c)"
  proof (rule evaluateTraceChain_run)
    fix ct au eff gaps1 gaps2 v gaps3 f gaps4
    let ?gs = "claim_gaps input ct au @ gaps1 @ gaps2 @ gaps3 @ gaps4
       @ gap_if (hasItems (oget input ''conflicts''))
           (gap ''UNRESOLVED_CONFLICT'' ''The trace chain contains unresolved conflicts.'')"
    assume *: "addConformanceGaps input (oget (oget input ''claim'') ''id'') (oget (oget input ''claim'') ''version'')
       (coalesce (oget (oget input ''scope'') ''id'') JNull)
       (coalesce (oget (oget input ''snapshotManifest'') ''id'') JNull) = Inr (eff, gaps1)"
      "test_spec_gaps (oget input ''testSpec'') (oget (oget input ''claim'') ''id'')
       (oget (oget input ''claim'') ''version'') = Inr gaps2"
      "execution_gaps input = Inr (v, gaps3)"
      "evidence_gaps (execution_is_current input) (run_evidence input) = Inr (f, gaps4)"
      "tc_gaps c = unique_gaps ?gs"
    have "list_all regular_gap ?gs"
      using * by (simp add: claim_gaps_regular conformance_gaps_regular test_spec_gaps_regular
          execution_gaps_regular evidence_gaps_regular gap_tables)
    with *(5) unique_gaps_set [of ?gs] show ?thesis by (auto simp: list_all_iff)
  qed
  from assms show "distinct (map gap_type (tc_gaps c))" "tc_complete c \<longleftrightarrow> \<not> blocking (tc_gaps c)"
    by (rule evaluateTraceChain_run, simp add: unique_gaps_distinct)+
qed

lemma complete_iff_obligations:
  assumes run: "evaluateTraceChain input now = Inr c" and strs: "statuses_are_strings input"
  shows "tc_complete c \<longleftrightarrow> proof_obligations input"
  using run
proof (rule evaluateTraceChain_run)
  fix ct au eff gaps1 gaps2 v gaps3 f gaps4
  let ?gs = "claim_gaps input ct au @ gaps1 @ gaps2 @ gaps3 @ gaps4
       @ gap_if (hasItems (oget input ''conflicts''))
           (gap ''UNRESOLVED_CONFLICT'' ''The trace chain contains unresolved conflicts.'')"
  assume ct: "oget (oget input ''claim'') ''type'' = ct"
    and au: "au = coalesce (oget (oget input ''claim'') ''authorityStatus'') (JStr ''UNREVIEWED'')"
    and no: "\<not> is_object (oget (oget input ''claim'') ''id'')" "\<not> is_object (oget (oget input ''claim'') ''version'')"
    and g1: "addConformanceGaps input (oget (oget input ''claim'') ''id'') (oget (oget input ''claim'') ''version'')
       (coalesce (oget (oget input ''scope'') ''id'') JNull)
       (coalesce (oget (oget input ''snapshotManifest'') ''id'') JNull) = Inr (eff, gaps1)"
    and g2: "test_spec_gaps (oget input ''testSpec'') (oget (oget input ''claim'') ''id'')
       (oget (oget input ''claim'') ''version'') = Inr gaps2"
    and g3: "execution_gaps input = Inr (v, gaps3)"
    and g4: "evidence_gaps (execution_is_current input) (run_evidence input) = Inr (f, gaps4)"
    and gs: "tc_gaps c = unique_gaps ?gs" and "tc_complete c = (\<not> blocking (tc_gaps c))"
  then have "tc_complete c \<longleftrightarrow> \<not> blocking ?gs"
    by (simp add: blocking_unique_gaps claim_gaps_regular conformance_gaps_regular test_spec_gaps_regular
        execution_gaps_regular evidence_gaps_regular gap_tables)
  moreover have "one_of [''CONFIRMED'', ''EXCEPTION_RECORDED''] au \<longleftrightarrow>
      one_of [''CONFIRMED'', ''EXCEPTION_RECORDED''] (oget (oget input ''claim'') ''authorityStatus'')"
    by (cases "oget (oget input ''claim'') ''authorityStatus''") (auto simp: au)
  moreover have "blocking gaps1 \<longleftrightarrow> \<not> conformance_proved input"
    using conformance_gaps_blocking [OF g1] strs by (simp add: conformance_proved_iff statuses_are_strings_def)
  moreover have "blocking gaps2 \<longleftrightarrow> \<not> test_spec_proved input"
    by (rule test_spec_gaps_blocking [OF g2 refl refl no])
  moreover have "blocking gaps3 \<longleftrightarrow>
      \<not> (execution_is_current input \<and> oget (oget input ''execution'') ''status'' = JStr ''PASS'')"
    by (rule execution_gaps_blocking [OF g3])
  moreover have "blocking gaps4 \<longleftrightarrow> \<not> evidence_proved input" if "execution_is_current input"
    using evidence_gaps_blocking [of "run_evidence input" f gaps4] g4 that strs
    by (simp add: evidence_proved_def statuses_are_strings_def)
  ultimately show ?thesis
    by (auto simp: claim_gaps_blocking ct proof_obligations_def implementation_proved_iff execution_proved_iff hasItems_elems)
qed


subsection \<open>Properties\<close>

text \<open>
  C33: the verdict of the chain evaluator is exactly its specification. Where the conformance status
  and the freshness values are strings, a chain is reported complete if and only if every proof
  obligation holds of the input: approved normative claim, scope, complete manifest, mapped and
  currently conforming implementation, approved test specification with assertions that declares
  this claim at this version, a passing run on the selected deployment and manifest, and verified
  evidence of that run that is neither stale nor incomplete, without open conflicts.
\<close>

theorem chain_complete_iff_obligations:
  assumes "evaluateTraceChain input now = Inr c" and "statuses_are_strings input"
  shows "tc_complete c \<longleftrightarrow> proof_obligations input"
  by (rule complete_iff_obligations [OF assms])

text \<open>A complete chain, as the application assembles it; \<open>conformance\<close> is the reported status.\<close>

definition sample_chain :: "jsv \<Rightarrow> jsv" where
  "sample_chain conformance = JObj
    [(''feature'', JObj [(''id'', JStr ''F'')]),
     (''claim'', JObj [(''id'', JStr ''C''), (''version'', JNum 1), (''type'', JStr ''NORMATIVE_REQUIREMENT''),
        (''authorityStatus'', JStr ''CONFIRMED'')]),
     (''scope'', JObj [(''id'', JStr ''S'')]),
     (''snapshotManifest'', JObj [(''id'', JStr ''M''), (''complete'', JBool True),
        (''components'', JObj [(''deployment'', JObj [(''id'', JStr ''D'')])])]),
     (''implementation'', JObj [(''endpoints'', JArr [JStr ''E''])]),
     (''conformance'', JObj [(''status'', conformance), (''claimId'', JStr ''C''), (''claimVersion'', JNum 1),
        (''scopeId'', JStr ''S''), (''snapshotManifestId'', JStr ''M'')]),
     (''testSpec'', JObj [(''id'', JStr ''T''), (''version'', JNum 1), (''approved'', JBool True),
        (''assertions'', JArr [JStr ''A'']),
        (''verifiesClaims'', JArr [JObj [(''id'', JStr ''C''), (''version'', JNum 1)]])]),
     (''execution'', JObj [(''id'', JStr ''X''), (''deploymentId'', JStr ''D''), (''snapshotManifestId'', JStr ''M''),
        (''testSpecId'', JStr ''T''), (''testSpecVersion'', JNum 1), (''status'', JStr ''PASS'')]),
     (''evidence'', JArr [JObj [(''executionId'', JStr ''X''), (''integrity'', JStr ''VERIFIED''),
        (''freshness'', JStr ''FRESH'')]])]"

lemma sample_conformance:
  "addConformanceGaps (sample_chain (JStr ''CONFORMS'')) (JStr ''C'') (JNum 1) (JStr ''S'') (JStr ''M'')
     = Inr (JStr ''CONFORMS'', [])"
  "addConformanceGaps (sample_chain (JArr [JStr ''DEVIATES''])) (JStr ''C'') (JNum 1) (JStr ''S'') (JStr ''M'')
     = Inr (JArr [JStr ''DEVIATES''], [])"
  by code_simp+

lemma sample_gaps:
  "claim_gaps (sample_chain x) (JStr ''NORMATIVE_REQUIREMENT'') (JStr ''CONFIRMED'') = []"
  "test_spec_gaps (oget (sample_chain x) ''testSpec'') (JStr ''C'') (JNum 1) = Inr []"
  "execution_gaps (sample_chain x) = Inr (JStr ''PASS'', [])"
  "linked_evidence (sample_chain x) = Inr (run_evidence (sample_chain x))"
  "execution_is_current (sample_chain x)"
  "evidence_gaps True (run_evidence (sample_chain x)) = Inr (''FRESH'', [])"
  "unique_gaps [] = []"
  by code_simp+

lemma sample_segments: "is_ok (createSegments (sample_chain x) i idn conf True)"
  by (simp add: createSegments_def sample_chain_def list_or_empty_def implementation_segments_def
      test_segments_def execution_segments_def implementationRelations_def Let_def
      del: One_nat_def)

lemma sample_evaluates:
  assumes "addConformanceGaps (sample_chain x) (JStr ''C'') (JNum 1) (JStr ''S'') (JStr ''M'') = Inr (e, [])"
  shows "\<exists>c. evaluateTraceChain (sample_chain x) (Some 0) = Inr c \<and> tc_complete c \<and> tc_gaps c = []"
proof -
  have fields: "is_plain_object (sample_chain x)" "oget (oget (sample_chain x) ''feature'') ''id'' = JStr ''F''"
    "oget (oget (sample_chain x) ''claim'') ''id'' = JStr ''C''"
    "oget (oget (sample_chain x) ''claim'') ''version'' = JNum 1"
    "oget (oget (sample_chain x) ''claim'') ''type'' = JStr ''NORMATIVE_REQUIREMENT''"
    "oget (oget (sample_chain x) ''claim'') ''authorityStatus'' = JStr ''CONFIRMED''"
    "oget (oget (sample_chain x) ''claim'') ''evidenceSupport'' = JUndef"
    "oget (oget (sample_chain x) ''scope'') ''id'' = JStr ''S''"
    "oget (oget (sample_chain x) ''snapshotManifest'') ''id'' = JStr ''M''"
    "oget (sample_chain x) ''conflicts'' = JUndef"
    by (simp_all add: sample_chain_def)
  have iso: "to_iso_checked (Some 0) = Inr ''1970-01-01T00:00:00.000Z''" by code_simp
  have enums: "''NORMATIVE_REQUIREMENT'' \<in> set ClaimType" "''CONFIRMED'' \<in> set AuthorityStatus"
    "''NONE'' \<in> set EvidenceSupport"
    by (simp_all add: ClaimType_def AuthorityStatus_def EvidenceSupport_def)
  have trim: "js_trim ''F'' \<noteq> []" "js_trim ''C'' \<noteq> []" by code_simp+
  obtain segs where segs: "createSegments (sample_chain x)
      (contentId ''TRACE-CHAIN'' (JObj (chain_identity (sample_chain x) (JStr ''F'') (JStr ''C'') (JNum 1))))
      (chain_identity (sample_chain x) (JStr ''F'') (JStr ''C'') (JNum 1)) e True = Inr segs"
    using sample_segments unfolding is_ok_def by (metis (no_types, lifting) sum.case_eq_if sum.collapse(2))
  show ?thesis
    by (simp add: evaluateTraceChain_def fields enums trim assms sample_gaps segs iso Let_def
        assertEnum_def list_or_empty_def)
qed

theorem chain_complete_iff_obligations_witness:
  "\<exists>c. evaluateTraceChain (sample_chain (JStr ''CONFORMS'')) (Some 0) = Inr c \<and> tc_complete c \<and>
     proof_obligations (sample_chain (JStr ''CONFORMS''))"
proof -
  obtain c where c: "evaluateTraceChain (sample_chain (JStr ''CONFORMS'')) (Some 0) = Inr c" "tc_complete c"
    using sample_evaluates [OF sample_conformance(1)] by blast
  moreover have "statuses_are_strings (sample_chain (JStr ''CONFORMS''))" by code_simp
  ultimately show ?thesis using chain_complete_iff_obligations by blast
qed

text \<open>
  the gap list of an evaluated chain names every missing obligation once. No two gaps have the
  same type, every gap has a known type and the owner role the table gives for it, only
  \<open>EVIDENCE_EXPIRING\<close> is a warning, and the chain is complete exactly when every gap is a warning.
\<close>

theorem chain_gaps_owned_and_unique:
  assumes "evaluateTraceChain input now = Inr c"
  shows "distinct (map gap_type (tc_gaps c)) \<and>
    list_all (\<lambda>g. gap_type g \<in> set TraceGapType \<and>
       gap_ownerRole g = map_of ownerByGap (gap_type g) \<and> gap_ownerRole g \<noteq> None \<and>
       (gap_severity g = ''WARNING'' \<longleftrightarrow> gap_type g = ''EVIDENCE_EXPIRING'')) (tc_gaps c) \<and>
    (tc_complete c \<longleftrightarrow> list_all (\<lambda>g. gap_type g = ''EVIDENCE_EXPIRING'') (tc_gaps c))"
proof (intro conjI)
  note gaps = evaluateTraceChain_gaps [OF assms]
  show "distinct (map gap_type (tc_gaps c))" by (rule gaps)
  show "list_all (\<lambda>g. gap_type g \<in> set TraceGapType \<and>
       gap_ownerRole g = map_of ownerByGap (gap_type g) \<and> gap_ownerRole g \<noteq> None \<and>
       (gap_severity g = ''WARNING'' \<longleftrightarrow> gap_type g = ''EVIDENCE_EXPIRING'')) (tc_gaps c)"
    using gaps(1) by (rule list.pred_mono_strong) (unfold regular_gap_def, elim conjE, intro conjI; (assumption | simp))
  have "gap_severity g = ''BLOCKING'' \<longleftrightarrow> gap_type g \<noteq> ''EVIDENCE_EXPIRING''" if "g \<in> set (tc_gaps c)" for g
    using gaps(1) that by (simp add: list_all_iff regular_gap_def)
  then show "tc_complete c \<longleftrightarrow> list_all (\<lambda>g. gap_type g = ''EVIDENCE_EXPIRING'') (tc_gaps c)"
    by (simp add: gaps(3) blocking_def list_ex_iff list_all_iff)
qed

theorem chain_gaps_owned_and_unique_witness:
  "\<exists>c. evaluateTraceChain (sample_chain (JStr ''CONFORMS'')) (Some 0) = Inr c \<and>
     distinct (map gap_type (tc_gaps c))"
  using sample_evaluates [OF sample_conformance(1)] chain_gaps_owned_and_unique by blast


end
