(* ===== verification/Snapshot_Manifest.thy ===== *)
theory Snapshot_Manifest
  imports Model
begin

section \<open>Snapshot manifests\<close>

text \<open>
  \<open>src/domain/snapshot-manifest.js\<close>: the manifest that names the four components a conclusion is
  bound to. Its identifier is the hash of what it names, so a manifest is never updated: another
  component is another manifest.
\<close>

definition requiredComponents :: "string list" where
  "requiredComponents = [''source'', ''build'', ''deployment'', ''runtime'']"

definition validateComponent :: "jsv \<Rightarrow> string \<Rightarrow> jsv res" where
  "validateComponent component fieldName =
     throw_if (\<not> is_plain_object component) (TypeErr (fieldName @ '' must be an object'')) (
     bnd (requireNonEmptyString (oget component ''id'') (fieldName @ ''.id'')) (\<lambda>_.
     bnd (requireNonEmptyString (oget component ''digest'') (fieldName @ ''.digest'')) (\<lambda>digest.
     throw_if (\<not> is_sha256_digest (str_of digest))
       (TypeErr (fieldName @ ''.digest must be a SHA-256 digest''))
     (Inr component))))"

definition manifest_component :: "jsv \<Rightarrow> string \<Rightarrow> jsv" where
  "manifest_component input name = coalesce (oget input name) (oget (oget input ''components'') name)"

text \<open>The loop over the required names: the components found, and the names missing.\<close>

fun collect_components :: "jsv \<Rightarrow> string list \<Rightarrow> ((string \<times> jsv) list \<times> string list) res" where
  "collect_components input [] = Inr ([], [])"
| "collect_components input (name # names) =
     (if nullish (manifest_component input name)
      then bnd (collect_components input names) (\<lambda>(cs, ms). Inr (cs, name # ms))
      else bnd (validateComponent (manifest_component input name) name) (\<lambda>c.
           bnd (collect_components input names) (\<lambda>(cs, ms). Inr ((name, c) # cs, ms))))"

definition failed_sources :: "jsv \<Rightarrow> jsv list" where
  "failed_sources input =
     (if is_array (oget input ''failedSources'')
      then js_sort (js_value_set (elems (oget input ''failedSources''))) else [])"

definition createSnapshotManifest :: "jsv \<Rightarrow> int option \<Rightarrow> jsv res" where
  "createSnapshotManifest input now =
     throw_if (\<not> is_plain_object input) (TypeErr ''snapshot manifest input must be an object'') (
     bnd (collect_components input requiredComponents) (\<lambda>(components, missingComponents).
     bnd (requireNonEmptyString (oget input ''observedFrom'') ''observedFrom'') (\<lambda>observedFrom.
     bnd (requireNonEmptyString (oget input ''observedTo'') ''observedTo'') (\<lambda>observedTo.
     bnd (requireIsoTimestamp observedFrom ''observedFrom'') (\<lambda>fromTimestamp.
     bnd (requireIsoTimestamp observedTo ''observedTo'') (\<lambda>toTimestamp.
     throw_if (fromTimestamp > toTimestamp)
       (RangeErr ''observedFrom must be earlier than or equal to observedTo'') (
     let failedSources = failed_sources input;
         identity = [(''components'', JObj components), (''failedSources'', JArr failedSources),
                     (''observedFrom'', observedFrom), (''observedTo'', observedTo)]
     in mk_obj ((''id'', Inr (JStr (contentId ''SNAPSHOT-MANIFEST'' (JObj identity))))
          # map (\<lambda>(k, v). (k, Inr v)) identity
          @ [(''complete'', Inr (JBool (missingComponents = [] \<and> failedSources = []))),
             (''missingComponents'', Inr (JArr (map JStr missingComponents))),
             (''createdAt'', now_iso now)]))))))))"


lemma validateComponent_Inr [res_simps]:
  "validateComponent c f = Inr d \<longleftrightarrow> d = c \<and> is_plain_object c \<and>
     (\<exists>i. oget c ''id'' = JStr i \<and> js_trim i \<noteq> []) \<and>
     (\<exists>h. oget c ''digest'' = JStr h \<and> js_trim h \<noteq> [] \<and> is_sha256_digest h)"
  by (auto simp: validateComponent_def res_simps)

text \<open>The loop partitions the required names into components kept and names missing.\<close>

lemma collect_components_Inr:
  "collect_components input ns = Inr (cs, ms) \<Longrightarrow>
     ms = filter (\<lambda>n. nullish (manifest_component input n)) ns \<and>
     cs = map (\<lambda>n. (n, manifest_component input n)) (filter (\<lambda>n. \<not> nullish (manifest_component input n)) ns) \<and>
     list_all (\<lambda>n. nullish (manifest_component input n) \<or>
        is_ok (validateComponent (manifest_component input n) n)) ns"
proof (induction ns arbitrary: cs ms)
  case (Cons n ns)
  show ?case
  proof (cases "nullish (manifest_component input n)")
    case True
    with Cons show ?thesis by (auto simp: res_simps)
  next
    case False
    with Cons.prems obtain c cs' where c: "validateComponent (manifest_component input n) n = Inr c"
      and *: "cs = (n, c) # cs'" "collect_components input ns = Inr (cs', ms)"
      by (auto simp: bnd_eq_Inr)
    from c have "c = manifest_component input n" by (simp add: validateComponent_Inr)
    with Cons.IH [OF *(2)] *(1) c False show ?thesis by simp
  qed
qed simp

text \<open>What a manifest that was created records of its input.\<close>

lemma createSnapshotManifest_Inr:
  assumes "createSnapshotManifest input now = Inr m"
  obtains cs ms where "collect_components input requiredComponents = Inr (cs, ms)"
    "oget m ''components'' = JObj cs" "oget m ''failedSources'' = JArr (failed_sources input)"
    "oget m ''observedFrom'' = oget input ''observedFrom''" "oget m ''observedTo'' = oget input ''observedTo''"
    "oget m ''id'' = JStr (contentId ''SNAPSHOT-MANIFEST'' (JObj
       [(''components'', JObj cs), (''failedSources'', JArr (failed_sources input)),
        (''observedFrom'', oget input ''observedFrom''), (''observedTo'', oget input ''observedTo'')]))"
    "oget m ''complete'' = JBool (ms = [] \<and> failed_sources input = [])"
    "oget m ''missingComponents'' = JArr (map JStr ms)"
    "\<exists>f t. date_parse (str_of (oget input ''observedFrom'')) = Some f \<and>
           date_parse (str_of (oget input ''observedTo'')) = Some t \<and> f \<le> t"
  using assms
  by (auto simp: createSnapshotManifest_def res_simps Let_def)

text \<open>
  a manifest is complete exactly when it binds all four components. A created manifest has
  \<open>complete\<close> true if and only if every required component was supplied (each then has passed the
  digest check) and no source failed; the names it lists as missing are exactly those that were not
  supplied, and its observation window is not inverted.
\<close>

theorem manifest_complete_iff_bound:
  assumes "createSnapshotManifest input now = Inr m"
  shows "(oget m ''complete'' = JBool True \<longleftrightarrow>
      list_all (\<lambda>n. is_ok (validateComponent (manifest_component input n) n)) requiredComponents \<and>
      failed_sources input = []) \<and>
    oget m ''missingComponents'' =
      JArr (map JStr (filter (\<lambda>n. nullish (manifest_component input n)) requiredComponents)) \<and>
    time_le (js_date_parse (oget m ''observedFrom'')) (js_date_parse (oget m ''observedTo''))"
proof -
  obtain cs ms where run: "collect_components input requiredComponents = Inr (cs, ms)"
    and m: "oget m ''complete'' = JBool (ms = [] \<and> failed_sources input = [])"
      "oget m ''missingComponents'' = JArr (map JStr ms)"
    using createSnapshotManifest_Inr [OF assms] by metis
  have window: "time_le (js_date_parse (oget m ''observedFrom'')) (js_date_parse (oget m ''observedTo''))"
    using assms by (auto simp: createSnapshotManifest_def res_simps Let_def)
  have null: "\<not> is_ok (validateComponent v n)" if "nullish v" for v n
    using that by (cases v) (simp_all add: validateComponent_def)
  from collect_components_Inr [OF run] have ms: "ms = filter (\<lambda>n. nullish (manifest_component input n)) requiredComponents"
    and ok: "list_all (\<lambda>n. nullish (manifest_component input n) \<or>
        is_ok (validateComponent (manifest_component input n) n)) requiredComponents" by auto
  have "ms = [] \<longleftrightarrow> list_all (\<lambda>n. is_ok (validateComponent (manifest_component input n) n)) requiredComponents"
    using ok null by (auto simp: ms filter_empty_conv list_all_iff)
  with m ms window show ?thesis by simp
qed

definition sample_component :: "string \<Rightarrow> jsv" where
  "sample_component name = JObj [(''id'', JStr name), (''digest'', JStr (''sha256:'' @ replicate 64 (CHR ''a'')))]"

definition sample_manifest_input :: jsv where
  "sample_manifest_input = JObj
     [(''source'', sample_component ''s''), (''build'', sample_component ''b''),
      (''components'', JObj [(''runtime'', sample_component ''r''), (''deployment'', sample_component ''d'')]),
      (''observedFrom'', JStr ''2024-02-29T00:00:00Z''), (''observedTo'', JStr ''2024-03-01T00:00:00.000Z'')]"

lemma sample_manifest_parts:
  "collect_components sample_manifest_input requiredComponents =
     Inr (map (\<lambda>n. (n, manifest_component sample_manifest_input n)) requiredComponents, [])"
  "requireIsoTimestamp (oget sample_manifest_input ''observedFrom'') f = Inr 1709164800000"
  "requireIsoTimestamp (oget sample_manifest_input ''observedTo'') f = Inr 1709251200000"
  "failed_sources sample_manifest_input = []" "now_iso (Some 0) = Inr (JStr ''1970-01-01T00:00:00.000Z'')"
  "requireNonEmptyString (oget sample_manifest_input ''observedFrom'') f =
     Inr (oget sample_manifest_input ''observedFrom'')"
  "requireNonEmptyString (oget sample_manifest_input ''observedTo'') f =
     Inr (oget sample_manifest_input ''observedTo'')"
  "is_plain_object sample_manifest_input"
  by code_simp+

lemma sample_manifest_created: "\<exists>m. createSnapshotManifest sample_manifest_input (Some 0) = Inr m"
  by (simp add: createSnapshotManifest_def sample_manifest_parts mk_obj_def Let_def del: oget_simps)

theorem manifest_complete_iff_bound_witness:
  "\<exists>m. createSnapshotManifest sample_manifest_input (Some 0) = Inr m \<and> oget m ''complete'' = JBool True"
proof -
  obtain m where m: "createSnapshotManifest sample_manifest_input (Some 0) = Inr m"
    using sample_manifest_created by blast
  have "list_all (\<lambda>n. is_ok (validateComponent (manifest_component sample_manifest_input n) n)) requiredComponents \<and>
      failed_sources sample_manifest_input = []"
    by code_simp
  with manifest_complete_iff_bound [OF m] m show ?thesis by blast
qed

definition manifest_identity :: "jsv \<Rightarrow> jsv" where
  "manifest_identity m = JObj (map (\<lambda>k. (k, oget m k)) [''components'', ''failedSources'', ''observedFrom'', ''observedTo''])"

text \<open>
  a manifest is named by its content. Two created manifests with the same identifier bind
  structurally the same components, failed sources and observation window, unless two different
  canonical texts have digests that agree on the 24 digits of the identifier.
\<close>

theorem manifest_id_names_content:
  assumes "createSnapshotManifest input now = Inr m" and "createSnapshotManifest input' now' = Inr m'"
    and "json_value (manifest_identity m)" and "json_value (manifest_identity m')"
    and "oget m ''id'' = oget m' ''id''"
  shows "same_json (manifest_identity m) (manifest_identity m') \<or>
    digest_collision 24 (canonical_text (manifest_identity m)) (canonical_text (manifest_identity m'))"
proof -
  have named: "oget x ''id'' = JStr (contentId ''SNAPSHOT-MANIFEST'' (manifest_identity x))"
    if "createSnapshotManifest i n = Inr x" for i n x
    using createSnapshotManifest_Inr [OF that] by (simp add: manifest_identity_def) metis
  show ?thesis
    using contentId_eq [OF assms(3,4), of "''SNAPSHOT-MANIFEST''"] named [OF assms(1)] named [OF assms(2)] assms(5)
    by simp
qed

theorem manifest_id_names_content_witness:
  "\<exists>m. createSnapshotManifest sample_manifest_input (Some 0) = Inr m \<and>
     (same_json (manifest_identity m) (manifest_identity m) \<or>
      digest_collision 24 (canonical_text (manifest_identity m)) (canonical_text (manifest_identity m)))"
proof -
  obtain m where m: "createSnapshotManifest sample_manifest_input (Some 0) = Inr m"
    using sample_manifest_created by blast
  obtain cs ms where run: "collect_components sample_manifest_input requiredComponents = Inr (cs, ms)"
    and fields: "oget m ''components'' = JObj cs" "oget m ''failedSources'' = JArr (failed_sources sample_manifest_input)"
      "oget m ''observedFrom'' = oget sample_manifest_input ''observedFrom''"
      "oget m ''observedTo'' = oget sample_manifest_input ''observedTo''"
    using createSnapshotManifest_Inr [OF m] by metis
  from run sample_manifest_parts(1)
  have cs: "cs = map (\<lambda>n. (n, manifest_component sample_manifest_input n)) requiredComponents" by simp
  have "manifest_identity m = JObj
     [(''components'', JObj (map (\<lambda>n. (n, manifest_component sample_manifest_input n)) requiredComponents)),
      (''failedSources'', JArr []), (''observedFrom'', oget sample_manifest_input ''observedFrom''),
      (''observedTo'', oget sample_manifest_input ''observedTo'')]"
    by (simp only: manifest_identity_def list.map fields cs sample_manifest_parts(4))
  moreover have "json_value \<dots>" by code_simp
  ultimately have "json_value (manifest_identity m)" by simp
  with manifest_id_names_content [OF m m] m show ?thesis by blast
qed

end
