(* ===== verification/Invalidation.thy ===== *)
theory Invalidation
  imports Model
begin

section \<open>Invalidation rules\<close>

text \<open>
  \<open>src/domain/invalidation.js\<close>: which conclusions a change invalidates and which it must preserve.
\<close>

definition rules :: "(string \<times> string list) list" where
  "rules =
    [(''SOURCE_CODE'', [''IMPLEMENTATION_MAPPING'', ''CONFORMANCE'', ''VERIFICATION'', ''TRACE_CHAIN'']),
     (''API_CONTRACT'', [''IMPLEMENTATION_MAPPING'', ''CONFORMANCE'', ''TEST_COVERAGE'', ''VERIFICATION'', ''TRACE_CHAIN'']),
     (''SQL'', [''IMPLEMENTATION_MAPPING'', ''CONFORMANCE'', ''VERIFICATION'', ''TRACE_CHAIN'']),
     (''DATABASE_SCHEMA'', [''IMPLEMENTATION_MAPPING'', ''CONFORMANCE'', ''TEST_COVERAGE'', ''VERIFICATION'', ''TRACE_CHAIN'']),
     (''CONFIGURATION'', [''CONFORMANCE'', ''VERIFICATION'', ''TRACE_CHAIN'']),
     (''FEATURE_FLAG'', [''CLAIM_SCOPE_MATCH'', ''CONFORMANCE'', ''VERIFICATION'', ''TRACE_CHAIN'']),
     (''DEPENDENCY'', [''IMPLEMENTATION_MAPPING'', ''CONFORMANCE'', ''VERIFICATION'', ''TRACE_CHAIN'']),
     (''TEST_SPEC'', [''TEST_APPROVAL'', ''TEST_COVERAGE'', ''VERIFICATION'', ''TRACE_CHAIN'']),
     (''DEPLOYMENT'', [''VERIFICATION'', ''EVIDENCE_FRESHNESS'', ''TRACE_CHAIN'']),
     (''RUNTIME_CONTEXT'', [''CLAIM_SCOPE_MATCH'', ''CONFORMANCE'', ''VERIFICATION'', ''EVIDENCE_FRESHNESS'', ''TRACE_CHAIN'']),
     (''BUSINESS_AUTHORITY'', [''NORMATIVE_CLAIM'', ''DECISION'', ''CONFORMANCE'', ''TEST_COVERAGE'', ''TRACE_CHAIN'']),
     (''CLAIM_SCOPE'', [''NORMATIVE_CLAIM_VERSION'', ''DECISION'', ''CLAIM_SCOPE_MATCH'', ''CONFORMANCE'', ''TEST_COVERAGE'', ''TRACE_CHAIN'']),
     (''CONTRADICTORY_EVIDENCE'', [''CONFORMANCE'', ''VERIFICATION'', ''CONFLICT_STATUS'', ''TRACE_CHAIN''])]"

definition alwaysPreserved :: "string list" where
  "alwaysPreserved = [''HISTORICAL_FACT'', ''HISTORICAL_EVIDENCE'', ''AUDIT_EVENT'']"

record invalidation =
  inv_changeType :: jsv
  inv_scope :: jsv
  inv_invalidates :: "string list"
  inv_preserves :: "string list"

definition invalidationFor :: "jsv \<Rightarrow> invalidation res" where
  "invalidationFor change =
     throw_if (\<not> is_plain_object change) (TypeErr ''change must be an object'') (
     bnd (assertEnum ChangeType (oget change ''type'') ''change.type'') (\<lambda>type.
     case map_of rules (js_string type) of
       None \<Rightarrow> Inl (NativeErr ''undefined is not iterable'')
     | Some invalidates \<Rightarrow>
         Inr \<lparr>inv_changeType = type, inv_scope = coalesce (oget change ''scope'') JNull,
              inv_invalidates = invalidates,
              inv_preserves = alwaysPreserved @
                (if \<not> one_of [''BUSINESS_AUTHORITY'', ''CLAIM_SCOPE''] type
                 then [''NORMATIVE_CLAIM'', ''BUSINESS_DECISION''] else [])\<rparr>))"

text \<open>The rule table covers every change type, and every change breaks the chain it touches.\<close>

lemma rules_total: "map fst rules = ChangeType"
  by (simp add: rules_def ChangeType_def)

lemma rules_table:
  "list_all (\<lambda>(ty, xs). ''TRACE_CHAIN'' \<in> set xs \<and> set xs \<inter> set alwaysPreserved = {} \<and>
     ((''NORMATIVE_CLAIM'' \<in> set xs \<or> ''DECISION'' \<in> set xs) = (ty \<in> {''BUSINESS_AUTHORITY'', ''CLAIM_SCOPE''})) \<and>
     ''BUSINESS_DECISION'' \<notin> set xs) rules"
  by code_simp

lemma rules_lookup:
  assumes "ty \<in> set ChangeType"
  obtains xs where "map_of rules ty = Some xs" "''TRACE_CHAIN'' \<in> set xs"
    "set xs \<inter> set alwaysPreserved = {}" "''BUSINESS_DECISION'' \<notin> set xs"
    "(''NORMATIVE_CLAIM'' \<in> set xs \<or> ''DECISION'' \<in> set xs) = (ty \<in> {''BUSINESS_AUTHORITY'', ''CLAIM_SCOPE''})"
proof -
  have "map_of rules ty \<noteq> None"
    using assms by (metis map_of_eq_None_iff rules_total set_map)
  then obtain xs where xs: "map_of rules ty = Some xs" by auto
  then have "(ty, xs) \<in> set rules" by (rule map_of_SomeD)
  with rules_table xs that show thesis by (auto simp: list_all_iff)
qed

lemma invalidationFor_total:
  assumes "is_plain_object change" and "oget change ''type'' = JStr ty" and "ty \<in> set ChangeType"
  shows "\<exists>r. invalidationFor change = Inr r"
  using assms by (auto simp: invalidationFor_def assertEnum_def elim: rules_lookup)

text \<open>
  a change never erases history, and only a change of business intent touches business intent.
  For every accepted change whose type is a string the rule set invalidates the trace chain and
  preserves facts, evidence and audit events; what it invalidates and what it preserves are
  disjoint; and normative claims and decisions are preserved unless the change is one of business
  authority or claim scope.
\<close>

theorem invalidation_preserves_history_and_intent:
  assumes "invalidationFor change = Inr r" and "is_string (oget change ''type'')"
  shows "''TRACE_CHAIN'' \<in> set (inv_invalidates r) \<and>
    set alwaysPreserved \<subseteq> set (inv_preserves r) \<and>
    set (inv_invalidates r) \<inter> set (inv_preserves r) = {} \<and>
    (''NORMATIVE_CLAIM'' \<in> set (inv_preserves r) \<longleftrightarrow>
       inv_changeType r \<notin> {JStr ''BUSINESS_AUTHORITY'', JStr ''CLAIM_SCOPE''}) \<and>
    (''DECISION'' \<in> set (inv_invalidates r) \<longrightarrow> ''BUSINESS_DECISION'' \<notin> set (inv_preserves r))"
proof -
  from assms(2) obtain ty where ty: "oget change ''type'' = JStr ty" by (auto simp: is_string_iff)
  with assms(1) have "ty \<in> set ChangeType"
    by (auto simp: invalidationFor_def res_simps)
  then obtain xs where xs: "map_of rules ty = Some xs" "''TRACE_CHAIN'' \<in> set xs"
    "set xs \<inter> set alwaysPreserved = {}" "''BUSINESS_DECISION'' \<notin> set xs"
    "(''NORMATIVE_CLAIM'' \<in> set xs \<or> ''DECISION'' \<in> set xs) = (ty \<in> {''BUSINESS_AUTHORITY'', ''CLAIM_SCOPE''})"
    by (rule rules_lookup)
  from assms(1) ty xs(1) have r: "inv_changeType r = JStr ty" "inv_invalidates r = xs"
    "inv_preserves r = alwaysPreserved @ (if \<not> one_of [''BUSINESS_AUTHORITY'', ''CLAIM_SCOPE''] (JStr ty)
                 then [''NORMATIVE_CLAIM'', ''BUSINESS_DECISION''] else [])"
    by (auto simp: invalidationFor_def res_simps)
  show ?thesis using xs by (auto simp: r alwaysPreserved_def)
qed

theorem invalidation_preserves_history_and_intent_witness:
  "\<exists>r. invalidationFor (JObj [(''type'', JStr ''BUSINESS_AUTHORITY'')]) = Inr r \<and>
     ''TRACE_CHAIN'' \<in> set (inv_invalidates r)"
proof -
  let ?c = "JObj [(''type'', JStr ''BUSINESS_AUTHORITY'')]"
  obtain r where r: "invalidationFor ?c = Inr r"
    using invalidationFor_total [of ?c "''BUSINESS_AUTHORITY''"] by (auto simp: ChangeType_def)
  then show ?thesis using invalidation_preserves_history_and_intent [of ?c r] by simp
qed

text \<open>
  the type must be a string for that. A change of type \<open>["BUSINESS_AUTHORITY"]\<close> is accepted
  too; the rule table is consulted with its string conversion and the test for business changes
  with the array, so the result lists the normative claim both as invalidated and as preserved.
\<close>

theorem invalidation_contradicts_itself_on_array_type:
  "\<exists>r. invalidationFor (JObj [(''type'', JArr [JStr ''BUSINESS_AUTHORITY''])]) = Inr r \<and>
     ''NORMATIVE_CLAIM'' \<in> set (inv_invalidates r) \<and> ''NORMATIVE_CLAIM'' \<in> set (inv_preserves r)"
  by (simp add: invalidationFor_def assertEnum_def ChangeType_def rules_def)

end
