(* ===== verification/Governance.thy ===== *)
theory Governance
  imports Model
begin

section \<open>Governance records\<close>

text \<open>
  \<open>src/domain/governance.js\<close>: the constructors of feature versions, claim scopes, claims and
  decisions, and the authority a decision gives a claim at a moment.
\<close>

text \<open>
  The names of an object literal's own members; \<open>mapping[decision.type]\<close> is read for decisions that
  \<open>createDecision\<close> has validated, so the members of \<open>Object.prototype\<close> are out of reach.
\<close>

definition authority_mapping :: "(string \<times> string) list" where
  "authority_mapping =
    [(''CONFIRMED'', ''CONFIRMED''), (''EXCEPTION_RECORDED'', ''EXCEPTION_RECORDED''),
     (''REJECTED'', ''REJECTED''), (''DEPRECATED'', ''DEPRECATED''),
     (''INSUFFICIENT_EVIDENCE'', ''UNREVIEWED''), (''DEFERRED'', ''UNREVIEWED'')]"

definition authorityFromDecision :: "jsv \<Rightarrow> int option \<Rightarrow> string" where
  "authorityFromDecision decision now =
     (if truthy (oget decision ''validUntil'') \<and> time_le (js_date_parse (oget decision ''validUntil'')) now
      then ''DEPRECATED''
      else if truthy decision
      then (case map_of authority_mapping (js_string (oget decision ''type'')) of
              None \<Rightarrow> ''UNREVIEWED'' | Some a \<Rightarrow> a)
      else ''UNREVIEWED'')"

definition normalizeConstraint :: "jsv \<Rightarrow> string \<Rightarrow> jsv res" where
  "normalizeConstraint v fieldName =
     (if nullish v then Inr JNull
      else bnd (requireObject v fieldName) (\<lambda>constraint.
        throw_if (list_ex (\<lambda>p. fst p \<notin> set [''dimension'', ''operator'', ''value'']) (props constraint))
          (TypeErr (fieldName @ '' contains an unsupported field'')) (
        throw_if (\<not> has_own constraint ''value'') (TypeErr (fieldName @ ''.value is required'')) (
        mk_obj
          [(''dimension'', requireNonEmptyString (oget constraint ''dimension'') (fieldName @ ''.dimension'')),
           (''operator'', assertEnum ConstraintOperator (oget constraint ''operator'') (fieldName @ ''.operator'')),
           (''value'', Inr (oget constraint ''value''))]))))"

definition createFeatureVersion :: "jsv \<Rightarrow> int option \<Rightarrow> jsv res" where
  "createFeatureVersion input now = mk_obj
     [(''id'', requireNonEmptyString (oget input ''id'') ''feature.id''),
      (''version'', requirePositiveInteger (oget input ''version'') ''feature.version''),
      (''name'', requireNonEmptyString (oget input ''name'') ''feature.name''),
      (''businessDomain'', optionalString (oget input ''businessDomain'') ''feature.businessDomain''),
      (''description'', optionalString (oget input ''description'') ''feature.description''),
      (''createdAt'', created_at input now)]"

text \<open>\<open>if (value) requireIsoTimestamp(value, fieldName)\<close>\<close>

definition check_timestamp :: "jsv \<Rightarrow> string \<Rightarrow> unit res" where
  "check_timestamp v fieldName =
     (if truthy v then bnd (requireIsoTimestamp v fieldName) (\<lambda>_. Inr ()) else Inr ())"

definition createClaimScope :: "jsv \<Rightarrow> int option \<Rightarrow> jsv res" where
  "createClaimScope input now =
     bnd (optionalString (oget input ''effectiveFrom'') ''scope.effectiveFrom'') (\<lambda>effectiveFrom.
     bnd (optionalString (oget input ''effectiveTo'') ''scope.effectiveTo'') (\<lambda>effectiveTo.
     bnd (check_timestamp effectiveFrom ''scope.effectiveFrom'') (\<lambda>_.
     bnd (check_timestamp effectiveTo ''scope.effectiveTo'') (\<lambda>_.
     throw_if (truthy effectiveFrom \<and> truthy effectiveTo
               \<and> time_less (js_date_parse effectiveTo) (js_date_parse effectiveFrom))
       (RangeErr ''scope.effectiveFrom must be earlier than or equal to scope.effectiveTo'') (
     mk_obj
       [(''id'', requireNonEmptyString (oget input ''id'') ''scope.id''),
        (''version'', requirePositiveInteger (oget input ''version'') ''scope.version''),
        (''scope'', requireObject (oget input ''scope'') ''scope.scope''),
        (''effectiveFrom'', Inr effectiveFrom),
        (''effectiveTo'', Inr effectiveTo),
        (''createdAt'', created_at input now)])))))"

definition createClaim :: "jsv \<Rightarrow> int option \<Rightarrow> jsv res" where
  "createClaim input now = mk_obj
     [(''id'', requireNonEmptyString (oget input ''id'') ''claim.id''),
      (''version'', requirePositiveInteger (oget input ''version'') ''claim.version''),
      (''featureId'', requireNonEmptyString (oget input ''featureId'') ''claim.featureId''),
      (''type'', assertEnum ClaimType (oget input ''type'') ''claim.type''),
      (''statement'', requireNonEmptyString (oget input ''statement'') ''claim.statement''),
      (''sourceType'', assertEnum ClaimSourceType (oget input ''sourceType'') ''claim.sourceType''),
      (''evidenceSupport'', assertEnum EvidenceSupport (oget input ''evidenceSupport'') ''claim.evidenceSupport''),
      (''constraint'', normalizeConstraint (oget input ''constraint'') ''claim.constraint''),
      (''scopeId'', requireNonEmptyString (oget input ''scopeId'') ''claim.scopeId''),
      (''scopeVersion'', requirePositiveInteger (oget input ''scopeVersion'') ''claim.scopeVersion''),
      (''provenance'', requireObject (coalesce (oget input ''provenance'') (JObj [])) ''claim.provenance''),
      (''createdAt'', created_at input now)]"

text \<open>\<open>items.map((item, index) => requireNonEmptyString(item, `${fieldName}[${index}]`))\<close>\<close>

definition string_items :: "string \<Rightarrow> jsv list \<Rightarrow> jsv list res" where
  "string_items fieldName items = mapiR (\<lambda>index item. requireNonEmptyString item (at_index fieldName index)) 0 items"

definition decision_evidence_refs :: "jsv \<Rightarrow> jsv list res" where
  "decision_evidence_refs input =
     throw_if (oget input ''evidenceRefs'' \<noteq> JUndef \<and> \<not> is_array (oget input ''evidenceRefs''))
       (TypeErr ''decision.evidenceRefs must be an array'') (
     bnd (string_items ''decision.evidenceRefs'' (elems (oget input ''evidenceRefs''))) (\<lambda>refs.
     Inr (js_set refs)))"

definition createDecision :: "jsv \<Rightarrow> int option \<Rightarrow> jsv res" where
  "createDecision input now =
     bnd (optionalString (oget input ''validUntil'') ''decision.validUntil'') (\<lambda>validUntil.
     bnd (check_timestamp validUntil ''decision.validUntil'') (\<lambda>_.
     bnd (decision_evidence_refs input) (\<lambda>evidenceRefs.
     bnd (assertEnum DecisionType (oget input ''type'') ''decision.type'') (\<lambda>type.
     bnd (optionalString (oget input ''content'') ''decision.content'') (\<lambda>content.
     throw_if (type = JStr ''EXCEPTION_RECORDED'' \<and> \<not> truthy content)
       (TypeErr ''decision.content is required for EXCEPTION_RECORDED'') (
     mk_obj
       [(''id'', requireNonEmptyString (oget input ''id'') ''decision.id''),
        (''claimId'', requireNonEmptyString (oget input ''claimId'') ''decision.claimId''),
        (''claimVersion'', requirePositiveInteger (oget input ''claimVersion'') ''decision.claimVersion''),
        (''scopeId'', requireNonEmptyString (oget input ''scopeId'') ''decision.scopeId''),
        (''scopeVersion'', requirePositiveInteger (oget input ''scopeVersion'') ''decision.scopeVersion''),
        (''type'', Inr type),
        (''content'', Inr content),
        (''actorId'', requireNonEmptyString (oget input ''actorId'') ''decision.actorId''),
        (''actorRole'', requireNonEmptyString (oget input ''actorRole'') ''decision.actorRole''),
        (''evidenceRefs'', Inr (JArr evidenceRefs)),
        (''validUntil'', Inr validUntil),
        (''createdAt'', created_at input now)]))))))"

subsection \<open>What the constructors guarantee\<close>

lemma check_timestamp_Inr [res_simps]:
  "check_timestamp v f = Inr u \<longleftrightarrow> (truthy v \<longrightarrow> (\<exists>t. requireIsoTimestamp v f = Inr t))"
  by (auto simp: check_timestamp_def res_simps)

lemma string_items_Inr:
  assumes "string_items f xs = Inr ys"
  shows "ys = xs \<and> list_all (\<lambda>x. is_string x \<and> js_trim (str_of x) \<noteq> []) xs"
proof -
  have "mapiR (\<lambda>index item. requireNonEmptyString item (at_index f index)) i xs = Inr ys \<Longrightarrow>
        ys = xs \<and> list_all (\<lambda>x. is_string x \<and> js_trim (str_of x) \<noteq> []) xs" for i
    by (induction xs arbitrary: i ys) (auto simp: res_simps)
  with assms show ?thesis by (simp add: string_items_def)
qed

definition valid_decision :: "jsv \<Rightarrow> bool" where
  "valid_decision d \<longleftrightarrow>
     (\<forall>k\<in>set [''id'', ''claimId'', ''scopeId'', ''actorId'', ''actorRole''].
        is_string (oget d k) \<and> js_trim (str_of (oget d k)) \<noteq> []) \<and>
     (oget d ''validUntil'' = JNull \<or>
        is_string (oget d ''validUntil'') \<and> js_date_parse (oget d ''validUntil'') \<noteq> None) \<and>
     js_string (oget d ''type'') \<in> set DecisionType \<and>
     (oget d ''type'' = JStr ''EXCEPTION_RECORDED'' \<longrightarrow>
        is_string (oget d ''content'') \<and> js_trim (str_of (oget d ''content'')) \<noteq> []) \<and>
     is_array (oget d ''evidenceRefs'') \<and> distinct (elems (oget d ''evidenceRefs'')) \<and>
     list_all (\<lambda>x. is_string x \<and> js_trim (str_of x) \<noteq> []) (elems (oget d ''evidenceRefs''))"

lemma decision_evidence_refs_Inr:
  assumes "decision_evidence_refs input = Inr refs"
  shows "distinct refs \<and> list_all (\<lambda>x. is_string x \<and> js_trim (str_of x) \<noteq> []) refs"
  using assms by (auto simp: decision_evidence_refs_def res_simps list_all_iff dest!: string_items_Inr)

lemma js_trim_Nil [simp]: "js_trim [] = []"
  by (simp add: js_trim_eq_Nil)

lemma truthy_nonempty: "js_trim s \<noteq> [] \<Longrightarrow> truthy (JStr s)"
  by (cases s) (auto simp: js_trim_eq_Nil)

lemma date_parse_Nil: "date_parse [] = None"
  by code_simp

lemma createDecision_run:
  assumes "createDecision input now = Inr d"
  obtains vu refs ty co i ci cv si sv ai ar c where
    "optionalString (oget input ''validUntil'') ''decision.validUntil'' = Inr vu"
    "optionalString (oget input ''content'') ''decision.content'' = Inr co"
    "requireNonEmptyString (oget input ''id'') ''decision.id'' = Inr i"
    "requireNonEmptyString (oget input ''claimId'') ''decision.claimId'' = Inr ci"
    "requireNonEmptyString (oget input ''scopeId'') ''decision.scopeId'' = Inr si"
    "requireNonEmptyString (oget input ''actorId'') ''decision.actorId'' = Inr ai"
    "requireNonEmptyString (oget input ''actorRole'') ''decision.actorRole'' = Inr ar"
    "requirePositiveInteger (oget input ''claimVersion'') ''decision.claimVersion'' = Inr cv"
    "requirePositiveInteger (oget input ''scopeVersion'') ''decision.scopeVersion'' = Inr sv"
    "assertEnum DecisionType (oget input ''type'') ''decision.type'' = Inr ty"
    "check_timestamp vu ''decision.validUntil'' = Inr ()"
    "\<not> (ty = JStr ''EXCEPTION_RECORDED'' \<and> \<not> truthy co)"
    "decision_evidence_refs input = Inr refs"
    "created_at input now = Inr c"
    "d = JObj [(''id'', i), (''claimId'', ci), (''claimVersion'', cv), (''scopeId'', si),
       (''scopeVersion'', sv), (''type'', ty), (''content'', co), (''actorId'', ai), (''actorRole'', ar),
       (''evidenceRefs'', JArr refs), (''validUntil'', vu), (''createdAt'', c)]"
  using assms by (auto simp: createDecision_def build_simps)

lemma nonempty_string_out: "requireNonEmptyString v f = Inr w \<Longrightarrow> is_string w \<and> js_trim (str_of w) \<noteq> []"
  by (auto simp: requireNonEmptyString_Inr)

lemma optional_string_out: "optionalString v f = Inr w \<Longrightarrow> w = JNull \<or> is_string w \<and> js_trim (str_of w) \<noteq> [] \<and> truthy w"
  by (auto simp: optionalString_Inr)

lemma optional_time_out:
  "optionalString v f = Inr w \<Longrightarrow> check_timestamp w g = Inr () \<Longrightarrow>
   w = JNull \<or> is_string w \<and> js_date_parse w \<noteq> None \<and> truthy w"
  by (auto simp: optionalString_Inr check_timestamp_Inr requireIsoTimestamp_Inr truthy_nonempty)

lemma createDecision_valid:
  assumes "createDecision input now = Inr d"
  shows "valid_decision d"
  using assms
proof (rule createDecision_run)
  fix vu refs ty co i ci cv si sv ai ar c
  assume *: "optionalString (oget input ''validUntil'') ''decision.validUntil'' = Inr vu"
    "optionalString (oget input ''content'') ''decision.content'' = Inr co"
    and ids: "requireNonEmptyString (oget input ''id'') ''decision.id'' = Inr i"
    "requireNonEmptyString (oget input ''claimId'') ''decision.claimId'' = Inr ci"
    "requireNonEmptyString (oget input ''scopeId'') ''decision.scopeId'' = Inr si"
    "requireNonEmptyString (oget input ''actorId'') ''decision.actorId'' = Inr ai"
    "requireNonEmptyString (oget input ''actorRole'') ''decision.actorRole'' = Inr ar"
    and ty: "assertEnum DecisionType (oget input ''type'') ''decision.type'' = Inr ty"
    and t: "check_timestamp vu ''decision.validUntil'' = Inr ()"
    and e: "\<not> (ty = JStr ''EXCEPTION_RECORDED'' \<and> \<not> truthy co)"
    and refs: "decision_evidence_refs input = Inr refs"
    and d: "d = JObj [(''id'', i), (''claimId'', ci), (''claimVersion'', cv), (''scopeId'', si),
       (''scopeVersion'', sv), (''type'', ty), (''content'', co), (''actorId'', ai), (''actorRole'', ar),
       (''evidenceRefs'', JArr refs), (''validUntil'', vu), (''createdAt'', c)]"
  have ty: "js_string ty \<in> set DecisionType" using ty by (simp add: assertEnum_Inr)
  have co: "ty = JStr ''EXCEPTION_RECORDED'' \<longrightarrow> is_string co \<and> js_trim (str_of co) \<noteq> []"
    using optional_string_out [OF *(2)] e by auto
  show ?thesis
    using ids [THEN nonempty_string_out] optional_time_out [OF *(1) t] ty co
      decision_evidence_refs_Inr [OF refs]
    by (simp add: valid_decision_def d) blast
qed

text \<open>Constructing a record again from a constructed record changes nothing.\<close>

lemma string_items_id:
  "list_all (\<lambda>x. is_string x \<and> js_trim (str_of x) \<noteq> []) xs \<Longrightarrow> string_items f xs = Inr xs"
proof -
  have "list_all (\<lambda>x. is_string x \<and> js_trim (str_of x) \<noteq> []) xs \<Longrightarrow>
        mapiR (\<lambda>index item. requireNonEmptyString item (at_index f index)) i xs = Inr xs" for i
    by (induction xs arbitrary: i) (auto simp: is_string_iff)
  then show "list_all (\<lambda>x. is_string x \<and> js_trim (str_of x) \<noteq> []) xs \<Longrightarrow> string_items f xs = Inr xs"
    by (simp add: string_items_def)
qed

lemma normalizeConstraint_idem:
  "normalizeConstraint v f = Inr w \<Longrightarrow> normalizeConstraint w g = Inr w"
  by (cases "nullish v") (auto simp: normalizeConstraint_def res_simps)

lemma createFeatureVersion_idem:
  assumes "createFeatureVersion input now = Inr d"
  shows "createFeatureVersion d now' = Inr d"
  using assms
  by (auto simp: createFeatureVersion_def res_simps dest: created_at_not_nullish)

lemma createClaim_idem:
  assumes "createClaim input now = Inr d"
  shows "createClaim d now' = Inr d"
proof -
  from assms obtain i v f ty st so es cn si sv pr c where
    *: "requireNonEmptyString (oget input ''id'') ''claim.id'' = Inr i"
      "requireNonEmptyString (oget input ''featureId'') ''claim.featureId'' = Inr f"
      "requireNonEmptyString (oget input ''statement'') ''claim.statement'' = Inr st"
      "requireNonEmptyString (oget input ''scopeId'') ''claim.scopeId'' = Inr si"
      "requirePositiveInteger (oget input ''version'') ''claim.version'' = Inr v"
      "requirePositiveInteger (oget input ''scopeVersion'') ''claim.scopeVersion'' = Inr sv"
      "assertEnum ClaimType (oget input ''type'') ''claim.type'' = Inr ty"
      "assertEnum ClaimSourceType (oget input ''sourceType'') ''claim.sourceType'' = Inr so"
      "assertEnum EvidenceSupport (oget input ''evidenceSupport'') ''claim.evidenceSupport'' = Inr es"
      "requireObject (coalesce (oget input ''provenance'') (JObj [])) ''claim.provenance'' = Inr pr"
    and cn: "normalizeConstraint (oget input ''constraint'') ''claim.constraint'' = Inr cn"
    and c: "created_at input now = Inr c"
    and d: "d = JObj [(''id'', i), (''version'', v), (''featureId'', f), (''type'', ty), (''statement'', st),
       (''sourceType'', so), (''evidenceSupport'', es), (''constraint'', cn), (''scopeId'', si),
       (''scopeVersion'', sv), (''provenance'', pr), (''createdAt'', c)]"
    by (auto simp: createClaim_def build_simps)
  from *(10) have pr: "coalesce pr (JObj []) = pr" by (auto simp: requireObject_Inr)
  show ?thesis
    using created_at_not_nullish [OF c]
    by (simp add: createClaim_def d * (1-4) [THEN validators_idem(1)] * (5,6) [THEN validators_idem(2)]
        * (7-9) [THEN validators_idem(3)] pr * (10) [THEN validators_idem(5)]
        normalizeConstraint_idem [OF cn] mk_obj_def)
qed

lemma createClaimScope_idem:
  assumes "createClaimScope input now = Inr d"
  shows "createClaimScope d now' = Inr d"
proof -
  from assms obtain ef et i ver sc c where
    *: "optionalString (oget input ''effectiveFrom'') ''scope.effectiveFrom'' = Inr ef"
      "optionalString (oget input ''effectiveTo'') ''scope.effectiveTo'' = Inr et"
      "requireNonEmptyString (oget input ''id'') ''scope.id'' = Inr i"
      "requirePositiveInteger (oget input ''version'') ''scope.version'' = Inr ver"
      "requireObject (oget input ''scope'') ''scope.scope'' = Inr sc"
    and t: "check_timestamp ef ''scope.effectiveFrom'' = Inr ()" "check_timestamp et ''scope.effectiveTo'' = Inr ()"
    and w: "\<not> (truthy ef \<and> truthy et \<and> time_less (js_date_parse et) (js_date_parse ef))"
    and c: "created_at input now = Inr c"
    and d: "d = JObj [(''id'', i), (''version'', ver), (''scope'', sc), (''effectiveFrom'', ef),
                      (''effectiveTo'', et), (''createdAt'', c)]"
    by (auto simp: createClaimScope_def build_simps)
  show ?thesis
    using w created_at_not_nullish [OF c]
    by (simp add: createClaimScope_def d * (1,2) [THEN validators_idem(4)] * (3) [THEN validators_idem(1)]
        * (4) [THEN validators_idem(2)] * (5) [THEN validators_idem(5)] t mk_obj_def
        throw_if_eq_Inr)
qed


lemma createDecision_idem:
  assumes "createDecision input now = Inr d"
  shows "createDecision d now' = Inr d"
  using assms
proof (rule createDecision_run)
  fix vu refs ty co i ci cv si sv ai ar c
  assume *: "optionalString (oget input ''validUntil'') ''decision.validUntil'' = Inr vu"
      "optionalString (oget input ''content'') ''decision.content'' = Inr co"
      "requireNonEmptyString (oget input ''id'') ''decision.id'' = Inr i"
      "requireNonEmptyString (oget input ''claimId'') ''decision.claimId'' = Inr ci"
      "requireNonEmptyString (oget input ''scopeId'') ''decision.scopeId'' = Inr si"
      "requireNonEmptyString (oget input ''actorId'') ''decision.actorId'' = Inr ai"
      "requireNonEmptyString (oget input ''actorRole'') ''decision.actorRole'' = Inr ar"
      "requirePositiveInteger (oget input ''claimVersion'') ''decision.claimVersion'' = Inr cv"
      "requirePositiveInteger (oget input ''scopeVersion'') ''decision.scopeVersion'' = Inr sv"
      "assertEnum DecisionType (oget input ''type'') ''decision.type'' = Inr ty"
    and t: "check_timestamp vu ''decision.validUntil'' = Inr ()"
    and e: "\<not> (ty = JStr ''EXCEPTION_RECORDED'' \<and> \<not> truthy co)"
    and refs: "decision_evidence_refs input = Inr refs"
    and c: "created_at input now = Inr c"
    and d: "d = JObj [(''id'', i), (''claimId'', ci), (''claimVersion'', cv), (''scopeId'', si),
       (''scopeVersion'', sv), (''type'', ty), (''content'', co), (''actorId'', ai), (''actorRole'', ar),
       (''evidenceRefs'', JArr refs), (''validUntil'', vu), (''createdAt'', c)]"
  have again: "decision_evidence_refs d = Inr refs"
    using decision_evidence_refs_Inr [OF refs]
    by (simp add: decision_evidence_refs_def d string_items_id js_set_distinct)
  show ?thesis
    using e created_at_not_nullish [OF c]
    by (simp add: createDecision_def again) (simp add: d * (1,2) [THEN validators_idem(4)]
        * (3-7) [THEN validators_idem(1)] * (8,9) [THEN validators_idem(2)] * (10) [THEN validators_idem(3)]
        t mk_obj_def throw_if_eq_Inr)
qed

subsection \<open>Properties\<close>

text \<open>
  a governance record is a normal form. Feeding a constructed feature version, claim scope,
  claim or decision back to its constructor, at any later time, yields the same record: what is
  stored can be read back and validated without change.
\<close>

theorem governance_records_revalidate:
  "(createFeatureVersion input now = Inr d \<longrightarrow> createFeatureVersion d now' = Inr d) \<and>
   (createClaimScope input now = Inr d \<longrightarrow> createClaimScope d now' = Inr d) \<and>
   (createClaim input now = Inr d \<longrightarrow> createClaim d now' = Inr d) \<and>
   (createDecision input now = Inr d \<longrightarrow> createDecision d now' = Inr d)"
  by (simp add: createFeatureVersion_idem createClaimScope_idem createClaim_idem createDecision_idem)

definition sample_decision :: jsv where
  "sample_decision = JObj
    [(''id'', JStr ''D''), (''claimId'', JStr ''C''), (''claimVersion'', JNum 1), (''scopeId'', JStr ''S''),
     (''scopeVersion'', JNum 2), (''type'', JStr ''CONFIRMED''), (''content'', JNull), (''actorId'', JStr ''a''),
     (''actorRole'', JStr ''r''), (''evidenceRefs'', JArr [JStr ''e'']),
     (''validUntil'', JStr ''1970-01-01T00:00:01.000Z''), (''createdAt'', JStr ''1970-01-01T00:00:00.000Z'')]"

lemma sample_decision_created: "createDecision sample_decision (Some 0) = Inr sample_decision"
  by code_simp

theorem governance_records_revalidate_witness:
  "createDecision sample_decision (Some 5) = Inr sample_decision"
  using governance_records_revalidate sample_decision_created by blast

text \<open>
  the decision constructor lets through only usable decisions. A created decision has
  non-blank identifiers and actor, a validity that is absent or parses as a time, a content
  whenever it records an exception, and evidence references that are non-blank and pairwise
  different.
\<close>

theorem created_decision_is_valid:
  assumes "createDecision input now = Inr d"
  shows "valid_decision d"
  by (rule createDecision_valid [OF assms])

theorem created_decision_is_valid_witness: "valid_decision sample_decision"
  by (rule created_decision_is_valid [OF sample_decision_created])

text \<open>
  authority only decays with time. A created decision gives its claim, before its validity ends,
  the authority its type maps to, and \<open>DEPRECATED\<close> from that moment on; a decision without validity
  gives the same authority at every time; so a claim that is \<open>CONFIRMED\<close> at some time was
  \<open>CONFIRMED\<close> at every earlier one.
\<close>

theorem authority_decays:
  assumes "createDecision input now = Inr d" and "t \<le> t'"
  shows "authorityFromDecision d (Some t) \<in> set AuthorityStatus \<and>
    (oget d ''validUntil'' = JNull \<longrightarrow> authorityFromDecision d (Some t) = authorityFromDecision d (Some t')) \<and>
    (oget d ''validUntil'' \<noteq> JNull \<longrightarrow>
       (\<exists>e. js_date_parse (oget d ''validUntil'') = Some e \<and>
          (e \<le> t \<longrightarrow> authorityFromDecision d (Some t) = ''DEPRECATED''))) \<and>
    (authorityFromDecision d (Some t') = ''CONFIRMED'' \<longrightarrow> authorityFromDecision d (Some t) = ''CONFIRMED'')"
proof -
  have valid: "valid_decision d" by (rule createDecision_valid [OF assms(1)])
  have obj: "truthy d" by (rule createDecision_run [OF assms(1)]) simp
  let ?a = "case map_of authority_mapping (js_string (oget d ''type'')) of None \<Rightarrow> ''UNREVIEWED'' | Some a \<Rightarrow> a"
  have member: "?a \<in> set AuthorityStatus"
    using valid by (auto simp: valid_decision_def DecisionType_def authority_mapping_def AuthorityStatus_def)
  have a: "authorityFromDecision d (Some x) =
      (if truthy (oget d ''validUntil'') \<and> time_le (js_date_parse (oget d ''validUntil'')) (Some x)
       then ''DEPRECATED'' else ?a)" for x
    by (simp add: authorityFromDecision_def obj)
  show ?thesis
  proof (cases "oget d ''validUntil'' = JNull")
    case True
    with member show ?thesis by (auto simp: a)
  next
    case False
    with valid obtain s e where s: "oget d ''validUntil'' = JStr s" "date_parse s = Some e"
      by (auto simp: valid_decision_def is_string_iff)
    moreover have "s \<noteq> []"
      using s(2) date_parse_Nil by auto
    ultimately show ?thesis using member assms(2) by (auto simp: a AuthorityStatus_def)
  qed
qed

theorem authority_decays_witness:
  "authorityFromDecision sample_decision (Some 0) = ''CONFIRMED'' \<and>
   authorityFromDecision sample_decision (Some 0) \<in> set AuthorityStatus \<and>
   authorityFromDecision sample_decision (Some 1000) = ''DEPRECATED''"
proof -
  have "authorityFromDecision sample_decision (Some 0) = ''CONFIRMED''"
    "authorityFromDecision sample_decision (Some 1000) = ''DEPRECATED''"
    by code_simp+
  then show ?thesis using authority_decays [OF sample_decision_created, of 0 1000] by simp
qed

end
