(* ===== verification/Decision_Governance.thy ===== *)
theory Decision_Governance
  imports Governance
begin

section \<open>Governed decision reviews\<close>

text \<open>
  \<open>src/domain/decision-governance.js\<close>: a decision case under review, the events of its review and
  the evaluation of a case from its events: who approved, whether the approvals are independent and
  cover the configured roles, and whether the decision may be materialised.
\<close>

subsection \<open>Cases and events\<close>

definition stringArray :: "jsv \<Rightarrow> string \<Rightarrow> jsv res" where
  "stringArray v fieldName =
     (if v = JUndef then Inr (JArr [])
      else throw_if (\<not> is_array v) (TypeErr (fieldName @ '' must be an array'')) (
        bnd (string_items fieldName (elems v)) (\<lambda>normalized.
        throw_if (length (js_set normalized) \<noteq> length normalized)
          (TypeErr (fieldName @ '' must not contain duplicates'')) (Inr (JArr normalized)))))"

definition timestamp :: "bool \<Rightarrow> jsv \<Rightarrow> string \<Rightarrow> jsv res" where
  "timestamp optional v fieldName =
     (if nullish v \<and> optional then Inr JNull
      else bnd (requireIsoTimestamp v fieldName) (\<lambda>_. Inr v))"

text \<open>The checks on a break-glass case, and that no other case carries its fields.\<close>

definition check_break_glass :: "jsv \<Rightarrow> jsv \<Rightarrow> jsv \<Rightarrow> jsv \<Rightarrow> jsv \<Rightarrow> unit res" where
  "check_break_glass approvalMode emergencyReason validUntil postReviewDueAt createdAt =
     (if approvalMode = JStr ''BREAK_GLASS'' then
        throw_if (\<not> truthy emergencyReason \<or> \<not> truthy validUntil \<or> \<not> truthy postReviewDueAt)
          (TypeErr ''BREAK_GLASS requires emergencyReason, proposedDecision.validUntil, and postReviewDueAt'') (
        throw_if (time_le (js_date_parse validUntil) (js_date_parse createdAt) \<or>
                  time_le (js_date_parse postReviewDueAt) (js_date_parse createdAt))
          (RangeErr ''BREAK_GLASS validity and post-review deadline must be later than creation'') (Inr ()))
      else throw_if (truthy emergencyReason \<or> truthy postReviewDueAt)
        (TypeErr ''emergencyReason and postReviewDueAt are only valid for BREAK_GLASS'') (Inr ()))"

definition createDecisionReviewCase :: "jsv \<Rightarrow> int option \<Rightarrow> jsv res" where
  "createDecisionReviewCase input now =
     (let proposed = oget input ''proposedDecision'' in
     bnd (created_at input now) (\<lambda>createdAt.
     bnd (timestamp False (oget input ''expiresAt'') ''decisionReviewCase.expiresAt'') (\<lambda>expiresAt.
     throw_if (time_le (js_date_parse expiresAt) (js_date_parse createdAt))
       (RangeErr ''decisionReviewCase.expiresAt must be later than createdAt'') (
     bnd (assertEnum DecisionRisk (oget input ''risk'') ''decisionReviewCase.risk'') (\<lambda>risk.
     bnd (assertEnum DecisionApprovalMode (oget input ''approvalMode'') ''decisionReviewCase.approvalMode'')
       (\<lambda>approvalMode.
     throw_if (one_of [''HIGH'', ''CRITICAL''] risk \<and> approvalMode = JStr ''SINGLE'')
       (TypeErr ''HIGH and CRITICAL Decisions cannot use SINGLE approval'') (
     throw_if (one_of [''LOW'', ''MEDIUM''] risk \<and> approvalMode = JStr ''BREAK_GLASS'')
       (TypeErr ''BREAK_GLASS is reserved for HIGH or CRITICAL Decisions'') (
     bnd (timestamp True (oget proposed ''validUntil'') ''proposedDecision.validUntil'') (\<lambda>validUntil.
     bnd (optionalString (oget input ''emergencyReason'') ''decisionReviewCase.emergencyReason'')
       (\<lambda>emergencyReason.
     bnd (timestamp True (oget input ''postReviewDueAt'') ''decisionReviewCase.postReviewDueAt'')
       (\<lambda>postReviewDueAt.
     bnd (check_break_glass approvalMode emergencyReason validUntil postReviewDueAt createdAt) (\<lambda>_.
     bnd (assertEnum DecisionType (oget proposed ''type'') ''proposedDecision.type'') (\<lambda>decisionType.
     bnd (optionalString (oget proposed ''content'') ''proposedDecision.content'') (\<lambda>content.
     throw_if (decisionType = JStr ''EXCEPTION_RECORDED'' \<and> \<not> truthy content)
       (TypeErr ''proposedDecision.content is required for EXCEPTION_RECORDED'') (
     mk_obj
       [(''id'', requireNonEmptyString (oget input ''id'') ''decisionReviewCase.id''),
        (''claimId'', requireNonEmptyString (oget input ''claimId'') ''decisionReviewCase.claimId''),
        (''claimVersion'', requirePositiveInteger (oget input ''claimVersion'') ''decisionReviewCase.claimVersion''),
        (''scopeId'', requireNonEmptyString (oget input ''scopeId'') ''decisionReviewCase.scopeId''),
        (''scopeVersion'', requirePositiveInteger (oget input ''scopeVersion'') ''decisionReviewCase.scopeVersion''),
        (''risk'', Inr risk),
        (''approvalMode'', Inr approvalMode),
        (''proposedDecision'', mk_obj
          [(''id'', requireNonEmptyString (oget proposed ''id'') ''proposedDecision.id''),
           (''type'', Inr decisionType),
           (''content'', Inr content),
           (''evidenceRefs'', stringArray (oget proposed ''evidenceRefs'') ''proposedDecision.evidenceRefs''),
           (''validUntil'', Inr validUntil)]),
        (''emergencyReason'', Inr emergencyReason),
        (''postReviewDueAt'', Inr postReviewDueAt),
        (''proposerId'', requireNonEmptyString (oget input ''proposerId'') ''decisionReviewCase.proposerId''),
        (''proposerRole'', requireNonEmptyString (oget input ''proposerRole'') ''decisionReviewCase.proposerRole''),
        (''expiresAt'', Inr expiresAt),
        (''createdAt'', Inr createdAt)])))))))))))))))"

definition createDecisionReviewEvent :: "jsv \<Rightarrow> int option \<Rightarrow> jsv res" where
  "createDecisionReviewEvent input now = mk_obj
     [(''id'', requireNonEmptyString (oget input ''id'') ''decisionReviewEvent.id''),
      (''caseId'', requireNonEmptyString (oget input ''caseId'') ''decisionReviewEvent.caseId''),
      (''action'', assertEnum DecisionReviewAction (oget input ''action'') ''decisionReviewEvent.action''),
      (''actorId'', requireNonEmptyString (oget input ''actorId'') ''decisionReviewEvent.actorId''),
      (''actorRole'', requireNonEmptyString (oget input ''actorRole'') ''decisionReviewEvent.actorRole''),
      (''rationale'', requireNonEmptyString (oget input ''rationale'') ''decisionReviewEvent.rationale''),
      (''createdAt'', created_at input now)]"

subsection \<open>Evaluation\<close>

definition configuredRoles :: "jsv \<Rightarrow> string \<Rightarrow> jsv list res" where
  "configuredRoles policy fieldName =
     (let roles = coalesce (oget policy fieldName) (JArr []) in
      throw_if (\<not> is_array roles \<or> list_ex (\<lambda>r. \<not> is_string r \<or> js_trim (str_of r) = []) (elems roles))
        (TypeErr (''decision governance policy.'' @ fieldName @ '' must be an array of roles''))
        (Inr (js_set (elems roles))))"

text \<open>
  \<open>ordered.findLastIndex(REOPEN)\<close> and \<open>ordered.slice(lastReopen + 1)\<close>: reading from the last event
  backwards, the events after the last reopening, which are read one property deep.
\<close>

fun collect_active :: "jsv list \<Rightarrow> jsv list \<Rightarrow> jsv list res" where
  "collect_active [] acc = Inr acc"
| "collect_active (e # es) acc =
     bnd (pget e ''action'') (\<lambda>a. if a = JStr ''REOPEN'' then Inr acc else collect_active es (e # acc))"

definition activeEvents :: "jsv list \<Rightarrow> jsv list res" where
  "activeEvents ordered = collect_active (rev ordered) []"

definition terminal_event :: "jsv list \<Rightarrow> jsv option" where
  "terminal_event active =
     List.find (\<lambda>e. one_of [''REJECT'', ''REVOKE'', ''DISPUTE''] (oget e ''action'')) (rev active)"

text \<open>A supplied identity map is authoritative: a principal it does not resolve has none.\<close>

definition identity_of :: "jsv \<Rightarrow> jsv \<Rightarrow> jsv" where
  "identity_of policy i =
     (if truthy (oget policy ''actorIdentityMap'')
      then coalesce (oget (oget policy ''actorIdentityMap'') (js_string i)) JNull else i)"

record review_requirements =
  req_minimumApprovals :: nat
  req_distinctFromProposer :: bool
  req_requiredRoleGroups :: "jsv list list"

record review_state =
  rs_status :: string
  rs_approvals :: "jsv list"
  rs_ignoredApprovalEventIds :: "jsv list"
  rs_approvalActorCount :: nat
  rs_approvalRoleCount :: nat
  rs_requirements :: review_requirements
  rs_postReviewed :: bool
  rs_mayMaterializeDecision :: bool
  rs_latestEvent :: jsv
  rs_eventCount :: nat
  rs_observedApprovalActorCount :: nat

text \<open>The roles that may approve (a policy is supplied by every caller), and the role groups that must each be represented.\<close>

definition role_policy :: "jsv \<Rightarrow> jsv \<Rightarrow> (jsv list \<times> jsv list list) res" where
  "role_policy reviewCase policy =
     bnd (configuredRoles policy ''approvalRoles'') (\<lambda>approvalRoles.
     if oget reviewCase ''approvalMode'' = JStr ''BUSINESS_COMPLIANCE'' then
       bnd (configuredRoles policy ''businessRoles'') (\<lambda>businessRoles.
       bnd (configuredRoles policy ''complianceRoles'') (\<lambda>complianceRoles.
       Inr (js_set (businessRoles @ complianceRoles), [businessRoles, complianceRoles])))
     else if oget reviewCase ''approvalMode'' = JStr ''BREAK_GLASS'' then
       bnd (configuredRoles policy ''breakGlassRoles'') (\<lambda>roles. Inr (roles, []))
     else Inr (approvalRoles, []))"

definition minimum_approvals :: "jsv \<Rightarrow> nat" where
  "minimum_approvals reviewCase =
     (if one_of [''DUAL'', ''BUSINESS_COMPLIANCE''] (oget reviewCase ''approvalMode'') then 2 else 1)"

definition valid_approval :: "jsv \<Rightarrow> jsv \<Rightarrow> jsv list \<Rightarrow> jsv \<Rightarrow> bool" where
  "valid_approval reviewCase policy allowedRoles event \<longleftrightarrow>
     (let proposer = identity_of policy (oget reviewCase ''proposerId'');
          actor = identity_of policy (oget event ''actorId'')
      in truthy proposer \<and> truthy actor \<and> \<not> strict_eq actor proposer \<and>
         arr_includes allowedRoles (oget event ''actorRole''))"

definition terminal_status :: "jsv \<Rightarrow> string" where
  "terminal_status event =
     (if oget event ''action'' = JStr ''REJECT'' then ''REJECTED''
      else if oget event ''action'' = JStr ''REVOKE'' then ''REVOKED'' else ''DISPUTED'')"

definition review_status :: "jsv \<Rightarrow> bool \<Rightarrow> jsv option \<Rightarrow> bool \<Rightarrow> int \<Rightarrow> string" where
  "review_status reviewCase approvalSatisfied terminal postReviewed now =
     (let s1 = (if approvalSatisfied then ''APPROVED'' else ''PENDING'');
          s2 = (case terminal of None \<Rightarrow> s1 | Some e \<Rightarrow> terminal_status e);
          s3 = (if s2 = ''PENDING'' \<and> time_le (js_date_parse (oget reviewCase ''expiresAt'')) (Some now)
                then ''EXPIRED'' else s2)
      in if s3 = ''APPROVED'' \<and> oget reviewCase ''approvalMode'' = JStr ''BREAK_GLASS'' \<and>
            time_le (js_date_parse (oget reviewCase ''postReviewDueAt'')) (Some now) \<and> \<not> postReviewed
         then ''POST_REVIEW_OVERDUE'' else s3)"

definition evaluateDecisionReviewCase ::
  "jsv \<Rightarrow> jsv \<Rightarrow> jsv \<Rightarrow> int option \<Rightarrow> review_state res" where
  "evaluateDecisionReviewCase reviewCase events policy clock =
     throw_if (\<not> is_array events) (TypeErr ''decision review events must be an array'') (
     let ordered = elems events in
     bnd (activeEvents ordered) (\<lambda>active.
     bnd (pget reviewCase ''proposerId'') (\<lambda>_.
     bnd (pget policy ''actorIdentityMap'') (\<lambda>_.
     let terminal = terminal_event active;
         approvals = filter (\<lambda>e. oget e ''action'' = JStr ''APPROVE'') active;
         approvalActors = js_value_set (filter truthy (map (\<lambda>e. identity_of policy (oget e ''actorId'')) approvals));
         approvalRoles = js_value_set (map (\<lambda>e. oget e ''actorRole'') approvals)
     in bnd (role_policy reviewCase policy) (\<lambda>(allowedRoles, groups).
     let validApprovals = filter (valid_approval reviewCase policy allowedRoles) approvals;
         distinctValidActors = js_value_set (map (\<lambda>e. identity_of policy (oget e ''actorId'')) validApprovals);
         roleGroupsSatisfied = list_all (\<lambda>roles. list_ex (\<lambda>role.
             list_ex (\<lambda>e. strict_eq (oget e ''actorRole'') role) validApprovals) roles) groups;
         approvalSatisfied = length distinctValidActors \<ge> minimum_approvals reviewCase \<and> roleGroupsSatisfied;
         postReviewed = list_ex (\<lambda>e. oget e ''action'' = JStr ''POST_REVIEW'') active
     in case clock of None \<Rightarrow> Inl (TypeErr ''clock must return a valid Date'')
        | Some now \<Rightarrow> Inr
           \<lparr>rs_status = review_status reviewCase approvalSatisfied terminal postReviewed now,
            rs_approvals = validApprovals,
            rs_ignoredApprovalEventIds = map (\<lambda>e. oget e ''id'')
              (filter (\<lambda>e. \<not> valid_approval reviewCase policy allowedRoles e) approvals),
            rs_approvalActorCount = length distinctValidActors,
            rs_approvalRoleCount = length approvalRoles,
            rs_requirements = \<lparr>req_minimumApprovals = minimum_approvals reviewCase,
              req_distinctFromProposer = True, req_requiredRoleGroups = groups\<rparr>,
            rs_postReviewed = postReviewed,
            rs_mayMaterializeDecision = (approvalSatisfied \<and> terminal = None),
            rs_latestEvent = (if ordered = [] then JNull else coalesce (last ordered) JNull),
            rs_eventCount = length ordered,
            rs_observedApprovalActorCount = length approvalActors\<rparr>)))))"


subsection \<open>The active round\<close>

text \<open>The events after the last reopening, as a list function without errors.\<close>

definition after_reopen :: "jsv list \<Rightarrow> jsv list" where
  "after_reopen events = rev (takeWhile (\<lambda>e. oget e ''action'' \<noteq> JStr ''REOPEN'') (rev events))"

lemma collect_active_Inr:
  "collect_active es acc = Inr a \<Longrightarrow>
   a = rev (takeWhile (\<lambda>e. oget e ''action'' \<noteq> JStr ''REOPEN'') es) @ acc"
  by (induction es arbitrary: acc) (auto simp: bnd_eq_Inr pget_Inr split: if_splits)

lemma activeEvents_Inr: "activeEvents es = Inr a \<Longrightarrow> a = after_reopen es"
  by (auto simp: activeEvents_def after_reopen_def dest: collect_active_Inr)

lemma collect_active_reopen:
  assumes "oget r ''action'' = JStr ''REOPEN''"
  shows "collect_active (es @ r # rest) acc = collect_active es acc"
proof (induction es arbitrary: acc)
  case Nil
  have "\<not> nullish r" using assms by (cases r) auto
  with assms show ?case by (simp add: pget_def)
qed (auto intro!: bnd_cong)

lemma activeEvents_reopen:
  "oget r ''action'' = JStr ''REOPEN'' \<Longrightarrow> activeEvents (pre @ r # post) = activeEvents post"
  by (simp add: activeEvents_def collect_active_reopen)

lemma collect_active_total:
  "list_all (\<lambda>e. \<not> nullish e) es \<Longrightarrow> \<exists>a. collect_active es acc = Inr a"
  by (induction es arbitrary: acc) (auto simp: pget_def)

lemma after_reopen_subset: "set (after_reopen es) \<subseteq> set es"
  using set_takeWhileD by (fastforce simp: after_reopen_def)

lemma after_reopen_snoc:
  "oget e ''action'' \<noteq> JStr ''REOPEN'' \<Longrightarrow> after_reopen (es @ [e]) = after_reopen es @ [e]"
  by (simp add: after_reopen_def)

lemma terminal_event_None: "terminal_event a = None \<longleftrightarrow>
    (\<forall>e\<in>set a. \<not> one_of [''REJECT'', ''REVOKE'', ''DISPUTE''] (oget e ''action''))"
  by (auto simp: terminal_event_def find_None_iff)

lemma terminal_event_Some:
  "terminal_event a = Some e \<Longrightarrow> e \<in> set a \<and> one_of [''REJECT'', ''REVOKE'', ''DISPUTE''] (oget e ''action'')"
  by (auto simp: terminal_event_def find_Some_iff) (metis length_rev nth_mem set_rev)

lemma terminal_event_snoc:
  "\<not> one_of [''REJECT'', ''REVOKE'', ''DISPUTE''] (oget e ''action'') \<Longrightarrow> terminal_event (a @ [e]) = terminal_event a"
  "one_of [''REJECT'', ''REVOKE'', ''DISPUTE''] (oget e ''action'') \<Longrightarrow> terminal_event (a @ [e]) = Some e"
  by (simp_all add: terminal_event_def)

subsection \<open>The evaluation as a function of the active round\<close>

text \<open>Whether the approvals among \<open>active\<close> satisfy the policy.\<close>

definition round_approvals :: "jsv \<Rightarrow> jsv \<Rightarrow> jsv list \<Rightarrow> jsv list \<Rightarrow> jsv list" where
  "round_approvals reviewCase policy allowedRoles active =
     filter (valid_approval reviewCase policy allowedRoles)
       (filter (\<lambda>e. oget e ''action'' = JStr ''APPROVE'') active)"

definition round_satisfied :: "jsv \<Rightarrow> jsv \<Rightarrow> jsv list \<Rightarrow> jsv list list \<Rightarrow> jsv list \<Rightarrow> bool" where
  "round_satisfied reviewCase policy allowedRoles groups active \<longleftrightarrow>
     minimum_approvals reviewCase \<le> length (js_value_set (map (\<lambda>e. identity_of policy (oget e ''actorId''))
        (round_approvals reviewCase policy allowedRoles active))) \<and>
     list_all (\<lambda>roles. list_ex (\<lambda>role. list_ex (\<lambda>e. strict_eq (oget e ''actorRole'') role)
        (round_approvals reviewCase policy allowedRoles active)) roles) groups"

definition round_post_reviewed :: "jsv list \<Rightarrow> bool" where
  "round_post_reviewed active \<longleftrightarrow> list_ex (\<lambda>e. oget e ''action'' = JStr ''POST_REVIEW'') active"

lemma evaluate_run:
  assumes "evaluateDecisionReviewCase reviewCase events policy clock = Inr r"
  obtains allowed groups now where
    "is_array events" "activeEvents (elems events) = Inr (after_reopen (elems events))"
    "role_policy reviewCase policy = Inr (allowed, groups)" "clock = Some now"
    "rs_status r = review_status reviewCase
       (round_satisfied reviewCase policy allowed groups (after_reopen (elems events)))
       (terminal_event (after_reopen (elems events)))
       (round_post_reviewed (after_reopen (elems events))) now"
    "rs_approvals r = round_approvals reviewCase policy allowed (after_reopen (elems events))"
    "rs_mayMaterializeDecision r \<longleftrightarrow>
       round_satisfied reviewCase policy allowed groups (after_reopen (elems events)) \<and>
       terminal_event (after_reopen (elems events)) = None"
    "rs_eventCount r = length (elems events)"
proof -
  from assms obtain a where a: "activeEvents (elems events) = Inr a"
    by (auto simp: evaluateDecisionReviewCase_def build_simps Let_def)
  from activeEvents_Inr [OF this] have a': "a = after_reopen (elems events)" .
  from assms a that show thesis
    by (auto simp: evaluateDecisionReviewCase_def build_simps Let_def a' round_satisfied_def
        round_approvals_def round_post_reviewed_def split: option.splits)
qed

lemma terminal_status_cases:
  "terminal_status e = ''REJECTED'' \<or> terminal_status e = ''REVOKED'' \<or> terminal_status e = ''DISPUTED''"
  by (simp add: terminal_status_def)

lemma review_status_terminal: "review_status c b (Some e) p t = terminal_status e"
  using terminal_status_cases [of e] by (auto simp: review_status_def Let_def)

lemma review_status_open:
  "review_status c b None p t \<in>
     (if b then {''APPROVED'', ''POST_REVIEW_OVERDUE''} else {''PENDING'', ''EXPIRED''})"
  by (simp add: review_status_def Let_def)

lemma status_materialize_iff:
  assumes "evaluateDecisionReviewCase c events policy clock = Inr r"
  shows "rs_mayMaterializeDecision r \<longleftrightarrow> rs_status r \<in> {''APPROVED'', ''POST_REVIEW_OVERDUE''}"
proof -
  obtain al gr now where
    s: "rs_status r = review_status c (round_satisfied c policy al gr (after_reopen (elems events)))
       (terminal_event (after_reopen (elems events)))
       (round_post_reviewed (after_reopen (elems events))) now"
    and m: "rs_mayMaterializeDecision r \<longleftrightarrow> round_satisfied c policy al gr (after_reopen (elems events)) \<and>
       terminal_event (after_reopen (elems events)) = None"
    by (rule evaluate_run [OF assms])
  show ?thesis
  proof (cases "terminal_event (after_reopen (elems events))")
    case None
    then show ?thesis
      using review_status_open [of c "round_satisfied c policy al gr (after_reopen (elems events))"
          "round_post_reviewed (after_reopen (elems events))" now]
      by (auto simp: s m split: if_splits)
  next
    case (Some e)
    with terminal_status_cases [of e] show ?thesis by (auto simp: s m review_status_terminal)
  qed
qed


subsection \<open>Counting independent approvers\<close>

text \<open>The principals are strings (or unresolved), as the identity resolver returns them.\<close>

definition scalar_identities :: "jsv \<Rightarrow> jsv list \<Rightarrow> bool" where
  "scalar_identities policy events \<longleftrightarrow>
     list_all (\<lambda>e. \<not> is_object (identity_of policy (oget e ''actorId''))) events"

lemma round_approvals_in:
  "e \<in> set (round_approvals c policy al active) \<longleftrightarrow>
     e \<in> set active \<and> oget e ''action'' = JStr ''APPROVE'' \<and> valid_approval c policy al e"
  by (auto simp: round_approvals_def)

lemma distinct_actor_count:
  assumes "scalar_identities policy active"
  shows "length (js_value_set (map (\<lambda>e. identity_of policy (oget e ''actorId'')) (round_approvals c policy al active)))
    = card ((\<lambda>e. identity_of policy (oget e ''actorId'')) ` set (round_approvals c policy al active))"
proof -
  have "list_all (\<lambda>x. \<not> is_object x)
      (map (\<lambda>e. identity_of policy (oget e ''actorId'')) (round_approvals c policy al active))"
    using assms by (auto simp: scalar_identities_def list_all_iff round_approvals_in)
  then show ?thesis by (simp add: js_value_set_scalar length_js_set)
qed

lemma satisfied_principals:
  assumes "round_satisfied c policy al gr active" and "scalar_identities policy active"
  shows "\<exists>A. A \<subseteq> set active \<and> minimum_approvals c \<le> card ((\<lambda>e. identity_of policy (oget e ''actorId'')) ` A) \<and>
    (\<forall>e\<in>A. oget e ''action'' = JStr ''APPROVE'' \<and> valid_approval c policy al e)"
  using assms distinct_actor_count [OF assms(2), of c al]
  by (intro exI [of _ "set (round_approvals c policy al active)"])
     (auto simp: round_satisfied_def round_approvals_in)

text \<open>Two principals where two approvals are required.\<close>

lemma two_of_card:
  assumes "2 \<le> card (f ` A)"
  shows "\<exists>x\<in>A. \<exists>y\<in>A. f x \<noteq> f y"
proof (rule ccontr)
  assume "\<not> (\<exists>x\<in>A. \<exists>y\<in>A. f x \<noteq> f y)"
  then have "f ` A = {} \<or> (\<exists>z. f ` A = {z})" by blast
  with assms show False by auto
qed

subsection \<open>Properties\<close>

text \<open>
  Who approves independently, over the members of the policy alone: the person behind an account is what the
  identity map says when there is one, and the roles that may approve depend on the approval mode.
\<close>

definition person_behind :: "jsv \<Rightarrow> jsv \<Rightarrow> jsv" where
  "person_behind policy account =
     (let people = oget policy ''actorIdentityMap''
      in if truthy people then coalesce (oget people (js_string account)) JNull else account)"

definition approver_roles :: "jsv \<Rightarrow> jsv \<Rightarrow> jsv set" where
  "approver_roles reviewCase policy =
     (let roles = \<lambda>k. set (elems (oget policy k)); mode = oget reviewCase ''approvalMode''
      in if mode = JStr ''BUSINESS_COMPLIANCE'' then roles ''businessRoles'' \<union> roles ''complianceRoles''
         else if mode = JStr ''BREAK_GLASS'' then roles ''breakGlassRoles'' else roles ''approvalRoles'')"

definition independent_approval :: "jsv \<Rightarrow> jsv \<Rightarrow> jsv \<Rightarrow> bool" where
  "independent_approval reviewCase policy event \<longleftrightarrow>
     (let approver = person_behind policy (oget event ''actorId'');
          proposer = person_behind policy (oget reviewCase ''proposerId'')
      in oget event ''action'' = JStr ''APPROVE'' \<and> truthy approver \<and> truthy proposer \<and> approver \<noteq> proposer \<and>
         oget event ''actorRole'' \<in> approver_roles reviewCase policy)"

lemma configuredRoles_Inr: "configuredRoles policy k = Inr rs \<Longrightarrow> set rs = set (elems (oget policy k))"
  by (cases "oget policy k") (auto simp: configuredRoles_def Let_def throw_if_eq_Inr)

lemma role_policy_Inr:
  assumes "role_policy c policy = Inr (allowed, groups)"
  shows "set allowed = approver_roles c policy"
    "oget c ''approvalMode'' = JStr ''BUSINESS_COMPLIANCE'' \<Longrightarrow>
       map set groups = [set (elems (oget policy ''businessRoles'')), set (elems (oget policy ''complianceRoles''))]"
  using assms by (auto simp: role_policy_def approver_roles_def Let_def bnd_eq_Inr configuredRoles_Inr split: if_splits)

lemma valid_approval_independent:
  assumes "valid_approval c policy allowed e" "oget e ''action'' = JStr ''APPROVE''" "set allowed = approver_roles c policy"
    and "\<not> is_object (identity_of policy (oget e ''actorId''))"
  shows "independent_approval c policy e"
proof -
  have p: "person_behind policy i = identity_of policy i" for i by (simp add: person_behind_def identity_of_def Let_def)
  have "oget e ''actorRole'' \<in> set allowed"
    using assms(1) by (auto simp: valid_approval_def Let_def arr_includes_def list_ex_iff strict_eq_def)
  with assms show ?thesis
    unfolding independent_approval_def valid_approval_def Let_def p strict_eq_def by (simp only: simp_thms)
qed

text \<open>
  C36: a governed decision is materialised only on independent approval. When the evaluation of a case, whose
  approvers resolve to scalar identities, says that its decision may be materialised, the events after the
  last reopening contain no rejection, revocation or dispute, and they contain an approval by a resolved
  person who is not the person of the proposer and holds a role the policy lists for the mode of the case;
  where the mode is \<open>DUAL\<close> or \<open>BUSINESS_COMPLIANCE\<close> they contain two such approvals by different people, and
  in the latter mode one in a business role and one in a compliance role.
\<close>

theorem materialization_needs_independent_approval:
  assumes "evaluateDecisionReviewCase c events policy clock = Inr r" and "rs_mayMaterializeDecision r"
    and "scalar_identities policy (elems events)"
  shows "(\<forall>e\<in>set (after_reopen (elems events)).
      oget e ''action'' \<noteq> JStr ''REJECT'' \<and> oget e ''action'' \<noteq> JStr ''REVOKE'' \<and> oget e ''action'' \<noteq> JStr ''DISPUTE'') \<and>
    (\<exists>a\<in>set (after_reopen (elems events)). \<exists>b\<in>set (after_reopen (elems events)).
       independent_approval c policy a \<and> independent_approval c policy b \<and>
       (oget c ''approvalMode'' \<in> {JStr ''DUAL'', JStr ''BUSINESS_COMPLIANCE''} \<longrightarrow>
          person_behind policy (oget a ''actorId'') \<noteq> person_behind policy (oget b ''actorId''))) \<and>
    (oget c ''approvalMode'' = JStr ''BUSINESS_COMPLIANCE'' \<longrightarrow>
       (\<forall>roles\<in>{''businessRoles'', ''complianceRoles''}. \<exists>e\<in>set (after_reopen (elems events)).
          independent_approval c policy e \<and> oget e ''actorRole'' \<in> set (elems (oget policy roles))))"
proof (rule evaluate_run [OF assms(1)])
  fix allowed groups now
  let ?a = "after_reopen (elems events)" and ?who = "\<lambda>e. identity_of policy (oget e ''actorId'')"
  assume rp: "role_policy c policy = Inr (allowed, groups)"
    and m: "rs_mayMaterializeDecision r \<longleftrightarrow> round_satisfied c policy allowed groups ?a \<and> terminal_event ?a = None"
  have sat: "round_satisfied c policy allowed groups ?a" and none: "terminal_event ?a = None"
    using assms(2) m by simp_all
  have scalar: "scalar_identities policy ?a"
    using assms(3) after_reopen_subset [of "elems events"] by (auto simp: scalar_identities_def list_all_iff)
  have indep: "independent_approval c policy e"
    if "e \<in> set ?a" "oget e ''action'' = JStr ''APPROVE''" "valid_approval c policy allowed e" for e
    using scalar that(1) by (intro valid_approval_independent [OF that(3,2) role_policy_Inr(1) [OF rp]]) (simp add: scalar_identities_def list_all_iff)
  have who: "person_behind policy (oget e ''actorId'') = ?who e" for e by (simp add: person_behind_def identity_of_def Let_def)
  from satisfied_principals [OF sat scalar] obtain A where A: "A \<subseteq> set ?a" "minimum_approvals c \<le> card (?who ` A)"
    "\<forall>e\<in>A. oget e ''action'' = JStr ''APPROVE'' \<and> valid_approval c policy allowed e" by blast
  have "\<exists>a\<in>A. \<exists>b\<in>A. oget c ''approvalMode'' \<in> {JStr ''DUAL'', JStr ''BUSINESS_COMPLIANCE''} \<longrightarrow> ?who a \<noteq> ?who b"
  proof (cases "oget c ''approvalMode'' \<in> {JStr ''DUAL'', JStr ''BUSINESS_COMPLIANCE''}")
    case True
    with A(2) two_of_card [of ?who A] show ?thesis by (auto simp: minimum_approvals_def)
  next
    case False
    with A(2) have "A \<noteq> {}" by (auto simp: minimum_approvals_def split: if_splits)
    with False show ?thesis by blast
  qed
  with A(1,3) indep have pair: "\<exists>a\<in>set ?a. \<exists>b\<in>set ?a. independent_approval c policy a \<and> independent_approval c policy b \<and>
      (oget c ''approvalMode'' \<in> {JStr ''DUAL'', JStr ''BUSINESS_COMPLIANCE''} \<longrightarrow> ?who a \<noteq> ?who b)" by blast
  have groups: "\<exists>e\<in>set ?a. independent_approval c policy e \<and> oget e ''actorRole'' \<in> set roles" if "roles \<in> set groups" for roles
  proof -
    from sat that obtain e where "e \<in> set (round_approvals c policy allowed ?a)" "oget e ''actorRole'' \<in> set roles"
      unfolding round_satisfied_def list_all_iff list_ex_iff by (metis strict_eqD)
    then show ?thesis using indep by (auto simp: round_approvals_in)
  qed
  have "\<exists>e\<in>set ?a. independent_approval c policy e \<and> oget e ''actorRole'' \<in> set (elems (oget policy k))"
    if "oget c ''approvalMode'' = JStr ''BUSINESS_COMPLIANCE''" "k \<in> {''businessRoles'', ''complianceRoles''}" for k
  proof -
    have "set (elems (oget policy k)) \<in> set ` set groups"
      using arg_cong [OF role_policy_Inr(2) [OF rp that(1)], of set] that(2) by auto
    then obtain roles where "roles \<in> set groups" "set roles = set (elems (oget policy k))" by auto
    with groups show ?thesis by metis
  qed
  moreover have "\<forall>e\<in>set ?a. oget e ''action'' \<noteq> JStr ''REJECT'' \<and> oget e ''action'' \<noteq> JStr ''REVOKE'' \<and> oget e ''action'' \<noteq> JStr ''DISPUTE''"
    using none by (auto simp: terminal_event_None one_of_iff)
  ultimately show ?thesis using pair unfolding who by blast
qed

definition sample_case :: jsv where
  "sample_case = JObj [(''approvalMode'', JStr ''DUAL''), (''proposerId'', JStr ''p''),
     (''expiresAt'', JStr ''1970-01-01T00:00:01.000Z'')]"

definition sample_policy :: jsv where
  "sample_policy = JObj [(''approvalRoles'', JArr [JStr ''owner'']), (''actorIdentityMap'',
     JObj [(''p'', JStr ''P''), (''a'', JStr ''A''), (''b'', JStr ''B'')])]"

definition sample_event :: "string \<Rightarrow> string \<Rightarrow> string \<Rightarrow> jsv" where
  "sample_event i action actor = JObj [(''id'', JStr i), (''action'', JStr action), (''actorId'', JStr actor),
     (''actorRole'', JStr ''owner'')]"

definition sample_events :: jsv where
  "sample_events = JArr [sample_event ''0'' ''REJECT'' ''a'', sample_event ''1'' ''REOPEN'' ''a'',
     sample_event ''2'' ''APPROVE'' ''a'', sample_event ''3'' ''APPROVE'' ''b'']"

lemma sample_review: "case evaluateDecisionReviewCase sample_case sample_events sample_policy (Some 0) of
    Inl _ \<Rightarrow> False | Inr r \<Rightarrow> rs_mayMaterializeDecision r \<and> rs_status r = ''APPROVED''"
  by code_simp

theorem materialization_needs_independent_approval_witness:
  "\<exists>r. evaluateDecisionReviewCase sample_case sample_events sample_policy (Some 0) = Inr r \<and> rs_mayMaterializeDecision r \<and>
     (\<exists>a\<in>set (after_reopen (elems sample_events)). \<exists>b\<in>set (after_reopen (elems sample_events)).
        independent_approval sample_case sample_policy a \<and> independent_approval sample_case sample_policy b \<and>
        person_behind sample_policy (oget a ''actorId'') \<noteq> person_behind sample_policy (oget b ''actorId''))"
proof -
  obtain r where r: "evaluateDecisionReviewCase sample_case sample_events sample_policy (Some 0) = Inr r"
    "rs_mayMaterializeDecision r"
    using sample_review by (auto split: sum.splits)
  have "scalar_identities sample_policy (elems sample_events)" by code_simp
  moreover have "oget sample_case ''approvalMode'' = JStr ''DUAL''" by (simp add: sample_case_def)
  ultimately show ?thesis using r materialization_needs_independent_approval [OF r] by auto
qed

text \<open>
  the status and the verdict agree. The decision of a case may be materialised exactly when its
  status is \<open>APPROVED\<close> or \<open>POST_REVIEW_OVERDUE\<close>: an expired, rejected, revoked or disputed case
  materialises nothing, and an expired one is past its deadline.
\<close>

theorem review_status_agrees_with_verdict:
  assumes "evaluateDecisionReviewCase c events policy clock = Inr r"
  shows "(rs_mayMaterializeDecision r \<longleftrightarrow> rs_status r \<in> {''APPROVED'', ''POST_REVIEW_OVERDUE''}) \<and>
    rs_status r \<in> {''PENDING'', ''EXPIRED'', ''APPROVED'', ''POST_REVIEW_OVERDUE'', ''REJECTED'', ''REVOKED'', ''DISPUTED''} \<and>
    (rs_status r = ''EXPIRED'' \<longrightarrow> time_le (js_date_parse (oget c ''expiresAt'')) clock)"
proof (rule evaluate_run [OF assms])
  fix allowed groups now
  let ?a = "after_reopen (elems events)"
  assume now: "clock = Some now"
    and s: "rs_status r = review_status c (round_satisfied c policy allowed groups ?a) (terminal_event ?a)
       (round_post_reviewed ?a) now"
  have "rs_status r \<in> {''PENDING'', ''EXPIRED'', ''APPROVED'', ''POST_REVIEW_OVERDUE'', ''REJECTED'', ''REVOKED'', ''DISPUTED''}"
    by (simp add: s review_status_def Let_def terminal_status_def split: option.splits)
  moreover have "rs_status r = ''EXPIRED'' \<longrightarrow> time_le (js_date_parse (oget c ''expiresAt'')) clock"
    by (auto simp: s now review_status_def terminal_status_def Let_def split: option.splits if_splits)
  ultimately show ?thesis using status_materialize_iff [OF assms] by blast
qed

theorem review_status_agrees_with_verdict_witness:
  "\<exists>r. evaluateDecisionReviewCase sample_case sample_events sample_policy (Some 0) = Inr r \<and>
     rs_status r \<in> {''APPROVED'', ''POST_REVIEW_OVERDUE''}"
proof -
  obtain r where r: "evaluateDecisionReviewCase sample_case sample_events sample_policy (Some 0) = Inr r"
    "rs_mayMaterializeDecision r"
    using sample_review by (auto split: sum.splits)
  with review_status_agrees_with_verdict [OF r(1)] show ?thesis by blast
qed


definition same_verdict :: "review_state res \<Rightarrow> review_state res \<Rightarrow> bool" where
  "same_verdict a b \<longleftrightarrow> (case (a, b) of
     (Inr r, Inr s) \<Rightarrow> rs_status r = rs_status s \<and> rs_approvals r = rs_approvals s \<and>
        rs_mayMaterializeDecision r = rs_mayMaterializeDecision s \<and> rs_postReviewed r = rs_postReviewed s \<and>
        rs_ignoredApprovalEventIds r = rs_ignoredApprovalEventIds s
   | (Inl e, Inl f) \<Rightarrow> e = f | _ \<Rightarrow> False)"

lemma same_verdict_bind:
  "(\<And>x. m = Inr x \<Longrightarrow> same_verdict (f x) (g x)) \<Longrightarrow> same_verdict (bnd m f) (bnd m g)"
  by (cases m) (auto simp: same_verdict_def)

text \<open>
  reopening a case starts a new round. Whatever happened before a \<open>REOPEN\<close> event, the evaluation
  after it is that of the later events alone: same status, same approvals, same verdict, same error.
\<close>

theorem reopening_starts_a_new_round:
  assumes "oget r ''action'' = JStr ''REOPEN''"
  shows "same_verdict (evaluateDecisionReviewCase c (JArr (before @ r # after)) policy clock)
    (evaluateDecisionReviewCase c (JArr after) policy clock)"
  by (simp only: evaluateDecisionReviewCase_def is_array.simps not_True_eq_False throw_if_simps elems.simps
        activeEvents_reopen [OF assms] Let_def)
     (intro same_verdict_bind, clarsimp simp: same_verdict_def split: option.splits)

theorem reopening_starts_a_new_round_witness:
  "same_verdict
     (evaluateDecisionReviewCase sample_case (JArr ([sample_event ''0'' ''REJECT'' ''a''] @ sample_event ''1'' ''REOPEN'' ''a'' # [])) sample_policy (Some 0))
     (evaluateDecisionReviewCase sample_case (JArr []) sample_policy (Some 0))"
  by (rule reopening_starts_a_new_round) (simp add: sample_event_def)

text \<open>
  a rejection, revocation or dispute stands until the case is reopened. Once the evaluation of a
  case is \<open>REJECTED\<close>, \<open>REVOKED\<close> or \<open>DISPUTED\<close>, a further approval or post-review changes neither the
  status nor the verdict, at any later time.
\<close>

theorem terminal_status_stands:
  assumes "evaluateDecisionReviewCase c (JArr es) policy clock = Inr r"
    and "rs_status r \<in> {''REJECTED'', ''REVOKED'', ''DISPUTED''}"
    and "one_of [''APPROVE'', ''POST_REVIEW''] (oget e ''action'')"
    and "evaluateDecisionReviewCase c (JArr (es @ [e])) policy clock' = Inr r'"
  shows "rs_status r' = rs_status r \<and> \<not> rs_mayMaterializeDecision r'"
proof -
  have act: "oget e ''action'' \<noteq> JStr ''REOPEN''"
    "\<not> one_of [''REJECT'', ''REVOKE'', ''DISPUTE''] (oget e ''action'')"
    using assms(3) by (auto simp: one_of_iff)
  have "\<exists>x. terminal_event (after_reopen es) = Some x \<and> rs_status r = terminal_status x"
  proof (rule evaluate_run [OF assms(1)])
    fix al gr now
    assume s: "rs_status r = review_status c (round_satisfied c policy al gr (after_reopen (elems (JArr es))))
       (terminal_event (after_reopen (elems (JArr es)))) (round_post_reviewed (after_reopen (elems (JArr es)))) now"
    show ?thesis
    proof (cases "terminal_event (after_reopen es)")
      case None
      with s review_status_open [of c "round_satisfied c policy al gr (after_reopen es)"
          "round_post_reviewed (after_reopen es)" now] assms(2)
      show ?thesis by (auto split: if_splits)
    qed (use s in \<open>simp add: review_status_terminal\<close>)
  qed
  then obtain x where x: "terminal_event (after_reopen es) = Some x" "rs_status r = terminal_status x" by blast
  then have x': "terminal_event (after_reopen (es @ [e])) = Some x"
    by (simp add: after_reopen_snoc [OF act(1)] terminal_event_snoc(1) [OF act(2)])
  show ?thesis
    by (rule evaluate_run [OF assms(4)]) (simp add: x' x(2) review_status_terminal)
qed

theorem terminal_status_stands_witness:
  "\<exists>r r'. evaluateDecisionReviewCase sample_case (JArr [sample_event ''0'' ''REJECT'' ''a'']) sample_policy (Some 0) = Inr r \<and>
     evaluateDecisionReviewCase sample_case (JArr ([sample_event ''0'' ''REJECT'' ''a''] @ [sample_event ''1'' ''APPROVE'' ''b'']))
       sample_policy (Some 5) = Inr r' \<and> rs_status r' = rs_status r"
proof -
  have a: "case evaluateDecisionReviewCase sample_case (JArr [sample_event ''0'' ''REJECT'' ''a'']) sample_policy (Some 0) of
      Inl _ \<Rightarrow> False | Inr r \<Rightarrow> rs_status r = ''REJECTED''"
    and b: "is_ok (evaluateDecisionReviewCase sample_case
      (JArr ([sample_event ''0'' ''REJECT'' ''a''] @ [sample_event ''1'' ''APPROVE'' ''b''])) sample_policy (Some 5))"
    and c: "one_of [''APPROVE'', ''POST_REVIEW''] (oget (sample_event ''1'' ''APPROVE'' ''b'') ''action'')"
    by code_simp+
  from a obtain r where r: "evaluateDecisionReviewCase sample_case (JArr [sample_event ''0'' ''REJECT'' ''a'']) sample_policy (Some 0) = Inr r"
    "rs_status r = ''REJECTED''" by (auto split: sum.splits)
  from b obtain r' where r': "evaluateDecisionReviewCase sample_case
      (JArr ([sample_event ''0'' ''REJECT'' ''a''] @ [sample_event ''1'' ''APPROVE'' ''b''])) sample_policy (Some 5) = Inr r'"
    by (auto simp: is_ok_def split: sum.splits)
  from terminal_status_stands [OF r(1) _ c r'] r r' show ?thesis by auto
qed


definition case_guarded :: "jsv \<Rightarrow> bool" where
  "case_guarded c \<longleftrightarrow>
     (let mode = oget c ''approvalMode''; risk = oget c ''risk''; proposed = oget c ''proposedDecision''; 
          created = js_date_parse (oget c ''createdAt'') in
      \<not> (one_of [''HIGH'', ''CRITICAL''] risk \<and> mode = JStr ''SINGLE'') \<and>
      \<not> (one_of [''LOW'', ''MEDIUM''] risk \<and> mode = JStr ''BREAK_GLASS'') \<and>
      (if mode = JStr ''BREAK_GLASS''
       then is_string (oget c ''emergencyReason'') \<and>
         js_date_parse (oget proposed ''validUntil'') \<noteq> None \<and> js_date_parse (oget c ''postReviewDueAt'') \<noteq> None \<and>
         \<not> time_le (js_date_parse (oget proposed ''validUntil'')) created \<and>
         \<not> time_le (js_date_parse (oget c ''postReviewDueAt'')) created
       else oget c ''emergencyReason'' = JNull \<and> oget c ''postReviewDueAt'' = JNull) \<and>
      js_date_parse (oget c ''expiresAt'') \<noteq> None \<and>
      \<not> time_le (js_date_parse (oget c ''expiresAt'')) created)"

lemma timestamp_out: "timestamp opt v f = Inr w \<Longrightarrow>
    (opt \<and> w = JNull) \<or> (is_string w \<and> truthy w \<and> js_date_parse w \<noteq> None)"
  by (auto simp: timestamp_def build_simps requireIsoTimestamp_Inr truthy_nonempty split: if_splits)

lemma check_break_glass_Inr:
  "check_break_glass mode er vu pr ca = Inr u \<longleftrightarrow>
     (if mode = JStr ''BREAK_GLASS''
      then truthy er \<and> truthy vu \<and> truthy pr \<and> \<not> time_le (js_date_parse vu) (js_date_parse ca) \<and>
           \<not> time_le (js_date_parse pr) (js_date_parse ca)
      else \<not> truthy er \<and> \<not> truthy pr)"
  by (auto simp: check_break_glass_def build_simps)

lemma createDecisionReviewCase_run:
  assumes "createDecisionReviewCase input now = Inr c"
  shows
    "timestamp False (oget input ''expiresAt'') ''decisionReviewCase.expiresAt'' = Inr (oget c ''expiresAt'') \<and>
     timestamp True (oget (oget input ''proposedDecision'') ''validUntil'') ''proposedDecision.validUntil''
       = Inr (oget (oget c ''proposedDecision'') ''validUntil'') \<and>
     optionalString (oget input ''emergencyReason'') ''decisionReviewCase.emergencyReason''
       = Inr (oget c ''emergencyReason'') \<and>
     timestamp True (oget input ''postReviewDueAt'') ''decisionReviewCase.postReviewDueAt''
       = Inr (oget c ''postReviewDueAt'') \<and>
     check_break_glass (oget c ''approvalMode'') (oget c ''emergencyReason'')
       (oget (oget c ''proposedDecision'') ''validUntil'') (oget c ''postReviewDueAt'') (oget c ''createdAt'') = Inr () \<and>
     \<not> time_le (js_date_parse (oget c ''expiresAt'')) (js_date_parse (oget c ''createdAt'')) \<and>
     \<not> (one_of [''HIGH'', ''CRITICAL''] (oget c ''risk'') \<and> oget c ''approvalMode'' = JStr ''SINGLE'') \<and>
     \<not> (one_of [''LOW'', ''MEDIUM''] (oget c ''risk'') \<and> oget c ''approvalMode'' = JStr ''BREAK_GLASS'')"
  using assms by (clarsimp simp: createDecisionReviewCase_def build_simps Let_def)

lemma created_case_guarded:
  assumes "createDecisionReviewCase input now = Inr c"
  shows "case_guarded c"
proof -
  note run = createDecisionReviewCase_run [OF assms]
  note out = timestamp_out [OF run [THEN conjunct1]] timestamp_out [OF run [THEN conjunct2, THEN conjunct1]]
    optional_string_out [OF run [THEN conjunct2, THEN conjunct2, THEN conjunct1]]
    timestamp_out [OF run [THEN conjunct2, THEN conjunct2, THEN conjunct2, THEN conjunct1]]
  show ?thesis
  proof (cases "oget c ''approvalMode'' = JStr ''BREAK_GLASS''")
    case True
    with run out show ?thesis by (auto simp: case_guarded_def Let_def check_break_glass_Inr)
  next
    case False
    with run out show ?thesis by (auto simp: case_guarded_def Let_def check_break_glass_Inr)
  qed
qed

text \<open>
  a created case carries an approval mode fit for its risk. Where risk and mode are strings, a
  \<open>HIGH\<close> or \<open>CRITICAL\<close> case never has \<open>SINGLE\<close> approval and a \<open>LOW\<close> or \<open>MEDIUM\<close> one is never
  \<open>BREAK_GLASS\<close>; a break-glass case has a reason, a validity and a post-review deadline, neither of
  them before its creation, and no other case has a reason or a deadline; the expiry is a time.
\<close>

theorem created_case_is_guarded:
  assumes "createDecisionReviewCase input now = Inr c"
  shows "case_guarded c"
  by (rule created_case_guarded [OF assms])

definition sample_case_input :: "jsv \<Rightarrow> string \<Rightarrow> jsv" where
  "sample_case_input risk mode = JObj
    [(''id'', JStr ''R''), (''claimId'', JStr ''C''), (''claimVersion'', JNum 1), (''scopeId'', JStr ''S''),
     (''scopeVersion'', JNum 1), (''risk'', risk), (''approvalMode'', JStr mode),
     (''proposedDecision'', JObj [(''id'', JStr ''D''), (''type'', JStr ''CONFIRMED'')]),
     (''proposerId'', JStr ''p''), (''proposerRole'', JStr ''owner''),
     (''expiresAt'', JStr ''1970-01-01T00:00:01.000Z'')]"

theorem created_case_is_guarded_witness:
  "\<exists>c. createDecisionReviewCase (sample_case_input (JStr ''HIGH'') ''DUAL'') (Some 0) = Inr c \<and> case_guarded c"
proof -
  have "is_ok (createDecisionReviewCase (sample_case_input (JStr ''HIGH'') ''DUAL'') (Some 0))" by code_simp
  then obtain c where "createDecisionReviewCase (sample_case_input (JStr ''HIGH'') ''DUAL'') (Some 0) = Inr c"
    by (auto simp: is_ok_def split: sum.splits)
  with created_case_is_guarded show ?thesis by blast
qed

text \<open>
  the guard on risk is one on its type as well. The string \<open>"CRITICAL"\<close> cannot be combined with
  \<open>SINGLE\<close> approval, while the array \<open>["CRITICAL"]\<close> passes validation and the case is created.
\<close>

theorem critical_case_with_single_approval:
  "createDecisionReviewCase (sample_case_input (JStr ''CRITICAL'') ''SINGLE'') (Some 0)
     = Inl (TypeErr ''HIGH and CRITICAL Decisions cannot use SINGLE approval'') \<and>
   (\<exists>c. createDecisionReviewCase (sample_case_input (JArr [JStr ''CRITICAL'']) ''SINGLE'') (Some 0) = Inr c \<and>
     oget c ''approvalMode'' = JStr ''SINGLE'' \<and> js_string (oget c ''risk'') = ''CRITICAL'')"
proof -
  have "createDecisionReviewCase (sample_case_input (JStr ''CRITICAL'') ''SINGLE'') (Some 0)
     = Inl (TypeErr ''HIGH and CRITICAL Decisions cannot use SINGLE approval'')"
    by code_simp
  moreover have "case createDecisionReviewCase (sample_case_input (JArr [JStr ''CRITICAL'']) ''SINGLE'') (Some 0) of
      Inl _ \<Rightarrow> False | Inr c \<Rightarrow> oget c ''approvalMode'' = JStr ''SINGLE'' \<and> js_string (oget c ''risk'') = ''CRITICAL''"
    by code_simp
  ultimately show ?thesis by (auto split: sum.splits)
qed

end
