(* ===== verification/Traceability_Store.thy ===== *)
theory Traceability_Store
  imports Model
begin

section \<open>The traceability store\<close>

text \<open>
  \<open>src/storage/memory-traceability-store.js\<close>: the collections of governed records and the operations
  that append to and read from them. A JavaScript \<open>Map\<close> is an association list in insertion order.
  Every operation checks before it writes, so an operation that throws leaves the store as it was:
  the error result carries no store. Operations take records their domain constructors built, so
  reading a member of a record is total. \<open>localeCompare\<close> is the collation of the platform, the
  parameter \<open>lc\<close> of the listing operations.
\<close>

type_synonym collection = "(string \<times> jsv) list"

record store =
  st_projects :: collection
  st_capabilityTemplates :: collection
  st_globalAccountRevisions :: collection
  st_manifests :: collection
  st_chains :: "(string \<times> jsv list) list"
  st_features :: collection
  st_featureAliases :: collection
  st_featureLineages :: collection
  st_scopes :: collection
  st_claims :: collection
  st_decisions :: collection
  st_businessProcessModels :: collection
  st_decisionReviewCases :: collection
  st_decisionReviewEvents :: "(string \<times> jsv list) list"
  st_decisionReviewMaterializations :: "(string \<times> jsv list) list"
  st_testSpecs :: collection
  st_executions :: collection
  st_evidence :: collection
  st_evidenceHashes :: collection
  st_evidenceRetentionPolicies :: collection
  st_evidenceLifecycleEvents :: "(string \<times> jsv list) list"
  st_factBundles :: collection

definition empty_store :: store where
  "empty_store = \<lparr>st_projects = [], st_capabilityTemplates = [], st_globalAccountRevisions = [],
     st_manifests = [], st_chains = [], st_features = [], st_featureAliases = [], st_featureLineages = [],
     st_scopes = [], st_claims = [], st_decisions = [], st_businessProcessModels = [],
     st_decisionReviewCases = [], st_decisionReviewEvents = [], st_decisionReviewMaterializations = [],
     st_testSpecs = [], st_executions = [], st_evidence = [], st_evidenceHashes = [],
     st_evidenceRetentionPolicies = [], st_evidenceLifecycleEvents = [], st_factBundles = []\<rparr>"

subsection \<open>Keys and identities\<close>

definition nul :: string where
  "nul = [CHR 0x00]"

definition store_key :: "string \<Rightarrow> string \<Rightarrow> string" where
  "store_key projectId i = projectId @ nul @ i"

text \<open>\<open>`${a}\u0000${b}`\<close> on member values\<close>

definition pair_key :: "jsv \<Rightarrow> jsv \<Rightarrow> string" where
  "pair_key a b = js_string a @ nul @ js_string b"

definition version_key :: "jsv \<Rightarrow> string" where
  "version_key v = pair_key (oget v ''id'') (oget v ''version'')"

definition in_project :: "string \<Rightarrow> string \<Rightarrow> bool" where
  "in_project projectId storageKey \<longleftrightarrow> starts_with (projectId @ nul) storageKey"

text \<open>The values of a collection stored for a project, in insertion order.\<close>

definition project_values :: "string \<Rightarrow> (string \<times> 'a) list \<Rightarrow> 'a list" where
  "project_values projectId coll = map snd (filter (\<lambda>e. in_project projectId (fst e)) coll)"

definition recordIdentity :: "jsv \<Rightarrow> jsv" where
  "recordIdentity r = JObj (without [''createdAt''] (props r))"

text \<open>\<open>canonicalJson(recordIdentity(a)) === canonicalJson(recordIdentity(b))\<close>\<close>

definition same_record :: "jsv \<Rightarrow> jsv \<Rightarrow> bool" where
  "same_record a b \<longleftrightarrow> canonicalJson (recordIdentity a) = canonicalJson (recordIdentity b)"

definition same_value :: "jsv \<Rightarrow> jsv \<Rightarrow> bool" where
  "same_value a b \<longleftrightarrow> canonicalJson a = canonicalJson b"

text \<open>
  The pattern of every append: a stored record with another identity is a conflict, an equal one is
  kept as it is, an unknown key is set.
\<close>

definition put_once :: "(jsv \<Rightarrow> jsv \<Rightarrow> bool) \<Rightarrow> string \<Rightarrow> collection \<Rightarrow> string \<Rightarrow> jsv \<Rightarrow> collection res" where
  "put_once same message coll k v =
     (case map_of coll k of
        None \<Rightarrow> Inr (AList.update k v coll)
      | Some existing \<Rightarrow> if \<not> same existing v then Inl (ConflictErr message) else Inr coll)"

definition appendVersion :: "collection \<Rightarrow> string \<Rightarrow> jsv \<Rightarrow> string \<Rightarrow> collection res" where
  "appendVersion coll storageKey v label =
     put_once same_record (label @ '' conflicts with an existing immutable record'') coll storageKey v"

definition rows :: "(string \<times> 'a list) list \<Rightarrow> string \<Rightarrow> 'a list" where
  "rows coll k = (case map_of coll k of None \<Rightarrow> [] | Some xs \<Rightarrow> xs)"

definition get :: "collection \<Rightarrow> string \<Rightarrow> jsv" where
  "get coll k = (case map_of coll k of None \<Rightarrow> JNull | Some v \<Rightarrow> v)"

definition label_of :: "string \<Rightarrow> jsv \<Rightarrow> string" where
  "label_of name v = name @ '' '' @ js_string (oget v ''id'') @ '' version '' @ js_string (oget v ''version'')"

subsection \<open>Projects, templates, accounts\<close>

definition appendProjectFoundation :: "jsv \<Rightarrow> store \<Rightarrow> (store \<times> jsv) res" where
  "appendProjectFoundation foundation s =
     (let k = js_string (oget (oget foundation ''project'') ''id'') in
      bnd (put_once same_value (''Project '' @ k @ '' conflicts with an existing record'') (st_projects s) k foundation)
        (\<lambda>coll. Inr (s\<lparr>st_projects := coll\<rparr>, get coll k)))"

definition getProjectFoundation :: "string \<Rightarrow> store \<Rightarrow> jsv" where
  "getProjectFoundation projectId s = get (st_projects s) projectId"

definition appendCapabilityTemplateRevision :: "jsv \<Rightarrow> store \<Rightarrow> (store \<times> jsv) res" where
  "appendCapabilityTemplateRevision template s =
     bnd (appendVersion (st_capabilityTemplates s)
            (js_string (oget template ''kind'') @ nul @
             pair_key (oget template ''logicalName'') (oget template ''revision'')) template
            (''Capability template '' @ js_string (oget template ''logicalName'') @ '' revision ''
              @ js_string (oget template ''revision'')))
       (\<lambda>coll. Inr (s\<lparr>st_capabilityTemplates := coll\<rparr>, template))"

definition appendGlobalAccountRevision :: "jsv \<Rightarrow> store \<Rightarrow> (store \<times> jsv) res" where
  "appendGlobalAccountRevision account s =
     bnd (appendVersion (st_globalAccountRevisions s)
            (pair_key (oget account ''accountId'') (oget account ''revision'')) account
            (''Global account '' @ js_string (oget account ''accountId'') @ '' revision ''
              @ js_string (oget account ''revision'')))
       (\<lambda>coll. Inr (s\<lparr>st_globalAccountRevisions := coll\<rparr>, account))"

subsection \<open>Manifests and trace chains\<close>

definition appendSnapshotManifest :: "string \<Rightarrow> jsv \<Rightarrow> store \<Rightarrow> (store \<times> jsv) res" where
  "appendSnapshotManifest projectId manifest s =
     bnd (put_once same_record
            (''Snapshot manifest '' @ js_string (oget manifest ''id'') @ '' conflicts with an existing immutable record'')
            (st_manifests s) (store_key projectId (js_string (oget manifest ''id''))) manifest)
       (\<lambda>coll. Inr (s\<lparr>st_manifests := coll\<rparr>, oget manifest ''id''))"

definition getSnapshotManifest :: "string \<Rightarrow> string \<Rightarrow> store \<Rightarrow> jsv" where
  "getSnapshotManifest projectId snapshotManifestId s = get (st_manifests s) (store_key projectId snapshotManifestId)"

definition appendTraceChainRevision :: "string \<Rightarrow> jsv \<Rightarrow> jsv \<Rightarrow> store \<Rightarrow> (store \<times> jsv) res" where
  "appendTraceChainRevision projectId chain options s =
     throw_if (map_of (st_manifests s) (store_key projectId (js_string (oget chain ''snapshotManifestId''))) = None)
       (ConflictErr (''Snapshot manifest '' @ js_string (oget chain ''snapshotManifestId'')
          @ '' does not exist in project '' @ projectId)) (
     let storageKey = store_key projectId (js_string (oget chain ''id''));
         revisions = rows (st_chains s) storageKey;
         revision = JNum (int (length revisions) + 1);
         stored = JObj (spread (props chain) [(''revision'', revision),
                    (''scopeVersion'', coalesce (oget options ''scopeVersion'') (JNum 1))])
     in Inr (s\<lparr>st_chains := AList.update storageKey (revisions @ [stored]) (st_chains s)\<rparr>,
             JObj [(''chainId'', oget chain ''id''), (''revision'', revision)]))"

definition getCurrentTraceChain :: "string \<Rightarrow> string \<Rightarrow> store \<Rightarrow> jsv" where
  "getCurrentTraceChain projectId chainId s =
     (let revisions = rows (st_chains s) (store_key projectId chainId)
      in if revisions = [] then JNull else last revisions)"

subsection \<open>Features, scopes, claims, decisions\<close>

definition appendFeatureVersion :: "string \<Rightarrow> jsv \<Rightarrow> store \<Rightarrow> (store \<times> jsv) res" where
  "appendFeatureVersion projectId feature s =
     bnd (appendVersion (st_features s) (store_key projectId (version_key feature)) feature (label_of ''Feature'' feature))
       (\<lambda>coll. Inr (s\<lparr>st_features := coll\<rparr>, feature))"

definition appendClaimScope :: "string \<Rightarrow> jsv \<Rightarrow> store \<Rightarrow> (store \<times> jsv) res" where
  "appendClaimScope projectId scope s =
     bnd (appendVersion (st_scopes s) (store_key projectId (version_key scope)) scope (label_of ''ClaimScope'' scope))
       (\<lambda>coll. Inr (s\<lparr>st_scopes := coll\<rparr>, scope))"

definition feature_exists :: "string \<Rightarrow> jsv \<Rightarrow> store \<Rightarrow> bool" where
  "feature_exists projectId featureId s \<longleftrightarrow>
     list_ex (\<lambda>f. strict_eq (oget f ''id'') featureId) (project_values projectId (st_features s))"

definition no_feature :: "string \<Rightarrow> jsv \<Rightarrow> err" where
  "no_feature projectId featureId =
     ConflictErr (''Feature '' @ js_string featureId @ '' does not exist in project '' @ projectId)"

definition appendClaim :: "string \<Rightarrow> jsv \<Rightarrow> store \<Rightarrow> (store \<times> jsv) res" where
  "appendClaim projectId claim s =
     throw_if (\<not> feature_exists projectId (oget claim ''featureId'') s)
       (no_feature projectId (oget claim ''featureId'')) (
     throw_if (map_of (st_scopes s) (store_key projectId (pair_key (oget claim ''scopeId'') (oget claim ''scopeVersion''))) = None)
       (ConflictErr (''ClaimScope '' @ js_string (oget claim ''scopeId'') @ '' version ''
          @ js_string (oget claim ''scopeVersion'') @ '' does not exist'')) (
     bnd (appendVersion (st_claims s) (store_key projectId (version_key claim)) claim (label_of ''Claim'' claim))
       (\<lambda>coll. Inr (s\<lparr>st_claims := coll\<rparr>, claim))))"

definition claim_of :: "string \<Rightarrow> jsv \<Rightarrow> store \<Rightarrow> jsv option" where
  "claim_of projectId v s =
     map_of (st_claims s) (store_key projectId (pair_key (oget v ''claimId'') (oget v ''claimVersion'')))"

definition scope_matches :: "jsv \<Rightarrow> jsv \<Rightarrow> bool" where
  "scope_matches claim v \<longleftrightarrow>
     strict_eq (oget claim ''scopeId'') (oget v ''scopeId'') \<and>
     strict_eq (oget claim ''scopeVersion'') (oget v ''scopeVersion'')"

definition no_claim :: "jsv \<Rightarrow> err" where
  "no_claim v = ConflictErr (''Claim '' @ js_string (oget v ''claimId'') @ '' version ''
     @ js_string (oget v ''claimVersion'') @ '' does not exist'')"

definition appendDecision :: "string \<Rightarrow> jsv \<Rightarrow> store \<Rightarrow> (store \<times> jsv) res" where
  "appendDecision projectId decision s =
     (case claim_of projectId decision s of
        None \<Rightarrow> Inl (no_claim decision)
      | Some claim \<Rightarrow>
          throw_if (\<not> scope_matches claim decision)
            (ConflictErr ''Decision scope must match the claim version scope'') (
          bnd (appendVersion (st_decisions s) (store_key projectId (js_string (oget decision ''id''))) decision
                 (''Decision '' @ js_string (oget decision ''id'')))
            (\<lambda>coll. Inr (s\<lparr>st_decisions := coll\<rparr>, decision))))"

definition appendBusinessProcessModel :: "string \<Rightarrow> jsv \<Rightarrow> store \<Rightarrow> (store \<times> jsv) res" where
  "appendBusinessProcessModel projectId processModel s =
     throw_if (map_of (st_features s) (store_key projectId
                 (pair_key (oget processModel ''featureId'') (oget processModel ''featureVersion''))) = None)
       (ConflictErr (''Feature '' @ js_string (oget processModel ''featureId'') @ '' version ''
          @ js_string (oget processModel ''featureVersion'') @ '' does not exist'')) (
     bnd (appendVersion (st_businessProcessModels s) (store_key projectId (version_key processModel)) processModel
            (label_of ''BusinessProcessModel'' processModel))
       (\<lambda>coll. Inr (s\<lparr>st_businessProcessModels := coll\<rparr>, processModel)))"


subsection \<open>Decision review cases\<close>

definition getDecisionReviewCase :: "string \<Rightarrow> string \<Rightarrow> store \<Rightarrow> jsv" where
  "getDecisionReviewCase projectId caseId s =
     (let k = store_key projectId caseId in
      case map_of (st_decisionReviewCases s) k of
        None \<Rightarrow> JNull
      | Some reviewCase \<Rightarrow>
          let decisions = filter truthy (map (\<lambda>i. case map_of (st_decisions s) (store_key projectId (js_string i)) of
                             None \<Rightarrow> JUndef | Some d \<Rightarrow> d) (rows (st_decisionReviewMaterializations s) k))
          in JObj [(''reviewCase'', reviewCase), (''events'', JArr (rows (st_decisionReviewEvents s) k)),
                   (''decisions'', JArr decisions),
                   (''decision'', if decisions = [] then JNull else last decisions)])"

definition appendDecisionReviewCase :: "string \<Rightarrow> jsv \<Rightarrow> store \<Rightarrow> (store \<times> jsv) res" where
  "appendDecisionReviewCase projectId reviewCase s =
     (case claim_of projectId reviewCase s of
        None \<Rightarrow> Inl (no_claim reviewCase)
      | Some claim \<Rightarrow>
          throw_if (\<not> scope_matches claim reviewCase)
            (ConflictErr ''Decision review case scope must match the Claim version scope'') (
          bnd (appendVersion (st_decisionReviewCases s) (store_key projectId (js_string (oget reviewCase ''id'')))
                 reviewCase (''DecisionReviewCase '' @ js_string (oget reviewCase ''id'')))
            (\<lambda>coll. let s' = s\<lparr>st_decisionReviewCases := coll\<rparr>
               in Inr (s', getDecisionReviewCase projectId (js_string (oget reviewCase ''id'')) s'))))"

text \<open>\<open>items.find((item) => item.id === v.id)\<close>\<close>

definition find_by_id :: "jsv list \<Rightarrow> jsv \<Rightarrow> jsv option" where
  "find_by_id items v = List.find (\<lambda>item. strict_eq (oget item ''id'') (oget v ''id'')) items"

text \<open>An event log: the same event again is kept once, another one under its id is a conflict.\<close>

definition append_event :: "string \<Rightarrow> jsv list \<Rightarrow> jsv \<Rightarrow> jsv list res" where
  "append_event message events event =
     (case find_by_id events event of
        None \<Rightarrow> Inr (events @ [event])
      | Some existing \<Rightarrow> if \<not> same_value existing event then Inl (ConflictErr message) else Inr events)"

definition appendDecisionReviewEvent :: "string \<Rightarrow> jsv \<Rightarrow> jsv \<Rightarrow> store \<Rightarrow> (store \<times> jsv) res" where
  "appendDecisionReviewEvent projectId event decision s =
     (let caseId = js_string (oget event ''caseId''); k = store_key projectId caseId in
      throw_if (map_of (st_decisionReviewCases s) k = None)
        (ConflictErr (''DecisionReviewCase '' @ caseId @ '' does not exist'')) (
      bnd (append_event (''DecisionReviewEvent '' @ js_string (oget event ''id'') @ '' conflicts with an existing record'')
             (rows (st_decisionReviewEvents s) k) event) (\<lambda>events.
      bnd (if truthy decision
           then bnd (appendDecision projectId decision s) (\<lambda>(s1, _).
             let ids = rows (st_decisionReviewMaterializations s1) k;
                 ids' = (if arr_includes ids (oget decision ''id'') then ids else ids @ [oget decision ''id''])
             in Inr (s1\<lparr>st_decisionReviewMaterializations :=
                  AList.update k ids' (st_decisionReviewMaterializations s1)\<rparr>))
           else Inr s) (\<lambda>s2.
      let s3 = s2\<lparr>st_decisionReviewEvents := AList.update k events (st_decisionReviewEvents s2)\<rparr>
      in Inr (s3, getDecisionReviewCase projectId caseId s3)))))"

subsection \<open>Aliases and lineages of features\<close>

definition listFeatureIds :: "string \<Rightarrow> store \<Rightarrow> jsv list" where
  "listFeatureIds projectId s =
     js_sort (js_value_set (map (\<lambda>f. oget f ''id'') (project_values projectId (st_features s))))"

definition appendFeatureAlias :: "string \<Rightarrow> jsv \<Rightarrow> store \<Rightarrow> (store \<times> jsv) res" where
  "appendFeatureAlias projectId alias s =
     throw_if (map_of (st_features s) (store_key projectId
                 (pair_key (oget alias ''featureId'') (oget alias ''featureVersion''))) = None)
       (ConflictErr (''Feature '' @ js_string (oget alias ''featureId'') @ ''@''
          @ js_string (oget alias ''featureVersion'') @ '' does not exist'')) (
     let k = store_key projectId (js_string (oget alias ''aliasKey'')) in
     bnd (put_once same_record (''Feature alias '' @ js_string (oget alias ''alias'') @ '' is already assigned'')
            (st_featureAliases s) k alias)
       (\<lambda>coll. Inr (s\<lparr>st_featureAliases := coll\<rparr>, get coll k)))"

definition relation_key :: "string \<Rightarrow> jsv \<Rightarrow> string" where
  "relation_key projectId lineage = store_key projectId
     (pair_key (oget lineage ''predecessorFeatureId'') (oget lineage ''successorFeatureId'') @ nul
       @ js_string (oget lineage ''relationType''))"

definition appendFeatureLineage :: "string \<Rightarrow> jsv \<Rightarrow> store \<Rightarrow> (store \<times> jsv) res" where
  "appendFeatureLineage projectId lineage s =
     (let ids = listFeatureIds projectId s in
      throw_if (\<not> arr_includes ids (oget lineage ''predecessorFeatureId'') \<or>
                \<not> arr_includes ids (oget lineage ''successorFeatureId''))
        (ConflictErr ''Feature lineage endpoints must exist in the project'') (
      let k = store_key projectId (js_string (oget lineage ''id''));
          message = ''Feature lineage '' @ js_string (oget lineage ''id'') @ '' conflicts with immutable history'';
          duplicateRelation = list_ex (\<lambda>(candidateKey, item). in_project projectId candidateKey \<and> candidateKey \<noteq> k \<and>
             relation_key projectId item = relation_key projectId lineage) (st_featureLineages s)
      in throw_if duplicateRelation (ConflictErr message) (
         bnd (put_once same_record message (st_featureLineages s) k lineage)
           (\<lambda>coll. Inr (s\<lparr>st_featureLineages := coll\<rparr>, get coll k)))))"

subsection \<open>Test specifications, executions and evidence\<close>

definition check_claim_ref :: "string \<Rightarrow> jsv \<Rightarrow> store \<Rightarrow> unit \<Rightarrow> jsv \<Rightarrow> unit res" where
  "check_claim_ref projectId testSpec s u claimRef =
     (let e = ConflictErr (''Claim '' @ js_string (oget claimRef ''id'') @ '' version ''
            @ js_string (oget claimRef ''version'') @ '' does not belong to Feature ''
            @ js_string (oget testSpec ''featureId''))
      in case map_of (st_claims s) (store_key projectId (version_key claimRef)) of
           None \<Rightarrow> Inl e
         | Some claim \<Rightarrow>
             throw_if (\<not> strict_eq (oget claim ''featureId'') (oget testSpec ''featureId'')) e (Inr ()))"

definition appendTestSpec :: "string \<Rightarrow> jsv \<Rightarrow> store \<Rightarrow> (store \<times> jsv) res" where
  "appendTestSpec projectId testSpec s =
     throw_if (\<not> feature_exists projectId (oget testSpec ''featureId'') s)
       (no_feature projectId (oget testSpec ''featureId'')) (
     bnd (array_elems (oget testSpec ''verifiesClaims'')) (\<lambda>claims.
     bnd (foldR (check_claim_ref projectId testSpec s) () claims) (\<lambda>_.
     bnd (appendVersion (st_testSpecs s) (store_key projectId (version_key testSpec)) testSpec
            (label_of ''TestSpec'' testSpec))
       (\<lambda>coll. Inr (s\<lparr>st_testSpecs := coll\<rparr>, testSpec)))))"

definition verified_item :: "jsv \<Rightarrow> jsv" where
  "verified_item item = JObj (spread (props item) [(''integrity'', JStr ''VERIFIED'')])"

definition evidence_key :: "string \<Rightarrow> jsv \<Rightarrow> string" where
  "evidence_key projectId item = store_key projectId (js_string (oget item ''id''))"

definition hash_key :: "string \<Rightarrow> jsv \<Rightarrow> string" where
  "hash_key projectId item = store_key projectId (js_string (oget item ''contentHash''))"

definition check_evidence :: "string \<Rightarrow> store \<Rightarrow> unit \<Rightarrow> jsv \<Rightarrow> unit res" where
  "check_evidence projectId s u item =
     bnd (case map_of (st_evidence s) (evidence_key projectId item) of
            Some existing \<Rightarrow>
              throw_if (\<not> same_value existing (verified_item item))
                (ConflictErr (''Evidence '' @ js_string (oget item ''id'') @ '' conflicts with an existing record'')) (Inr ())
          | None \<Rightarrow> Inr ()) (\<lambda>_.
     case map_of (st_evidenceHashes s) (hash_key projectId item) of
       Some hashOwner \<Rightarrow>
         throw_if (truthy hashOwner \<and> \<not> strict_eq hashOwner (oget item ''id''))
           (ConflictErr (''Evidence hash '' @ js_string (oget item ''contentHash'') @ '' already belongs to ''
              @ js_string hashOwner)) (Inr ())
     | None \<Rightarrow> Inr ())"

definition put_evidence :: "string \<Rightarrow> store \<Rightarrow> jsv \<Rightarrow> store" where
  "put_evidence projectId s item =
     (if map_of (st_evidence s) (evidence_key projectId item) \<noteq> None then s
      else s\<lparr>st_evidence := AList.update (evidence_key projectId item) (verified_item item) (st_evidence s),
             st_evidenceHashes := AList.update (hash_key projectId item) (oget item ''id'') (st_evidenceHashes s)\<rparr>)"


definition appendExecutionEvidenceBundle :: "string \<Rightarrow> jsv \<Rightarrow> store \<Rightarrow> (store \<times> jsv) res" where
  "appendExecutionEvidenceBundle projectId bundle s =
     (let execution = oget bundle ''execution''; attestation = oget bundle ''attestation'' in
      throw_if (map_of (st_testSpecs s) (store_key projectId
                  (pair_key (oget execution ''testSpecId'') (oget execution ''testSpecVersion''))) = None)
        (ConflictErr (''TestSpec '' @ js_string (oget execution ''testSpecId'') @ '' version ''
           @ js_string (oget execution ''testSpecVersion'') @ '' does not exist'')) (
      case map_of (st_manifests s) (store_key projectId (js_string (oget execution ''snapshotManifestId''))) of
        None \<Rightarrow> Inl (ConflictErr (''Snapshot manifest '' @ js_string (oget execution ''snapshotManifestId'')
           @ '' does not exist in project '' @ projectId))
      | Some manifest \<Rightarrow>
      throw_if (\<not> strict_eq (oget (oget (oget manifest ''components'') ''deployment'') ''id'') (oget execution ''deploymentId''))
        (ConflictErr ''Execution deployment must belong to the referenced snapshot manifest'') (
      bnd (put_once same_value (''TestExecution '' @ js_string (oget execution ''id'') @ '' conflicts with an existing record'')
             (st_executions s) (store_key projectId (js_string (oget execution ''id'')))
             (JObj [(''execution'', execution), (''attestation'', attestation)])) (\<lambda>executions.
      bnd (array_elems (oget bundle ''evidence'')) (\<lambda>evidence.
      bnd (foldR (check_evidence projectId s) () evidence) (\<lambda>_.
      Inr (foldl (put_evidence projectId) (s\<lparr>st_executions := executions\<rparr>) evidence,
           JObj [(''executionId'', oget execution ''id''),
                 (''evidenceIds'', JArr (map (\<lambda>item. oget item ''id'') evidence))])))))))"

definition getExecutionEvidence :: "string \<Rightarrow> jsv \<Rightarrow> store \<Rightarrow> jsv" where
  "getExecutionEvidence projectId executionId s =
     (case map_of (st_executions s) (store_key projectId (js_string executionId)) of
        None \<Rightarrow> JNull
      | Some r \<Rightarrow> JObj (spread (props r) [(''evidence'',
          JArr (filter (\<lambda>item. strict_eq (oget item ''executionId'') executionId)
                 (project_values projectId (st_evidence s))))]))"

definition getEvidence :: "string \<Rightarrow> string \<Rightarrow> store \<Rightarrow> jsv" where
  "getEvidence projectId evidenceId s = get (st_evidence s) (store_key projectId evidenceId)"

definition appendEvidenceRetentionPolicy :: "string \<Rightarrow> jsv \<Rightarrow> store \<Rightarrow> (store \<times> jsv) res" where
  "appendEvidenceRetentionPolicy projectId policy s =
     bnd (appendVersion (st_evidenceRetentionPolicies s) (store_key projectId (version_key policy)) policy
            (label_of ''EvidenceRetentionPolicy'' policy))
       (\<lambda>coll. Inr (s\<lparr>st_evidenceRetentionPolicies := coll\<rparr>, policy))"

definition appendEvidenceLifecycleEvent :: "string \<Rightarrow> jsv \<Rightarrow> store \<Rightarrow> (store \<times> jsv) res" where
  "appendEvidenceLifecycleEvent projectId event s =
     (let k = store_key projectId (js_string (oget event ''evidenceId'')) in
      throw_if (map_of (st_evidence s) k = None)
        (ConflictErr (''Evidence '' @ js_string (oget event ''evidenceId'') @ '' does not exist'')) (
      throw_if (map_of (st_evidenceRetentionPolicies s) (store_key projectId
                  (pair_key (oget event ''policyId'') (oget event ''policyVersion''))) = None)
        (ConflictErr (''Evidence retention policy '' @ js_string (oget event ''policyId'') @ ''@''
           @ js_string (oget event ''policyVersion'') @ '' does not exist'')) (
      bnd (append_event (''EvidenceLifecycleEvent '' @ js_string (oget event ''id'') @ '' conflicts with an existing record'')
             (rows (st_evidenceLifecycleEvents s) k) event) (\<lambda>events.
      Inr (s\<lparr>st_evidenceLifecycleEvents := AList.update k events (st_evidenceLifecycleEvents s)\<rparr>, event)))))"

definition listEvidenceLifecycleEvents :: "string \<Rightarrow> string \<Rightarrow> store \<Rightarrow> jsv list" where
  "listEvidenceLifecycleEvents projectId evidenceId s =
     rows (st_evidenceLifecycleEvents s) (store_key projectId evidenceId)"

definition appendFactBundle :: "string \<Rightarrow> jsv \<Rightarrow> store \<Rightarrow> (store \<times> jsv) res" where
  "appendFactBundle projectId bundle s =
     (case map_of (st_manifests s) (store_key projectId (js_string (oget bundle ''snapshotManifestId''))) of
        None \<Rightarrow> Inl (ConflictErr (''Snapshot manifest '' @ js_string (oget bundle ''snapshotManifestId'')
           @ '' does not exist in project '' @ projectId))
      | Some manifest \<Rightarrow>
      let source = oget (oget manifest ''components'') ''source'' in
      throw_if (\<not> strict_eq (oget source ''id'') (oget bundle ''sourceComponentId'') \<or>
                \<not> strict_eq (oget source ''digest'') (oget bundle ''sourceDigest''))
        (ConflictErr ''FactBundle source component ID and digest must match the referenced snapshot manifest'') (
      bnd (put_once same_value (''FactBundle '' @ js_string (oget bundle ''id'') @ '' conflicts with an existing immutable record'')
             (st_factBundles s) (store_key projectId (js_string (oget bundle ''id''))) bundle) (\<lambda>coll.
      Inr (s\<lparr>st_factBundles := coll\<rparr>,
           JObj [(''bundleId'', oget bundle ''id''), (''snapshotManifestId'', oget bundle ''snapshotManifestId''),
                 (''sourceComponentId'', oget bundle ''sourceComponentId''),
                 (''nodeCount'', JNum (int (length (elems (oget bundle ''nodes''))))),
                 (''edgeCount'', JNum (int (length (elems (oget bundle ''edges''))))),
                 (''complete'', oget bundle ''complete'')]))))"

end
