(* ===== verification/Store_Queries.thy ===== *)
theory Store_Queries
  imports Traceability_Store
begin

section \<open>Reading the traceability store\<close>

text \<open>
  The reads of \<open>src/storage/memory-traceability-store.js\<close> that select the latest version of a record
  and the baseline of a feature. Versions are the positive integers the constructors admit; a
  comparison of anything else is false, as with \<open>NaN\<close>.
\<close>

definition newer :: "jsv \<Rightarrow> jsv \<Rightarrow> bool" where
  "newer a b \<longleftrightarrow> num_gt (oget a ''version'') (oget b ''version'')"

text \<open>\<open>.sort((left, right) => right.version - left.version)\<close> and its first element\<close>

definition newest :: "jsv list \<Rightarrow> jsv" where
  "newest vs = (case sort_by newer vs of [] \<Rightarrow> JNull | v # _ \<Rightarrow> v)"

definition getTestSpec :: "string \<Rightarrow> jsv \<Rightarrow> jsv \<Rightarrow> store \<Rightarrow> jsv" where
  "getTestSpec projectId testSpecId version s =
     (if version \<noteq> JNull then get (st_testSpecs s) (store_key projectId (pair_key testSpecId version))
      else newest (filter (\<lambda>t. strict_eq (oget t ''id'') testSpecId) (project_values projectId (st_testSpecs s))))"

definition getEvidenceRetentionPolicy :: "string \<Rightarrow> jsv \<Rightarrow> jsv \<Rightarrow> store \<Rightarrow> jsv" where
  "getEvidenceRetentionPolicy projectId policyId version s =
     (if version \<noteq> JNull then get (st_evidenceRetentionPolicies s) (store_key projectId (pair_key policyId version))
      else newest (filter (\<lambda>p. strict_eq (oget p ''id'') policyId)
             (project_values projectId (st_evidenceRetentionPolicies s))))"

text \<open>Newest version first; among equal versions the collation \<open>lc\<close> of \<open>createdAt\<close> decides.\<close>

definition getLatestBusinessProcessModel :: "(string \<Rightarrow> string \<Rightarrow> int) \<Rightarrow> string \<Rightarrow> jsv \<Rightarrow> store \<Rightarrow> jsv" where
  "getLatestBusinessProcessModel lc projectId featureId s =
     (case sort_by (\<lambda>l r. newer l r \<or> (\<not> newer r l \<and>
              lc (str_of (oget r ''createdAt'')) (str_of (oget l ''createdAt'')) < 0))
            (filter (\<lambda>m. strict_eq (oget m ''featureId'') featureId)
              (project_values projectId (st_businessProcessModels s))) of
        [] \<Rightarrow> JNull | m # _ \<Rightarrow> m)"

text \<open>The loop that keeps, in a \<open>Map\<close> by \<open>id\<close>, the record with the greatest version.\<close>

definition keep_latest :: "(jsv \<times> jsv) list \<Rightarrow> jsv \<Rightarrow> (jsv \<times> jsv) list" where
  "keep_latest m v =
     (case map_of m (oget v ''id'') of
        None \<Rightarrow> AList.update (oget v ''id'') v m
      | Some current \<Rightarrow> if newer v current then AList.update (oget v ''id'') v m else m)"

definition latest_by_id :: "jsv list \<Rightarrow> jsv list" where
  "latest_by_id vs = map snd (foldl keep_latest [] vs)"

record claim_view =
  cv_claim :: jsv
  cv_scope :: jsv
  cv_decisionHistory :: "jsv list"
  cv_latestDecision :: jsv

definition claim_view_of :: "string \<Rightarrow> store \<Rightarrow> jsv \<Rightarrow> claim_view" where
  "claim_view_of projectId s claim =
     (let history = filter (\<lambda>d. strict_eq (oget d ''claimId'') (oget claim ''id'') \<and>
                                 strict_eq (oget d ''claimVersion'') (oget claim ''version''))
                      (project_values projectId (st_decisions s))
      in \<lparr>cv_claim = claim,
          cv_scope = (case map_of (st_scopes s) (store_key projectId
                        (pair_key (oget claim ''scopeId'') (oget claim ''scopeVersion''))) of
                        None \<Rightarrow> JUndef | Some x \<Rightarrow> x),
          cv_decisionHistory = history,
          cv_latestDecision = (if history = [] then JNull else last history)\<rparr>)"

text \<open>The executions of the governed test specifications, the one that finished last per specification.\<close>

definition finished_at :: "jsv \<Rightarrow> int option" where
  "finished_at r = js_date_parse (oget (oget r ''execution'') ''finishedAt'')"

definition keep_last_finished :: "(jsv \<times> jsv) list \<Rightarrow> jsv \<Rightarrow> (jsv \<times> jsv) list" where
  "keep_last_finished m r =
     (let t = oget (oget r ''execution'') ''testSpecId'' in
      case map_of m t of
        None \<Rightarrow> AList.update t r m
      | Some current \<Rightarrow> if time_less (finished_at current) (finished_at r) then AList.update t r m else m)"

definition execution_key :: "jsv \<Rightarrow> string" where
  "execution_key r = pair_key (oget (oget r ''execution'') ''testSpecId'') (oget (oget r ''execution'') ''testSpecVersion'')"

definition execution_view :: "string \<Rightarrow> store \<Rightarrow> jsv \<Rightarrow> jsv" where
  "execution_view projectId s r =
     (let e = oget r ''execution'' in
      JObj (map (\<lambda>k. (k, oget e k))
              [''id'', ''testSpecId'', ''testSpecVersion'', ''snapshotManifestId'', ''deploymentId'', ''status'',
               ''runner'', ''finishedAt'']
            @ [(''evidenceCount'', JNum (int (length (filter (\<lambda>item. strict_eq (oget item ''executionId'') (oget e ''id''))
                 (project_values projectId (st_evidence s))))))]))"

definition baseline_executions :: "string \<Rightarrow> store \<Rightarrow> jsv list \<Rightarrow> jsv list" where
  "baseline_executions projectId s testSpecs =
     (let governed = map version_key testSpecs;
          records = filter (\<lambda>r. execution_key r \<in> set governed) (project_values projectId (st_executions s));
          latest = map snd (foldl keep_last_finished [] records)
      in sort_by (\<lambda>l r. time_less (js_date_parse (oget r ''finishedAt'')) (js_date_parse (oget l ''finishedAt'')))
           (map (execution_view projectId s) latest))"

record feature_baseline =
  fb_feature :: jsv
  fb_featureHistory :: "jsv list"
  fb_processModel :: jsv
  fb_claims :: "claim_view list"
  fb_testSpecs :: "jsv list"
  fb_testExecutions :: "jsv list"
  fb_traceChains :: "jsv list"

text \<open>
  \<open>getFeatureBaseline\<close> without the three collections that the model of the store does not hold
  (implementation mappings, conformances, candidate reviews).
\<close>

definition getFeatureBaseline ::
  "(string \<Rightarrow> string \<Rightarrow> int) \<Rightarrow> string \<Rightarrow> jsv \<Rightarrow> store \<Rightarrow> feature_baseline option" where
  "getFeatureBaseline lc projectId featureId s =
     (let prefix = store_key projectId (js_string featureId @ nul);
          featureVersions = sort_by newer (map snd (filter (\<lambda>e. starts_with prefix (fst e)) (st_features s)))
      in if featureVersions = [] then None
         else
           let claims = latest_by_id (filter (\<lambda>c. strict_eq (oget c ''featureId'') featureId)
                          (project_values projectId (st_claims s)));
               testSpecs = latest_by_id (filter (\<lambda>t. strict_eq (oget t ''featureId'') featureId)
                          (project_values projectId (st_testSpecs s)));
               traceChains = filter (\<lambda>c. strict_eq (oget c ''featureId'') featureId)
                 (map last (filter (\<lambda>rs. rs \<noteq> []) (project_values projectId (st_chains s))))
           in Some \<lparr>fb_feature = hd featureVersions, fb_featureHistory = rev featureVersions,
                fb_processModel = getLatestBusinessProcessModel lc projectId featureId s,
                fb_claims = map (claim_view_of projectId s) claims, fb_testSpecs = testSpecs,
                fb_testExecutions = baseline_executions projectId s testSpecs,
                fb_traceChains = traceChains\<rparr>)"


subsection \<open>Reads return the latest\<close>

definition numeric_versions :: "jsv list \<Rightarrow> bool" where
  "numeric_versions vs \<longleftrightarrow> list_all (\<lambda>v. case oget v ''version'' of JNum _ \<Rightarrow> True | _ \<Rightarrow> False) vs"

lemma numeric_version: "numeric_versions vs \<Longrightarrow> v \<in> set vs \<Longrightarrow> \<exists>i. oget v ''version'' = JNum i"
  by (cases "oget v ''version''") (auto simp: numeric_versions_def list_all_iff simp del: oget_simps)

lemma newest_in: "newest vs \<noteq> JNull \<Longrightarrow> newest vs \<in> set vs"
  by (auto simp: newest_def split: list.splits) (metis list.set_intros(1) set_sort_by)

lemma newest_max:
  assumes "numeric_versions vs" and "v \<in> set vs"
  shows "\<not> newer v (newest vs)"
proof -
  have "newest vs = hd (sort_by newer vs)"
    using assms(2) by (auto simp: newest_def split: list.splits) (metis empty_iff empty_set set_sort_by)
  moreover have "\<not> newer v (hd (sort_by newer vs))"
  proof (rule sort_by_hd [OF _ _ assms(2)])
    show "\<not> newer y x" if "x \<in> set vs" "y \<in> set vs" "newer x y" for x y
      using numeric_version [OF assms(1) that(1)] numeric_version [OF assms(1) that(2)] that(3)
      by (auto simp: newer_def simp del: oget_simps)
    show "\<not> newer x z" if "x \<in> set vs" "y \<in> set vs" "z \<in> set vs" "\<not> newer x y" "\<not> newer y z" for x y z
      using numeric_version [OF assms(1) that(1)] numeric_version [OF assms(1) that(2)]
        numeric_version [OF assms(1) that(3)] that(4,5)
      by (auto simp: newer_def simp del: oget_simps)
  qed
  ultimately show ?thesis by simp
qed

lemma newer_step: "newer x c \<Longrightarrow> \<not> newer v c \<Longrightarrow> \<not> newer v x"
  by (auto simp: newer_def num_gt_iff simp del: oget_simps)

lemma not_newer_self: "\<not> newer v v"
  by (simp add: newer_def num_gt_iff del: oget_simps)

lemma keep_latest_fold:
  "distinct (map fst (foldl keep_latest [] vs)) \<and>
   (\<forall>i w. map_of (foldl keep_latest [] vs) i = Some w \<longrightarrow> w \<in> set vs \<and> oget w ''id'' = i) \<and>
   (\<forall>v\<in>set vs. \<exists>w. map_of (foldl keep_latest [] vs) (oget v ''id'') = Some w \<and> \<not> newer v w)"
proof (induction vs rule: rev_induct)
  case (snoc x vs)
  let ?m = "foldl keep_latest [] vs" and ?n = "foldl keep_latest [] (vs @ [x])"
  define new where "new \<longleftrightarrow> (case map_of ?m (oget x ''id'') of None \<Rightarrow> True | Some c \<Rightarrow> newer x c)"
  have step: "?n = (if new then AList.update (oget x ''id'') x ?m else ?m)"
    by (simp add: keep_latest_def new_def split: option.split)
  have old: "distinct (map fst ?m)" "\<And>i w. map_of ?m i = Some w \<Longrightarrow> w \<in> set vs \<and> oget w ''id'' = i"
    "\<And>v. v \<in> set vs \<Longrightarrow> \<exists>w. map_of ?m (oget v ''id'') = Some w \<and> \<not> newer v w"
    using snoc.IH by blast+
  have n: "map_of ?n i = (if new \<and> i = oget x ''id'' then Some x else map_of ?m i)" for i
    unfolding step by (simp add: update_conv')
  have "distinct (map fst ?n)" unfolding step by (simp add: distinct_update old(1))
  moreover have "w \<in> set (vs @ [x]) \<and> oget w ''id'' = i" if "map_of ?n i = Some w" for i w
  proof (cases "new \<and> i = oget x ''id''")
    case True
    with that show ?thesis unfolding n by simp
  next
    case False
    then have "map_of ?m i = Some w" using that unfolding n by (simp only: if_False)
    from old(2) [OF this] show ?thesis by simp
  qed
  moreover have "\<exists>w. map_of ?n (oget v ''id'') = Some w \<and> \<not> newer v w" if v: "v \<in> set (vs @ [x])" for v
  proof (cases "new \<and> oget v ''id'' = oget x ''id''")
    case True
    have "\<not> newer v x"
    proof (cases "v = x")
      case False
      with v obtain w where w: "map_of ?m (oget v ''id'') = Some w" "\<not> newer v w" using old(3) by auto
      with True have "newer x w" by (simp add: new_def)
      from newer_step [OF this w(2)] show ?thesis .
    qed (simp add: not_newer_self)
    with True show ?thesis unfolding n by simp
  next
    case False
    show ?thesis
    proof (cases "v = x")
      case True
      with False have "\<not> new" by simp
      then obtain c where "map_of ?m (oget x ''id'') = Some c" "\<not> newer x c"
        unfolding new_def by (auto split: option.splits)
      with True \<open>\<not> new\<close> show ?thesis unfolding n by simp
    next
      case F: False
      with v obtain w where "map_of ?m (oget v ''id'') = Some w" "\<not> newer v w" using old(3) by auto
      moreover from False have "map_of ?n (oget v ''id'') = map_of ?m (oget v ''id'')"
        unfolding n by (simp only: if_False)
      ultimately show ?thesis by auto
    qed
  qed
  ultimately show ?case by blast
qed simp

text \<open>What the per-identifier selection returns: one record per identifier, none newer in the input.\<close>

lemma latest_by_id_spec:
  "distinct (map (\<lambda>w. oget w ''id'') (latest_by_id vs)) \<and> set (latest_by_id vs) \<subseteq> set vs \<and>
   (\<forall>v\<in>set vs. \<exists>w\<in>set (latest_by_id vs). oget w ''id'' = oget v ''id'' \<and> \<not> newer v w)"
proof -
  let ?m = "foldl keep_latest [] vs"
  note fold = keep_latest_fold [of vs]
  have mem: "map_of ?m (fst e) = Some (snd e)" if "e \<in> set ?m" for e
    using fold that by simp
  have ids: "oget (snd e) ''id'' = fst e" "snd e \<in> set vs" if "e \<in> set ?m" for e
    using fold mem [OF that] by blast+
  have "map (\<lambda>w. oget w ''id'') (latest_by_id vs) = map fst ?m"
    by (simp add: latest_by_id_def ids)
  moreover have "set (latest_by_id vs) \<subseteq> set vs" using ids(2) by (auto simp: latest_by_id_def)
  moreover have "\<exists>w\<in>set (latest_by_id vs). oget w ''id'' = oget v ''id'' \<and> \<not> newer v w" if v: "v \<in> set vs" for v
  proof -
    from fold v obtain w where w: "map_of ?m (oget v ''id'') = Some w" "\<not> newer v w" by blast
    then have "(oget v ''id'', w) \<in> set ?m" by (rule_tac map_of_SomeD)
    with w ids [of "(oget v ''id'', w)"] show ?thesis by (force simp: latest_by_id_def)
  qed
  ultimately show ?thesis using fold by simp
qed

subsection \<open>Properties\<close>

text \<open>
  a feature baseline shows the current version of every claim and test specification. Among the
  claims of the feature stored for the project the baseline holds exactly one per claim identifier,
  and for every stored claim the one it holds under its identifier is not older; likewise for the
  test specifications.
\<close>

theorem baseline_holds_latest_versions:
  assumes "getFeatureBaseline lc projectId featureId s = Some b"
  shows "distinct (map (\<lambda>c. oget (cv_claim c) ''id'') (fb_claims b)) \<and>
    distinct (map (\<lambda>t. oget t ''id'') (fb_testSpecs b)) \<and>
    list_all (\<lambda>c. strict_eq (oget c ''featureId'') featureId \<longrightarrow>
       list_ex (\<lambda>v. oget (cv_claim v) ''id'' = oget c ''id'' \<and> \<not> newer c (cv_claim v)) (fb_claims b))
      (project_values projectId (st_claims s)) \<and>
    list_all (\<lambda>t. strict_eq (oget t ''featureId'') featureId \<longrightarrow>
       list_ex (\<lambda>v. oget v ''id'' = oget t ''id'' \<and> \<not> newer t v) (fb_testSpecs b))
      (project_values projectId (st_testSpecs s))"
proof -
  let ?cs = "filter (\<lambda>c. strict_eq (oget c ''featureId'') featureId) (project_values projectId (st_claims s))"
  let ?ts = "filter (\<lambda>t. strict_eq (oget t ''featureId'') featureId) (project_values projectId (st_testSpecs s))"
  from assms have b: "fb_claims b = map (claim_view_of projectId s) (latest_by_id ?cs)"
    "fb_testSpecs b = latest_by_id ?ts"
    by (auto simp: getFeatureBaseline_def Let_def split: if_splits)
  have view: "cv_claim (claim_view_of projectId s c) = c" for c
    by (simp add: claim_view_of_def Let_def)
  show ?thesis
    using latest_by_id_spec [of ?cs] latest_by_id_spec [of ?ts]
    by (auto simp: b view comp_def list_all_iff list_ex_iff)
qed

definition sample_store :: store where
  "sample_store = empty_store\<lparr>
     st_features := [(store_key ''p'' (pair_key (JStr ''F'') (JNum 1)), JObj [(''id'', JStr ''F''), (''version'', JNum 1)])],
     st_claims := [(store_key ''p'' (pair_key (JStr ''C'') (JNum 1)),
         JObj [(''id'', JStr ''C''), (''version'', JNum 1), (''featureId'', JStr ''F'')]),
       (store_key ''p'' (pair_key (JStr ''C'') (JNum 2)),
         JObj [(''id'', JStr ''C''), (''version'', JNum 2), (''featureId'', JStr ''F'')])]\<rparr>"

theorem baseline_holds_latest_versions_witness:
  "\<exists>b. getFeatureBaseline (\<lambda>_ _. 0) ''p'' (JStr ''F'') sample_store = Some b \<and>
     map (\<lambda>c. oget (cv_claim c) ''version'') (fb_claims b) = [JNum 2] \<and>
     distinct (map (\<lambda>c. oget (cv_claim c) ''id'') (fb_claims b))"
proof -
  have run: "case getFeatureBaseline (\<lambda>_ _. 0) ''p'' (JStr ''F'') sample_store of None \<Rightarrow> False
      | Some b \<Rightarrow> map (\<lambda>c. oget (cv_claim c) ''version'') (fb_claims b) = [JNum 2]"
    by code_simp
  then obtain b where b: "getFeatureBaseline (\<lambda>_ _. 0) ''p'' (JStr ''F'') sample_store = Some b"
    by (auto split: option.splits)
  with run baseline_holds_latest_versions [OF b] show ?thesis by auto
qed

text \<open>
  asking for a test specification without a version returns the newest one stored for the
  project under that identifier.
\<close>

theorem unversioned_test_spec_is_newest:
  assumes "getTestSpec projectId i JNull s = t" and "t \<noteq> JNull"
    and "numeric_versions (project_values projectId (st_testSpecs s))"
  shows "t \<in> set (project_values projectId (st_testSpecs s)) \<and> strict_eq (oget t ''id'') i \<and>
    list_all (\<lambda>u. strict_eq (oget u ''id'') i \<longrightarrow> \<not> newer u t) (project_values projectId (st_testSpecs s))"
proof -
  let ?ts = "filter (\<lambda>t. strict_eq (oget t ''id'') i) (project_values projectId (st_testSpecs s))"
  have t: "t = newest ?ts" using assms(1) by (simp add: getTestSpec_def)
  have "numeric_versions ?ts" using assms(3) by (simp add: numeric_versions_def list_all_iff)
  with newest_max [of ?ts] newest_in [of ?ts] assms(2) show ?thesis
    by (auto simp: t list_all_iff simp del: oget_simps)
qed

definition sample_test_store :: store where
  "sample_test_store = empty_store\<lparr>
     st_testSpecs := [(store_key ''p'' (pair_key (JStr ''T'') (JNum 2)), JObj [(''id'', JStr ''T''), (''version'', JNum 2)]),
       (store_key ''p'' (pair_key (JStr ''T'') (JNum 1)), JObj [(''id'', JStr ''T''), (''version'', JNum 1)])]\<rparr>"

theorem unversioned_test_spec_is_newest_witness:
  "oget (getTestSpec ''p'' (JStr ''T'') JNull sample_test_store) ''version'' = JNum 2 \<and>
   getTestSpec ''p'' (JStr ''T'') JNull sample_test_store \<in> set (project_values ''p'' (st_testSpecs sample_test_store))"
proof -
  have "oget (getTestSpec ''p'' (JStr ''T'') JNull sample_test_store) ''version'' = JNum 2"
    "getTestSpec ''p'' (JStr ''T'') JNull sample_test_store \<noteq> JNull"
    "numeric_versions (project_values ''p'' (st_testSpecs sample_test_store))"
    by code_simp+
  then show ?thesis using unversioned_test_spec_is_newest [OF refl] by blast
qed

end
