(* ===== verification/Store_Properties.thy ===== *)
theory Store_Properties
  imports Store_Queries "HOL-Library.Sublist"
begin

section \<open>What the store guarantees\<close>

text \<open>
  The contract of an append-only collection of immutable records as a locale, its interpretations on
  the operations of the store, and the store as a transition system: one rule per operation,
  persistence of every record, referential integrity, which every step preserves, and isolation of
  projects. \<open>Governed_Store\<close> concludes over whole runs, with the operations of \<open>Mapping_Store\<close>.
\<close>

subsection \<open>The contract of an immutable collection\<close>

locale immutable_records =
  fixes lookup :: "'s \<Rightarrow> 'k \<Rightarrow> 'v option"
    and key_of :: "'v \<Rightarrow> 'k"
    and append :: "'v \<Rightarrow> 's \<Rightarrow> 's res"
    and same :: "'v \<Rightarrow> 'v \<Rightarrow> bool"
  assumes append_fresh: "append v s = Inr s' \<Longrightarrow> lookup s (key_of v) = None \<Longrightarrow> lookup s' (key_of v) = Some v"
    and append_kept: "append v s = Inr s' \<Longrightarrow> lookup s (key_of v) = Some w \<Longrightarrow> s' = s \<and> same w v"
    and append_frame: "append v s = Inr s' \<Longrightarrow> k \<noteq> key_of v \<Longrightarrow> lookup s' k = lookup s k"
    and same_refl: "same v v"
begin

text \<open>A stored record stays what it is.\<close>

lemma persistent:
  assumes "append v s = Inr s'" and "lookup s k = Some w"
  shows "lookup s' k = Some w"
proof (cases "k = key_of v")
  case True
  with assms append_kept [OF assms(1)] show ?thesis by auto
qed (simp add: append_frame [OF assms(1)] assms(2))

lemma stored: "append v s = Inr s' \<Longrightarrow> \<exists>w. lookup s' (key_of v) = Some w \<and> same w v"
  by (cases "lookup s (key_of v)") (auto dest: append_fresh append_kept simp: same_refl)

text \<open>Another record under a known key is an error, and an error only.\<close>

lemma conflict: "lookup s (key_of v) = Some w \<Longrightarrow> \<not> same w v \<Longrightarrow> \<exists>e. append v s = Inl e"
  by (cases "append v s") (auto dest: append_kept)

definition append_all :: "'v list \<Rightarrow> 's \<Rightarrow> 's res" where
  "append_all vs s = foldR (\<lambda>s v. append v s) s vs"

lemma all_persistent: "append_all vs s = Inr t \<Longrightarrow> lookup s k = Some w \<Longrightarrow> lookup t k = Some w"
  unfolding append_all_def
  by (erule foldR_invariant [where I = "\<lambda>s. lookup s k = Some w"]) (auto intro: persistent)

lemma all_stored: "append_all vs s = Inr t \<Longrightarrow> v \<in> set vs \<Longrightarrow> \<exists>w. lookup t (key_of v) = Some w \<and> same w v"
proof (induction vs arbitrary: s)
  case (Cons x vs)
  from Cons.prems(1) obtain s' where s': "append x s = Inr s'" and t: "append_all vs s' = Inr t"
    by (auto simp: append_all_def bnd_eq_Inr)
  show ?case
  proof (cases "v \<in> set vs")
    case True
    with Cons.IH [OF t] show ?thesis by simp
  next
    case False
    with Cons.prems(2) stored [OF s'] all_persistent [OF t] show ?thesis by auto
  qed
qed simp

end

text \<open>Where nothing but the key decides, appending what is stored already succeeds and changes nothing.\<close>

locale replayable_records = immutable_records +
  assumes append_again: "lookup s (key_of v) = Some w \<Longrightarrow> same w v \<Longrightarrow> append v s = Inr s"
begin

lemma append_idempotent:
  assumes "append v s = Inr s'"
  shows "append v s' = Inr s'"
  using stored [OF assms] append_again by blast

lemma replay: "append_all vs s = Inr t \<Longrightarrow> append_all vs t = Inr t"
proof -
  assume t: "append_all vs s = Inr t"
  have "set ws \<subseteq> set vs \<Longrightarrow> append_all ws t = Inr t" for ws
  proof (induction ws)
    case (Cons w ws)
    then obtain u where "lookup t (key_of w) = Some u" "same u w"
      using all_stored [OF t] by auto
    then have "append w t = Inr t" by (rule append_again)
    with Cons show ?case by (simp add: append_all_def)
  qed (simp add: append_all_def)
  then show ?thesis by simp
qed

end

subsection \<open>The contract holds of the store\<close>

lemma same_record_refl [simp]: "same_record v v" and same_value_refl [simp]: "same_value v v"
  by (simp_all add: same_record_def same_value_def)

text \<open>A collection grows at its end, by a key it did not have.\<close>

lemma update_fresh: "map_of coll k = None \<Longrightarrow> AList.update k v coll = coll @ [(k, v)]"
  by (induction coll) (auto split: if_splits)

lemma put_once_cases:
  assumes "put_once same m coll k v = Inr coll'"
  obtains (kept) w where "map_of coll k = Some w" "same w v" "coll' = coll"
  | (fresh) "map_of coll k = None" "coll' = coll @ [(k, v)]"
  using assms by (auto simp: put_once_def update_fresh split: option.splits if_splits)

lemma put_once_again: "map_of coll k = Some w \<Longrightarrow> same w v \<Longrightarrow> put_once same m coll k v = Inr coll"
  by (simp add: put_once_def)

lemma put_once_map_of: "put_once same m coll k v = Inr coll' \<Longrightarrow> k' \<noteq> k \<Longrightarrow> map_of coll' k' = map_of coll k'"
  by (erule put_once_cases) (auto simp: map_add_def split: option.splits)

lemma put_once_fresh: "put_once same m coll k v = Inr coll' \<Longrightarrow> map_of coll k = None \<Longrightarrow> map_of coll' k = Some v"
  by (erule put_once_cases) (auto simp: map_add_def split: option.splits)

lemma put_once_kept: "put_once same m coll k v = Inr coll' \<Longrightarrow> map_of coll k = Some w \<Longrightarrow> coll' = coll \<and> same w v"
  by (erule put_once_cases) auto

lemmas put_once_laws = put_once_map_of put_once_fresh put_once_kept

definition next_store :: "(store \<times> jsv) res \<Rightarrow> store res" where
  "next_store r = bnd r (\<lambda>(s, _). Inr s)"

lemmas append_defs = next_store_def appendVersion_def appendSnapshotManifest_def appendFeatureVersion_def
  appendClaimScope_def appendClaim_def appendDecision_def appendFactBundle_def appendTestSpec_def
  appendEvidenceRetentionPolicy_def appendProjectFoundation_def appendBusinessProcessModel_def

interpretation manifests: replayable_records "\<lambda>s. map_of (st_manifests s)"
  "\<lambda>v. store_key p (js_string (oget v ''id''))" "\<lambda>v s. next_store (appendSnapshotManifest p v s)" same_record
  for p
  by unfold_locales (auto simp: append_defs build_simps put_once_again dest: put_once_laws)

interpretation projects: replayable_records "\<lambda>s. map_of (st_projects s)"
  "\<lambda>v. js_string (oget (oget v ''project'') ''id'')" "\<lambda>v s. next_store (appendProjectFoundation v s)" same_value
  by unfold_locales (auto simp: append_defs build_simps Let_def put_once_again dest: put_once_laws)

interpretation features: replayable_records "\<lambda>s. map_of (st_features s)"
  "\<lambda>v. store_key p (version_key v)" "\<lambda>v s. next_store (appendFeatureVersion p v s)" same_record
  for p
  by unfold_locales (auto simp: append_defs build_simps put_once_again dest: put_once_laws)

interpretation scopes: replayable_records "\<lambda>s. map_of (st_scopes s)"
  "\<lambda>v. store_key p (version_key v)" "\<lambda>v s. next_store (appendClaimScope p v s)" same_record
  for p
  by unfold_locales (auto simp: append_defs build_simps put_once_again dest: put_once_laws)

interpretation claims: immutable_records "\<lambda>s. map_of (st_claims s)"
  "\<lambda>v. store_key p (version_key v)" "\<lambda>v s. next_store (appendClaim p v s)" same_record
  for p
  by unfold_locales (auto simp: append_defs build_simps dest: put_once_laws)

interpretation decisions: immutable_records "\<lambda>s. map_of (st_decisions s)"
  "\<lambda>v. store_key p (js_string (oget v ''id''))" "\<lambda>v s. next_store (appendDecision p v s)" same_record
  for p
  by unfold_locales (auto simp: append_defs build_simps dest: put_once_laws split: option.splits)

interpretation test_specs: immutable_records "\<lambda>s. map_of (st_testSpecs s)"
  "\<lambda>v. store_key p (version_key v)" "\<lambda>v s. next_store (appendTestSpec p v s)" same_record
  for p
  by unfold_locales (auto simp: append_defs build_simps dest: put_once_laws)

interpretation fact_bundles: immutable_records "\<lambda>s. map_of (st_factBundles s)"
  "\<lambda>v. store_key p (js_string (oget v ''id''))" "\<lambda>v s. next_store (appendFactBundle p v s)" same_value
  for p
  by unfold_locales (auto simp: append_defs build_simps Let_def dest: put_once_laws split: option.splits)


subsection \<open>The store as a transition system\<close>

text \<open>One rule per operation, labelled with the project it acts for.\<close>

inductive store_step :: "string option \<Rightarrow> store \<Rightarrow> store \<Rightarrow> bool" where
  do_project: "appendProjectFoundation v s = Inr (s', r) \<Longrightarrow> store_step None s s'"
| do_template: "appendCapabilityTemplateRevision v s = Inr (s', r) \<Longrightarrow> store_step None s s'"
| do_account: "appendGlobalAccountRevision v s = Inr (s', r) \<Longrightarrow> store_step None s s'"
| do_manifest: "appendSnapshotManifest p v s = Inr (s', r) \<Longrightarrow> store_step (Some p) s s'"
| do_chain: "appendTraceChainRevision p v opts s = Inr (s', r) \<Longrightarrow> store_step (Some p) s s'"
| do_feature: "appendFeatureVersion p v s = Inr (s', r) \<Longrightarrow> store_step (Some p) s s'"
| do_scope: "appendClaimScope p v s = Inr (s', r) \<Longrightarrow> store_step (Some p) s s'"
| do_claim: "appendClaim p v s = Inr (s', r) \<Longrightarrow> store_step (Some p) s s'"
| do_decision: "appendDecision p v s = Inr (s', r) \<Longrightarrow> store_step (Some p) s s'"
| do_process_model: "appendBusinessProcessModel p v s = Inr (s', r) \<Longrightarrow> store_step (Some p) s s'"
| do_review_case: "appendDecisionReviewCase p v s = Inr (s', r) \<Longrightarrow> store_step (Some p) s s'"
| do_review_event: "appendDecisionReviewEvent p v d s = Inr (s', r) \<Longrightarrow> store_step (Some p) s s'"
| do_alias: "appendFeatureAlias p v s = Inr (s', r) \<Longrightarrow> store_step (Some p) s s'"
| do_lineage: "appendFeatureLineage p v s = Inr (s', r) \<Longrightarrow> store_step (Some p) s s'"
| do_test_spec: "appendTestSpec p v s = Inr (s', r) \<Longrightarrow> store_step (Some p) s s'"
| do_execution: "appendExecutionEvidenceBundle p v s = Inr (s', r) \<Longrightarrow> store_step (Some p) s s'"
| do_retention_policy: "appendEvidenceRetentionPolicy p v s = Inr (s', r) \<Longrightarrow> store_step (Some p) s s'"
| do_lifecycle_event: "appendEvidenceLifecycleEvent p v s = Inr (s', r) \<Longrightarrow> store_step (Some p) s s'"
| do_fact_bundle: "appendFactBundle p v s = Inr (s', r) \<Longrightarrow> store_step (Some p) s s'"

text \<open>Growth: every collection keeps its entries in place, every log keeps its rows.\<close>

definition log_extends :: "(string \<times> 'a list) list \<Rightarrow> (string \<times> 'a list) list \<Rightarrow> bool" where
  "log_extends a b \<longleftrightarrow> (\<forall>k. prefix (rows a k) (rows b k))"

definition store_extends :: "store \<Rightarrow> store \<Rightarrow> bool" where
  "store_extends s t \<longleftrightarrow>
     list_all (\<lambda>f. prefix (f s) (f t))
       [st_projects, st_capabilityTemplates, st_globalAccountRevisions, st_manifests, st_features,
        st_featureAliases, st_featureLineages, st_scopes, st_claims, st_decisions, st_businessProcessModels,
        st_decisionReviewCases, st_testSpecs, st_executions, st_evidence, st_evidenceRetentionPolicies,
        st_factBundles] \<and>
     list_all (\<lambda>f. log_extends (f s) (f t))
       [st_chains, st_decisionReviewEvents, st_decisionReviewMaterializations, st_evidenceLifecycleEvents]"

lemma put_once_prefix: "put_once same m coll k v = Inr coll' \<Longrightarrow> prefix coll coll'"
  by (erule put_once_cases) simp_all

lemma log_extends_refl [simp]: "log_extends a a"
  by (simp add: log_extends_def)

lemma log_extends_trans: "log_extends a b \<Longrightarrow> log_extends b c \<Longrightarrow> log_extends a c"
  unfolding log_extends_def by (meson prefix_order.trans)

lemma rows_update: "rows (AList.update k xs coll) k' = (if k' = k then xs else rows coll k')"
  by (simp add: rows_def update_conv')

lemma log_extends_update: "prefix (rows coll k) xs \<Longrightarrow> log_extends coll (AList.update k xs coll)"
  by (simp add: log_extends_def rows_update)

lemma append_event_cases:
  assumes "append_event m events event = Inr events'"
  obtains (kept) e where "find_by_id events event = Some e" "same_value e event" "events' = events"
  | (fresh) "find_by_id events event = None" "events' = events @ [event]"
  using assms by (auto simp: append_event_def split: option.splits if_splits)

lemma append_event_prefix: "append_event m events event = Inr events' \<Longrightarrow> prefix events events'"
  by (erule append_event_cases) simp_all

lemma store_extends_refl [simp]: "store_extends s s"
  by (simp add: store_extends_def)

lemma store_extends_trans: "store_extends s t \<Longrightarrow> store_extends t u \<Longrightarrow> store_extends s u"
  unfolding store_extends_def list_all_iff by (meson log_extends_trans prefix_order.trans)

lemma put_evidence_extends: "store_extends s (put_evidence p s item)"
  by (simp add: put_evidence_def store_extends_def update_fresh)

lemma put_all_evidence_extends: "store_extends s (foldl (put_evidence p) s items)"
  by (induction items rule: rev_induct) (auto intro: store_extends_trans put_evidence_extends)

lemmas operation_defs = append_defs appendTraceChainRevision_def appendCapabilityTemplateRevision_def
  appendGlobalAccountRevision_def appendDecisionReviewCase_def appendFeatureAlias_def
  appendFeatureLineage_def appendEvidenceLifecycleEvent_def

lemma execution_extends:
  assumes "appendExecutionEvidenceBundle p v s = Inr (s', r)"
  shows "store_extends s s'"
proof -
  from assms obtain executions evidence where
    ex: "prefix (st_executions s) executions"
    and s': "s' = foldl (put_evidence p) (s\<lparr>st_executions := executions\<rparr>) evidence"
    by (auto simp: appendExecutionEvidenceBundle_def Let_def build_simps dest: put_once_prefix
        split: option.splits)
  have "store_extends s (s\<lparr>st_executions := executions\<rparr>)" using ex by (simp add: store_extends_def)
  then show ?thesis unfolding s' using put_all_evidence_extends by (rule store_extends_trans)
qed

lemma decision_extends: "appendDecision p d s = Inr (s', r) \<Longrightarrow> store_extends s s'"
  by (auto simp: operation_defs build_simps store_extends_def dest: put_once_prefix split: option.splits)

lemma appendDecision_result: "appendDecision p d s = Inr (s1, x) \<Longrightarrow> x = d \<and> s1 = s\<lparr>st_decisions := st_decisions s1\<rparr>"
  by (auto simp: appendDecision_def build_simps split: option.splits)

lemma appendDecision_frame:
  assumes "appendDecision p d s = Inr (s1, x)"
  shows "st_decisionReviewMaterializations s1 = st_decisionReviewMaterializations s"
    "st_decisionReviewEvents s1 = st_decisionReviewEvents s"
  by (subst appendDecision_result [OF assms, THEN conjunct2], simp)+

text \<open>The run of a review event: an optional decision, the list of materialisations, the log.\<close>

lemma review_event_run:
  assumes "appendDecisionReviewEvent p v d s = Inr (s', r)"
  obtains events s1 m where
    "prefix (rows (st_decisionReviewEvents s) (store_key p (js_string (oget v ''caseId'')))) events"
    "(truthy d \<and> appendDecision p d s = Inr (s1, d)) \<or> (\<not> truthy d \<and> s1 = s)"
    "log_extends (st_decisionReviewMaterializations s) m"
    "s' = s1\<lparr>st_decisionReviewMaterializations := m, st_decisionReviewEvents :=
       AList.update (store_key p (js_string (oget v ''caseId''))) events (st_decisionReviewEvents s)\<rparr>"
proof -
  let ?k = "store_key p (js_string (oget v ''caseId''))"
  let ?ids = "\<lambda>s1. let ids = rows (st_decisionReviewMaterializations s1) ?k
    in if arr_includes ids (oget d ''id'') then ids else ids @ [oget d ''id'']"
  from assms obtain events s2 where
    ev: "append_event (''DecisionReviewEvent '' @ js_string (oget v ''id'') @ '' conflicts with an existing record'')
             (rows (st_decisionReviewEvents s) ?k) v = Inr events"
    and s2: "(if truthy d
           then bnd (appendDecision p d s) (\<lambda>(s1, _).
             let ids = rows (st_decisionReviewMaterializations s1) ?k;
                 ids' = (if arr_includes ids (oget d ''id'') then ids else ids @ [oget d ''id''])
             in Inr (s1\<lparr>st_decisionReviewMaterializations :=
                  AList.update ?k ids' (st_decisionReviewMaterializations s1)\<rparr>))
           else Inr s) = Inr s2"
    and s': "s' = s2\<lparr>st_decisionReviewEvents := AList.update ?k events (st_decisionReviewEvents s2)\<rparr>"
    by (auto simp: appendDecisionReviewEvent_def Let_def bnd_eq_Inr throw_if_eq_Inr)
  note ev = append_event_prefix [OF ev]
  show thesis
  proof (cases "truthy d")
    case True
    with s2 obtain s1 x where s1: "appendDecision p d s = Inr (s1, x)"
      and s2: "s2 = s1\<lparr>st_decisionReviewMaterializations :=
        AList.update ?k (?ids s1) (st_decisionReviewMaterializations s1)\<rparr>"
      by (auto simp: bnd_eq_Inr Let_def)
    from appendDecision_result [OF s1] have x: "x = d" and eq: "s1 = s\<lparr>st_decisions := st_decisions s1\<rparr>" by auto
    have same: "st_decisionReviewMaterializations s1 = st_decisionReviewMaterializations s"
      "st_decisionReviewEvents s1 = st_decisionReviewEvents s" by (subst eq, simp)+
    show thesis
    proof (rule that [OF ev])
      show "truthy d \<and> appendDecision p d s = Inr (s1, d) \<or> \<not> truthy d \<and> s1 = s" using True s1 x by simp
      show "log_extends (st_decisionReviewMaterializations s)
          (AList.update ?k (?ids s1) (st_decisionReviewMaterializations s1))"
        by (simp add: same log_extends_update Let_def)
      show "s' = s1\<lparr>st_decisionReviewMaterializations := AList.update ?k (?ids s1) (st_decisionReviewMaterializations s1),
         st_decisionReviewEvents := AList.update ?k events (st_decisionReviewEvents s)\<rparr>"
        by (simp add: s' s2 same)
    qed
  next
    case False
    show thesis
      by (rule that [OF ev, of s "st_decisionReviewMaterializations s"]) (use False s2 s' in simp_all)
  qed
qed

lemma review_event_extends:
  assumes "appendDecisionReviewEvent p v d s = Inr (s', r)"
  shows "store_extends s s'"
  using assms
proof (rule review_event_run)
  fix events s1 m
  let ?k = "store_key p (js_string (oget v ''caseId''))"
  assume ev: "prefix (rows (st_decisionReviewEvents s) ?k) events"
    and s1: "(truthy d \<and> appendDecision p d s = Inr (s1, d)) \<or> (\<not> truthy d \<and> s1 = s)"
    and m: "log_extends (st_decisionReviewMaterializations s) m"
    and s': "s' = s1\<lparr>st_decisionReviewMaterializations := m, st_decisionReviewEvents :=
       AList.update ?k events (st_decisionReviewEvents s)\<rparr>"
  have e1: "store_extends s s1" using s1 decision_extends by auto
  have "st_decisionReviewMaterializations s1 = st_decisionReviewMaterializations s"
    "st_decisionReviewEvents s1 = st_decisionReviewEvents s"
    using s1 appendDecision_frame by auto
  then have "store_extends s1 s'"
    using ev m by (simp add: s' store_extends_def log_extends_update)
  with e1 show ?thesis by (rule store_extends_trans)
qed

lemma store_step_extends: "store_step l s s' \<Longrightarrow> store_extends s s'"
proof (induction rule: store_step.induct)
  case (do_chain p v opts s s' r)
  then show ?case by (auto simp: operation_defs Let_def build_simps store_extends_def intro!: log_extends_update)
next
  case (do_lifecycle_event p v s s' r)
  then show ?case
    by (auto simp: operation_defs Let_def build_simps store_extends_def
        intro!: log_extends_update dest: append_event_prefix)
next
  case (do_decision p v s s' r)
  then show ?case by (rule decision_extends)
next
  case (do_review_event p v d s s' r)
  then show ?case by (rule review_event_extends)
next
  case (do_execution p v s s' r)
  then show ?case by (rule execution_extends)
qed (auto simp: operation_defs Let_def build_simps store_extends_def dest: put_once_prefix split: option.splits)


subsection \<open>Referential integrity\<close>

definition claim_ok :: "store \<Rightarrow> string \<Rightarrow> jsv \<Rightarrow> bool" where
  "claim_ok s k c \<longleftrightarrow> (\<exists>p. k = store_key p (version_key c) \<and> feature_exists p (oget c ''featureId'') s \<and>
     map_of (st_scopes s) (store_key p (pair_key (oget c ''scopeId'') (oget c ''scopeVersion''))) \<noteq> None)"

definition decision_ok :: "store \<Rightarrow> string \<Rightarrow> jsv \<Rightarrow> bool" where
  "decision_ok s k d \<longleftrightarrow> (\<exists>p c. k = store_key p (js_string (oget d ''id'')) \<and> claim_of p d s = Some c \<and>
     scope_matches c d)"

definition test_spec_ok :: "store \<Rightarrow> string \<Rightarrow> jsv \<Rightarrow> bool" where
  "test_spec_ok s k t \<longleftrightarrow> (\<exists>p. k = store_key p (version_key t) \<and> feature_exists p (oget t ''featureId'') s \<and>
     (\<forall>ref\<in>set (elems (oget t ''verifiesClaims'')). \<exists>c.
        map_of (st_claims s) (store_key p (version_key ref)) = Some c \<and>
        oget c ''featureId'' = oget t ''featureId''))"

definition execution_ok :: "store \<Rightarrow> string \<Rightarrow> jsv \<Rightarrow> bool" where
  "execution_ok s k r \<longleftrightarrow> (\<exists>p m. let e = oget r ''execution'' in k = store_key p (js_string (oget e ''id'')) \<and>
     map_of (st_testSpecs s) (store_key p (pair_key (oget e ''testSpecId'') (oget e ''testSpecVersion''))) \<noteq> None \<and>
     map_of (st_manifests s) (store_key p (js_string (oget e ''snapshotManifestId''))) = Some m \<and>
     oget (oget (oget m ''components'') ''deployment'') ''id'' = oget e ''deploymentId'')"

definition fact_bundle_ok :: "store \<Rightarrow> string \<Rightarrow> jsv \<Rightarrow> bool" where
  "fact_bundle_ok s k b \<longleftrightarrow> (\<exists>p m. k = store_key p (js_string (oget b ''id'')) \<and>
     map_of (st_manifests s) (store_key p (js_string (oget b ''snapshotManifestId''))) = Some m \<and>
     oget (oget (oget m ''components'') ''source'') ''id'' = oget b ''sourceComponentId'' \<and>
     oget (oget (oget m ''components'') ''source'') ''digest'' = oget b ''sourceDigest'')"

lemma claim_okI:
  "feature_exists p (oget c ''featureId'') s \<Longrightarrow>
   map_of (st_scopes s) (store_key p (pair_key (oget c ''scopeId'') (oget c ''scopeVersion''))) = Some x \<Longrightarrow>
   claim_ok s (store_key p (version_key c)) c"
  unfolding claim_ok_def by (rule exI [of _ p]) simp

lemma decision_okI:
  "claim_of p d s = Some c \<Longrightarrow> scope_matches c d \<Longrightarrow> decision_ok s (store_key p (js_string (oget d ''id''))) d"
  unfolding decision_ok_def by (rule exI [of _ p]) simp

lemma test_spec_okI:
  "feature_exists p (oget t ''featureId'') s \<Longrightarrow>
   \<forall>ref\<in>set (elems (oget t ''verifiesClaims'')). \<exists>c.
        map_of (st_claims s) (store_key p (version_key ref)) = Some c \<and> oget c ''featureId'' = oget t ''featureId'' \<Longrightarrow>
   test_spec_ok s (store_key p (version_key t)) t"
  unfolding test_spec_ok_def by (rule exI [of _ p]) simp

lemma execution_okI:
  "map_of (st_testSpecs s) (store_key p (pair_key (oget e ''testSpecId'') (oget e ''testSpecVersion''))) = Some x \<Longrightarrow>
   map_of (st_manifests s) (store_key p (js_string (oget e ''snapshotManifestId''))) = Some m \<Longrightarrow>
   oget (oget (oget m ''components'') ''deployment'') ''id'' = oget e ''deploymentId'' \<Longrightarrow>
   execution_ok s (store_key p (js_string (oget e ''id''))) (JObj [(''execution'', e), (''attestation'', a)])"
  unfolding execution_ok_def by (rule exI [of _ p]) simp

lemma fact_bundle_okI:
  "map_of (st_manifests s) (store_key p (js_string (oget b ''snapshotManifestId''))) = Some m \<Longrightarrow>
   oget (oget (oget m ''components'') ''source'') ''id'' = oget b ''sourceComponentId'' \<Longrightarrow>
   oget (oget (oget m ''components'') ''source'') ''digest'' = oget b ''sourceDigest'' \<Longrightarrow>
   fact_bundle_ok s (store_key p (js_string (oget b ''id''))) b"
  unfolding fact_bundle_ok_def by (rule exI [of _ p]) simp

lemmas ok_intros = claim_okI decision_okI test_spec_okI execution_okI fact_bundle_okI

definition entries_ok :: "(string \<Rightarrow> jsv \<Rightarrow> bool) \<Rightarrow> collection \<Rightarrow> bool" where
  "entries_ok ok coll \<longleftrightarrow> (\<forall>e\<in>set coll. ok (fst e) (snd e))"

text \<open>The stored revisions of a chain are numbered from one, without a hole.\<close>

definition numbered_revisions :: "(string \<times> jsv list) list \<Rightarrow> bool" where
  "numbered_revisions coll \<longleftrightarrow>
     (\<forall>k. map (\<lambda>r. oget r ''revision'') (rows coll k) = map (\<lambda>i. JNum (int i + 1)) [0..<length (rows coll k)])"

definition store_integrity :: "store \<Rightarrow> bool" where
  "store_integrity s \<longleftrightarrow> entries_ok (claim_ok s) (st_claims s) \<and> entries_ok (decision_ok s) (st_decisions s) \<and>
     entries_ok (test_spec_ok s) (st_testSpecs s) \<and> entries_ok (execution_ok s) (st_executions s) \<and>
     entries_ok (fact_bundle_ok s) (st_factBundles s) \<and>
     entries_ok (\<lambda>k e. oget e ''integrity'' = JStr ''VERIFIED'') (st_evidence s) \<and>
     numbered_revisions (st_chains s)"

subsubsection \<open>What is referred to stays\<close>

lemma prefix_map_of: "prefix a b \<Longrightarrow> map_of a k = Some v \<Longrightarrow> map_of b k = Some v"
  by (auto simp: prefix_def map_add_def split: option.splits)

lemma extends_lookup:
  assumes "store_extends s s'"
  shows "map_of (st_scopes s) k = Some v \<Longrightarrow> map_of (st_scopes s') k = Some v"
    "map_of (st_claims s) k = Some v \<Longrightarrow> map_of (st_claims s') k = Some v"
    "map_of (st_testSpecs s) k = Some v \<Longrightarrow> map_of (st_testSpecs s') k = Some v"
    "map_of (st_manifests s) k = Some v \<Longrightarrow> map_of (st_manifests s') k = Some v"
  using assms by (auto simp: store_extends_def intro: prefix_map_of)

lemma extends_feature: "store_extends s s' \<Longrightarrow> feature_exists p i s \<Longrightarrow> feature_exists p i s'"
  by (auto simp: store_extends_def prefix_def feature_exists_def project_values_def)

lemma claim_ok_mono:
  assumes "store_extends s s'" and "claim_ok s k v"
  shows "claim_ok s' k v"
proof -
  from assms(2) obtain p x where k: "k = store_key p (version_key v)" and
    *: "feature_exists p (oget v ''featureId'') s"
    "map_of (st_scopes s) (store_key p (pair_key (oget v ''scopeId'') (oget v ''scopeVersion''))) = Some x"
    by (auto simp: claim_ok_def)
  show ?thesis
    unfolding k by (rule claim_okI [OF extends_feature [OF assms(1) *(1)] extends_lookup(1) [OF assms(1) *(2)]])
qed

lemma decision_ok_mono:
  assumes "store_extends s s'" and "decision_ok s k v"
  shows "decision_ok s' k v"
proof -
  from assms(2) obtain p c where k: "k = store_key p (js_string (oget v ''id''))" and
    c: "claim_of p v s = Some c" "scope_matches c v"
    by (auto simp: decision_ok_def)
  from c(1) have "claim_of p v s' = Some c" unfolding claim_of_def by (rule extends_lookup(2) [OF assms(1)])
  then show ?thesis unfolding k using c(2) by (rule decision_okI)
qed

lemma test_spec_ok_mono:
  assumes "store_extends s s'" and "test_spec_ok s k v"
  shows "test_spec_ok s' k v"
proof -
  from assms(2) obtain p where k: "k = store_key p (version_key v)" and
    f: "feature_exists p (oget v ''featureId'') s" and
    refs: "\<forall>ref\<in>set (elems (oget v ''verifiesClaims'')). \<exists>c.
        map_of (st_claims s) (store_key p (version_key ref)) = Some c \<and> oget c ''featureId'' = oget v ''featureId''"
    by (auto simp: test_spec_ok_def)
  show ?thesis
    unfolding k
    by (rule test_spec_okI [OF extends_feature [OF assms(1) f]]) (use refs extends_lookup(2) [OF assms(1)] in blast)
qed

lemma execution_ok_mono:
  assumes "store_extends s s'" and "execution_ok s k v"
  shows "execution_ok s' k v"
proof -
  let ?e = "oget v ''execution''"
  from assms(2) obtain p m x where *: "k = store_key p (js_string (oget ?e ''id''))"
    "map_of (st_testSpecs s) (store_key p (pair_key (oget ?e ''testSpecId'') (oget ?e ''testSpecVersion''))) = Some x"
    "map_of (st_manifests s) (store_key p (js_string (oget ?e ''snapshotManifestId''))) = Some m"
    "oget (oget (oget m ''components'') ''deployment'') ''id'' = oget ?e ''deploymentId''"
    by (auto simp: execution_ok_def Let_def)
  show ?thesis
    unfolding execution_ok_def Let_def
    by (rule exI [of _ p], rule exI [of _ m])
      (use * extends_lookup(3) [OF assms(1) *(2)] extends_lookup(4) [OF assms(1) *(3)] in simp)
qed

lemma fact_bundle_ok_mono:
  assumes "store_extends s s'" and "fact_bundle_ok s k v"
  shows "fact_bundle_ok s' k v"
proof -
  from assms(2) obtain p m where k: "k = store_key p (js_string (oget v ''id''))" and
    m: "map_of (st_manifests s) (store_key p (js_string (oget v ''snapshotManifestId''))) = Some m" and
    src: "oget (oget (oget m ''components'') ''source'') ''id'' = oget v ''sourceComponentId''"
    "oget (oget (oget m ''components'') ''source'') ''digest'' = oget v ''sourceDigest''"
    by (auto simp: fact_bundle_ok_def)
  show ?thesis unfolding k by (rule fact_bundle_okI [OF extends_lookup(4) [OF assms(1) m] src])
qed

lemma entries_ok_grow:
  assumes "entries_ok ok coll" and "coll' = coll \<or> (\<exists>k v. coll' = coll @ [(k, v)] \<and> ok k v)"
    and "\<And>k v. ok k v \<Longrightarrow> ok' k v"
  shows "entries_ok ok' coll'"
  using assms unfolding entries_ok_def by fastforce

subsubsection \<open>Which operation touches which collection\<close>

lemma put_once_grows:
  "put_once same m coll k v = Inr coll' \<Longrightarrow> coll' = coll \<or> coll' = coll @ [(k, v)]"
  by (erule put_once_cases) simp_all

lemma put_all_evidence_frame:
  "st_claims (foldl (put_evidence p) s items) = st_claims s"
  "st_decisions (foldl (put_evidence p) s items) = st_decisions s"
  "st_testSpecs (foldl (put_evidence p) s items) = st_testSpecs s"
  "st_executions (foldl (put_evidence p) s items) = st_executions s"
  "st_factBundles (foldl (put_evidence p) s items) = st_factBundles s"
  "st_chains (foldl (put_evidence p) s items) = st_chains s"
  by (induction items arbitrary: s) (simp_all add: put_evidence_def)

lemma execution_frame:
  assumes "appendExecutionEvidenceBundle p v s = Inr (s', r)"
  shows "st_claims s' = st_claims s" "st_decisions s' = st_decisions s" "st_testSpecs s' = st_testSpecs s"
    "st_factBundles s' = st_factBundles s" "st_chains s' = st_chains s"
  using assms
  by (auto simp: appendExecutionEvidenceBundle_def Let_def build_simps put_all_evidence_frame split: option.splits)

lemma review_event_frame:
  assumes "appendDecisionReviewEvent p v d s = Inr (s', r)"
  shows "st_claims s' = st_claims s" "st_testSpecs s' = st_testSpecs s" "st_executions s' = st_executions s"
    "st_factBundles s' = st_factBundles s" "st_chains s' = st_chains s" "st_evidence s' = st_evidence s"
    "st_decisions s' = st_decisions s \<or> (\<exists>s1. appendDecision p d s = Inr (s1, d) \<and> st_decisions s' = st_decisions s1)"
proof -
  obtain s1 m e where s1: "(truthy d \<and> appendDecision p d s = Inr (s1, d)) \<or> (\<not> truthy d \<and> s1 = s)"
    and s': "s' = s1\<lparr>st_decisionReviewMaterializations := m, st_decisionReviewEvents := e\<rparr>"
    by (rule review_event_run [OF assms])
  have eq: "s1 = s\<lparr>st_decisions := st_decisions s1\<rparr>"
    using s1 appendDecision_result by auto
  show "st_claims s' = st_claims s" "st_testSpecs s' = st_testSpecs s" "st_executions s' = st_executions s"
    "st_factBundles s' = st_factBundles s" "st_chains s' = st_chains s" "st_evidence s' = st_evidence s"
    unfolding s' by (simp, subst eq, simp)+
  show "st_decisions s' = st_decisions s \<or> (\<exists>s1. appendDecision p d s = Inr (s1, d) \<and> st_decisions s' = st_decisions s1)"
    using s1 by (auto simp: s')
qed

lemma step_claims:
  "store_step l s s' \<Longrightarrow> st_claims s' = st_claims s \<or> (\<exists>k v. st_claims s' = st_claims s @ [(k, v)] \<and> claim_ok s k v)"
proof (induction rule: store_step.induct)
  case (do_claim p v s s' r)
  then show ?case
    by (auto simp: appendClaim_def appendVersion_def build_simps intro!: ok_intros dest!: put_once_grows)
qed (auto simp: operation_defs Let_def build_simps execution_frame review_event_frame split: option.splits)

lemma decision_grows:
  assumes "appendDecision p d s = Inr (s', r)"
  shows "st_decisions s' = st_decisions s \<or> (\<exists>k v. st_decisions s' = st_decisions s @ [(k, v)] \<and> decision_ok s k v)"
  using assms
  by (auto simp: appendDecision_def appendVersion_def build_simps split: option.splits
      dest!: put_once_grows intro: ok_intros)

lemma step_decisions:
  "store_step l s s' \<Longrightarrow>
   st_decisions s' = st_decisions s \<or> (\<exists>k v. st_decisions s' = st_decisions s @ [(k, v)] \<and> decision_ok s k v)"
proof (induction rule: store_step.induct)
  case (do_decision p v s s' r)
  then show ?case by (rule decision_grows)
next
  case (do_review_event p v d s s' r)
  from review_event_frame(7) [OF this] show ?case
  proof (elim disjE exE conjE)
    fix s1 assume "appendDecision p d s = Inr (s1, d)" and "st_decisions s' = st_decisions s1"
    with decision_grows [OF this(1)] show ?case by simp
  qed simp
qed (auto simp: operation_defs Let_def build_simps execution_frame split: option.splits)

lemma claim_refs_checked:
  "foldR (check_claim_ref p t s) () refs = Inr () \<Longrightarrow>
   \<forall>ref\<in>set refs. \<exists>c. map_of (st_claims s) (store_key p (version_key ref)) = Some c \<and>
     oget c ''featureId'' = oget t ''featureId''"
  by (induction refs)
     (auto simp: check_claim_ref_def Let_def build_simps dest: strict_eqD split: option.splits)

lemma array_elems_Inr: "array_elems v = Inr xs \<Longrightarrow> xs = elems v"
  by (cases v) auto

lemma step_test_specs:
  "store_step l s s' \<Longrightarrow>
   st_testSpecs s' = st_testSpecs s \<or> (\<exists>k v. st_testSpecs s' = st_testSpecs s @ [(k, v)] \<and> test_spec_ok s k v)"
proof (induction rule: store_step.induct)
  case (do_test_spec p v s s' r)
  then show ?case
    by (auto simp: appendTestSpec_def appendVersion_def build_simps
        dest!: put_once_grows claim_refs_checked array_elems_Inr intro!: ok_intros)
qed (auto simp: operation_defs Let_def build_simps execution_frame review_event_frame split: option.splits)

lemma step_executions:
  "store_step l s s' \<Longrightarrow>
   st_executions s' = st_executions s \<or> (\<exists>k v. st_executions s' = st_executions s @ [(k, v)] \<and> execution_ok s k v)"
proof (induction rule: store_step.induct)
  case (do_execution p v s s' r)
  then show ?case
    by (auto simp: appendExecutionEvidenceBundle_def build_simps Let_def put_all_evidence_frame
        split: option.splits dest!: put_once_grows strict_eqD intro: ok_intros)
qed (auto simp: operation_defs Let_def build_simps review_event_frame split: option.splits)

lemma step_fact_bundles:
  "store_step l s s' \<Longrightarrow>
   st_factBundles s' = st_factBundles s \<or> (\<exists>k v. st_factBundles s' = st_factBundles s @ [(k, v)] \<and> fact_bundle_ok s k v)"
proof (induction rule: store_step.induct)
  case (do_fact_bundle p v s s' r)
  then show ?case
    by (auto simp: appendFactBundle_def build_simps Let_def
        split: option.splits dest!: put_once_grows strict_eqD intro: ok_intros)
qed (auto simp: operation_defs Let_def build_simps execution_frame review_event_frame split: option.splits)


lemma verified_item_integrity: "oget (verified_item item) ''integrity'' = JStr ''VERIFIED''"
  by (simp add: verified_item_def map_of_spread)

lemma put_evidence_verified:
  "entries_ok (\<lambda>k e. oget e ''integrity'' = JStr ''VERIFIED'') (st_evidence s) \<Longrightarrow>
   entries_ok (\<lambda>k e. oget e ''integrity'' = JStr ''VERIFIED'') (st_evidence (put_evidence p s item))"
  by (simp add: put_evidence_def update_fresh entries_ok_def verified_item_integrity del: oget_simps)

lemma put_all_evidence_verified:
  "entries_ok (\<lambda>k e. oget e ''integrity'' = JStr ''VERIFIED'') (st_evidence s) \<Longrightarrow>
   entries_ok (\<lambda>k e. oget e ''integrity'' = JStr ''VERIFIED'') (st_evidence (foldl (put_evidence p) s items))"
  by (induction items rule: rev_induct) (simp_all add: put_evidence_verified)

lemma step_evidence:
  "store_step l s s' \<Longrightarrow> entries_ok (\<lambda>k e. oget e ''integrity'' = JStr ''VERIFIED'') (st_evidence s) \<Longrightarrow>
   entries_ok (\<lambda>k e. oget e ''integrity'' = JStr ''VERIFIED'') (st_evidence s')"
proof (induction rule: store_step.induct)
  case (do_execution p v s s' r)
  then obtain executions evidence where
    "s' = foldl (put_evidence p) (s\<lparr>st_executions := executions\<rparr>) evidence"
    by (auto simp: appendExecutionEvidenceBundle_def Let_def build_simps split: option.splits)
  with do_execution.prems put_all_evidence_verified [of "s\<lparr>st_executions := executions\<rparr>"] show ?case by simp
next
  case (do_review_event p v d s s' r)
  then show ?case by (simp add: review_event_frame)
qed (auto simp: operation_defs Let_def build_simps split: option.splits)

lemma numbered_append:
  assumes "numbered_revisions coll" and "oget r ''revision'' = JNum (int (length (rows coll k)) + 1)"
  shows "numbered_revisions (AList.update k (rows coll k @ [r]) coll)"
  using assms by (auto simp: numbered_revisions_def rows_update)

lemma step_chains:
  "store_step l s s' \<Longrightarrow> numbered_revisions (st_chains s) \<Longrightarrow> numbered_revisions (st_chains s')"
proof (induction rule: store_step.induct)
  case (do_chain p v opts s s' r)
  then show ?case
    by (auto simp: appendTraceChainRevision_def Let_def build_simps map_of_spread intro!: numbered_append)
qed (auto simp: operation_defs Let_def build_simps execution_frame review_event_frame split: option.splits)

lemma integrity_step:
  assumes "store_step l s s'" and "store_integrity s"
  shows "store_integrity s'"
proof -
  note ext = store_step_extends [OF assms(1)]
  note int = assms(2) [unfolded store_integrity_def]
  have "entries_ok (claim_ok s') (st_claims s')"
    by (rule entries_ok_grow [OF _ step_claims [OF assms(1)] claim_ok_mono [OF ext]]) (use int in blast)
  moreover have "entries_ok (decision_ok s') (st_decisions s')"
    by (rule entries_ok_grow [OF _ step_decisions [OF assms(1)] decision_ok_mono [OF ext]]) (use int in blast)
  moreover have "entries_ok (test_spec_ok s') (st_testSpecs s')"
    by (rule entries_ok_grow [OF _ step_test_specs [OF assms(1)] test_spec_ok_mono [OF ext]]) (use int in blast)
  moreover have "entries_ok (execution_ok s') (st_executions s')"
    by (rule entries_ok_grow [OF _ step_executions [OF assms(1)] execution_ok_mono [OF ext]]) (use int in blast)
  moreover have "entries_ok (fact_bundle_ok s') (st_factBundles s')"
    by (rule entries_ok_grow [OF _ step_fact_bundles [OF assms(1)] fact_bundle_ok_mono [OF ext]]) (use int in blast)
  moreover have "entries_ok (\<lambda>k e. oget e ''integrity'' = JStr ''VERIFIED'') (st_evidence s')"
    by (rule step_evidence [OF assms(1)]) (use int in blast)
  moreover have "numbered_revisions (st_chains s')"
    by (rule step_chains [OF assms(1)]) (use int in blast)
  ultimately show ?thesis unfolding store_integrity_def by blast
qed

lemma integrity_start: "store_integrity empty_store"
  by (simp add: store_integrity_def empty_store_def entries_ok_def numbered_revisions_def rows_def)

subsection \<open>Isolation of projects\<close>

definition nul_free :: "string \<Rightarrow> bool" where
  "nul_free p \<longleftrightarrow> CHR 0x00 \<notin> set p"

definition project_part :: "string \<Rightarrow> (string \<times> 'a) list \<Rightarrow> (string \<times> 'a) list" where
  "project_part p coll = filter (\<lambda>e. in_project p (fst e)) coll"

text \<open>All that the operations of a project can read of the store.\<close>

definition project_view :: "string \<Rightarrow> store \<Rightarrow> (string \<times> jsv) list list \<times> (string \<times> jsv list) list list" where
  "project_view p s =
     (map (\<lambda>f. project_part p (f s))
       [st_manifests, st_features, st_featureAliases, st_featureLineages, st_scopes, st_claims, st_decisions,
        st_businessProcessModels, st_decisionReviewCases, st_testSpecs, st_executions, st_evidence,
        st_evidenceHashes, st_evidenceRetentionPolicies, st_factBundles],
      map (\<lambda>f. project_part p (f s))
       [st_chains, st_decisionReviewEvents, st_decisionReviewMaterializations, st_evidenceLifecycleEvents])"

lemma in_project_key:
  assumes "nul_free p" and "nul_free q"
  shows "in_project q (store_key p i) \<longleftrightarrow> p = q"
proof
  assume "in_project q (store_key p i)"
  then obtain r where r: "p @ CHR 0x00 # i = q @ CHR 0x00 # r"
    by (auto simp: in_project_def store_key_def nul_def starts_with_iff)
  have "takeWhile (\<lambda>c. c \<noteq> CHR 0x00) (x @ CHR 0x00 # y) = x" if "nul_free x" for x y
    using that by (subst takeWhile_append2) (auto simp: nul_free_def)
  from this [OF assms(1)] this [OF assms(2)] r show "p = q" by metis
qed (auto simp: in_project_def store_key_def starts_with_iff)

lemma part_update:
  assumes "nul_free p" and "nul_free q" and "p \<noteq> q"
  shows "project_part q (AList.update (store_key p i) v coll) = project_part q coll"
  by (induction coll) (use in_project_key [OF assms(1,2), of i] assms(3) in \<open>auto simp: project_part_def\<close>)

lemma part_put_once:
  "put_once same m coll (store_key p i) v = Inr coll' \<Longrightarrow> nul_free p \<Longrightarrow> nul_free q \<Longrightarrow> p \<noteq> q \<Longrightarrow>
   project_part q coll' = project_part q coll"
  by (auto simp: put_once_def part_update split: option.splits if_splits)

lemma view_put_evidence:
  "nul_free p \<Longrightarrow> nul_free q \<Longrightarrow> p \<noteq> q \<Longrightarrow> project_view q (foldl (put_evidence p) s items) = project_view q s"
  by (induction items rule: rev_induct)
     (simp_all add: put_evidence_def project_view_def part_update evidence_key_def hash_key_def)

lemma view_decision:
  "appendDecision p d s = Inr (s1, x) \<Longrightarrow> nul_free p \<Longrightarrow> nul_free q \<Longrightarrow> p \<noteq> q \<Longrightarrow>
   project_view q s1 = project_view q s"
  by (auto simp: appendDecision_def appendVersion_def build_simps project_view_def split: option.splits
      dest: part_put_once)

lemma view_execution:
  assumes "appendExecutionEvidenceBundle p v s = Inr (s', r)" and "nul_free p" "nul_free q" "p \<noteq> q"
  shows "project_view q s' = project_view q s"
proof -
  from assms(1) obtain executions evidence where
    ex: "put_once same_value (''TestExecution '' @ js_string (oget (oget v ''execution'') ''id'') @ '' conflicts with an existing record'')
             (st_executions s) (store_key p (js_string (oget (oget v ''execution'') ''id'')))
             (JObj [(''execution'', oget v ''execution''), (''attestation'', oget v ''attestation'')]) = Inr executions"
    and s': "s' = foldl (put_evidence p) (s\<lparr>st_executions := executions\<rparr>) evidence"
    by (auto simp: appendExecutionEvidenceBundle_def Let_def build_simps split: option.splits)
  show ?thesis
    unfolding s' view_put_evidence [OF assms(2-4)]
    using part_put_once [OF ex assms(2-4)] by (simp add: project_view_def)
qed

lemma view_review_event:
  assumes "appendDecisionReviewEvent p v d s = Inr (s', r)" and "nul_free p" "nul_free q" "p \<noteq> q"
  shows "project_view q s' = project_view q s"
proof -
  let ?k = "store_key p (js_string (oget v ''caseId''))"
  have upd: "project_view q (t\<lparr>st_decisionReviewEvents := AList.update ?k x (st_decisionReviewEvents t)\<rparr>) = project_view q t"
    "project_view q (t\<lparr>st_decisionReviewMaterializations := AList.update ?k x (st_decisionReviewMaterializations t)\<rparr>)
      = project_view q t" for t x
    by (simp_all add: project_view_def part_update [OF assms(2-4)])
  from assms(1) obtain s2 x where
    s2: "(if truthy d
           then bnd (appendDecision p d s) (\<lambda>(s1, _).
             let ids = rows (st_decisionReviewMaterializations s1) ?k;
                 ids' = (if arr_includes ids (oget d ''id'') then ids else ids @ [oget d ''id''])
             in Inr (s1\<lparr>st_decisionReviewMaterializations :=
                  AList.update ?k ids' (st_decisionReviewMaterializations s1)\<rparr>))
           else Inr s) = Inr s2"
    and s': "s' = s2\<lparr>st_decisionReviewEvents := AList.update ?k x (st_decisionReviewEvents s2)\<rparr>"
    by (auto simp: appendDecisionReviewEvent_def Let_def bnd_eq_Inr throw_if_eq_Inr)
  have "project_view q s2 = project_view q s"
    using s2 view_decision [OF _ assms(2-4)]
    by (auto simp: bnd_eq_Inr Let_def upd split: if_split_asm)
  then show ?thesis by (simp add: s' upd)
qed

lemma step_isolated:
  "store_step l s s' \<Longrightarrow> l = Some p \<Longrightarrow> nul_free p \<Longrightarrow> nul_free q \<Longrightarrow> p \<noteq> q \<Longrightarrow>
   project_view q s' = project_view q s"
proof (induction rule: store_step.induct)
  case (do_execution p' v s s' r)
  then show ?case by (simp add: view_execution)
next
  case (do_review_event p' v d s s' r)
  then show ?case by (simp add: view_review_event)
next
  case (do_decision p' v s s' r)
  then show ?case by (simp add: view_decision)
next
  case (do_chain p' v opts s s' r)
  then show ?case by (auto simp: appendTraceChainRevision_def Let_def build_simps project_view_def part_update)
next
  case (do_lifecycle_event p' v s s' r)
  then show ?case by (auto simp: appendEvidenceLifecycleEvent_def Let_def build_simps project_view_def part_update)
qed (auto simp: operation_defs Let_def build_simps project_view_def dest: part_put_once split: option.splits)


subsection \<open>Properties\<close>

definition sample_feature :: jsv where
  "sample_feature = JObj [(''id'', JStr ''F''), (''version'', JNum 1)]"

lemma sample_feature_stored:
  "appendFeatureVersion p sample_feature empty_store =
     Inr (empty_store\<lparr>st_features := [(store_key p (version_key sample_feature), sample_feature)]\<rparr>, sample_feature)"
  by (simp add: appendFeatureVersion_def appendVersion_def put_once_def empty_store_def)



text \<open>
  the separator is only as good as the identifiers. A feature stored for the project whose
  identifier is \<open>a\<close>, NUL, \<open>b\<close> is listed among the features of the project \<open>a\<close>, since keys are
  told apart by their prefix up to a NUL character and identifiers are only required to be non-blank.
\<close>

theorem nul_project_leaks_features:
  "requireNonEmptyString (JStr (''a'' @ nul @ ''b'')) ''projectId'' = Inr (JStr (''a'' @ nul @ ''b'')) \<and>
   (\<exists>s r. appendFeatureVersion (''a'' @ nul @ ''b'') sample_feature empty_store = Inr (s, r) \<and>
      listFeatureIds ''a'' empty_store = [] \<and> listFeatureIds ''a'' s = [JStr ''F''])"
proof (intro conjI exI)
  show "appendFeatureVersion (''a'' @ nul @ ''b'') sample_feature empty_store = Inr
     (empty_store\<lparr>st_features := [(store_key (''a'' @ nul @ ''b'') (version_key sample_feature), sample_feature)]\<rparr>, sample_feature)"
    by (rule sample_feature_stored)
qed code_simp+

text \<open>
  appending feature versions is replayable. After a sequence of feature versions was appended,
  appending the same sequence again succeeds and changes nothing, and each of them is found under
  its key up to its creation time.
\<close>

theorem feature_history_replays:
  assumes "foldR (\<lambda>s v. next_store (appendFeatureVersion p v s)) s vs = Inr t"
  shows "foldR (\<lambda>s v. next_store (appendFeatureVersion p v s)) t vs = Inr t \<and>
    list_all (\<lambda>v. \<exists>w. map_of (st_features t) (store_key p (version_key v)) = Some w \<and> same_record w v) vs"
  using features.replay [unfolded features.append_all_def, OF assms]
    features.all_stored [unfolded features.append_all_def, OF assms]
  by (simp add: list_all_iff)

theorem feature_history_replays_witness:
  "foldR (\<lambda>s v. next_store (appendFeatureVersion ''p'' v s))
     (empty_store\<lparr>st_features := [(store_key ''p'' (version_key sample_feature), sample_feature)]\<rparr>) [sample_feature]
   = Inr (empty_store\<lparr>st_features := [(store_key ''p'' (version_key sample_feature), sample_feature)]\<rparr>)"
  by (rule feature_history_replays [where s = empty_store, THEN conjunct1])
     (simp add: next_store_def sample_feature_stored)

text \<open>
  a stored claim version cannot be rewritten. Appending, under the identifier and version of a
  stored claim, a claim that differs in anything but its creation time fails.
\<close>

theorem claim_version_is_immutable:
  assumes "map_of (st_claims s) (store_key p (version_key c)) = Some old" and "\<not> same_record old c"
  shows "\<exists>e. appendClaim p c s = Inl e"
  using claims.conflict [OF assms] by (auto simp: next_store_def bnd_eq_Inl)

theorem claim_version_is_immutable_witness:
  "\<exists>e. appendClaim ''p'' (JObj [(''id'', JStr ''C''), (''version'', JNum 2), (''featureId'', JStr ''G'')]) sample_store = Inl e"
  by (rule claim_version_is_immutable
      [where old = "JObj [(''id'', JStr ''C''), (''version'', JNum 2), (''featureId'', JStr ''F'')]"]) code_simp+

end
