(* ===== verification/Application_Context.thy ===== *)
theory Application_Context
  imports Store_Properties
begin

section \<open>The context of an application operation\<close>

text \<open>
  What the operations of \<open>TraceabilityApplication\<close> (\<open>src/application/traceability-application.js\<close>) have in
  common: the resolvers the application is constructed with, which are parameters of the model, the
  identification of the reviewer, the fields only the server may set and the role test. An operation
  reads its clock once per call; the store of a call is the one its first read sees, so an operation
  is a function from store to store or an error.
\<close>

record app_env =
  ae_reviewerResolver :: "string \<Rightarrow> jsv \<Rightarrow> jsv"
  ae_reviewPolicyResolver :: "string \<Rightarrow> jsv \<Rightarrow> jsv"
  ae_actorIdentityResolver :: "jsv \<Rightarrow> jsv"
  ae_runnerKeyResolver :: "jsv \<Rightarrow> string \<Rightarrow> jsv"
  ae_scannerKeyResolver :: "jsv \<Rightarrow> string \<Rightarrow> jsv"
  ae_clock :: "int option"

definition requireId :: "jsv \<Rightarrow> string \<Rightarrow> jsv res" where
  "requireId v fieldName =
     (if \<not> is_string v \<or> js_trim (str_of v) = []
      then Inl (TypeErr (fieldName @ '' must be a non-empty string'')) else Inr v)"

text \<open>\<open>if (input === null || typeof input !== "object" || Array.isArray(input)) throw ...\<close>\<close>

definition require_input :: "jsv \<Rightarrow> string \<Rightarrow> unit res" where
  "require_input input what = throw_if (\<not> is_plain_object input) (TypeErr (what @ '' must be an object'')) (Inr ())"

text \<open>\<open>for (const field of [...]) if (Object.hasOwn(input, field)) throw ...\<close>\<close>

fun forbid_server_fields :: "jsv \<Rightarrow> string \<Rightarrow> string list \<Rightarrow> unit res" where
  "forbid_server_fields input owner [] = Inr ()"
| "forbid_server_fields input owner (f # fs) =
     throw_if (has_own input f) (TypeErr (owner @ ''.'' @ f @ '' is assigned by the server''))
       (forbid_server_fields input owner fs)"

text \<open>The authenticated reviewer of a request: the actor and the role in which it acts.\<close>

definition resolve_actor :: "jsv \<Rightarrow> (jsv \<times> jsv) res" where
  "resolve_actor reviewer =
     throw_if (\<not> truthy reviewer) (AuthenticationErr ''A trusted reviewer identity is required'') (
     bnd (requireId (oget reviewer ''actorId'') ''reviewer.actorId'') (\<lambda>actorId.
     bnd (requireId (oget reviewer ''actorRole'') ''reviewer.actorRole'') (\<lambda>actorRole.
     Inr (actorId, actorRole))))"

text \<open>\<open>Array.isArray(roles) && roles.includes(role)\<close>\<close>

definition role_allowed :: "jsv \<Rightarrow> jsv \<Rightarrow> bool" where
  "role_allowed roles role \<longleftrightarrow> is_array roles \<and> arr_includes (elems roles) role"

definition require_role :: "jsv \<Rightarrow> jsv \<Rightarrow> string \<Rightarrow> unit res" where
  "require_role roles role rest =
     throw_if (\<not> role_allowed roles role) (AuthorizationErr (''Role '' @ js_string role @ rest)) (Inr ())"

text \<open>\<open>{ ...input, ...assigned }\<close>\<close>

definition with_fields :: "jsv \<Rightarrow> (string \<times> jsv) list \<Rightarrow> jsv" where
  "with_fields input fs = JObj (spread (props input) fs)"

text \<open>\<open>Object.keys(value)\<close>\<close>

fun object_keys :: "jsv \<Rightarrow> string list res" where
  "object_keys JUndef = Inl (NativeErr ''Cannot convert undefined or null to object'')"
| "object_keys JNull = Inl (NativeErr ''Cannot convert undefined or null to object'')"
| "object_keys (JObj fs) = Inr (map fst (own_order fs))"
| "object_keys (JArr xs) = Inr (map nat_str [0..<length xs])"
| "object_keys (JStr s) = Inr (map nat_str [0..<length s])"
| "object_keys _ = Inr []"

definition assertOnlyFields :: "jsv \<Rightarrow> string list \<Rightarrow> string \<Rightarrow> unit res" where
  "assertOnlyFields v allowedFields fieldName =
     bnd (object_keys v) (\<lambda>fields.
     foldR (\<lambda>_ field. throw_if (field \<notin> set allowedFields)
       (TypeErr (fieldName @ ''.'' @ field @ '' is not supported'')) (Inr ())) () fields)"

subsection \<open>What the guards let through\<close>

lemma requireId_Inr [res_simps]:
  "requireId v f = Inr w \<longleftrightarrow> w = v \<and> (\<exists>s. v = JStr s \<and> js_trim s \<noteq> [])"
  by (cases v) (auto simp: requireId_def)

lemma require_input_Inr [res_simps]: "require_input v f = Inr u \<longleftrightarrow> is_plain_object v"
  by (auto simp: require_input_def res_simps)

lemma forbid_server_fields_Inr [res_simps]:
  "forbid_server_fields input owner fs = Inr u \<longleftrightarrow> list_all (\<lambda>f. \<not> has_own input f) fs"
  by (induction fs) (auto simp: throw_if_eq_Inr)

lemma resolve_actor_Inr:
  "resolve_actor reviewer = Inr (a, r) \<longleftrightarrow>
     truthy reviewer \<and> a = oget reviewer ''actorId'' \<and> r = oget reviewer ''actorRole'' \<and>
     (\<exists>s. a = JStr s \<and> js_trim s \<noteq> []) \<and> (\<exists>s. r = JStr s \<and> js_trim s \<noteq> [])"
  by (auto simp: resolve_actor_def throw_if_eq_Inr bnd_eq_Inr requireId_Inr)

lemma require_role_Inr [res_simps]: "require_role roles role m = Inr u \<longleftrightarrow> role_allowed roles role"
  by (auto simp: require_role_def res_simps)

lemma oget_with_fields:
  "oget (with_fields input fs) k =
     (case map_of (rev fs) k of Some v \<Rightarrow> v | None \<Rightarrow> oget (JObj (props input)) k)"
  by (simp add: with_fields_def map_of_spread map_add_def split: option.splits)

lemmas app_build_simps = build_simps require_input_Inr forbid_server_fields_Inr require_role_Inr

end
