(* ===== verification/Evidence_Lifecycle.thy ===== *)
theory Evidence_Lifecycle
  imports Governance
begin

section \<open>Retention policies and the lifecycle of evidence\<close>

text \<open>
  \<open>src/domain/evidence-lifecycle.js\<close>: the retention policy of a class of evidence, the events recorded
  for an item of evidence, and the evaluation of the item's state from its events and the time. The
  state of an item is the fold of its events; deletion is final, legal hold can be placed and released.
\<close>

subsection \<open>Policies and events\<close>

definition lifecycleActions :: "string list" where
  "lifecycleActions =
     [''ARCHIVED'', ''LEGAL_HOLD_PLACED'', ''LEGAL_HOLD_RELEASED'', ''DELETION_REQUESTED'', ''DELETED'',
      ''ACCESSED'', ''EXPORTED'']"

definition lifecycle_strings :: "bool \<Rightarrow> jsv \<Rightarrow> string \<Rightarrow> jsv list res" where
  "lifecycle_strings nonEmpty v fieldName =
     throw_if (\<not> is_array v \<or> nonEmpty \<and> elems v = [])
       (TypeErr (fieldName @ '' must be '' @ (if nonEmpty then ''a non-empty'' else ''an'') @ '' array'')) (
     bnd (string_items fieldName (elems v)) (\<lambda>result.
     throw_if (length (js_set result) \<noteq> length result)
       (TypeErr (fieldName @ '' must not contain duplicates'')) (Inr result)))"

definition createEvidenceRetentionPolicy :: "jsv \<Rightarrow> int option \<Rightarrow> jsv res" where
  "createEvidenceRetentionPolicy input now =
     bnd (requirePositiveInteger (oget input ''retentionDays'') ''evidenceRetentionPolicy.retentionDays'')
       (\<lambda>retentionDays.
     bnd (requirePositiveInteger (oget input ''archiveAfterDays'') ''evidenceRetentionPolicy.archiveAfterDays'')
       (\<lambda>archiveAfterDays.
     throw_if (num_gt archiveAfterDays retentionDays)
       (RangeErr ''evidenceRetentionPolicy.archiveAfterDays must not exceed retentionDays'') (
     mk_obj
       [(''id'', requireNonEmptyString (oget input ''id'') ''evidenceRetentionPolicy.id''),
        (''version'', requirePositiveInteger (oget input ''version'') ''evidenceRetentionPolicy.version''),
        (''dataClassification'', requireNonEmptyString (oget input ''dataClassification'')
           ''evidenceRetentionPolicy.dataClassification''),
        (''evidenceTypes'',
           bnd (lifecycle_strings True (oget input ''evidenceTypes'') ''evidenceRetentionPolicy.evidenceTypes'') (\<lambda>types.
           bnd (mapR (\<lambda>type. assertEnum EvidenceType type ''evidenceRetentionPolicy.evidenceType'') types) (\<lambda>ts.
           Inr (JArr ts)))),
        (''retentionDays'', Inr retentionDays),
        (''archiveAfterDays'', Inr archiveAfterDays),
        (''legalHoldDefault'', Inr (JBool (oget input ''legalHoldDefault'' = JBool True))),
        (''allowedAccessRoles'',
           bnd (lifecycle_strings True (oget input ''allowedAccessRoles'') ''evidenceRetentionPolicy.allowedAccessRoles'')
             (\<lambda>roles. Inr (JArr roles))),
        (''actorId'', requireNonEmptyString (oget input ''actorId'') ''evidenceRetentionPolicy.actorId''),
        (''actorRole'', requireNonEmptyString (oget input ''actorRole'') ''evidenceRetentionPolicy.actorRole''),
        (''createdAt'', created_at input now)])))"

text \<open>The proof of deletion, which exactly a \<open>DELETED\<close> event carries.\<close>

definition check_deletion_proof :: "jsv \<Rightarrow> jsv \<Rightarrow> unit res" where
  "check_deletion_proof action deletionProof =
     (if action = JStr ''DELETED'' then
        throw_if (\<not> is_plain_object deletionProof \<or>
                  \<not> is_sha256_digest (js_string (coalesce (oget deletionProof ''proofHash'') (JStr []))) \<or>
                  \<not> is_string (oget deletionProof ''storageProvider'') \<or>
                  js_trim (str_of (oget deletionProof ''storageProvider'')) = [])
          (TypeErr ''DELETED requires deletionProof.proofHash and storageProvider'') (Inr ())
      else throw_if (deletionProof \<noteq> JNull) (TypeErr ''deletionProof is only valid for DELETED'') (Inr ()))"

definition createEvidenceLifecycleEvent :: "jsv \<Rightarrow> int option \<Rightarrow> jsv res" where
  "createEvidenceLifecycleEvent input now =
     bnd (requireNonEmptyString (oget input ''action'') ''evidenceLifecycleEvent.action'') (\<lambda>action.
     throw_if (str_of action \<notin> set lifecycleActions)
       (TypeErr (''Unsupported Evidence lifecycle action: '' @ str_of action)) (
     let deletionProof = coalesce (oget input ''deletionProof'') JNull in
     bnd (check_deletion_proof action deletionProof) (\<lambda>_.
     bnd (if nullish (oget input ''occurredAt'') then now_iso now else Inr (oget input ''occurredAt'')) (\<lambda>occurredAt.
     bnd (requireIsoTimestamp occurredAt ''evidenceLifecycleEvent.occurredAt'') (\<lambda>_.
     mk_obj
       [(''id'', requireNonEmptyString (oget input ''id'') ''evidenceLifecycleEvent.id''),
        (''evidenceId'', requireNonEmptyString (oget input ''evidenceId'') ''evidenceLifecycleEvent.evidenceId''),
        (''policyId'', requireNonEmptyString (oget input ''policyId'') ''evidenceLifecycleEvent.policyId''),
        (''policyVersion'', requirePositiveInteger (oget input ''policyVersion'') ''evidenceLifecycleEvent.policyVersion''),
        (''action'', Inr action),
        (''reason'', requireNonEmptyString (oget input ''reason'') ''evidenceLifecycleEvent.reason''),
        (''actorId'', requireNonEmptyString (oget input ''actorId'') ''evidenceLifecycleEvent.actorId''),
        (''actorRole'', requireNonEmptyString (oget input ''actorRole'') ''evidenceLifecycleEvent.actorRole''),
        (''deletionProof'', Inr deletionProof),
        (''occurredAt'', Inr occurredAt)])))))"

subsection \<open>Evaluation\<close>

record lifecycle_flags =
  lf_legalHold :: bool
  lf_archived :: bool
  lf_deletionRequested :: bool
  lf_deleted :: bool

definition action_is :: "jsv \<Rightarrow> string \<Rightarrow> bool" where
  "action_is event name \<longleftrightarrow> oget event ''action'' = JStr name"

text \<open>The body of the loop over the events. The default of a policy is a boolean its constructor made.\<close>

definition lifecycle_step :: "lifecycle_flags \<Rightarrow> jsv \<Rightarrow> lifecycle_flags" where
  "lifecycle_step st event =
     \<lparr>lf_legalHold = (if action_is event ''LEGAL_HOLD_PLACED'' then True
                     else if action_is event ''LEGAL_HOLD_RELEASED'' then False else lf_legalHold st),
      lf_archived = (lf_archived st \<or> action_is event ''ARCHIVED''),
      lf_deletionRequested = (lf_deletionRequested st \<or> action_is event ''DELETION_REQUESTED''),
      lf_deleted = (lf_deleted st \<or> action_is event ''DELETED'')\<rparr>"

definition lifecycle_flags_of :: "jsv \<Rightarrow> jsv list \<Rightarrow> lifecycle_flags" where
  "lifecycle_flags_of policy events =
     foldl lifecycle_step
       \<lparr>lf_legalHold = (oget policy ''legalHoldDefault'' = JBool True), lf_archived = False,
        lf_deletionRequested = False, lf_deleted = False\<rparr> events"

definition lifecycle_status :: "lifecycle_flags \<Rightarrow> int option \<Rightarrow> int option \<Rightarrow> int option \<Rightarrow> string" where
  "lifecycle_status st now archiveDueAt retentionEndsAt =
     (if lf_deleted st then ''DELETED''
      else if lf_legalHold st \<and> lf_deletionRequested st then ''DELETION_BLOCKED_LEGAL_HOLD''
      else if lf_deletionRequested st \<or> time_le retentionEndsAt now then ''DELETION_DUE''
      else if lf_archived st then ''ARCHIVED''
      else if time_le archiveDueAt now then ''ARCHIVE_DUE'' else ''ACTIVE'')"

text \<open>\<open>createdAt + days * 86_400_000\<close>, where the day counts of a policy are integers\<close>

definition plus_days :: "int option \<Rightarrow> jsv \<Rightarrow> int option" where
  "plus_days t days = (case (t, days) of (Some ms, JNum d) \<Rightarrow> Some (ms + d * 86400000) | _ \<Rightarrow> None)"

record lifecycle_view =
  lv_evidenceId :: jsv
  lv_policyRef :: "jsv \<times> jsv"
  lv_status :: string
  lv_flags :: lifecycle_flags
  lv_archiveDueAt :: string
  lv_retentionEndsAt :: string
  lv_deletionProof :: jsv
  lv_accessEventCount :: nat
  lv_events :: "jsv list"
  lv_evaluatedAt :: string

definition evaluateEvidenceLifecycle :: "jsv \<Rightarrow> jsv \<Rightarrow> jsv list \<Rightarrow> int option \<Rightarrow> lifecycle_view res" where
  "evaluateEvidenceLifecycle evidence policy events now =
     bnd (pget policy ''evidenceTypes'') (\<lambda>evidenceTypes.
     bnd (array_elems evidenceTypes) (\<lambda>types.
     bnd (pget evidence ''type'') (\<lambda>type.
     throw_if (\<not> arr_includes types type)
       (TypeErr ''Retention policy does not cover this Evidence type'') (
     let st = lifecycle_flags_of policy events;
         createdAt = js_date_parse (oget evidence ''createdAt'')
     in
     bnd (to_iso_checked (plus_days createdAt (oget policy ''archiveAfterDays''))) (\<lambda>archiveDueAt.
     bnd (to_iso_checked (plus_days createdAt (oget policy ''retentionDays''))) (\<lambda>retentionEndsAt.
     bnd (to_iso_checked now) (\<lambda>evaluatedAt.
     Inr \<lparr>lv_evidenceId = oget evidence ''id'',
          lv_policyRef = (oget policy ''id'', oget policy ''version''),
          lv_status = lifecycle_status st now (date_parse archiveDueAt) (date_parse retentionEndsAt),
          lv_flags = st,
          lv_archiveDueAt = archiveDueAt,
          lv_retentionEndsAt = retentionEndsAt,
          lv_deletionProof = (case List.find (\<lambda>e. action_is e ''DELETED'') (rev events) of
             None \<Rightarrow> JNull | Some e \<Rightarrow> coalesce (oget e ''deletionProof'') JNull),
          lv_accessEventCount = length (filter (\<lambda>e. one_of [''ACCESSED'', ''EXPORTED''] (oget e ''action'')) events),
          lv_events = events,
          lv_evaluatedAt = evaluatedAt\<rparr>)))))))"

subsection \<open>The flags as a function of the log\<close>

text \<open>\<open>policy\<close>, \<open>evidence\<close> and the log determine the flags; the view only adds times to them.\<close>

lemma lifecycle_flags_snoc: "lifecycle_flags_of policy (es @ [e]) = lifecycle_step (lifecycle_flags_of policy es) e"
  by (simp add: lifecycle_flags_of_def)

lemma lifecycle_flags_Nil:
  "lifecycle_flags_of policy [] = \<lparr>lf_legalHold = (oget policy ''legalHoldDefault'' = JBool True), lf_archived = False,
     lf_deletionRequested = False, lf_deleted = False\<rparr>"
  by (simp add: lifecycle_flags_of_def)

lemma deleted_iff: "lf_deleted (lifecycle_flags_of policy es) \<longleftrightarrow> (\<exists>e\<in>set es. action_is e ''DELETED'')"
  by (induction es rule: rev_induct) (auto simp: lifecycle_flags_Nil lifecycle_flags_snoc lifecycle_step_def)

lemma requested_iff:
  "lf_deletionRequested (lifecycle_flags_of policy es) \<longleftrightarrow> (\<exists>e\<in>set es. action_is e ''DELETION_REQUESTED'')"
  by (induction es rule: rev_induct) (auto simp: lifecycle_flags_Nil lifecycle_flags_snoc lifecycle_step_def)

lemma evaluate_lifecycle_Inr:
  assumes "evaluateEvidenceLifecycle evidence policy events now = Inr v"
  shows "lv_flags v = lifecycle_flags_of policy events"
    and "lv_events v = events"
    and "lv_status v = lifecycle_status (lifecycle_flags_of policy events) now
           (date_parse (lv_archiveDueAt v)) (date_parse (lv_retentionEndsAt v))"
  using assms by (auto simp: evaluateEvidenceLifecycle_def build_simps Let_def)

lemma check_deletion_proof_not_deleted: "check_deletion_proof a p = Inr u \<Longrightarrow> a \<noteq> JStr ''DELETED'' \<Longrightarrow> p = JNull"
  by (simp add: check_deletion_proof_def throw_if_eq_Inr)

lemma createEvidenceLifecycleEvent_run:
  assumes "createEvidenceLifecycleEvent input now = Inr event"
  obtains eid pid n a where
    "oget event ''policyId'' = JStr pid" "oget input ''policyId'' = JStr pid"
    "oget event ''policyVersion'' = JNum n" "oget input ''policyVersion'' = JNum n"
    "oget event ''action'' = JStr a" "oget input ''action'' = JStr a" "a \<in> set lifecycleActions"
    "oget event ''evidenceId'' = JStr eid" "oget input ''evidenceId'' = JStr eid"
proof -
  from assms obtain action es where
    1: "requireNonEmptyString (oget input ''action'') ''evidenceLifecycleEvent.action'' = Inr action"
      "str_of action \<in> set lifecycleActions"
    and es: "mk_obj es = Inr event"
      "map_of es ''evidenceId'' = Some (requireNonEmptyString (oget input ''evidenceId'') ''evidenceLifecycleEvent.evidenceId'')"
      "map_of es ''policyId'' = Some (requireNonEmptyString (oget input ''policyId'') ''evidenceLifecycleEvent.policyId'')"
      "map_of es ''policyVersion'' = Some (requirePositiveInteger (oget input ''policyVersion'') ''evidenceLifecycleEvent.policyVersion'')"
      "map_of es ''action'' = Some (Inr action)"
    unfolding createEvidenceLifecycleEvent_def Let_def
    apply (simp only: bnd_eq_Inr throw_if_eq_Inr)
    apply (elim exE conjE)
    apply (rule that)
         apply assumption
        apply simp
       apply assumption
      apply simp_all
    done
  show thesis
    using es(2-5) [THEN mk_obj_member [OF es(1)]] 1 that
    by (auto simp: requireNonEmptyString_Inr requirePositiveInteger_Inr)
qed

lemma createEvidenceRetentionPolicy_ids:
  assumes "createEvidenceRetentionPolicy input now = Inr policy"
  shows "\<exists>i n. oget policy ''id'' = JStr i \<and> oget policy ''version'' = JNum n"
proof -
  from assms obtain es where
    es: "mk_obj es = Inr policy"
      "map_of es ''id'' = Some (requireNonEmptyString (oget input ''id'') ''evidenceRetentionPolicy.id'')"
      "map_of es ''version'' = Some (requirePositiveInteger (oget input ''version'') ''evidenceRetentionPolicy.version'')"
    unfolding createEvidenceRetentionPolicy_def
    apply (simp only: bnd_eq_Inr throw_if_eq_Inr)
    apply (elim exE conjE)
    apply (rule that)
      apply assumption
     apply simp_all
    done
  show ?thesis
    using es(2,3) [THEN mk_obj_member [OF es(1)]]
    by (auto simp: requireNonEmptyString_Inr requirePositiveInteger_Inr)
qed

subsection \<open>The abstract state machine\<close>

text \<open>
  What the lifecycle promises: nothing happens after deletion, and deletion needs a request and no
  legal hold. The operations on the log are shown to refine it in the theory of the application.
\<close>

inductive retention_step :: "lifecycle_flags \<Rightarrow> string \<Rightarrow> lifecycle_flags \<Rightarrow> bool" where
  ret_place: "\<not> lf_deleted f \<Longrightarrow> retention_step f ''LEGAL_HOLD_PLACED'' (f\<lparr>lf_legalHold := True\<rparr>)"
| ret_release: "\<not> lf_deleted f \<Longrightarrow> retention_step f ''LEGAL_HOLD_RELEASED'' (f\<lparr>lf_legalHold := False\<rparr>)"
| ret_archive: "\<not> lf_deleted f \<Longrightarrow> retention_step f ''ARCHIVED'' (f\<lparr>lf_archived := True\<rparr>)"
| ret_request: "\<not> lf_deleted f \<Longrightarrow> retention_step f ''DELETION_REQUESTED'' (f\<lparr>lf_deletionRequested := True\<rparr>)"
| ret_delete: "\<not> lf_deleted f \<Longrightarrow> \<not> lf_legalHold f \<Longrightarrow> lf_deletionRequested f \<Longrightarrow>
    retention_step f ''DELETED'' (f\<lparr>lf_deleted := True\<rparr>)"
| ret_use: "\<not> lf_deleted f \<Longrightarrow> a \<in> {''ACCESSED'', ''EXPORTED''} \<Longrightarrow> retention_step f a f"

inductive_cases retention_deletedE: "retention_step f ''DELETED'' g"

lemma retention_step_alive: "retention_step f a g \<Longrightarrow> \<not> lf_deleted f"
  by (cases rule: retention_step.cases) auto

text \<open>The step of the evaluation loop is the abstract step wherever the guards let the event pass.\<close>

lemma lifecycle_step_refines:
  assumes "oget e ''action'' = JStr a" "a \<in> set lifecycleActions" "\<not> lf_deleted f"
    and "a = ''DELETED'' \<Longrightarrow> \<not> lf_legalHold f \<and> lf_deletionRequested f"
  shows "retention_step f a (lifecycle_step f e)"
proof -
  have step: "lifecycle_step f e = \<lparr>lf_legalHold = (if a = ''LEGAL_HOLD_PLACED'' then True
        else if a = ''LEGAL_HOLD_RELEASED'' then False else lf_legalHold f),
      lf_archived = (lf_archived f \<or> a = ''ARCHIVED''),
      lf_deletionRequested = (lf_deletionRequested f \<or> a = ''DELETION_REQUESTED''),
      lf_deleted = (lf_deleted f \<or> a = ''DELETED'')\<rparr>"
    using assms(1) by (simp add: lifecycle_step_def action_is_def)
  have "a = ''ARCHIVED'' \<or> a = ''LEGAL_HOLD_PLACED'' \<or> a = ''LEGAL_HOLD_RELEASED'' \<or> a = ''DELETION_REQUESTED'' \<or>
      a = ''DELETED'' \<or> a = ''ACCESSED'' \<or> a = ''EXPORTED''"
    using assms(2) by (simp only: lifecycleActions_def list.set insert_iff empty_iff simp_thms)
  then show ?thesis
  proof (elim disjE)
    assume a: "a = ''ARCHIVED''"
    then have "lifecycle_step f e = f\<lparr>lf_archived := True\<rparr>" unfolding step by simp
    with ret_archive [OF assms(3)] a show ?thesis by simp
  next
    assume a: "a = ''LEGAL_HOLD_PLACED''"
    then have "lifecycle_step f e = f\<lparr>lf_legalHold := True\<rparr>" unfolding step by simp
    with ret_place [OF assms(3)] a show ?thesis by simp
  next
    assume a: "a = ''LEGAL_HOLD_RELEASED''"
    then have "lifecycle_step f e = f\<lparr>lf_legalHold := False\<rparr>" unfolding step by simp
    with ret_release [OF assms(3)] a show ?thesis by simp
  next
    assume a: "a = ''DELETION_REQUESTED''"
    then have "lifecycle_step f e = f\<lparr>lf_deletionRequested := True\<rparr>" unfolding step by simp
    with ret_request [OF assms(3)] a show ?thesis by simp
  next
    assume a: "a = ''DELETED''"
    then have "lifecycle_step f e = f\<lparr>lf_deleted := True\<rparr>" unfolding step by simp
    with ret_delete [OF assms(3)] assms(4) a show ?thesis by simp
  next
    assume a: "a = ''ACCESSED''"
    then have "lifecycle_step f e = f" unfolding step by simp
    with ret_use [OF assms(3)] a show ?thesis by simp
  next
    assume a: "a = ''EXPORTED''"
    then have "lifecycle_step f e = f" unfolding step by simp
    with ret_use [OF assms(3)] a show ?thesis by simp
  qed
qed

end
