(* ===== verification/Evidence_Governance.thy ===== *)
theory Evidence_Governance
  imports Application_Context Evidence_Lifecycle
begin

section \<open>Governing the lifecycle of evidence\<close>

text \<open>
  The operations of \<open>TraceabilityApplication\<close> on retention policies and lifecycle events, from the
  route arguments to the store: authentication, role checks, the evaluation of the current state and
  the guards that keep deletion behind a request and outside a legal hold.
\<close>

subsection \<open>The operations\<close>

definition app_appendEvidenceRetentionPolicy ::
  "app_env \<Rightarrow> string \<Rightarrow> jsv \<Rightarrow> jsv \<Rightarrow> store \<Rightarrow> (store \<times> jsv) res" where
  "app_appendEvidenceRetentionPolicy env projectId input requestContext s =
     bnd (requireId (JStr projectId) ''projectId'') (\<lambda>_.
     bnd (require_input input ''Evidence retention policy input'') (\<lambda>_.
     bnd (forbid_server_fields input ''evidenceRetentionPolicy'' [''actorId'', ''actorRole'', ''createdAt'']) (\<lambda>_.
     let reviewer = ae_reviewerResolver env projectId requestContext in
     bnd (resolve_actor reviewer) (\<lambda>(actorId, actorRole).
     let governance = coalesce (ae_reviewPolicyResolver env projectId
           (JObj [(''reviewer'', reviewer), (''evidenceRetentionPolicyInput'', input)])) (JObj []) in
     bnd (require_role (oget governance ''allowedEvidenceLifecycleRoles'') actorRole '' cannot govern Evidence lifecycle'') (\<lambda>_.
     bnd (createEvidenceRetentionPolicy (with_fields input [(''actorId'', actorId), (''actorRole'', actorRole)])
            (ae_clock env)) (\<lambda>policy.
     bnd (appendEvidenceRetentionPolicy projectId policy s) (\<lambda>(s', _).
     Inr (s', policy))))))))"

text \<open>The events of an item that were recorded under the given policy.\<close>

definition policy_events :: "jsv \<Rightarrow> jsv list \<Rightarrow> jsv list" where
  "policy_events policy events =
     filter (\<lambda>e. strict_eq (oget e ''policyId'') (oget policy ''id'') \<and>
                 strict_eq (oget e ''policyVersion'') (oget policy ''version'')) events"

definition app_getEvidenceLifecycle ::
  "app_env \<Rightarrow> string \<Rightarrow> string \<Rightarrow> jsv \<Rightarrow> jsv \<Rightarrow> store \<Rightarrow> lifecycle_view option res" where
  "app_getEvidenceLifecycle env projectId evidenceId policyId policyVersion s =
     bnd (requireId (JStr projectId) ''projectId'') (\<lambda>_.
     bnd (requireId (JStr evidenceId) ''evidenceId'') (\<lambda>_.
     bnd (requireId policyId ''policyId'') (\<lambda>_.
     let evidence = getEvidence projectId evidenceId s;
         policy = getEvidenceRetentionPolicy projectId policyId policyVersion s;
         events = listEvidenceLifecycleEvents projectId evidenceId s
     in if \<not> truthy evidence \<or> \<not> truthy policy then Inr None
        else bnd (evaluateEvidenceLifecycle evidence policy (policy_events policy events) (ae_clock env))
               (\<lambda>view. Inr (Some view)))))"

text \<open>The guards on the state of the item before an event is recorded.\<close>

definition check_lifecycle_guards :: "jsv \<Rightarrow> lifecycle_flags \<Rightarrow> unit res" where
  "check_lifecycle_guards action current =
     throw_if (lf_deleted current)
       (ConflictErr ''Deleted Evidence content cannot receive further lifecycle events'') (
     throw_if (action = JStr ''DELETED'' \<and> lf_legalHold current)
       (ConflictErr ''Evidence under Legal Hold cannot be deleted'') (
     throw_if (action = JStr ''DELETED'' \<and> \<not> lf_deletionRequested current)
       (ConflictErr ''Evidence deletion requires a prior DELETION_REQUESTED event'') (Inr ())))"

definition app_appendEvidenceLifecycleEvent ::
  "app_env \<Rightarrow> string \<Rightarrow> string \<Rightarrow> jsv \<Rightarrow> jsv \<Rightarrow> store \<Rightarrow> (store \<times> lifecycle_view option) res" where
  "app_appendEvidenceLifecycleEvent env projectId evidenceId input requestContext s =
     bnd (requireId (JStr projectId) ''projectId'') (\<lambda>_.
     bnd (requireId (JStr evidenceId) ''evidenceId'') (\<lambda>_.
     bnd (require_input input ''Evidence lifecycle event input'') (\<lambda>_.
     bnd (forbid_server_fields input ''evidenceLifecycleEvent''
            [''evidenceId'', ''actorId'', ''actorRole'', ''occurredAt'']) (\<lambda>_.
     let reviewer = ae_reviewerResolver env projectId requestContext in
     bnd (resolve_actor reviewer) (\<lambda>(actorId, actorRole).
     let evidence = getEvidence projectId evidenceId s;
         policy = getEvidenceRetentionPolicy projectId (oget input ''policyId'')
           (coalesce (oget input ''policyVersion'') JNull) s
     in
     throw_if (\<not> truthy evidence) (ConflictErr (''Evidence '' @ evidenceId @ '' does not exist'')) (
     throw_if (\<not> truthy policy)
       (ConflictErr (''Evidence retention policy '' @ js_string (oget input ''policyId'') @ ''@''
          @ js_string (oget input ''policyVersion'') @ '' does not exist'')) (
     let governance = coalesce (ae_reviewPolicyResolver env projectId
           (JObj [(''reviewer'', reviewer), (''evidence'', evidence), (''policy'', policy),
                  (''evidenceLifecycleEventInput'', input)])) (JObj []);
         allowed = (if one_of [''ACCESSED'', ''EXPORTED''] (oget input ''action'')
                    then oget policy ''allowedAccessRoles''
                    else oget governance ''allowedEvidenceLifecycleRoles'')
     in
     bnd (require_role allowed actorRole
            ('' cannot perform Evidence lifecycle action '' @ js_string (oget input ''action''))) (\<lambda>_.
     bnd (evaluateEvidenceLifecycle evidence policy
            (policy_events policy (listEvidenceLifecycleEvents projectId evidenceId s)) (ae_clock env)) (\<lambda>current.
     bnd (check_lifecycle_guards (oget input ''action'') (lv_flags current)) (\<lambda>_.
     bnd (createEvidenceLifecycleEvent (with_fields input
            [(''evidenceId'', JStr evidenceId), (''actorId'', actorId), (''actorRole'', actorRole)])
            (ae_clock env)) (\<lambda>event.
     bnd (appendEvidenceLifecycleEvent projectId event s) (\<lambda>(s', _).
     bnd (app_getEvidenceLifecycle env projectId evidenceId (oget policy ''id'') (oget policy ''version'') s') (\<lambda>view.
     Inr (s', view))))))))))))))"

subsection \<open>What a recorded event went through\<close>

lemma app_lifecycle_run:
  assumes "app_appendEvidenceLifecycleEvent env p eid input ctx s = Inr (s', view)"
  obtains policy current event a r where
    "policy = getEvidenceRetentionPolicy p (oget input ''policyId'') (coalesce (oget input ''policyVersion'') JNull) s"
    "truthy policy" "truthy (getEvidence p eid s)"
    "evaluateEvidenceLifecycle (getEvidence p eid s) policy
       (policy_events policy (listEvidenceLifecycleEvents p eid s)) (ae_clock env) = Inr current"
    "check_lifecycle_guards (oget input ''action'') (lv_flags current) = Inr ()"
    "createEvidenceLifecycleEvent (with_fields input
       [(''evidenceId'', JStr eid), (''actorId'', a), (''actorRole'', r)]) (ae_clock env) = Inr event"
    "appendEvidenceLifecycleEvent p event s = Inr (s', event)"
proof -
  have out: "r = event" if "appendEvidenceLifecycleEvent p event s = Inr (t, r)" for t r event
    using that by (auto simp: appendEvidenceLifecycleEvent_def Let_def throw_if_eq_Inr bnd_eq_Inr)
  from assms show thesis
    unfolding app_appendEvidenceLifecycleEvent_def Let_def
    apply (simp only: bnd_eq_Inr throw_if_eq_Inr split_paired_Ex prod.case not_not)
    apply (elim exE conjE)
    apply (rule that)
          apply (rule refl)
         apply assumption
        apply assumption
       apply assumption
      apply simp
     apply assumption
    apply (frule out)
    apply simp
    done
qed

lemma lifecycle_append_log:
  assumes "appendEvidenceLifecycleEvent p event s = Inr (s', r)" "oget event ''evidenceId'' = JStr eid"
  obtains (kept) "st_evidenceLifecycleEvents s' = st_evidenceLifecycleEvents s \<or>
      (\<forall>k. rows (st_evidenceLifecycleEvents s') k = rows (st_evidenceLifecycleEvents s) k)"
      "st_evidenceRetentionPolicies s' = st_evidenceRetentionPolicies s"
  | (fresh) "\<And>e. listEvidenceLifecycleEvents p e s' =
      (if e = eid then listEvidenceLifecycleEvents p e s @ [event] else listEvidenceLifecycleEvents p e s)"
      "st_evidenceRetentionPolicies s' = st_evidenceRetentionPolicies s"
proof -
  let ?k = "store_key p eid" and ?log = "st_evidenceLifecycleEvents s"
  from assms obtain m events where
    ev: "append_event m (rows ?log ?k) event = Inr events"
    and s': "s' = s\<lparr>st_evidenceLifecycleEvents := AList.update ?k events ?log\<rparr>"
    by (auto simp: appendEvidenceLifecycleEvent_def Let_def throw_if_eq_Inr bnd_eq_Inr)
  from ev show thesis
  proof (cases rule: append_event_cases)
    case (kept e)
    then have "\<forall>k. rows (st_evidenceLifecycleEvents s') k = rows ?log k" by (simp add: s' rows_update)
    then show thesis by (intro that(1)) (simp_all add: s')
  next
    case fresh
    then show thesis
      by (intro that(2)) (auto simp: s' listEvidenceLifecycleEvents_def rows_update store_key_def)
  qed
qed

text \<open>The identifiers of a policy, as its constructor makes them, determine its key in the store.\<close>

definition typed_ids :: "jsv \<Rightarrow> bool" where
  "typed_ids v \<longleftrightarrow> (\<exists>i n. oget v ''id'' = JStr i \<and> oget v ''version'' = JNum n)"

lemma nul_not_in_int_str: "CHR 0x00 \<notin> set (int_str n)"
proof
  assume "CHR 0x00 \<in> set (int_str n)"
  with int_str_num_chars [of n] have "num_char (CHR 0x00)" by (auto simp: list_all_iff)
  then show False by (simp add: num_char_def is_digit_def)
qed

lemma takeWhile_before: "z \<notin> set xs \<Longrightarrow> takeWhile (\<lambda>x. x \<noteq> z) (xs @ z # ys) = xs"
  by (induction xs) auto

lemma append_nul_inject:
  assumes "a @ nul @ b = c @ nul @ d" "CHR 0x00 \<notin> set b" "CHR 0x00 \<notin> set d"
  shows "a = c \<and> b = d"
proof -
  have eq: "rev b @ CHR 0x00 # rev a = rev d @ CHR 0x00 # rev c"
    using arg_cong [OF assms(1), of rev] by (simp add: nul_def)
  have "takeWhile (\<lambda>x. x \<noteq> CHR 0x00) (rev b @ CHR 0x00 # rev a) = rev b"
    by (rule takeWhile_before) (simp add: assms(2))
  moreover have "takeWhile (\<lambda>x. x \<noteq> CHR 0x00) (rev d @ CHR 0x00 # rev c) = rev d"
    by (rule takeWhile_before) (simp add: assms(3))
  ultimately have "b = d" using eq by simp
  with assms(1) show ?thesis by simp
qed

lemma pair_key_inject:
  "pair_key (JStr i) (JNum n) = pair_key (JStr j) (JNum m) \<longleftrightarrow> i = j \<and> n = m"
  by (auto simp: pair_key_def dest!: append_nul_inject [OF _ nul_not_in_int_str nul_not_in_int_str] simp: int_str_inj)

subsection \<open>The runs of a governed project\<close>

text \<open>
  The stores a project reaches when its retention policies and lifecycle events go through the
  application; any other operation of the store may come between.
\<close>

inductive governed :: "string \<Rightarrow> store \<Rightarrow> bool" for p where
  gov_start: "st_evidenceLifecycleEvents s = [] \<Longrightarrow> st_evidenceRetentionPolicies s = [] \<Longrightarrow> governed p s"
| gov_policy: "governed p s \<Longrightarrow> app_appendEvidenceRetentionPolicy env p input ctx s = Inr (s', policy) \<Longrightarrow> governed p s'"
| gov_event: "governed p s \<Longrightarrow> app_appendEvidenceLifecycleEvent env p eid input ctx s = Inr (s', view) \<Longrightarrow> governed p s'"
| gov_other: "governed p s \<Longrightarrow> store_step l s s' \<Longrightarrow>
    st_evidenceLifecycleEvents s' = st_evidenceLifecycleEvents s \<Longrightarrow>
    st_evidenceRetentionPolicies s' = st_evidenceRetentionPolicies s \<Longrightarrow> governed p s'"

definition policies_typed :: "string \<Rightarrow> store \<Rightarrow> bool" where
  "policies_typed p s \<longleftrightarrow> (\<forall>k v. map_of (st_evidenceRetentionPolicies s) k = Some v \<longrightarrow>
     typed_ids v \<and> k = store_key p (version_key v))"

text \<open>The policy that an event names.\<close>

definition policy_of :: "string \<Rightarrow> store \<Rightarrow> jsv \<Rightarrow> jsv option" where
  "policy_of p s e = map_of (st_evidenceRetentionPolicies s)
     (store_key p (pair_key (oget e ''policyId'') (oget e ''policyVersion'')))"

text \<open>
  A deletion is lawful where it stands in a log: it happened after a request, outside a legal hold, for
  the first time, and it is the last event of its policy.
\<close>

definition lawful_deletion :: "jsv \<Rightarrow> jsv list \<Rightarrow> jsv \<Rightarrow> jsv list \<Rightarrow> bool" where
  "lawful_deletion policy pre d post \<longleftrightarrow> policy_events policy [d] = [d] \<and>
     (let f = lifecycle_flags_of policy (policy_events policy pre)
      in lf_deletionRequested f \<and> \<not> lf_legalHold f \<and> \<not> lf_deleted f) \<and>
     policy_events policy post = []"

definition lawful_log :: "string \<Rightarrow> store \<Rightarrow> jsv list \<Rightarrow> bool" where
  "lawful_log p s log \<longleftrightarrow> (\<forall>pre d post. log = pre @ d # post \<longrightarrow> action_is d ''DELETED'' \<longrightarrow>
     (\<exists>policy. policy_of p s d = Some policy \<and> lawful_deletion policy pre d post))"

lemma policy_create_run:
  assumes "app_appendEvidenceRetentionPolicy env p input ctx s = Inr (s', policy)"
  shows "typed_ids policy \<and> (\<exists>r. appendEvidenceRetentionPolicy p policy s = Inr (s', r))"
proof -
  from assms obtain i t r where 1: "createEvidenceRetentionPolicy i t = Inr policy"
    and 2: "appendEvidenceRetentionPolicy p policy s = Inr (s', r)"
    unfolding app_appendEvidenceRetentionPolicy_def Let_def
    apply (simp only: bnd_eq_Inr split_paired_Ex prod.case)
    apply (elim exE conjE)
    apply (rule that)
     apply simp_all
    done
  from createEvidenceRetentionPolicy_ids [OF 1] have "typed_ids policy" unfolding typed_ids_def .
  with 2 show ?thesis by blast
qed

lemma policy_append_policies:
  assumes "appendEvidenceRetentionPolicy p v s = Inr (s', r)"
  shows "st_evidenceLifecycleEvents s' = st_evidenceLifecycleEvents s \<and>
    put_once same_record (label_of ''EvidenceRetentionPolicy'' v @ '' conflicts with an existing immutable record'')
      (st_evidenceRetentionPolicies s) (store_key p (version_key v)) v = Inr (st_evidenceRetentionPolicies s')"
  using assms by (auto simp: appendEvidenceRetentionPolicy_def appendVersion_def bnd_eq_Inr)

lemma policies_typed_append:
  assumes "policies_typed p s" "appendEvidenceRetentionPolicy p v s = Inr (s', r)" "typed_ids v"
  shows "policies_typed p s'"
proof -
  note put = policy_append_policies [OF assms(2), THEN conjunct2]
  show ?thesis
    unfolding policies_typed_def
  proof (intro allI impI)
    fix k w assume w: "map_of (st_evidenceRetentionPolicies s') k = Some w"
    show "typed_ids w \<and> k = store_key p (version_key w)"
    proof (cases "map_of (st_evidenceRetentionPolicies s) k")
      case None
      have k: "k = store_key p (version_key v)"
      proof (rule ccontr)
        assume "k \<noteq> store_key p (version_key v)"
        from put_once_map_of [OF put this] None w show False by simp
      qed
      with put_once_fresh [OF put] None w have "w = v" by simp
      with assms(3) k show ?thesis by simp
    next
      case (Some x)
      have "prefix (st_evidenceRetentionPolicies s) (st_evidenceRetentionPolicies s')"
        by (rule put_once_prefix [OF put])
      then have "x = w" using Some w by (auto elim!: prefixE simp: map_add_def split: option.splits)
      with Some assms(1) show ?thesis by (auto simp: policies_typed_def)
    qed
  qed
qed

lemma policy_of_keeps:
  assumes "prefix (st_evidenceRetentionPolicies s) (st_evidenceRetentionPolicies s')" "policy_of p s d = Some policy"
  shows "policy_of p s' d = Some policy"
  using assms by (auto elim!: prefixE simp: policy_of_def map_add_def split: option.splits)

lemma lawful_log_keeps:
  "lawful_log p s log \<Longrightarrow> prefix (st_evidenceRetentionPolicies s) (st_evidenceRetentionPolicies s') \<Longrightarrow> lawful_log p s' log"
  unfolding lawful_log_def using policy_of_keeps by metis

lemma getEvidenceRetentionPolicy_version:
  "v \<noteq> JNull \<Longrightarrow> truthy (getEvidenceRetentionPolicy p i v s) \<Longrightarrow>
   map_of (st_evidenceRetentionPolicies s) (store_key p (pair_key i v)) = Some (getEvidenceRetentionPolicy p i v s)"
  by (auto simp: getEvidenceRetentionPolicy_def get_def split: option.splits)

text \<open>The guarded append seen from the log: nothing new, or one event its own policy admits.\<close>

lemma app_lifecycle_log:
  assumes "app_appendEvidenceLifecycleEvent env p eid input ctx s = Inr (s', view)" "policies_typed p s"
  obtains (kept) "\<And>e. listEvidenceLifecycleEvents p e s' = listEvidenceLifecycleEvents p e s"
      "st_evidenceRetentionPolicies s' = st_evidenceRetentionPolicies s"
  | (fresh) event policy a where
      "listEvidenceLifecycleEvents p eid s' = listEvidenceLifecycleEvents p eid s @ [event]"
      "\<And>e. e \<noteq> eid \<Longrightarrow> listEvidenceLifecycleEvents p e s' = listEvidenceLifecycleEvents p e s"
      "st_evidenceRetentionPolicies s' = st_evidenceRetentionPolicies s"
      "policy_of p s event = Some policy" "policy_events policy [event] = [event]"
      "oget event ''action'' = JStr a" "a \<in> set lifecycleActions"
      "check_lifecycle_guards (JStr a)
         (lifecycle_flags_of policy (policy_events policy (listEvidenceLifecycleEvents p eid s))) = Inr ()"
proof -
  from assms(1) obtain policy current event ai ar where
    pol: "policy = getEvidenceRetentionPolicy p (oget input ''policyId'') (coalesce (oget input ''policyVersion'') JNull) s"
      "truthy policy"
    and ev: "evaluateEvidenceLifecycle (getEvidence p eid s) policy
       (policy_events policy (listEvidenceLifecycleEvents p eid s)) (ae_clock env) = Inr current"
    and g: "check_lifecycle_guards (oget input ''action'') (lv_flags current) = Inr ()"
    and cr: "createEvidenceLifecycleEvent (with_fields input
       [(''evidenceId'', JStr eid), (''actorId'', ai), (''actorRole'', ar)]) (ae_clock env) = Inr event"
    and ap: "appendEvidenceLifecycleEvent p event s = Inr (s', event)"
    by (rule app_lifecycle_run)
  have obj: "is_plain_object input"
    using assms(1) unfolding app_appendEvidenceLifecycleEvent_def
    by (simp only: bnd_eq_Inr require_input_Inr) (elim exE conjE)
  then obtain fs where fs: "input = JObj fs" by (auto simp: is_plain_object_iff)
  let ?in = "with_fields input [(''evidenceId'', JStr eid), (''actorId'', ai), (''actorRole'', ar)]"
  have same: "oget ?in ''policyId'' = oget input ''policyId''"
    "oget ?in ''policyVersion'' = oget input ''policyVersion''" "oget ?in ''action'' = oget input ''action''"
    and eid_in: "oget ?in ''evidenceId'' = JStr eid"
    by (simp_all add: oget_with_fields fs)
  from cr obtain pid n a where
    e: "oget event ''policyId'' = JStr pid" "oget event ''policyVersion'' = JNum n" "oget event ''action'' = JStr a"
      "a \<in> set lifecycleActions" "oget event ''evidenceId'' = JStr eid"
    and i: "oget input ''policyId'' = JStr pid" "oget input ''policyVersion'' = JNum n" "oget input ''action'' = JStr a"
    by (rule createEvidenceLifecycleEvent_run) (simp add: same eid_in)
  have lk: "policy_of p s event = Some policy"
    using getEvidenceRetentionPolicy_version [of "JNum n" p "JStr pid" s] pol e(1,2) i(1,2)
    by (simp add: policy_of_def)
  with assms(2) have t: "typed_ids policy" and k: "store_key p (pair_key (JStr pid) (JNum n)) = store_key p (version_key policy)"
    using e(1,2) by (auto simp: policies_typed_def policy_of_def)
  from t k have ids: "oget policy ''id'' = JStr pid" "oget policy ''version'' = JNum n"
    by (auto simp: typed_ids_def version_key_def store_key_def pair_key_inject)
  note flags = evaluate_lifecycle_Inr(1) [OF ev]
  from ap e(5) show thesis
  proof (cases rule: lifecycle_append_log)
    case kept
    then show thesis using that(1) by (auto simp: listEvidenceLifecycleEvents_def)
  next
    case fresh
    show thesis
      by (rule that(2) [of event policy a])
         (use fresh lk e(3,4) g flags i(3) in \<open>simp_all add: policy_events_def ids e(1,2)\<close>)
  qed
qed

lemma check_lifecycle_guards_Inr:
  "check_lifecycle_guards (JStr a) f = Inr u \<longleftrightarrow>
     \<not> lf_deleted f \<and> (a = ''DELETED'' \<longrightarrow> \<not> lf_legalHold f \<and> lf_deletionRequested f)"
  by (auto simp: check_lifecycle_guards_def throw_if_def)

lemma policy_events_append [simp]: "policy_events q (xs @ ys) = policy_events q xs @ policy_events q ys"
  by (simp add: policy_events_def)

lemma snoc_eq_split:
  "log @ [x] = pre @ d # post \<longleftrightarrow> (post = [] \<and> pre = log \<and> d = x) \<or> (\<exists>post'. post = post' @ [x] \<and> log = pre @ d # post')"
  by (cases post rule: rev_cases) auto

lemma lawful_logD:
  "lawful_log p s (pre @ d # post) \<Longrightarrow> action_is d ''DELETED'' \<Longrightarrow>
   \<exists>policy. policy_of p s d = Some policy \<and> lawful_deletion policy pre d post"
  by (simp add: lawful_log_def)

lemma lawful_log_snoc:
  assumes "lawful_log p s log" "policy_of p s event = Some policy" "policy_events policy [event] = [event]"
    "oget event ''action'' = JStr a"
    and g: "check_lifecycle_guards (JStr a) (lifecycle_flags_of policy (policy_events policy log)) = Inr ()"
  shows "lawful_log p s (log @ [event])"
  unfolding lawful_log_def
proof (intro allI impI)
  fix pre d post assume eq: "log @ [event] = pre @ d # post" and d: "action_is d ''DELETED''"
  from eq consider "post = []" "pre = log" "d = event"
    | post' where "post = post' @ [event]" "log = pre @ d # post'" by (auto simp: snoc_eq_split)
  then show "\<exists>policy. policy_of p s d = Some policy \<and> lawful_deletion policy pre d post"
  proof cases
    case 1
    then have "a = ''DELETED''" using d assms(4) by (simp add: action_is_def)
    then have "lawful_deletion policy pre d post"
      using 1 assms(3) g by (simp add: lawful_deletion_def check_lifecycle_guards_Inr Let_def policy_events_def)
    with 1 assms(2) show ?thesis by blast
  next
    case 2
    from assms(1) [unfolded 2(2)] d obtain q where q: "policy_of p s d = Some q" "lawful_deletion q pre d post'"
      using lawful_logD by blast
    have "policy_events q [event] = []"
    proof (rule ccontr)
      assume "policy_events q [event] \<noteq> []"
      then have ids: "oget event ''policyId'' = oget d ''policyId''" "oget event ''policyVersion'' = oget d ''policyVersion''"
        using q(2) by (auto simp: policy_events_def lawful_deletion_def split: if_splits dest!: strict_eqD)
      have "q = policy" using q(1) assms(2) by (simp add: policy_of_def ids)
      moreover have "d \<in> set (policy_events q log)"
        using 2 q(2) by (auto simp: lawful_deletion_def policy_events_def split: if_splits)
      ultimately have "lf_deleted (lifecycle_flags_of policy (policy_events policy log))"
        using d by (auto simp: deleted_iff)
      with g show False by (simp add: check_lifecycle_guards_Inr)
    qed
    with q 2 show ?thesis by (auto simp: lawful_deletion_def)
  qed
qed

lemma governed_invariant:
  "governed p s \<Longrightarrow> policies_typed p s \<and> (\<forall>e. lawful_log p s (listEvidenceLifecycleEvents p e s))"
proof (induction rule: governed.induct)
  case (gov_start s)
  then show ?case by (simp add: policies_typed_def lawful_log_def listEvidenceLifecycleEvents_def rows_def)
next
  case (gov_policy s env input ctx s' policy)
  from policy_create_run [OF gov_policy.hyps(2)] obtain r where
    t: "typed_ids policy" and ap: "appendEvidenceRetentionPolicy p policy s = Inr (s', r)" by blast
  note put = policy_append_policies [OF ap]
  have pre: "prefix (st_evidenceRetentionPolicies s) (st_evidenceRetentionPolicies s')"
    by (rule put_once_prefix [OF put [THEN conjunct2]])
  have "listEvidenceLifecycleEvents p e s' = listEvidenceLifecycleEvents p e s" for e
    using put by (simp add: listEvidenceLifecycleEvents_def)
  with gov_policy.IH policies_typed_append [OF _ ap t] lawful_log_keeps [OF _ pre] show ?case by simp
next
  case (gov_event s env eid input ctx s' view)
  then have typed: "policies_typed p s" and law: "\<And>e. lawful_log p s (listEvidenceLifecycleEvents p e s)" by auto
  have same: "policies_typed p s' \<and> (\<forall>log. lawful_log p s log \<longrightarrow> lawful_log p s' log)"
    if "st_evidenceRetentionPolicies s' = st_evidenceRetentionPolicies s"
    using that typed lawful_log_keeps [of p s _ s'] by (simp add: policies_typed_def)
  from gov_event.hyps(2) typed show ?case
  proof (cases rule: app_lifecycle_log)
    case kept
    with law same show ?thesis by simp
  next
    case (fresh event policy a)
    have "lawful_log p s (listEvidenceLifecycleEvents p e s')" for e
      using lawful_log_snoc [OF law fresh(4-6,8)] law fresh(1,2) by (cases "e = eid") auto
    with same fresh(3) show ?thesis by blast
  qed
next
  case (gov_other s l s')
  then show ?case using lawful_log_keeps [of p s _ s']
    by (simp add: policies_typed_def listEvidenceLifecycleEvents_def)
qed

subsection \<open>Properties\<close>

text \<open>A steward, an item of evidence and the requests of a deletion, for the concrete instances below.\<close>

definition steward_env :: "int \<Rightarrow> app_env" where
  "steward_env now = \<lparr>
     ae_reviewerResolver = (\<lambda>_ _. JObj [(''actorId'', JStr ''alice''), (''actorRole'', JStr ''steward'')]),
     ae_reviewPolicyResolver = (\<lambda>_ _. JObj [(''allowedEvidenceLifecycleRoles'', JArr [JStr ''steward''])]),
     ae_actorIdentityResolver = id, ae_runnerKeyResolver = (\<lambda>_ _. JNull), ae_scannerKeyResolver = (\<lambda>_ _. JNull),
     ae_clock = Some now\<rparr>"

definition evidence_store :: store where
  "evidence_store = empty_store\<lparr>st_evidence := [(store_key ''p'' ''ev'', JObj
     [(''id'', JStr ''ev''), (''type'', JStr ''HTTP''), (''createdAt'', JStr ''2026-01-01T00:00:00.000Z'')])]\<rparr>"

definition policy_request :: "int \<Rightarrow> jsv" where
  "policy_request version = JObj
     [(''id'', JStr ''pol''), (''version'', JNum version), (''dataClassification'', JStr ''internal''),
      (''evidenceTypes'', JArr [JStr ''HTTP'']), (''retentionDays'', JNum 30), (''archiveAfterDays'', JNum 10),
      (''legalHoldDefault'', JBool False), (''allowedAccessRoles'', JArr [JStr ''steward''])]"

definition event_request :: "string \<Rightarrow> int \<Rightarrow> string \<Rightarrow> jsv \<Rightarrow> jsv" where
  "event_request i version action proof = JObj
     [(''id'', JStr i), (''policyId'', JStr ''pol''), (''policyVersion'', JNum version), (''action'', JStr action),
      (''reason'', JStr ''r''), (''deletionProof'', proof)]"

definition proof_of_deletion :: jsv where
  "proof_of_deletion = JObj [(''proofHash'', JStr (''sha256:'' @ replicate 64 CHR ''0'')), (''storageProvider'', JStr ''s3'')]"

definition run_requests :: "(int + (jsv \<times> int)) list \<Rightarrow> store \<Rightarrow> store res" where
  "run_requests rs s = foldR (\<lambda>s r. case r of
      Inl version \<Rightarrow> bnd (app_appendEvidenceRetentionPolicy (steward_env 0) ''p'' (policy_request version) JNull s)
        (\<lambda>(s', _). Inr s')
    | Inr (request, now) \<Rightarrow> bnd (app_appendEvidenceLifecycleEvent (steward_env now) ''p'' ''ev'' request JNull s)
        (\<lambda>(s', _). Inr s')) s rs"

lemma run_requests_governed: "governed ''p'' s \<Longrightarrow> run_requests rs s = Inr s' \<Longrightarrow> governed ''p'' s'"
proof (induction rs arbitrary: s)
  case (Cons r rs)
  show ?case
  proof (cases r)
    case (Inl version)
    with Cons.prems(2) obtain s1 policy where
      "app_appendEvidenceRetentionPolicy (steward_env 0) ''p'' (policy_request version) JNull s = Inr (s1, policy)"
      "run_requests rs s1 = Inr s'" by (auto simp: run_requests_def bnd_eq_Inr)
    with gov_policy [OF Cons.prems(1)] Cons.IH show ?thesis by blast
  next
    case (Inr rn)
    with Cons.prems(2) obtain s1 view where
      "app_appendEvidenceLifecycleEvent (steward_env (snd rn)) ''p'' ''ev'' (fst rn) JNull s = Inr (s1, view)"
      "run_requests rs s1 = Inr s'" by (auto simp: run_requests_def bnd_eq_Inr split: prod.splits)
    with gov_event [OF Cons.prems(1)] Cons.IH show ?thesis by blast
  qed
qed (simp add: run_requests_def)

lemma run_requests_Cons: "run_requests (r # rs) s = bnd (run_requests [r] s) (run_requests rs)"
  by (simp add: run_requests_def bnd_assoc split: sum.split)

lemma run_requests_event:
  "run_requests (Inr (request, now) # rs) s = Inr t \<Longrightarrow>
   \<exists>s' view. app_appendEvidenceLifecycleEvent (steward_env now) ''p'' ''ev'' request JNull s = Inr (s', view)"
  by (auto simp: run_requests_def bnd_eq_Inr)

lemma evidence_store_governed: "governed ''p'' evidence_store"
  by (rule gov_start) (simp_all add: evidence_store_def empty_store_def)

definition deletion_run :: "(int + (jsv \<times> int)) list" where
  "deletion_run = [Inl 1, Inr (event_request ''e1'' 1 ''DELETION_REQUESTED'' JNull, 1000),
     Inr (event_request ''e2'' 1 ''DELETED'' proof_of_deletion, 2000)]"

lemma deletion_run_ok:
  "case run_requests deletion_run evidence_store of Inl _ \<Rightarrow> False
   | Inr s \<Rightarrow> map (\<lambda>e. oget e ''action'') (listEvidenceLifecycleEvents ''p'' ''ev'' s) =
       [JStr ''DELETION_REQUESTED'', JStr ''DELETED'']"
  by code_simp

text \<open>
  C4: Deletion of evidence is lawful. In every run of a project whose policies and lifecycle events go
  through the application, wherever a DELETED event stands in the log of an item, the policy it names is
  stored, under that policy deletion had been requested before, no legal hold was in force, the item
  was not deleted yet, and no later event of the log belongs to the policy.
\<close>
theorem deletion_is_lawful:
  assumes "governed p s" and "listEvidenceLifecycleEvents p e s = pre @ d # post" and "action_is d ''DELETED''"
  shows "\<exists>policy. policy_of p s d = Some policy \<and> lawful_deletion policy pre d post"
  using governed_invariant [OF assms(1)] assms(2,3) by (metis lawful_logD)

theorem deletion_is_lawful_witness:
  "\<exists>s pre d. governed ''p'' s \<and> listEvidenceLifecycleEvents ''p'' ''ev'' s = pre @ [d] \<and> action_is d ''DELETED'' \<and>
     (\<exists>policy. policy_of ''p'' s d = Some policy \<and> lawful_deletion policy pre d [])"
proof -
  obtain s where s: "run_requests deletion_run evidence_store = Inr s"
    and log: "map (\<lambda>e. oget e ''action'') (listEvidenceLifecycleEvents ''p'' ''ev'' s) =
      [JStr ''DELETION_REQUESTED''] @ [JStr ''DELETED'']"
    using deletion_run_ok by (elim resE) simp
  have g: "governed ''p'' s" by (rule run_requests_governed [OF evidence_store_governed s])
  from log obtain pre d where d: "listEvidenceLifecycleEvents ''p'' ''ev'' s = pre @ [d]" "action_is d ''DELETED''"
    unfolding action_is_def by (rule map_eq_snocE)
  show ?thesis
    by (rule exI [of _ s], rule exI [of _ pre], rule exI [of _ d])
       (intro conjI g d deletion_is_lawful [OF g d])
qed

text \<open>
  C5: The lifecycle operation of the application refines the abstract retention machine. A successful
  call either records nothing (the same event again) or appends one event to the log of its item, and
  the flags of the policy that the event names then move by the step the abstract machine allows for
  the action: none after deletion, deletion only on request and outside a legal hold.
\<close>
theorem lifecycle_refines_retention_machine:
  assumes "governed p s" and "app_appendEvidenceLifecycleEvent env p eid input ctx s = Inr (s', view)"
  shows "listEvidenceLifecycleEvents p eid s' = listEvidenceLifecycleEvents p eid s \<or>
    (\<exists>event policy a. listEvidenceLifecycleEvents p eid s' = listEvidenceLifecycleEvents p eid s @ [event] \<and>
       oget event ''action'' = JStr a \<and> policy_of p s event = Some policy \<and>
       retention_step (lifecycle_flags_of policy (policy_events policy (listEvidenceLifecycleEvents p eid s))) a
         (lifecycle_flags_of policy (policy_events policy (listEvidenceLifecycleEvents p eid s'))))"
  using assms(2) governed_invariant [OF assms(1), THEN conjunct1]
proof (cases rule: app_lifecycle_log)
  case (fresh event policy a)
  have "retention_step (lifecycle_flags_of policy (policy_events policy (listEvidenceLifecycleEvents p eid s))) a
      (lifecycle_flags_of policy (policy_events policy (listEvidenceLifecycleEvents p eid s')))"
    using fresh(8) unfolding fresh(1) policy_events_append fresh(5) lifecycle_flags_snoc check_lifecycle_guards_Inr
    by (intro lifecycle_step_refines fresh(6,7)) simp_all
  with fresh show ?thesis by blast
qed simp

theorem lifecycle_refines_retention_machine_witness:
  "\<exists>s s' view. governed ''p'' s \<and>
     app_appendEvidenceLifecycleEvent (steward_env 1000) ''p'' ''ev'' (event_request ''e1'' 1 ''DELETION_REQUESTED'' JNull)
       JNull s = Inr (s', view) \<and>
     (listEvidenceLifecycleEvents ''p'' ''ev'' s' = listEvidenceLifecycleEvents ''p'' ''ev'' s \<or>
      (\<exists>event policy a. listEvidenceLifecycleEvents ''p'' ''ev'' s' = listEvidenceLifecycleEvents ''p'' ''ev'' s @ [event] \<and>
       oget event ''action'' = JStr a \<and> policy_of ''p'' s event = Some policy \<and>
       retention_step (lifecycle_flags_of policy (policy_events policy (listEvidenceLifecycleEvents ''p'' ''ev'' s))) a
         (lifecycle_flags_of policy (policy_events policy (listEvidenceLifecycleEvents ''p'' ''ev'' s')))))"
proof -
  let ?first = "Inl 1 :: int + (jsv \<times> int)"
  let ?r = "event_request ''e1'' 1 ''DELETION_REQUESTED'' JNull"
  obtain t where "run_requests deletion_run evidence_store = Inr t"
    using deletion_run_ok by (elim resE)
  then have "bnd (run_requests [?first] evidence_store) (run_requests (tl deletion_run)) = Inr t"
    by (simp only: deletion_run_def list.sel(3) run_requests_Cons [of ?first "_ # _"])
  then obtain s where s: "run_requests [?first] evidence_store = Inr s"
    and rest: "run_requests (tl deletion_run) s = Inr t" by (auto simp only: bnd_eq_Inr)
  from run_requests_event [OF rest [unfolded deletion_run_def list.sel(3)]]
  obtain s' view where v: "app_appendEvidenceLifecycleEvent (steward_env 1000) ''p'' ''ev'' ?r JNull s = Inr (s', view)"
    by iprover
  have g: "governed ''p'' s" by (rule run_requests_governed [OF evidence_store_governed s])
  show ?thesis
    by (rule exI [of _ s], rule exI [of _ s'], rule exI [of _ view])
       (intro conjI g v lifecycle_refines_retention_machine [OF g v])
qed

subsection \<open>What binds one version of a policy only\<close>

text \<open>The admission of an event: everything the handler does before it writes, from what it read of the store.\<close>

definition lifecycle_admission ::
  "app_env \<Rightarrow> string \<Rightarrow> string \<Rightarrow> jsv \<Rightarrow> jsv \<Rightarrow> jsv \<Rightarrow> jsv \<Rightarrow> jsv list \<Rightarrow> jsv res" where
  "lifecycle_admission env projectId evidenceId input requestContext evidence policy events =
     bnd (requireId (JStr projectId) ''projectId'') (\<lambda>_.
     bnd (requireId (JStr evidenceId) ''evidenceId'') (\<lambda>_.
     bnd (require_input input ''Evidence lifecycle event input'') (\<lambda>_.
     bnd (forbid_server_fields input ''evidenceLifecycleEvent''
            [''evidenceId'', ''actorId'', ''actorRole'', ''occurredAt'']) (\<lambda>_.
     let reviewer = ae_reviewerResolver env projectId requestContext in
     bnd (resolve_actor reviewer) (\<lambda>a.
     throw_if (\<not> truthy evidence) (ConflictErr (''Evidence '' @ evidenceId @ '' does not exist'')) (
     throw_if (\<not> truthy policy)
       (ConflictErr (''Evidence retention policy '' @ js_string (oget input ''policyId'') @ ''@''
          @ js_string (oget input ''policyVersion'') @ '' does not exist'')) (
     let governance = coalesce (ae_reviewPolicyResolver env projectId
           (JObj [(''reviewer'', reviewer), (''evidence'', evidence), (''policy'', policy),
                  (''evidenceLifecycleEventInput'', input)])) (JObj []);
         allowed = (if one_of [''ACCESSED'', ''EXPORTED''] (oget input ''action'')
                    then oget policy ''allowedAccessRoles''
                    else oget governance ''allowedEvidenceLifecycleRoles'')
     in
     bnd (require_role allowed (snd a)
            ('' cannot perform Evidence lifecycle action '' @ js_string (oget input ''action''))) (\<lambda>_.
     bnd (evaluateEvidenceLifecycle evidence policy events (ae_clock env)) (\<lambda>current.
     bnd (check_lifecycle_guards (oget input ''action'') (lv_flags current)) (\<lambda>_.
     createEvidenceLifecycleEvent (with_fields input
            [(''evidenceId'', JStr evidenceId), (''actorId'', fst a), (''actorRole'', snd a)])
            (ae_clock env)))))))))))"

abbreviation named_policy :: "string \<Rightarrow> jsv \<Rightarrow> store \<Rightarrow> jsv" where
  "named_policy p input s \<equiv>
     getEvidenceRetentionPolicy p (oget input ''policyId'') (coalesce (oget input ''policyVersion'') JNull) s"

lemma bnd_throw_if: "bnd (throw_if c e k) f = throw_if c e (bnd k f)"
  by (simp add: throw_if_def)

lemma app_lifecycle_admission:
  "app_appendEvidenceLifecycleEvent env p eid input ctx s =
     bnd (lifecycle_admission env p eid input ctx (getEvidence p eid s) (named_policy p input s)
            (policy_events (named_policy p input s) (listEvidenceLifecycleEvents p eid s))) (\<lambda>event.
     bnd (appendEvidenceLifecycleEvent p event s) (\<lambda>(s', _).
     bnd (app_getEvidenceLifecycle env p eid (oget (named_policy p input s) ''id'') (oget (named_policy p input s) ''version'') s')
       (\<lambda>view. Inr (s', view))))"
  unfolding app_appendEvidenceLifecycleEvent_def lifecycle_admission_def Let_def bnd_assoc bnd_throw_if case_prod_beta ..

lemma find_appended: "List.find P (xs @ ys) = (case List.find P xs of None \<Rightarrow> List.find P ys | Some y \<Rightarrow> Some y)"
  by (induction xs) simp_all

lemma append_event_apart:
  assumes "append_event m log e = Inr log'" and "\<forall>x\<in>set xs. \<not> strict_eq (oget x ''id'') (oget e ''id'')"
  shows "\<exists>suffix. log' = log @ suffix \<and> append_event m (log @ xs) e = Inr (log @ xs @ suffix)"
proof -
  have "List.find (\<lambda>x. strict_eq (oget x ''id'') (oget e ''id'')) xs = None" using assms(2) by (simp add: find_None_iff)
  with assms(1) show ?thesis by (auto simp: append_event_def find_by_id_def find_appended split: option.splits if_splits)
qed

lemma admitted_event:
  assumes "lifecycle_admission env p eid input ctx evidence policy events = Inr event"
  obtains pid n where "oget event ''policyId'' = JStr pid" "oget event ''policyVersion'' = JNum n" "oget event ''evidenceId'' = JStr eid"
    "oget input ''policyId'' = JStr pid" "oget input ''policyVersion'' = JNum n" "oget event ''id'' = oget input ''id''" "truthy policy"
proof -
  from assms obtain a r where obj: "is_plain_object input" and pol: "truthy policy"
    and cr: "createEvidenceLifecycleEvent (with_fields input
       [(''evidenceId'', JStr eid), (''actorId'', a), (''actorRole'', r)]) (ae_clock env) = Inr event"
    unfolding lifecycle_admission_def Let_def bnd_eq_Inr throw_if_eq_Inr require_input_Inr not_not by (elim exE conjE) (rule that)
  from obj obtain fs where fs: "input = JObj fs" by (auto simp: is_plain_object_iff)
  let ?in = "with_fields input [(''evidenceId'', JStr eid), (''actorId'', a), (''actorRole'', r)]"
  have same: "oget ?in ''policyId'' = oget input ''policyId''" "oget ?in ''id'' = oget input ''id''"
    "oget ?in ''policyVersion'' = oget input ''policyVersion''" "oget ?in ''evidenceId'' = JStr eid"
    by (simp_all add: oget_with_fields fs)
  from cr have i: "oget event ''id'' = oget ?in ''id''"
    unfolding createEvidenceLifecycleEvent_def Let_def bnd_eq_Inr throw_if_eq_Inr
    by (elim exE conjE) (drule mk_obj_member [where k = "''id''"], simp, simp add: requireNonEmptyString_Inr)
  from cr show thesis
    by (rule createEvidenceLifecycleEvent_run) (rule that, use same i pol in simp_all)
qed

text \<open>A stored policy is the one its own identifiers name.\<close>

lemma named_policy_ids:
  assumes "policies_typed p s" "oget input ''policyId'' = JStr pid" "oget input ''policyVersion'' = JNum n" "truthy (named_policy p input s)"
  shows "oget (named_policy p input s) ''id'' = JStr pid" "oget (named_policy p input s) ''version'' = JNum n"
proof -
  have "map_of (st_evidenceRetentionPolicies s) (store_key p (pair_key (JStr pid) (JNum n))) = Some (named_policy p input s)"
    using getEvidenceRetentionPolicy_version [of "JNum n" p "JStr pid" s] assms(2-4) by simp
  with assms(1) have "typed_ids (named_policy p input s)"
    "store_key p (pair_key (JStr pid) (JNum n)) = store_key p (version_key (named_policy p input s))" by (auto simp: policies_typed_def)
  then show "oget (named_policy p input s) ''id'' = JStr pid" "oget (named_policy p input s) ''version'' = JNum n"
    by (auto simp: typed_ids_def version_key_def store_key_def pair_key_inject)
qed

text \<open>What an accepted event leaves of the store: the items and policies, and the log with the event at most.\<close>

lemma lifecycle_append_store:
  assumes "appendEvidenceLifecycleEvent p e s = Inr (s', r)" "oget e ''evidenceId'' = JStr eid"
  shows "getEvidence p eid s' = getEvidence p eid s" "st_evidenceRetentionPolicies s' = st_evidenceRetentionPolicies s"
    "listEvidenceLifecycleEvents p eid s' = listEvidenceLifecycleEvents p eid s \<or>
     listEvidenceLifecycleEvents p eid s' = listEvidenceLifecycleEvents p eid s @ [e]" "r = e"
proof -
  from assms obtain m events where ev: "append_event m (listEvidenceLifecycleEvents p eid s) e = Inr events" and "r = e"
    and s': "s' = s\<lparr>st_evidenceLifecycleEvents := AList.update (store_key p eid) events (st_evidenceLifecycleEvents s)\<rparr>"
    by (auto simp: appendEvidenceLifecycleEvent_def listEvidenceLifecycleEvents_def Let_def throw_if_eq_Inr bnd_eq_Inr)
  then show "r = e" "getEvidence p eid s' = getEvidence p eid s" "st_evidenceRetentionPolicies s' = st_evidenceRetentionPolicies s"
    by (simp_all add: getEvidence_def)
  from ev show "listEvidenceLifecycleEvents p eid s' = listEvidenceLifecycleEvents p eid s \<or>
     listEvidenceLifecycleEvents p eid s' = listEvidenceLifecycleEvents p eid s @ [e]"
    unfolding s' by (cases rule: append_event_cases) (simp_all add: listEvidenceLifecycleEvents_def rows_update)
qed

text \<open>An append to the longer log, where the events have different identifiers.\<close>

lemma lifecycle_append_apart:
  assumes "appendEvidenceLifecycleEvent p e s = Inr (s', r)" "oget e ''evidenceId'' = JStr eid" "\<forall>x\<in>set xs. \<not> strict_eq (oget x ''id'') (oget e ''id'')"
    and t: "st_evidence t = st_evidence s" "st_evidenceRetentionPolicies t = st_evidenceRetentionPolicies s"
      "listEvidenceLifecycleEvents p eid t = listEvidenceLifecycleEvents p eid s @ xs"
  shows "\<exists>t' suffix. appendEvidenceLifecycleEvent p e t = Inr (t', e) \<and>
    listEvidenceLifecycleEvents p eid s' = listEvidenceLifecycleEvents p eid s @ suffix \<and>
    listEvidenceLifecycleEvents p eid t' = listEvidenceLifecycleEvents p eid s @ xs @ suffix \<and>
    st_evidence t' = st_evidence s' \<and> st_evidenceRetentionPolicies t' = st_evidenceRetentionPolicies s'"
proof -
  let ?k = "store_key p eid" and ?m = "''EvidenceLifecycleEvent '' @ js_string (oget e ''id'') @ '' conflicts with an existing record''"
  from assms(1,2) obtain events where
    pre: "map_of (st_evidence s) ?k \<noteq> None"
      "map_of (st_evidenceRetentionPolicies s) (store_key p (pair_key (oget e ''policyId'') (oget e ''policyVersion''))) \<noteq> None"
    and ev: "append_event ?m (rows (st_evidenceLifecycleEvents s) ?k) e = Inr events"
    and s': "s' = s\<lparr>st_evidenceLifecycleEvents := AList.update ?k events (st_evidenceLifecycleEvents s)\<rparr>"
    by (auto simp: appendEvidenceLifecycleEvent_def Let_def throw_if_eq_Inr bnd_eq_Inr)
  from append_event_apart [OF ev assms(3)] obtain suffix where
    suffix: "events = rows (st_evidenceLifecycleEvents s) ?k @ suffix"
      "append_event ?m (rows (st_evidenceLifecycleEvents s) ?k @ xs) e = Inr (rows (st_evidenceLifecycleEvents s) ?k @ xs @ suffix)" by blast
  let ?t' = "t\<lparr>st_evidenceLifecycleEvents := AList.update ?k (rows (st_evidenceLifecycleEvents s) ?k @ xs @ suffix) (st_evidenceLifecycleEvents t)\<rparr>"
  have log: "rows (st_evidenceLifecycleEvents t) ?k = rows (st_evidenceLifecycleEvents s) ?k @ xs"
    using t(3) by (simp add: listEvidenceLifecycleEvents_def)
  have "appendEvidenceLifecycleEvent p e t = Inr (?t', e)"
    using pre suffix(2) by (simp add: appendEvidenceLifecycleEvent_def Let_def assms(2) t(1,2) log throw_if_def del: oget_simps)
  then show ?thesis
    by (intro exI [of _ ?t'] exI [of _ suffix]) (simp add: listEvidenceLifecycleEvents_def rows_update s' suffix(1) t(1,2))
qed

text \<open>The view after an event, from the parts of the store it reads.\<close>

lemma lifecycle_view_cong:
  assumes "st_evidence t = st_evidence s" "st_evidenceRetentionPolicies t = st_evidenceRetentionPolicies s"
    and "policy_events (getEvidenceRetentionPolicy p i v s) (listEvidenceLifecycleEvents p eid t)
       = policy_events (getEvidenceRetentionPolicy p i v s) (listEvidenceLifecycleEvents p eid s)"
  shows "app_getEvidenceLifecycle env p eid i v t = app_getEvidenceLifecycle env p eid i v s"
proof -
  have "getEvidence p eid t = getEvidence p eid s" "getEvidenceRetentionPolicy p i v t = getEvidenceRetentionPolicy p i v s"
    using assms(1,2) by (simp_all add: getEvidence_def getEvidenceRetentionPolicy_def)
  with assms(3) show ?thesis by (simp add: app_getEvidenceLifecycle_def Let_def)
qed

text \<open>
  C32: an event binds only the policy version it names, a legal hold included. In every project governed through
  the application, take an accepted event, say the placing of a legal hold, and an event of the same item that
  names another version or another policy and would be accepted before it, say the deletion. After the first
  the second is still accepted, with the very answer it would have had: no hold, request or deletion under
  one version of a policy counts under another.
\<close>

theorem legal_hold_evaded_by_other_policy_version:
  assumes "governed p s"
    and "app_appendEvidenceLifecycleEvent env p eid input ctx s = Inr (s1, held)"
    and "app_appendEvidenceLifecycleEvent env' p eid other ctx' s = Inr (s2, view)"
    and "oget other ''id'' \<noteq> oget input ''id''"
    and "oget other ''policyId'' \<noteq> oget input ''policyId'' \<or> oget other ''policyVersion'' \<noteq> oget input ''policyVersion''"
  shows "\<exists>s3. app_appendEvidenceLifecycleEvent env' p eid other ctx' s1 = Inr (s3, view)"
proof -
  let ?P = "named_policy p other" and ?log = "listEvidenceLifecycleEvents p eid"
  have typed: "policies_typed p s" using governed_invariant [OF assms(1)] by blast
  from assms(2) obtain x where x: "lifecycle_admission env p eid input ctx (getEvidence p eid s) (named_policy p input s)
      (policy_events (named_policy p input s) (?log s)) = Inr x" "\<exists>r. appendEvidenceLifecycleEvent p x s = Inr (s1, r)"
    unfolding app_lifecycle_admission by (auto simp: bnd_eq_Inr split: prod.splits)
  from x(1) obtain pid n where xi: "oget x ''policyId'' = JStr pid" "oget x ''policyVersion'' = JNum n" "oget x ''evidenceId'' = JStr eid"
    "oget input ''policyId'' = JStr pid" "oget input ''policyVersion'' = JNum n" "oget x ''id'' = oget input ''id''" by (rule admitted_event)
  from assms(3) obtain e where e: "lifecycle_admission env' p eid other ctx' (getEvidence p eid s) (?P s) (policy_events (?P s) (?log s)) = Inr e"
    and ap: "\<exists>r. appendEvidenceLifecycleEvent p e s = Inr (s2, r)"
    and v: "app_getEvidenceLifecycle env' p eid (oget (?P s) ''id'') (oget (?P s) ''version'') s2 = Inr view"
    unfolding app_lifecycle_admission by (auto simp: bnd_eq_Inr split: prod.splits)
  from e obtain pid' n' where ei: "oget e ''evidenceId'' = JStr eid" "oget other ''policyId'' = JStr pid'" "oget other ''policyVersion'' = JNum n'"
    "oget e ''id'' = oget other ''id''" "truthy (?P s)" by (rule admitted_event)
  note pi = named_policy_ids [OF typed ei(2,3,5)]
  have apart: "policy_events q [x] = []" if "oget q ''id'' = JStr pid'" "oget q ''version'' = JNum n'" for q
    using assms(5) that by (auto simp: policy_events_def xi ei(2,3))
  note apart = apart [OF pi]
  from x(2) obtain r where ax: "appendEvidenceLifecycleEvent p x s = Inr (s1, r)" ..
  note s1 = lifecycle_append_store [OF ax xi(3)]
  have ev1: "st_evidence s1 = st_evidence s"
    using ax by (auto simp: appendEvidenceLifecycleEvent_def Let_def throw_if_eq_Inr bnd_eq_Inr)
  have P1: "?P s1 = ?P s" using s1(2) by (simp add: getEvidenceRetentionPolicy_def)
  have pe1: "policy_events (?P s) (?log s1) = policy_events (?P s) (?log s)" using s1(3) apart by auto
  from ap obtain r' where ap: "appendEvidenceLifecycleEvent p e s = Inr (s2, r')" ..
  note s2 = lifecycle_append_store [OF ap ei(1)]
  have "\<exists>t'. appendEvidenceLifecycleEvent p e s1 = Inr (t', e) \<and> st_evidence t' = st_evidence s2 \<and>
      st_evidenceRetentionPolicies t' = st_evidenceRetentionPolicies s2 \<and>
      policy_events (?P s) (?log t') = policy_events (?P s) (?log s2)"
  proof -
    from s1(3) obtain xs where l: "?log s1 = ?log s @ xs" "xs = [] \<or> xs = [x]" by auto
    have "\<forall>x\<in>set xs. \<not> strict_eq (oget x ''id'') (oget e ''id'')"
      using l(2) assms(4) xi(6) ei(4) by (auto dest: strict_eqD)
    moreover have "policy_events (?P s) (x # ys) = policy_events (?P s) ys" for ys
      using apart by (simp add: policy_events_def split: if_splits)
    ultimately show ?thesis using lifecycle_append_apart [OF ap ei(1) _ ev1 s1(2) l(1)] l(2) by auto
  qed
  then obtain t' where t': "appendEvidenceLifecycleEvent p e s1 = Inr (t', e)" "st_evidence t' = st_evidence s2"
    "st_evidenceRetentionPolicies t' = st_evidenceRetentionPolicies s2" "policy_events (?P s) (?log t') = policy_events (?P s) (?log s2)" by blast
  have P2: "getEvidenceRetentionPolicy p (oget (?P s) ''id'') (oget (?P s) ''version'') s2 = ?P s"
    unfolding pi by (simp add: getEvidenceRetentionPolicy_def s2(2) ei(2,3))
  have "app_getEvidenceLifecycle env' p eid (oget (?P s) ''id'') (oget (?P s) ''version'') t' = Inr view"
    using lifecycle_view_cong [OF t'(2,3), of p "oget (?P s) ''id''" "oget (?P s) ''version''" eid env'] t'(4) v unfolding P2 by simp
  then show ?thesis
    unfolding app_lifecycle_admission P1 s1(1) pe1 e bnd_simps t'(1) prod.case by simp
qed

text \<open>A run: two versions of a policy, a deletion requested under the second, then a hold under the first and the deletion.\<close>

definition requested_run :: "(int + (jsv \<times> int)) list" where
  "requested_run = [Inl 1, Inl 2, Inr (event_request ''e1'' 2 ''DELETION_REQUESTED'' JNull, 1000)]"

abbreviation hold_request :: jsv where
  "hold_request \<equiv> event_request ''e2'' 1 ''LEGAL_HOLD_PLACED'' JNull"

abbreviation delete_request :: jsv where
  "delete_request \<equiv> event_request ''e3'' 2 ''DELETED'' proof_of_deletion"

lemma requested_run_ok:
  "case run_requests requested_run evidence_store of Inl _ \<Rightarrow> False
   | Inr s \<Rightarrow>
      (case app_appendEvidenceLifecycleEvent (steward_env 1500) ''p'' ''ev'' hold_request JNull s of Inl _ \<Rightarrow> False
       | Inr r \<Rightarrow> map_option (\<lambda>v. lf_legalHold (lv_flags v)) (snd r) = Some True) \<and>
      (case app_appendEvidenceLifecycleEvent (steward_env 2000) ''p'' ''ev'' delete_request JNull s of Inl _ \<Rightarrow> False
       | Inr r \<Rightarrow> map_option lv_status (snd r) = Some ''DELETED'')"
  by code_simp

theorem legal_hold_evaded_by_other_policy_version_witness:
  "\<exists>s s1 held s3 view. governed ''p'' s \<and>
     app_appendEvidenceLifecycleEvent (steward_env 1500) ''p'' ''ev'' hold_request JNull s = Inr (s1, held) \<and>
     map_option (\<lambda>v. lf_legalHold (lv_flags v)) held = Some True \<and>
     app_appendEvidenceLifecycleEvent (steward_env 2000) ''p'' ''ev'' delete_request JNull s1 = Inr (s3, view) \<and>
     map_option lv_status view = Some ''DELETED''"
proof -
  from requested_run_ok obtain s where s: "run_requests requested_run evidence_store = Inr s"
    and ops: "case app_appendEvidenceLifecycleEvent (steward_env 1500) ''p'' ''ev'' hold_request JNull s of Inl _ \<Rightarrow> False
       | Inr r \<Rightarrow> map_option (\<lambda>v. lf_legalHold (lv_flags v)) (snd r) = Some True"
      "case app_appendEvidenceLifecycleEvent (steward_env 2000) ''p'' ''ev'' delete_request JNull s of Inl _ \<Rightarrow> False
       | Inr r \<Rightarrow> map_option lv_status (snd r) = Some ''DELETED''" by (elim resE) iprover
  have g: "governed ''p'' s" by (rule run_requests_governed [OF evidence_store_governed s])
  from ops(1) obtain s1 held where h: "app_appendEvidenceLifecycleEvent (steward_env 1500) ''p'' ''ev'' hold_request JNull s = Inr (s1, held)"
    "map_option (\<lambda>v. lf_legalHold (lv_flags v)) held = Some True" by (elim resE) (metis prod.collapse)
  from ops(2) obtain s2 view where d: "app_appendEvidenceLifecycleEvent (steward_env 2000) ''p'' ''ev'' delete_request JNull s = Inr (s2, view)"
    "map_option lv_status view = Some ''DELETED''" by (elim resE) (metis prod.collapse)
  have "oget delete_request ''id'' \<noteq> oget hold_request ''id''" "oget delete_request ''policyVersion'' \<noteq> oget hold_request ''policyVersion''"
    by (simp_all add: event_request_def)
  from legal_hold_evaded_by_other_policy_version [OF g h(1) d(1) this(1) disjI2 [OF this(2)]] obtain s3 where
    "app_appendEvidenceLifecycleEvent (steward_env 2000) ''p'' ''ev'' delete_request JNull s1 = Inr (s3, view)" ..
  with g h d(2) show ?thesis by iprover
qed

end
