(* ===== verification/Value_Tree.thy ===== *)
theory Value_Tree
  imports Model Canonical
begin

section \<open>Members at any depth\<close>

text \<open>
  What a check that visits a whole value establishes: a property of all members of all objects inside
  it. Both the redaction check of execution evidence and the secret check of test specifications are
  proved exact with these rules.
\<close>

text \<open>\<open>occurs v n c\<close>: somewhere inside \<open>v\<close> an object has a member \<open>n\<close> with value \<open>c\<close>.\<close>

inductive occurs :: "jsv \<Rightarrow> string \<Rightarrow> jsv \<Rightarrow> bool" where
  occ_here: "(n, c) \<in> set fs \<Longrightarrow> occurs (JObj fs) n c"
| occ_member: "(m, d) \<in> set fs \<Longrightarrow> occurs d n c \<Longrightarrow> occurs (JObj fs) n c"
| occ_elem: "x \<in> set xs \<Longrightarrow> occurs x n c \<Longrightarrow> occurs (JArr xs) n c"

inductive_simps occurs_obj: "occurs (JObj fs) n c"
inductive_simps occurs_arr: "occurs (JArr xs) n c"
inductive_simps occurs_scalar [simp]:
  "occurs JUndef n c" "occurs JNull n c" "occurs (JBool b) n c" "occurs (JNum i) n c" "occurs (JFrac f) n c"
  "occurs (JStr s) n c"

definition every_member :: "(string \<Rightarrow> jsv \<Rightarrow> bool) \<Rightarrow> jsv \<Rightarrow> bool" where
  "every_member P v \<longleftrightarrow> (\<forall>n c. occurs v n c \<longrightarrow> P n c)"

lemma every_member_arr: "every_member P (JArr xs) \<longleftrightarrow> (\<forall>x\<in>set xs. every_member P x)"
  by (auto simp: every_member_def occurs_arr)

lemma every_member_obj:
  "every_member P (JObj fs) \<longleftrightarrow> (\<forall>p\<in>set fs. P (fst p) (snd p) \<and> every_member P (snd p))"
proof
  assume *: "every_member P (JObj fs)"
  show "\<forall>p\<in>set fs. P (fst p) (snd p) \<and> every_member P (snd p)"
  proof
    fix p assume "p \<in> set fs"
    then have p: "(fst p, snd p) \<in> set fs" by simp
    show "P (fst p) (snd p) \<and> every_member P (snd p)"
      using * occ_here [OF p] occ_member [OF p] unfolding every_member_def by blast
  qed
next
  assume *: "\<forall>p\<in>set fs. P (fst p) (snd p) \<and> every_member P (snd p)"
  show "every_member P (JObj fs)"
    unfolding every_member_def occurs_obj
  proof (intro allI impI, elim disjE exE conjE)
    fix n c m d assume "(m, d) \<in> set fs" "occurs d n c"
    with * show "P n c" by (auto simp: every_member_def)
  qed (use * in auto)
qed

lemma every_member_scalar [simp]:
  "every_member P JUndef" "every_member P JNull" "every_member P (JBool b)" "every_member P (JNum i)"
  "every_member P (JFrac f)" "every_member P (JStr s)"
  by (simp_all add: every_member_def)

lemma ball_zip_index: "(\<forall>(i, x)\<in>set (zip [0..<length xs] xs). P x) \<longleftrightarrow> (\<forall>x\<in>set xs. P x)"
  by (fastforce simp: set_zip in_set_conv_nth)

end
