(* ===== verification/Execution_Evidence.thy ===== *)
theory Execution_Evidence
  imports Value_Tree
begin

section \<open>Test executions and their evidence\<close>

text \<open>
  \<open>src/domain/execution-evidence.js\<close>: the normalisation of an execution with its attempts, the status
  derived from it, the evidence bound to it, the refusal of values that are not redacted, and the
  attestation of a bundle with the runner's secret.
\<close>

subsection \<open>Normalisation\<close>

definition snapshotComponentNames :: "string list" where
  "snapshotComponentNames = [''source'', ''build'', ''deployment'', ''runtime'']"

definition normalize_component :: "jsv \<Rightarrow> string \<Rightarrow> jsv res" where
  "normalize_component input componentName =
     (let f = ''evidence.manifest.snapshotComponents.'' @ componentName in
      bnd (requireObject (oget input componentName) f) (\<lambda>component.
      bnd (requireNonEmptyString (oget component ''digest'') (f @ ''.digest'')) (\<lambda>digest.
      throw_if (\<not> is_sha256_digest (str_of digest)) (TypeErr (f @ ''.digest must be a SHA-256 digest'')) (
      mk_obj [(''id'', requireNonEmptyString (oget component ''id'') (f @ ''.id'')), (''digest'', Inr digest)]))))"

definition normalizeSnapshotComponents :: "jsv \<Rightarrow> jsv res" where
  "normalizeSnapshotComponents v =
     bnd (requireObject v ''evidence.manifest.snapshotComponents'') (\<lambda>input.
     mk_obj (map (\<lambda>name. (name, normalize_component input name)) snapshotComponentNames))"

definition isoTimestamp :: "jsv \<Rightarrow> string \<Rightarrow> jsv res" where
  "isoTimestamp v fieldName = bnd (requireIsoTimestamp v fieldName) (\<lambda>_. Inr v)"

definition normalizeRunner :: "jsv \<Rightarrow> jsv res" where
  "normalizeRunner v = mk_obj
     [(''id'', requireNonEmptyString (oget v ''id'') ''execution.runner.id''),
      (''version'', requireNonEmptyString (oget v ''version'') ''execution.runner.version'')]"

definition normalizeAssertionResult :: "jsv \<Rightarrow> string \<Rightarrow> jsv res" where
  "normalizeAssertionResult v fieldName =
     bnd (requireObject v fieldName) (\<lambda>result.
     spread_obj result
       [(''id'', requireNonEmptyString (oget result ''id'') (fieldName @ ''.id'')),
        (''status'', assertEnum AssertionResultStatus (oget result ''status'') (fieldName @ ''.status'')),
        (''message'', optionalString (oget result ''message'') (fieldName @ ''.message''))])"

definition skipped_phase :: jsv where
  "skipped_phase = JObj [(''status'', JStr ''SKIPPED'')]"

definition with_phase_status :: "jsv \<Rightarrow> string \<Rightarrow> jsv res" where
  "with_phase_status phase f =
     spread_obj phase [(''status'', assertEnum ExecutionPhaseStatus (oget phase ''status'') (f @ ''.status''))]"

definition normalizeAttempt :: "nat \<Rightarrow> jsv \<Rightarrow> jsv res" where
  "normalizeAttempt index v =
     (let f = at_index ''execution.attempts'' index in
     bnd (requireObject v f) (\<lambda>attempt.
     bnd (isoTimestamp (oget attempt ''startedAt'') (f @ ''.startedAt'')) (\<lambda>startedAt.
     bnd (isoTimestamp (oget attempt ''finishedAt'') (f @ ''.finishedAt'')) (\<lambda>finishedAt.
     throw_if (time_less (js_date_parse finishedAt) (js_date_parse startedAt))
       (RangeErr (f @ ''.startedAt must not be later than finishedAt'')) (
     bnd (requireObject (coalesce (oget attempt ''setup'') skipped_phase) (f @ ''.setup'')) (\<lambda>setup.
     bnd (requireObject (coalesce (oget attempt ''cleanup'') skipped_phase) (f @ ''.cleanup'')) (\<lambda>cleanup.
     bnd (requireArray False (coalesce (oget attempt ''assertionResults'') (JArr [])) (f @ ''.assertionResults'')) (\<lambda>rs.
     bnd (mapiR (\<lambda>i r. normalizeAssertionResult r (at_index (f @ ''.assertionResults'') i)) 0 rs) (\<lambda>assertionResults.
     throw_if (length (js_set (map (\<lambda>r. oget r ''id'') assertionResults)) \<noteq> length assertionResults)
       (TypeErr (f @ ''.assertionResults must use unique ids'')) (
     mk_obj
       [(''number'', requirePositiveInteger (oget attempt ''number'') (f @ ''.number'')),
        (''startedAt'', Inr startedAt),
        (''finishedAt'', Inr finishedAt),
        (''phaseStatus'', assertEnum ExecutionPhaseStatus (oget attempt ''phaseStatus'') (f @ ''.phaseStatus'')),
        (''setup'', with_phase_status setup (f @ ''.setup'')),
        (''stepResults'',
           bnd (requireArray False (coalesce (oget attempt ''stepResults'') (JArr [])) (f @ ''.stepResults'')) (\<lambda>steps.
           bnd (mapiR (\<lambda>i r. requireObject r (at_index (f @ ''.stepResults'') i)) 0 steps) (\<lambda>rs. Inr (JArr rs)))),
        (''assertionResults'', Inr (JArr assertionResults)),
        (''cleanup'', with_phase_status cleanup (f @ ''.cleanup''))]))))))))))"

fun num_of :: "jsv \<Rightarrow> int" where
  "num_of (JNum i) = i"
| "num_of _ = 0"

definition uniqueAttemptNumbers :: "jsv list \<Rightarrow> jsv list res" where
  "uniqueAttemptNumbers attempts =
     bnd (foldR (\<lambda>numbers attempt.
            throw_if (arr_includes numbers (oget attempt ''number''))
              (TypeErr ''execution.attempts must use unique attempt numbers'')
              (Inr (numbers @ [oget attempt ''number'']))) [] attempts) (\<lambda>numbers.
     let expected = map (\<lambda>index. JNum (int index + 1)) [0..<length attempts];
         actual = sort_key num_of numbers
     in throw_if (canonicalJson (JArr actual) \<noteq> canonicalJson (JArr expected))
          (TypeErr ''execution.attempts must be numbered consecutively from 1'') (Inr attempts))"

subsection \<open>The status of an execution\<close>

definition has_status :: "string list \<Rightarrow> jsv \<Rightarrow> bool" where
  "has_status ss v \<longleftrightarrow> one_of ss (oget v ''status'')"

definition all_assertions :: "jsv list \<Rightarrow> jsv list" where
  "all_assertions attempts = concat (map (\<lambda>a. elems (oget a ''assertionResults'')) attempts)"

definition deriveExecutionStatus :: "jsv \<Rightarrow> jsv list \<Rightarrow> string" where
  "deriveExecutionStatus completionReason attempts =
     (let assertions = all_assertions attempts in
      if completionReason = JStr ''CANCELLED'' then ''CANCELLED''
      else if completionReason = JStr ''SKIPPED'' then ''SKIPPED''
      else if attempts = [] then ''INCONCLUSIVE''
      else if list_ex (\<lambda>a. oget a ''phaseStatus'' = JStr ''FAIL'') attempts \<or>
              list_ex (has_status [''FAIL'']) assertions then ''FAIL''
      else if list_ex (\<lambda>a. oget a ''phaseStatus'' = JStr ''ERROR'' \<or>
                has_status [''FAIL'', ''ERROR''] (oget a ''setup'') \<or>
                has_status [''FAIL'', ''ERROR''] (oget a ''cleanup'')) attempts \<or>
              list_ex (has_status [''ERROR'']) assertions then ''ERROR''
      else if assertions = [] \<or> list_ex (has_status [''INCONCLUSIVE'', ''SKIPPED'']) assertions then ''INCONCLUSIVE''
      else if list_all (has_status [''PASS'']) assertions then ''PASS'' else ''INCONCLUSIVE'')"

subsection \<open>Redaction\<close>

text \<open>\<open>visit(value, path)\<close>: a member with a sensitive name must hold the redaction mark.\<close>

function assertSensitiveValuesRedacted :: "string \<Rightarrow> string \<Rightarrow> jsv \<Rightarrow> unit res" where
  "assertSensitiveValuesRedacted rootLabel path (JArr xs) =
     eachR (\<lambda>(index, item). assertSensitiveValuesRedacted rootLabel (path @ ''/'' @ nat_str index) item)
       (zip [0..<length xs] xs)"
| "assertSensitiveValuesRedacted rootLabel path (JObj fs) =
     eachR (\<lambda>(name, child). let childPath = path @ ''/'' @ name in
       throw_if (sensitive_name name \<and> child \<noteq> JStr ''[REDACTED]'')
         (TypeErr (rootLabel @ '' sensitive value at '' @ childPath @ '' must be redacted''))
         (assertSensitiveValuesRedacted rootLabel childPath child)) (own_order fs)"
| "assertSensitiveValuesRedacted rootLabel path JUndef = Inr ()"
| "assertSensitiveValuesRedacted rootLabel path JNull = Inr ()"
| "assertSensitiveValuesRedacted rootLabel path (JBool b) = Inr ()"
| "assertSensitiveValuesRedacted rootLabel path (JNum i) = Inr ()"
| "assertSensitiveValuesRedacted rootLabel path (JFrac f) = Inr ()"
| "assertSensitiveValuesRedacted rootLabel path (JStr s) = Inr ()"
  by pat_completeness auto
termination
  by (relation "measure (\<lambda>(r, p, v). size v)")
     (auto dest: size_prop set_zip_rightD simp: less_Suc_eq_le size_list_estimation')

subsection \<open>The execution\<close>

definition createTestExecution :: "jsv \<Rightarrow> jsv res" where
  "createTestExecution input =
     bnd (isoTimestamp (oget input ''startedAt'') ''execution.startedAt'') (\<lambda>startedAt.
     bnd (isoTimestamp (oget input ''finishedAt'') ''execution.finishedAt'') (\<lambda>finishedAt.
     throw_if (time_less (js_date_parse finishedAt) (js_date_parse startedAt))
       (RangeErr ''execution.startedAt must not be later than execution.finishedAt'') (
     bnd (assertEnum ExecutionCompletionReason (coalesce (oget input ''completionReason'') (JStr ''COMPLETED''))
            ''execution.completionReason'') (\<lambda>completionReason.
     bnd (requireArray False (coalesce (oget input ''attempts'') (JArr [])) ''execution.attempts'') (\<lambda>raw.
     bnd (mapiR normalizeAttempt 0 raw) (\<lambda>normalized.
     bnd (uniqueAttemptNumbers normalized) (\<lambda>attempts.
     throw_if (list_ex (\<lambda>a. time_less (js_date_parse (oget a ''startedAt'')) (js_date_parse startedAt) \<or>
                            time_less (js_date_parse finishedAt) (js_date_parse (oget a ''finishedAt''))) attempts)
       (RangeErr ''execution attempts must fall within the execution time window'') (
     bnd (mk_obj
       [(''id'', requireNonEmptyString (oget input ''id'') ''execution.id''),
        (''testSpecId'', requireNonEmptyString (oget input ''testSpecId'') ''execution.testSpecId''),
        (''testSpecVersion'', requirePositiveInteger (oget input ''testSpecVersion'') ''execution.testSpecVersion''),
        (''snapshotManifestId'', requireNonEmptyString (oget input ''snapshotManifestId'') ''execution.snapshotManifestId''),
        (''deploymentId'', requireNonEmptyString (oget input ''deploymentId'') ''execution.deploymentId''),
        (''runner'', normalizeRunner (oget input ''runner'')),
        (''completionReason'', Inr completionReason),
        (''status'', Inr (JStr (deriveExecutionStatus completionReason attempts))),
        (''startedAt'', Inr startedAt),
        (''finishedAt'', Inr finishedAt),
        (''attempts'', Inr (JArr attempts))]) (\<lambda>execution.
     bnd (assertSensitiveValuesRedacted ''execution'' [] execution) (\<lambda>_.
     Inr execution))))))))))"

subsection \<open>Evidence\<close>

definition evidenceContentHash :: "jsv \<Rightarrow> jsv" where
  "evidenceContentHash manifest = JStr (sha256_digest manifest)"

text \<open>The fields of a manifest that must repeat those of the execution.\<close>

definition manifest_bindings :: "jsv \<Rightarrow> jsv \<Rightarrow> (string \<times> jsv \<times> jsv) list" where
  "manifest_bindings manifest execution =
     [(''executionId'', oget manifest ''executionId'', oget execution ''id''),
      (''testSpecId'', oget manifest ''testSpecId'', oget execution ''testSpecId''),
      (''testSpecVersion'', oget manifest ''testSpecVersion'', oget execution ''testSpecVersion''),
      (''snapshotManifestId'', oget manifest ''snapshotManifestId'', oget execution ''snapshotManifestId''),
      (''deploymentId'', oget manifest ''deploymentId'', oget execution ''deploymentId''),
      (''runnerId'', oget manifest ''runnerId'', oget (oget execution ''runner'') ''id''),
      (''runnerVersion'', oget manifest ''runnerVersion'', oget (oget execution ''runner'') ''version'')]"

definition set_member :: "jsv \<Rightarrow> string \<Rightarrow> jsv \<Rightarrow> jsv" where
  "set_member v k x = JObj (AList.update k x (props v))"

text \<open>For evidence of type ASSERTION the results in the manifest are those of the attempts.\<close>

definition bind_assertions :: "jsv \<Rightarrow> jsv \<Rightarrow> jsv \<Rightarrow> jsv res" where
  "bind_assertions evidenceType manifest execution =
     (if evidenceType = JStr ''ASSERTION'' then
        bnd (requireArray (oget execution ''status'' = JStr ''PASS'') (oget manifest ''assertionResults'')
               ''evidence.manifest.assertionResults'') (\<lambda>raw.
        bnd (mapiR (\<lambda>i r. normalizeAssertionResult r (at_index ''evidence.manifest.assertionResults'' i)) 0 raw)
          (\<lambda>assertionResults.
        throw_if (canonicalJson (JArr assertionResults) \<noteq>
                  canonicalJson (JArr (all_assertions (elems (oget execution ''attempts'')))))
          (TypeErr ''evidence.manifest.assertionResults must match the execution attempts'')
          (Inr (set_member manifest ''assertionResults'' (JArr assertionResults)))))
      else Inr manifest)"

definition bound_manifest :: "jsv \<Rightarrow> jsv \<Rightarrow> jsv \<Rightarrow> jsv res" where
  "bound_manifest input evidenceType execution =
     bnd (normalizeSnapshotComponents (oget input ''snapshotComponents'')) (\<lambda>components.
     let manifest = set_member input ''snapshotComponents'' components in
     throw_if (\<not> strict_eq (oget (oget components ''deployment'') ''id'') (oget execution ''deploymentId''))
       (TypeErr ''evidence.manifest deployment component must match the execution'') (
     bnd (requireArray False (oget manifest ''redactions'') ''evidence.manifest.redactions'') (\<lambda>_.
     bnd (assertSensitiveValuesRedacted ''evidence.manifest'' [] manifest) (\<lambda>_.
     bnd (eachR (\<lambda>(fieldName, actual, expected).
            throw_if (\<not> strict_eq actual expected)
              (TypeErr (''evidence.manifest.'' @ fieldName @ '' must match the execution'')) (Inr ()))
          (manifest_bindings manifest execution)) (\<lambda>_.
     bind_assertions evidenceType manifest execution)))))"

definition createEvidence :: "jsv \<Rightarrow> jsv \<Rightarrow> int option \<Rightarrow> jsv res" where
  "createEvidence execution input now =
     bnd (requireObject (oget input ''manifest'') ''evidence.manifest'') (\<lambda>rawManifest.
     bnd (assertEnum EvidenceType (oget input ''type'') ''evidence.type'') (\<lambda>evidenceType.
     bnd (bound_manifest rawManifest evidenceType execution) (\<lambda>manifest.
     let contentHash = evidenceContentHash manifest in
     throw_if (oget input ''contentHash'' \<noteq> JUndef \<and> \<not> strict_eq (oget input ''contentHash'') contentHash)
       (TypeErr ''evidence.contentHash does not match the canonical manifest'') (
     bnd (created_at input now) (\<lambda>createdAt.
     bnd (isoTimestamp createdAt ''evidence.createdAt'') (\<lambda>_.
     throw_if (time_less (js_date_parse createdAt) (js_date_parse (oget execution ''finishedAt'')))
       (RangeErr ''evidence.createdAt must not be earlier than execution.finishedAt'') (
     mk_obj
       [(''id'', requireNonEmptyString (oget input ''id'') ''evidence.id''),
        (''executionId'', Inr (oget execution ''id'')),
        (''type'', Inr evidenceType),
        (''freshness'', assertEnum EvidenceFreshness (coalesce (oget input ''freshness'') (JStr ''FRESH'')) ''evidence.freshness''),
        (''contentHash'', Inr contentHash),
        (''storageUri'', optionalString (oget input ''storageUri'') ''evidence.storageUri''),
        (''manifest'', Inr manifest),
        (''createdAt'', Inr createdAt)])))))))"

definition createExecutionEvidenceBundle :: "jsv \<Rightarrow> int option \<Rightarrow> jsv res" where
  "createExecutionEvidenceBundle input now =
     bnd (createTestExecution (oget input ''execution'')) (\<lambda>execution.
     bnd (requireArray True (oget input ''evidence'') ''evidence'') (\<lambda>items.
     bnd (mapR (\<lambda>item. createEvidence execution item now) items) (\<lambda>evidence.
     throw_if (length (js_set (map (\<lambda>item. oget item ''id'') evidence)) \<noteq> length evidence)
       (TypeErr ''evidence ids must be unique'') (
     throw_if (oget execution ''status'' = JStr ''PASS'' \<and>
               \<not> list_ex (\<lambda>item. oget item ''type'' = JStr ''ASSERTION'') evidence)
       (TypeErr ''a passing execution requires ASSERTION evidence'') (
     Inr (JObj [(''execution'', execution), (''evidence'', JArr evidence)]))))))"

subsection \<open>Attestation\<close>

definition signing_content :: "string \<Rightarrow> jsv \<Rightarrow> jsv" where
  "signing_content projectId bundle = JObj
     [(''kind'', JStr ''EXECUTION_EVIDENCE_BUNDLE''), (''projectId'', JStr projectId),
      (''execution'', oget bundle ''execution''), (''evidence'', oget bundle ''evidence'')]"

definition executionBundleSigningPayload :: "string \<Rightarrow> jsv \<Rightarrow> string res" where
  "executionBundleSigningPayload projectId bundle =
     bnd (requireNonEmptyString (JStr projectId) ''projectId'') (\<lambda>_.
     bnd (pget bundle ''execution'') (\<lambda>_.
     Inr (canonical_text (signing_content projectId bundle))))"

definition signExecutionEvidenceBundle :: "string \<Rightarrow> jsv \<Rightarrow> string \<Rightarrow> jsv res" where
  "signExecutionEvidenceBundle projectId bundle secret =
     bnd (requireNonEmptyString (JStr secret) ''runner secret'') (\<lambda>_.
     bnd (executionBundleSigningPayload projectId bundle) (\<lambda>payload.
     bnd (pget bundle ''execution'') (\<lambda>execution.
     bnd (pget execution ''runner'') (\<lambda>runner.
     bnd (pget runner ''id'') (\<lambda>runnerId.
     Inr (JObj (spread (props bundle)
       [(''attestation'', JObj [(''algorithm'', JStr ''HMAC-SHA256''), (''runnerId'', runnerId),
           (''signature'', JStr (hmac_sha256_hex secret payload))])])))))))"

text \<open>
  The comparison \<open>timingSafeEqual\<close> is on the decoded bytes; both sides are 64 lowercase hexadecimal
  digits, which decode to equal bytes exactly when they are equal.
\<close>

definition verifyExecutionEvidenceAttestation :: "string \<Rightarrow> jsv \<Rightarrow> string \<Rightarrow> bool res" where
  "verifyExecutionEvidenceAttestation projectId bundle secret =
     (let attestation = oget bundle ''attestation''; signature = oget attestation ''signature'' in
      if oget attestation ''algorithm'' \<noteq> JStr ''HMAC-SHA256'' then Inr False
      else if \<not> strict_eq (oget attestation ''runnerId'') (oget (oget (oget bundle ''execution'') ''runner'') ''id'')
      then Inr False
      else if \<not> is_string signature \<or> \<not> is_hex 64 (str_of signature) then Inr False
      else bnd (executionBundleSigningPayload projectId bundle) (\<lambda>payload.
           Inr (hmac_sha256_hex secret payload = str_of signature)))"

subsection \<open>Redaction is complete\<close>

definition redacted :: "jsv \<Rightarrow> bool" where
  "redacted = every_member (\<lambda>n c. sensitive_name n \<longrightarrow> c = JStr ''[REDACTED]'')"

lemma redacted_arr: "redacted (JArr xs) \<longleftrightarrow> (\<forall>x\<in>set xs. redacted x)"
  by (simp add: redacted_def every_member_arr)

lemma redacted_obj:
  "redacted (JObj fs) \<longleftrightarrow>
     (\<forall>p\<in>set fs. (sensitive_name (fst p) \<longrightarrow> snd p = JStr ''[REDACTED]'') \<and> redacted (snd p))"
  by (simp add: redacted_def every_member_obj)

lemma redacted_scalar [simp]:
  "redacted JUndef" "redacted JNull" "redacted (JBool b)" "redacted (JNum i)" "redacted (JFrac f)" "redacted (JStr s)"
  by (simp_all add: redacted_def)

lemma redaction_exact:
  "assertSensitiveValuesRedacted rootLabel path v = Inr () \<longleftrightarrow> redacted v"
proof (induction rootLabel path v rule: assertSensitiveValuesRedacted.induct)
  case (1 rootLabel path xs)
  then show ?case
    using ball_zip_index [of xs redacted] by (auto simp: eachR_Inr redacted_arr)
next
  case (2 rootLabel path fs)
  have "assertSensitiveValuesRedacted rootLabel (path @ ''/'' @ fst p) (snd p) = Inr () \<longleftrightarrow> redacted (snd p)"
    if "p \<in> set fs" and ok: "\<not> (sensitive_name (fst p) \<and> snd p \<noteq> JStr ''[REDACTED]'')" for p
    using 2 [of p "fst p" "snd p"] that ok by simp
  then show ?case
    by (simp add: eachR_Inr redacted_obj throw_if_eq_Inr Let_def split_beta) blast
qed simp_all

text \<open>
  C24: The redaction check is exact. It lets a value pass exactly when every member with a sensitive
  name, at any depth and inside any array, holds the redaction mark.
\<close>
theorem redaction_check_is_exact:
  "assertSensitiveValuesRedacted rootLabel path v = Inr () \<longleftrightarrow> redacted v"
  by (rule redaction_exact)

subsection \<open>The execution record\<close>

lemma uniqueAttemptNumbers_fold:
  "foldR (\<lambda>numbers attempt.
            throw_if (arr_includes numbers (oget attempt ''number'')) e
              (Inr (numbers @ [oget attempt ''number'']))) acc attempts = Inr ns \<Longrightarrow>
   ns = acc @ map (\<lambda>a. oget a ''number'') attempts"
  by (induction attempts arbitrary: acc) (fastforce simp: bnd_eq_Inr throw_if_eq_Inr)+

lemma json_value_nums: "list_all (\<lambda>v. \<exists>i. v = JNum i) vs \<Longrightarrow> json_value (JArr vs)"
  by (auto simp: list_all_iff)

lemma same_json_nums:
  "list_all (\<lambda>v. \<exists>i. v = JNum i) vs \<Longrightarrow> same_json (JArr vs) (JArr ws) \<Longrightarrow> vs = ws"
proof -
  assume *: "list_all (\<lambda>v. \<exists>i. v = JNum i) vs" "same_json (JArr vs) (JArr ws)"
  then have len: "length vs = length ws" and eq: "\<And>i. i < length vs \<Longrightarrow> same_json (vs ! i) (ws ! i)" by auto
  show "vs = ws"
  proof (rule nth_equalityI [OF len])
    fix i assume i: "i < length vs"
    with *(1) obtain n where "vs ! i = JNum n" by (auto simp: list_all_length)
    with eq [OF i] show "vs ! i = ws ! i" by simp
  qed
qed

lemma uniqueAttemptNumbers_Inr:
  assumes "uniqueAttemptNumbers attempts = Inr r"
    and num: "list_all (\<lambda>a. \<exists>i. oget a ''number'' = JNum i) attempts"
  shows "r = attempts \<and>
    mset (map (\<lambda>a. oget a ''number'') attempts) = mset (map (\<lambda>i. JNum (int i + 1)) [0..<length attempts])"
proof -
  let ?ns = "map (\<lambda>a. oget a ''number'') attempts"
  let ?ex = "map (\<lambda>i. JNum (int i + 1)) [0..<length attempts]"
  from assms(1) have r: "r = attempts"
    and eq: "canonicalJson (JArr (sort_key num_of ?ns)) = canonicalJson (JArr ?ex)"
    by (auto simp: uniqueAttemptNumbers_def bnd_eq_Inr throw_if_eq_Inr Let_def dest!: uniqueAttemptNumbers_fold)
  have ns: "list_all (\<lambda>v. \<exists>i. v = JNum i) (sort_key num_of ?ns)" and ex: "list_all (\<lambda>v. \<exists>i. v = JNum i) ?ex"
    using num by (simp_all add: list_all_iff)
  from eq have "same_json (JArr (sort_key num_of ?ns)) (JArr ?ex)"
    using canonicalJson_eq_iff json_value_nums [OF ns] json_value_nums [OF ex] by blast
  then have "sort_key num_of ?ns = ?ex" by (rule same_json_nums [OF ns])
  then have "mset ?ns = mset ?ex" by (metis mset_sort)
  with r show ?thesis by simp
qed

lemma isoTimestamp_out: "isoTimestamp v f = Inr w \<Longrightarrow> w = v \<and> (\<exists>t. js_date_parse w = Some t)"
  by (auto simp: isoTimestamp_def bnd_eq_Inr requireIsoTimestamp_Inr)

lemma time_not_less: "a = Some x \<Longrightarrow> b = Some y \<Longrightarrow> \<not> time_less b a \<Longrightarrow> time_le a b"
  by simp

lemma normalizeAttempt_out:
  assumes "normalizeAttempt i v = Inr a"
  shows "\<exists>n. oget a ''number'' = JNum n"
    and "time_le (js_date_parse (oget a ''startedAt'')) (js_date_parse (oget a ''finishedAt''))"
    and "distinct (map (\<lambda>r. oget r ''id'') (elems (oget a ''assertionResults'')))"
proof -
  from assms obtain attempt s f rs es fn sn fnn v1 v2 where
    t: "\<not> time_less (js_date_parse f) (js_date_parse s)"
    and iso: "isoTimestamp v1 sn = Inr s" "isoTimestamp v2 fnn = Inr f"
    and d: "length (js_set (map (\<lambda>r. oget r ''id'') rs)) = length rs"
    and es: "mk_obj es = Inr a" "map_of es ''number'' = Some (requirePositiveInteger (oget attempt ''number'') fn)"
      "map_of es ''startedAt'' = Some (Inr s)" "map_of es ''finishedAt'' = Some (Inr f)"
      "map_of es ''assertionResults'' = Some (Inr (JArr rs))"
    unfolding normalizeAttempt_def Let_def
    apply (simp only: bnd_eq_Inr throw_if_eq_Inr not_not)
    apply (elim exE conjE)
    apply (rule that)
            apply assumption+
       apply simp_all
    done
  note m = es(2-5) [THEN mk_obj_member [OF es(1)]]
  from m show "\<exists>n. oget a ''number'' = JNum n"
    by (auto simp: requirePositiveInteger_Inr)
  from m iso [THEN isoTimestamp_out] t
  show "time_le (js_date_parse (oget a ''startedAt'')) (js_date_parse (oget a ''finishedAt''))"
    by (auto intro: time_not_less)
  from m have "oget a ''assertionResults'' = JArr rs" by simp
  then show "distinct (map (\<lambda>r. oget r ''id'') (elems (oget a ''assertionResults'')))"
    using d length_js_set_iff [of "map (\<lambda>r. oget r ''id'') rs"] by simp
qed

lemma mapiR_normalizeAttempt_number:
  "mapiR normalizeAttempt i raw = Inr as \<Longrightarrow> list_all (\<lambda>a. \<exists>n. oget a ''number'' = JNum n) as"
  using normalizeAttempt_out(1) by (fastforce simp: list_all_iff dest: mapiR_in_set)

definition within :: "jsv \<Rightarrow> jsv \<Rightarrow> bool" where
  "within inner outer \<longleftrightarrow>
     time_le (js_date_parse (oget outer ''startedAt'')) (js_date_parse (oget inner ''startedAt'')) \<and>
     time_le (js_date_parse (oget inner ''startedAt'')) (js_date_parse (oget inner ''finishedAt'')) \<and>
     time_le (js_date_parse (oget inner ''finishedAt'')) (js_date_parse (oget outer ''finishedAt''))"

definition consistent_execution :: "jsv \<Rightarrow> bool" where
  "consistent_execution e \<longleftrightarrow> (let as = elems (oget e ''attempts'') in
     oget e ''status'' = JStr (deriveExecutionStatus (oget e ''completionReason'') as) \<and>
     time_le (js_date_parse (oget e ''startedAt'')) (js_date_parse (oget e ''finishedAt'')) \<and>
     (\<forall>a\<in>set as. within a e \<and> distinct (map (\<lambda>r. oget r ''id'') (elems (oget a ''assertionResults'')))) \<and>
     mset (map (\<lambda>a. oget a ''number'') as) = mset (map (\<lambda>i. JNum (int i + 1)) [0..<length as]) \<and>
     redacted e)"

lemma time_le_parsed: "time_le a b \<Longrightarrow> (\<exists>x. a = Some x) \<and> (\<exists>y. b = Some y)"
  by (auto simp: time_le_def split: option.splits)

lemma createTestExecution_consistent:
  assumes "createTestExecution input = Inr e"
  shows "consistent_execution e"
proof -
  from assms obtain v1 v2 sn fn s f c raw as as' es where
    t: "\<not> time_less (js_date_parse f) (js_date_parse s)"
    and iso: "isoTimestamp v1 sn = Inr s" "isoTimestamp v2 fn = Inr f"
    and as: "mapiR normalizeAttempt 0 raw = Inr as" "uniqueAttemptNumbers as = Inr as'"
    and w: "\<not> list_ex (\<lambda>a. time_less (js_date_parse (oget a ''startedAt'')) (js_date_parse s) \<or>
                            time_less (js_date_parse f) (js_date_parse (oget a ''finishedAt''))) as'"
    and es: "mk_obj es = Inr e" "map_of es ''status'' = Some (Inr (JStr (deriveExecutionStatus c as')))"
      "map_of es ''completionReason'' = Some (Inr c)"
      "map_of es ''startedAt'' = Some (Inr s)" "map_of es ''finishedAt'' = Some (Inr f)"
      "map_of es ''attempts'' = Some (Inr (JArr as'))"
    and red: "assertSensitiveValuesRedacted ''execution'' [] e = Inr ()"
    unfolding createTestExecution_def
    apply (simp only: bnd_eq_Inr throw_if_eq_Inr not_not sum.inject)
    apply (elim exE conjE)
    apply hypsubst
    apply (rule that)
                apply assumption+
         apply simp_all
    done
  note m = es(2-6) [THEN mk_obj_member [OF es(1)]]
  from uniqueAttemptNumbers_Inr [OF as(2) mapiR_normalizeAttempt_number [OF as(1)]]
  have as': "as' = as" and ns: "mset (map (\<lambda>a. oget a ''number'') as) = mset (map (\<lambda>i. JNum (int i + 1)) [0..<length as])"
    by auto
  from m have e: "oget e ''attempts'' = JArr as" "oget e ''startedAt'' = s" "oget e ''finishedAt'' = f"
    "oget e ''completionReason'' = c" "oget e ''status'' = JStr (deriveExecutionStatus c as)" by (simp_all add: as')
  from iso [THEN isoTimestamp_out] obtain x y where p: "js_date_parse s = Some x" "js_date_parse f = Some y" by auto
  have "within a e \<and> distinct (map (\<lambda>r. oget r ''id'') (elems (oget a ''assertionResults'')))" if a: "a \<in> set as" for a
  proof -
    from mapiR_in_set [OF as(1) a] obtain j v where j: "normalizeAttempt j v = Inr a" by blast
    note out = normalizeAttempt_out(2,3) [OF j]
    have "\<not> time_less (js_date_parse (oget a ''startedAt'')) (js_date_parse s)"
      "\<not> time_less (js_date_parse f) (js_date_parse (oget a ''finishedAt''))"
      using w a by (auto simp: list_ex_iff as')
    with time_le_parsed [OF out(1)] p have
      "time_le (js_date_parse s) (js_date_parse (oget a ''startedAt''))"
      "time_le (js_date_parse (oget a ''finishedAt'')) (js_date_parse f)" by auto
    with out e show ?thesis by (simp add: within_def)
  qed
  moreover have "time_le (js_date_parse s) (js_date_parse f)" using t p by simp
  moreover have "redacted e" using red by (simp add: redaction_exact)
  ultimately show ?thesis using e ns by (simp add: consistent_execution_def)
qed

subsection \<open>Evidence is bound to its execution\<close>

definition evidence_bound :: "jsv \<Rightarrow> jsv \<Rightarrow> bool" where
  "evidence_bound execution item \<longleftrightarrow> (let manifest = oget item ''manifest'' in
     list_all (\<lambda>(f, actual, expected). actual = expected) (manifest_bindings manifest execution) \<and>
     oget (oget (oget manifest ''snapshotComponents'') ''deployment'') ''id'' = oget execution ''deploymentId'' \<and>
     oget item ''executionId'' = oget execution ''id'' \<and>
     oget item ''contentHash'' = evidenceContentHash manifest \<and>
     \<not> time_less (js_date_parse (oget item ''createdAt'')) (js_date_parse (oget execution ''finishedAt'')) \<and>
     (oget item ''type'' = JStr ''ASSERTION'' \<longrightarrow>
        canonicalJson (oget manifest ''assertionResults'') =
        canonicalJson (JArr (all_assertions (elems (oget execution ''attempts''))))) \<and>
     redacted manifest)"

lemma set_spread: "p \<in> set (spread base fs) \<Longrightarrow> p \<in> set base \<or> p \<in> set fs"
  unfolding spread_def
proof (induction fs arbitrary: base)
  case (Cons f fs)
  have "p \<in> set (AList.update k v xs) \<Longrightarrow> p \<in> set xs \<or> p = (k, v)" for k v and xs :: "(string \<times> jsv) list"
    by (induction xs) (auto split: if_splits)
  with Cons show ?case by fastforce
qed simp

lemma redacted_oget: "redacted v \<Longrightarrow> redacted (oget v k)"
proof (cases v)
  case (JObj fs)
  assume "redacted v"
  then show ?thesis using JObj by (auto simp: redacted_obj split: option.split dest!: map_of_SomeD)
next
  case (JArr xs)
  assume "redacted v"
  then show ?thesis using JArr
    by (auto simp: redacted_arr oget_def elem_at_def split: option.splits if_splits)
qed (auto simp: oget_def split: option.splits)

lemma not_sensitive: "\<not> sensitive_name ''id''" "\<not> sensitive_name ''status''" "\<not> sensitive_name ''message''"
  "\<not> sensitive_name ''assertionResults''"
  by code_simp+

lemma normalizeAssertionResult_redacted:
  assumes "normalizeAssertionResult r f = Inr r'" and "redacted r"
  shows "redacted r'"
proof -
  from assms(1) obtain es fs where fs: "mk_props es = Inr fs" "r' = JObj (spread (props r) fs)"
    and es: "es = [(''id'', requireNonEmptyString (oget r ''id'') (f @ ''.id'')),
        (''status'', assertEnum AssertionResultStatus (oget r ''status'') (f @ ''.status'')),
        (''message'', optionalString (oget r ''message'') (f @ ''.message''))]"
    unfolding normalizeAssertionResult_def spread_obj_def
    by (simp only: bnd_eq_Inr requireObject_Inr) (elim exE conjE, simp)
  have r: "\<forall>p\<in>set (props r). (sensitive_name (fst p) \<longrightarrow> snd p = JStr ''[REDACTED]'') \<and> redacted (snd p)"
    using assms(2) by (cases r) (simp_all add: redacted_obj)
  from fs(1) es obtain i m where
    "requireNonEmptyString (oget r ''id'') (f @ ''.id'') = Inr i"
    "optionalString (oget r ''message'') (f @ ''.message'') = Inr m"
    and fs': "fs = [(''id'', i), (''status'', oget r ''status''), (''message'', m)]"
    by (simp only: mk_props_Cons_Inr mk_props_Nil_Inr assertEnum_Inr) blast
  then have "redacted i" "redacted m" by (auto simp: requireNonEmptyString_Inr optionalString_Inr)
  then have "\<forall>p\<in>set fs. (sensitive_name (fst p) \<longrightarrow> snd p = JStr ''[REDACTED]'') \<and> redacted (snd p)"
    using redacted_oget [OF assms(2)] not_sensitive by (simp add: fs')
  with r show ?thesis unfolding fs(2) redacted_obj using set_spread by blast
qed

lemma redacted_set_member:
  "redacted v \<Longrightarrow> redacted x \<Longrightarrow> \<not> sensitive_name k \<Longrightarrow> redacted (set_member v k x)"
proof -
  assume *: "redacted v" "redacted x" "\<not> sensitive_name k"
  then have "\<forall>p\<in>set (props v). (sensitive_name (fst p) \<longrightarrow> snd p = JStr ''[REDACTED]'') \<and> redacted (snd p)"
    by (cases v) (simp_all add: redacted_obj)
  moreover have "set_member v k x = JObj (spread (props v) [(k, x)])" by (simp add: set_member_def spread_def)
  ultimately show ?thesis using * set_spread [of _ "props v" "[(k, x)]"] by (fastforce simp: redacted_obj)
qed

lemma oget_set_member: "oget (set_member v k x) k' = (if k' = k then x else oget (JObj (props v)) k')"
  by (simp add: set_member_def update_conv')

lemma bind_assertions_out:
  assumes "bind_assertions ty m x = Inr m'" "redacted m" "m = JObj fs"
  shows "redacted m'" and "k \<noteq> ''assertionResults'' \<Longrightarrow> oget m' k = oget m k"
    and "ty = JStr ''ASSERTION'' \<Longrightarrow> canonicalJson (oget m' ''assertionResults'') =
       canonicalJson (JArr (all_assertions (elems (oget x ''attempts''))))"
proof -
  have "redacted m' \<and> (\<forall>k. k \<noteq> ''assertionResults'' \<longrightarrow> oget m' k = oget m k) \<and>
    (ty = JStr ''ASSERTION'' \<longrightarrow> canonicalJson (oget m' ''assertionResults'') =
       canonicalJson (JArr (all_assertions (elems (oget x ''attempts'')))))"
  proof (cases "ty = JStr ''ASSERTION''")
    case True
    with assms(1) obtain raw rs where
      raw: "oget m ''assertionResults'' = JArr raw"
      and rs: "mapiR (\<lambda>i r. normalizeAssertionResult r (at_index ''evidence.manifest.assertionResults'' i)) 0 raw = Inr rs"
      and eq: "canonicalJson (JArr rs) = canonicalJson (JArr (all_assertions (elems (oget x ''attempts''))))"
      and m': "m' = set_member m ''assertionResults'' (JArr rs)"
      unfolding bind_assertions_def if_P [OF True]
      by (simp only: bnd_eq_Inr throw_if_eq_Inr not_not requireArray_Inr sum.inject) blast
    have "\<forall>r\<in>set raw. redacted r"
      using redacted_oget [OF assms(2), of "''assertionResults''"] by (simp add: raw redacted_arr)
    then have "redacted (JArr rs)"
      using normalizeAssertionResult_redacted by (auto simp: redacted_arr dest!: mapiR_in_set [OF rs])
    then show ?thesis
      using redacted_set_member [OF assms(2) _ not_sensitive(4)] eq assms(3) by (auto simp: m' oget_set_member)
  next
    case False
    with assms(1,2) show ?thesis by (simp add: bind_assertions_def)
  qed
  then show "redacted m'" and "k \<noteq> ''assertionResults'' \<Longrightarrow> oget m' k = oget m k"
    and "ty = JStr ''ASSERTION'' \<Longrightarrow> canonicalJson (oget m' ''assertionResults'') =
       canonicalJson (JArr (all_assertions (elems (oget x ''attempts''))))" by auto
qed

lemma bound_manifest_out:
  assumes "bound_manifest raw ty x = Inr m'"
  shows "list_all (\<lambda>(f, actual, expected). actual = expected) (manifest_bindings m' x) \<and>
    oget (oget (oget m' ''snapshotComponents'') ''deployment'') ''id'' = oget x ''deploymentId'' \<and> redacted m' \<and>
    (ty = JStr ''ASSERTION'' \<longrightarrow> canonicalJson (oget m' ''assertionResults'') =
       canonicalJson (JArr (all_assertions (elems (oget x ''attempts'')))))"
proof -
  let ?m = "\<lambda>c. set_member raw ''snapshotComponents'' c"
  from assms obtain c u1 u2 where
    c: "strict_eq (oget (oget c ''deployment'') ''id'') (oget x ''deploymentId'')"
    and red: "assertSensitiveValuesRedacted ''evidence.manifest'' [] (?m c) = Inr u1"
    and b: "eachR (\<lambda>(fieldName, actual, expected).
            throw_if (\<not> strict_eq actual expected)
              (TypeErr (''evidence.manifest.'' @ fieldName @ '' must match the execution'')) (Inr ()))
          (manifest_bindings (?m c) x) = Inr u2"
    and a: "bind_assertions ty (?m c) x = Inr m'"
    unfolding bound_manifest_def Let_def
    apply (simp only: bnd_eq_Inr throw_if_eq_Inr not_not)
    apply (elim exE conjE)
    apply (rule that)
       apply assumption+
    done
  from red have red: "redacted (?m c)" by (simp add: redaction_exact)
  have obj: "?m c = JObj (AList.update ''snapshotComponents'' c (props raw))" by (simp add: set_member_def)
  note out = bind_assertions_out [OF a red obj]
  have "oget m' ''snapshotComponents'' = c" using out(2) [of "''snapshotComponents''"] by (simp add: oget_set_member)
  moreover have "manifest_bindings m' x = manifest_bindings (?m c) x"
    unfolding manifest_bindings_def using out(2) by simp
  moreover have "list_all (\<lambda>(f, actual, expected). actual = expected) (manifest_bindings (?m c) x)"
    using b by (simp add: eachR_Inr throw_if_eq_Inr list_all_iff split_beta) (blast dest: strict_eqD)
  ultimately show ?thesis using out(1,3) strict_eqD [OF c] by auto
qed

lemma createEvidence_bound:
  assumes "createEvidence x item now = Inr ev"
  shows "evidence_bound x ev"
proof -
  from assms obtain raw ty m c u f es where
    es: "mk_obj es = Inr ev" "map_of es ''type'' = Some (Inr ty)" "map_of es ''manifest'' = Some (Inr m)"
      "map_of es ''createdAt'' = Some (Inr c)" "map_of es ''executionId'' = Some (Inr (oget x ''id''))"
      "map_of es ''contentHash'' = Some (Inr (evidenceContentHash m))"
    and b: "bound_manifest raw ty x = Inr m"
    and t: "\<not> time_less (js_date_parse c) (js_date_parse (oget x ''finishedAt''))"
    unfolding createEvidence_def Let_def
    apply (simp only: bnd_eq_Inr throw_if_eq_Inr not_not)
    apply (elim exE conjE)
    apply (rule that)
           apply assumption
          apply simp
         apply simp
        apply simp
       apply simp
      apply simp
     apply assumption+
    done
  note m = es(2-6) [THEN mk_obj_member [OF es(1)]]
  from m have ev: "oget ev ''type'' = ty" "oget ev ''manifest'' = m" "oget ev ''createdAt'' = c"
    "oget ev ''executionId'' = oget x ''id''" "oget ev ''contentHash'' = evidenceContentHash m" by simp_all
  show ?thesis using bound_manifest_out [OF b] t by (simp add: evidence_bound_def ev Let_def)
qed

lemma createExecutionEvidenceBundle_run:
  assumes "createExecutionEvidenceBundle input now = Inr b"
  obtains x evs items where
    "createTestExecution (oget input ''execution'') = Inr x"
    "mapR (\<lambda>item. createEvidence x item now) items = Inr evs"
    "distinct (map (\<lambda>item. oget item ''id'') evs)"
    "oget x ''status'' = JStr ''PASS'' \<longrightarrow> list_ex (\<lambda>item. oget item ''type'' = JStr ''ASSERTION'') evs"
    "b = JObj [(''execution'', x), (''evidence'', JArr evs)]"
proof -
  from assms obtain x evs items where *:
    "createTestExecution (oget input ''execution'') = Inr x"
    "mapR (\<lambda>item. createEvidence x item now) items = Inr evs"
    "length (js_set (map (\<lambda>item. oget item ''id'') evs)) = length evs"
    "\<not> (oget x ''status'' = JStr ''PASS'' \<and> \<not> list_ex (\<lambda>item. oget item ''type'' = JStr ''ASSERTION'') evs)"
    "JObj [(''execution'', x), (''evidence'', JArr evs)] = b"
    unfolding createExecutionEvidenceBundle_def
    apply (simp only: bnd_eq_Inr throw_if_eq_Inr sum.inject)
    apply (elim exE conjE)
    apply (rule that)
        apply assumption
       apply assumption
      apply simp
     apply assumption+
    done
  from *(3) have "distinct (map (\<lambda>item. oget item ''id'') evs)"
    using length_js_set_iff [of "map (\<lambda>item. oget item ''id'') evs"] by simp
  with * that show thesis by blast
qed

subsection \<open>Properties\<close>

text \<open>
  A created bundle is coherent. Its execution is consistent (status derived from its attempts,
  attempts numbered 1 to n inside the time window, unique assertion ids, everything redacted), the
  identifiers of its evidence are distinct, a passing execution has ASSERTION evidence, and every item
  repeats the identifiers of the execution, hashes its own manifest, is not older than the execution,
  holds exactly the execution's assertion results if it is of type ASSERTION, and is redacted.
\<close>
theorem created_bundle_is_coherent:
  assumes "createExecutionEvidenceBundle input now = Inr b"
  shows "consistent_execution (oget b ''execution'') \<and>
    distinct (map (\<lambda>item. oget item ''id'') (elems (oget b ''evidence''))) \<and>
    (oget (oget b ''execution'') ''status'' = JStr ''PASS'' \<longrightarrow>
       (\<exists>item\<in>set (elems (oget b ''evidence'')). oget item ''type'' = JStr ''ASSERTION'')) \<and>
    (\<forall>item\<in>set (elems (oget b ''evidence'')). evidence_bound (oget b ''execution'') item)"
  using assms
proof (rule createExecutionEvidenceBundle_run)
  fix x evs items
  assume x: "createTestExecution (oget input ''execution'') = Inr x"
    and evs: "mapR (\<lambda>item. createEvidence x item now) items = Inr evs"
    and d: "distinct (map (\<lambda>item. oget item ''id'') evs)"
    and p: "oget x ''status'' = JStr ''PASS'' \<longrightarrow> list_ex (\<lambda>item. oget item ''type'' = JStr ''ASSERTION'') evs"
    and b: "b = JObj [(''execution'', x), (''evidence'', JArr evs)]"
  have bx: "oget b ''execution'' = x" "oget b ''evidence'' = JArr evs" by (simp_all add: b)
  have "\<forall>item\<in>set evs. evidence_bound x item"
    using createEvidence_bound by (auto dest: mapR_in_set [OF evs])
  with createTestExecution_consistent [OF x] d p show ?thesis by (simp add: bx list_ex_iff)
qed

lemma if_chain_eq:
  assumes "s1 \<noteq> t" "s2 \<noteq> t" "s3 \<noteq> t" "s4 \<noteq> t" "s5 \<noteq> t" "s6 \<noteq> t"
  shows "(if c1 then s1 else if c2 then s2 else if c3 then s3 else if c4 then s4 else if c5 then s5
     else if c6 then s6 else if c7 then t else s6) = t \<longleftrightarrow>
     \<not> c1 \<and> \<not> c2 \<and> \<not> c3 \<and> \<not> c4 \<and> \<not> c5 \<and> \<not> c6 \<and> c7"
  using assms by simp

text \<open>
  C23: What PASS means. The derived status is PASS exactly when the run was neither cancelled nor
  skipped, it has attempts and assertions, every assertion of every attempt passed, and no attempt
  failed or erred in its main phase, its setup or its cleanup.
\<close>
theorem execution_passes_iff_all_passed:
  "deriveExecutionStatus reason attempts = ''PASS'' \<longleftrightarrow>
     reason \<noteq> JStr ''CANCELLED'' \<and> reason \<noteq> JStr ''SKIPPED'' \<and> all_assertions attempts \<noteq> [] \<and>
     (\<forall>r\<in>set (all_assertions attempts). oget r ''status'' = JStr ''PASS'') \<and>
     (\<forall>a\<in>set attempts. \<not> one_of [''FAIL'', ''ERROR''] (oget a ''phaseStatus'') \<and>
        \<not> has_status [''FAIL'', ''ERROR''] (oget a ''setup'') \<and> \<not> has_status [''FAIL'', ''ERROR''] (oget a ''cleanup''))"
proof -
  let ?as = "all_assertions attempts"
  let ?f = "list_ex (\<lambda>a. oget a ''phaseStatus'' = JStr ''FAIL'') attempts"
  let ?e = "list_ex (\<lambda>a. oget a ''phaseStatus'' = JStr ''ERROR'' \<or>
                has_status [''FAIL'', ''ERROR''] (oget a ''setup'') \<or>
                has_status [''FAIL'', ''ERROR''] (oget a ''cleanup'')) attempts"
  have ne: "?as \<noteq> [] \<Longrightarrow> attempts \<noteq> []" by (auto simp: all_assertions_def)
  have pass: "has_status [''PASS''] r \<longleftrightarrow> oget r ''status'' = JStr ''PASS''" for r
    by (simp add: has_status_def one_of_iff)
  have all: "list_all (has_status [''PASS'']) ?as \<longleftrightarrow> (\<forall>r\<in>set ?as. oget r ''status'' = JStr ''PASS'')"
    by (simp add: list_all_iff pass)
  have other: "\<not> has_status [''FAIL''] r \<and> \<not> has_status [''ERROR''] r \<and> \<not> has_status [''INCONCLUSIVE'', ''SKIPPED''] r"
    if "has_status [''PASS''] r" for r using that by (simp add: pass) (simp add: has_status_def)
  have phase: "one_of [''FAIL'', ''ERROR''] v \<longleftrightarrow> v = JStr ''FAIL'' \<or> v = JStr ''ERROR''" for v
    by (simp add: one_of_iff)
  have "deriveExecutionStatus reason attempts = ''PASS'' \<longleftrightarrow>
     reason \<noteq> JStr ''CANCELLED'' \<and> reason \<noteq> JStr ''SKIPPED'' \<and> attempts \<noteq> [] \<and>
     \<not> (?f \<or> list_ex (has_status [''FAIL'']) ?as) \<and> \<not> (?e \<or> list_ex (has_status [''ERROR'']) ?as) \<and>
     \<not> (?as = [] \<or> list_ex (has_status [''INCONCLUSIVE'', ''SKIPPED'']) ?as) \<and> list_all (has_status [''PASS'']) ?as"
    unfolding deriveExecutionStatus_def Let_def by (rule if_chain_eq) code_simp+
  also have "\<dots> \<longleftrightarrow> reason \<noteq> JStr ''CANCELLED'' \<and> reason \<noteq> JStr ''SKIPPED'' \<and> ?as \<noteq> [] \<and> \<not> ?f \<and> \<not> ?e \<and>
     list_all (has_status [''PASS'']) ?as"
    using ne other unfolding list_ex_iff list_all_iff by blast
  also have "\<dots> \<longleftrightarrow> reason \<noteq> JStr ''CANCELLED'' \<and> reason \<noteq> JStr ''SKIPPED'' \<and> ?as \<noteq> [] \<and>
     (\<forall>r\<in>set ?as. oget r ''status'' = JStr ''PASS'') \<and> (\<not> ?f \<and> \<not> ?e)"
    unfolding all by (simp only: conj_ac)
  also have "\<not> ?f \<and> \<not> ?e \<longleftrightarrow> (\<forall>a\<in>set attempts. \<not> one_of [''FAIL'', ''ERROR''] (oget a ''phaseStatus'') \<and>
        \<not> has_status [''FAIL'', ''ERROR''] (oget a ''setup'') \<and> \<not> has_status [''FAIL'', ''ERROR''] (oget a ''cleanup''))"
    unfolding list_ex_iff phase by blast
  finally show ?thesis .
qed

lemma nonnull_member_obj:
  assumes "\<not> nullish (oget v k)" "k = ''execution''"
  obtains fs where "v = JObj fs"
proof -
  have "index_key ''execution'' = None" by code_simp
  with assms that show thesis by (cases v) (auto simp: oget_def elem_at_def split: if_splits)
qed

lemma signed_verifies:
  assumes "signExecutionEvidenceBundle projectId bundle secret = Inr attested"
    and "\<not> is_object (oget (oget (oget bundle ''execution'') ''runner'') ''id'')"
  shows "verifyExecutionEvidenceAttestation projectId attested secret = Inr True"
proof -
  let ?runner = "oget (oget (oget bundle ''execution'') ''runner'') ''id''"
  from assms(1) obtain payload where
    p: "executionBundleSigningPayload projectId bundle = Inr payload"
    and s: "attested = JObj (spread (props bundle)
       [(''attestation'', JObj [(''algorithm'', JStr ''HMAC-SHA256''), (''runnerId'', ?runner),
           (''signature'', JStr (hmac_sha256_hex secret payload))])])"
    and nn: "\<not> nullish (oget bundle ''execution'')"
    unfolding signExecutionEvidenceBundle_def
    apply (simp only: bnd_eq_Inr pget_Inr sum.inject)
    apply (elim exE conjE)
    apply (rule that)
      apply assumption
     apply simp
    apply simp
    done
  obtain fs where fs: "bundle = JObj fs" using nn by (rule nonnull_member_obj) simp
  have mem: "oget attested ''execution'' = oget bundle ''execution''" "oget attested ''evidence'' = oget bundle ''evidence''"
    "oget attested ''attestation'' = JObj [(''algorithm'', JStr ''HMAC-SHA256''), (''runnerId'', ?runner),
       (''signature'', JStr (hmac_sha256_hex secret payload))]"
    by (simp_all add: s fs map_of_spread map_add_def)
  have nn2: "\<not> nullish attested" by (simp add: s)
  have "executionBundleSigningPayload projectId attested = Inr payload"
    using p nn2 by (simp add: executionBundleSigningPayload_def bnd_eq_Inr pget_Inr signing_content_def mem del: oget_simps)
  then show ?thesis
    using assms(2) by (simp add: verifyExecutionEvidenceAttestation_def mem strict_eq_def hmac_is_hex)
qed

text \<open>
  C31: A signed bundle verifies. Verifying what \<open>signExecutionEvidenceBundle\<close> returns, for the same
  project and secret, succeeds; the signature covers the execution and the evidence of the bundle.
\<close>
theorem signed_bundle_verifies:
  assumes "signExecutionEvidenceBundle projectId bundle secret = Inr attested"
    and "\<not> is_object (oget (oget (oget bundle ''execution'') ''runner'') ''id'')"
  shows "verifyExecutionEvidenceAttestation projectId attested secret = Inr True"
  using assms by (rule signed_verifies)

text \<open>
  An attestation authenticates the content. When two bundles carry the same signature and both
  verify under a secret, they hold the same project, execution and evidence up to the order of object
  members, unless two different texts have the same HMAC under that secret.
\<close>
theorem attestation_authenticates_content:
  assumes "verifyExecutionEvidenceAttestation p b secret = Inr True"
    and "verifyExecutionEvidenceAttestation q c secret = Inr True"
    and "oget (oget b ''attestation'') ''signature'' = oget (oget c ''attestation'') ''signature''"
    and "json_value (signing_content p b)" and "json_value (signing_content q c)"
  shows "same_json (signing_content p b) (signing_content q c) \<or>
    (\<exists>s t. s \<noteq> t \<and> hmac_sha256_hex secret s = hmac_sha256_hex secret t)"
proof -
  have "hmac_sha256_hex secret (canonical_text (signing_content p b)) =
      str_of (oget (oget b ''attestation'') ''signature'')"
    if "verifyExecutionEvidenceAttestation p b secret = Inr True" for p b
    using that
    by (simp add: verifyExecutionEvidenceAttestation_def executionBundleSigningPayload_def bnd_eq_Inr pget_Inr
        Let_def split: if_splits)
  from this [OF assms(1)] this [OF assms(2)] assms(3)
  have "hmac_sha256_hex secret (canonical_text (signing_content p b)) =
      hmac_sha256_hex secret (canonical_text (signing_content q c))" by simp
  with canonical_text_eq_iff [OF assms(4,5)] show ?thesis by blast
qed

subsection \<open>Concrete instances\<close>

definition t0 :: jsv where "t0 = JStr ''2026-01-01T00:00:00Z''"

definition sample_assertion :: jsv where
  "sample_assertion = JObj [(''id'', JStr ''a1''), (''status'', JStr ''PASS''), (''message'', JNull)]"

definition sample_attempt :: jsv where
  "sample_attempt = JObj
     [(''number'', JNum 1), (''startedAt'', t0), (''finishedAt'', t0), (''phaseStatus'', JStr ''PASS''),
      (''setup'', skipped_phase), (''stepResults'', JArr []), (''assertionResults'', JArr [sample_assertion]),
      (''cleanup'', skipped_phase)]"

definition sample_execution :: jsv where
  "sample_execution = JObj
     [(''id'', JStr ''x''), (''testSpecId'', JStr ''t''), (''testSpecVersion'', JNum 1),
      (''snapshotManifestId'', JStr ''m''), (''deploymentId'', JStr ''d''),
      (''runner'', JObj [(''id'', JStr ''r''), (''version'', JStr ''1'')]),
      (''completionReason'', JStr ''COMPLETED''), (''status'', JStr ''PASS''), (''startedAt'', t0), (''finishedAt'', t0),
      (''attempts'', JArr [sample_attempt])]"

definition sample_manifest :: jsv where
  "sample_manifest = (let c = \<lambda>i. JObj [(''id'', JStr i), (''digest'', JStr (''sha256:'' @ replicate 64 CHR ''0''))] in JObj
     [(''executionId'', JStr ''x''), (''testSpecId'', JStr ''t''), (''testSpecVersion'', JNum 1),
      (''snapshotManifestId'', JStr ''m''), (''deploymentId'', JStr ''d''), (''runnerId'', JStr ''r''),
      (''runnerVersion'', JStr ''1''), (''redactions'', JArr []), (''assertionResults'', JArr [sample_assertion]),
      (''snapshotComponents'', JObj [(''source'', c ''s''), (''build'', c ''b''), (''deployment'', c ''d''), (''runtime'', c ''u'')])])"

definition sample_evidence :: jsv where
  "sample_evidence = JObj [(''id'', JStr ''e''), (''type'', JStr ''ASSERTION''), (''manifest'', sample_manifest), (''createdAt'', t0)]"

lemma sample_execution_created: "createTestExecution sample_execution = Inr sample_execution"
  by code_simp

lemma sample_manifest_bound: "bound_manifest sample_manifest (JStr ''ASSERTION'') sample_execution = Inr sample_manifest"
  by code_simp

lemma t0_parsed: "js_trim ''2026-01-01T00:00:00Z'' \<noteq> []" "date_parse ''2026-01-01T00:00:00Z'' = Some 1767225600000"
  by code_simp+

lemma sample_trims: "js_trim ''e'' \<noteq> []" "js_trim ''x'' \<noteq> []" "js_trim ''p'' \<noteq> []" "js_trim ''k'' \<noteq> []"
  by code_simp+

lemma assertion_evidence_created:
  assumes bound: "bound_manifest m (JStr ''ASSERTION'') x = Inr m" and m: "is_plain_object m"
    and fin: "oget x ''finishedAt'' = t0"
  shows "\<exists>ev. createEvidence x (JObj [(''id'', JStr ''e''), (''type'', JStr ''ASSERTION''), (''manifest'', m), (''createdAt'', t0)])
      now = Inr ev \<and>
    oget ev ''id'' = JStr ''e'' \<and> oget ev ''type'' = JStr ''ASSERTION'' \<and> oget ev ''manifest'' = m"
proof -
  let ?i = "JObj [(''id'', JStr ''e''), (''type'', JStr ''ASSERTION''), (''manifest'', m), (''createdAt'', t0)]"
  have c: "created_at ?i now = Inr t0" by (simp add: created_at_def t0_def)
  have obj: "requireObject m f = Inr m" for f using m by (auto simp: requireObject_def is_plain_object_iff)
  have en: "assertEnum EvidenceType (JStr ''ASSERTION'') f = Inr (JStr ''ASSERTION'')"
    "assertEnum EvidenceFreshness (JStr ''FRESH'') f = Inr (JStr ''FRESH'')" for f
    by (simp_all add: assertEnum_Inr EvidenceType_def EvidenceFreshness_def)
  have iso: "isoTimestamp t0 f = Inr t0" for f
    using t0_parsed by (simp add: isoTimestamp_def t0_def requireIsoTimestamp_def)
  have tl: "\<not> time_less (js_date_parse t0) (js_date_parse t0)" using t0_parsed by (simp add: t0_def)
  show ?thesis
    using sample_trims
    by (simp add: createEvidence_def obj en bound c iso fin tl Let_def mk_obj_def optionalString_def)
qed

lemma sample_evidence_created: "\<exists>ev. createEvidence sample_execution sample_evidence None = Inr ev \<and>
  oget ev ''id'' = JStr ''e'' \<and> oget ev ''type'' = JStr ''ASSERTION''"
proof -
  have "is_plain_object sample_manifest" "oget sample_execution ''finishedAt'' = t0"
    by (simp_all add: sample_manifest_def Let_def sample_execution_def)
  from assertion_evidence_created [OF sample_manifest_bound this, of None]
  show ?thesis unfolding sample_evidence_def by iprover
qed

lemma sample_bundle_created: "\<exists>b. createExecutionEvidenceBundle
    (JObj [(''execution'', sample_execution), (''evidence'', JArr [sample_evidence])]) None = Inr b"
proof -
  obtain ev where ev: "createEvidence sample_execution sample_evidence None = Inr ev"
    "oget ev ''type'' = JStr ''ASSERTION''" using sample_evidence_created by blast
  show ?thesis
    by (simp add: createExecutionEvidenceBundle_def sample_execution_created requireArray_def ev)
qed

theorem created_bundle_is_coherent_witness:
  "\<exists>b. createExecutionEvidenceBundle
      (JObj [(''execution'', sample_execution), (''evidence'', JArr [sample_evidence])]) None = Inr b \<and>
    consistent_execution (oget b ''execution'') \<and>
    (\<forall>item\<in>set (elems (oget b ''evidence'')). evidence_bound (oget b ''execution'') item)"
proof -
  obtain b where b: "createExecutionEvidenceBundle
    (JObj [(''execution'', sample_execution), (''evidence'', JArr [sample_evidence])]) None = Inr b"
    using sample_bundle_created by blast
  from created_bundle_is_coherent [OF b] b show ?thesis by blast
qed

theorem execution_passes_iff_all_passed_witness:
  "deriveExecutionStatus (JStr ''COMPLETED'') [sample_attempt] = ''PASS'' \<and>
   list_all (\<lambda>r. oget r ''status'' = JStr ''PASS'') (all_assertions [sample_attempt])"
proof -
  have d: "deriveExecutionStatus (JStr ''COMPLETED'') [sample_attempt] = ''PASS''" by code_simp
  then show ?thesis
    using execution_passes_iff_all_passed [of "JStr ''COMPLETED''" "[sample_attempt]"] by (simp add: list_all_iff)
qed

definition sample_bundle :: jsv where
  "sample_bundle = JObj [(''execution'', sample_execution), (''evidence'', JArr [])]"

lemma sample_bundle_signed: "\<exists>attested. signExecutionEvidenceBundle ''p'' sample_bundle ''k'' = Inr attested"
  using sample_trims
  by (simp add: signExecutionEvidenceBundle_def executionBundleSigningPayload_def sample_bundle_def sample_execution_def
      pget_def)

lemma sample_runner: "\<not> is_object (oget (oget (oget sample_bundle ''execution'') ''runner'') ''id'')"
  by code_simp

theorem signed_bundle_verifies_witness:
  "\<exists>attested. signExecutionEvidenceBundle ''p'' sample_bundle ''k'' = Inr attested \<and>
     verifyExecutionEvidenceAttestation ''p'' attested ''k'' = Inr True"
  using sample_bundle_signed signed_bundle_verifies [OF _ sample_runner] by blast

theorem attestation_authenticates_content_witness:
  "\<exists>attested. verifyExecutionEvidenceAttestation ''p'' attested ''k'' = Inr True \<and>
     (same_json (signing_content ''p'' attested) (signing_content ''p'' attested) \<or>
      (\<exists>s t. s \<noteq> t \<and> hmac_sha256_hex ''k'' s = hmac_sha256_hex ''k'' t))"
proof -
  obtain a where s: "signExecutionEvidenceBundle ''p'' sample_bundle ''k'' = Inr a" using sample_bundle_signed by blast
  note v = signed_verifies [OF s sample_runner]
  have "oget a ''execution'' = sample_execution \<and> oget a ''evidence'' = JArr []"
    using s by (auto simp: signExecutionEvidenceBundle_def bnd_eq_Inr pget_Inr sample_bundle_def map_of_spread)
  moreover have "json_value sample_execution" by code_simp
  ultimately have "json_value (signing_content ''p'' a)" by (simp add: signing_content_def)
  from attestation_authenticates_content [OF v v refl this this] v show ?thesis by blast
qed

end
