(* ===== verification/Decision_Workflow.thy ===== *)
theory Decision_Workflow
  imports Application_Context Decision_Governance
begin

section \<open>The decision review workflow\<close>

text \<open>
  The operations of \<open>TraceabilityApplication\<close> that propose a governed decision and move its review:
  who may act, in which status of the case an action is accepted, and when a decision is written to the
  store. The identity resolver maps an account to the person behind it and is a parameter.
\<close>

subsection \<open>Direct decisions\<close>

definition app_appendDecision :: "app_env \<Rightarrow> string \<Rightarrow> jsv \<Rightarrow> jsv \<Rightarrow> store \<Rightarrow> (store \<times> jsv) res" where
  "app_appendDecision env projectId input requestContext s =
     bnd (requireId (JStr projectId) ''projectId'') (\<lambda>_.
     bnd (require_input input ''decision input'') (\<lambda>_.
     bnd (forbid_server_fields input ''decision'' [''actorId'', ''actorRole'', ''createdAt'']) (\<lambda>_.
     let reviewer = ae_reviewerResolver env projectId requestContext in
     bnd (resolve_actor reviewer) (\<lambda>(actorId, actorRole).
     let policy = coalesce (ae_reviewPolicyResolver env projectId
           (JObj [(''reviewer'', reviewer), (''decisionInput'', input)])) (JObj []) in
     throw_if (oget policy ''requireDecisionReviewCases'' = JBool True)
       (AuthorizationErr ''Direct Decision creation is disabled; use a governed Decision review case'') (
     bnd (require_role (oget policy ''allowedRoles'') actorRole '' cannot decide Claims in this project'') (\<lambda>_.
     throw_if (\<not> role_allowed (oget policy ''allowedDecisionTypes'') (oget input ''type''))
       (AuthorizationErr (''Decision '' @ js_string (oget input ''type'') @ '' is not allowed by the review policy'')) (
     bnd (createDecision (with_fields input [(''actorId'', actorId), (''actorRole'', actorRole)]) (ae_clock env)) (\<lambda>decision.
     bnd (appendDecision projectId decision s) (\<lambda>(s', _).
     Inr (s', decision))))))))))"

subsection \<open>Cases\<close>

definition decision_policy :: "app_env \<Rightarrow> string \<Rightarrow> (string \<times> jsv) list \<Rightarrow> jsv" where
  "decision_policy env projectId context =
     coalesce (oget (ae_reviewPolicyResolver env projectId (JObj context)) ''decisionGovernance'') (JObj [])"

text \<open>The identities of the accounts of a case: \<open>Object.fromEntries(ids.map((id) => [id, resolve(id)]))\<close>.\<close>

definition identity_map :: "(jsv \<Rightarrow> jsv) \<Rightarrow> jsv \<Rightarrow> jsv list \<Rightarrow> jsv" where
  "identity_map resolve reviewCase events =
     JObj (js_map (map (\<lambda>i. (js_string i, resolve i))
       (js_value_set (oget reviewCase ''proposerId'' # map (\<lambda>e. oget e ''actorId'') events))))"

definition evaluateReview :: "app_env \<Rightarrow> jsv \<Rightarrow> jsv list \<Rightarrow> jsv \<Rightarrow> review_state res" where
  "evaluateReview env reviewCase events policy =
     evaluateDecisionReviewCase reviewCase (JArr events)
       (with_fields policy [(''actorIdentityMap'', identity_map (ae_actorIdentityResolver env) reviewCase events)])
       (ae_clock env)"

definition decisionReviewView :: "app_env \<Rightarrow> string \<Rightarrow> jsv \<Rightarrow> (jsv \<times> review_state) res" where
  "decisionReviewView env projectId stored =
     bnd (pget stored ''reviewCase'') (\<lambda>reviewCase.
     let policy = decision_policy env projectId [(''reviewCase'', reviewCase)] in
     bnd (evaluateReview env reviewCase (elems (oget stored ''events'')) policy) (\<lambda>evaluation.
     Inr (stored, evaluation)))"

definition check_break_glass_window :: "jsv \<Rightarrow> jsv \<Rightarrow> unit res" where
  "check_break_glass_window policy reviewCase =
     (if oget reviewCase ''approvalMode'' = JStr ''BREAK_GLASS'' then
        case coalesce (oget policy ''maxBreakGlassMinutes'') (JNum 60) of
          JNum maximumMinutes \<Rightarrow>
            throw_if (maximumMinutes < 1)
              (TypeErr ''decision governance policy.maxBreakGlassMinutes must be a positive integer'') (
            throw_if (time_less
                 (map_option (\<lambda>t. t + maximumMinutes * 60000) (js_date_parse (oget reviewCase ''createdAt'')))
                 (js_date_parse (oget (oget reviewCase ''proposedDecision'') ''validUntil'')))
              (AuthorizationErr (''Break-glass validity exceeds the '' @ int_str maximumMinutes @ ''-minute policy maximum''))
              (Inr ()))
        | _ \<Rightarrow> Inl (TypeErr ''decision governance policy.maxBreakGlassMinutes must be a positive integer'')
      else Inr ())"

definition app_createDecisionReviewCase ::
  "app_env \<Rightarrow> string \<Rightarrow> jsv \<Rightarrow> jsv \<Rightarrow> store \<Rightarrow> (store \<times> jsv \<times> review_state) res" where
  "app_createDecisionReviewCase env projectId input requestContext s =
     bnd (requireId (JStr projectId) ''projectId'') (\<lambda>_.
     bnd (require_input input ''decision review case input'') (\<lambda>_.
     bnd (forbid_server_fields input ''decisionReviewCase'' [''proposerId'', ''proposerRole'', ''createdAt'']) (\<lambda>_.
     let reviewer = ae_reviewerResolver env projectId requestContext in
     bnd (resolve_actor reviewer) (\<lambda>(proposerId, proposerRole).
     let policy = decision_policy env projectId [(''reviewer'', reviewer), (''decisionReviewCaseInput'', input)] in
     bnd (require_role (oget policy ''proposerRoles'') proposerRole '' cannot propose governed Decisions in this project'') (\<lambda>_.
     bnd (createDecisionReviewCase
            (with_fields input [(''proposerId'', proposerId), (''proposerRole'', proposerRole)]) (ae_clock env)) (\<lambda>reviewCase.
     bnd (check_break_glass_window policy reviewCase) (\<lambda>_.
     bnd (appendDecisionReviewCase projectId reviewCase s) (\<lambda>(s', stored).
     bnd (decisionReviewView env projectId stored) (\<lambda>view.
     Inr (s', view))))))))))"

definition app_getDecisionReviewCase ::
  "app_env \<Rightarrow> string \<Rightarrow> string \<Rightarrow> store \<Rightarrow> (jsv \<times> review_state) option res" where
  "app_getDecisionReviewCase env projectId caseId s =
     bnd (requireId (JStr projectId) ''projectId'') (\<lambda>_.
     bnd (requireId (JStr caseId) ''caseId'') (\<lambda>_.
     let stored = getDecisionReviewCase projectId caseId s in
     if truthy stored then bnd (decisionReviewView env projectId stored) (\<lambda>view. Inr (Some view)) else Inr None))"

subsection \<open>Events\<close>

text \<open>The roles that may approve or reject, by the approval mode of the case.\<close>

definition event_approval_roles :: "jsv \<Rightarrow> jsv \<Rightarrow> jsv list res" where
  "event_approval_roles reviewCase policy =
     (if oget reviewCase ''approvalMode'' = JStr ''BUSINESS_COMPLIANCE'' then
        bnd (array_elems (coalesce (oget policy ''businessRoles'') (JArr []))) (\<lambda>business.
        bnd (array_elems (coalesce (oget policy ''complianceRoles'') (JArr []))) (\<lambda>compliance.
        Inr (business @ compliance)))
      else if oget reviewCase ''approvalMode'' = JStr ''BREAK_GLASS'' then
        array_elems (coalesce (oget policy ''breakGlassRoles'') (JArr []))
      else array_elems (coalesce (oget policy ''approvalRoles'') (JArr [])))"

definition check_event_role :: "jsv \<Rightarrow> jsv \<Rightarrow> jsv \<Rightarrow> jsv \<Rightarrow> unit res" where
  "check_event_role reviewCase policy action actorRole =
     bnd (array_elems (coalesce (oget policy ''lifecycleRoles'') (JArr []))) (\<lambda>lifecycleRoles.
     bnd (event_approval_roles reviewCase policy) (\<lambda>approvalRoles.
     throw_if (one_of [''APPROVE'', ''REJECT''] action \<and> \<not> arr_includes approvalRoles actorRole)
       (AuthorizationErr (''Role '' @ js_string actorRole @ '' cannot '' @ to_lower (js_string action) @ '' this Decision case'')) (
     throw_if (one_of [''REVOKE'', ''DISPUTE'', ''REOPEN'', ''POST_REVIEW''] action \<and>
               \<not> arr_includes lifecycleRoles actorRole)
       (AuthorizationErr (''Role '' @ js_string actorRole @ '' cannot perform Decision lifecycle action '' @ js_string action))
       (Inr ()))))"

text \<open>Who approved since the case was last reopened.\<close>

definition round_approvers :: "(jsv \<Rightarrow> jsv) \<Rightarrow> jsv list \<Rightarrow> jsv list" where
  "round_approvers resolve events =
     map (\<lambda>e. resolve (oget e ''actorId''))
       (filter (\<lambda>e. oget e ''action'' = JStr ''APPROVE'') (after_reopen events))"

definition check_approval ::
  "(jsv \<Rightarrow> jsv) \<Rightarrow> jsv \<Rightarrow> jsv list \<Rightarrow> jsv \<Rightarrow> string \<Rightarrow> unit res" where
  "check_approval resolve reviewCase events actorId status =
     (let actorIdentity = resolve actorId; proposerIdentity = resolve (oget reviewCase ''proposerId'') in
      throw_if (\<not> truthy actorIdentity \<or> \<not> truthy proposerIdentity)
        (AuthorizationErr ''Complete the proposer and approver identity mapping before approval'') (
      throw_if (strict_eq actorIdentity proposerIdentity)
        (AuthorizationErr ''The proposer cannot approve their own governed Decision'') (
      throw_if (arr_includes (round_approvers resolve events) actorIdentity \<and> status = ''PENDING'')
        (ConflictErr (''Actor '' @ js_string actorId @ '' already approved this active review round'')) (
      throw_if (status \<noteq> ''PENDING'') (ConflictErr (''Cannot approve a case in '' @ status)) (Inr ())))))"

text \<open>In which status an action is accepted.\<close>

definition check_event_state :: "jsv \<Rightarrow> jsv \<Rightarrow> string \<Rightarrow> unit res" where
  "check_event_state reviewCase action status =
     throw_if (action = JStr ''REJECT'' \<and> status \<noteq> ''PENDING'') (ConflictErr (''Cannot reject a case in '' @ status)) (
     throw_if (one_of [''REVOKE'', ''DISPUTE''] action \<and> status \<notin> {''APPROVED'', ''POST_REVIEW_OVERDUE''})
       (ConflictErr (''Cannot '' @ to_lower (js_string action) @ '' a case in '' @ status)) (
     throw_if (action = JStr ''REOPEN'' \<and> status \<notin> {''REJECTED'', ''REVOKED'', ''DISPUTED''})
       (ConflictErr (''Cannot reopen a case in '' @ status)) (
     throw_if (action = JStr ''POST_REVIEW'' \<and> (oget reviewCase ''approvalMode'' \<noteq> JStr ''BREAK_GLASS'' \<or>
                 status \<notin> {''APPROVED'', ''POST_REVIEW_OVERDUE''}))
       (ConflictErr ''POST_REVIEW is only valid for an approved Break-glass case'') (Inr ()))))"

definition last_reopen :: "jsv list \<Rightarrow> jsv option" where
  "last_reopen events = List.find (\<lambda>e. oget e ''action'' = JStr ''REOPEN'') (rev events)"

text \<open>The decision an accepted event writes, if any.\<close>

definition materialized_decision ::
  "jsv \<Rightarrow> jsv list \<Rightarrow> jsv \<Rightarrow> jsv \<Rightarrow> bool \<Rightarrow> jsv \<Rightarrow> jsv \<Rightarrow> int option \<Rightarrow> jsv res" where
  "materialized_decision reviewCase events decisions event mayMaterialize actorId actorRole now =
     (let proposed = oget reviewCase ''proposedDecision'';
          action = oget event ''action'';
          proposedId = js_string (oget proposed ''id'');
          claimRef = map (\<lambda>k. (k, oget reviewCase k)) [''claimId'', ''claimVersion'', ''scopeId'', ''scopeVersion'']
      in
      if action = JStr ''APPROVE'' \<and> mayMaterialize then
        createDecision (with_fields proposed
          ((''id'', if decisions = JArr [] then oget proposed ''id''
                   else JStr (proposedId @ '':REOPEN:'' @ js_string
                     (case last_reopen events of None \<Rightarrow> oget event ''id''
                      | Some r \<Rightarrow> coalesce (oget r ''id'') (oget event ''id''))))
           # claimRef @ [(''actorId'', actorId), (''actorRole'', actorRole)])) now
      else if one_of [''REVOKE'', ''DISPUTE''] action then
        createDecision (JObj
          ((''id'', JStr (proposedId @ '':'' @ js_string action @ '':'' @ js_string (oget event ''id'')))
           # claimRef @
           [(''type'', JStr (if action = JStr ''REVOKE'' then ''DEPRECATED'' else ''DEFERRED'')),
            (''content'', oget event ''rationale''), (''actorId'', actorId), (''actorRole'', actorRole),
            (''evidenceRefs'', JArr []), (''validUntil'', JNull)])) now
      else Inr JNull)"

definition app_appendDecisionReviewEvent ::
  "app_env \<Rightarrow> string \<Rightarrow> string \<Rightarrow> jsv \<Rightarrow> jsv \<Rightarrow> store \<Rightarrow> (store \<times> jsv \<times> review_state) res" where
  "app_appendDecisionReviewEvent env projectId caseId input requestContext s =
     bnd (requireId (JStr projectId) ''projectId'') (\<lambda>_.
     bnd (requireId (JStr caseId) ''caseId'') (\<lambda>_.
     bnd (require_input input ''decision review event input'') (\<lambda>_.
     bnd (forbid_server_fields input ''decisionReviewEvent'' [''caseId'', ''actorId'', ''actorRole'', ''createdAt'']) (\<lambda>_.
     let reviewer = ae_reviewerResolver env projectId requestContext in
     bnd (resolve_actor reviewer) (\<lambda>(actorId, actorRole).
     let stored = getDecisionReviewCase projectId caseId s in
     throw_if (\<not> truthy stored) (ConflictErr (''DecisionReviewCase '' @ caseId @ '' does not exist'')) (
     let reviewCase = oget stored ''reviewCase'';
         events = elems (oget stored ''events'');
         policy = decision_policy env projectId [(''reviewer'', reviewer), (''reviewCase'', reviewCase),
           (''decisionReviewEventInput'', input)]
     in
     bnd (evaluateReview env reviewCase events policy) (\<lambda>current.
     bnd (createDecisionReviewEvent
            (with_fields input [(''caseId'', JStr caseId), (''actorId'', actorId), (''actorRole'', actorRole)])
            (ae_clock env)) (\<lambda>event.
     let action = oget event ''action'' in
     bnd (check_event_role reviewCase policy action actorRole) (\<lambda>_.
     bnd (if action = JStr ''APPROVE''
          then check_approval (ae_actorIdentityResolver env) reviewCase events actorId (rs_status current)
          else Inr ()) (\<lambda>_.
     bnd (check_event_state reviewCase action (rs_status current)) (\<lambda>_.
     bnd (evaluateReview env reviewCase (events @ [event]) policy) (\<lambda>next.
     throw_if (action = JStr ''APPROVE'' \<and> arr_includes (rs_ignoredApprovalEventIds next) (oget event ''id''))
       (AuthorizationErr ''This approval does not satisfy the configured role and separation policy'') (
     bnd (materialized_decision reviewCase events (oget stored ''decisions'') event (rs_mayMaterializeDecision next)
            actorId actorRole (ae_clock env)) (\<lambda>decision.
     bnd (appendDecisionReviewEvent projectId event decision s) (\<lambda>(s', persisted).
     bnd (decisionReviewView env projectId persisted) (\<lambda>view.
     Inr (s', view)))))))))))))))))"

subsection \<open>What an accepted event went through\<close>

lemma createDecisionReviewEvent_out:
  assumes "createDecisionReviewEvent input now = Inr event"
  shows "oget event ''action'' = oget input ''action''" and "oget event ''actorId'' = oget input ''actorId''"
    and "oget event ''caseId'' = oget input ''caseId''" and "js_string (oget event ''action'') \<in> set DecisionReviewAction"
    and "is_string (oget event ''actorId'')"
proof -
  note m = mk_obj_member [OF assms [unfolded createDecisionReviewEvent_def]]
  have "assertEnum DecisionReviewAction (oget input ''action'') ''decisionReviewEvent.action'' = Inr (oget event ''action'')"
    by (rule m) simp
  moreover have "requireNonEmptyString (oget input ''actorId'') ''decisionReviewEvent.actorId'' = Inr (oget event ''actorId'')"
    by (rule m) simp
  moreover have "requireNonEmptyString (oget input ''caseId'') ''decisionReviewEvent.caseId'' = Inr (oget event ''caseId'')"
    by (rule m) simp
  ultimately show "oget event ''action'' = oget input ''action''" and "oget event ''actorId'' = oget input ''actorId''"
    and "oget event ''caseId'' = oget input ''caseId''" and "js_string (oget event ''action'') \<in> set DecisionReviewAction"
    and "is_string (oget event ''actorId'')"
    by (auto simp: assertEnum_Inr requireNonEmptyString_Inr)
qed

lemma getDecisionReviewCase_stored:
  assumes "truthy (getDecisionReviewCase p c s)"
  obtains reviewCase where "map_of (st_decisionReviewCases s) (store_key p c) = Some reviewCase"
    "oget (getDecisionReviewCase p c s) ''reviewCase'' = reviewCase"
    "elems (oget (getDecisionReviewCase p c s) ''events'') = rows (st_decisionReviewEvents s) (store_key p c)"
  using assms by (auto simp: getDecisionReviewCase_def Let_def split: option.splits)

text \<open>The policy a review event is judged by: the project's, for this reviewer, case and request.\<close>

abbreviation event_policy :: "app_env \<Rightarrow> string \<Rightarrow> jsv \<Rightarrow> jsv \<Rightarrow> jsv \<Rightarrow> jsv" where
  "event_policy env p ctx reviewCase input \<equiv> decision_policy env p
     [(''reviewer'', ae_reviewerResolver env p ctx), (''reviewCase'', reviewCase), (''decisionReviewEventInput'', input)]"

text \<open>The event of a request: its fields, with the case and the authenticated reviewer of the server.\<close>

abbreviation review_event_of :: "app_env \<Rightarrow> string \<Rightarrow> jsv \<Rightarrow> jsv \<Rightarrow> jsv \<Rightarrow> jsv res" where
  "review_event_of env c input actorId actorRole \<equiv> createDecisionReviewEvent
     (with_fields input [(''caseId'', JStr c), (''actorId'', actorId), (''actorRole'', actorRole)]) (ae_clock env)"

lemma app_review_event_governed:
  assumes "app_appendDecisionReviewEvent env p c input ctx s = Inr (s', view)"
  obtains reviewCase events decisions policy actorId actorRole current event next_state decision persisted where
    "map_of (st_decisionReviewCases s) (store_key p c) = Some reviewCase"
    "events = rows (st_decisionReviewEvents s) (store_key p c)"
    "evaluateReview env reviewCase events policy = Inr current"
    "oget event ''action'' = oget input ''action''" "js_string (oget event ''action'') \<in> set DecisionReviewAction"
    "oget event ''actorId'' = actorId" "is_string actorId" "oget event ''caseId'' = JStr c"
    "check_event_role reviewCase policy (oget event ''action'') actorRole = Inr ()"
    "oget event ''action'' = JStr ''APPROVE'' \<longrightarrow>
       check_approval (ae_actorIdentityResolver env) reviewCase events actorId (rs_status current) = Inr ()"
    "check_event_state reviewCase (oget event ''action'') (rs_status current) = Inr ()"
    "evaluateReview env reviewCase (events @ [event]) policy = Inr next_state"
    "materialized_decision reviewCase events decisions event (rs_mayMaterializeDecision next_state)
       actorId actorRole (ae_clock env) = Inr decision"
    "appendDecisionReviewEvent p event decision s = Inr (s', persisted)"
    "resolve_actor (ae_reviewerResolver env p ctx) = Inr (actorId, actorRole)"
    "policy = event_policy env p ctx reviewCase input"
    "review_event_of env c input actorId actorRole = Inr event"
proof -
  let ?st = "getDecisionReviewCase p c s"
  let ?policy = "event_policy env p ctx (oget ?st ''reviewCase'') input"
  from assms obtain actorId actorRole current event u1 u2 u3 next_state decision persisted where
    st: "truthy ?st"
    and cur: "evaluateReview env (oget ?st ''reviewCase'') (elems (oget ?st ''events'')) ?policy = Inr current"
    and cr: "review_event_of env c input actorId actorRole = Inr event"
    and role: "check_event_role (oget ?st ''reviewCase'') ?policy (oget event ''action'') actorRole = Inr u1"
    and app: "(if oget event ''action'' = JStr ''APPROVE''
          then check_approval (ae_actorIdentityResolver env) (oget ?st ''reviewCase'') (elems (oget ?st ''events'')) actorId
            (rs_status current)
          else Inr ()) = Inr u2"
    and state: "check_event_state (oget ?st ''reviewCase'') (oget event ''action'') (rs_status current) = Inr u3"
    and nxt: "evaluateReview env (oget ?st ''reviewCase'') (elems (oget ?st ''events'') @ [event]) ?policy = Inr next_state"
    and dec: "materialized_decision (oget ?st ''reviewCase'') (elems (oget ?st ''events'')) (oget ?st ''decisions'') event
       (rs_mayMaterializeDecision next_state) actorId actorRole (ae_clock env) = Inr decision"
    and ap: "appendDecisionReviewEvent p event decision s = Inr (s', persisted)"
    and obj: "is_plain_object input"
    and ra: "resolve_actor (ae_reviewerResolver env p ctx) = Inr (actorId, actorRole)"
    unfolding app_appendDecisionReviewEvent_def Let_def
    apply (simp only: bnd_eq_Inr throw_if_eq_Inr split_paired_Ex prod.case not_not require_input_Inr)
    apply (elim exE conjE)
    apply (rule that)
              apply assumption
             apply assumption
            apply assumption
           apply assumption
          apply assumption
         apply assumption
        apply assumption
       apply assumption
      apply simp
     apply assumption
    apply assumption
    done
  from obj obtain fs where fs: "input = JObj fs" by (auto simp: is_plain_object_iff)
  let ?in = "with_fields input [(''caseId'', JStr c), (''actorId'', actorId), (''actorRole'', actorRole)]"
  have inp: "oget ?in ''action'' = oget input ''action''" "oget ?in ''actorId'' = actorId" "oget ?in ''caseId'' = JStr c"
    by (simp_all add: oget_with_fields fs)
  note ev = createDecisionReviewEvent_out [OF cr, unfolded inp]
  from st obtain reviewCase where rc: "map_of (st_decisionReviewCases s) (store_key p c) = Some reviewCase"
    "oget ?st ''reviewCase'' = reviewCase"
    "elems (oget ?st ''events'') = rows (st_decisionReviewEvents s) (store_key p c)"
    by (rule getDecisionReviewCase_stored)
  have ap': "oget event ''action'' = JStr ''APPROVE'' \<longrightarrow>
       check_approval (ae_actorIdentityResolver env) (oget ?st ''reviewCase'') (elems (oget ?st ''events'')) actorId
         (rs_status current) = Inr ()"
  proof
    assume "oget event ''action'' = JStr ''APPROVE''"
    from app [unfolded if_P [OF this]] show "check_approval (ae_actorIdentityResolver env)
        (oget ?st ''reviewCase'') (elems (oget ?st ''events'')) actorId (rs_status current) = Inr ()" by simp
  qed
  show thesis
    by (rule that [of reviewCase "rows (st_decisionReviewEvents s) (store_key p c)"
          "event_policy env p ctx reviewCase input" current event actorId actorRole next_state
          "oget ?st ''decisions''" decision persisted])
       (use rc(1) cur [unfolded rc(2,3)] ev role [unfolded rc(2)] ap' [unfolded rc(2,3)] state [unfolded rc(2)]
          nxt [unfolded rc(2,3)] dec [unfolded rc(2,3)] ap ra cr in simp_all)
qed

lemma app_review_event_run:
  assumes "app_appendDecisionReviewEvent env p c input ctx s = Inr (s', view)"
  obtains reviewCase events decisions policy actorId actorRole current event next_state decision persisted where
    "map_of (st_decisionReviewCases s) (store_key p c) = Some reviewCase"
    "events = rows (st_decisionReviewEvents s) (store_key p c)"
    "evaluateReview env reviewCase events policy = Inr current"
    "oget event ''action'' = oget input ''action''" "js_string (oget event ''action'') \<in> set DecisionReviewAction"
    "oget event ''actorId'' = actorId" "is_string actorId" "oget event ''caseId'' = JStr c"
    "check_event_role reviewCase policy (oget event ''action'') actorRole = Inr ()"
    "oget event ''action'' = JStr ''APPROVE'' \<longrightarrow>
       check_approval (ae_actorIdentityResolver env) reviewCase events actorId (rs_status current) = Inr ()"
    "check_event_state reviewCase (oget event ''action'') (rs_status current) = Inr ()"
    "evaluateReview env reviewCase (events @ [event]) policy = Inr next_state"
    "materialized_decision reviewCase events decisions event (rs_mayMaterializeDecision next_state)
       actorId actorRole (ae_clock env) = Inr decision"
    "appendDecisionReviewEvent p event decision s = Inr (s', persisted)"
  by (rule app_review_event_governed [OF assms]) (rule that)

subsection \<open>The abstract review\<close>

text \<open>
  What the workflow promises: the status of a case and the action that moves it. An approval may or may
  not complete the round; a reopened case is pending unless its deadline has passed.
\<close>

inductive review_step :: "string \<Rightarrow> string \<Rightarrow> string \<Rightarrow> bool" where
  rv_approve: "t \<in> {''PENDING'', ''APPROVED'', ''POST_REVIEW_OVERDUE''} \<Longrightarrow> review_step ''PENDING'' ''APPROVE'' t"
| rv_reject: "review_step ''PENDING'' ''REJECT'' ''REJECTED''"
| rv_revoke: "s \<in> {''APPROVED'', ''POST_REVIEW_OVERDUE''} \<Longrightarrow> review_step s ''REVOKE'' ''REVOKED''"
| rv_dispute: "s \<in> {''APPROVED'', ''POST_REVIEW_OVERDUE''} \<Longrightarrow> review_step s ''DISPUTE'' ''DISPUTED''"
| rv_reopen: "s \<in> {''REJECTED'', ''REVOKED'', ''DISPUTED''} \<Longrightarrow> t \<in> {''PENDING'', ''EXPIRED''} \<Longrightarrow>
    review_step s ''REOPEN'' t"
| rv_post: "s \<in> {''APPROVED'', ''POST_REVIEW_OVERDUE''} \<Longrightarrow> review_step s ''POST_REVIEW'' ''APPROVED''"

inductive_cases review_reopenE: "review_step s ''REOPEN'' t"

lemma review_status_eq:
  assumes "evaluateReview env reviewCase events policy = Inr r"
  obtains allowed groups now q where
    "q = with_fields policy [(''actorIdentityMap'', identity_map (ae_actorIdentityResolver env) reviewCase events)]"
    "role_policy reviewCase q = Inr (allowed, groups)" "ae_clock env = Some now"
    "rs_status r = review_status reviewCase (round_satisfied reviewCase q allowed groups (after_reopen events))
       (terminal_event (after_reopen events)) (round_post_reviewed (after_reopen events)) now"
    "rs_mayMaterializeDecision r \<longleftrightarrow> round_satisfied reviewCase q allowed groups (after_reopen events) \<and>
       terminal_event (after_reopen events) = None"
  using assms unfolding evaluateReview_def by (elim evaluate_run) simp

lemma configuredRoles_with:
  "k \<noteq> ''actorIdentityMap'' \<Longrightarrow>
   configuredRoles (with_fields policy [(''actorIdentityMap'', m)]) k = configuredRoles (JObj (props policy)) k"
  by (simp add: configuredRoles_def oget_with_fields)

lemma with_identity_map: "role_policy reviewCase (with_fields policy [(''actorIdentityMap'', m)]) =
   role_policy reviewCase (with_fields policy [(''actorIdentityMap'', n)])"
  by (simp add: role_policy_def configuredRoles_with cong: if_cong)

lemma string_key_inj: "is_string a \<Longrightarrow> is_string b \<Longrightarrow> js_string a = js_string b \<Longrightarrow> a = b"
  by (auto simp: is_string_iff)

text \<open>What a resolved map answers for the accounts it was built from.\<close>

lemma identity_map_lookup:
  assumes "i \<in> set (oget reviewCase ''proposerId'' # map (\<lambda>e. oget e ''actorId'') events)"
    and "list_all is_string (oget reviewCase ''proposerId'' # map (\<lambda>e. oget e ''actorId'') events)"
  shows "oget (identity_map resolve reviewCase events) (js_string i) = resolve i"
proof -
  let ?ids = "oget reviewCase ''proposerId'' # map (\<lambda>e. oget e ''actorId'') events"
  have ids: "js_value_set ?ids = js_set ?ids" by (rule js_value_set_strs [OF assms(2)])
  have set: "set (js_value_set ?ids) = set ?ids" unfolding ids by (rule set_js_set)
  have dist: "distinct (js_value_set ?ids)" unfolding ids by (rule distinct_js_set)
  let ?es = "map (\<lambda>i. (js_string i, resolve i)) (js_value_set ?ids)"
  have inj: "inj_on js_string (set (js_value_set ?ids))"
    using assms(2) string_key_inj unfolding set inj_on_def list_all_iff by blast
  have d: "distinct (map fst (rev ?es))"
    using inj dist by (simp only: rev_map [symmetric] distinct_rev map_map comp_def fst_conv distinct_map)
  have "i \<in> set (js_value_set ?ids)" using assms(1) unfolding set .
  then have "(js_string i, resolve i) \<in> set (rev ?es)" by (simp only: set_rev set_map image_eqI [of _ "\<lambda>i. (js_string i, resolve i)"])
  with d have "map_of (rev ?es) (js_string i) = Some (resolve i)" by (rule map_of_is_SomeI)
  then show ?thesis by (simp add: identity_map_def map_of_js_map)
qed

text \<open>Whether a round is satisfied does not depend on accounts that are added to the map later.\<close>

lemma round_satisfied_cong:
  assumes "\<And>e. e \<in> set active \<Longrightarrow> oget e ''action'' = JStr ''APPROVE'' \<Longrightarrow>
      identity_of q (oget e ''actorId'') = identity_of q' (oget e ''actorId'')"
    and "identity_of q (oget c ''proposerId'') = identity_of q' (oget c ''proposerId'')"
  shows "round_satisfied c q al gr active = round_satisfied c q' al gr active"
proof -
  have "round_approvals c q al active = round_approvals c q' al active"
    using assms by (auto simp: round_approvals_def valid_approval_def Let_def intro!: filter_cong)
  moreover have "map (\<lambda>e. identity_of q (oget e ''actorId'')) (round_approvals c q' al active) =
      map (\<lambda>e. identity_of q' (oget e ''actorId'')) (round_approvals c q' al active)"
    using assms(1) by (auto simp: round_approvals_in)
  ultimately show ?thesis by (simp only: round_satisfied_def)
qed

definition typed_actors :: "jsv \<Rightarrow> jsv list \<Rightarrow> bool" where
  "typed_actors reviewCase events \<longleftrightarrow>
     is_string (oget reviewCase ''proposerId'') \<and> list_all (\<lambda>e. is_string (oget e ''actorId'')) events"

lemma identity_of_map:
  assumes "typed_actors c events"
    and "i = oget c ''proposerId'' \<or> (\<exists>e\<in>set events. i = oget e ''actorId'')"
  shows "identity_of (with_fields policy [(''actorIdentityMap'', identity_map resolve c events)]) i =
    coalesce (resolve i) JNull"
proof -
  have "oget (identity_map resolve c events) (js_string i) = resolve i"
    using assms by (intro identity_map_lookup) (auto simp: typed_actors_def list_all_iff)
  then show ?thesis by (simp add: identity_of_def oget_with_fields identity_map_def)
qed

lemma after_reopen_reopen: "oget e ''action'' = JStr ''REOPEN'' \<Longrightarrow> after_reopen (es @ [e]) = []"
  by (simp add: after_reopen_def)

lemma not_satisfied_Nil: "\<not> round_satisfied c q al gr []"
  by (simp add: round_satisfied_def round_approvals_def minimum_approvals_def)

lemma round_satisfied_snoc:
  "oget e ''action'' \<noteq> JStr ''APPROVE'' \<Longrightarrow> round_satisfied c q al gr (es @ [e]) = round_satisfied c q al gr es"
  by (simp add: round_satisfied_def round_approvals_def)

text \<open>The status of an open case: what it says about the round and the deadlines.\<close>

lemma review_status_pending:
  "review_status c b te post now = ''PENDING'' \<longleftrightarrow>
     \<not> b \<and> te = None \<and> \<not> time_le (js_date_parse (oget c ''expiresAt'')) (Some now)"
  by (cases te) (auto simp: review_status_def Let_def terminal_status_def)

lemma review_status_approved:
  "review_status c b te post now \<in> {''APPROVED'', ''POST_REVIEW_OVERDUE''} \<longleftrightarrow> b \<and> te = None"
  by (cases te) (auto simp: review_status_def Let_def terminal_status_def)

lemma review_status_post_reviewed: "review_status c True None True now = ''APPROVED''"
  by (simp add: review_status_def)

subsection \<open>The runs of a reviewed project\<close>

text \<open>
  The stores a project reaches when its cases and review events go through the application with one
  identity resolver; any other operation of the store may come between.
\<close>

inductive reviewed :: "(jsv \<Rightarrow> jsv) \<Rightarrow> string \<Rightarrow> store \<Rightarrow> bool" for resolve p where
  rev_start: "st_decisionReviewCases s = [] \<Longrightarrow> st_decisionReviewEvents s = [] \<Longrightarrow> reviewed resolve p s"
| rev_case: "reviewed resolve p s \<Longrightarrow> ae_actorIdentityResolver env = resolve \<Longrightarrow>
    app_createDecisionReviewCase env p input ctx s = Inr (s', view) \<Longrightarrow> reviewed resolve p s'"
| rev_event: "reviewed resolve p s \<Longrightarrow> ae_actorIdentityResolver env = resolve \<Longrightarrow>
    app_appendDecisionReviewEvent env p c input ctx s = Inr (s', view) \<Longrightarrow> reviewed resolve p s'"
| rev_other: "reviewed resolve p s \<Longrightarrow> store_step l s s' \<Longrightarrow>
    st_decisionReviewCases s' = st_decisionReviewCases s \<Longrightarrow>
    st_decisionReviewEvents s' = st_decisionReviewEvents s \<Longrightarrow> reviewed resolve p s'"

abbreviation case_events :: "string \<Rightarrow> string \<Rightarrow> store \<Rightarrow> jsv list" where
  "case_events p c s \<equiv> rows (st_decisionReviewEvents s) (store_key p c)"

abbreviation case_of :: "string \<Rightarrow> string \<Rightarrow> store \<Rightarrow> jsv option" where
  "case_of p c s \<equiv> map_of (st_decisionReviewCases s) (store_key p c)"

text \<open>The approvers of the current round are different people, none of them the proposer.\<close>

definition independent_round :: "(jsv \<Rightarrow> jsv) \<Rightarrow> jsv \<Rightarrow> jsv list \<Rightarrow> bool" where
  "independent_round resolve reviewCase events \<longleftrightarrow>
     (let approvers = round_approvers resolve events in
      js_value_set approvers = approvers \<and>
      (\<forall>x\<in>set approvers. truthy x \<and> \<not> strict_eq x (resolve (oget reviewCase ''proposerId''))))"

definition review_inv :: "(jsv \<Rightarrow> jsv) \<Rightarrow> string \<Rightarrow> store \<Rightarrow> bool" where
  "review_inv resolve p s \<longleftrightarrow> (\<forall>c. case case_of p c s of
      None \<Rightarrow> case_events p c s = []
    | Some reviewCase \<Rightarrow> typed_actors reviewCase (case_events p c s) \<and>
        independent_round resolve reviewCase (case_events p c s))"

lemma independent_round_Nil: "independent_round resolve rc []"
  by (simp add: independent_round_def round_approvers_def after_reopen_def)

lemma js_value_set_snoc: "js_value_set xs = xs \<Longrightarrow> \<not> arr_includes xs x \<Longrightarrow> js_value_set (xs @ [x]) = xs @ [x]"
proof (induction xs)
  case (Cons y ys)
  have fx: "filter (\<lambda>z. \<not> strict_eq y z) (js_value_set ys) = ys" using Cons.prems(1) by simp
  have len: "length (js_value_set zs) \<le> length zs" for zs
    by (induction zs) (auto intro: le_trans [OF length_filter_le])
  have "length ys \<le> length (js_value_set ys)" using arg_cong [OF fx, of length] length_filter_le by metis
  have "js_value_set ys = ys"
    using fx len [of ys] by (metis filter_id_conv length_filter_less le_antisym length_filter_le not_less)
  with Cons have "js_value_set (ys @ [x]) = ys @ [x]" by (simp add: arr_includes_def)
  with fx \<open>js_value_set ys = ys\<close> Cons.prems(2) show ?case by (auto simp: arr_includes_def)
qed simp

lemma independent_round_reopen: "oget e ''action'' = JStr ''REOPEN'' \<Longrightarrow> independent_round resolve rc (es @ [e])"
  by (simp add: independent_round_def round_approvers_def after_reopen_reopen)

lemma round_approvers_other:
  "oget e ''action'' \<noteq> JStr ''REOPEN'' \<Longrightarrow> oget e ''action'' \<noteq> JStr ''APPROVE'' \<Longrightarrow>
   round_approvers resolve (es @ [e]) = round_approvers resolve es"
  by (simp add: round_approvers_def after_reopen_snoc)

lemma round_approvers_approve:
  "oget e ''action'' = JStr ''APPROVE'' \<Longrightarrow>
   round_approvers resolve (es @ [e]) = round_approvers resolve es @ [resolve (oget e ''actorId'')]"
  by (simp add: round_approvers_def after_reopen_snoc)

lemma check_approval_Inr:
  "check_approval resolve rc events actorId status = Inr u \<longleftrightarrow>
     truthy (resolve actorId) \<and> truthy (resolve (oget rc ''proposerId'')) \<and>
     \<not> strict_eq (resolve actorId) (resolve (oget rc ''proposerId'')) \<and>
     \<not> arr_includes (round_approvers resolve events) (resolve actorId) \<and> status = ''PENDING''"
  by (auto simp: check_approval_def Let_def throw_if_eq_Inr)

lemma independent_round_snoc:
  assumes "independent_round resolve rc events"
    and "oget e ''action'' = JStr ''APPROVE'' \<longrightarrow> check_approval resolve rc events (oget e ''actorId'') status = Inr ()"
  shows "independent_round resolve rc (events @ [e])"
proof (cases "oget e ''action'' = JStr ''REOPEN''")
  case False
  show ?thesis
  proof (cases "oget e ''action'' = JStr ''APPROVE''")
    case True
    with assms(2) have c: "check_approval resolve rc events (oget e ''actorId'') status = Inr ()" by simp
    with assms(1) show ?thesis
      unfolding independent_round_def Let_def round_approvers_approve [OF True] check_approval_Inr
      by (auto intro: js_value_set_snoc)
  next
    case no: False
    with assms(1) show ?thesis by (simp add: independent_round_def round_approvers_other [OF False no])
  qed
qed (rule independent_round_reopen)

text \<open>The effect of the two store operations on cases and logs.\<close>

lemma review_case_effect:
  assumes "appendDecisionReviewCase p rc s = Inr (s', r)"
  shows "st_decisionReviewEvents s' = st_decisionReviewEvents s \<and>
    put_once same_record (''DecisionReviewCase '' @ js_string (oget rc ''id'') @ '' conflicts with an existing immutable record'')
      (st_decisionReviewCases s) (store_key p (js_string (oget rc ''id''))) rc = Inr (st_decisionReviewCases s')"
  using assms
  by (auto simp: appendDecisionReviewCase_def appendVersion_def bnd_eq_Inr throw_if_eq_Inr Let_def split: option.splits)

lemma review_event_effect:
  assumes "appendDecisionReviewEvent p e d s = Inr (s', r)" "oget e ''caseId'' = JStr c"
  shows "st_decisionReviewCases s' = st_decisionReviewCases s"
    and "\<not> truthy d \<Longrightarrow> st_decisions s' = st_decisions s"
    and "truthy d \<Longrightarrow> \<exists>s1. appendDecision p d s = Inr (s1, d) \<and> st_decisions s' = st_decisions s1"
    and "case_events p c s' = case_events p c s \<or> case_events p c s' = case_events p c s @ [e]"
    and "c' \<noteq> c \<Longrightarrow> case_events p c' s' = case_events p c' s"
proof -
  let ?k = "store_key p c"
  from assms obtain m events s2 where
    ev: "append_event m (case_events p c s) e = Inr events"
    and s2: "(if truthy d
           then bnd (appendDecision p d s) (\<lambda>(s1, _).
             let ids = rows (st_decisionReviewMaterializations s1) ?k;
                 ids' = (if arr_includes ids (oget d ''id'') then ids else ids @ [oget d ''id''])
             in Inr (s1\<lparr>st_decisionReviewMaterializations :=
                  AList.update ?k ids' (st_decisionReviewMaterializations s1)\<rparr>))
           else Inr s) = Inr s2"
    and s': "s' = s2\<lparr>st_decisionReviewEvents := AList.update ?k events (st_decisionReviewEvents s2)\<rparr>"
    by (auto simp: appendDecisionReviewEvent_def Let_def bnd_eq_Inr throw_if_eq_Inr)
  have same: "st_decisionReviewCases s2 = st_decisionReviewCases s \<and> st_decisionReviewEvents s2 = st_decisionReviewEvents s \<and>
    (\<not> truthy d \<longrightarrow> st_decisions s2 = st_decisions s) \<and>
    (truthy d \<longrightarrow> (\<exists>s1. appendDecision p d s = Inr (s1, d) \<and> st_decisions s2 = st_decisions s1))"
  proof (cases "truthy d")
    case True
    with s2 obtain s1 x ids where s1: "appendDecision p d s = Inr (s1, x)"
      and s2': "s2 = s1\<lparr>st_decisionReviewMaterializations := ids\<rparr>" by (auto simp: bnd_eq_Inr Let_def)
    have x: "x = d" and eq: "s1 = s\<lparr>st_decisions := st_decisions s1\<rparr>" using appendDecision_result [OF s1] by auto
    have "st_decisionReviewCases s1 = st_decisionReviewCases s" "st_decisionReviewEvents s1 = st_decisionReviewEvents s"
      by (subst eq, simp)+
    with True s1 x show ?thesis by (simp add: s2')
  next
    case False
    with s2 show ?thesis by simp
  qed
  then show "st_decisionReviewCases s' = st_decisionReviewCases s"
    and "\<not> truthy d \<Longrightarrow> st_decisions s' = st_decisions s"
    and "truthy d \<Longrightarrow> \<exists>s1. appendDecision p d s = Inr (s1, d) \<and> st_decisions s' = st_decisions s1"
    by (simp_all add: s')
  from ev have "events = case_events p c s \<or> events = case_events p c s @ [e]" by (cases rule: append_event_cases) auto
  with same show "case_events p c s' = case_events p c s \<or> case_events p c s' = case_events p c s @ [e]"
    by (simp add: s' rows_update)
  show "c' \<noteq> c \<Longrightarrow> case_events p c' s' = case_events p c' s"
    using same by (simp add: s' rows_update store_key_def)
qed

text \<open>The event is on the log of its case afterwards: added, or already there with the same content.\<close>

definition event_logged :: "jsv \<Rightarrow> jsv list \<Rightarrow> jsv list \<Rightarrow> bool" where
  "event_logged event before after \<longleftrightarrow>
     after = before @ [event] \<or> after = before \<and> list_ex (\<lambda>e. same_value e event) before"

lemma append_event_logged: "append_event m events e = Inr events' \<Longrightarrow> event_logged e events events'"
proof -
  assume a: "append_event m events e = Inr events'"
  show ?thesis
  proof (cases "find_by_id events e")
    case None
    with a show ?thesis by (simp add: append_event_def event_logged_def)
  next
    case (Some x)
    then have "x \<in> set events" unfolding find_by_id_def by (auto simp: find_Some_iff)
    with a Some show ?thesis by (auto simp: append_event_def event_logged_def list_ex_iff split: if_splits)
  qed
qed

lemma review_event_logged:
  assumes "appendDecisionReviewEvent p e d s = Inr (s', r)" "oget e ''caseId'' = JStr c"
  shows "event_logged e (case_events p c s) (case_events p c s')"
proof -
  let ?k = "store_key p c"
  from assms obtain m events s2 where ev: "append_event m (case_events p c s) e = Inr events"
    and s': "s' = s2\<lparr>st_decisionReviewEvents := AList.update ?k events (st_decisionReviewEvents s2)\<rparr>"
    by (auto simp: appendDecisionReviewEvent_def Let_def bnd_eq_Inr throw_if_eq_Inr)
  from append_event_logged [OF ev] show ?thesis by (simp add: s' rows_update)
qed

lemma createDecisionReviewCase_proposer:
  assumes "createDecisionReviewCase input now = Inr rc"
  shows "is_string (oget rc ''proposerId'') \<and> is_string (oget rc ''id'')"
proof -
  from assms obtain es where
    es: "mk_obj es = Inr rc"
      "map_of es ''proposerId'' = Some (requireNonEmptyString (oget input ''proposerId'') ''decisionReviewCase.proposerId'')"
      "map_of es ''id'' = Some (requireNonEmptyString (oget input ''id'') ''decisionReviewCase.id'')"
    unfolding createDecisionReviewCase_def Let_def
    apply (simp only: bnd_eq_Inr throw_if_eq_Inr)
    apply (elim exE conjE)
    apply (rule that)
      apply assumption
     apply simp_all
    done
  show ?thesis using es(2,3) [THEN mk_obj_member [OF es(1)]] by (auto simp: requireNonEmptyString_Inr)
qed

lemma app_create_case_run:
  assumes "app_createDecisionReviewCase env p input ctx s = Inr (s', view)"
  obtains rc i t r where "createDecisionReviewCase i t = Inr rc" "appendDecisionReviewCase p rc s = Inr (s', r)"
  using assms unfolding app_createDecisionReviewCase_def Let_def
  apply (simp only: bnd_eq_Inr split_paired_Ex prod.case)
  apply (elim exE conjE)
  apply (rule that)
   apply assumption
  apply simp
  done

lemma review_invD:
  "review_inv resolve p s \<Longrightarrow> case_of p c s = Some rc \<Longrightarrow>
   typed_actors rc (case_events p c s) \<and> independent_round resolve rc (case_events p c s)"
  by (auto simp: review_inv_def dest: spec [of _ c])

lemma reviewed_inv: "reviewed resolve p s \<Longrightarrow> review_inv resolve p s"
proof (induction rule: reviewed.induct)
  case (rev_start s)
  then show ?case by (simp add: review_inv_def rows_def)
next
  case (rev_case s env input ctx s' view)
  from rev_case.hyps(3) obtain rc i t r where
    cr: "createDecisionReviewCase i t = Inr rc" and ap: "appendDecisionReviewCase p rc s = Inr (s', r)"
    by (rule app_create_case_run)
  note eff = review_case_effect [OF ap]
  from createDecisionReviewCase_proposer [OF cr] obtain i where
    i: "oget rc ''id'' = JStr i" and pr: "is_string (oget rc ''proposerId'')" by (auto simp: is_string_iff)
  show ?case
    unfolding review_inv_def
  proof
    fix c
    have ev: "case_events p c s' = case_events p c s" using eff by simp
    have old: "case case_of p c s of None \<Rightarrow> case_events p c s = []
      | Some rc \<Rightarrow> typed_actors rc (case_events p c s) \<and> independent_round resolve rc (case_events p c s)"
      using rev_case.IH by (simp add: review_inv_def)
    from eff [THEN conjunct2] show "case case_of p c s' of None \<Rightarrow> case_events p c s' = []
      | Some rc \<Rightarrow> typed_actors rc (case_events p c s') \<and> independent_round resolve rc (case_events p c s')"
    proof (cases rule: put_once_cases)
      case (kept w)
      show ?thesis unfolding ev kept(3) by (rule old)
    next
      case fresh
      show ?thesis
      proof (cases "case_of p c s")
        case (Some x)
        then have "case_of p c s' = Some x" unfolding fresh(2) by (simp add: map_add_def split: option.splits)
        with old ev Some show ?thesis by simp
      next
        case None
        then have "case_of p c s' = None \<or> case_of p c s' = Some rc"
          unfolding fresh(2) by (auto simp: map_add_def)
        with old ev None pr show ?thesis by (auto simp: typed_actors_def independent_round_Nil)
      qed
    qed
  qed
next
  case (rev_event s env c input ctx s' view)
  from rev_event.hyps(3) obtain rc events decisions policy actorId actorRole current event ns decision persisted where
    rc: "case_of p c s = Some rc"
    and evs: "events = case_events p c s"
    and 0: "evaluateReview env rc events policy = Inr current"
      "oget event ''action'' = oget input ''action''" "js_string (oget event ''action'') \<in> set DecisionReviewAction"
    and act: "oget event ''actorId'' = actorId" "is_string actorId" "oget event ''caseId'' = JStr c"
    and "check_event_role rc policy (oget event ''action'') actorRole = Inr ()"
    and ok': "oget event ''action'' = JStr ''APPROVE'' \<longrightarrow>
       check_approval (ae_actorIdentityResolver env) rc events actorId (rs_status current) = Inr ()"
    and 1: "check_event_state rc (oget event ''action'') (rs_status current) = Inr ()"
      "evaluateReview env rc (events @ [event]) policy = Inr ns"
      "materialized_decision rc events decisions event (rs_mayMaterializeDecision ns) actorId actorRole (ae_clock env) = Inr decision"
    and ap: "appendDecisionReviewEvent p event decision s = Inr (s', persisted)"
    by (rule app_review_event_run)
  note ok = ok' [unfolded evs]
  note eff = review_event_effect [OF ap act(3)]
  note inv = review_invD [OF rev_event.IH rc]
  have "typed_actors rc (case_events p c s @ [event])" using inv act(1,2) by (simp add: typed_actors_def)
  moreover have "independent_round resolve rc (case_events p c s @ [event])"
    using inv ok rev_event.hyps(2) act(1) by (intro independent_round_snoc) auto
  ultimately have new: "typed_actors rc (case_events p c s') \<and> independent_round resolve rc (case_events p c s')"
    using eff(4) inv by auto
  show ?case
    unfolding review_inv_def
  proof
    fix d
    show "case case_of p d s' of None \<Rightarrow> case_events p d s' = []
      | Some rc \<Rightarrow> typed_actors rc (case_events p d s') \<and> independent_round resolve rc (case_events p d s')"
    proof (cases "d = c")
      case True
      with new rc eff(1) show ?thesis by simp
    next
      case False
      have "case case_of p d s of None \<Rightarrow> case_events p d s = []
        | Some rc \<Rightarrow> typed_actors rc (case_events p d s) \<and> independent_round resolve rc (case_events p d s)"
        using rev_event.IH by (simp add: review_inv_def)
      then show ?thesis unfolding eff(1) eff(5) [OF False] .
    qed
  qed
next
  case (rev_other s l s')
  from rev_other.IH show ?case unfolding review_inv_def rev_other.hyps(3,4) .
qed

text \<open>The status after an accepted event, for a string action.\<close>

lemma not_conj_imp: "\<not> (P \<and> Q) \<longleftrightarrow> (P \<longrightarrow> \<not> Q)"
  by blast

lemma check_event_state_Inr:
  "check_event_state rc action status = Inr u \<longleftrightarrow>
     (action = JStr ''REJECT'' \<longrightarrow> status = ''PENDING'') \<and>
     (one_of [''REVOKE'', ''DISPUTE''] action \<longrightarrow> status \<in> {''APPROVED'', ''POST_REVIEW_OVERDUE''}) \<and>
     (action = JStr ''REOPEN'' \<longrightarrow> status \<in> {''REJECTED'', ''REVOKED'', ''DISPUTED''}) \<and>
     (action = JStr ''POST_REVIEW'' \<longrightarrow> oget rc ''approvalMode'' = JStr ''BREAK_GLASS'' \<and>
        status \<in> {''APPROVED'', ''POST_REVIEW_OVERDUE''})"
  by (simp only: check_event_state_def throw_if_eq_Inr not_conj_imp de_Morgan_disj not_not) simp

lemma review_status_rejected:
  "oget e ''action'' = JStr ''REJECT'' \<Longrightarrow> review_status c b (Some e) post now = ''REJECTED''"
  "oget e ''action'' = JStr ''REVOKE'' \<Longrightarrow> review_status c b (Some e) post now = ''REVOKED''"
  "oget e ''action'' = JStr ''DISPUTE'' \<Longrightarrow> review_status c b (Some e) post now = ''DISPUTED''"
  by (simp_all add: review_status_terminal terminal_status_def)

text \<open>The two evaluations of an accepted event, as one step of the abstract review.\<close>

lemma accepted_event_steps:
  assumes cur: "evaluateReview env rc events policy = Inr current"
    and nxt: "evaluateReview env rc (events @ [e]) policy = Inr ns"
    and ok: "oget e ''action'' = JStr ''APPROVE'' \<longrightarrow> rs_status current = ''PENDING''"
    and state: "check_event_state rc (oget e ''action'') (rs_status current) = Inr ()"
    and typed: "typed_actors rc (events @ [e])"
    and act: "js_string (oget e ''action'') \<in> set DecisionReviewAction"
  shows "(\<forall>a. oget e ''action'' = JStr a \<longrightarrow> review_step (rs_status current) a (rs_status ns)) \<and>
    (\<not> is_string (oget e ''action'') \<longrightarrow> rs_status ns = rs_status current)"
proof -
  let ?q = "\<lambda>es. with_fields policy [(''actorIdentityMap'', identity_map (ae_actorIdentityResolver env) rc es)]"
  from cur obtain al gr now where
    rp: "role_policy rc (?q events) = Inr (al, gr)" and now: "ae_clock env = Some now"
    and c: "rs_status current = review_status rc (round_satisfied rc (?q events) al gr (after_reopen events))
       (terminal_event (after_reopen events)) (round_post_reviewed (after_reopen events)) now"
    by (rule review_status_eq) simp
  from nxt obtain al' gr' now' where
    "role_policy rc (?q (events @ [e])) = Inr (al', gr')" "ae_clock env = Some now'"
    and n': "rs_status ns = review_status rc
       (round_satisfied rc (?q (events @ [e])) al' gr' (after_reopen (events @ [e])))
       (terminal_event (after_reopen (events @ [e]))) (round_post_reviewed (after_reopen (events @ [e]))) now'"
    by (rule review_status_eq) simp
  then have "al' = al" "gr' = gr" "now' = now"
    using rp now with_identity_map [of rc policy _ "identity_map (ae_actorIdentityResolver env) rc events"] by auto
  note n = n' [unfolded this]
  have typed': "typed_actors rc events" using typed by (simp add: typed_actors_def)
  have sat: "round_satisfied rc (?q (events @ [e])) al gr (after_reopen events) =
      round_satisfied rc (?q events) al gr (after_reopen events)"
  proof (rule round_satisfied_cong)
    fix x assume "x \<in> set (after_reopen events)"
    then have x: "x \<in> set events" using after_reopen_subset by blast
    show "identity_of (?q (events @ [e])) (oget x ''actorId'') = identity_of (?q events) (oget x ''actorId'')"
      by (rule trans [OF identity_of_map [OF typed] identity_of_map [OF typed', symmetric]]) (use x in auto)
  next
    show "identity_of (?q (events @ [e])) (oget rc ''proposerId'') = identity_of (?q events) (oget rc ''proposerId'')"
      by (rule trans [OF identity_of_map [OF typed] identity_of_map [OF typed', symmetric]]) auto
  qed
  let ?b = "round_satisfied rc (?q events) al gr (after_reopen events)"
  let ?te = "terminal_event (after_reopen events)"
  have quiet: "rs_status ns = review_status rc ?b ?te
       (round_post_reviewed (after_reopen events) \<or> oget e ''action'' = JStr ''POST_REVIEW'') now"
    if "\<not> one_of [''APPROVE'', ''REJECT'', ''REVOKE'', ''DISPUTE'', ''REOPEN''] (oget e ''action'')"
  proof -
    have no: "oget e ''action'' \<noteq> JStr ''REOPEN''" "oget e ''action'' \<noteq> JStr ''APPROVE''"
      "\<not> one_of [''REJECT'', ''REVOKE'', ''DISPUTE''] (oget e ''action'')"
      using that by (auto simp: one_of_iff)
    have "round_post_reviewed (after_reopen events @ [e]) \<longleftrightarrow>
        round_post_reviewed (after_reopen events) \<or> oget e ''action'' = JStr ''POST_REVIEW''"
      by (simp add: round_post_reviewed_def)
    then show ?thesis
      unfolding n after_reopen_snoc [OF no(1)] round_satisfied_snoc [OF no(2)] sat terminal_event_snoc(1) [OF no(3)]
      by simp
  qed
  have loud: "rs_status ns = review_status rc b (Some e) x now" if "one_of [''REJECT'', ''REVOKE'', ''DISPUTE''] (oget e ''action'')"
    for b x
  proof -
    have no: "oget e ''action'' \<noteq> JStr ''REOPEN''" using that by auto
    show ?thesis
      unfolding n after_reopen_snoc [OF no] terminal_event_snoc(2) [OF that] review_status_terminal by (rule refl)
  qed
  note st = state [unfolded check_event_state_Inr]
  show ?thesis
  proof (cases "oget e ''action''")
    case (JStr a)
    have "a = ''APPROVE'' \<or> a = ''REJECT'' \<or> a = ''REVOKE'' \<or> a = ''DISPUTE'' \<or> a = ''REOPEN'' \<or> a = ''POST_REVIEW''"
      using act by (simp only: JStr js_string.simps DecisionReviewAction_def list.set insert_iff empty_iff simp_thms)
    then have "review_step (rs_status current) a (rs_status ns)"
    proof (elim disjE)
      assume a: "a = ''APPROVE''"
      then have p: "rs_status current = ''PENDING''" using ok JStr by simp
      have no: "oget e ''action'' \<noteq> JStr ''REOPEN''" "\<not> one_of [''REJECT'', ''REVOKE'', ''DISPUTE''] (oget e ''action'')"
        using JStr a by simp_all
      from p [unfolded c review_status_pending] have open_case: "?te = None"
        "\<not> time_le (js_date_parse (oget rc ''expiresAt'')) (Some now)" by auto
      have "rs_status ns \<noteq> ''EXPIRED''"
        unfolding n after_reopen_snoc [OF no(1)] terminal_event_snoc(1) [OF no(2)]
        using open_case by (simp add: review_status_def Let_def)
      moreover have "rs_status ns \<in> {''APPROVED'', ''POST_REVIEW_OVERDUE'', ''PENDING'', ''EXPIRED''}"
        unfolding n after_reopen_snoc [OF no(1)] terminal_event_snoc(1) [OF no(2)] open_case(1)
        using review_status_open [of rc "round_satisfied rc (?q (events @ [e])) al gr (after_reopen events @ [e])"
            "round_post_reviewed (after_reopen events @ [e])" now] by (auto split: if_splits)
      ultimately show ?thesis unfolding a p by (intro rv_approve) auto
    next
      assume a: "a = ''REJECT''"
      then have "rs_status current = ''PENDING''" using st JStr by simp
      moreover have "rs_status ns = ''REJECTED''" using loud [of True True] JStr a by (simp add: review_status_rejected)
      ultimately show ?thesis using a rv_reject by simp
    next
      assume a: "a = ''REVOKE''"
      then have "rs_status current \<in> {''APPROVED'', ''POST_REVIEW_OVERDUE''}" using st JStr by simp
      moreover have "rs_status ns = ''REVOKED''" using loud [of True True] JStr a by (simp add: review_status_rejected)
      ultimately show ?thesis using a rv_revoke by simp
    next
      assume a: "a = ''DISPUTE''"
      then have "rs_status current \<in> {''APPROVED'', ''POST_REVIEW_OVERDUE''}" using st JStr by simp
      moreover have "rs_status ns = ''DISPUTED''" using loud [of True True] JStr a by (simp add: review_status_rejected)
      ultimately show ?thesis using a rv_dispute by simp
    next
      assume a: "a = ''REOPEN''"
      then have re: "oget e ''action'' = JStr ''REOPEN''" and "rs_status current \<in> {''REJECTED'', ''REVOKED'', ''DISPUTED''}"
        using st JStr by simp_all
      moreover have "rs_status ns \<in> {''PENDING'', ''EXPIRED''}"
        using review_status_open [of rc False "round_post_reviewed []" now]
        unfolding n after_reopen_reopen [OF re] by (simp add: not_satisfied_Nil terminal_event_def)
      ultimately show ?thesis unfolding a by (intro rv_reopen)
    next
      assume a: "a = ''POST_REVIEW''"
      then have s: "rs_status current \<in> {''APPROVED'', ''POST_REVIEW_OVERDUE''}" using st JStr by simp
      then have "?b" "?te = None" unfolding c review_status_approved by simp_all
      then have "rs_status ns = ''APPROVED''"
        using quiet JStr a by (simp add: review_status_post_reviewed)
      with s a show ?thesis using rv_post by simp
    qed
    with JStr show ?thesis by simp
  qed (use quiet c in simp_all)
qed

lemma createDecision_type: "createDecision input now = Inr d \<Longrightarrow> oget d ''type'' = oget input ''type''"
  by (erule createDecision_run) (simp add: assertEnum_Inr)

subsection \<open>Properties\<close>

text \<open>
  C3: The review workflow refines the abstract review. In every reviewed project, an event the
  application accepts moves the status of its case by a step the abstract review allows for its action;
  an action that is not a string leaves the status as it is. Both statuses are those the project's own
  decision policy gives, resolved for this reviewer, case and request: before on the stored log, and
  after on that log with the event of the request, which is then on the log of the case.
\<close>
theorem review_workflow_refines_abstract_review:
  assumes "reviewed resolve p s" and "ae_actorIdentityResolver env = resolve"
    and "app_appendDecisionReviewEvent env p c input ctx s = Inr (s', view)"
  shows "\<exists>reviewCase current next event. case_of p c s = Some reviewCase \<and> case_of p c s' = Some reviewCase \<and>
    (\<exists>actorId actorRole. resolve_actor (ae_reviewerResolver env p ctx) = Inr (actorId, actorRole) \<and>
       review_event_of env c input actorId actorRole = Inr event) \<and>
    event_logged event (case_events p c s) (case_events p c s') \<and>
    evaluateReview env reviewCase (case_events p c s) (event_policy env p ctx reviewCase input) = Inr current \<and>
    evaluateReview env reviewCase (case_events p c s @ [event]) (event_policy env p ctx reviewCase input) = Inr next \<and>
    (\<forall>a. oget input ''action'' = JStr a \<longrightarrow> review_step (rs_status current) a (rs_status next)) \<and>
    (\<not> is_string (oget input ''action'') \<longrightarrow> rs_status next = rs_status current)"
proof -
  from assms(3) obtain rc events decisions policy actorId actorRole current event ns decision persisted where
    rc: "case_of p c s = Some rc"
    and evs: "events = case_events p c s"
    and cur: "evaluateReview env rc events policy = Inr current"
    and a: "oget event ''action'' = oget input ''action''" "js_string (oget event ''action'') \<in> set DecisionReviewAction"
    and act: "oget event ''actorId'' = actorId" "is_string actorId" "oget event ''caseId'' = JStr c"
    and "check_event_role rc policy (oget event ''action'') actorRole = Inr ()"
    and ok: "oget event ''action'' = JStr ''APPROVE'' \<longrightarrow>
       check_approval (ae_actorIdentityResolver env) rc events actorId (rs_status current) = Inr ()"
    and st: "check_event_state rc (oget event ''action'') (rs_status current) = Inr ()"
    and nxt: "evaluateReview env rc (events @ [event]) policy = Inr ns"
    and "materialized_decision rc events decisions event (rs_mayMaterializeDecision ns) actorId actorRole (ae_clock env) = Inr decision"
    and ap: "appendDecisionReviewEvent p event decision s = Inr (s', persisted)"
    and ra: "resolve_actor (ae_reviewerResolver env p ctx) = Inr (actorId, actorRole)"
    and pol: "policy = event_policy env p ctx rc input"
    and cr: "review_event_of env c input actorId actorRole = Inr event"
    by (rule app_review_event_governed)
  have ok': "oget event ''action'' = JStr ''APPROVE'' \<longrightarrow> rs_status current = ''PENDING''"
    using ok by (simp add: check_approval_Inr)
  have typed: "typed_actors rc (events @ [event])"
    using review_invD [OF reviewed_inv [OF assms(1)] rc] act(1,2) by (simp add: typed_actors_def evs)
  note step = accepted_event_steps [OF cur nxt ok' st typed a(2), unfolded a(1)]
  have rc': "case_of p c s' = Some rc" unfolding review_event_effect(1) [OF ap act(3)] by (rule rc)
  show ?thesis
    by (rule exI [of _ rc], rule exI [of _ current], rule exI [of _ ns], rule exI [of _ event])
       (intro conjI rc rc' exI [of _ actorId] exI [of _ actorRole] ra cr review_event_logged [OF ap act(3)]
          cur [unfolded evs pol] nxt [unfolded evs pol] step [THEN conjunct1] step [THEN conjunct2])
qed

text \<open>
  C2: Approvals are independent. In every reviewed project the people who approved a case since it was
  last reopened are pairwise different, resolved, and none of them is the proposer, whatever accounts
  they used: identities are compared after resolution, and are scalar values.
\<close>
theorem approvals_are_independent:
  assumes "reviewed resolve p s" and "case_of p c s = Some reviewCase" and "\<And>i. \<not> is_object (resolve i)"
  shows "distinct (round_approvers resolve (case_events p c s)) \<and>
    (\<forall>x\<in>set (round_approvers resolve (case_events p c s)). truthy x \<and> x \<noteq> resolve (oget reviewCase ''proposerId''))"
proof -
  let ?a = "round_approvers resolve (case_events p c s)"
  have ind: "js_value_set ?a = ?a"
    "\<forall>x\<in>set ?a. truthy x \<and> \<not> strict_eq x (resolve (oget reviewCase ''proposerId''))"
    using review_invD [OF reviewed_inv [OF assms(1)] assms(2)] by (simp_all add: independent_round_def Let_def)
  have "list_all (\<lambda>x. \<not> is_object x) ?a" using assms(3) by (simp add: round_approvers_def list_all_iff)
  then have "distinct ?a" using js_value_set_scalar ind(1) by (metis distinct_js_set)
  moreover have "x \<noteq> resolve (oget reviewCase ''proposerId'')" if "x \<in> set ?a" for x
    using ind(2) that assms(3) by (auto simp: strict_eq_def)
  ultimately show ?thesis using ind(2) by blast
qed

lemma appendDecision_decisions:
  "appendDecision p d s = Inr (s1, r) \<Longrightarrow> st_decisions s1 \<noteq> st_decisions s \<Longrightarrow>
   st_decisions s1 = st_decisions s @ [(store_key p (js_string (oget d ''id'')), d)]"
  by (auto simp: appendDecision_def appendVersion_def bnd_eq_Inr throw_if_eq_Inr split: option.splits
      elim!: put_once_cases)

text \<open>The decision of an accepted event: whose it is, and what it may say.\<close>

lemma createDecision_fields:
  assumes "createDecision input now = Inr d"
  shows "oget d ''claimId'' = oget input ''claimId''" "oget d ''claimVersion'' = oget input ''claimVersion''"
    "oget d ''actorId'' = oget input ''actorId''" "oget d ''actorRole'' = oget input ''actorRole''"
  using assms by (auto elim!: createDecision_run simp: requireNonEmptyString_Inr requirePositiveInteger_Inr)

lemma oget_props_type: "oget (JObj (props v)) ''type'' = oget v ''type''"
  by (cases v) (simp_all add: oget_def elem_at_def index_key_def is_digit_def)

definition decides_case :: "jsv \<Rightarrow> jsv \<Rightarrow> jsv \<Rightarrow> jsv \<Rightarrow> bool" where
  "decides_case d reviewCase actorId actorRole \<longleftrightarrow>
     oget d ''claimId'' = oget reviewCase ''claimId'' \<and> oget d ''claimVersion'' = oget reviewCase ''claimVersion'' \<and>
     oget d ''actorId'' = actorId \<and> oget d ''actorRole'' = actorRole"

lemma materialized_decision_cases:
  assumes "materialized_decision rc events decisions event may actorId actorRole now = Inr d" and "truthy d"
  shows "decides_case d rc actorId actorRole \<and>
    (oget event ''action'' = JStr ''APPROVE'' \<and> may \<and> oget d ''type'' = oget (oget rc ''proposedDecision'') ''type'' \<or>
     oget event ''action'' = JStr ''REVOKE'' \<and> oget d ''type'' = JStr ''DEPRECATED'' \<or>
     oget event ''action'' = JStr ''DISPUTE'' \<and> oget d ''type'' = JStr ''DEFERRED'')"
proof (cases "oget event ''action'' = JStr ''APPROVE'' \<and> may")
  case True
  from assms(1) [unfolded materialized_decision_def Let_def if_P [OF True] list.map append.simps]
  obtain i where i: "createDecision (with_fields (oget rc ''proposedDecision'') ((''id'', i) #
      [(''claimId'', oget rc ''claimId''), (''claimVersion'', oget rc ''claimVersion''),
       (''scopeId'', oget rc ''scopeId''), (''scopeVersion'', oget rc ''scopeVersion''),
       (''actorId'', actorId), (''actorRole'', actorRole)])) now = Inr d"
    by (rule that)
  note f = createDecision_fields [OF i] createDecision_type [OF i]
  have "decides_case d rc actorId actorRole" unfolding decides_case_def f by (simp add: oget_with_fields)
  moreover have "oget d ''type'' = oget (oget rc ''proposedDecision'') ''type''"
    unfolding f oget_with_fields by (simp add: oget_props_type del: oget_simps(6))
  ultimately show ?thesis using True by simp
next
  case False
  note dec = assms(1) [unfolded materialized_decision_def Let_def if_not_P [OF False]]
  show ?thesis
  proof (cases "one_of [''REVOKE'', ''DISPUTE''] (oget event ''action'')")
    case True
    from dec [unfolded if_P [OF True] list.map append.simps] obtain i where i: "createDecision (JObj ((''id'', i) #
      [(''claimId'', oget rc ''claimId''), (''claimVersion'', oget rc ''claimVersion''),
       (''scopeId'', oget rc ''scopeId''), (''scopeVersion'', oget rc ''scopeVersion''),
       (''type'', JStr (if oget event ''action'' = JStr ''REVOKE'' then ''DEPRECATED'' else ''DEFERRED'')),
       (''content'', oget event ''rationale''), (''actorId'', actorId), (''actorRole'', actorRole),
       (''evidenceRefs'', JArr []), (''validUntil'', JNull)])) now = Inr d"
      by (rule that)
    note f = createDecision_fields [OF i] createDecision_type [OF i]
    have "decides_case d rc actorId actorRole" unfolding decides_case_def f by simp
    moreover have "oget d ''type'' = JStr (if oget event ''action'' = JStr ''REVOKE'' then ''DEPRECATED'' else ''DEFERRED'')"
      unfolding f by simp
    ultimately show ?thesis using True by (auto simp: one_of_iff)
  next
    case no: False
    from dec [unfolded if_not_P [OF no]] assms(2) show ?thesis by simp
  qed
qed

lemma event_role_allowed:
  assumes "check_event_role rc policy action actorRole = Inr u"
  shows "one_of [''APPROVE'', ''REJECT''] action \<Longrightarrow>
      \<exists>roles. event_approval_roles rc policy = Inr roles \<and> arr_includes roles actorRole"
    and "one_of [''REVOKE'', ''DISPUTE'', ''REOPEN'', ''POST_REVIEW''] action \<Longrightarrow>
      \<exists>roles. array_elems (coalesce (oget policy ''lifecycleRoles'') (JArr [])) = Inr roles \<and> arr_includes roles actorRole"
  using assms by (simp_all only: check_event_role_def bnd_eq_Inr throw_if_eq_Inr) blast+

text \<open>
  C1: A decision is written only with authority. When an accepted review event changes the stored
  decisions it adds exactly one, about the claim of the case and in the name and role of the
  authenticated reviewer, and the event of the request is on the log of the case. Either the event is
  an approval of a pending case by a reviewer with an approval role who is not the proposer, the
  project's own policy says of the log with that event that the case may be materialised, and the
  decision is the proposed one; or a reviewer with a lifecycle role revokes or disputes a case that is
  approved by that policy, and the decision deprecates or defers the claim.
\<close>
theorem decision_written_only_with_authority:
  assumes "app_appendDecisionReviewEvent env p c input ctx s = Inr (s', view)"
    and "st_decisions s' \<noteq> st_decisions s"
  shows "\<exists>reviewCase actorId actorRole current next event d. case_of p c s = Some reviewCase \<and>
    resolve_actor (ae_reviewerResolver env p ctx) = Inr (actorId, actorRole) \<and>
    review_event_of env c input actorId actorRole = Inr event \<and>
    event_logged event (case_events p c s) (case_events p c s') \<and>
    st_decisions s' = st_decisions s @ [(store_key p (js_string (oget d ''id'')), d)] \<and>
    decides_case d reviewCase actorId actorRole \<and>
    evaluateReview env reviewCase (case_events p c s) (event_policy env p ctx reviewCase input) = Inr current \<and>
    evaluateReview env reviewCase (case_events p c s @ [event]) (event_policy env p ctx reviewCase input) = Inr next \<and>
    (oget input ''action'' = JStr ''APPROVE'' \<and> rs_status current = ''PENDING'' \<and> rs_mayMaterializeDecision next \<and>
       (\<exists>roles. event_approval_roles reviewCase (event_policy env p ctx reviewCase input) = Inr roles \<and>
          arr_includes roles actorRole) \<and>
       \<not> strict_eq (ae_actorIdentityResolver env actorId) (ae_actorIdentityResolver env (oget reviewCase ''proposerId'')) \<and>
       oget d ''type'' = oget (oget reviewCase ''proposedDecision'') ''type'' \<or>
     rs_status current \<in> {''APPROVED'', ''POST_REVIEW_OVERDUE''} \<and>
       (\<exists>roles. array_elems (coalesce (oget (event_policy env p ctx reviewCase input) ''lifecycleRoles'') (JArr [])) = Inr roles \<and>
          arr_includes roles actorRole) \<and>
       (oget input ''action'' = JStr ''REVOKE'' \<and> oget d ''type'' = JStr ''DEPRECATED'' \<or>
        oget input ''action'' = JStr ''DISPUTE'' \<and> oget d ''type'' = JStr ''DEFERRED''))"
proof -
  from assms(1) obtain rc events decisions policy actorId actorRole current event ns decision persisted where
    rc: "case_of p c s = Some rc"
    and evs: "events = case_events p c s"
    and cur: "evaluateReview env rc events policy = Inr current"
    and a: "oget event ''action'' = oget input ''action''" "js_string (oget event ''action'') \<in> set DecisionReviewAction"
    and act: "oget event ''actorId'' = actorId" "is_string actorId" "oget event ''caseId'' = JStr c"
    and role: "check_event_role rc policy (oget event ''action'') actorRole = Inr ()"
    and ok: "oget event ''action'' = JStr ''APPROVE'' \<longrightarrow>
       check_approval (ae_actorIdentityResolver env) rc events actorId (rs_status current) = Inr ()"
    and st: "check_event_state rc (oget event ''action'') (rs_status current) = Inr ()"
    and nxt: "evaluateReview env rc (events @ [event]) policy = Inr ns"
    and dec: "materialized_decision rc events decisions event (rs_mayMaterializeDecision ns) actorId actorRole (ae_clock env) = Inr decision"
    and ap: "appendDecisionReviewEvent p event decision s = Inr (s', persisted)"
    and ra: "resolve_actor (ae_reviewerResolver env p ctx) = Inr (actorId, actorRole)"
    and pol: "policy = event_policy env p ctx rc input"
    and cr: "review_event_of env c input actorId actorRole = Inr event"
    by (rule app_review_event_governed)
  note eff = review_event_effect [OF ap act(3)]
  have tr: "truthy decision" using eff(2) assms(2) by blast
  from eff(3) [OF this] assms(2) have added:
    "st_decisions s' = st_decisions s @ [(store_key p (js_string (oget decision ''id'')), decision)]"
    using appendDecision_decisions by metis
  note what = materialized_decision_cases [OF dec tr]
  note role' = event_role_allowed [OF role] and state = st [unfolded check_event_state_Inr]
  have "oget input ''action'' = JStr ''APPROVE'' \<and> rs_status current = ''PENDING'' \<and> rs_mayMaterializeDecision ns \<and>
       (\<exists>roles. event_approval_roles rc policy = Inr roles \<and> arr_includes roles actorRole) \<and>
       \<not> strict_eq (ae_actorIdentityResolver env actorId) (ae_actorIdentityResolver env (oget rc ''proposerId'')) \<and>
       oget decision ''type'' = oget (oget rc ''proposedDecision'') ''type'' \<or>
     rs_status current \<in> {''APPROVED'', ''POST_REVIEW_OVERDUE''} \<and>
       (\<exists>roles. array_elems (coalesce (oget policy ''lifecycleRoles'') (JArr [])) = Inr roles \<and>
          arr_includes roles actorRole) \<and>
       (oget input ''action'' = JStr ''REVOKE'' \<and> oget decision ''type'' = JStr ''DEPRECATED'' \<or>
        oget input ''action'' = JStr ''DISPUTE'' \<and> oget decision ''type'' = JStr ''DEFERRED'')"
    using what [THEN conjunct2]
  proof (elim disjE conjE)
    assume ac: "oget event ''action'' = JStr ''APPROVE''" and may: "rs_mayMaterializeDecision ns"
      and ty: "oget decision ''type'' = oget (oget rc ''proposedDecision'') ''type''"
    show ?thesis
      by (rule disjI1) (use ac may ty ok a(1) role'(1) in \<open>simp add: check_approval_Inr\<close>)
  next
    assume ac: "oget event ''action'' = JStr ''REVOKE''" and ty: "oget decision ''type'' = JStr ''DEPRECATED''"
    show ?thesis by (rule disjI2) (use ac ty state a(1) role'(2) in simp)
  next
    assume ac: "oget event ''action'' = JStr ''DISPUTE''" and ty: "oget decision ''type'' = JStr ''DEFERRED''"
    show ?thesis by (rule disjI2) (use ac ty state a(1) role'(2) in simp)
  qed
  note authority = this [unfolded pol]
  show ?thesis
    by (rule exI [of _ rc], rule exI [of _ actorId], rule exI [of _ actorRole], rule exI [of _ current],
        rule exI [of _ ns], rule exI [of _ event], rule exI [of _ decision])
       (intro conjI rc ra cr added review_event_logged [OF ap act(3)] what [THEN conjunct1]
          cur [unfolded evs pol] nxt [unfolded evs pol] authority)
qed

subsection \<open>Concrete instances\<close>

text \<open>An author proposes, an owner approves; the account of the request is its context.\<close>

definition review_env :: app_env where
  "review_env = \<lparr>
     ae_reviewerResolver = (\<lambda>_ ctx. JObj [(''actorId'', ctx),
       (''actorRole'', JStr (if ctx = JStr ''ann'' then ''author'' else if ctx = JStr ''bob'' then ''owner'' else ''guest''))]),
     ae_reviewPolicyResolver = (\<lambda>_ _. JObj [(''decisionGovernance'', JObj
       [(''proposerRoles'', JArr [JStr ''author'']), (''approvalRoles'', JArr [JStr ''owner'']),
        (''lifecycleRoles'', JArr [])])]),
     ae_actorIdentityResolver = (\<lambda>i. JStr (js_string i)), ae_runnerKeyResolver = (\<lambda>_ _. JNull),
     ae_scannerKeyResolver = (\<lambda>_ _. JNull), ae_clock = Some 0\<rparr>"

definition claim_store :: store where
  "claim_store = empty_store\<lparr>st_claims := [(store_key ''p'' (pair_key (JStr ''c'') (JNum 1)), JObj
     [(''id'', JStr ''c''), (''version'', JNum 1), (''scopeId'', JStr ''s''), (''scopeVersion'', JNum 1)])]\<rparr>"

definition case_request :: jsv where
  "case_request = JObj
     [(''id'', JStr ''k''), (''claimId'', JStr ''c''), (''claimVersion'', JNum 1), (''scopeId'', JStr ''s''),
      (''scopeVersion'', JNum 1), (''risk'', JStr ''LOW''), (''approvalMode'', JStr ''SINGLE''),
      (''proposedDecision'', JObj [(''id'', JStr ''d''), (''type'', JStr ''CONFIRMED'')]),
      (''expiresAt'', JStr ''1970-01-02T00:00:00.000Z'')]"

definition review_request :: "string \<Rightarrow> jsv \<Rightarrow> jsv" where
  "review_request i action = JObj [(''id'', JStr i), (''action'', action), (''rationale'', JStr ''r'')]"

definition case_store :: "store res" where
  "case_store = bnd (app_createDecisionReviewCase review_env ''p'' case_request (JStr ''ann'') claim_store) (\<lambda>(s, _). Inr s)"

definition stored_case :: jsv where
  "stored_case = JObj
     [(''id'', JStr ''k''), (''claimId'', JStr ''c''), (''claimVersion'', JNum 1), (''scopeId'', JStr ''s''),
      (''scopeVersion'', JNum 1), (''risk'', JStr ''LOW''), (''approvalMode'', JStr ''SINGLE''),
      (''proposedDecision'', JObj [(''id'', JStr ''d''), (''type'', JStr ''CONFIRMED''), (''content'', JNull),
         (''evidenceRefs'', JArr []), (''validUntil'', JNull)]),
      (''emergencyReason'', JNull), (''postReviewDueAt'', JNull), (''proposerId'', JStr ''ann''),
      (''proposerRole'', JStr ''author''), (''expiresAt'', JStr ''1970-01-02T00:00:00.000Z''),
      (''createdAt'', JStr ''1970-01-01T00:00:00.000Z'')]"

definition pending_store :: store where
  "pending_store = claim_store\<lparr>st_decisionReviewCases := [(store_key ''p'' ''k'', stored_case)]\<rparr>"

lemma case_store_ok:
  "case case_store of Inl _ \<Rightarrow> False | Inr s \<Rightarrow> st_decisionReviewCases s = [(store_key ''p'' ''k'', stored_case)] \<and>
     st_claims s = st_claims claim_store \<and> st_decisionReviewEvents s = [] \<and> st_decisions s = [] \<and>
     st_decisionReviewMaterializations s = []"
  by code_simp

lemma approval_ok:
  "case app_appendDecisionReviewEvent review_env ''p'' ''k'' (review_request ''e'' (JStr ''APPROVE'')) (JStr ''bob'') pending_store of
     Inl _ \<Rightarrow> False
   | Inr (s, view) \<Rightarrow> map (\<lambda>d. oget d ''type'') (map snd (st_decisions s)) = [JStr ''CONFIRMED''] \<and>
       length (case_events ''p'' ''k'' s) = 1"
  by code_simp

text \<open>The pending store is the one the proposal leads to: the other collections stay empty.\<close>

lemma case_append_frame:
  "appendDecisionReviewCase p rc s = Inr (s', r) \<Longrightarrow> s' = s\<lparr>st_decisionReviewCases := st_decisionReviewCases s'\<rparr>"
  by (auto simp: appendDecisionReviewCase_def bnd_eq_Inr throw_if_eq_Inr Let_def split: option.splits)

lemma pending_store_reviewed: "reviewed (ae_actorIdentityResolver review_env) ''p'' pending_store"
proof -
  obtain s where s: "case_store = Inr s" "st_decisionReviewCases s = [(store_key ''p'' ''k'', stored_case)]"
    using case_store_ok by (elim resE) simp
  from s(1) obtain view where c: "app_createDecisionReviewCase review_env ''p'' case_request (JStr ''ann'') claim_store = Inr (s, view)"
    unfolding case_store_def by (auto simp only: bnd_eq_Inr split_paired_Ex prod.case sum.inject)
  from c obtain rc i t r where "appendDecisionReviewCase ''p'' rc claim_store = Inr (s, r)" by (rule app_create_case_run)
  from case_append_frame [OF this] s(2) have "s = pending_store" by (simp add: pending_store_def)
  moreover have "reviewed (ae_actorIdentityResolver review_env) ''p'' claim_store"
    by (rule rev_start) (simp_all add: claim_store_def empty_store_def)
  ultimately show ?thesis using rev_case [OF _ refl c] by simp
qed

lemma approval_run:
  obtains s view where
    "app_appendDecisionReviewEvent review_env ''p'' ''k'' (review_request ''e'' (JStr ''APPROVE'')) (JStr ''bob'') pending_store = Inr (s, view)"
    "st_decisions s \<noteq> st_decisions pending_store" "case_of ''p'' ''k'' s = Some stored_case"
proof -
  obtain r where r: "app_appendDecisionReviewEvent review_env ''p'' ''k'' (review_request ''e'' (JStr ''APPROVE'')) (JStr ''bob'') pending_store = Inr r"
    "case r of (s, view) \<Rightarrow> map (\<lambda>d. oget d ''type'') (map snd (st_decisions s)) = [JStr ''CONFIRMED''] \<and>
       length (case_events ''p'' ''k'' s) = 1"
    using approval_ok by (elim resE)
  obtain s view where sv: "r = (s, view)" by (cases r)
  have d: "st_decisions s \<noteq> st_decisions pending_store"
    using r(2) by (auto simp: sv pending_store_def claim_store_def empty_store_def)
  from r(1) [unfolded sv] obtain rc events decisions policy ai ar cur ev ns d p where
    "oget ev ''caseId'' = JStr ''k''" "appendDecisionReviewEvent ''p'' ev d pending_store = Inr (s, p)"
    by (rule app_review_event_run) (rule that)
  from review_event_effect(1) [OF this(2,1)] have "case_of ''p'' ''k'' s = Some stored_case" by (simp add: pending_store_def)
  with r(1) sv d that show thesis by simp
qed

theorem review_workflow_refines_abstract_review_witness:
  "\<exists>s view reviewCase current next event.
    app_appendDecisionReviewEvent review_env ''p'' ''k'' (review_request ''e'' (JStr ''APPROVE'')) (JStr ''bob'') pending_store
      = Inr (s, view) \<and>
    case_of ''p'' ''k'' pending_store = Some reviewCase \<and>
    event_logged event (case_events ''p'' ''k'' pending_store) (case_events ''p'' ''k'' s) \<and>
    evaluateReview review_env reviewCase (case_events ''p'' ''k'' pending_store)
      (event_policy review_env ''p'' (JStr ''bob'') reviewCase (review_request ''e'' (JStr ''APPROVE''))) = Inr current \<and>
    evaluateReview review_env reviewCase (case_events ''p'' ''k'' pending_store @ [event])
      (event_policy review_env ''p'' (JStr ''bob'') reviewCase (review_request ''e'' (JStr ''APPROVE''))) = Inr next \<and>
    review_step (rs_status current) ''APPROVE'' (rs_status next)"
proof -
  obtain s view where v: "app_appendDecisionReviewEvent review_env ''p'' ''k''
      (review_request ''e'' (JStr ''APPROVE'')) (JStr ''bob'') pending_store = Inr (s, view)" by (rule approval_run)
  have a: "oget (review_request ''e'' (JStr ''APPROVE'')) ''action'' = JStr ''APPROVE''" by (simp add: review_request_def)
  from review_workflow_refines_abstract_review [OF pending_store_reviewed refl v] show ?thesis
    apply (elim exE conjE)
    apply (drule spec [of _ "''APPROVE''"])
    apply (drule mp, rule a)
    apply (intro exI conjI)
         apply (rule v)
        apply assumption
       apply assumption
      apply assumption
     apply assumption
    apply assumption
    done
qed

theorem approvals_are_independent_witness:
  "\<exists>s. reviewed (ae_actorIdentityResolver review_env) ''p'' s \<and> case_of ''p'' ''k'' s = Some stored_case \<and>
     distinct (round_approvers (ae_actorIdentityResolver review_env) (case_events ''p'' ''k'' s))"
proof -
  obtain s view where v: "app_appendDecisionReviewEvent review_env ''p'' ''k''
      (review_request ''e'' (JStr ''APPROVE'')) (JStr ''bob'') pending_store = Inr (s, view)"
    and c: "case_of ''p'' ''k'' s = Some stored_case" by (rule approval_run)
  have r: "reviewed (ae_actorIdentityResolver review_env) ''p'' s"
    by (rule rev_event [OF pending_store_reviewed refl v])
  have "\<not> is_object (ae_actorIdentityResolver review_env i)" for i by (simp add: review_env_def)
  from approvals_are_independent [OF r c this] r c show ?thesis by blast
qed

theorem decision_written_only_with_authority_witness:
  "\<exists>s view reviewCase d. app_appendDecisionReviewEvent review_env ''p'' ''k'' (review_request ''e'' (JStr ''APPROVE''))
      (JStr ''bob'') pending_store = Inr (s, view) \<and>
     st_decisions s = st_decisions pending_store @ [(store_key ''p'' (js_string (oget d ''id'')), d)] \<and>
     case_of ''p'' ''k'' pending_store = Some reviewCase \<and> decides_case d reviewCase (JStr ''bob'') (JStr ''owner'')"
proof -
  obtain s view where v: "app_appendDecisionReviewEvent review_env ''p'' ''k''
      (review_request ''e'' (JStr ''APPROVE'')) (JStr ''bob'') pending_store = Inr (s, view)"
    and d: "st_decisions s \<noteq> st_decisions pending_store" by (rule approval_run)
  have who: "a = JStr ''bob'' \<and> r = JStr ''owner''"
    if "resolve_actor (ae_reviewerResolver review_env ''p'' (JStr ''bob'')) = Inr (a, r)" for a r
    using that by (simp add: resolve_actor_Inr review_env_def)
  from decision_written_only_with_authority [OF v d] show ?thesis
    apply (elim exE conjE)
    apply (frule who)
    apply (intro exI conjI)
       apply (rule v)
      apply assumption
     apply assumption
    apply simp
    done
qed

text \<open>
  The role check of a review event can be avoided. A reviewer whose role is in no list of the policy
  adds an event to the log of a case by sending the action as a one-element array: it passes the
  enumeration check, matches none of the tested actions, and is stored; the string form is refused.
\<close>
theorem array_action_bypasses_role_check:
  "case app_appendDecisionReviewEvent review_env ''p'' ''k''
        (review_request ''e'' (JArr [JStr ''APPROVE''])) (JStr ''eve'') pending_store of
     Inl _ \<Rightarrow> False
   | Inr (s', _) \<Rightarrow> map (\<lambda>e. oget e ''action'') (case_events ''p'' ''k'' s') = [JArr [JStr ''APPROVE'']] \<and>
       (case app_appendDecisionReviewEvent review_env ''p'' ''k''
          (review_request ''e'' (JStr ''APPROVE'')) (JStr ''eve'') pending_store of
        Inl e \<Rightarrow> e = AuthorizationErr ''Role guest cannot approve this Decision case'' | Inr _ \<Rightarrow> False)"
  by code_simp

end
