(* ===== verification/Project_Parts.thy ===== *)
theory Project_Parts
  imports Application_Context
begin

section \<open>The part of a collection that belongs to a project\<close>

text \<open>
  How the part of a project grows when the store appends a record under one of the project's keys.
\<close>

lemma project_values_part: "project_values p coll = map snd (project_part p coll)"
  by (simp add: project_values_def project_part_def)

lemma own_key [simp]: "in_project p (store_key p i)"
  by (simp add: in_project_def store_key_def starts_with_iff)

lemma part_snoc: "project_part p (coll @ [(store_key p i, v)]) = project_part p coll @ [(store_key p i, v)]"
  by (simp add: project_part_def)

lemma part_key_stored: "(k, v) \<in> set (project_part p coll) \<Longrightarrow> map_of coll k \<noteq> None"
  by (metis (no_types, lifting) filter_is_subset project_part_def subsetD map_of_eq_None_iff image_eqI fst_conv)

lemma appendVersion_part:
  assumes "appendVersion coll (store_key p k) v l = Inr coll'"
  obtains (kept) "coll' = coll"
  | (fresh) "map_of coll (store_key p k) = None" "project_part p coll' = project_part p coll @ [(store_key p k, v)]"
  using assms unfolding appendVersion_def
  by (rule put_once_cases) (simp_all add: that part_snoc)

end
