(* ===== verification/Feature_Evolution.thy ===== *)
theory Feature_Evolution
  imports Project_Parts Governance "HOL-Library.While_Combinator"
begin

section \<open>The evolution of features\<close>

text \<open>
  Aliases and lineages of features (\<open>src/domain/feature-evolution.js\<close>) and the operations of the
  application that append feature versions, aliases and lineages
  (\<open>src/application/traceability-application.js\<close>), with the search that keeps the lineage of a
  project free of cycles. Shown: the search terminates and decides reachability, the lineage of a
  project is acyclic and the versions of a feature are numbered without gaps in every reachable store.
\<close>

definition FeatureLineageRelation :: "string list" where
  "FeatureLineageRelation = [''PREDECESSOR_OF'', ''SUCCESSOR_OF'', ''MERGED_INTO'', ''SPLIT_INTO'']"

text \<open>
  \<open>normalize("NFKC")\<close> on the character range of the model: the compatibility characters below 256
  whose form stays in the range are replaced; those whose form leaves it (fractions, spacing accents,
  the micro sign) are kept.
\<close>

definition nfkc_char :: "char \<Rightarrow> char" where
  "nfkc_char c = (let n = (of_char c :: nat) in
     if n = 160 then CHR '' '' else if n = 170 then CHR ''a'' else if n = 178 then CHR ''2''
     else if n = 179 then CHR ''3'' else if n = 185 then CHR ''1'' else if n = 186 then CHR ''o'' else c)"

definition nfkc_trim :: "string \<Rightarrow> string" where
  "nfkc_trim s = js_trim (map nfkc_char s)"

definition normalizeFeatureAlias :: "jsv \<Rightarrow> jsv res" where
  "normalizeFeatureAlias v =
     bnd (requireNonEmptyString v ''featureAlias.alias'') (\<lambda>a. Inr (JStr (to_lower (nfkc_trim (str_of a)))))"

definition createFeatureAlias :: "jsv \<Rightarrow> int option \<Rightarrow> jsv res" where
  "createFeatureAlias input now =
     bnd (requireNonEmptyString (oget input ''alias'') ''featureAlias.alias'') (\<lambda>a.
     let name = JStr (nfkc_trim (str_of a)) in
     mk_obj
      [(''featureId'', requireNonEmptyString (oget input ''featureId'') ''featureAlias.featureId''),
       (''featureVersion'', requirePositiveInteger (oget input ''featureVersion'') ''featureAlias.featureVersion''),
       (''alias'', Inr name),
       (''aliasKey'', normalizeFeatureAlias name),
       (''actorId'', requireNonEmptyString (oget input ''actorId'') ''featureAlias.actorId''),
       (''actorRole'', requireNonEmptyString (oget input ''actorRole'') ''featureAlias.actorRole''),
       (''rationale'', requireNonEmptyString (oget input ''rationale'') ''featureAlias.rationale''),
       (''createdAt'', created_at input now)])"

definition createFeatureLineage :: "jsv \<Rightarrow> int option \<Rightarrow> jsv res" where
  "createFeatureLineage input now =
     bnd (requireNonEmptyString (oget input ''predecessorFeatureId'') ''featureLineage.predecessorFeatureId'') (\<lambda>pred.
     bnd (requireNonEmptyString (oget input ''successorFeatureId'') ''featureLineage.successorFeatureId'') (\<lambda>succ.
     throw_if (strict_eq pred succ) (TypeErr ''Feature lineage cannot reference itself'') (
     mk_obj
      [(''id'', requireNonEmptyString (oget input ''id'') ''featureLineage.id''),
       (''predecessorFeatureId'', Inr pred),
       (''successorFeatureId'', Inr succ),
       (''relationType'', assertEnum FeatureLineageRelation (oget input ''relationType'') ''featureLineage.relationType''),
       (''actorId'', requireNonEmptyString (oget input ''actorId'') ''featureLineage.actorId''),
       (''actorRole'', requireNonEmptyString (oget input ''actorRole'') ''featureLineage.actorRole''),
       (''rationale'', requireNonEmptyString (oget input ''rationale'') ''featureLineage.rationale''),
       (''createdAt'', created_at input now)])))"

subsection \<open>The search for a cycle\<close>

text \<open>The \<open>Map\<close> from a feature to its successors, filled lineage by lineage.\<close>

definition successors_of :: "(jsv \<times> jsv list) list \<Rightarrow> jsv \<Rightarrow> jsv list" where
  "successors_of adjacency featureId = (case map_of adjacency featureId of None \<Rightarrow> [] | Some fs \<Rightarrow> fs)"

definition add_lineage :: "(jsv \<times> jsv list) list \<Rightarrow> jsv \<Rightarrow> (jsv \<times> jsv list) list" where
  "add_lineage adjacency lineage =
     (let pred = oget lineage ''predecessorFeatureId'' in
      AList.update pred (successors_of adjacency pred @ [oget lineage ''successorFeatureId'']) adjacency)"

text \<open>
  The state of the \<open>while\<close> loop: the stack \<open>pending\<close> with its top in front (\<open>push(...xs)\<close> puts
  \<open>rev xs\<close> in front), the set \<open>visited\<close> and whether the loop has returned \<open>true\<close>.
\<close>

record lineage_search =
  ls_pending :: "jsv list"
  ls_visited :: "jsv list"
  ls_found :: bool

definition search_step :: "(jsv \<times> jsv list) list \<Rightarrow> jsv \<Rightarrow> lineage_search \<Rightarrow> lineage_search" where
  "search_step adjacency target st =
     (case ls_pending st of
        [] \<Rightarrow> st
      | featureId # rest \<Rightarrow>
          if strict_eq featureId target then st\<lparr>ls_pending := rest, ls_found := True\<rparr>
          else if featureId \<in> set (ls_visited st) then st\<lparr>ls_pending := rest\<rparr>
          else st\<lparr>ls_pending := rev (successors_of adjacency featureId) @ rest,
                  ls_visited := ls_visited st @ [featureId]\<rparr>)"

text \<open>\<open>None\<close> would be a loop that does not end.\<close>

definition introducesFeatureLineageCycle :: "jsv list \<Rightarrow> jsv \<Rightarrow> jsv \<Rightarrow> bool option" where
  "introducesFeatureLineageCycle lineages predecessorFeatureId successorFeatureId =
     map_option ls_found
       (while_option (\<lambda>st. ls_pending st \<noteq> [] \<and> \<not> ls_found st)
          (search_step (foldl add_lineage [] lineages) predecessorFeatureId)
          \<lparr>ls_pending = [successorFeatureId], ls_visited = [], ls_found = False\<rparr>)"

subsection \<open>The operations of the application\<close>

text \<open>\<open>left.localeCompare(right) < 0\<close> on two members, and on \<open>createdAt\<close> before \<open>id\<close>\<close>

definition listFeatureAliases :: "(string \<Rightarrow> string \<Rightarrow> int) \<Rightarrow> string \<Rightarrow> jsv \<Rightarrow> store \<Rightarrow> jsv list" where
  "listFeatureAliases lc projectId featureId s =
     sort_by (\<lambda>l r. lc (str_of (oget l ''aliasKey'')) (str_of (oget r ''aliasKey'')) < 0)
       (filter (\<lambda>a. strict_eq (oget a ''featureId'') featureId) (project_values projectId (st_featureAliases s)))"

definition listFeatureLineages :: "(string \<Rightarrow> string \<Rightarrow> int) \<Rightarrow> string \<Rightarrow> jsv \<Rightarrow> store \<Rightarrow> jsv list" where
  "listFeatureLineages lc projectId featureId s =
     sort_by (\<lambda>l r. let c = lc (str_of (oget l ''createdAt'')) (str_of (oget r ''createdAt'')) in
                if c \<noteq> 0 then c < 0 else lc (str_of (oget l ''id'')) (str_of (oget r ''id'')) < 0)
       (filter (\<lambda>x. featureId = JNull \<or> strict_eq (oget x ''predecessorFeatureId'') featureId \<or>
                 strict_eq (oget x ''successorFeatureId'') featureId)
         (project_values projectId (st_featureLineages s)))"

definition featureGovernor :: "app_env \<Rightarrow> string \<Rightarrow> jsv \<Rightarrow> (jsv \<times> jsv) res" where
  "featureGovernor env projectId requestContext =
     bnd (resolve_actor (ae_reviewerResolver env projectId requestContext)) (\<lambda>(actorId, actorRole).
     let policy = ae_reviewPolicyResolver env projectId JUndef in
     bnd (pget policy ''allowedFeatureGovernanceRoles'') (\<lambda>governance.
     bnd (require_role (coalesce governance (coalesce (oget policy ''allowedProcessModelRoles'') (JArr []))) actorRole
            '' cannot govern Feature evolution in this project'') (\<lambda>_.
     Inr (actorId, actorRole))))"

text \<open>\<open>v !== n && v !== n + 1\<close> for a stored version \<open>n\<close>\<close>

definition advances :: "jsv \<Rightarrow> jsv \<Rightarrow> bool" where
  "advances n v \<longleftrightarrow> strict_eq v n \<or> (case n of JNum k \<Rightarrow> strict_eq v (JNum (k + 1)) | _ \<Rightarrow> False)"

definition app_appendFeatureVersion ::
  "(string \<Rightarrow> string \<Rightarrow> int) \<Rightarrow> app_env \<Rightarrow> string \<Rightarrow> jsv \<Rightarrow> store \<Rightarrow> (store \<times> jsv) res" where
  "app_appendFeatureVersion lc env projectId input s =
     bnd (requireId (JStr projectId) ''projectId'') (\<lambda>_.
     bnd (createFeatureVersion input (ae_clock env)) (\<lambda>feature.
     let version = oget feature ''version'' in
     bnd (case getFeatureBaseline lc projectId (oget feature ''id'') s of
            None \<Rightarrow> throw_if (version \<noteq> JNum 1) (ConflictErr ''A new Feature must start at version 1'') (Inr ())
          | Some baseline \<Rightarrow>
              let current = oget (fb_feature baseline) ''version'' in
              throw_if (\<not> advances current version)
                (ConflictErr (''Feature '' @ js_string (oget feature ''id'') @ '' must advance from version ''
                   @ js_string current @ '' to '' @ js_string (case current of JNum k \<Rightarrow> JNum (k + 1) | _ \<Rightarrow> JUndef)))
                (Inr ())) (\<lambda>_.
     appendFeatureVersion projectId feature s)))"

definition app_appendFeatureAlias ::
  "(string \<Rightarrow> string \<Rightarrow> int) \<Rightarrow> app_env \<Rightarrow> string \<Rightarrow> string \<Rightarrow> jsv \<Rightarrow> jsv \<Rightarrow> store \<Rightarrow> (store \<times> jsv) res" where
  "app_appendFeatureAlias lc env projectId featureId input requestContext s =
     bnd (requireId (JStr projectId) ''projectId'') (\<lambda>_.
     bnd (requireId (JStr featureId) ''featureId'') (\<lambda>_.
     bnd (assertOnlyFields input [''featureVersion'', ''alias'', ''rationale''] ''featureAlias'') (\<lambda>_.
     case getFeatureBaseline lc projectId (JStr featureId) s of
       None \<Rightarrow> Inl (ConflictErr (''Feature '' @ featureId @ '' does not exist''))
     | Some baseline \<Rightarrow>
         throw_if (\<not> strict_eq (oget input ''featureVersion'') (oget (fb_feature baseline) ''version''))
           (ConflictErr ''A new alias must bind the current immutable Feature version'') (
         bnd (featureGovernor env projectId requestContext) (\<lambda>(actorId, actorRole).
         bnd (createFeatureAlias (with_fields input
                [(''featureId'', JStr featureId), (''actorId'', actorId), (''actorRole'', actorRole)])
                (ae_clock env)) (\<lambda>a.
         appendFeatureAlias projectId a s))))))"

definition app_listFeatureAliases ::
  "(string \<Rightarrow> string \<Rightarrow> int) \<Rightarrow> string \<Rightarrow> string \<Rightarrow> store \<Rightarrow> jsv list option res" where
  "app_listFeatureAliases lc projectId featureId s =
     bnd (requireId (JStr projectId) ''projectId'') (\<lambda>_.
     bnd (requireId (JStr featureId) ''featureId'') (\<lambda>_.
     Inr (case getFeatureBaseline lc projectId (JStr featureId) s of
            None \<Rightarrow> None
          | Some _ \<Rightarrow> Some (listFeatureAliases lc projectId (JStr featureId) s))))"

definition app_appendFeatureLineage ::
  "(string \<Rightarrow> string \<Rightarrow> int) \<Rightarrow> app_env \<Rightarrow> string \<Rightarrow> jsv \<Rightarrow> jsv \<Rightarrow> store \<Rightarrow> (store \<times> jsv) res" where
  "app_appendFeatureLineage lc env projectId input requestContext s =
     bnd (requireId (JStr projectId) ''projectId'') (\<lambda>_.
     bnd (assertOnlyFields input [''id'', ''predecessorFeatureId'', ''successorFeatureId'', ''relationType'', ''rationale'']
            ''featureLineage'') (\<lambda>_.
     bnd (featureGovernor env projectId requestContext) (\<lambda>(actorId, actorRole).
     bnd (createFeatureLineage (with_fields input [(''actorId'', actorId), (''actorRole'', actorRole)])
            (ae_clock env)) (\<lambda>lineage.
     let pred = oget lineage ''predecessorFeatureId''; succ = oget lineage ''successorFeatureId'';
         existing = listFeatureLineages lc projectId JNull s
     in
     throw_if (getFeatureBaseline lc projectId pred s = None \<or> getFeatureBaseline lc projectId succ s = None)
       (ConflictErr ''Feature lineage endpoints must exist in the project'') (
     throw_if (\<not> list_ex (\<lambda>item. strict_eq (oget item ''id'') (oget lineage ''id'')) existing \<and>
               introducesFeatureLineageCycle existing pred succ = Some True)
       (ConflictErr ''Feature lineage would create a cycle'') (
     appendFeatureLineage projectId lineage s))))))"

definition app_listFeatureLineages ::
  "(string \<Rightarrow> string \<Rightarrow> int) \<Rightarrow> string \<Rightarrow> jsv \<Rightarrow> store \<Rightarrow> jsv list res" where
  "app_listFeatureLineages lc projectId featureId s =
     bnd (requireId (JStr projectId) ''projectId'') (\<lambda>_.
     bnd (if featureId \<noteq> JNull then requireId featureId ''featureId'' else Inr JNull) (\<lambda>_.
     Inr (listFeatureLineages lc projectId featureId s)))"

subsection \<open>The search terminates and is exact\<close>

text \<open>The successor relation a list of lineages describes.\<close>

definition lineage_edges :: "jsv list \<Rightarrow> (jsv \<times> jsv) set" where
  "lineage_edges ls = (\<lambda>l. (oget l ''predecessorFeatureId'', oget l ''successorFeatureId'')) ` set ls"

lemma lineage_edges_simps [simp]:
  "lineage_edges [] = {}"
  "lineage_edges (ls @ [l]) =
     insert (oget l ''predecessorFeatureId'', oget l ''successorFeatureId'') (lineage_edges ls)"
  by (simp_all add: lineage_edges_def)

lemma successors_add_lineage:
  "set (successors_of (add_lineage adj l) f) =
     set (successors_of adj f) \<union> (if f = oget l ''predecessorFeatureId'' then {oget l ''successorFeatureId''} else {})"
  by (auto simp: successors_of_def add_lineage_def Let_def update_conv' split: option.splits)

lemma successors_edges: "set (successors_of (foldl add_lineage [] ls) f) = {g. (f, g) \<in> lineage_edges ls}"
proof (induction ls rule: rev_induct)
  case (snoc l ls)
  then show ?case by (auto simp: successors_add_lineage)
qed (simp add: successors_of_def)

definition search_measure :: "(jsv \<times> jsv list) list \<Rightarrow> (lineage_search \<times> lineage_search) set" where
  "search_measure adj = measures [\<lambda>st. card (set (map fst adj) - set (ls_visited st)), \<lambda>st. length (ls_pending st)]"

lemma search_step_decreases:
  assumes "ls_pending st \<noteq> []"
  shows "(search_step adj t st, st) \<in> search_measure adj"
proof -
  obtain f rest where p: "ls_pending st = f # rest" using assms by (cases "ls_pending st") auto
  let ?keys = "set (map fst adj)"
  show ?thesis
  proof (cases "strict_eq f t \<or> f \<in> set (ls_visited st)")
    case True
    then show ?thesis by (auto simp: search_step_def p search_measure_def)
  next
    case False
    show ?thesis
    proof (cases "f \<in> ?keys")
      case True
      have "?keys - set (ls_visited st @ [f]) \<subset> ?keys - set (ls_visited st)" using True False by auto
      from psubset_card_mono [OF _ this] False show ?thesis
        by (simp add: search_step_def p search_measure_def)
    next
      case new: False
      then have "map_of adj f = None" by (simp add: map_of_eq_None_iff)
      moreover have "?keys - insert f (set (ls_visited st)) = ?keys - set (ls_visited st)" using new by auto
      ultimately show ?thesis using False
        by (simp add: search_step_def p search_measure_def successors_of_def del: set_map)
    qed
  qed
qed

text \<open>What holds in every turn: visited features are not the target and their successors are known.\<close>

definition search_inv :: "jsv list \<Rightarrow> string \<Rightarrow> jsv \<Rightarrow> lineage_search \<Rightarrow> bool" where
  "search_inv ls t start st \<longleftrightarrow>
     (\<forall>f\<in>set (ls_pending st). (start, f) \<in> (lineage_edges ls)\<^sup>*) \<and>
     (ls_found st \<longrightarrow> (start, JStr t) \<in> (lineage_edges ls)\<^sup>*) \<and>
     (\<not> ls_found st \<longrightarrow> start \<in> set (ls_visited st) \<union> set (ls_pending st) \<and> JStr t \<notin> set (ls_visited st) \<and>
        lineage_edges ls `` set (ls_visited st) \<subseteq> set (ls_visited st) \<union> set (ls_pending st))"

lemma search_inv_step:
  assumes "search_inv ls t start st" and "ls_pending st \<noteq> []" and "\<not> ls_found st"
  shows "search_inv ls t start (search_step (foldl add_lineage [] ls) (JStr t) st)"
proof -
  obtain f rest where p: "ls_pending st = f # rest" using assms(2) by (cases "ls_pending st") auto
  have reach: "(start, f) \<in> (lineage_edges ls)\<^sup>*" "\<forall>g\<in>set rest. (start, g) \<in> (lineage_edges ls)\<^sup>*"
    and seen: "start \<in> set (ls_visited st) \<or> start = f \<or> start \<in> set rest" "JStr t \<notin> set (ls_visited st)"
      "lineage_edges ls `` set (ls_visited st) \<subseteq> set (ls_visited st) \<union> insert f (set rest)"
    using assms(1,3) by (auto simp: search_inv_def p)
  have onward: "(start, g) \<in> (lineage_edges ls)\<^sup>*" if "(f, g) \<in> lineage_edges ls" for g
    using reach(1) that by (rule rtrancl_into_rtrancl)
  consider (found) "f = JStr t" | (old) "f \<noteq> JStr t" "f \<in> set (ls_visited st)"
    | (new) "f \<noteq> JStr t" "f \<notin> set (ls_visited st)" by blast
  then show ?thesis
  proof cases
    case found
    with reach show ?thesis by (simp add: search_inv_def search_step_def p)
  next
    case old
    with reach(2) seen assms(3) show ?thesis by (auto simp: search_inv_def search_step_def p)
  next
    case new
    with reach(2) seen assms(3) onward show ?thesis
      by (auto simp: search_inv_def search_step_def p successors_edges)
  qed
qed

lemma search_terminates_with:
  "introducesFeatureLineageCycle ls (JStr t) start = Some ((start, JStr t) \<in> (lineage_edges ls)\<^sup>*)"
proof -
  let ?b = "\<lambda>st. ls_pending st \<noteq> [] \<and> \<not> ls_found st"
  let ?c = "search_step (foldl add_lineage [] ls) (JStr t)"
  let ?i = "\<lparr>ls_pending = [start], ls_visited = [], ls_found = False\<rparr>"
  have "\<exists>st. while_option ?b ?c ?i = Some st"
  proof (rule wf_while_option_Some [where P = "\<lambda>_. True"])
    have "{(t, s). (True \<and> ?b s) \<and> t = ?c s} \<subseteq> search_measure (foldl add_lineage [] ls)"
      using search_step_decreases by auto
    then show "wf {(t, s). (True \<and> ?b s) \<and> t = ?c s}"
      by (rule wf_subset [rotated]) (simp add: search_measure_def)
  qed simp_all
  then obtain st where st: "while_option ?b ?c ?i = Some st" by blast
  have inv: "search_inv ls t start st"
  proof (rule while_option_rule [where P = "search_inv ls t start", OF _ st])
    show "search_inv ls t start (?c s)" if "search_inv ls t start s" "?b s" for s
      using that by (simp add: search_inv_step)
  qed (simp add: search_inv_def)
  have "\<not> ?b st" using st by (rule while_option_stop)
  have "ls_found st \<longleftrightarrow> (start, JStr t) \<in> (lineage_edges ls)\<^sup>*"
  proof
    show "(start, JStr t) \<in> (lineage_edges ls)\<^sup>*" if "ls_found st" using inv that by (simp add: search_inv_def)
  next
    assume r: "(start, JStr t) \<in> (lineage_edges ls)\<^sup>*"
    show "ls_found st"
    proof (rule ccontr)
      assume n: "\<not> ls_found st"
      with \<open>\<not> ?b st\<close> inv have closed: "start \<in> set (ls_visited st)" "JStr t \<notin> set (ls_visited st)"
        "lineage_edges ls `` set (ls_visited st) \<subseteq> set (ls_visited st)" by (simp_all add: search_inv_def)
      from r have "JStr t \<in> set (ls_visited st)"
        by (induction rule: rtrancl_induct) (use closed in auto)
      with closed(2) show False ..
    qed
  qed
  with st show ?thesis by (simp add: introducesFeatureLineageCycle_def)
qed

text \<open>
  C22: The cycle search of a lineage always ends, and it answers exactly whether the predecessor can be
  reached from the successor along the lineages it is given, whatever cycles and repeated edges these
  already have.
\<close>
theorem cycle_search_ends_and_decides_reachability:
  "introducesFeatureLineageCycle lineages (JStr pred) succ = Some b \<longleftrightarrow>
     (b \<longleftrightarrow> (succ, JStr pred) \<in> (lineage_edges lineages)\<^sup>*)"
  by (auto simp: search_terminates_with)

subsection \<open>Reachable lineages and versions\<close>

text \<open>
  The stores in which the features of a project evolve: at first it has none, versions and lineages are
  appended through the application, with feature identifiers free of NUL, and in between anything may
  happen that leaves the project's features and lineages alone (aliases, the other collections, the
  other projects).
\<close>

inductive evolved :: "(string \<Rightarrow> string \<Rightarrow> int) \<Rightarrow> string \<Rightarrow> store \<Rightarrow> bool" for lc p where
  evo_start: "project_part p (st_features s) = [] \<Longrightarrow> project_part p (st_featureLineages s) = [] \<Longrightarrow> evolved lc p s"
| evo_version: "evolved lc p s \<Longrightarrow> nul_free (str_of (oget input ''id'')) \<Longrightarrow>
    app_appendFeatureVersion lc env p input s = Inr (s', r) \<Longrightarrow> evolved lc p s'"
| evo_lineage: "evolved lc p s \<Longrightarrow> app_appendFeatureLineage lc env p input ctx s = Inr (s', r) \<Longrightarrow> evolved lc p s'"
| evo_other: "evolved lc p s \<Longrightarrow> project_part p (st_features s') = project_part p (st_features s) \<Longrightarrow>
    project_part p (st_featureLineages s') = project_part p (st_featureLineages s) \<Longrightarrow> evolved lc p s'"

lemma createFeatureLineage_members:
  assumes "createFeatureLineage input now = Inr l"
  obtains i a b where "oget l ''id'' = JStr i" "oget l ''predecessorFeatureId'' = JStr a"
    "oget l ''successorFeatureId'' = JStr b" "a \<noteq> b"
  using assms by (auto simp: createFeatureLineage_def build_simps requireNonEmptyString_Inr Let_def)

lemma appendFeatureLineage_cases:
  assumes "appendFeatureLineage p l s = Inr (s', r)" and "oget l ''id'' = JStr i"
  obtains (kept) "s' = s"
  | (fresh) "map_of (st_featureLineages s) (store_key p i) = None" "st_features s' = st_features s"
      "st_featureLineages s' = st_featureLineages s @ [(store_key p i, l)]"
proof -
  from assms obtain m coll where coll: "put_once same_record m (st_featureLineages s) (store_key p i) l = Inr coll"
    and s': "s' = s\<lparr>st_featureLineages := coll\<rparr>"
    unfolding appendFeatureLineage_def Let_def by (simp add: throw_if_eq_Inr bnd_eq_Inr) blast
  from coll show thesis
    by (rule put_once_cases) (simp_all add: that s')
qed

lemma app_lineage_run:
  assumes "app_appendFeatureLineage lc env p input ctx s = Inr (s', r)"
  obtains l c where "createFeatureLineage c (ae_clock env) = Inr l" "appendFeatureLineage p l s = Inr (s', r)"
    "list_ex (\<lambda>item. strict_eq (oget item ''id'') (oget l ''id'')) (listFeatureLineages lc p JNull s) \<or>
     introducesFeatureLineageCycle (listFeatureLineages lc p JNull s) (oget l ''predecessorFeatureId'')
       (oget l ''successorFeatureId'') \<noteq> Some True"
  using assms unfolding app_appendFeatureLineage_def Let_def
  apply (simp only: bnd_eq_Inr throw_if_eq_Inr split_paired_Ex prod.case de_Morgan_conj not_not)
  apply (elim exE conjE)
  apply (rule that)
    apply assumption
   apply assumption
  apply assumption
  done

definition lineage_inv :: "string \<Rightarrow> store \<Rightarrow> bool" where
  "lineage_inv p s \<longleftrightarrow>
     (\<forall>e\<in>set (project_part p (st_featureLineages s)). \<exists>i. oget (snd e) ''id'' = JStr i \<and> fst e = store_key p i) \<and>
     acyclic (lineage_edges (project_values p (st_featureLineages s)))"

lemma edges_listed: "lineage_edges (listFeatureLineages lc p JNull s) = lineage_edges (project_values p (st_featureLineages s))"
  by (simp add: lineage_edges_def listFeatureLineages_def)

lemma lineage_inv_step:
  assumes inv: "lineage_inv p s" and step: "app_appendFeatureLineage lc env p input ctx s = Inr (s', r)"
  shows "lineage_inv p s'"
proof -
  from step obtain l c where l: "createFeatureLineage c (ae_clock env) = Inr l" "appendFeatureLineage p l s = Inr (s', r)"
    and guard: "list_ex (\<lambda>item. strict_eq (oget item ''id'') (oget l ''id'')) (listFeatureLineages lc p JNull s) \<or>
     introducesFeatureLineageCycle (listFeatureLineages lc p JNull s) (oget l ''predecessorFeatureId'')
       (oget l ''successorFeatureId'') \<noteq> Some True"
    by (rule app_lineage_run)
  from l(1) obtain i a b where m: "oget l ''id'' = JStr i" "oget l ''predecessorFeatureId'' = JStr a"
    "oget l ''successorFeatureId'' = JStr b" by (rule createFeatureLineage_members)
  from l(2) m(1) show ?thesis
  proof (cases rule: appendFeatureLineage_cases)
    case kept
    with inv show ?thesis by simp
  next
    case fresh
    have "\<not> list_ex (\<lambda>item. strict_eq (oget item ''id'') (JStr i)) (listFeatureLineages lc p JNull s)"
    proof
      assume "list_ex (\<lambda>item. strict_eq (oget item ''id'') (JStr i)) (listFeatureLineages lc p JNull s)"
      then obtain e where e: "e \<in> set (project_part p (st_featureLineages s))" "oget (snd e) ''id'' = JStr i"
        by (auto simp: list_ex_iff listFeatureLineages_def project_values_part)
      with inv have "fst e = store_key p i" by (auto simp: lineage_inv_def)
      with e(1) have "(store_key p i, snd e) \<in> set (project_part p (st_featureLineages s))" by (metis prod.collapse)
      from part_key_stored [OF this] fresh(1) show False by simp
    qed
    with guard have "(JStr b, JStr a) \<notin> (lineage_edges (project_values p (st_featureLineages s)))\<^sup>*"
      by (simp add: m search_terminates_with edges_listed)
    with inv show ?thesis
      by (simp add: lineage_inv_def fresh(3) project_values_part part_snoc m acyclic_insert)
  qed
qed

lemma app_version_frame:
  "app_appendFeatureVersion lc env p input s = Inr (s', r) \<Longrightarrow> st_featureLineages s' = st_featureLineages s"
  by (auto simp: app_appendFeatureVersion_def appendFeatureVersion_def Let_def bnd_eq_Inr)

lemma evolved_lineage: "evolved lc p s \<Longrightarrow> lineage_inv p s"
proof (induction rule: evolved.induct)
  case (evo_version s input env s' r)
  with app_version_frame [OF evo_version.hyps(3)] show ?case by (simp add: lineage_inv_def)
next
  case (evo_lineage s env input ctx s' r)
  with lineage_inv_step show ?case by blast
qed (auto simp: lineage_inv_def lineage_edges_def project_values_part acyclic_def)

text \<open>
  C21: The lineage of a project has no cycle. In every store reached by the operations of the
  application, no feature is its own ancestor, over all lineages of the project and all relation types.
\<close>
theorem feature_lineage_is_acyclic:
  assumes "evolved lc p s"
  shows "acyclic (lineage_edges (project_values p (st_featureLineages s)))"
  using evolved_lineage [OF assms] by (simp add: lineage_inv_def)

definition version_inv :: "string \<Rightarrow> store \<Rightarrow> bool" where
  "version_inv p s \<longleftrightarrow> (\<forall>e\<in>set (project_part p (st_features s)). \<exists>i n.
     nul_free i \<and> fst e = store_key p (pair_key (JStr i) (JNum n)) \<and>
     oget (snd e) ''id'' = JStr i \<and> oget (snd e) ''version'' = JNum n \<and> 1 \<le> n \<and>
     (\<forall>m. 1 \<le> m \<longrightarrow> m < n \<longrightarrow> (\<exists>g\<in>set (project_values p (st_features s)).
        oget g ''id'' = JStr i \<and> oget g ''version'' = JNum m)))"

lemma createFeatureVersion_members:
  assumes "createFeatureVersion input now = Inr f"
  obtains i n where "oget f ''id'' = JStr i" "oget f ''version'' = JNum n" "1 \<le> n" "str_of (oget input ''id'') = i"
  using assms by (auto simp: createFeatureVersion_def build_simps requireNonEmptyString_Inr requirePositiveInteger_Inr)

text \<open>The history of a feature holds versions of that feature only.\<close>

lemma history_member:
  assumes inv: "version_inv p s" and i: "nul_free i"
    and b: "getFeatureBaseline lc p (JStr i) s = Some b"
  shows "\<exists>n. oget (fb_feature b) ''version'' = JNum n \<and>
    (store_key p (pair_key (JStr i) (JNum n)), fb_feature b) \<in> set (project_part p (st_features s))"
proof -
  let ?es = "filter (\<lambda>e. starts_with (store_key p (i @ nul)) (fst e)) (st_features s)"
  let ?fs = "sort_by newer (map snd ?es)"
  from b have ne: "?fs \<noteq> []" and h: "fb_feature b = hd ?fs"
    by (auto simp: getFeatureBaseline_def Let_def split: if_splits)
  from hd_in_set [OF ne] obtain e where e: "e \<in> set (st_features s)" "starts_with (store_key p (i @ nul)) (fst e)"
    "fb_feature b = snd e" by (auto simp: h)
  from e(2) have "in_project p (fst e)" by (auto simp: in_project_def store_key_def starts_with_iff)
  with e(1) have part: "e \<in> set (project_part p (st_features s))" by (simp add: project_part_def)
  with inv obtain j n where j: "nul_free j" "fst e = store_key p (pair_key (JStr j) (JNum n))"
    "oget (snd e) ''version'' = JNum n" unfolding version_inv_def by blast
  from e(2) have "in_project i (store_key j (js_string (JNum n)))"
    by (auto simp: j(2) in_project_def store_key_def starts_with_iff pair_key_def)
  with in_project_key [OF j(1) i] have "j = i" by simp
  with j part show ?thesis by (cases e) (auto simp: e(3))
qed

lemma version_inv_step:
  assumes inv: "version_inv p s" and free: "nul_free (str_of (oget input ''id''))"
    and step: "app_appendFeatureVersion lc env p input s = Inr (s', r)"
  shows "version_inv p s'"
proof -
  from step obtain f where f: "createFeatureVersion input (ae_clock env) = Inr f"
    and guard: "case getFeatureBaseline lc p (oget f ''id'') s of None \<Rightarrow> oget f ''version'' = JNum 1
      | Some b \<Rightarrow> advances (oget (fb_feature b) ''version'') (oget f ''version'')"
    and ap: "appendFeatureVersion p f s = Inr (s', r)"
    by (auto simp: app_appendFeatureVersion_def Let_def bnd_eq_Inr throw_if_eq_Inr split: option.splits)
  from f obtain i n where m: "oget f ''id'' = JStr i" "oget f ''version'' = JNum n" "1 \<le> n" "str_of (oget input ''id'') = i"
    by (rule createFeatureVersion_members)
  let ?k = "store_key p (pair_key (JStr i) (JNum n))"
  from ap consider (kept) "s' = s" | (fresh) "map_of (st_features s) ?k = None" "st_features s' = st_features s @ [(?k, f)]"
    by (auto simp: appendFeatureVersion_def appendVersion_def bnd_eq_Inr version_key_def m elim!: put_once_cases)
  then show ?thesis
  proof cases
    case kept
    with inv show ?thesis by simp
  next
    case fresh
    have "\<exists>g\<in>set (project_values p (st_features s)). oget g ''id'' = JStr i \<and> oget g ''version'' = JNum k"
      if "1 \<le> k" "k < n" for k
    proof (cases "getFeatureBaseline lc p (JStr i) s")
      case None
      with guard that show ?thesis by (simp add: m)
    next
      case (Some b)
      with history_member [OF inv _ Some] free m(4) obtain c where c: "oget (fb_feature b) ''version'' = JNum c"
        "(store_key p (pair_key (JStr i) (JNum c)), fb_feature b) \<in> set (project_part p (st_features s))" by auto
      from part_key_stored [OF c(2)] fresh(1) have "c \<noteq> n" by auto
      with guard Some c(1) have n: "n = c + 1" by (simp add: m advances_def)
      from inv c(2) obtain j v where j: "oget (fb_feature b) ''id'' = JStr j" "oget (fb_feature b) ''version'' = JNum v"
          "store_key p (pair_key (JStr i) (JNum c)) = store_key p (pair_key (JStr j) (JNum v))"
          "\<forall>m. 1 \<le> m \<longrightarrow> m < v \<longrightarrow> (\<exists>g\<in>set (project_values p (st_features s)).
             oget g ''id'' = JStr j \<and> oget g ''version'' = JNum m)"
        unfolding version_inv_def by fastforce
      from j(2,3) c(1) have "j = i" "v = c" by (simp_all add: store_key_def pair_key_def)
      with j that n show ?thesis
        using c(2) by (cases "k = c") (force simp: project_values_part)+
    qed
    then have new: "\<exists>g\<in>set (project_values p (st_features s')). oget g ''id'' = JStr i \<and> oget g ''version'' = JNum k"
      if "1 \<le> k" "k < n" for k using that by (auto simp: fresh(2) project_values_part part_snoc)
    show ?thesis unfolding version_inv_def
    proof
      fix e assume "e \<in> set (project_part p (st_features s'))"
      then consider "e \<in> set (project_part p (st_features s))" | "e = (?k, f)" by (auto simp: fresh(2) part_snoc)
      then show "\<exists>i n. nul_free i \<and> fst e = store_key p (pair_key (JStr i) (JNum n)) \<and>
          oget (snd e) ''id'' = JStr i \<and> oget (snd e) ''version'' = JNum n \<and> 1 \<le> n \<and>
          (\<forall>m. 1 \<le> m \<longrightarrow> m < n \<longrightarrow> (\<exists>g\<in>set (project_values p (st_features s')).
             oget g ''id'' = JStr i \<and> oget g ''version'' = JNum m))"
      proof cases
        case 1
        with inv show ?thesis unfolding version_inv_def
          by (fastforce simp: fresh(2) project_values_part part_snoc)
      next
        case 2
        with new m free show ?thesis by (intro exI [of _ i] exI [of _ n]) simp
      qed
    qed
  qed
qed

lemma app_lineage_frame:
  assumes "app_appendFeatureLineage lc env p input ctx s = Inr (s', r)"
  shows "st_features s' = st_features s"
proof -
  from assms obtain l c where l: "createFeatureLineage c (ae_clock env) = Inr l" "appendFeatureLineage p l s = Inr (s', r)"
    by (rule app_lineage_run)
  from l(1) obtain i where "oget l ''id'' = JStr i" by (rule createFeatureLineage_members)
  with l(2) show ?thesis by (cases rule: appendFeatureLineage_cases) simp_all
qed

lemma evolved_versions: "evolved lc p s \<Longrightarrow> version_inv p s"
proof (induction rule: evolved.induct)
  case (evo_version s input env s' r)
  with version_inv_step show ?case by blast
next
  case (evo_lineage s env input ctx s' r)
  with app_lineage_frame [OF evo_lineage.hyps(2)] show ?case by (simp add: version_inv_def)
qed (auto simp: version_inv_def project_values_part)


subsection \<open>A run\<close>

text \<open>Two features, a second version of one of them and a lineage between them.\<close>

definition governor_env :: app_env where
  "governor_env = \<lparr>ae_reviewerResolver = \<lambda>_ _. JObj [(''actorId'', JStr ''ann''), (''actorRole'', JStr ''owner'')],
     ae_reviewPolicyResolver = \<lambda>_ _. JObj [(''allowedFeatureGovernanceRoles'', JArr [JStr ''owner''])],
     ae_actorIdentityResolver = \<lambda>i. i, ae_runnerKeyResolver = \<lambda>_ _. JUndef, ae_scannerKeyResolver = \<lambda>_ _. JUndef,
     ae_clock = Some 0\<rparr>"

definition version_request :: "string \<Rightarrow> int \<Rightarrow> jsv" where
  "version_request i n = JObj [(''id'', JStr i), (''version'', JNum n), (''name'', JStr i), (''createdAt'', JStr ''t'')]"

definition lineage_request :: "string \<Rightarrow> string \<Rightarrow> string \<Rightarrow> jsv" where
  "lineage_request i a b = JObj [(''id'', JStr i), (''predecessorFeatureId'', JStr a), (''successorFeatureId'', JStr b),
     (''relationType'', JStr ''SPLIT_INTO''), (''rationale'', JStr ''r'')]"

fun evolve :: "(jsv + jsv) list \<Rightarrow> store \<Rightarrow> store res" where
  "evolve [] s = Inr s"
| "evolve (Inl v # rs) s = bnd (app_appendFeatureVersion (\<lambda>_ _. 0) governor_env ''p'' v s) (\<lambda>(s', _). evolve rs s')"
| "evolve (Inr l # rs) s = bnd (app_appendFeatureLineage (\<lambda>_ _. 0) governor_env ''p'' l JNull s) (\<lambda>(s', _). evolve rs s')"

lemma evolve_evolved:
  assumes "evolved (\<lambda>_ _. 0) ''p'' s" and "evolve rs s = Inr s'"
    and "list_all (\<lambda>r. case r of Inl v \<Rightarrow> nul_free (str_of (oget v ''id'')) | Inr _ \<Rightarrow> True) rs"
  shows "evolved (\<lambda>_ _. 0) ''p'' s'"
  using assms
proof (induction rs s rule: evolve.induct)
  case (2 v rs s)
  from 2(3) obtain s1 r where r: "app_appendFeatureVersion (\<lambda>_ _. 0) governor_env ''p'' v s = Inr (s1, r)"
    "evolve rs s1 = Inr s'" by (auto simp: bnd_eq_Inr)
  have "evolved (\<lambda>_ _. 0) ''p'' s1" by (rule evo_version [OF 2(2) _ r(1)]) (use 2(4) in simp)
  from 2(1) [OF r(1) refl this r(2)] 2(4) show ?case by simp
next
  case (3 l rs s)
  from 3(3) obtain s1 r where r: "app_appendFeatureLineage (\<lambda>_ _. 0) governor_env ''p'' l JNull s = Inr (s1, r)"
    "evolve rs s1 = Inr s'" by (auto simp: bnd_eq_Inr)
  from 3(1) [OF r(1) refl evo_lineage [OF 3(2) r(1)] r(2)] 3(4) show ?case by simp
qed simp

definition evolution :: "(jsv + jsv) list" where
  "evolution = [Inl (version_request ''F'' 1), Inl (version_request ''G'' 1), Inl (version_request ''F'' 2),
     Inr (lineage_request ''L'' ''F'' ''G'')]"

lemma evolution_ok: "case evolve evolution empty_store of Inl _ \<Rightarrow> False
   | Inr s \<Rightarrow> map (\<lambda>f. oget f ''version'') (project_values ''p'' (st_features s)) = [JNum 1, JNum 1, JNum 2] \<and>
       length (project_values ''p'' (st_featureLineages s)) = 1"
  by code_simp

lemma evolution_run:
  obtains s where "evolved (\<lambda>_ _. 0) ''p'' s" "project_values ''p'' (st_featureLineages s) \<noteq> []"
    "map (\<lambda>f. oget f ''version'') (project_values ''p'' (st_features s)) = [JNum 1, JNum 1] @ [JNum 2]"
proof -
  obtain s where s: "evolve evolution empty_store = Inr s"
    and r: "map (\<lambda>f. oget f ''version'') (project_values ''p'' (st_features s)) = [JNum 1, JNum 1, JNum 2]"
      "length (project_values ''p'' (st_featureLineages s)) = 1"
    using evolution_ok by (elim resE) simp
  have "list_all (\<lambda>r. case r of Inl v \<Rightarrow> nul_free (str_of (oget v ''id'')) | Inr _ \<Rightarrow> True) evolution"
    by code_simp
  from evolve_evolved [OF evo_start s this]
  have "evolved (\<lambda>_ _. 0) ''p'' s" by (simp only: empty_store_def store.simps project_part_def filter.simps)
  then show thesis
    by (rule that) (use r in \<open>simp_all only: append.simps, metis length_0_conv zero_neq_one\<close>)
qed

theorem feature_lineage_is_acyclic_witness:
  "\<exists>s::store. project_values ''p'' (st_featureLineages s) \<noteq> [] \<and>
     acyclic (lineage_edges (project_values ''p'' (st_featureLineages s)))"
proof -
  obtain s where s: "evolved (\<lambda>_ _. 0) ''p'' s" "project_values ''p'' (st_featureLineages s) \<noteq> []"
    by (rule evolution_run)
  show ?thesis by (rule exI [of _ s], rule conjI, rule s(2), rule feature_lineage_is_acyclic [OF s(1)])
qed


end
