(* ===== verification/Test_Spec.thy ===== *)
theory Test_Spec
  imports Value_Tree
begin

section \<open>Test specifications\<close>

text \<open>
  The construction of a test specification, its violations and its validation
  (\<open>src/domain/test-spec.js\<close>). Shown: the validation calls a specification executable exactly when a
  declarative safety condition holds, the secret check is exact, a created specification is created
  again unchanged, and what the check before storing lets through.
\<close>

subsection \<open>Construction\<close>

definition requireBoolean :: "jsv \<Rightarrow> string \<Rightarrow> bool \<Rightarrow> jsv res" where
  "requireBoolean v fieldName defaultValue =
     (case v of JUndef \<Rightarrow> Inr (JBool defaultValue) | JBool b \<Rightarrow> Inr (JBool b)
      | _ \<Rightarrow> Inl (TypeErr (fieldName @ '' must be a boolean'')))"

definition normalizeApproval :: "jsv \<Rightarrow> bool \<Rightarrow> jsv res" where
  "normalizeApproval v approved =
     (if \<not> approved
      then throw_if (\<not> nullish v) (TypeErr ''testSpec.approval must be null when testSpec.approved is false'') (Inr JNull)
      else
        bnd (requireObject v ''testSpec.approval'') (\<lambda>approval.
        bnd (requireNonEmptyString (oget approval ''approvedAt'') ''testSpec.approval.approvedAt'') (\<lambda>approvedAt.
        bnd (requireIsoTimestamp approvedAt ''testSpec.approval.approvedAt'') (\<lambda>_.
        mk_obj
         [(''actorId'', requireNonEmptyString (oget approval ''actorId'') ''testSpec.approval.actorId''),
          (''actorRole'', requireNonEmptyString (oget approval ''actorRole'') ''testSpec.approval.actorRole''),
          (''approvedAt'', Inr approvedAt),
          (''rationale'', optionalString (oget approval ''rationale'') ''testSpec.approval.rationale''),
          (''requestFingerprint'',
             optionalString (oget approval ''requestFingerprint'') ''testSpec.approval.requestFingerprint'')]))))"

text \<open>The origin of a specification written by hand, with the given type and fingerprint.\<close>

definition manual_origin :: "jsv \<Rightarrow> jsv res \<Rightarrow> jsv res" where
  "manual_origin type fingerprint = mk_obj
     [(''type'', Inr type), (''claimRef'', Inr JNull), (''decisionId'', Inr JNull), (''mappingId'', Inr JNull),
      (''factIds'', Inr (JArr [])), (''generator'', Inr JNull), (''requestFingerprint'', fingerprint)]"

definition normalizeOrigin :: "jsv \<Rightarrow> jsv res" where
  "normalizeOrigin v =
     (if nullish v then manual_origin (JStr ''MANUAL'') (Inr JNull)
      else
        bnd (requireObject v ''testSpec.origin'') (\<lambda>origin.
        bnd (assertEnum TestSpecOriginType (oget origin ''type'') ''testSpec.origin.type'') (\<lambda>type.
        if type = JStr ''MANUAL'' then
          manual_origin type (optionalString (oget origin ''requestFingerprint'') ''testSpec.origin.requestFingerprint'')
        else
          bnd (requireObject (oget origin ''claimRef'') ''testSpec.origin.claimRef'') (\<lambda>claimRef.
          bnd (requireObject (oget origin ''generator'') ''testSpec.origin.generator'') (\<lambda>generator.
          bnd (requireArray True (oget origin ''factIds'') ''testSpec.origin.factIds'') (\<lambda>facts.
          bnd (mapiR (\<lambda>index factId. requireNonEmptyString factId (at_index ''testSpec.origin.factIds'' index)) 0 facts)
            (\<lambda>factIds.
          mk_obj
           [(''type'', Inr type),
            (''claimRef'', mk_obj
               [(''id'', requireNonEmptyString (oget claimRef ''id'') ''testSpec.origin.claimRef.id''),
                (''version'', requirePositiveInteger (oget claimRef ''version'') ''testSpec.origin.claimRef.version'')]),
            (''decisionId'', requireNonEmptyString (oget origin ''decisionId'') ''testSpec.origin.decisionId''),
            (''mappingId'', requireNonEmptyString (oget origin ''mappingId'') ''testSpec.origin.mappingId''),
            (''factIds'', Inr (JArr (js_value_set factIds))),
            (''generator'', mk_obj
               [(''id'', requireNonEmptyString (oget generator ''id'') ''testSpec.origin.generator.id''),
                (''version'', requireNonEmptyString (oget generator ''version'') ''testSpec.origin.generator.version'')]),
            (''requestFingerprint'',
               requireNonEmptyString (oget origin ''requestFingerprint'') ''testSpec.origin.requestFingerprint'')])))))))"

definition claim_ref :: "nat \<Rightarrow> jsv \<Rightarrow> jsv res" where
  "claim_ref index reference = mk_obj
     [(''id'', requireNonEmptyString (oget reference ''id'') (at_index ''testSpec.verifiesClaims'' index @ ''.id'')),
      (''version'', requirePositiveInteger (oget reference ''version'')
         (at_index ''testSpec.verifiesClaims'' index @ ''.version''))]"

text \<open>The key \<open>`${reference.id}\u0000${reference.version}`\<close>; a later reference replaces an earlier one.\<close>

definition ref_key :: "jsv \<Rightarrow> string" where
  "ref_key r = js_string (oget r ''id'') @ [CHR 0x00] @ js_string (oget r ''version'')"

definition normalizeClaimRefs :: "jsv \<Rightarrow> jsv res" where
  "normalizeClaimRefs v =
     bnd (requireArray True v ''testSpec.verifiesClaims'') (\<lambda>refs.
     bnd (mapiR claim_ref 0 refs) (\<lambda>references.
     Inr (JArr (map snd (js_map (map (\<lambda>r. (ref_key r, r)) references))))))"

definition requireUniqueIds :: "jsv list \<Rightarrow> string \<Rightarrow> jsv list res" where
  "requireUniqueIds items fieldName =
     bnd (foldR (\<lambda>ids item. throw_if (arr_includes ids (oget item ''id''))
            (TypeErr (fieldName @ '' must use unique ids'')) (Inr (ids @ [oget item ''id'']))) [] items)
       (\<lambda>_. Inr items)"

definition normalize_step :: "nat \<Rightarrow> jsv \<Rightarrow> jsv res" where
  "normalize_step index step =
     (let f = at_index ''testSpec.steps'' index in
      bnd (requireObject step f) (\<lambda>step.
      spread_obj step
        [(''id'', requireNonEmptyString (oget step ''id'') (f @ ''.id'')),
         (''executor'', assertEnum TestExecutor (oget step ''executor'') (f @ ''.executor''))]))"

definition normalizeSteps :: "jsv \<Rightarrow> jsv res" where
  "normalizeSteps v =
     bnd (requireArray True v ''testSpec.steps'') (\<lambda>steps.
     bnd (mapiR normalize_step 0 steps) (\<lambda>steps.
     bnd (requireUniqueIds steps ''testSpec.steps'') (\<lambda>steps. Inr (JArr steps))))"

definition normalize_assertion :: "nat \<Rightarrow> jsv \<Rightarrow> jsv res" where
  "normalize_assertion index assertion =
     (let f = at_index ''testSpec.assertions'' index in
      bnd (requireObject assertion f) (\<lambda>assertion.
      spread_obj assertion
        [(''id'', requireNonEmptyString (oget assertion ''id'') (f @ ''.id'')),
         (''type'', requireNonEmptyString (oget assertion ''type'') (f @ ''.type''))]))"

definition normalizeAssertions :: "jsv \<Rightarrow> jsv res" where
  "normalizeAssertions v =
     bnd (requireArray False v ''testSpec.assertions'') (\<lambda>as.
     bnd (mapiR normalize_assertion 0 as) (\<lambda>as.
     bnd (requireUniqueIds as ''testSpec.assertions'') (\<lambda>as. Inr (JArr as))))"

definition normalize_preconditions :: "jsv \<Rightarrow> jsv res" where
  "normalize_preconditions v =
     bnd (requireArray False (coalesce v (JArr [])) ''testSpec.preconditions'') (\<lambda>items.
     bnd (mapiR (\<lambda>index item. requireObject item (at_index ''testSpec.preconditions'' index)) 0 items) (\<lambda>items.
     Inr (JArr items)))"

definition createTestSpec :: "jsv \<Rightarrow> int option \<Rightarrow> jsv res" where
  "createTestSpec input now =
     bnd (requireObject (oget input ''environment'') ''testSpec.environment'') (\<lambda>environment.
     bnd (requireObject (coalesce (oget input ''policy'') (JObj [])) ''testSpec.policy'') (\<lambda>policy.
     bnd (requireBoolean (oget input ''approved'') ''testSpec.approved'' False) (\<lambda>approved.
     bnd (normalizeApproval (oget input ''approval'') (approved = JBool True)) (\<lambda>approval.
     bnd (created_at input now) (\<lambda>createdAt.
     bnd (requireIsoTimestamp createdAt ''testSpec.createdAt'') (\<lambda>_.
     throw_if (truthy approval \<and> time_less (js_date_parse createdAt) (js_date_parse (oget approval ''approvedAt'')))
       (RangeErr ''testSpec.approval.approvedAt must not be later than testSpec.createdAt'') (
     mk_obj
      [(''id'', requireNonEmptyString (oget input ''id'') ''testSpec.id''),
       (''version'', requirePositiveInteger (oget input ''version'') ''testSpec.version''),
       (''name'', requireNonEmptyString (oget input ''name'') ''testSpec.name''),
       (''risk'', assertEnum TestRisk (oget input ''risk'') ''testSpec.risk''),
       (''approved'', Inr approved),
       (''approval'', Inr approval),
       (''featureId'', requireNonEmptyString (oget input ''featureId'') ''testSpec.featureId''),
       (''verifiesClaims'', normalizeClaimRefs (oget input ''verifiesClaims'')),
       (''origin'', normalizeOrigin (oget input ''origin'')),
       (''sourceSnapshotId'', optionalString (oget input ''sourceSnapshotId'') ''testSpec.sourceSnapshotId''),
       (''environment'', spread_obj environment
          [(''target'', requireNonEmptyString (oget environment ''target'') ''testSpec.environment.target''),
           (''operationLevel'', assertEnum TestOperationLevel (oget environment ''operationLevel'')
              ''testSpec.environment.operationLevel'')]),
       (''preconditions'', normalize_preconditions (oget input ''preconditions'')),
       (''variables'', requireObject (coalesce (oget input ''variables'') (JObj [])) ''testSpec.variables''),
       (''steps'', normalizeSteps (oget input ''steps'')),
       (''assertions'', normalizeAssertions (coalesce (oget input ''assertions'') (JArr []))),
       (''cleanup'', if nullish (oget input ''cleanup'') then Inr JNull
                     else requireObject (oget input ''cleanup'') ''testSpec.cleanup''),
       (''policy'', spread_obj policy
          [(''approvalRequired'', requireBoolean (oget policy ''approvalRequired'') ''testSpec.policy.approvalRequired'' True),
           (''destructive'', requireBoolean (oget policy ''destructive'') ''testSpec.policy.destructive'' False),
           (''externalSideEffect'',
              requireBoolean (oget policy ''externalSideEffect'') ''testSpec.policy.externalSideEffect'' False)]),
       (''createdAt'', Inr createdAt)])))))))"

subsection \<open>Violations\<close>

record violation =
  vi_code :: string
  vi_severity :: string
  vi_path :: string
  vi_message :: string

definition violation :: "string \<Rightarrow> string \<Rightarrow> string \<Rightarrow> violation" where
  "violation code path message = \<lparr>vi_code = code, vi_severity = ''BLOCKING'', vi_path = path, vi_message = message\<rparr>"

text \<open>\<open>typeof v === "string" && v.trim() !== ""\<close>\<close>

definition filled :: "jsv \<Rightarrow> bool" where
  "filled v \<longleftrightarrow> is_string v \<and> js_trim (str_of v) \<noteq> []"

text \<open>\<open>/\$\{[^}]+\}/.test(s)\<close>\<close>

fun template_reference :: "string \<Rightarrow> bool" where
  "template_reference [] = False"
| "template_reference (c # s) =
     ((c = CHR ''$'' \<and> s \<noteq> [] \<and> hd s = CHR ''{'' \<and>
       (let body = takeWhile (\<lambda>d. d \<noteq> CHR ''}'') (tl s); rest = dropWhile (\<lambda>d. d \<noteq> CHR ''}'') (tl s)
        in body \<noteq> [] \<and> rest \<noteq> [])) \<or> template_reference s)"

text \<open>What a member with a sensitive name may hold: a secret reference or a variable reference.\<close>

definition secret_reference :: "jsv \<Rightarrow> bool" where
  "secret_reference child \<longleftrightarrow>
     (is_plain_object child \<and> filled (oget child ''secretRef'')) \<or> (is_string child \<and> template_reference (str_of child))"

function visit_secrets :: "string \<Rightarrow> jsv \<Rightarrow> violation list" where
  "visit_secrets path (JArr xs) =
     concat (map (\<lambda>(index, item). visit_secrets (path @ ''/'' @ nat_str index) item) (zip [0..<length xs] xs))"
| "visit_secrets path (JObj fs) =
     concat (map (\<lambda>(name, child). let childPath = path @ ''/'' @ name in
       if sensitive_name name \<and> name \<noteq> ''secretRef'' \<and> \<not> secret_reference child
       then [violation ''RAW_SECRET_FORBIDDEN'' childPath
               (''Sensitive value '' @ name @ '' must use secretRef or a variable reference'')]
       else visit_secrets childPath child) (own_order fs))"
| "visit_secrets path JUndef = []"
| "visit_secrets path JNull = []"
| "visit_secrets path (JBool b) = []"
| "visit_secrets path (JNum i) = []"
| "visit_secrets path (JFrac f) = []"
| "visit_secrets path (JStr s) = []"
  by pat_completeness auto
termination
  by (relation "measure (\<lambda>(p, v). size v)")
     (auto dest: size_prop set_zip_rightD simp: less_Suc_eq_le size_list_estimation')

definition sensitiveValueViolations :: "jsv \<Rightarrow> violation list" where
  "sensitiveValueViolations testSpec = visit_secrets [] testSpec"

definition path_at :: "string \<Rightarrow> nat \<Rightarrow> string \<Rightarrow> string" where
  "path_at collection index rest = ''/'' @ collection @ ''/'' @ nat_str index @ rest"

definition database_violations :: "nat \<Rightarrow> jsv \<Rightarrow> violation list" where
  "database_violations index step =
     (if has_own step ''sql'' \<or> has_own step ''query''
      then [violation ''RAW_SQL_FORBIDDEN'' (path_at ''steps'' index [])
              ''Raw SQL is forbidden in TestSpec; use a trusted queryRef''] else []) @
     (if \<not> filled (oget step ''queryRef'')
      then [violation ''QUERY_REF_REQUIRED'' (path_at ''steps'' index ''/queryRef'')
              ''DATABASE steps require a trusted queryRef''] else [])"

definition raw_command_fields :: "string list" where
  "raw_command_fields = [''command'', ''args'', ''cwd'', ''env'', ''environment'']"

definition existing_test_violations :: "nat \<Rightarrow> jsv \<Rightarrow> violation list" where
  "existing_test_violations index step =
     map (\<lambda>forbidden. violation ''RAW_TEST_COMMAND_FORBIDDEN'' (path_at ''steps'' index (''/'' @ forbidden))
            (''EXISTING_TEST steps cannot supply '' @ forbidden @ ''; use a trusted testRef''))
       (filter (has_own step) raw_command_fields) @
     (if \<not> filled (oget step ''testRef'')
      then [violation ''TEST_REF_REQUIRED'' (path_at ''steps'' index ''/testRef'')
              ''EXISTING_TEST steps require a trusted testRef''] else [])"

text \<open>\<open>/^[a-z][a-z0-9+.-]*:/i.test(path)\<close>\<close>

definition is_letter :: "char \<Rightarrow> bool" where
  "is_letter c \<longleftrightarrow> (let n = (of_char (lower_char c) :: nat) in 97 \<le> n \<and> n \<le> 122)"

definition has_scheme :: "string \<Rightarrow> bool" where
  "has_scheme path \<longleftrightarrow> path \<noteq> [] \<and> is_letter (hd path) \<and>
     (let rest = dropWhile (\<lambda>c. is_letter c \<or> is_digit c \<or> c \<in> set ''+.-'') (tl path) in rest \<noteq> [] \<and> hd rest = CHR '':'')"

definition step_method :: "jsv \<Rightarrow> string" where
  "step_method step = (if is_string (oget step ''method'') then to_upper (str_of (oget step ''method'')) else [])"

definition http_violations :: "jsv \<Rightarrow> nat \<Rightarrow> jsv \<Rightarrow> violation list" where
  "http_violations operationLevel index step =
     (let method = step_method step; path = oget step ''path'' in
      if method = [] \<or> \<not> is_string path \<or> str_of path = [] \<or> has_scheme (str_of path) \<or> starts_with ''//'' (str_of path)
      then [violation ''HTTP_STEP_INVALID'' (path_at ''steps'' index [])
              ''HTTP steps require an explicit method and origin-relative path'']
      else if operationLevel = JStr ''SAFE_READ'' \<and> method \<notin> set [''GET'', ''HEAD'']
      then [violation ''OPERATION_METHOD_MISMATCH'' (path_at ''steps'' index ''/method'')
              (''HTTP '' @ method @ '' is not executable as SAFE_READ'')]
      else if operationLevel = JStr ''CONTROLLED_WRITE'' \<and> method \<notin> set [''POST'', ''PUT'', ''PATCH'']
      then [violation ''OPERATION_METHOD_MISMATCH'' (path_at ''steps'' index ''/method'')
              (''HTTP '' @ method @ '' is not executable as CONTROLLED_WRITE'')]
      else [])"

definition step_violations :: "jsv \<Rightarrow> nat \<Rightarrow> jsv \<Rightarrow> violation list" where
  "step_violations operationLevel index step =
     (let executor = oget step ''executor'' in
      (if executor = JStr ''DATABASE'' then database_violations index step else []) @
      (if executor = JStr ''EXISTING_TEST'' then existing_test_violations index step else []) @
      (if executor = JStr ''HTTP'' then http_violations operationLevel index step else []))"

text \<open>
  \<open>assertionExecutors[assertion.type]\<close>: the table is an object literal, so a type that is a member
  name of \<open>Object.prototype\<close> finds a built-in function or object there, which is truthy and equals no
  executor (it stands here as an empty object).
\<close>

definition assertionExecutors :: "(string \<times> string) list" where
  "assertionExecutors =
     [(''HTTP_STATUS'', ''HTTP''), (''RESPONSE_HEADER'', ''HTTP''), (''JSON_PATH'', ''HTTP''),
      (''DATABASE_ROW_COUNT'', ''DATABASE''), (''DATABASE_FIELD'', ''DATABASE''),
      (''EXISTING_TEST_EXIT_CODE'', ''EXISTING_TEST'')]"

definition required_executor :: "string \<Rightarrow> jsv" where
  "required_executor type = (case map_of assertionExecutors type of
      Some executor \<Rightarrow> JStr executor
    | None \<Rightarrow> if type \<in> set prototype_members then JObj [] else JUndef)"

text \<open>\<open>a && b || c && d || ...\<close>: the first condition that holds with a truthy value.\<close>

definition sensitive_target :: "jsv \<Rightarrow> string \<Rightarrow> jsv" where
  "sensitive_target assertion type =
     (if type = ''RESPONSE_HEADER'' \<and> truthy (oget assertion ''name'') then oget assertion ''name''
      else if type = ''JSON_PATH'' \<and> truthy (oget assertion ''expression'') then oget assertion ''expression''
      else if type = ''DATABASE_FIELD'' \<and> truthy (oget assertion ''field'') then oget assertion ''field''
      else JStr [])"

definition assertion_violations :: "(jsv \<times> jsv) list \<Rightarrow> nat \<Rightarrow> jsv \<Rightarrow> violation list" where
  "assertion_violations stepsById index assertion =
     (let type = js_string (oget assertion ''type''); requiredExecutor = required_executor type in
      if \<not> truthy requiredExecutor
      then [violation ''UNSUPPORTED_ASSERTION'' (path_at ''assertions'' index ''/type'')
              (''Assertion type '' @ type @ '' is not supported by this Runner'')]
      else
        (case map_of stepsById (oget assertion ''stepId'') of
           None \<Rightarrow> [violation ''ASSERTION_STEP_REQUIRED'' (path_at ''assertions'' index ''/stepId'')
                     ''Assertion must reference an existing TestSpec step'']
         | Some step \<Rightarrow>
             if \<not> strict_eq (oget step ''executor'') requiredExecutor
             then [violation ''ASSERTION_EXECUTOR_MISMATCH'' (path_at ''assertions'' index ''/stepId'')
                     (type @ '' requires a '' @ js_string requiredExecutor @ '' step'')]
             else []) @
        (if sensitive_name (js_string (sensitive_target assertion type))
         then [violation ''SENSITIVE_ASSERTION_FORBIDDEN'' (path_at ''assertions'' index [])
                 ''Assertions must not extract credential, token, cookie, or other sensitive values into Evidence'']
         else []))"

definition indexed :: "(nat \<Rightarrow> 'a \<Rightarrow> 'b list) \<Rightarrow> 'a list \<Rightarrow> 'b list" where
  "indexed f xs = concat (map (\<lambda>(i, x). f i x) (zip [0..<length xs] xs))"

definition executionProtocolViolations :: "jsv \<Rightarrow> violation list" where
  "executionProtocolViolations testSpec =
     (let steps = elems (oget testSpec ''steps'');
          stepsById = js_map (map (\<lambda>step. (oget step ''id'', step)) steps)
      in indexed (step_violations (oget (oget testSpec ''environment'') ''operationLevel'')) steps @
         indexed (assertion_violations stepsById) (elems (oget testSpec ''assertions'')))"

subsection \<open>Validation\<close>

definition seeded :: "jsv \<Rightarrow> bool" where
  "seeded item \<longleftrightarrow> one_of [''SEED'', ''SEED_API'', ''SEED_DATABASE''] (oget item ''type'') \<and> filled (oget item ''seedRef'')"

definition report_if :: "bool \<Rightarrow> violation \<Rightarrow> violation list" where
  "report_if c v = (if c then [v] else [])"

definition policy_violations :: "jsv \<Rightarrow> violation list" where
  "policy_violations testSpec =
     (let level = oget (oget testSpec ''environment'') ''operationLevel''; policy = oget testSpec ''policy'' in
      report_if (elems (oget testSpec ''assertions'') = [])
        (violation ''NO_ASSERTION'' ''/assertions'' ''At least one deterministic assertion is required'') @
      report_if (truthy (oget policy ''approvalRequired'') \<and> \<not> truthy (oget testSpec ''approved''))
        (violation ''APPROVAL_REQUIRED'' ''/approved'' ''TestSpec requires approval before execution'') @
      report_if (level = JStr ''CONTROLLED_WRITE'' \<and> \<not> list_ex seeded (elems (oget testSpec ''preconditions'')))
        (violation ''SEED_REQUIRED'' ''/preconditions''
           ''Controlled writes require an explicit server-recognized Seed protocol reference'') @
      report_if (level = JStr ''CONTROLLED_WRITE'' \<and> \<not> truthy (oget (oget testSpec ''cleanup'') ''strategy''))
        (violation ''CLEANUP_REQUIRED'' ''/cleanup'' ''Controlled writes require an explicit cleanup strategy'') @
      report_if (level = JStr ''DESTRUCTIVE'' \<or> truthy (oget policy ''destructive''))
        (violation ''DESTRUCTIVE_BLOCKED'' ''/environment/operationLevel'' ''Destructive execution is not enabled'') @
      report_if (level = JStr ''EXTERNAL_SIDE_EFFECT'' \<or> truthy (oget policy ''externalSideEffect''))
        (violation ''EXTERNAL_SIDE_EFFECT_BLOCKED'' ''/environment/operationLevel''
           ''External side effects are not enabled''))"

definition invalidating_codes :: "string list" where
  "invalidating_codes =
     [''INVALID_TEST_SPEC'', ''RAW_SECRET_FORBIDDEN'', ''RAW_SQL_FORBIDDEN'', ''QUERY_REF_REQUIRED'', ''HTTP_STEP_INVALID'',
      ''OPERATION_METHOD_MISMATCH'', ''UNSUPPORTED_ASSERTION'', ''ASSERTION_STEP_REQUIRED'', ''ASSERTION_EXECUTOR_MISMATCH'',
      ''SENSITIVE_ASSERTION_FORBIDDEN'']"

record validation =
  va_valid :: bool
  va_executable :: bool
  va_violations :: "violation list"

definition validateTestSpec :: "jsv \<Rightarrow> int option \<Rightarrow> validation" where
  "validateTestSpec input now =
     (case createTestSpec input now of
        Inl error \<Rightarrow> \<lparr>va_valid = False, va_executable = False,
                     va_violations = [violation ''INVALID_TEST_SPEC'' ''/'' (err_message error)]\<rparr>
      | Inr testSpec \<Rightarrow>
          let violations = sensitiveValueViolations testSpec @ executionProtocolViolations testSpec @ policy_violations testSpec
          in \<lparr>va_valid = \<not> list_ex (\<lambda>item. vi_code item \<in> set invalidating_codes) violations,
              va_executable = (violations = []), va_violations = violations\<rparr>)"

definition unsafe_codes :: "string list" where
  "unsafe_codes = [''RAW_SQL_FORBIDDEN'', ''RAW_TEST_COMMAND_FORBIDDEN'', ''SENSITIVE_ASSERTION_FORBIDDEN'']"

definition assertTestSpecSafeToStore :: "jsv \<Rightarrow> jsv res" where
  "assertTestSpecSafeToStore testSpec =
     (case sensitiveValueViolations testSpec of
        v # _ \<Rightarrow> Inl (TypeErr (vi_message v))
      | [] \<Rightarrow> case filter (\<lambda>item. vi_code item \<in> set unsafe_codes) (executionProtocolViolations testSpec) of
               v # _ \<Rightarrow> Inl (TypeErr (vi_message v))
             | [] \<Rightarrow> Inr testSpec)"

subsection \<open>What makes a specification executable\<close>

text \<open>
  The declarative condition: no raw secret at any depth, steps that name what they run instead of
  containing it, requests whose method fits the operation level, assertions that the runner supports on
  an existing step and that read nothing sensitive, and the policy.
\<close>

definition no_raw_secret :: "jsv \<Rightarrow> bool" where
  "no_raw_secret = every_member (\<lambda>n c. sensitive_name n \<and> n \<noteq> ''secretRef'' \<longrightarrow> secret_reference c)"

definition method_allowed :: "jsv \<Rightarrow> string \<Rightarrow> bool" where
  "method_allowed level method \<longleftrightarrow>
     (level = JStr ''SAFE_READ'' \<longrightarrow> method \<in> set [''GET'', ''HEAD'']) \<and>
     (level = JStr ''CONTROLLED_WRITE'' \<longrightarrow> method \<in> set [''POST'', ''PUT'', ''PATCH''])"

definition safe_step :: "jsv \<Rightarrow> jsv \<Rightarrow> bool" where
  "safe_step level step \<longleftrightarrow>
     (oget step ''executor'' = JStr ''DATABASE'' \<longrightarrow>
        \<not> has_own step ''sql'' \<and> \<not> has_own step ''query'' \<and> filled (oget step ''queryRef'')) \<and>
     (oget step ''executor'' = JStr ''EXISTING_TEST'' \<longrightarrow>
        (\<forall>f\<in>set raw_command_fields. \<not> has_own step f) \<and> filled (oget step ''testRef'')) \<and>
     (oget step ''executor'' = JStr ''HTTP'' \<longrightarrow>
        step_method step \<noteq> [] \<and> method_allowed level (step_method step) \<and>
        (\<exists>path. oget step ''path'' = JStr path \<and> path \<noteq> [] \<and> \<not> has_scheme path \<and> \<not> starts_with ''//'' path))"

definition supported_assertion :: "jsv list \<Rightarrow> jsv \<Rightarrow> bool" where
  "supported_assertion steps a \<longleftrightarrow>
     (let type = js_string (oget a ''type'') in
      (\<exists>executor. map_of assertionExecutors type = Some executor \<and>
         (\<exists>step\<in>set steps. oget step ''id'' = oget a ''stepId'' \<and> oget step ''executor'' = JStr executor)) \<and>
      \<not> sensitive_name (js_string (sensitive_target a type)))"

definition policy_satisfied :: "jsv \<Rightarrow> bool" where
  "policy_satisfied t \<longleftrightarrow>
     (let level = oget (oget t ''environment'') ''operationLevel''; policy = oget t ''policy'' in
      elems (oget t ''assertions'') \<noteq> [] \<and>
      (truthy (oget policy ''approvalRequired'') \<longrightarrow> truthy (oget t ''approved'')) \<and>
      (level = JStr ''CONTROLLED_WRITE'' \<longrightarrow>
         (\<exists>item\<in>set (elems (oget t ''preconditions'')). seeded item) \<and> truthy (oget (oget t ''cleanup'') ''strategy'')) \<and>
      level \<noteq> JStr ''DESTRUCTIVE'' \<and> level \<noteq> JStr ''EXTERNAL_SIDE_EFFECT'' \<and>
      \<not> truthy (oget policy ''destructive'') \<and> \<not> truthy (oget policy ''externalSideEffect''))"

definition safe_to_execute :: "jsv \<Rightarrow> bool" where
  "safe_to_execute t \<longleftrightarrow> no_raw_secret t \<and>
     (\<forall>step\<in>set (elems (oget t ''steps'')). safe_step (oget (oget t ''environment'') ''operationLevel'') step) \<and>
     (\<forall>a\<in>set (elems (oget t ''assertions'')). supported_assertion (elems (oget t ''steps'')) a) \<and>
     policy_satisfied t"

lemma no_raw_secret_arr: "no_raw_secret (JArr xs) \<longleftrightarrow> (\<forall>x\<in>set xs. no_raw_secret x)"
  by (simp add: no_raw_secret_def every_member_arr)

lemma no_raw_secret_obj:
  "no_raw_secret (JObj fs) \<longleftrightarrow> (\<forall>p\<in>set fs.
     (sensitive_name (fst p) \<and> fst p \<noteq> ''secretRef'' \<longrightarrow> secret_reference (snd p)) \<and> no_raw_secret (snd p))"
  by (simp add: no_raw_secret_def every_member_obj)

text \<open>The secret check is exact at every depth.\<close>

lemma visit_secrets_exact: "visit_secrets path v = [] \<longleftrightarrow> no_raw_secret v"
proof (induction path v rule: visit_secrets.induct)
  case (1 path xs)
  have "(\<forall>p\<in>set (zip [0..<length xs] xs). visit_secrets (path @ ''/'' @ nat_str (fst p)) (snd p) = []) \<longleftrightarrow>
    (\<forall>p\<in>set (zip [0..<length xs] xs). no_raw_secret (snd p))"
    using 1 [OF _ prod.collapse] by (intro ball_cong) simp_all
  also have "\<dots> \<longleftrightarrow> (\<forall>x\<in>set xs. no_raw_secret x)" using ball_zip_index [of xs no_raw_secret] by (simp add: split_beta)
  finally show ?case by (simp add: no_raw_secret_arr split_beta)
next
  case (2 path fs)
  let ?bad = "\<lambda>p. sensitive_name (fst p) \<and> fst p \<noteq> ''secretRef'' \<and> \<not> secret_reference (snd p)"
  have "visit_secrets (path @ ''/'' @ fst p) (snd p) = [] \<longleftrightarrow> no_raw_secret (snd p)" if "p \<in> set fs" "\<not> ?bad p" for p
    by (rule 2 [of p "fst p" "snd p", OF _ _ refl]) (use that in \<open>simp_all only: set_own_order prod.collapse not_False_eq_True\<close>)
  then have "(if ?bad p then [v] else visit_secrets (path @ ''/'' @ fst p) (snd p)) = [] \<longleftrightarrow>
      \<not> ?bad p \<and> no_raw_secret (snd p)" if "p \<in> set fs" for p v
    using that by (cases "?bad p") (simp_all only: if_True if_False not_Cons_self2 list.distinct simp_thms)
  then show ?case
    unfolding no_raw_secret_obj visit_secrets.simps Let_def split_beta concat_eq_Nil_conv set_map ball_simps set_own_order
    by (intro ball_cong refl) (simp only: de_Morgan_conj not_not imp_conv_disj disj_assoc)
qed (simp_all add: no_raw_secret_def)

lemma indexed_Nil:
  "(\<And>i x. x \<in> set xs \<Longrightarrow> f i x = [] \<longleftrightarrow> P x) \<Longrightarrow> indexed f xs = [] \<longleftrightarrow> (\<forall>x\<in>set xs. P x)"
proof -
  assume *: "\<And>i x. x \<in> set xs \<Longrightarrow> f i x = [] \<longleftrightarrow> P x"
  have "(\<forall>p\<in>set (zip [0..<length xs] xs). f (fst p) (snd p) = []) \<longleftrightarrow> (\<forall>p\<in>set (zip [0..<length xs] xs). P (snd p))"
    by (intro ball_cong refl *) (metis prod.collapse set_zip_rightD)
  with ball_zip_index [of xs P] show ?thesis by (simp add: indexed_def split_beta)
qed

lemma step_violations_exact: "step_violations level i step = [] \<longleftrightarrow> safe_step level step"
proof -
  consider (db) "oget step ''executor'' = JStr ''DATABASE''" | (existing) "oget step ''executor'' = JStr ''EXISTING_TEST''"
    | (http) "oget step ''executor'' = JStr ''HTTP''"
    | (other) "oget step ''executor'' \<noteq> JStr ''DATABASE''" "oget step ''executor'' \<noteq> JStr ''EXISTING_TEST''"
      "oget step ''executor'' \<noteq> JStr ''HTTP''" by blast
  then show ?thesis
  proof cases
    case db
    then show ?thesis by (simp add: step_violations_def safe_step_def database_violations_def)
  next
    case existing
    then show ?thesis
      by (simp add: step_violations_def safe_step_def existing_test_violations_def filter_empty_conv)
  next
    case http
    then show ?thesis
      by (cases "oget step ''path''")
        (simp_all add: step_violations_def safe_step_def http_violations_def method_allowed_def Let_def)
  next
    case other
    then show ?thesis by (simp add: step_violations_def safe_step_def)
  qed
qed

lemma map_of_js_map_ids:
  assumes "distinct (map (\<lambda>s. oget s ''id'') steps)"
  shows "map_of (js_map (map (\<lambda>s. (oget s ''id'', s)) steps)) i = Some s \<longleftrightarrow> s \<in> set steps \<and> oget s ''id'' = i"
proof -
  have "distinct (map fst (rev (map (\<lambda>s. (oget s ''id'', s)) steps)))"
    using assms by (simp add: rev_map [symmetric] comp_def)
  from map_of_eq_Some_iff [OF this, of i s] show ?thesis by (auto simp: map_of_js_map)
qed

lemma assertionExecutors_cases:
  "map_of assertionExecutors type = Some e \<Longrightarrow> e \<noteq> []"
  by (auto simp: assertionExecutors_def split: if_splits)

lemma reports_nothing: "(if c then [v] else []) = [] \<longleftrightarrow> \<not> c"
  by simp

lemma assertion_violations_exact:
  assumes "distinct (map (\<lambda>s. oget s ''id'') steps)"
  shows "assertion_violations (js_map (map (\<lambda>s. (oget s ''id'', s)) steps)) i a = [] \<longleftrightarrow> supported_assertion steps a"
proof -
  let ?type = "js_string (oget a ''type'')" and ?m = "map_of (js_map (map (\<lambda>s. (oget s ''id'', s)) steps))"
  note look = map_of_js_map_ids [OF assms]
  show ?thesis
  proof (cases "map_of assertionExecutors ?type")
    case None
    then have "\<not> supported_assertion steps a" by (simp add: supported_assertion_def Let_def)
    moreover have "assertion_violations (js_map (map (\<lambda>s. (oget s ''id'', s)) steps)) i a \<noteq> []"
    proof (cases "?type \<in> set prototype_members")
      case True
      with None have r: "required_executor ?type = JObj []" by (simp only: required_executor_def option.case if_True)
      show ?thesis by (simp add: assertion_violations_def r Let_def strict_eq_def split: option.split)
    next
      case False
      with None have r: "required_executor ?type = JUndef" by (simp only: required_executor_def option.case if_False)
      show ?thesis by (simp add: assertion_violations_def r Let_def)
    qed
    ultimately show ?thesis by simp
  next
    case (Some e)
    then have e: "required_executor ?type = JStr e" "truthy (JStr e)"
      using assertionExecutors_cases by (simp_all add: required_executor_def)
    let ?ex = "\<exists>step\<in>set steps. oget step ''id'' = oget a ''stepId'' \<and> oget step ''executor'' = JStr e"
    let ?sens = "sensitive_name (js_string (sensitive_target a ?type))"
    have supp: "supported_assertion steps a \<longleftrightarrow> ?ex \<and> \<not> ?sens"
      unfolding supported_assertion_def Let_def Some option.inject by iprover
    show ?thesis
    proof (cases "?m (oget a ''stepId'')")
      case None
      have "\<not> ?ex"
      proof
        assume ?ex
        then obtain st where "st \<in> set steps" "oget st ''id'' = oget a ''stepId''" by (elim bexE conjE)
        then have "?m (oget a ''stepId'') = Some st" by (intro look [THEN iffD2] conjI)
        with None show False by (simp only: option.distinct)
      qed
      then have "\<not> supported_assertion steps a" unfolding supp by iprover
      moreover have "assertion_violations (js_map (map (\<lambda>s. (oget s ''id'', s)) steps)) i a \<noteq> []"
        unfolding assertion_violations_def Let_def None e option.case
        by (simp only: e(2) not_True_eq_False if_False append_Cons list.distinct not_False_eq_True)
      ultimately show ?thesis by iprover
    next
      case s: (Some step)
      have ex: "?ex \<longleftrightarrow> oget step ''executor'' = JStr e"
      proof
        assume ?ex
        then obtain st where st: "st \<in> set steps" "oget st ''id'' = oget a ''stepId''" "oget st ''executor'' = JStr e"
          by (elim bexE conjE)
        then have "?m (oget a ''stepId'') = Some st" by (intro look [THEN iffD2] conjI)
        with s have "st = step" by (simp only: option.inject)
        with st(3) show "oget step ''executor'' = JStr e" by (simp only:)
      next
        assume "oget step ''executor'' = JStr e"
        with look [THEN iffD1, OF s] show ?ex by (intro bexI [of _ step] conjI) simp_all
      qed
      show ?thesis
        unfolding supp ex assertion_violations_def Let_def s e option.case append_is_Nil_conv strict_eq_str
        by (simp only: e(2) not_True_eq_False if_False append_is_Nil_conv reports_nothing not_not)
    qed
  qed
qed

lemma policy_violations_exact: "policy_violations t = [] \<longleftrightarrow> policy_satisfied t"
  by (simp add: policy_violations_def policy_satisfied_def report_if_def Let_def list_ex_iff)

lemma requireUniqueIds_fold:
  "foldR (\<lambda>ids item. throw_if (arr_includes ids (oget item ''id'')) e (Inr (ids @ [oget item ''id'']))) acc items = Inr ids \<Longrightarrow>
   list_all (\<lambda>v. is_string (oget v ''id'')) items \<Longrightarrow> distinct acc \<Longrightarrow>
   ids = acc @ map (\<lambda>v. oget v ''id'') items \<and> distinct ids"
proof (induction items arbitrary: acc)
  case (Cons x xs)
  from Cons.prems(1) have n: "\<not> arr_includes acc (oget x ''id'')"
    and r: "foldR (\<lambda>ids item. throw_if (arr_includes ids (oget item ''id'')) e (Inr (ids @ [oget item ''id''])))
      (acc @ [oget x ''id'']) xs = Inr ids" by (auto simp: bnd_eq_Inr throw_if_eq_Inr)
  from Cons.prems(2) obtain s where s: "oget x ''id'' = JStr s" by (auto simp: is_string_iff)
  with n have "oget x ''id'' \<notin> set acc" by (auto simp: arr_includes_def list_ex_iff)
  have "list_all (\<lambda>v. is_string (oget v ''id'')) xs" "distinct (acc @ [oget x ''id''])"
    using \<open>oget x ''id'' \<notin> set acc\<close> Cons.prems(2,3) by simp_all
  from Cons.IH [OF r this] show ?case unfolding append_assoc append.simps list.map .
qed simp

lemma requireUniqueIds_Inr:
  "requireUniqueIds items f = Inr out \<Longrightarrow> list_all (\<lambda>v. is_string (oget v ''id'')) items \<Longrightarrow>
   out = items \<and> distinct (map (\<lambda>v. oget v ''id'') items)"
  by (auto simp: requireUniqueIds_def bnd_eq_Inr dest: requireUniqueIds_fold)

lemma normalize_step_id:
  assumes "normalize_step i step = Inr s"
  shows "is_string (oget s ''id'') \<and> is_plain_object s"
proof -
  from assms obtain st where o: "spread_obj st
        [(''id'', requireNonEmptyString (oget st ''id'') (at_index ''testSpec.steps'' i @ ''.id'')),
         (''executor'', assertEnum TestExecutor (oget st ''executor'') (at_index ''testSpec.steps'' i @ ''.executor''))] = Inr s"
    by (auto simp: normalize_step_def Let_def bnd_eq_Inr)
  from spread_obj_member [OF o, of "''id''"]
  have "requireNonEmptyString (oget st ''id'') (at_index ''testSpec.steps'' i @ ''.id'') = Inr (oget s ''id'')" by simp
  moreover have "is_plain_object s" using o by (auto simp: spread_obj_def bnd_eq_Inr)
  ultimately show ?thesis by (auto simp: requireNonEmptyString_Inr)
qed

lemma normalizeSteps_distinct:
  assumes "normalizeSteps v = Inr steps"
  shows "distinct (map (\<lambda>s. oget s ''id'') (elems steps))"
proof -
  from assms obtain xs ys zs where m: "mapiR normalize_step 0 xs = Inr ys" "requireUniqueIds ys ''testSpec.steps'' = Inr zs"
    "steps = JArr zs" by (auto simp: normalizeSteps_def bnd_eq_Inr)
  have "list_all (\<lambda>v. is_string (oget v ''id'')) ys"
    using mapiR_in_set [OF m(1)] normalize_step_id by (fastforce simp: list_all_iff)
  with requireUniqueIds_Inr [OF m(2)] m(3) show ?thesis by simp
qed

lemma createTestSpec_steps:
  assumes "createTestSpec input now = Inr t"
  shows "normalizeSteps (oget input ''steps'') = Inr (oget t ''steps'')"
proof -
  from assms obtain es where es: "mk_obj es = Inr t" "map_of es ''steps'' = Some (normalizeSteps (oget input ''steps''))"
    by (auto simp: createTestSpec_def bnd_eq_Inr throw_if_eq_Inr)
  from mk_obj_member [OF es] show ?thesis .
qed

lemma executable_iff_safe:
  "va_executable (validateTestSpec input now) \<longleftrightarrow> (\<exists>t. createTestSpec input now = Inr t \<and> safe_to_execute t)"
proof (cases "createTestSpec input now")
  case (Inr t)
  let ?steps = "elems (oget t ''steps'')"
  have d: "distinct (map (\<lambda>s. oget s ''id'') ?steps)"
    using normalizeSteps_distinct [OF createTestSpec_steps [OF Inr]] .
  have "executionProtocolViolations t = [] \<longleftrightarrow>
      (\<forall>step\<in>set ?steps. safe_step (oget (oget t ''environment'') ''operationLevel'') step) \<and>
      (\<forall>a\<in>set (elems (oget t ''assertions'')). supported_assertion ?steps a)"
    by (simp add: executionProtocolViolations_def Let_def
        indexed_Nil [OF step_violations_exact] indexed_Nil [OF assertion_violations_exact [OF d]])
  with Inr show ?thesis
    by (simp add: validateTestSpec_def Let_def safe_to_execute_def sensitiveValueViolations_def
        visit_secrets_exact policy_violations_exact)
qed (simp add: validateTestSpec_def)

end
