(* ===== verification/Test_Spec_Properties.thy ===== *)
theory Test_Spec_Properties
  imports Test_Spec
begin

section \<open>Test specifications: construction is stable, validation is exact\<close>

text \<open>
  The properties of \<open>src/domain/test-spec.js\<close> that its callers rest on: creating a created
  specification again returns it unchanged, whatever the clock; the validation verdict is the
  declarative condition of \<open>Test_Spec\<close>; and two ways in which the verdict and the check before storing
  disagree with what they mean to say.
\<close>

subsection \<open>Creating again\<close>

lemma update_same: "map_of fs k = Some v \<Longrightarrow> AList.update k v fs = fs"
  by (induction fs) (auto split: if_splits)

lemma spread_same: "list_all (\<lambda>e. map_of fs (fst e) = Some (snd e)) es \<Longrightarrow> spread fs es = fs"
  by (induction es) (simp_all add: spread_def update_same)

lemma spread_obj_again:
  assumes v: "spread_obj base es = Inr v" and keys: "set (map fst es') \<subseteq> set (map fst es)"
    and vals: "list_all (\<lambda>e. snd e = Inr (oget v (fst e))) es'"
  shows "spread_obj v es' = Inr v"
proof -
  from v obtain fs where fs: "mk_props es = Inr fs" "v = JObj (spread (props base) fs)"
    by (auto simp: spread_obj_def bnd_eq_Inr)
  have own: "map_of (spread (props base) fs) k = Some (oget v k)" if "k \<in> set (map fst es)" for k
  proof -
    from that have "k \<in> set (map fst fs)" by (simp only: mk_props_keys [OF fs(1)])
    then have "map_of (rev fs) k \<noteq> None" by (simp add: map_of_eq_None_iff)
    then show ?thesis by (auto simp: fs(2) map_of_spread map_add_def)
  qed
  let ?gs = "map (\<lambda>e. (fst e, oget v (fst e))) es'"
  have "mk_props es' = Inr ?gs" using vals by (auto simp: mk_props_Inr_iff list_all2_conv_all_nth list_all_length)
  moreover have "spread (spread (props base) fs) ?gs = spread (props base) fs"
  proof (rule spread_same, unfold list_all_iff, rule ballI)
    fix e assume "e \<in> set ?gs"
    then obtain e' where e: "e' \<in> set es'" "e = (fst e', oget v (fst e'))" by auto
    then have "fst e' \<in> set (map fst es)" using keys by (auto simp only: set_map image_subset_iff)
    from own [OF this] show "map_of (spread (props base) fs) (fst e) = Some (snd e)" by (simp only: e(2) fst_conv snd_conv)
  qed
  ultimately show ?thesis by (simp add: spread_obj_def fs(2))
qed

lemma mapiR_id: "(\<And>i y. y \<in> set ys \<Longrightarrow> f i y = Inr y) \<Longrightarrow> mapiR f n ys = Inr ys"
  by (induction ys arbitrary: n) simp_all

lemma js_map_distinct: "distinct (map fst es) \<Longrightarrow> js_map es = es"
proof (induction es rule: rev_induct)
  case (snoc e es)
  then have "map_of es (fst e) = None" by (auto simp: map_of_eq_None_iff)
  then have "AList.update (fst e) (snd e) es = es @ [e]" by (induction es) (auto split: if_splits)
  moreover have "js_map (es @ [e]) = AList.update (fst e) (snd e) (js_map es)" by (simp add: js_map_def)
  ultimately show ?case using snoc by simp
qed simp

lemma requireBoolean_again: "requireBoolean v f d = Inr w \<Longrightarrow> requireBoolean w g e = Inr w"
  by (auto simp: requireBoolean_def split: jsv.splits)

lemma normalizeApproval_again: "normalizeApproval v b = Inr a \<Longrightarrow> normalizeApproval a b = Inr a"
  by (auto simp: normalizeApproval_def build_simps mk_obj_def requireObject_def dest: validators_idem split: if_splits)

lemma fact_ids_again:
  assumes "mapiR (\<lambda>i x. requireNonEmptyString x (f i)) 0 xs = Inr ys" and "xs \<noteq> []"
  shows "mapiR (\<lambda>i x. requireNonEmptyString x (g i)) 0 (js_value_set ys) = Inr (js_value_set ys)"
    and "js_value_set (js_value_set ys) = js_value_set ys" and "ys \<noteq> []"
proof -
  have ok: "\<exists>s. y = JStr s \<and> js_trim s \<noteq> []" if "y \<in> set ys" for y
    using mapiR_in_set [OF assms(1) that] by (auto simp: requireNonEmptyString_Inr)
  then have s: "js_value_set ys = js_set ys" by (intro js_value_set_strs) (force simp: list_all_iff)
  show "mapiR (\<lambda>i x. requireNonEmptyString x (g i)) 0 (js_value_set ys) = Inr (js_value_set ys)"
    by (rule mapiR_id) (use ok in \<open>auto simp: s requireNonEmptyString_Inr\<close>)
  show "js_value_set (js_value_set ys) = js_value_set ys"
    using ok by (simp add: s) (subst js_value_set_strs, force simp: list_all_iff, simp)
  from assms have "ys \<noteq> []" using mapiR_length by fastforce
  then show "ys \<noteq> []" .
qed

lemma manual_origin_Inr:
  "manual_origin type fp = Inr v \<longleftrightarrow> (\<exists>w. fp = Inr w \<and> v = JObj [(''type'', type), (''claimRef'', JNull),
     (''decisionId'', JNull), (''mappingId'', JNull), (''factIds'', JArr []), (''generator'', JNull),
     (''requestFingerprint'', w)])"
  by (auto simp: manual_origin_def build_simps)

lemma normalizeOrigin_manual_again:
  assumes "assertEnum TestSpecOriginType (JStr ''MANUAL'') g = Inr (JStr ''MANUAL'')"
    and "manual_origin (JStr ''MANUAL'') (optionalString u f) = Inr w"
  shows "normalizeOrigin w = Inr w"
proof -
  from assms(2) obtain fp where fp: "optionalString u f = Inr fp" and w: "w = JObj [(''type'', JStr ''MANUAL''),
    (''claimRef'', JNull), (''decisionId'', JNull), (''mappingId'', JNull), (''factIds'', JArr []), (''generator'', JNull),
    (''requestFingerprint'', fp)]" by (auto simp: manual_origin_Inr)
  show ?thesis
    by (simp add: normalizeOrigin_def w requireObject_def assertEnum_Inr assms(1) [THEN validators_idem(3)]
        manual_origin_Inr validators_idem(4) [OF fp])
qed

lemma normalizeOrigin_again:
  assumes "normalizeOrigin v = Inr w"
  shows "normalizeOrigin w = Inr w"
proof -
  have m: "assertEnum TestSpecOriginType (JStr ''MANUAL'') g = Inr (JStr ''MANUAL'')" for g
    by (simp add: assertEnum_Inr TestSpecOriginType_def)
  show ?thesis
  proof (cases "nullish v \<or> oget v ''type'' = JStr ''MANUAL''")
    case True
    then have "\<exists>u f. manual_origin (JStr ''MANUAL'') (optionalString u f) = Inr w"
    proof
      assume "nullish v"
      with assms have "manual_origin (JStr ''MANUAL'') (optionalString JNull []) = Inr w"
        by (simp add: normalizeOrigin_def optionalString_def)
      then show ?thesis by blast
    next
      assume "oget v ''type'' = JStr ''MANUAL''"
      then have "\<not> nullish v" by (intro oget_not_undef [of v "''type''"]) simp
      with assms \<open>oget v ''type'' = JStr ''MANUAL''\<close> show ?thesis
        by (auto simp: normalizeOrigin_def bnd_eq_Inr requireObject_Inr assertEnum_Inr)
    qed
    then show ?thesis using normalizeOrigin_manual_again [OF m] by blast
  next
    case False
    from assms False have o: "requireObject v ''testSpec.origin'' = Inr v"
      by (auto simp: normalizeOrigin_def bnd_eq_Inr requireObject_Inr)
    from assms False have e: "assertEnum TestSpecOriginType (oget v ''type'') ''testSpec.origin.type'' = Inr (oget v ''type'')"
      unfolding normalizeOrigin_def o bnd_simps by (auto simp: bnd_eq_Inr assertEnum_Inr)
    from False have n: "nullish v = False" "(oget v ''type'' = JStr ''MANUAL'') = False" by simp_all
    obtain cr ge xs ys ci cv de ma gi gv fp where
      *: "requireNonEmptyString (oget cr ''id'') ''testSpec.origin.claimRef.id'' = Inr ci"
        "requirePositiveInteger (oget cr ''version'') ''testSpec.origin.claimRef.version'' = Inr cv"
        "requireNonEmptyString (oget v ''decisionId'') ''testSpec.origin.decisionId'' = Inr de"
        "requireNonEmptyString (oget v ''mappingId'') ''testSpec.origin.mappingId'' = Inr ma"
        "requireNonEmptyString (oget ge ''id'') ''testSpec.origin.generator.id'' = Inr gi"
        "requireNonEmptyString (oget ge ''version'') ''testSpec.origin.generator.version'' = Inr gv"
        "requireNonEmptyString (oget v ''requestFingerprint'') ''testSpec.origin.requestFingerprint'' = Inr fp"
      and facts: "mapiR (\<lambda>index factId. requireNonEmptyString factId (at_index ''testSpec.origin.factIds'' index)) 0 xs = Inr ys"
        "requireArray True (oget v ''factIds'') ''testSpec.origin.factIds'' = Inr xs"
      and w: "w = JObj [(''type'', oget v ''type''), (''claimRef'', JObj [(''id'', ci), (''version'', cv)]), (''decisionId'', de),
        (''mappingId'', ma), (''factIds'', JArr (js_value_set ys)), (''generator'', JObj [(''id'', gi), (''version'', gv)]),
        (''requestFingerprint'', fp)]"
      using assms unfolding normalizeOrigin_def n if_False o bnd_simps e Let_def
      apply (simp only: bnd_eq_Inr mk_obj_Inr mk_props_Cons_Inr mk_props_Nil_Inr)
      apply (elim exE conjE)
      apply hypsubst
      apply (rule that)
      apply (assumption | rule refl | simp only: sum.inject)+
      done
    have ne: "xs \<noteq> []" using facts(2) by (simp add: requireArray_Inr)
    show ?thesis
      by (simp add: normalizeOrigin_def w requireObject_def requireArray_def n e [THEN validators_idem(3)]
          * (1,3-7) [THEN validators_idem(1)] * (2) [THEN validators_idem(2)] fact_ids_again [OF facts(1) ne] mk_obj_def)
  qed
qed

lemma claim_ref_again: "claim_ref i v = Inr r \<Longrightarrow> claim_ref j r = Inr r"
  by (auto simp: claim_ref_def build_simps mk_obj_def dest: validators_idem)

lemma normalizeClaimRefs_again:
  assumes "normalizeClaimRefs v = Inr w"
  shows "normalizeClaimRefs w = Inr w"
proof -
  from assms obtain xs ys where ys: "mapiR claim_ref 0 xs = Inr ys" "xs \<noteq> []"
    and w: "w = JArr (map snd (js_map (map (\<lambda>r. (ref_key r, r)) ys)))"
    by (auto simp: normalizeClaimRefs_def bnd_eq_Inr requireArray_Inr)
  let ?m = "js_map (map (\<lambda>r. (ref_key r, r)) ys)"
  have mem: "e = (ref_key (snd e), snd e) \<and> snd e \<in> set ys" if "e \<in> set ?m" for e
    using js_map_in_set [OF that] by auto
  then have keyed: "map (\<lambda>r. (ref_key r, r)) (map snd ?m) = ?m"
    by (simp add: comp_def) (rule map_idI, metis)
  have "mapiR claim_ref 0 (map snd ?m) = Inr (map snd ?m)"
  proof (rule mapiR_id)
    fix i y assume "y \<in> set (map snd ?m)"
    with mem have "y \<in> set ys" by auto
    from mapiR_in_set [OF ys(1) this] show "claim_ref i y = Inr y" by (auto dest: claim_ref_again)
  qed
  moreover have "ys \<noteq> []" using ys mapiR_length by fastforce
  then have "?m \<noteq> []" using keys_js_map [of "map (\<lambda>r. (ref_key r, r)) ys"] by auto
  ultimately show ?thesis
    by (simp add: normalizeClaimRefs_def w requireArray_def keyed js_map_distinct del: map_map)
qed

lemma normalize_step_again: "normalize_step i v = Inr s \<Longrightarrow> normalize_step j s = Inr s"
proof -
  assume *: "normalize_step i v = Inr s"
  then obtain st where st: "spread_obj st
        [(''id'', requireNonEmptyString (oget st ''id'') (at_index ''testSpec.steps'' i @ ''.id'')),
         (''executor'', assertEnum TestExecutor (oget st ''executor'') (at_index ''testSpec.steps'' i @ ''.executor''))] = Inr s"
    by (auto simp: normalize_step_def Let_def bnd_eq_Inr)
  note m = spread_obj_member [OF st, of "''id''"] spread_obj_member [OF st, of "''executor''"]
  have "is_plain_object s" using normalize_step_id [OF *] by simp
  moreover have "requireNonEmptyString (oget s ''id'') f = Inr (oget s ''id'')"
    "assertEnum TestExecutor (oget s ''executor'') f = Inr (oget s ''executor'')" for f
    using m by (auto dest: validators_idem)
  ultimately show ?thesis
    using spread_obj_again [OF st] by (simp add: normalize_step_def Let_def requireObject_def)
qed

lemma normalize_assertion_again:
  "normalize_assertion i v = Inr s \<Longrightarrow> normalize_assertion j s = Inr s \<and> is_string (oget s ''id'')"
proof -
  assume *: "normalize_assertion i v = Inr s"
  then obtain st where st: "spread_obj st
        [(''id'', requireNonEmptyString (oget st ''id'') (at_index ''testSpec.assertions'' i @ ''.id'')),
         (''type'', requireNonEmptyString (oget st ''type'') (at_index ''testSpec.assertions'' i @ ''.type''))] = Inr s"
    by (auto simp: normalize_assertion_def Let_def bnd_eq_Inr)
  note m = spread_obj_member [OF st, of "''id''"] spread_obj_member [OF st, of "''type''"]
  have "is_plain_object s" using st by (auto simp: spread_obj_def bnd_eq_Inr)
  moreover have "requireNonEmptyString (oget s ''id'') f = Inr (oget s ''id'')"
    "requireNonEmptyString (oget s ''type'') f = Inr (oget s ''type'')" for f
    using m by (auto dest: validators_idem)
  ultimately show ?thesis
    using spread_obj_again [OF st] by (auto simp: normalize_assertion_def Let_def requireObject_def requireNonEmptyString_Inr)
qed

lemma normalizeSteps_again:
  assumes "normalizeSteps v = Inr w"
  shows "normalizeSteps w = Inr w"
proof -
  from assms obtain xs ys zs where ys: "mapiR normalize_step 0 xs = Inr ys" "xs \<noteq> []"
    and zs: "requireUniqueIds ys ''testSpec.steps'' = Inr zs" and w: "w = JArr zs"
    by (auto simp: normalizeSteps_def bnd_eq_Inr requireArray_Inr)
  have "zs = ys" using zs by (auto simp: requireUniqueIds_def bnd_eq_Inr)
  moreover have "mapiR normalize_step 0 ys = Inr ys"
    by (rule mapiR_id) (use mapiR_in_set [OF ys(1)] normalize_step_again in blast)
  moreover have "ys \<noteq> []" using ys mapiR_length by fastforce
  ultimately show ?thesis using zs by (simp add: normalizeSteps_def w requireArray_def)
qed

lemma normalizeAssertions_again:
  assumes "normalizeAssertions v = Inr w"
  shows "normalizeAssertions w = Inr w \<and> \<not> nullish w"
proof -
  from assms obtain xs ys zs where ys: "mapiR normalize_assertion 0 xs = Inr ys"
    and zs: "requireUniqueIds ys ''testSpec.assertions'' = Inr zs" and w: "w = JArr zs"
    by (auto simp: normalizeAssertions_def bnd_eq_Inr requireArray_Inr)
  have "zs = ys" using zs by (auto simp: requireUniqueIds_def bnd_eq_Inr)
  moreover have "mapiR normalize_assertion 0 ys = Inr ys"
    by (rule mapiR_id) (use mapiR_in_set [OF ys] normalize_assertion_again in blast)
  ultimately show ?thesis using zs by (simp add: normalizeAssertions_def w requireArray_def)
qed

lemma normalize_preconditions_again:
  assumes "normalize_preconditions v = Inr w"
  shows "normalize_preconditions w = Inr w"
proof -
  from assms obtain xs ys where
    ys: "mapiR (\<lambda>index item. requireObject item (at_index ''testSpec.preconditions'' index)) 0 xs = Inr ys"
    and w: "w = JArr ys" by (auto simp: normalize_preconditions_def bnd_eq_Inr)
  have "mapiR (\<lambda>index item. requireObject item (at_index ''testSpec.preconditions'' index)) 0 ys = Inr ys"
    by (rule mapiR_id) (use mapiR_in_set [OF ys] in \<open>auto simp: requireObject_Inr\<close>)
  then show ?thesis by (simp add: normalize_preconditions_def w requireArray_def)
qed

definition normalize_environment :: "jsv \<Rightarrow> jsv res" where
  "normalize_environment environment = spread_obj environment
     [(''target'', requireNonEmptyString (oget environment ''target'') ''testSpec.environment.target''),
      (''operationLevel'', assertEnum TestOperationLevel (oget environment ''operationLevel'')
         ''testSpec.environment.operationLevel'')]"

definition normalize_policy :: "jsv \<Rightarrow> jsv res" where
  "normalize_policy policy = spread_obj policy
     [(''approvalRequired'', requireBoolean (oget policy ''approvalRequired'') ''testSpec.policy.approvalRequired'' True),
      (''destructive'', requireBoolean (oget policy ''destructive'') ''testSpec.policy.destructive'' False),
      (''externalSideEffect'',
         requireBoolean (oget policy ''externalSideEffect'') ''testSpec.policy.externalSideEffect'' False)]"

lemma spread_obj_object: "spread_obj base es = Inr v \<Longrightarrow> requireObject v f = Inr v"
  by (auto simp: spread_obj_def bnd_eq_Inr requireObject_def)

lemma normalize_environment_again:
  assumes "normalize_environment b = Inr v"
  shows "normalize_environment v = Inr v" and "requireObject v f = Inr v"
proof -
  note st = assms [unfolded normalize_environment_def]
  note m = spread_obj_member [OF st, of "''target''"] spread_obj_member [OF st, of "''operationLevel''"]
  have "requireNonEmptyString (oget v ''target'') f = Inr (oget v ''target'')"
    "assertEnum TestOperationLevel (oget v ''operationLevel'') f = Inr (oget v ''operationLevel'')" for f
    using m by (auto dest: validators_idem)
  then show "normalize_environment v = Inr v"
    unfolding normalize_environment_def by (intro spread_obj_again [OF st]) simp_all
  show "requireObject v f = Inr v" by (rule spread_obj_object [OF st])
qed

lemma normalize_policy_again:
  assumes "normalize_policy b = Inr v"
  shows "normalize_policy v = Inr v" and "requireObject v f = Inr v" and "coalesce v d = v"
proof -
  note st = assms [unfolded normalize_policy_def]
  note m = spread_obj_member [OF st, of "''approvalRequired''"] spread_obj_member [OF st, of "''destructive''"]
    spread_obj_member [OF st, of "''externalSideEffect''"]
  have "requireBoolean (oget v ''approvalRequired'') f e = Inr (oget v ''approvalRequired'')"
    "requireBoolean (oget v ''destructive'') f e = Inr (oget v ''destructive'')"
    "requireBoolean (oget v ''externalSideEffect'') f e = Inr (oget v ''externalSideEffect'')" for f e
    using m by (auto dest: requireBoolean_again)
  then show "normalize_policy v = Inr v"
    unfolding normalize_policy_def by (intro spread_obj_again [OF st]) simp_all
  show "requireObject v f = Inr v" by (rule spread_obj_object [OF st])
  show "coalesce v d = v" using st by (auto simp: spread_obj_def bnd_eq_Inr)
qed

text \<open>The members of a created specification, each the result of its own normalisation.\<close>

lemma createTestSpec_run:
  assumes "createTestSpec input now = Inr t"
  obtains i ver nm risk approved approval fid claims ori snap env pre vars steps asserts cleanup pol created where
    "requireBoolean (oget input ''approved'') ''testSpec.approved'' False = Inr approved"
    "normalizeApproval (oget input ''approval'') (approved = JBool True) = Inr approval"
    "created_at input now = Inr created" "\<exists>u. requireIsoTimestamp created ''testSpec.createdAt'' = Inr u"
    "\<not> (truthy approval \<and> time_less (js_date_parse created) (js_date_parse (oget approval ''approvedAt'')))"
    "requireNonEmptyString (oget input ''id'') ''testSpec.id'' = Inr i"
    "requirePositiveInteger (oget input ''version'') ''testSpec.version'' = Inr ver"
    "requireNonEmptyString (oget input ''name'') ''testSpec.name'' = Inr nm"
    "assertEnum TestRisk (oget input ''risk'') ''testSpec.risk'' = Inr risk"
    "requireNonEmptyString (oget input ''featureId'') ''testSpec.featureId'' = Inr fid"
    "normalizeClaimRefs (oget input ''verifiesClaims'') = Inr claims"
    "normalizeOrigin (oget input ''origin'') = Inr ori"
    "optionalString (oget input ''sourceSnapshotId'') ''testSpec.sourceSnapshotId'' = Inr snap"
    "normalize_environment (oget input ''environment'') = Inr env"
    "normalize_preconditions (oget input ''preconditions'') = Inr pre"
    "requireObject (coalesce (oget input ''variables'') (JObj [])) ''testSpec.variables'' = Inr vars"
    "normalizeSteps (oget input ''steps'') = Inr steps"
    "normalizeAssertions (coalesce (oget input ''assertions'') (JArr [])) = Inr asserts"
    "(if nullish (oget input ''cleanup'') then Inr JNull
      else requireObject (oget input ''cleanup'') ''testSpec.cleanup'') = Inr cleanup"
    "normalize_policy (coalesce (oget input ''policy'') (JObj [])) = Inr pol"
    "t = JObj [(''id'', i), (''version'', ver), (''name'', nm), (''risk'', risk), (''approved'', approved),
       (''approval'', approval), (''featureId'', fid), (''verifiesClaims'', claims), (''origin'', ori),
       (''sourceSnapshotId'', snap), (''environment'', env), (''preconditions'', pre), (''variables'', vars),
       (''steps'', steps), (''assertions'', asserts), (''cleanup'', cleanup), (''policy'', pol), (''createdAt'', created)]"
proof -
  from assms obtain environment policy where
    env: "requireObject (oget input ''environment'') ''testSpec.environment'' = Inr environment"
    and pol: "requireObject (coalesce (oget input ''policy'') (JObj [])) ''testSpec.policy'' = Inr policy"
    unfolding createTestSpec_def bnd_eq_Inr by (elim exE conjE) (rule that)
  have eqs: "environment = oget input ''environment''" "policy = coalesce (oget input ''policy'') (JObj [])"
    using env pol by (simp_all only: requireObject_Inr)
  from assms show thesis
    unfolding createTestSpec_def env pol bnd_simps
    unfolding eqs normalize_environment_def [symmetric] normalize_policy_def [symmetric]
    apply (simp only: bnd_eq_Inr throw_if_eq_Inr mk_obj_Inr mk_props_Cons_Inr mk_props_Nil_Inr sum.inject)
    apply (elim exE conjE)
    apply hypsubst
    apply (rule that)
    apply (assumption | rule refl | rule exI)+
    done
qed

text \<open>
  A created specification with another version, approval and time of creation, each valid by itself, is
  created as it stands.
\<close>

definition reissue :: "jsv \<Rightarrow> jsv \<Rightarrow> bool \<Rightarrow> jsv \<Rightarrow> jsv \<Rightarrow> jsv" where
  "reissue t version approved approval createdAt = JObj (spread (props t)
     [(''version'', version), (''approved'', JBool approved), (''approval'', approval), (''createdAt'', createdAt)])"

lemma reissued:
  assumes t: "createTestSpec input now = Inr t"
    and ver: "requirePositiveInteger v ''testSpec.version'' = Inr v"
    and ap: "normalizeApproval ap b = Inr ap"
    and iso: "requireIsoTimestamp c ''testSpec.createdAt'' = Inr x" "\<not> nullish c"
    and time: "\<not> (truthy ap \<and> time_less (js_date_parse c) (js_date_parse (oget ap ''approvedAt'')))"
  shows "createTestSpec (reissue t v b ap c) now' = Inr (reissue t v b ap c)"
  using t
proof (rule createTestSpec_run, goal_cases)
  case (1 i ver' nm risk approved approval fid claims ori snap env pre vars steps asserts cleanup pol created)
  let ?u = "reissue t v b ap c"
  have u: "?u = JObj [(''id'', i), (''version'', v), (''name'', nm), (''risk'', risk), (''approved'', JBool b),
       (''approval'', ap), (''featureId'', fid), (''verifiesClaims'', claims), (''origin'', ori),
       (''sourceSnapshotId'', snap), (''environment'', env), (''preconditions'', pre), (''variables'', vars),
       (''steps'', steps), (''assertions'', asserts), (''cleanup'', cleanup), (''policy'', pol), (''createdAt'', c)]"
    by (simp add: reissue_def 1(21) spread_def)
  have cleanup: "(if nullish cleanup then Inr JNull else requireObject cleanup ''testSpec.cleanup'') = Inr cleanup"
    using 1(19) by (cases "nullish (oget input ''cleanup'')") (auto simp: requireObject_Inr)
  have coal: "coalesce vars (JObj []) = vars" "coalesce asserts (JArr []) = asserts"
    using 1(16) normalizeAssertions_again [OF 1(18)] by (auto simp: requireObject_Inr coalesce_def)
  have m: "oget ?u ''id'' = i" "oget ?u ''version'' = v" "oget ?u ''name'' = nm" "oget ?u ''risk'' = risk"
    "oget ?u ''approved'' = JBool b" "oget ?u ''approval'' = ap" "oget ?u ''featureId'' = fid"
    "oget ?u ''verifiesClaims'' = claims" "oget ?u ''origin'' = ori" "oget ?u ''sourceSnapshotId'' = snap"
    "oget ?u ''environment'' = env" "oget ?u ''preconditions'' = pre" "oget ?u ''variables'' = vars"
    "oget ?u ''steps'' = steps" "oget ?u ''assertions'' = asserts" "oget ?u ''cleanup'' = cleanup"
    "oget ?u ''policy'' = pol" "oget ?u ''createdAt'' = c"
    by (simp_all add: u)
  have created: "created_at ?u now' = Inr c" using iso(2) by (simp add: created_at_def m)
  have approved: "requireBoolean (JBool b) ''testSpec.approved'' False = Inr (JBool b)" by (simp add: requireBoolean_def)
  have b: "(JBool b = JBool True) = b" by simp
  show ?case
    unfolding createTestSpec_def normalize_environment_def [symmetric] normalize_policy_def [symmetric] m coal
      normalize_policy_again(3) [OF 1(20)] normalize_environment_again(2) [OF 1(14)] normalize_policy_again(2) [OF 1(20)]
      approved bnd_simps b ap created iso(1) throw_if_def if_not_P [OF time]
      1(6,8,10) [THEN validators_idem(1)] ver 1(9) [THEN validators_idem(3)]
      1(13) [THEN validators_idem(4)] 1(16) [THEN validators_idem(5)] normalizeClaimRefs_again [OF 1(11)]
      normalizeOrigin_again [OF 1(12)] normalize_environment_again(1) [OF 1(14)] normalize_preconditions_again [OF 1(15)]
      normalizeSteps_again [OF 1(17)] normalizeAssertions_again [OF 1(18), THEN conjunct1] cleanup
      normalize_policy_again(1) [OF 1(20)]
    by (simp only: mk_obj_def mk_props.simps bnd_simps u)
qed

lemma created_again:
  assumes "createTestSpec input now = Inr t"
  shows "createTestSpec t now' = Inr t"
  using assms
proof (rule createTestSpec_run, goal_cases)
  case (1 i ver nm risk approved approval fid claims ori snap env pre vars steps asserts cleanup pol created)
  from 1(4) obtain x where iso: "requireIsoTimestamp created ''testSpec.createdAt'' = Inr x" by blast
  from 1(1) obtain b where b: "approved = JBool b"
    by (cases "oget input ''approved''") (auto simp: requireBoolean_def)
  have ap: "normalizeApproval approval b = Inr approval" using normalizeApproval_again [OF 1(2)] by (simp add: b)
  have "reissue t ver b approval created = t" by (simp add: reissue_def 1(21) b spread_def)
  with reissued [OF assms 1(7) [THEN validators_idem(2)] ap iso created_at_not_nullish [OF 1(3)] 1(5)]
  show ?case by simp
qed

text \<open>
  C19: A created test specification is created again unchanged. Passing a specification that
  \<open>createTestSpec\<close> returned through it once more, at any time, returns the same value: no default,
  deduplication or normalisation is left to happen.
\<close>
theorem created_test_spec_is_stable:
  assumes "createTestSpec input now = Inr t"
  shows "createTestSpec t now' = Inr t"
  using assms by (rule created_again)

definition sample_spec :: "jsv \<Rightarrow> jsv" where
  "sample_spec executor = JObj
     [(''id'', JStr ''T''), (''version'', JNum 1), (''name'', JStr ''n''), (''risk'', JStr ''LOW''), (''approved'', JBool False),
      (''featureId'', JStr ''F''), (''createdAt'', JStr ''2026-01-01T00:00:00Z''),
      (''verifiesClaims'', JArr [JObj [(''id'', JStr ''C''), (''version'', JNum 1)], JObj [(''id'', JStr ''C''), (''version'', JNum 1)]]),
      (''environment'', JObj [(''target'', JStr ''staging''), (''operationLevel'', JStr ''SAFE_READ'')]),
      (''policy'', JObj [(''approvalRequired'', JBool False)]),
      (''steps'', JArr
         [JObj [(''id'', JStr ''s''), (''executor'', JStr ''HTTP''), (''method'', JStr ''get''), (''path'', JStr ''/x'')],
          JObj [(''id'', JStr ''d''), (''executor'', executor), (''sql'', JStr ''DROP TABLE t'')]]),
      (''assertions'', JArr [JObj [(''id'', JStr ''a''), (''type'', JStr ''HTTP_STATUS''), (''stepId'', JStr ''s'')]])]"

lemma sample_spec_created: "is_ok (createTestSpec (sample_spec (JStr ''DATABASE'')) None)"
  by code_simp

theorem created_test_spec_is_stable_witness:
  "\<exists>t. createTestSpec (sample_spec (JStr ''DATABASE'')) None = Inr t \<and> createTestSpec t (Some 5) = Inr t"
proof -
  obtain t where t: "createTestSpec (sample_spec (JStr ''DATABASE'')) None = Inr t"
    using sample_spec_created by (cases "createTestSpec (sample_spec (JStr ''DATABASE'')) None") auto
  show ?thesis by (rule exI [of _ t], rule conjI, rule t, rule created_test_spec_is_stable [OF t])
qed

subsection \<open>The verdict\<close>

text \<open>
  C18: What executable means. The validation reports a specification as executable exactly when it can
  be created and the created one satisfies the declarative condition: no member with a sensitive name
  holds anything but a reference, at any depth; DATABASE and EXISTING_TEST steps only refer to
  trusted queries and tests; HTTP steps have a relative path and a method that fits the operation
  level; every assertion is supported, reads nothing sensitive and is about an existing step of the
  right executor, and there is one; approval, seed and clean-up are there when required; nothing is
  destructive or has external side effects.
\<close>
theorem executable_means_safe_to_execute:
  "va_executable (validateTestSpec input now) \<longleftrightarrow> (\<exists>t. createTestSpec input now = Inr t \<and> safe_to_execute t)"
  by (rule executable_iff_safe)

lemma plain_executor_checked: "\<not> va_valid (validateTestSpec (sample_spec (JStr ''DATABASE'')) None)"
  by code_simp

lemma array_executor_unchecked: "va_executable (validateTestSpec (sample_spec (JArr [JStr ''DATABASE''])) None)"
  by code_simp

lemma array_executor_stored:
  "is_ok (bnd (createTestSpec (sample_spec (JArr [JStr ''DATABASE''])) None) assertTestSpecSafeToStore)"
  by code_simp

text \<open>
  An executor sent as an array hides a step from every check. The specification with a DATABASE
  step that contains raw SQL is refused by the validation and by the check before storing; with the
  executor sent as the array \<open>["DATABASE"]\<close>, which passes the enumeration test, the same specification
  is executable and passes the check before storing.
\<close>
theorem array_executor_hides_raw_sql:
  "\<not> va_valid (validateTestSpec (sample_spec (JStr ''DATABASE'')) None) \<and>
   va_executable (validateTestSpec (sample_spec (JArr [JStr ''DATABASE''])) None) \<and>
   is_ok (bnd (createTestSpec (sample_spec (JArr [JStr ''DATABASE''])) None) assertTestSpecSafeToStore)"
  by (intro conjI plain_executor_checked array_executor_unchecked array_executor_stored)

definition command_spec :: jsv where
  "command_spec = JObj
     [(''id'', JStr ''T''), (''version'', JNum 1), (''name'', JStr ''n''), (''risk'', JStr ''LOW''), (''approved'', JBool False),
      (''featureId'', JStr ''F''), (''createdAt'', JStr ''2026-01-01T00:00:00Z''),
      (''verifiesClaims'', JArr [JObj [(''id'', JStr ''C''), (''version'', JNum 1)]]),
      (''environment'', JObj [(''target'', JStr ''staging''), (''operationLevel'', JStr ''SAFE_READ'')]),
      (''steps'', JArr [JObj [(''id'', JStr ''s''), (''executor'', JStr ''EXISTING_TEST''), (''command'', JStr ''rm'')]])]"

lemma command_spec_valid: "va_valid (validateTestSpec command_spec None)"
  by code_simp

lemma command_spec_refused:
  "bnd (createTestSpec command_spec None) assertTestSpecSafeToStore =
     Inl (TypeErr ''EXISTING_TEST steps cannot supply command; use a trusted testRef'')"
  by code_simp

text \<open>
  A specification reported as valid may be refused by the check before storing. The raw command
  of an EXISTING_TEST step is a violation that the list behind \<open>valid\<close> omits and the one behind
  \<open>assertTestSpecSafeToStore\<close> contains.
\<close>
theorem valid_spec_refused_by_storage:
  "va_valid (validateTestSpec command_spec None) \<and>
   bnd (createTestSpec command_spec None) assertTestSpecSafeToStore =
     Inl (TypeErr ''EXISTING_TEST steps cannot supply command; use a trusted testRef'')"
  by (intro conjI command_spec_valid command_spec_refused)

end
