(* ===== verification/Test_Spec_Workflow.thy ===== *)
theory Test_Spec_Workflow
  imports Project_Parts Test_Spec_Properties
begin

section \<open>Drafting and approving test specifications\<close>

text \<open>
  The operations of \<open>TraceabilityApplication\<close> on test specifications
  (\<open>src/application/traceability-application.js\<close>): a public draft is never approved, an approval writes
  the next version with the reviewer's identity and only if the result is executable. Shown: in every
  reachable store an approved specification is safe to execute and is the content of an unapproved
  version stored before it.
\<close>

definition app_validateTestSpec :: "app_env \<Rightarrow> jsv \<Rightarrow> validation" where
  "app_validateTestSpec env input = validateTestSpec input (ae_clock env)"

definition app_appendTestSpec :: "app_env \<Rightarrow> string \<Rightarrow> jsv \<Rightarrow> store \<Rightarrow> (store \<times> jsv) res" where
  "app_appendTestSpec env projectId input s =
     bnd (requireId (JStr projectId) ''projectId'') (\<lambda>_.
     bnd (createTestSpec input (ae_clock env)) (\<lambda>created.
     bnd (assertTestSpecSafeToStore created) (\<lambda>testSpec.
     appendTestSpec projectId testSpec s)))"

definition forbid_trusted_fields :: "jsv \<Rightarrow> unit res" where
  "forbid_trusted_fields input = foldR (\<lambda>_ f. throw_if (has_own input f)
     (TypeErr (''testSpec.'' @ f @ '' is assigned by a trusted server workflow'')) (Inr ())) ()
     [''createdAt'', ''approval'', ''origin'']"

definition app_appendTestSpecDraft :: "app_env \<Rightarrow> string \<Rightarrow> jsv \<Rightarrow> store \<Rightarrow> (store \<times> jsv) res" where
  "app_appendTestSpecDraft env projectId input s =
     bnd (requireId (JStr projectId) ''projectId'') (\<lambda>_.
     bnd (require_input input ''TestSpec draft input'') (\<lambda>_.
     bnd (forbid_trusted_fields input) (\<lambda>_.
     throw_if (oget input ''approved'' \<noteq> JBool False)
       (TypeErr ''Public TestSpec creation only accepts unapproved drafts'') (
     app_appendTestSpec env projectId (with_fields input [(''approval'', JNull)]) s))))"

text \<open>\<open>Number.isSafeInteger(v) && v >= 1\<close>\<close>

definition positive_safe_integer :: "jsv \<Rightarrow> bool" where
  "positive_safe_integer v \<longleftrightarrow> (case v of JNum i \<Rightarrow> 1 \<le> i \<and> i \<le> 9007199254740991 | _ \<Rightarrow> False)"

definition approval_fingerprint :: "string \<Rightarrow> string \<Rightarrow> jsv \<Rightarrow> jsv \<Rightarrow> jsv \<Rightarrow> jsv \<Rightarrow> string" where
  "approval_fingerprint projectId testSpecId expectedVersion rationale actorId actorRole =
     contentId ''TEST-SPEC-APPROVAL-REQUEST'' (JObj
       [(''projectId'', JStr projectId), (''testSpecId'', JStr testSpecId), (''expectedVersion'', expectedVersion),
        (''rationale'', rationale), (''actorId'', actorId), (''actorRole'', actorRole)])"

text \<open>\<open>current.version + 1\<close> for a stored version\<close>

definition next_version :: "jsv \<Rightarrow> jsv" where
  "next_version v = (case v of JNum n \<Rightarrow> JNum (n + 1) | _ \<Rightarrow> JUndef)"

text \<open>The approved version of \<open>current\<close>, written unless blocking gaps remain.\<close>

definition approve_current ::
  "app_env \<Rightarrow> string \<Rightarrow> jsv \<Rightarrow> jsv \<Rightarrow> jsv \<Rightarrow> jsv \<Rightarrow> string \<Rightarrow> store \<Rightarrow> (store \<times> jsv) res" where
  "approve_current env projectId current actorId actorRole rationale requestFingerprint s =
     (case ae_clock env of
        None \<Rightarrow> Inl (TypeErr ''Application clock must return a valid Date'')
      | Some now \<Rightarrow>
          bnd (now_iso (Some now)) (\<lambda>timestamp.
          bnd (createTestSpec (with_fields current
                 [(''version'', next_version (oget current ''version'')), (''approved'', JBool True),
                  (''approval'', JObj [(''actorId'', actorId), (''actorRole'', actorRole), (''approvedAt'', timestamp),
                     (''rationale'', rationale), (''requestFingerprint'', JStr requestFingerprint)]),
                  (''createdAt'', timestamp)]) (Some now)) (\<lambda>approved.
          let validation = app_validateTestSpec env approved in
          throw_if (\<not> va_executable validation)
            (ConflictErr (''TestSpec cannot be approved while blocking gaps remain: ''
               @ join '', '' (map vi_code (va_violations validation)))) (
          appendTestSpec projectId approved s))))"

text \<open>The checks of an approval request: who approves which version and why.\<close>

definition approval_request :: "app_env \<Rightarrow> string \<Rightarrow> string \<Rightarrow> jsv \<Rightarrow> jsv \<Rightarrow> (jsv \<times> jsv \<times> jsv \<times> jsv) res" where
  "approval_request env projectId testSpecId input requestContext =
     bnd (requireId (JStr projectId) ''projectId'') (\<lambda>_.
     bnd (requireId (JStr testSpecId) ''testSpecId'') (\<lambda>_.
     bnd (require_input input ''TestSpec approval input'') (\<lambda>_.
     bnd (assertOnlyFields input [''expectedVersion'', ''rationale''] ''testSpecApproval'') (\<lambda>_.
     let expectedVersion = oget input ''expectedVersion'' in
     throw_if (\<not> positive_safe_integer expectedVersion)
       (TypeErr ''testSpecApproval.expectedVersion must be a positive integer'') (
     bnd (requireId (oget input ''rationale'') ''testSpecApproval.rationale'') (\<lambda>rationale.
     let reviewer = ae_reviewerResolver env projectId requestContext in
     bnd (resolve_actor reviewer) (\<lambda>(actorId, actorRole).
     let policy = coalesce (ae_reviewPolicyResolver env projectId
           (JObj [(''reviewer'', reviewer), (''testSpecId'', JStr testSpecId), (''approvalInput'', input)])) (JObj [])
     in
     bnd (require_role (oget policy ''allowedTestSpecApproverRoles'') actorRole
            '' cannot approve TestSpecs in this project'') (\<lambda>_.
     Inr (actorId, actorRole, expectedVersion, rationale)))))))))"

definition app_approveTestSpec :: "app_env \<Rightarrow> string \<Rightarrow> string \<Rightarrow> jsv \<Rightarrow> jsv \<Rightarrow> store \<Rightarrow> (store \<times> jsv) res" where
  "app_approveTestSpec env projectId testSpecId input requestContext s =
     bnd (approval_request env projectId testSpecId input requestContext)
       (\<lambda>(actorId, actorRole, expectedVersion, rationale).
     let requestFingerprint = approval_fingerprint projectId testSpecId expectedVersion rationale actorId actorRole;
         current = getTestSpec projectId (JStr testSpecId) JNull s
     in
     throw_if (\<not> truthy current) (ConflictErr (''TestSpec '' @ testSpecId @ '' does not exist'')) (
     if truthy (oget current ''approved'') then
       (if oget (oget current ''approval'') ''requestFingerprint'' = JStr requestFingerprint then Inr (s, current)
        else Inl (ConflictErr (''TestSpec '' @ testSpecId @ '' is already approved by another immutable decision'')))
     else
       throw_if (\<not> strict_eq (oget current ''version'') expectedVersion)
         (ConflictErr (''TestSpec '' @ testSpecId @ '' expected version '' @ js_string expectedVersion
            @ '' but current version is '' @ js_string (oget current ''version''))) (
       approve_current env projectId current actorId actorRole rationale requestFingerprint s)))"

definition app_getTestSpec :: "string \<Rightarrow> string \<Rightarrow> jsv \<Rightarrow> store \<Rightarrow> jsv res" where
  "app_getTestSpec projectId testSpecId version s =
     bnd (requireId (JStr projectId) ''projectId'') (\<lambda>_.
     bnd (requireId (JStr testSpecId) ''testSpecId'') (\<lambda>_.
     throw_if (version \<noteq> JNull \<and> \<not> positive_safe_integer version) (TypeErr ''version must be a positive integer'') (
     Inr (getTestSpec projectId (JStr testSpecId) version s))))"

definition app_validateStoredTestSpec :: "app_env \<Rightarrow> string \<Rightarrow> string \<Rightarrow> jsv \<Rightarrow> store \<Rightarrow> validation option res" where
  "app_validateStoredTestSpec env projectId testSpecId version s =
     bnd (app_getTestSpec projectId testSpecId version s) (\<lambda>testSpec.
     Inr (if \<not> truthy testSpec then None else Some (app_validateTestSpec env testSpec)))"

subsection \<open>What is stored\<close>

text \<open>
  The stores in which the test specifications of a project are written by drafts and approvals;
  in between anything may happen that leaves them alone.
\<close>

inductive specified :: "string \<Rightarrow> store \<Rightarrow> bool" for p where
  spec_start: "project_part p (st_testSpecs s) = [] \<Longrightarrow> specified p s"
| spec_draft: "specified p s \<Longrightarrow> app_appendTestSpecDraft env p input s = Inr (s', r) \<Longrightarrow> specified p s'"
| spec_approve: "specified p s \<Longrightarrow> app_approveTestSpec env p i input ctx s = Inr (s', r) \<Longrightarrow> specified p s'"
| spec_other: "specified p s \<Longrightarrow> project_part p (st_testSpecs s') = project_part p (st_testSpecs s) \<Longrightarrow> specified p s'"

text \<open>The members of a specification that an approval must not touch.\<close>

definition content_fields :: "string list" where
  "content_fields = [''id'', ''name'', ''risk'', ''featureId'', ''verifiesClaims'', ''origin'', ''sourceSnapshotId'',
     ''environment'', ''preconditions'', ''variables'', ''steps'', ''assertions'', ''cleanup'', ''policy'']"

definition same_content :: "jsv \<Rightarrow> jsv \<Rightarrow> bool" where
  "same_content t d \<longleftrightarrow> (\<forall>k\<in>set content_fields. oget t k = oget d k)"

definition approved_from_draft :: "jsv list \<Rightarrow> jsv \<Rightarrow> bool" where
  "approved_from_draft specs t \<longleftrightarrow> safe_to_execute t \<and>
     (\<exists>d\<in>set specs. \<not> truthy (oget d ''approved'') \<and> same_content t d \<and>
        oget t ''version'' = next_version (oget d ''version'')) \<and>
     (\<exists>a r. oget (oget t ''approval'') ''actorId'' = JStr a \<and> oget (oget t ''approval'') ''actorRole'' = JStr r)"

definition spec_inv :: "string \<Rightarrow> store \<Rightarrow> bool" where
  "spec_inv p s \<longleftrightarrow> (\<forall>t\<in>set (project_values p (st_testSpecs s)).
     (\<exists>input now. createTestSpec input now = Inr t) \<and>
     (truthy (oget t ''approved'') \<longrightarrow> approved_from_draft (project_values p (st_testSpecs s)) t))"

text \<open>The content of a created specification depends on the content of its input only.\<close>

lemma content_determined:
  assumes a: "createTestSpec a now = Inr t" and b: "createTestSpec b now' = Inr u"
    and eq: "\<forall>k\<in>set content_fields. oget a k = oget b k"
  shows "same_content t u"
proof -
  have e: "oget a ''id'' = oget b ''id''" "oget a ''name'' = oget b ''name''" "oget a ''risk'' = oget b ''risk''"
    "oget a ''featureId'' = oget b ''featureId''" "oget a ''verifiesClaims'' = oget b ''verifiesClaims''"
    "oget a ''origin'' = oget b ''origin''" "oget a ''sourceSnapshotId'' = oget b ''sourceSnapshotId''"
    "oget a ''environment'' = oget b ''environment''" "oget a ''preconditions'' = oget b ''preconditions''"
    "oget a ''variables'' = oget b ''variables''" "oget a ''steps'' = oget b ''steps''"
    "oget a ''assertions'' = oget b ''assertions''" "oget a ''cleanup'' = oget b ''cleanup''"
    "oget a ''policy'' = oget b ''policy''"
    using eq unfolding content_fields_def list.set ball_simps by simp_all
  from b show ?thesis
  proof (rule createTestSpec_run, goal_cases)
    case B: (1 i ver nm risk approved approval fid claims ori snap env pre vars steps asserts cleanup pol created)
    from a show ?case
    proof (rule createTestSpec_run, goal_cases)
      case A: (1 i' ver' nm' risk' approved' approval' fid' claims' ori' snap' env' pre' vars' steps' asserts' cleanup' pol' created')
      note A' = A(6,8,9,10,11,12,13,14,15,16,17,18,19,20) [unfolded e]
      have "i' = i" "nm' = nm" "risk' = risk" "fid' = fid" "claims' = claims" "ori' = ori" "snap' = snap" "env' = env"
        "pre' = pre" "vars' = vars" "steps' = steps" "asserts' = asserts" "cleanup' = cleanup" "pol' = pol"
        using A' B(6,8,9,10,11,12,13,14,15,16,17,18,19,20) by (simp_all only: sum.inject)
      then show ?case by (simp add: same_content_def content_fields_def A(21) B(21))
    qed
  qed
qed

lemma appendTestSpec_run:
  assumes "appendTestSpec p t s = Inr (s', r)"
  obtains l coll where "appendVersion (st_testSpecs s) (store_key p (version_key t)) t l = Inr coll"
    "s' = s\<lparr>st_testSpecs := coll\<rparr>"
  using assms unfolding appendTestSpec_def
  by (simp only: throw_if_eq_Inr bnd_eq_Inr sum.inject prod.inject) (elim exE conjE, rule that, assumption, simp)

text \<open>Storing a created specification that is unapproved or approved from a stored draft keeps the invariant.\<close>

lemma spec_inv_append:
  assumes inv: "spec_inv p s" and ap: "appendTestSpec p t s = Inr (s', r)" and t: "createTestSpec input now = Inr t"
    and ok: "truthy (oget t ''approved'') \<Longrightarrow> approved_from_draft (project_values p (st_testSpecs s)) t"
  shows "spec_inv p s'"
proof -
  from ap obtain l coll where coll: "appendVersion (st_testSpecs s) (store_key p (version_key t)) t l = Inr coll"
    and s': "s' = s\<lparr>st_testSpecs := coll\<rparr>" by (rule appendTestSpec_run)
  have mono: "approved_from_draft (vs @ ws) u" if "approved_from_draft vs u" for vs ws u
    using that unfolding approved_from_draft_def by auto
  from coll show ?thesis
  proof (cases rule: appendVersion_part)
    case kept
    with inv show ?thesis by (simp add: s' spec_inv_def)
  next
    case fresh
    have vs: "project_values p (st_testSpecs s') = project_values p (st_testSpecs s) @ [t]"
      by (simp add: s' project_values_part fresh(2))
    show ?thesis unfolding spec_inv_def vs
    proof (intro ballI conjI impI)
      fix u assume u: "u \<in> set (project_values p (st_testSpecs s) @ [t])"
      show "\<exists>input now. createTestSpec input now = Inr u" using u inv t by (auto simp: spec_inv_def)
      assume a: "truthy (oget u ''approved'')"
      from u consider "u \<in> set (project_values p (st_testSpecs s))" | "u = t" by auto
      then show "approved_from_draft (project_values p (st_testSpecs s) @ [t]) u"
      proof cases
        case 1
        with inv a have "approved_from_draft (project_values p (st_testSpecs s)) u" by (simp add: spec_inv_def)
        then show ?thesis by (rule mono)
      next
        case 2
        with ok a show ?thesis using mono by simp
      qed
    qed
  qed
qed

lemma draft_unapproved:
  assumes "createTestSpec input now = Inr t" and "oget input ''approved'' = JBool False"
  shows "oget t ''approved'' = JBool False"
  using assms(1)
proof (rule createTestSpec_run, goal_cases)
  case (1 i ver nm risk approved approval fid claims ori snap env pre vars steps asserts cleanup pol created)
  from 1(1) have "approved = JBool False" by (simp add: assms(2) requireBoolean_def)
  then show ?case by (simp add: 1(21))
qed

lemma safe_to_store_same: "assertTestSpecSafeToStore u = Inr t \<Longrightarrow> t = u"
  by (cases "sensitiveValueViolations u";
      cases "filter (\<lambda>item. vi_code item \<in> set unsafe_codes) (executionProtocolViolations u)")
    (simp_all add: assertTestSpecSafeToStore_def)

lemma spec_inv_draft:
  assumes inv: "spec_inv p s" and step: "app_appendTestSpecDraft env p input s = Inr (s', r)"
  shows "spec_inv p s'"
proof -
  let ?in = "with_fields input [(''approval'', JNull)]"
  from step have "oget input ''approved'' = JBool False" "is_plain_object input" "app_appendTestSpec env p ?in s = Inr (s', r)"
    unfolding app_appendTestSpecDraft_def by (simp_all only: bnd_eq_Inr throw_if_eq_Inr not_not require_input_Inr) auto
  moreover from this(2) have "oget ?in ''approved'' = oget input ''approved''"
    by (auto simp: oget_with_fields is_plain_object_iff)
  ultimately have a: "oget ?in ''approved'' = JBool False" and step': "app_appendTestSpec env p ?in s = Inr (s', r)" by simp_all
  from step' obtain u t where t: "createTestSpec ?in (ae_clock env) = Inr u" "appendTestSpec p t s = Inr (s', r)"
    and safe: "assertTestSpecSafeToStore u = Inr t" unfolding app_appendTestSpec_def bnd_eq_Inr by blast
  from safe have "t = u" by (rule safe_to_store_same)
  with t have t: "createTestSpec ?in (ae_clock env) = Inr t" "appendTestSpec p t s = Inr (s', r)" by simp_all
  from draft_unapproved [OF t(1) a] have t3: "oget t ''approved'' = JBool False" .
  show ?thesis by (rule spec_inv_append [OF inv t(2,1)]) (simp add: t3)
qed

lemma app_approve_run:
  assumes "app_approveTestSpec env p i input ctx s = Inr (s', r)"
  obtains (same) "s' = s"
  | (new) a b rationale fp where "is_string a" "is_string b"
    "\<not> truthy (oget (getTestSpec p (JStr i) JNull s) ''approved'')" "truthy (getTestSpec p (JStr i) JNull s)"
    "approve_current env p (getTestSpec p (JStr i) JNull s) a b rationale fp s = Inr (s', r)"
proof -
  let ?cur = "getTestSpec p (JStr i) JNull s"
  from assms obtain a b ver rationale fp fp' v m m' where
    req: "approval_request env p i input ctx = Inr (a, b, ver, rationale)"
    and t: "truthy ?cur"
    and k: "(if truthy (oget ?cur ''approved'')
       then (if oget (oget ?cur ''approval'') ''requestFingerprint'' = fp' then Inr (s, ?cur) else Inl m)
       else throw_if v m' (approve_current env p ?cur a b rationale fp s)) = Inr (s', r)"
    unfolding app_approveTestSpec_def Let_def
    apply (simp only: bnd_eq_Inr throw_if_eq_Inr split_paired_Ex prod.case not_not)
    apply (elim exE conjE)
    apply (rule that)
      apply assumption
     apply assumption
    apply assumption
    done
  from req have ab: "resolve_actor (ae_reviewerResolver env p ctx) = Inr (a, b)"
    unfolding approval_request_def Let_def
    by (simp only: bnd_eq_Inr throw_if_eq_Inr split_paired_Ex prod.case sum.inject prod.inject) (elim exE conjE, simp)
  have "is_string a" "is_string b" using ab by (auto simp: resolve_actor_Inr)
  then show thesis
  proof (cases "truthy (oget ?cur ''approved'')")
    case True
    then have "s' = s" using k by (simp split: if_splits)
    then show thesis by (rule same)
  next
    case False
    with k have "approve_current env p ?cur a b rationale fp s = Inr (s', r)" by (simp add: throw_if_eq_Inr)
    from new [OF \<open>is_string a\<close> \<open>is_string b\<close> False t this] show thesis .
  qed
qed

lemma approve_current_run:
  assumes "approve_current env p current a b rationale fp s = Inr (s', r)"
  obtains now ts t where "ae_clock env = Some now"
    "createTestSpec (with_fields current
       [(''version'', next_version (oget current ''version'')), (''approved'', JBool True),
        (''approval'', JObj [(''actorId'', a), (''actorRole'', b), (''approvedAt'', ts), (''rationale'', rationale),
           (''requestFingerprint'', JStr fp)]), (''createdAt'', ts)]) (Some now) = Inr t"
    "va_executable (validateTestSpec t (Some now))" "appendTestSpec p t s = Inr (s', r)"
proof (cases "ae_clock env")
  case (Some now)
  from assms show thesis
    unfolding approve_current_def Some option.case Let_def app_validateTestSpec_def
    apply (simp only: bnd_eq_Inr throw_if_eq_Inr not_not)
    apply (elim exE conjE)
    apply (rule that)
       apply (rule Some)
      apply assumption
     apply assumption
    apply assumption
    done
qed (use assms in \<open>simp add: approve_current_def\<close>)

lemma getTestSpec_stored:
  assumes "truthy (getTestSpec p (JStr i) JNull s)"
  shows "getTestSpec p (JStr i) JNull s \<in> set (project_values p (st_testSpecs s))"
proof -
  have "getTestSpec p (JStr i) JNull s \<noteq> JNull" using assms by auto
  then have "getTestSpec p (JStr i) JNull s \<in>
      set (filter (\<lambda>t. strict_eq (oget t ''id'') (JStr i)) (project_values p (st_testSpecs s)))"
    unfolding getTestSpec_def by (simp only: simp_thms if_False) (rule newest_in)
  then show ?thesis by (simp only: filter_is_subset [THEN subsetD])
qed

lemma spec_inv_approve:
  assumes inv: "spec_inv p s" and step: "app_approveTestSpec env p i input ctx s = Inr (s', r)"
  shows "spec_inv p s'"
  using step
proof (cases rule: app_approve_run)
  case same
  with inv show ?thesis by simp
next
  case (new a b rationale fp)
  let ?cur = "getTestSpec p (JStr i) JNull s"
  note mem = getTestSpec_stored [OF new(4)]
  with inv obtain input0 now0 where "createTestSpec input0 now0 = Inr ?cur" unfolding spec_inv_def by blast
  then have cur: "createTestSpec ?cur now = Inr ?cur" for now by (rule created_again)
  from new(5) obtain now ts t where t: "createTestSpec (with_fields ?cur
       [(''version'', next_version (oget ?cur ''version'')), (''approved'', JBool True),
        (''approval'', JObj [(''actorId'', a), (''actorRole'', b), (''approvedAt'', ts), (''rationale'', rationale),
           (''requestFingerprint'', JStr fp)]), (''createdAt'', ts)]) (Some now) = Inr t" (is "createTestSpec ?in _ = _")
    and ex: "va_executable (validateTestSpec t (Some now))" and ap: "appendTestSpec p t s = Inr (s', r)"
    by (rule approve_current_run)
  from ex have safe: "safe_to_execute t"
    unfolding executable_iff_safe created_again [OF t] by simp
  have obj: "JObj (props ?cur) = ?cur" using cur [of None] by (rule createTestSpec_run) simp
  have "\<forall>k\<in>set content_fields. oget ?in k = oget ?cur k"
    by (simp add: oget_with_fields content_fields_def obj del: oget_simps)
  from content_determined [OF t cur [of None] this] have content: "same_content t ?cur" .
  have members: "oget t ''version'' = next_version (oget ?cur ''version'') \<and>
      oget (oget t ''approval'') ''actorId'' = a \<and> oget (oget t ''approval'') ''actorRole'' = b"
    using t
  proof (rule createTestSpec_run, goal_cases)
    case (1 i ver nm risk approved approval fid claims ori snap env pre vars steps asserts cleanup pol created)
    have "approved = JBool True" using 1(1) by (simp add: oget_with_fields requireBoolean_def)
    then have "oget approval ''actorId'' = a" "oget approval ''actorRole'' = b"
      using 1(2) by (auto simp: oget_with_fields normalizeApproval_def build_simps requireNonEmptyString_Inr requireObject_Inr)
    moreover have "ver = next_version (oget ?cur ''version'')"
      using 1(7) by (auto simp: oget_with_fields requirePositiveInteger_Inr)
    ultimately show ?case by (simp add: 1(21))
  qed
  show ?thesis
  proof (rule spec_inv_append [OF inv ap t])
    show "approved_from_draft (project_values p (st_testSpecs s)) t"
      using safe content mem members new(1-3) unfolding approved_from_draft_def by (auto simp: is_string_iff)
  qed
qed

lemma specified_inv: "specified p s \<Longrightarrow> spec_inv p s"
proof (induction rule: specified.induct)
  case (spec_draft s env input s' r)
  then show ?case using spec_inv_draft by blast
next
  case (spec_approve s env i input ctx s' r)
  then show ?case using spec_inv_approve by blast
qed (auto simp: spec_inv_def project_values_part)

text \<open>
  C17: An approved test specification is safe and is what was drafted. In every store whose test
  specifications come from drafts and approvals, a stored specification that is approved satisfies the
  declarative safety condition, names the approving actor and role, and repeats in every member that
  matters for its execution the content of an unapproved specification stored before it, of which it
  is the next version.
\<close>
theorem approved_test_specs_are_safe_drafts:
  assumes "specified p s" and "t \<in> set (project_values p (st_testSpecs s))" and "truthy (oget t ''approved'')"
  shows "approved_from_draft (project_values p (st_testSpecs s)) t"
  using specified_inv [OF assms(1)] assms(2,3) by (simp add: spec_inv_def)

subsection \<open>A run\<close>

definition reviewer_env :: app_env where
  "reviewer_env = \<lparr>ae_reviewerResolver = \<lambda>_ _. JObj [(''actorId'', JStr ''ann''), (''actorRole'', JStr ''qa'')],
     ae_reviewPolicyResolver = \<lambda>_ _. JObj [(''allowedTestSpecApproverRoles'', JArr [JStr ''qa''])],
     ae_actorIdentityResolver = \<lambda>i. i, ae_runnerKeyResolver = \<lambda>_ _. JUndef, ae_scannerKeyResolver = \<lambda>_ _. JUndef,
     ae_clock = Some 0\<rparr>"

definition draft_request :: jsv where
  "draft_request = JObj
     [(''id'', JStr ''T''), (''version'', JNum 1), (''name'', JStr ''n''), (''risk'', JStr ''LOW''), (''approved'', JBool False),
      (''featureId'', JStr ''F''), (''verifiesClaims'', JArr [JObj [(''id'', JStr ''C''), (''version'', JNum 1)]]),
      (''environment'', JObj [(''target'', JStr ''t''), (''operationLevel'', JStr ''SAFE_READ'')]),
      (''steps'', JArr [JObj [(''id'', JStr ''s''), (''executor'', JStr ''HTTP''), (''method'', JStr ''GET''), (''path'', JStr ''/x'')]]),
      (''assertions'', JArr [JObj [(''id'', JStr ''a''), (''type'', JStr ''HTTP_STATUS''), (''stepId'', JStr ''s'')]])]"

definition claimed_store :: store where
  "claimed_store = empty_store\<lparr>
     st_features := [(store_key ''p'' (pair_key (JStr ''F'') (JNum 1)), JObj [(''id'', JStr ''F''), (''version'', JNum 1)])],
     st_claims := [(store_key ''p'' (pair_key (JStr ''C'') (JNum 1)), JObj [(''id'', JStr ''C''), (''featureId'', JStr ''F'')])]\<rparr>"

definition epoch :: string where
  "epoch = ''1970-01-01T00:00:00.000Z''"

text \<open>The specification of the request at a version, with the approval it carries.\<close>

definition spec_at :: "int \<Rightarrow> bool \<Rightarrow> jsv \<Rightarrow> jsv" where
  "spec_at version approved approval = JObj
     [(''id'', JStr ''T''), (''version'', JNum version), (''name'', JStr ''n''), (''risk'', JStr ''LOW''),
      (''approved'', JBool approved), (''approval'', approval), (''featureId'', JStr ''F''),
      (''verifiesClaims'', JArr [JObj [(''id'', JStr ''C''), (''version'', JNum 1)]]),
      (''origin'', JObj [(''type'', JStr ''MANUAL''), (''claimRef'', JNull), (''decisionId'', JNull), (''mappingId'', JNull),
         (''factIds'', JArr []), (''generator'', JNull), (''requestFingerprint'', JNull)]),
      (''sourceSnapshotId'', JNull),
      (''environment'', JObj [(''target'', JStr ''t''), (''operationLevel'', JStr ''SAFE_READ'')]),
      (''preconditions'', JArr []), (''variables'', JObj []),
      (''steps'', JArr [JObj [(''id'', JStr ''s''), (''executor'', JStr ''HTTP''), (''method'', JStr ''GET''), (''path'', JStr ''/x'')]]),
      (''assertions'', JArr [JObj [(''id'', JStr ''a''), (''type'', JStr ''HTTP_STATUS''), (''stepId'', JStr ''s'')]]),
      (''cleanup'', JNull),
      (''policy'', JObj [(''approvalRequired'', JBool True), (''destructive'', JBool False), (''externalSideEffect'', JBool False)]),
      (''createdAt'', JStr epoch)]"

definition drafted_store :: store where
  "drafted_store = claimed_store\<lparr>st_testSpecs :=
     [(store_key ''p'' (pair_key (JStr ''T'') (JNum 1)), spec_at 1 False JNull)]\<rparr>"

lemma draft_stored:
  "app_appendTestSpecDraft reviewer_env ''p'' draft_request claimed_store = Inr (drafted_store, spec_at 1 False JNull)"
  by code_simp

definition approval_of :: "string \<Rightarrow> jsv" where
  "approval_of fp = JObj [(''actorId'', JStr ''ann''), (''actorRole'', JStr ''qa''), (''approvedAt'', JStr epoch),
     (''rationale'', JStr ''ok''), (''requestFingerprint'', JStr fp)]"

lemma draft_created: "createTestSpec (spec_at 1 False JNull) None = Inr (spec_at 1 False JNull)"
  by code_simp

lemma epoch_now: "now_iso (Some 0) = Inr (JStr epoch)" "requireIsoTimestamp (JStr epoch) f = Inr 0"
  by code_simp+

lemma epoch_filled: "js_trim epoch \<noteq> []"
  by code_simp

lemma approved_created:
  assumes "js_trim fp \<noteq> []"
  shows "createTestSpec (spec_at 2 True (approval_of fp)) now = Inr (spec_at 2 True (approval_of fp))"
proof -
  have ap: "normalizeApproval (approval_of fp) True = Inr (approval_of fp)"
    using assms epoch_filled epoch_now(2)
    by (simp add: normalizeApproval_def approval_of_def requireObject_def requireNonEmptyString_Inr optionalString_def
        mk_obj_def js_trim_eq_Nil is_space_def)
  have "spec_at 2 True (approval_of fp) = reissue (spec_at 1 False JNull) (JNum 2) True (approval_of fp) (JStr epoch)"
    by (simp add: reissue_def spec_at_def spread_def)
  moreover have "\<not> (truthy (approval_of fp) \<and>
      time_less (js_date_parse (JStr epoch)) (js_date_parse (oget (approval_of fp) ''approvedAt'')))"
    using epoch_now(2) by (auto simp: approval_of_def requireIsoTimestamp_Inr)
  ultimately show ?thesis
    using reissued [OF draft_created _ ap epoch_now(2)] by (simp add: requirePositiveInteger_Inr)
qed

lemma approved_free_of_gaps:
  "sensitiveValueViolations (spec_at 2 True (approval_of fp)) @ executionProtocolViolations (spec_at 2 True (approval_of fp)) @
   policy_violations (spec_at 2 True (approval_of fp)) = []"
  by code_simp

lemma approved_executable:
  assumes "js_trim fp \<noteq> []"
  shows "va_executable (validateTestSpec (spec_at 2 True (approval_of fp)) now)"
  unfolding validateTestSpec_def approved_created [OF assms] sum.case Let_def approved_free_of_gaps
  by (simp only: validation.simps)

lemma approved_append:
  "appendTestSpec ''p'' (spec_at 2 True (approval_of fp)) drafted_store =
     Inr (drafted_store\<lparr>st_testSpecs := st_testSpecs drafted_store @
       [(store_key ''p'' (pair_key (JStr ''T'') (JNum 2)), spec_at 2 True (approval_of fp))]\<rparr>, spec_at 2 True (approval_of fp))"
  by code_simp

definition approve_input :: jsv where
  "approve_input = JObj [(''expectedVersion'', JNum 1), (''rationale'', JStr ''ok'')]"

lemma approve_request_ok:
  "approval_request reviewer_env ''p'' ''T'' approve_input JNull = Inr (JStr ''ann'', JStr ''qa'', JNum 1, JStr ''ok'')"
  by code_simp

lemma drafted_current: "getTestSpec ''p'' (JStr ''T'') JNull drafted_store = spec_at 1 False JNull"
  by code_simp

lemma approve_current_ok:
  assumes "js_trim fp \<noteq> []"
  shows "approve_current reviewer_env ''p'' (spec_at 1 False JNull) (JStr ''ann'') (JStr ''qa'') (JStr ''ok'') fp drafted_store =
    Inr (drafted_store\<lparr>st_testSpecs := st_testSpecs drafted_store @
       [(store_key ''p'' (pair_key (JStr ''T'') (JNum 2)), spec_at 2 True (approval_of fp))]\<rparr>, spec_at 2 True (approval_of fp))"
proof -
  let ?u = "spec_at 2 True (approval_of fp)"
  have clock: "ae_clock reviewer_env = Some 0" by (simp add: reviewer_env_def)
  have input: "with_fields (spec_at 1 False JNull)
      [(''version'', next_version (oget (spec_at 1 False JNull) ''version'')), (''approved'', JBool True),
       (''approval'', JObj [(''actorId'', JStr ''ann''), (''actorRole'', JStr ''qa''), (''approvedAt'', JStr epoch),
          (''rationale'', JStr ''ok''), (''requestFingerprint'', JStr fp)]), (''createdAt'', JStr epoch)] = ?u"
    by (simp add: with_fields_def spread_def spec_at_def next_version_def approval_of_def)
  note approved_executable [OF assms]
  then show ?thesis
    unfolding approve_current_def clock option.case epoch_now(1) bnd_simps input approved_created [OF assms]
      Let_def app_validateTestSpec_def throw_if_def approved_append by (simp only: not_True_eq_False if_False)
qed

lemma contentId_filled: "js_trim (contentId ''TEST-SPEC-APPROVAL-REQUEST'' v) \<noteq> []"
  by (simp add: contentId_def js_trim_eq_Nil is_space_def Let_def)

definition approved_store :: "string \<Rightarrow> store" where
  "approved_store fp = drafted_store\<lparr>st_testSpecs := st_testSpecs drafted_store @
     [(store_key ''p'' (pair_key (JStr ''T'') (JNum 2)), spec_at 2 True (approval_of fp))]\<rparr>"

lemma approved_store_reached: "\<exists>fp. js_trim fp \<noteq> [] \<and> specified ''p'' (approved_store fp)"
proof -
  let ?fp = "approval_fingerprint ''p'' ''T'' (JNum 1) (JStr ''ok'') (JStr ''ann'') (JStr ''qa'')"
  have fp: "js_trim ?fp \<noteq> []" unfolding approval_fingerprint_def by (rule contentId_filled)
  have cur: "truthy (spec_at 1 False JNull)" "\<not> truthy (oget (spec_at 1 False JNull) ''approved'')"
    "strict_eq (oget (spec_at 1 False JNull) ''version'') (JNum 1)" by (simp_all add: spec_at_def)
  have "app_approveTestSpec reviewer_env ''p'' ''T'' approve_input JNull drafted_store =
      Inr (approved_store ?fp, spec_at 2 True (approval_of ?fp))"
    unfolding app_approveTestSpec_def approve_request_ok bnd_simps prod.case Let_def drafted_current throw_if_def
      approve_current_ok [OF fp] approved_store_def
    using cur by (simp only: not_True_eq_False if_False simp_thms if_True)
  moreover have "specified ''p'' drafted_store"
    by (rule spec_draft [OF spec_start draft_stored]) (simp add: claimed_store_def empty_store_def project_part_def)
  ultimately have "specified ''p'' (approved_store ?fp)" by (rule spec_approve [rotated])
  with fp show ?thesis by (intro exI conjI)
qed

theorem approved_test_specs_are_safe_drafts_witness:
  "\<exists>s t. specified ''p'' s \<and> t \<in> set (project_values ''p'' (st_testSpecs s)) \<and> truthy (oget t ''approved'') \<and>
     approved_from_draft (project_values ''p'' (st_testSpecs s)) t"
proof -
  obtain fp where s: "specified ''p'' (approved_store fp)" using approved_store_reached by blast
  let ?t = "spec_at 2 True (approval_of fp)"
  have m: "?t \<in> set (project_values ''p'' (st_testSpecs (approved_store fp)))"
    by (simp add: project_values_part part_snoc approved_store_def)
  have a: "truthy (oget ?t ''approved'')" by (simp add: spec_at_def)
  show ?thesis
    by (rule exI [of _ "approved_store fp"], rule exI [of _ ?t])
      (intro conjI s m a approved_test_specs_are_safe_drafts [OF s m a])
qed

end
