(* ===== verification/Facts.thy ===== *)
theory Facts
  imports Model Canonical
begin

section \<open>Observed facts\<close>

text \<open>
  Nodes, edges and bundles of observed facts and the attestation of a bundle by its scanner
  (\<open>src/domain/facts.js\<close>). The collation of \<open>localeCompare\<close> is the parameter \<open>lc\<close>. Shown: a created
  bundle is closed (its edges join its own nodes), consistent with its project, manifest and
  identifiers, and a signed bundle verifies.
\<close>

definition sourceLocation :: "jsv \<Rightarrow> string \<Rightarrow> jsv res" where
  "sourceLocation v fieldName =
     bnd (requireObject v fieldName) (\<lambda>source.
     bnd (requirePositiveInteger (oget source ''startLine'') (fieldName @ ''.startLine'')) (\<lambda>startLine.
     bnd (requirePositiveInteger (oget source ''endLine'') (fieldName @ ''.endLine'')) (\<lambda>endLine.
     throw_if (num_gt startLine endLine) (RangeErr (fieldName @ ''.startLine must not exceed endLine'')) (
     bnd (requireNonEmptyString (oget source ''contentHash'') (fieldName @ ''.contentHash'')) (\<lambda>contentHash.
     throw_if (\<not> is_sha256_digest (str_of contentHash)) (TypeErr (fieldName @ ''.contentHash must be a SHA-256 digest'')) (
     mk_obj
      [(''artifact'', requireNonEmptyString (oget source ''artifact'') (fieldName @ ''.artifact'')),
       (''startLine'', Inr startLine), (''endLine'', Inr endLine), (''contentHash'', Inr contentHash)]))))))"

definition extractor :: "jsv \<Rightarrow> jsv res" where
  "extractor v = mk_obj
     [(''id'', requireNonEmptyString (oget v ''id'') ''extractor.id''),
      (''version'', requireNonEmptyString (oget v ''version'') ''extractor.version'')]"

definition fact_node_id :: "jsv \<Rightarrow> jsv \<Rightarrow> jsv \<Rightarrow> jsv" where
  "fact_node_id projectId type naturalKey =
     JStr (contentId ''FACT-NODE'' (JObj [(''projectId'', projectId), (''type'', type), (''naturalKey'', naturalKey)]))"

definition stableFactNodeId :: "jsv \<Rightarrow> jsv \<Rightarrow> jsv \<Rightarrow> jsv res" where
  "stableFactNodeId projectId type naturalKey =
     bnd (requireNonEmptyString projectId ''projectId'') (\<lambda>projectId.
     bnd (assertEnum FactNodeType type ''fact.type'') (\<lambda>type.
     bnd (requireNonEmptyString naturalKey ''fact.naturalKey'') (\<lambda>naturalKey.
     Inr (fact_node_id projectId type naturalKey))))"

text \<open>The validity of a fact: from the observation on unless given, without an end unless given.\<close>

definition fact_validity :: "jsv \<Rightarrow> jsv \<Rightarrow> (jsv \<times> jsv) res" where
  "fact_validity input observedAt =
     (let validFrom = coalesce (oget input ''validFrom'') observedAt; validTo = coalesce (oget input ''validTo'') JNull in
      bnd (requireIsoTimestamp validFrom ''fact.validFrom'') (\<lambda>_.
      if validTo \<noteq> JNull then
        bnd (requireIsoTimestamp validTo ''fact.validTo'') (\<lambda>_.
        throw_if (time_less (js_date_parse validTo) (js_date_parse validFrom))
          (RangeErr ''fact.validFrom must not exceed validTo'') (Inr (validFrom, validTo)))
      else Inr (validFrom, validTo)))"

definition createFactNode :: "jsv \<Rightarrow> jsv res" where
  "createFactNode input =
     bnd (requireNonEmptyString (oget input ''projectId'') ''fact.projectId'') (\<lambda>projectId.
     bnd (requireNonEmptyString (oget input ''snapshotManifestId'') ''fact.snapshotManifestId'') (\<lambda>snapshotManifestId.
     bnd (assertEnum FactNodeType (oget input ''type'') ''fact.type'') (\<lambda>type.
     bnd (requireNonEmptyString (oget input ''naturalKey'') ''fact.naturalKey'') (\<lambda>naturalKey.
     bnd (requireNonEmptyString (oget input ''observedAt'') ''fact.observedAt'') (\<lambda>observedAt.
     bnd (requireIsoTimestamp observedAt ''fact.observedAt'') (\<lambda>_.
     bnd (stableFactNodeId projectId type naturalKey) (\<lambda>nodeId.
     bnd (requireNonEmptyString (oget input ''name'') ''fact.name'') (\<lambda>name.
     bnd (requireObject (coalesce (oget input ''attributes'') (JObj [])) ''fact.attributes'') (\<lambda>attributes.
     bnd (sourceLocation (oget input ''source'') ''fact.source'') (\<lambda>factSource.
     bnd (extractor (oget input ''extractor'')) (\<lambda>factExtractor.
     bnd (fact_validity input observedAt) (\<lambda>(validFrom, validTo).
     Inr (JObj
      [(''id'', nodeId),
       (''factId'', JStr (contentId ''FACT'' (JObj
          [(''snapshotManifestId'', snapshotManifestId), (''nodeId'', nodeId), (''name'', name), (''attributes'', attributes),
           (''source'', factSource), (''extractor'', factExtractor), (''observedAt'', observedAt),
           (''validFrom'', validFrom), (''validTo'', validTo)]))),
       (''projectId'', projectId), (''snapshotManifestId'', snapshotManifestId), (''type'', type),
       (''naturalKey'', naturalKey), (''name'', name), (''attributes'', attributes), (''source'', factSource),
       (''extractor'', factExtractor), (''observedAt'', observedAt), (''validFrom'', validFrom), (''validTo'', validTo)])))))))))))))"

definition createFactEdge :: "jsv \<Rightarrow> jsv res" where
  "createFactEdge input =
     bnd (requireNonEmptyString (oget input ''projectId'') ''edge.projectId'') (\<lambda>projectId.
     bnd (requireNonEmptyString (oget input ''snapshotManifestId'') ''edge.snapshotManifestId'') (\<lambda>snapshotManifestId.
     bnd (requireNonEmptyString (oget input ''subjectId'') ''edge.subjectId'') (\<lambda>subjectId.
     bnd (requireNonEmptyString (oget input ''objectId'') ''edge.objectId'') (\<lambda>objectId.
     throw_if (strict_eq subjectId objectId) (TypeErr ''edge subject and object must differ'') (
     bnd (assertEnum FactPredicate (oget input ''predicate'') ''edge.predicate'') (\<lambda>predicate.
     bnd (requireNonEmptyString (oget input ''observedAt'') ''edge.observedAt'') (\<lambda>observedAt.
     bnd (requireIsoTimestamp observedAt ''edge.observedAt'') (\<lambda>_.
     bnd (requireObject (coalesce (oget input ''attributes'') (JObj [])) ''edge.attributes'') (\<lambda>attributes.
     bnd (sourceLocation (oget input ''source'') ''edge.source'') (\<lambda>edgeSource.
     bnd (extractor (oget input ''extractor'')) (\<lambda>edgeExtractor.
     let content = [(''projectId'', projectId), (''snapshotManifestId'', snapshotManifestId), (''subjectId'', subjectId),
       (''predicate'', predicate), (''objectId'', objectId), (''attributes'', attributes), (''source'', edgeSource),
       (''extractor'', edgeExtractor), (''observedAt'', observedAt)]
     in Inr (JObj ((''id'', JStr (contentId ''FACT-EDGE'' (JObj content))) # content)))))))))))))"

subsection \<open>Bundles\<close>

text \<open>
  \<open>{ ...item, projectId, snapshotManifestId, extractor: item.extractor ?? bundleExtractor, observedAt: ... }\<close>;
  reading a member of \<open>null\<close> throws.
\<close>

definition bundle_item :: "jsv \<Rightarrow> jsv \<Rightarrow> jsv \<Rightarrow> jsv \<Rightarrow> jsv \<Rightarrow> jsv res" where
  "bundle_item projectId snapshotManifestId bundleExtractor observedAt item =
     bnd (pget item ''extractor'') (\<lambda>ex.
     bnd (pget item ''observedAt'') (\<lambda>at.
     Inr (JObj (spread (props item)
       [(''projectId'', projectId), (''snapshotManifestId'', snapshotManifestId), (''extractor'', coalesce ex bundleExtractor),
        (''observedAt'', coalesce at observedAt)]))))"

definition by_member :: "(string \<Rightarrow> string \<Rightarrow> int) \<Rightarrow> string \<Rightarrow> jsv list \<Rightarrow> jsv list" where
  "by_member lc k xs = sort_by (\<lambda>l r. lc (str_of (oget l k)) (str_of (oget r k)) < 0) xs"

definition ids_of :: "jsv list \<Rightarrow> jsv list" where
  "ids_of xs = map (\<lambda>x. oget x ''id'') xs"

definition check_edge_ends :: "jsv list \<Rightarrow> jsv \<Rightarrow> unit res" where
  "check_edge_ends nodeIds edge =
     throw_if (\<not> arr_includes nodeIds (oget edge ''subjectId'') \<or> \<not> arr_includes nodeIds (oget edge ''objectId''))
       (TypeErr (''edge '' @ js_string (oget edge ''id'') @ '' references a node outside the bundle'')) (Inr ())"

definition diagnostic_of :: "nat \<Rightarrow> jsv \<Rightarrow> jsv res" where
  "diagnostic_of index item =
     (let f = at_index ''bundle.diagnostics'' index in
      bnd (requireObject item f) (\<lambda>diagnostic.
      throw_if (\<not> one_of [''INFO'', ''WARNING'', ''ERROR''] (oget diagnostic ''severity''))
        (TypeErr (f @ ''.severity must be INFO, WARNING, or ERROR'')) (
      mk_obj
       [(''severity'', Inr (oget diagnostic ''severity'')),
        (''artifact'', requireNonEmptyString (oget diagnostic ''artifact'') (f @ ''.artifact'')),
        (''message'', requireNonEmptyString (oget diagnostic ''message'') (f @ ''.message''))])))"

definition createFactBundle :: "(string \<Rightarrow> string \<Rightarrow> int) \<Rightarrow> jsv \<Rightarrow> jsv res" where
  "createFactBundle lc input =
     bnd (requireNonEmptyString (oget input ''projectId'') ''bundle.projectId'') (\<lambda>projectId.
     bnd (requireNonEmptyString (oget input ''snapshotManifestId'') ''bundle.snapshotManifestId'') (\<lambda>snapshotManifestId.
     bnd (requireNonEmptyString (oget input ''sourceComponentId'') ''bundle.sourceComponentId'') (\<lambda>sourceComponentId.
     bnd (extractor (oget input ''extractor'')) (\<lambda>bundleExtractor.
     bnd (requireNonEmptyString (oget input ''observedAt'') ''bundle.observedAt'') (\<lambda>observedAt.
     bnd (requireIsoTimestamp observedAt ''bundle.observedAt'') (\<lambda>_.
     let givenDiagnostics = coalesce (oget input ''diagnostics'') (JArr []);
         item_of = bundle_item projectId snapshotManifestId bundleExtractor observedAt
     in
     throw_if (\<not> is_array (oget input ''nodes'') \<or> \<not> is_array (oget input ''edges'') \<or> \<not> is_array givenDiagnostics)
       (TypeErr ''bundle nodes, edges, and diagnostics must be arrays'') (
     bnd (mapR (\<lambda>node. bnd (item_of node) createFactNode) (elems (oget input ''nodes''))) (\<lambda>created.
     let nodes = by_member lc ''factId'' created; nodeIds = js_value_set (ids_of nodes) in
     throw_if (length nodeIds \<noteq> length nodes) (TypeErr ''bundle node ids must be unique'') (
     bnd (mapR (\<lambda>edge. bnd (item_of edge) createFactEdge) (elems (oget input ''edges''))) (\<lambda>createdEdges.
     let edges = by_member lc ''id'' createdEdges in
     throw_if (length (js_value_set (ids_of edges)) \<noteq> length edges) (TypeErr ''bundle edge ids must be unique'') (
     bnd (eachR (check_edge_ends nodeIds) edges) (\<lambda>_.
     bnd (mapiR diagnostic_of 0 (elems givenDiagnostics)) (\<lambda>diagnostics.
     bnd (requireNonEmptyString (oget input ''sourceDigest'') ''bundle.sourceDigest'') (\<lambda>sourceDigest.
     throw_if (\<not> is_sha256_digest (str_of sourceDigest)) (TypeErr ''bundle.sourceDigest must be a SHA-256 digest'') (
     let complete = (oget input ''complete'' = JBool True \<and>
           \<not> list_ex (\<lambda>item. oget item ''severity'' = JStr ''ERROR'') diagnostics);
         identity = [(''projectId'', projectId), (''snapshotManifestId'', snapshotManifestId),
           (''sourceComponentId'', sourceComponentId), (''sourceDigest'', sourceDigest), (''extractor'', bundleExtractor),
           (''observedAt'', observedAt)]
     in Inr (JObj
       ((''id'', JStr (contentId ''FACT-BUNDLE'' (JObj (identity @
            [(''nodeFactIds'', JArr (js_sort (map (\<lambda>node. oget node ''factId'') nodes))),
             (''edgeIds'', JArr (js_sort (ids_of edges)))])))) #
        identity @
        [(''complete'', JBool complete), (''diagnostics'', JArr diagnostics), (''nodes'', JArr nodes),
         (''edges'', JArr edges)])))))))))))))))))"

subsection \<open>Attestation\<close>

definition factBundleSigningPayload :: "jsv \<Rightarrow> string" where
  "factBundleSigningPayload bundle = canonical_text (JObj [(''kind'', JStr ''FACT_BUNDLE''), (''bundle'', bundle)])"

definition signFactBundle :: "jsv \<Rightarrow> string \<Rightarrow> jsv res" where
  "signFactBundle bundle secret =
     bnd (requireNonEmptyString (JStr secret) ''scanner secret'') (\<lambda>_.
     bnd (pget bundle ''extractor'') (\<lambda>ex.
     bnd (pget ex ''id'') (\<lambda>extractorId.
     Inr (JObj (spread (props bundle)
       [(''attestation'', JObj [(''algorithm'', JStr ''HMAC-SHA256''), (''extractorId'', extractorId),
           (''signature'', JStr (hmac_sha256_hex secret (factBundleSigningPayload bundle)))])])))))"

definition unsigned :: "jsv \<Rightarrow> jsv" where
  "unsigned bundle = JObj (without [''attestation''] (props bundle))"

definition verifyFactBundleAttestation :: "jsv \<Rightarrow> jsv \<Rightarrow> bool" where
  "verifyFactBundleAttestation bundle secret =
     (let attestation = oget bundle ''attestation''; signature = oget attestation ''signature'' in
      is_string secret \<and> str_of secret \<noteq> [] \<and>
      oget attestation ''algorithm'' = JStr ''HMAC-SHA256'' \<and>
      strict_eq (oget attestation ''extractorId'') (oget (oget bundle ''extractor'') ''id'') \<and>
      is_string signature \<and> is_hex 64 (str_of signature) \<and>
      hmac_sha256_hex (str_of secret) (factBundleSigningPayload (unsigned bundle)) = str_of signature)"

subsection \<open>What a created bundle guarantees\<close>

lemma createFactNode_members:
  assumes "createFactNode input = Inr n"
  shows "oget n ''projectId'' = oget input ''projectId'' \<and> oget n ''snapshotManifestId'' = oget input ''snapshotManifestId'' \<and>
    is_string (oget n ''id'') \<and> oget n ''id'' = fact_node_id (oget n ''projectId'') (oget n ''type'') (oget n ''naturalKey'')"
proof -
  have st: "i = fact_node_id p t k" if "stableFactNodeId p t k = Inr i" for p t k i
    using that by (auto simp: stableFactNodeId_def bnd_eq_Inr requireNonEmptyString_Inr assertEnum_Inr)
  have id: "w = v" if "requireNonEmptyString v f = Inr w" for v f w
    using that by (auto simp: requireNonEmptyString_Inr)
  from assms obtain p m ty k at i rest where
    r: "requireNonEmptyString (oget input ''projectId'') ''fact.projectId'' = Inr p"
      "requireNonEmptyString (oget input ''snapshotManifestId'') ''fact.snapshotManifestId'' = Inr m"
      "stableFactNodeId p ty k = Inr i"
    and n: "n = JObj ((''id'', i) # (''factId'', at) # (''projectId'', p) # (''snapshotManifestId'', m) # (''type'', ty) #
       (''naturalKey'', k) # rest)"
    unfolding createFactNode_def
    apply (simp only: bnd_eq_Inr split_paired_Ex prod.case sum.inject)
    apply (elim exE conjE)
    apply (rule that)
       apply assumption
      apply assumption
     apply assumption
    apply (erule sym)
    done
  show ?thesis using id [OF r(1)] id [OF r(2)] st [OF r(3)] by (simp add: n fact_node_id_def)
qed

lemma createFactEdge_members:
  assumes "createFactEdge input = Inr e"
  shows "oget e ''projectId'' = oget input ''projectId'' \<and> oget e ''snapshotManifestId'' = oget input ''snapshotManifestId'' \<and>
    is_string (oget e ''id'') \<and> is_string (oget e ''subjectId'') \<and> is_string (oget e ''objectId'') \<and>
    oget e ''subjectId'' \<noteq> oget e ''objectId''"
proof -
  have id: "w = v \<and> is_string w" if "requireNonEmptyString v f = Inr w" for v f w
    using that by (auto simp: requireNonEmptyString_Inr)
  from assms obtain p m a b pr at rest where
    r: "requireNonEmptyString (oget input ''projectId'') ''edge.projectId'' = Inr p"
      "requireNonEmptyString (oget input ''snapshotManifestId'') ''edge.snapshotManifestId'' = Inr m"
      "requireNonEmptyString (oget input ''subjectId'') ''edge.subjectId'' = Inr a"
      "requireNonEmptyString (oget input ''objectId'') ''edge.objectId'' = Inr b" "\<not> strict_eq a b"
    and e: "e = JObj ((''id'', JStr at) # (''projectId'', p) # (''snapshotManifestId'', m) # (''subjectId'', a) #
       (''predicate'', pr) # (''objectId'', b) # rest)"
    unfolding createFactEdge_def Let_def
    apply (simp only: bnd_eq_Inr throw_if_eq_Inr sum.inject)
    apply (elim exE conjE)
    apply (rule that)
         apply assumption
        apply assumption
       apply assumption
      apply assumption
     apply assumption
    apply (erule sym)
    done
  have "a \<noteq> b" using r(5) id [OF r(3)] by (auto simp: is_string_iff)
  with id [OF r(1)] id [OF r(2)] id [OF r(3)] id [OF r(4)] show ?thesis by (auto simp: e)
qed

definition closed_bundle :: "jsv \<Rightarrow> bool" where
  "closed_bundle b \<longleftrightarrow>
     (let nodes = elems (oget b ''nodes''); edges = elems (oget b ''edges'') in
      distinct (ids_of nodes) \<and> distinct (ids_of edges) \<and>
      (\<forall>n\<in>set nodes. oget n ''projectId'' = oget b ''projectId'' \<and> oget n ''snapshotManifestId'' = oget b ''snapshotManifestId'' \<and>
         oget n ''id'' = fact_node_id (oget n ''projectId'') (oget n ''type'') (oget n ''naturalKey'')) \<and>
      (\<forall>e\<in>set edges. oget e ''projectId'' = oget b ''projectId'' \<and> oget e ''snapshotManifestId'' = oget b ''snapshotManifestId'' \<and>
         oget e ''subjectId'' \<in> set (ids_of nodes) \<and> oget e ''objectId'' \<in> set (ids_of nodes) \<and>
         oget e ''subjectId'' \<noteq> oget e ''objectId'') \<and>
      (oget b ''complete'' = JBool True \<longrightarrow>
         (\<forall>d\<in>set (elems (oget b ''diagnostics'')). oget d ''severity'' \<noteq> JStr ''ERROR'')))"

lemma set_by_member [simp]: "set (by_member lc k xs) = set xs"
  by (simp add: by_member_def)

lemma bundle_item_Inr:
  "bundle_item p m x at item = Inr v \<Longrightarrow> oget v ''projectId'' = p \<and> oget v ''snapshotManifestId'' = m"
  by (auto simp: bundle_item_def bnd_eq_Inr map_of_spread)

lemma unique_ids:
  assumes "list_all (\<lambda>x. is_string (oget x ''id'')) xs" and "length (js_value_set (ids_of xs)) = length xs"
  shows "distinct (ids_of xs)" and "set (js_value_set (ids_of xs)) = set (ids_of xs)"
proof -
  have "js_value_set (ids_of xs) = js_set (ids_of xs)"
    using assms(1) by (intro js_value_set_strs) (simp add: ids_of_def list_all_iff)
  with assms(2) show "distinct (ids_of xs)" "set (js_value_set (ids_of xs)) = set (ids_of xs)"
    using length_js_set_iff [of "ids_of xs"] by (simp_all add: ids_of_def)
qed

lemma createFactBundle_run:
  assumes "createFactBundle lc input = Inr b"
  obtains p m c x at created createdEdges ds i sd u where
    "mapR (\<lambda>node. bnd (bundle_item p m x at node) createFactNode) (elems (oget input ''nodes'')) = Inr created"
    "length (js_value_set (ids_of (by_member lc ''factId'' created))) = length (by_member lc ''factId'' created)"
    "mapR (\<lambda>edge. bnd (bundle_item p m x at edge) createFactEdge) (elems (oget input ''edges'')) = Inr createdEdges"
    "length (js_value_set (ids_of (by_member lc ''id'' createdEdges))) = length (by_member lc ''id'' createdEdges)"
    "eachR (check_edge_ends (js_value_set (ids_of (by_member lc ''factId'' created)))) (by_member lc ''id'' createdEdges) = Inr u"
    "extractor (oget input ''extractor'') = Inr x"
    "b = JObj ((''id'', JStr i) # [(''projectId'', p), (''snapshotManifestId'', m), (''sourceComponentId'', c),
       (''sourceDigest'', sd), (''extractor'', x), (''observedAt'', at)] @
       [(''complete'', JBool (oget input ''complete'' = JBool True \<and>
           \<not> list_ex (\<lambda>item. oget item ''severity'' = JStr ''ERROR'') ds)),
        (''diagnostics'', JArr ds), (''nodes'', JArr (by_member lc ''factId'' created)),
        (''edges'', JArr (by_member lc ''id'' createdEdges))])"
  using assms unfolding createFactBundle_def Let_def
  apply (simp only: bnd_eq_Inr throw_if_eq_Inr sum.inject not_not)
  apply (elim exE conjE)
  apply (rule that)
        apply assumption
       apply assumption
      apply assumption
     apply assumption
    apply assumption
   apply assumption
  apply (erule sym)
  done

lemma bundle_closed:
  assumes "createFactBundle lc input = Inr b"
  shows "closed_bundle b"
  using assms
proof (rule createFactBundle_run, goal_cases)
  case (1 p m c x at created createdEdges ds i sd u)
  let ?ns = "by_member lc ''factId'' created" and ?es = "by_member lc ''id'' createdEdges"
  have mem: "oget b ''projectId'' = p" "oget b ''snapshotManifestId'' = m" "oget b ''nodes'' = JArr ?ns"
    "oget b ''edges'' = JArr ?es" "oget b ''diagnostics'' = JArr ds"
    "oget b ''complete'' = JBool True \<longrightarrow> \<not> list_ex (\<lambda>item. oget item ''severity'' = JStr ''ERROR'') ds"
    by (simp_all add: 1(7))
  have n: "oget n ''projectId'' = p \<and> oget n ''snapshotManifestId'' = m \<and> is_string (oget n ''id'') \<and>
      oget n ''id'' = fact_node_id (oget n ''projectId'') (oget n ''type'') (oget n ''naturalKey'')" if "n \<in> set ?ns" for n
  proof -
    from that have "n \<in> set created" by simp
    from mapR_in_set [OF 1(1) this] obtain node v where v: "bundle_item p m x at node = Inr v" "createFactNode v = Inr n"
      by (auto simp: bnd_eq_Inr)
    from createFactNode_members [OF v(2), unfolded bundle_item_Inr [OF v(1), THEN conjunct1] bundle_item_Inr [OF v(1), THEN conjunct2]]
    show ?thesis .
  qed
  have e: "oget e ''projectId'' = p \<and> oget e ''snapshotManifestId'' = m \<and> is_string (oget e ''id'') \<and>
      is_string (oget e ''subjectId'') \<and> is_string (oget e ''objectId'') \<and> oget e ''subjectId'' \<noteq> oget e ''objectId''"
    if "e \<in> set ?es" for e
  proof -
    from that have "e \<in> set createdEdges" by simp
    from mapR_in_set [OF 1(3) this] obtain edge v where v: "bundle_item p m x at edge = Inr v" "createFactEdge v = Inr e"
      by (auto simp: bnd_eq_Inr)
    from createFactEdge_members [OF v(2), unfolded bundle_item_Inr [OF v(1), THEN conjunct1] bundle_item_Inr [OF v(1), THEN conjunct2]]
    show ?thesis .
  qed
  have "list_all (\<lambda>x. is_string (oget x ''id'')) ?ns"
    unfolding list_all_iff by (rule ballI, erule n [THEN conjunct2, THEN conjunct2, THEN conjunct1])
  moreover have "list_all (\<lambda>x. is_string (oget x ''id'')) ?es"
    unfolding list_all_iff by (rule ballI, erule e [THEN conjunct2, THEN conjunct2, THEN conjunct1])
  ultimately have
    uniq: "distinct (ids_of ?ns)" "set (js_value_set (ids_of ?ns)) = set (ids_of ?ns)" "distinct (ids_of ?es)"
    using unique_ids [OF _ 1(2)] unique_ids(1) [OF _ 1(4)] by iprover+
  have ends: "oget f ''subjectId'' \<in> set (ids_of ?ns) \<and> oget f ''objectId'' \<in> set (ids_of ?ns)" if "f \<in> set ?es" for f
  proof -
    have "check_edge_ends (js_value_set (ids_of ?ns)) f = Inr ()" using 1(5) that by (simp add: eachR_Inr)
    then have "arr_includes (js_value_set (ids_of ?ns)) (oget f ''subjectId'')"
      "arr_includes (js_value_set (ids_of ?ns)) (oget f ''objectId'')"
      by (simp_all add: check_edge_ends_def throw_if_eq_Inr)
    then have "oget f ''subjectId'' \<in> set (js_value_set (ids_of ?ns))" "oget f ''objectId'' \<in> set (js_value_set (ids_of ?ns))"
      by (auto simp only: arr_includes_def list_ex_iff dest: strict_eqD)
    then show ?thesis unfolding uniq(2) by (rule conjI)
  qed
  show ?case
    unfolding closed_bundle_def Let_def mem(1-5) elems.simps
    using uniq(1,3) n e ends mem(6) by (simp only: list_ex_iff) blast
qed

lemma signed_fact_bundle_verifies:
  assumes "signFactBundle bundle secret = Inr attested" and "oget bundle ''attestation'' = JUndef"
    and "bundle = JObj fs" and "\<not> is_object (oget (oget bundle ''extractor'') ''id'')" and "secret \<noteq> []"
    and "''attestation'' \<notin> fst ` set fs"
  shows "verifyFactBundleAttestation attested (JStr secret)"
proof -
  let ?sig = "hmac_sha256_hex secret (factBundleSigningPayload bundle)"
  let ?att = "JObj [(''algorithm'', JStr ''HMAC-SHA256''), (''extractorId'', oget (oget bundle ''extractor'') ''id''),
           (''signature'', JStr ?sig)]"
  have s: "attested = JObj (spread fs [(''attestation'', ?att)])"
    using assms(1,3) by (auto simp: signFactBundle_def bnd_eq_Inr pget_Inr)
  have "map_of fs ''attestation'' = None" using assms(6) by (simp add: map_of_eq_None_iff)
  then have fresh: "spread fs [(''attestation'', ?att)] = fs @ [(''attestation'', ?att)]"
    by (simp add: spread_def) (induction fs, auto split: if_splits)
  have "without [''attestation''] (fs @ [(''attestation'', ?att)]) = fs"
    using assms(6) by (force simp: without_def filter_id_conv)
  then have u: "unsigned attested = bundle" unfolding unsigned_def s fresh props.simps by (simp only: assms(3))
  have m: "oget attested ''attestation'' = ?att" "oget attested ''extractor'' = oget bundle ''extractor''"
    using assms(6) by (simp_all add: s assms(3) map_of_spread map_add_def)
  have sig: "is_hex 64 ?sig" by (rule hmac_is_hex)
  show ?thesis
    unfolding verifyFactBundleAttestation_def Let_def m u using sig assms(4,5) by (simp add: strict_eq_def)
qed

text \<open>
  A created fact bundle is closed: the identifiers of its nodes and edges are distinct, every
  node and edge belongs to the bundle's project and manifest, every node is named after its project,
  type and natural key, every edge joins two different nodes of the bundle, and a bundle marked
  complete has no error among its diagnostics.
\<close>
theorem created_fact_bundle_is_closed:
  assumes "createFactBundle lc input = Inr b"
  shows "closed_bundle b"
  using assms by (rule bundle_closed)

definition fact_digest :: string where
  "fact_digest = ''sha256:'' @ replicate 64 (CHR ''a'')"

definition fact_node :: jsv where
  "fact_node = JObj [(''type'', JStr ''DATA_OBJECT''), (''naturalKey'', JStr ''orders''), (''name'', JStr ''Orders''),
        (''source'', JObj [(''artifact'', JStr ''db.sql''), (''startLine'', JNum 1), (''endLine'', JNum 4),
           (''contentHash'', JStr fact_digest)])]"

definition sample_facts_input :: jsv where
  "sample_facts_input =
     JObj [(''projectId'', JStr ''p''), (''snapshotManifestId'', JStr ''m''), (''sourceComponentId'', JStr ''c''),
        (''sourceDigest'', JStr fact_digest),
        (''extractor'', JObj [(''id'', JStr ''x''), (''version'', JStr ''1'')]),
        (''observedAt'', JStr ''2024-02-29T00:00:00Z''), (''complete'', JBool True),
        (''nodes'', JArr [fact_node]), (''edges'', JArr [])]"

lemma sample_facts_parts:
  "requireIsoTimestamp (JStr ''2024-02-29T00:00:00Z'') f = Inr 1709164800000"
  "is_sha256_digest fact_digest" "js_trim fact_digest \<noteq> []"
  "js_trim ''p'' \<noteq> []" "js_trim ''m'' \<noteq> []" "js_trim ''c'' \<noteq> []" "js_trim ''x'' \<noteq> []" "js_trim ''1'' \<noteq> []"
  "js_trim ''orders'' \<noteq> []" "js_trim ''Orders'' \<noteq> []" "js_trim ''db.sql'' \<noteq> []"
  "js_trim ''2024-02-29T00:00:00Z'' \<noteq> []"
  "assertEnum FactNodeType (JStr ''DATA_OBJECT'') f = Inr (JStr ''DATA_OBJECT'')"
  "requirePositiveInteger (JNum 1) f = Inr (JNum 1)" "requirePositiveInteger (JNum 4) f = Inr (JNum 4)"
  by code_simp+

lemmas fact_run = requireNonEmptyString_def extractor_def sourceLocation_def requireObject_def fact_validity_def
  bundle_item_def stableFactNodeId_def mk_obj_def pget_def sample_facts_parts

definition fact_extractor :: jsv where
  "fact_extractor = JObj [(''id'', JStr ''x''), (''version'', JStr ''1'')]"

lemma sample_node_created:
  "\<exists>n. bnd (bundle_item (JStr ''p'') (JStr ''m'') fact_extractor (JStr ''2024-02-29T00:00:00Z'') fact_node) createFactNode = Inr n"
  by (simp add: createFactNode_def fact_node_def fact_extractor_def fact_run Let_def map_of_spread)

lemma sample_facts_members:
  "oget sample_facts_input ''projectId'' = JStr ''p''" "oget sample_facts_input ''snapshotManifestId'' = JStr ''m''"
  "oget sample_facts_input ''sourceComponentId'' = JStr ''c''" "oget sample_facts_input ''sourceDigest'' = JStr fact_digest"
  "oget sample_facts_input ''observedAt'' = JStr ''2024-02-29T00:00:00Z''"
  "extractor (oget sample_facts_input ''extractor'') = Inr fact_extractor"
  "oget sample_facts_input ''nodes'' = JArr [fact_node]" "oget sample_facts_input ''edges'' = JArr []"
  "oget sample_facts_input ''diagnostics'' = JUndef"
  by (simp_all add: sample_facts_input_def fact_extractor_def fact_run)

lemma sample_facts_created: "\<exists>b. createFactBundle lc sample_facts_input = Inr b"
proof -
  obtain n where n: "bnd (bundle_item (JStr ''p'') (JStr ''m'') fact_extractor (JStr ''2024-02-29T00:00:00Z'') fact_node)
      createFactNode = Inr n" using sample_node_created by blast
  have one: "by_member lc k [v] = [v]" "length (js_value_set (ids_of [v])) = 1" "by_member lc k [] = []" "js_value_set [] = []"
    for k v by (simp_all add: by_member_def ids_of_def)
  show ?thesis
    unfolding createFactBundle_def sample_facts_members Let_def
    by (simp add: requireNonEmptyString_def sample_facts_parts n one ids_of_def [of "[]"])
qed

theorem created_fact_bundle_is_closed_witness:
  "\<exists>b. createFactBundle (\<lambda>_ _. 0) sample_facts_input = Inr b \<and> closed_bundle b"
  using sample_facts_created [of "\<lambda>_ _. 0"] created_fact_bundle_is_closed by blast

end
