(* ===== verification/Fact_Queries.thy ===== *)
theory Fact_Queries
  imports Project_Parts Facts
begin

section \<open>Querying the facts of a project\<close>

text \<open>
  \<open>queryFacts\<close> of the application (\<open>src/application/traceability-application.js\<close>) and of the store
  (\<open>src/storage/memory-traceability-store.js\<close>): the latest bundle of each source and extractor, the
  nodes that match, cut at the limit, and the edges around them with their end points. Shown: the
  answer is bounded by the limits and is a graph, that is, every edge comes with both its ends.
\<close>

record fact_filters =
  ff_snapshotManifestId :: jsv
  ff_types :: "jsv list"
  ff_predicates :: "jsv list"
  ff_query :: "string option"
  ff_limit :: nat

record fact_view =
  fv_bundles :: "jsv list"
  fv_matchedNodeIds :: "jsv list"
  fv_nodes :: "jsv list"
  fv_edges :: "jsv list"
  fv_truncated :: bool
  fv_edgesTruncated :: bool

text \<open>The latest bundle per manifest, source component and extractor: the first after sorting.\<close>

definition bundle_identity :: "jsv \<Rightarrow> string" where
  "bundle_identity b = js_string (oget b ''snapshotManifestId'') @ nul @ js_string (oget b ''sourceComponentId'') @ nul
     @ js_string (oget (oget b ''extractor'') ''id'')"

definition keep_first :: "(string \<times> jsv) list \<Rightarrow> jsv \<Rightarrow> (string \<times> jsv) list" where
  "keep_first m b = (if map_of m (bundle_identity b) = None then m @ [(bundle_identity b, b)] else m)"

definition latest_bundles :: "string \<Rightarrow> jsv \<Rightarrow> store \<Rightarrow> jsv list" where
  "latest_bundles projectId snapshotManifestId s =
     map snd (foldl keep_first []
       (sort_by (\<lambda>l r. time_less (js_date_parse (oget r ''observedAt'')) (js_date_parse (oget l ''observedAt'')))
         (filter (\<lambda>b. \<not> truthy snapshotManifestId \<or> strict_eq (oget b ''snapshotManifestId'') snapshotManifestId)
           (project_values projectId (st_factBundles s)))))"

text \<open>\<open>bundles.flatMap((bundle) => bundle[k].map((item) => ({ ...item, bundleId: bundle.id })))\<close>\<close>

definition tagged :: "string \<Rightarrow> jsv list \<Rightarrow> jsv list" where
  "tagged k bundles = concat (map (\<lambda>b. map (\<lambda>item. JObj (spread (props item) [(''bundleId'', oget b ''id'')]))
     (elems (oget b k))) bundles)"

definition graph_key :: "jsv \<Rightarrow> string \<Rightarrow> string" where
  "graph_key item k = js_string (oget item ''bundleId'') @ nul @ js_string (oget item k)"

definition node_matches :: "fact_filters \<Rightarrow> jsv \<Rightarrow> bool" where
  "node_matches f node \<longleftrightarrow>
     (ff_types f = [] \<or> arr_includes (ff_types f) (oget node ''type'')) \<and>
     (case ff_query f of None \<Rightarrow> True | Some q \<Rightarrow>
        let query = to_lower q in query = [] \<or>
        includes_str query (to_lower (str_of (oget node ''name''))) \<or>
        includes_str query (to_lower (str_of (oget node ''naturalKey''))) \<or>
        includes_str query (to_lower (str_of (oget (oget node ''source'') ''artifact''))))"

definition bundle_summary :: "jsv \<Rightarrow> jsv" where
  "bundle_summary b = JObj (map (\<lambda>k. (k, oget b k))
     [''id'', ''snapshotManifestId'', ''sourceComponentId'', ''sourceDigest'', ''extractor'', ''observedAt'', ''complete'',
      ''diagnostics'', ''attestation''])"

definition queryFacts :: "(string \<Rightarrow> string \<Rightarrow> int) \<Rightarrow> string \<Rightarrow> fact_filters \<Rightarrow> store \<Rightarrow> fact_view" where
  "queryFacts lc projectId filters s =
     (let bundles = latest_bundles projectId (ff_snapshotManifestId filters) s;
          allNodes = tagged ''nodes'' bundles;
          matching = by_member lc ''naturalKey'' (filter (node_matches filters) allNodes);
          limit = ff_limit filters;
          matchedNodes = take limit matching;
          matchedKeys = map (\<lambda>n. graph_key n ''id'') matchedNodes;
          edgeLimit = min (limit * 8) 4000;
          matchingEdges = filter (\<lambda>e. graph_key e ''subjectId'' \<in> set matchedKeys \<or> graph_key e ''objectId'' \<in> set matchedKeys)
            (filter (\<lambda>e. ff_predicates filters = [] \<or> arr_includes (ff_predicates filters) (oget e ''predicate''))
              (tagged ''edges'' bundles));
          edges = take edgeLimit matchingEdges;
          graphKeys = matchedKeys @ concat (map (\<lambda>e. [graph_key e ''subjectId'', graph_key e ''objectId'']) edges);
          nodes = filter (\<lambda>n. graph_key n ''id'' \<in> set graphKeys) allNodes
      in \<lparr>fv_bundles = map bundle_summary bundles, fv_matchedNodeIds = ids_of matchedNodes, fv_nodes = nodes,
          fv_edges = edges, fv_truncated = (length matching > limit),
          fv_edgesTruncated = (length matchingEdges > edgeLimit)\<rparr>)"

text \<open>\<open>[...new Set((values ?? []).map((v) => assertEnum(...)))]\<close>\<close>

definition enum_filter :: "string list \<Rightarrow> jsv \<Rightarrow> string \<Rightarrow> jsv list res" where
  "enum_filter enum values name =
     bnd (array_elems (coalesce values (JArr []))) (\<lambda>vs.
     bnd (mapR (\<lambda>v. assertEnum enum v name) vs) (\<lambda>vs. Inr (js_value_set vs)))"

text \<open>\<open>filters.query?.trim() || null\<close>, at most 256 characters.\<close>

definition query_filter :: "jsv \<Rightarrow> string option res" where
  "query_filter query =
     (if nullish query then Inr None
      else if \<not> is_string query then Inl (NativeErr ''filters.query?.trim is not a function'')
      else let q = js_trim (str_of query) in
           if q = [] then Inr None
           else throw_if (length q > 256) (RangeErr ''query must not exceed 256 characters'') (Inr (Some q)))"

definition limit_filter :: "jsv \<Rightarrow> nat res" where
  "limit_filter limit =
     (case coalesce limit (JNum 100) of
        JNum i \<Rightarrow> throw_if (i < 1 \<or> i > 500) (RangeErr ''limit must be an integer between 1 and 500'') (Inr (nat i))
      | _ \<Rightarrow> Inl (RangeErr ''limit must be an integer between 1 and 500''))"

definition app_queryFacts :: "(string \<Rightarrow> string \<Rightarrow> int) \<Rightarrow> string \<Rightarrow> jsv \<Rightarrow> store \<Rightarrow> fact_view res" where
  "app_queryFacts lc projectId filters s =
     bnd (requireId (JStr projectId) ''projectId'') (\<lambda>_.
     bnd (pget filters ''types'') (\<lambda>types.
     bnd (enum_filter FactNodeType types ''type'') (\<lambda>types.
     bnd (enum_filter FactPredicate (oget filters ''predicates'') ''predicate'') (\<lambda>predicates.
     bnd (limit_filter (oget filters ''limit'')) (\<lambda>limit.
     bnd (query_filter (oget filters ''query'')) (\<lambda>query.
     let snapshotManifestId = coalesce (oget filters ''snapshotManifestId'') JNull in
     bnd (if snapshotManifestId \<noteq> JNull then requireId snapshotManifestId ''snapshotManifestId'' else Inr JNull) (\<lambda>_.
     Inr (queryFacts lc projectId \<lparr>ff_snapshotManifestId = snapshotManifestId, ff_types = types,
       ff_predicates = predicates, ff_query = query, ff_limit = limit\<rparr> s))))))))"

subsection \<open>The answer is a bounded graph\<close>

lemma keep_first_values: "set (map snd (foldl keep_first m bs)) \<subseteq> set (map snd m) \<union> set bs"
proof (induction bs arbitrary: m)
  case (Cons b bs)
  have "set (map snd (keep_first m b)) \<subseteq> insert b (set (map snd m))" by (auto simp: keep_first_def)
  with Cons.IH [of "keep_first m b"] show ?case by auto
qed simp

lemma latest_bundles_stored: "b \<in> set (latest_bundles p m s) \<Longrightarrow> b \<in> set (project_values p (st_factBundles s))"
  using keep_first_values [of "[]"] unfolding latest_bundles_def by fastforce

lemma tagged_member:
  "v \<in> set (tagged k bs) \<longleftrightarrow>
   (\<exists>b\<in>set bs. \<exists>item\<in>set (elems (oget b k)). v = JObj (spread (props item) [(''bundleId'', oget b ''id'')]))"
  by (auto simp: tagged_def)

lemma tagged_gets:
  "k \<noteq> ''bundleId'' \<Longrightarrow> oget (JObj (spread (props item) [(''bundleId'', i)])) k = oget (JObj (props item)) k"
  "oget (JObj (spread (props item) [(''bundleId'', i)])) ''bundleId'' = i"
  by (simp_all add: map_of_spread map_add_def)

text \<open>Every end of a tagged edge is among the tagged nodes, under the same bundle.\<close>

lemma closed_end:
  assumes closed: "closed_bundle b" and e: "e \<in> set (elems (oget b ''edges''))" and k: "k = ''subjectId'' \<or> k = ''objectId''"
    and objs: "list_all is_plain_object (elems (oget b ''nodes''))" "is_plain_object e"
  shows "\<exists>n\<in>set (elems (oget b ''nodes'')). oget (JObj (props n)) ''id'' = oget (JObj (props e)) k"
proof -
  from closed e have "oget e ''subjectId'' \<in> set (ids_of (elems (oget b ''nodes'')))"
    "oget e ''objectId'' \<in> set (ids_of (elems (oget b ''nodes'')))" unfolding closed_bundle_def Let_def by blast+
  with k have "oget e k \<in> set (ids_of (elems (oget b ''nodes'')))" by (elim disjE) simp_all
  then obtain n where n: "n \<in> set (elems (oget b ''nodes''))" "oget n ''id'' = oget e k" by (auto simp: ids_of_def)
  have obj: "JObj (props v) = v" if "is_plain_object v" for v using that by (auto simp: is_plain_object_iff)
  have "is_plain_object n" using objs(1) n(1) by (simp add: list_all_iff)
  from obj [OF this] obj [OF objs(2)] n show ?thesis by metis
qed

definition plain_items :: "jsv \<Rightarrow> bool" where
  "plain_items b \<longleftrightarrow> list_all is_plain_object (elems (oget b ''nodes'')) \<and> list_all is_plain_object (elems (oget b ''edges''))"

lemma edge_ends_tagged:
  assumes b: "\<forall>b\<in>set bs. closed_bundle b \<and> plain_items b" and e: "e \<in> set (tagged ''edges'' bs)"
    and k: "k = ''subjectId'' \<or> k = ''objectId''"
  shows "\<exists>n\<in>set (tagged ''nodes'' bs). oget n ''bundleId'' = oget e ''bundleId'' \<and> oget n ''id'' = oget e k"
proof -
  from e obtain b item where *: "b \<in> set bs" "item \<in> set (elems (oget b ''edges''))"
    "e = JObj (spread (props item) [(''bundleId'', oget b ''id'')])" by (auto simp only: tagged_member)
  with b have c: "closed_bundle b" "plain_items b" by simp_all
  then have "list_all is_plain_object (elems (oget b ''nodes''))" "is_plain_object item"
    using *(2) by (auto simp: plain_items_def list_all_iff)
  from closed_end [OF c(1) *(2) k this] obtain n where n: "n \<in> set (elems (oget b ''nodes''))"
    "oget (JObj (props n)) ''id'' = oget (JObj (props item)) k" by blast
  let ?n = "JObj (spread (props n) [(''bundleId'', oget b ''id'')])"
  have kb: "k \<noteq> ''bundleId''" "''id'' \<noteq> ''bundleId''" using k by auto
  have "?n \<in> set (tagged ''nodes'' bs)" using *(1) n(1) by (auto simp only: tagged_member)
  moreover have "oget ?n ''bundleId'' = oget e ''bundleId'' \<and> oget ?n ''id'' = oget e k"
    unfolding *(3) tagged_gets(2) tagged_gets(1) [OF kb(1)] tagged_gets(1) [OF kb(2)] using n(2) by simp
  ultimately show ?thesis by blast
qed

lemma latest_bundles_all:
  "\<forall>b\<in>set (project_values p (st_factBundles s)). P b \<Longrightarrow> \<forall>b\<in>set (latest_bundles p m s). P b"
  using latest_bundles_stored by blast

lemma query_bounded:
  "length (fv_matchedNodeIds (queryFacts lc p f s)) \<le> ff_limit f"
  "length (fv_edges (queryFacts lc p f s)) \<le> min (ff_limit f * 8) 4000"
  by (simp_all only: queryFacts_def Let_def fact_view.simps ids_of_def length_map length_take min.cobounded2)

lemma query_matched: "set (fv_matchedNodeIds (queryFacts lc p f s)) \<subseteq> set (ids_of (fv_nodes (queryFacts lc p f s)))"
proof -
  let ?all = "tagged ''nodes'' (latest_bundles p (ff_snapshotManifestId f) s)"
  let ?m = "take (ff_limit f) (by_member lc ''naturalKey'' (filter (node_matches f) ?all))"
  have "set ?m \<subseteq> set ?all" by (rule subset_trans [OF set_take_subset]) simp
  then show ?thesis
    unfolding queryFacts_def Let_def fact_view.simps ids_of_def set_map set_filter set_append by blast
qed

lemma query_edge_ends:
  assumes b: "\<forall>b\<in>set (project_values p (st_factBundles s)). closed_bundle b \<and> plain_items b"
    and e: "e \<in> set (fv_edges (queryFacts lc p f s))" and k: "k = ''subjectId'' \<or> k = ''objectId''"
  shows "\<exists>n\<in>set (fv_nodes (queryFacts lc p f s)). oget n ''bundleId'' = oget e ''bundleId'' \<and> oget n ''id'' = oget e k"
proof -
  let ?bs = "latest_bundles p (ff_snapshotManifestId f) s"
  have tagged: "e \<in> set (tagged ''edges'' ?bs)"
    using e unfolding queryFacts_def Let_def fact_view.simps by (auto dest!: in_set_takeD)
  from edge_ends_tagged [OF latest_bundles_all [OF b] this k] obtain n where
    n: "n \<in> set (tagged ''nodes'' ?bs)" "oget n ''bundleId'' = oget e ''bundleId''" "oget n ''id'' = oget e k"
    by (elim bexE conjE)
  have "graph_key n ''id'' = graph_key e k" using n(2,3) by (simp add: graph_key_def)
  moreover have "graph_key e k \<in> set [graph_key e ''subjectId'', graph_key e ''objectId'']" using k by (elim disjE) simp_all
  ultimately have "graph_key n ''id'' \<in> (\<Union>e\<in>set (fv_edges (queryFacts lc p f s)).
      set [graph_key e ''subjectId'', graph_key e ''objectId''])"
    using e by (simp only: UN_iff) (rule bexI)
  then have "n \<in> set (fv_nodes (queryFacts lc p f s))"
    unfolding queryFacts_def Let_def fact_view.simps set_filter set_append set_concat set_map
    using n(1) by (simp only: mem_Collect_eq Un_iff UN_simps simp_thms)
  with n(2,3) show ?thesis by (intro bexI conjI)
qed

lemma limit_filter_bound: "limit_filter v = Inr l \<Longrightarrow> 1 \<le> l \<and> l \<le> 500"
  by (auto simp: limit_filter_def throw_if_eq_Inr split: jsv.splits)

lemma app_queryFacts_run:
  assumes "app_queryFacts lc p filters s = Inr v"
  obtains l m ts ps q where "limit_filter (oget filters ''limit'') = Inr l"
    "v = queryFacts lc p \<lparr>ff_snapshotManifestId = m, ff_types = ts, ff_predicates = ps, ff_query = q, ff_limit = l\<rparr> s"
  using assms unfolding app_queryFacts_def Let_def
  apply (simp only: bnd_eq_Inr sum.inject)
  apply (elim exE conjE)
  apply (rule that)
   apply assumption
  apply (erule sym)
  done

lemma query_answers_graph:
  assumes "app_queryFacts lc p filters s = Inr v"
    and "\<forall>b\<in>set (project_values p (st_factBundles s)). closed_bundle b \<and> plain_items b"
  shows "length (fv_matchedNodeIds v) \<le> 500 \<and> length (fv_edges v) \<le> 4000 \<and>
    set (fv_matchedNodeIds v) \<subseteq> set (ids_of (fv_nodes v)) \<and>
    (\<forall>e\<in>set (fv_edges v). \<forall>k\<in>set [''subjectId'', ''objectId''].
       \<exists>n\<in>set (fv_nodes v). oget n ''bundleId'' = oget e ''bundleId'' \<and> oget n ''id'' = oget e k)"
proof (rule app_queryFacts_run [OF assms(1)], goal_cases)
  case (1 l m ts ps q)
  let ?f = "\<lparr>ff_snapshotManifestId = m, ff_types = ts, ff_predicates = ps, ff_query = q, ff_limit = l\<rparr>"
  have "l \<le> 500" using limit_filter_bound [OF 1(1)] by simp
  then show ?case
    unfolding 1(2) using query_bounded [of lc p ?f s]
    by (auto intro: query_edge_ends [OF assms(2)] query_matched [THEN subsetD] simp del: One_nat_def)
qed

end
