(* ===== verification/Ingestion.thy ===== *)
theory Ingestion
  imports Test_Spec_Workflow Execution_Evidence Fact_Queries
begin

section \<open>Ingesting executions and facts\<close>

text \<open>
  The operations of \<open>TraceabilityApplication\<close> by which runners and scanners report
  (\<open>src/application/traceability-application.js\<close>): \<open>ingestExecutionEvidence\<close> and
  \<open>ingestFactBundle\<close>. The optional callback \<open>executionAuthorization\<close> is the parameter
  \<open>authorize\<close>; an application without one is \<open>\<lambda>_ _. Inr ()\<close>. Shown: in every store these operations
  reach, an execution was attested by its runner, ran a specification that is safe to execute and is
  bound to the components of its manifest; a fact bundle was attested by its scanner and is closed.
\<close>

definition expected_components :: "jsv \<Rightarrow> jsv res" where
  "expected_components snapshotManifest =
     bnd (pget snapshotManifest ''components'') (\<lambda>components.
     mk_obj (map (\<lambda>n. (n,
       bnd (pget components n) (\<lambda>c.
       bnd (pget c ''id'') (\<lambda>i.
       Inr (JObj [(''id'', i), (''digest'', oget c ''digest'')]))))) snapshotComponentNames))"

definition check_runner :: "app_env \<Rightarrow> string \<Rightarrow> jsv \<Rightarrow> unit res" where
  "check_runner env projectId attestedBundle =
     (let runnerSecret = ae_runnerKeyResolver env (oget (oget (oget attestedBundle ''execution'') ''runner'') ''id'') projectId;
          denied = AttestationErr ''Runner attestation is missing, unknown, or invalid''
      in throw_if (\<not> is_string runnerSecret \<or> str_of runnerSecret = []) denied (
         bnd (verifyExecutionEvidenceAttestation projectId attestedBundle (str_of runnerSecret)) (\<lambda>ok.
         throw_if (\<not> ok) denied (Inr ()))))"

text \<open>The specification of the execution must exist and be executable under the current policy.\<close>

definition check_executed_spec :: "app_env \<Rightarrow> string \<Rightarrow> jsv \<Rightarrow> store \<Rightarrow> unit res" where
  "check_executed_spec env projectId execution s =
     (let testSpecId = oget execution ''testSpecId''; testSpecVersion = oget execution ''testSpecVersion'';
          testSpec = getTestSpec projectId testSpecId testSpecVersion s
      in throw_if (\<not> truthy testSpec)
           (ConflictErr (''TestSpec '' @ js_string testSpecId @ '' version '' @ js_string testSpecVersion
              @ '' does not exist'')) (
         throw_if (\<not> va_executable (app_validateTestSpec env testSpec))
           (ConflictErr ''TestSpec is not eligible for execution under the current policy'') (Inr ())))"

definition check_components :: "string \<Rightarrow> jsv \<Rightarrow> jsv list \<Rightarrow> store \<Rightarrow> unit res" where
  "check_components projectId snapshotManifestId evidence s =
     (let snapshotManifest = getSnapshotManifest projectId (js_string snapshotManifestId) s in
      throw_if (\<not> truthy snapshotManifest)
        (ConflictErr (''Snapshot manifest '' @ js_string snapshotManifestId @ '' does not exist in project '' @ projectId)) (
      bnd (expected_components snapshotManifest) (\<lambda>expected.
      throw_if (list_ex (\<lambda>item. canonicalJson (oget (oget item ''manifest'') ''snapshotComponents'') \<noteq> canonicalJson expected)
          evidence)
        (ConflictErr ''Evidence Snapshot components must exactly match the referenced manifest'') (Inr ()))))"

definition app_ingestExecutionEvidence ::
  "app_env \<Rightarrow> (jsv \<Rightarrow> string \<Rightarrow> unit res) \<Rightarrow> string \<Rightarrow> jsv \<Rightarrow> store \<Rightarrow> (store \<times> jsv) res" where
  "app_ingestExecutionEvidence env authorize projectId input s =
     bnd (requireId (JStr projectId) ''projectId'') (\<lambda>_.
     bnd (createExecutionEvidenceBundle input (ae_clock env)) (\<lambda>normalized.
     let attestedBundle = JObj (spread (props normalized) [(''attestation'', oget input ''attestation'')]);
         execution = oget normalized ''execution''
     in
     bnd (check_runner env projectId attestedBundle) (\<lambda>_.
     bnd (authorize (oget (oget execution ''runner'') ''id'') projectId) (\<lambda>_.
     bnd (check_executed_spec env projectId execution s) (\<lambda>_.
     bnd (check_components projectId (oget execution ''snapshotManifestId'') (elems (oget normalized ''evidence'')) s) (\<lambda>_.
     bnd (appendExecutionEvidenceBundle projectId attestedBundle s) (\<lambda>(s', _).
     Inr (s', getExecutionEvidence projectId (oget execution ''id'') s'))))))))"

definition app_getExecutionEvidence :: "string \<Rightarrow> jsv \<Rightarrow> store \<Rightarrow> jsv res" where
  "app_getExecutionEvidence projectId executionId s =
     bnd (requireId (JStr projectId) ''projectId'') (\<lambda>_.
     bnd (requireId executionId ''executionId'') (\<lambda>_.
     Inr (getExecutionEvidence projectId executionId s)))"

definition check_scanner :: "app_env \<Rightarrow> string \<Rightarrow> jsv \<Rightarrow> unit res" where
  "check_scanner env projectId attestedBundle =
     (let scannerSecret = ae_scannerKeyResolver env (oget (oget attestedBundle ''extractor'') ''id'') projectId in
      throw_if (\<not> is_string scannerSecret \<or> str_of scannerSecret = [] \<or>
          \<not> verifyFactBundleAttestation attestedBundle scannerSecret)
        (AttestationErr ''Scanner attestation is missing, unknown, or invalid'') (Inr ()))"

definition app_ingestFactBundle ::
  "app_env \<Rightarrow> (jsv \<Rightarrow> string \<Rightarrow> unit res) \<Rightarrow> (string \<Rightarrow> string \<Rightarrow> int) \<Rightarrow> string \<Rightarrow> jsv \<Rightarrow> store \<Rightarrow> (store \<times> jsv) res" where
  "app_ingestFactBundle env authorize lc projectId input s =
     bnd (requireId (JStr projectId) ''projectId'') (\<lambda>_.
     throw_if (oget input ''projectId'' \<noteq> JStr projectId)
       (TypeErr ''FactBundle projectId must match the route projectId'') (
     bnd (createFactBundle lc input) (\<lambda>normalized.
     let attestedBundle = JObj (spread (props normalized) [(''attestation'', oget input ''attestation'')]) in
     bnd (check_scanner env projectId attestedBundle) (\<lambda>_.
     bnd (authorize (oget (oget normalized ''extractor'') ''id'') projectId) (\<lambda>_.
     let snapshotManifestId = oget normalized ''snapshotManifestId'';
         snapshotManifest = getSnapshotManifest projectId (js_string snapshotManifestId) s;
         source = oget (oget snapshotManifest ''components'') ''source''
     in
     throw_if (\<not> truthy snapshotManifest)
       (ConflictErr (''Snapshot manifest '' @ js_string snapshotManifestId @ '' does not exist in project '' @ projectId)) (
     throw_if (\<not> strict_eq (oget source ''id'') (oget normalized ''sourceComponentId'') \<or>
               \<not> strict_eq (oget source ''digest'') (oget normalized ''sourceDigest''))
       (ConflictErr ''FactBundle source ID and digest must exactly match the referenced Snapshot component'') (
     appendFactBundle projectId attestedBundle s)))))))"

subsection \<open>What a reached store holds\<close>

text \<open>
  The stores in which the executions and facts of a project are written by these operations and its
  specifications by drafts and approvals, all in one configuration of the application; in between
  anything may happen that leaves these three collections alone.
\<close>

inductive ingested ::
  "app_env \<Rightarrow> (jsv \<Rightarrow> string \<Rightarrow> unit res) \<Rightarrow> (string \<Rightarrow> string \<Rightarrow> int) \<Rightarrow> string \<Rightarrow> store \<Rightarrow> bool"
  for env authorize lc p where
  ing_start: "ingested env authorize lc p s" if "specified p s"
    "project_part p (st_executions s) = []" "project_part p (st_factBundles s) = []"
| ing_draft: "ingested env authorize lc p s'" if "ingested env authorize lc p s"
    "app_appendTestSpecDraft env p input s = Inr (s', r)"
| ing_approve: "ingested env authorize lc p s'" if "ingested env authorize lc p s"
    "app_approveTestSpec env p i input ctx s = Inr (s', r)"
| ing_execution: "ingested env authorize lc p s'" if "ingested env authorize lc p s"
    "app_ingestExecutionEvidence env authorize p input s = Inr (s', r)"
| ing_facts: "ingested env authorize lc p s'" if "ingested env authorize lc p s"
    "app_ingestFactBundle env authorize lc p input s = Inr (s', r)"
| ing_other: "ingested env authorize lc p s'" if "ingested env authorize lc p s"
    "project_part p (st_testSpecs s') = project_part p (st_testSpecs s)"
    "project_part p (st_executions s') = project_part p (st_executions s)"
    "project_part p (st_factBundles s') = project_part p (st_factBundles s)"

text \<open>What is claimed of a stored execution, with the evidence it came with, and of a stored fact bundle.\<close>

definition attested_run :: "app_env \<Rightarrow> string \<Rightarrow> (string \<times> jsv) list \<Rightarrow> jsv \<Rightarrow> bool" where
  "attested_run env p specs r \<longleftrightarrow>
     (let execution = oget r ''execution'' in
      consistent_execution execution \<and>
      (\<exists>t. (store_key p (pair_key (oget execution ''testSpecId'') (oget execution ''testSpecVersion'')), t) \<in> set specs \<and>
         safe_to_execute t) \<and>
      (\<exists>evidence secret. ae_runnerKeyResolver env (oget (oget execution ''runner'') ''id'') p = JStr secret \<and> secret \<noteq> [] \<and>
         verifyExecutionEvidenceAttestation p
           (JObj [(''execution'', execution), (''evidence'', JArr evidence), (''attestation'', oget r ''attestation'')])
           secret = Inr True \<and>
         (\<exists>components. \<forall>item\<in>set evidence. evidence_bound execution item \<and>
            same_value (oget (oget item ''manifest'') ''snapshotComponents'') components)))"

definition attested_facts :: "app_env \<Rightarrow> string \<Rightarrow> jsv \<Rightarrow> bool" where
  "attested_facts env p b \<longleftrightarrow> closed_bundle b \<and> plain_items b \<and> oget b ''projectId'' = JStr p \<and>
     verifyFactBundleAttestation b (ae_scannerKeyResolver env (oget (oget b ''extractor'') ''id'') p)"

definition ingest_inv :: "app_env \<Rightarrow> string \<Rightarrow> store \<Rightarrow> bool" where
  "ingest_inv env p s \<longleftrightarrow> spec_inv p s \<and>
     (\<forall>r\<in>set (project_values p (st_executions s)). attested_run env p (project_part p (st_testSpecs s)) r) \<and>
     (\<forall>b\<in>set (project_values p (st_factBundles s)). attested_facts env p b)"

subsection \<open>The steps keep it\<close>

lemma attested_run_mono: "attested_run env p specs r \<Longrightarrow> set specs \<subseteq> set specs' \<Longrightarrow> attested_run env p specs' r"
  unfolding attested_run_def Let_def by (elim conjE bexE exE) (intro conjI exI, assumption, erule subsetD, assumption+)

lemma appendTestSpec_grows:
  assumes "appendTestSpec p t s = Inr (s', r)"
  shows "set (project_part p (st_testSpecs s)) \<subseteq> set (project_part p (st_testSpecs s'))"
    and "st_executions s' = st_executions s" and "st_factBundles s' = st_factBundles s"
proof -
  from assms obtain l coll where coll: "appendVersion (st_testSpecs s) (store_key p (version_key t)) t l = Inr coll"
    and s': "s' = s\<lparr>st_testSpecs := coll\<rparr>" by (rule appendTestSpec_run)
  from coll show "set (project_part p (st_testSpecs s)) \<subseteq> set (project_part p (st_testSpecs s'))"
    by (cases rule: appendVersion_part) (auto simp: s')
qed (use assms in \<open>auto elim: appendTestSpec_run\<close>)

lemma draft_appends: "app_appendTestSpecDraft env p input s = Inr (s', r) \<Longrightarrow> \<exists>t. appendTestSpec p t s = Inr (s', r)"
  unfolding app_appendTestSpecDraft_def app_appendTestSpec_def
  by (simp only: bnd_eq_Inr throw_if_eq_Inr) iprover

lemma approve_appends:
  "app_approveTestSpec env p i input ctx s = Inr (s', r) \<Longrightarrow> s' = s \<or> (\<exists>t. appendTestSpec p t s = Inr (s', r))"
  by (erule app_approve_run) (simp, erule approve_current_run, iprover)

lemma ingest_inv_specs:
  assumes inv: "ingest_inv env p s" and spec: "spec_inv p s'" and ap: "appendTestSpec p t s = Inr (s', r)"
  shows "ingest_inv env p s'"
  using inv spec appendTestSpec_grows [OF ap] attested_run_mono unfolding ingest_inv_def by simp blast

lemma execution_append:
  assumes "appendExecutionEvidenceBundle p v s = Inr (s', r)"
  obtains m executions where
    "put_once same_value m (st_executions s) (store_key p (js_string (oget (oget v ''execution'') ''id'')))
       (JObj [(''execution'', oget v ''execution''), (''attestation'', oget v ''attestation'')]) = Inr executions"
    "st_executions s' = executions"
  using assms unfolding appendExecutionEvidenceBundle_def Let_def
  by (auto simp: build_simps put_all_evidence_frame split: option.splits)

lemma put_once_part:
  assumes "put_once same m coll (store_key p k) v = Inr coll'"
  shows "set (project_values p coll') \<subseteq> insert v (set (project_values p coll))"
  using assms by (rule put_once_cases) (auto simp: project_values_part part_snoc)

lemma getTestSpec_versioned:
  assumes "getTestSpec p i v s = t" and "v \<noteq> JNull" and "truthy t"
  shows "(store_key p (pair_key i v), t) \<in> set (project_part p (st_testSpecs s))"
proof -
  have "get (st_testSpecs s) (store_key p (pair_key i v)) = t" using assms by (simp add: getTestSpec_def)
  with assms(3) have "map_of (st_testSpecs s) (store_key p (pair_key i v)) = Some t" by (auto simp: get_def split: option.splits)
  from map_of_SomeD [OF this] show ?thesis by (simp add: project_part_def)
qed

lemma check_runner_Inr:
  assumes "check_runner env p b = Inr u"
  shows "\<exists>secret. ae_runnerKeyResolver env (oget (oget (oget b ''execution'') ''runner'') ''id'') p = JStr secret \<and>
    secret \<noteq> [] \<and> verifyExecutionEvidenceAttestation p b secret = Inr True"
  using assms unfolding check_runner_def Let_def by (auto simp: throw_if_eq_Inr bnd_eq_Inr is_string_iff)

lemma check_components_Inr:
  assumes "check_components p m evidence s = Inr u"
  shows "\<exists>components. \<forall>item\<in>set evidence. same_value (oget (oget item ''manifest'') ''snapshotComponents'') components"
  using assms unfolding check_components_def Let_def
  by (auto simp: throw_if_eq_Inr bnd_eq_Inr list_ex_iff same_value_def)

lemma createTestExecution_version:
  assumes "createTestExecution input = Inr x"
  shows "oget x ''testSpecVersion'' \<noteq> JNull" and "\<not> is_object (oget (oget x ''runner'') ''id'')"
proof -
  from assms obtain es v f w where es: "mk_obj es = Inr x" "map_of es ''testSpecVersion'' = Some (requirePositiveInteger v f)"
    "map_of es ''runner'' = Some (normalizeRunner w)"
    unfolding createTestExecution_def
    apply (simp only: bnd_eq_Inr throw_if_eq_Inr not_not sum.inject)
    apply (elim exE conjE)
    apply hypsubst
    apply (rule that)
      apply assumption
     apply simp
    apply simp
    done
  from mk_obj_member [OF es(1,2)] show "oget x ''testSpecVersion'' \<noteq> JNull" by (auto simp: requirePositiveInteger_Inr)
  from mk_obj_member [OF es(1,3)] show "\<not> is_object (oget (oget x ''runner'') ''id'')"
    by (auto simp: normalizeRunner_def build_simps requireNonEmptyString_Inr is_string_iff)
qed

lemma created_execution_of_bundle:
  assumes "createExecutionEvidenceBundle input now = Inr b"
  obtains x evs where "b = JObj [(''execution'', x), (''evidence'', JArr evs)]" "consistent_execution x"
    "oget x ''testSpecVersion'' \<noteq> JNull" "\<forall>item\<in>set evs. evidence_bound x item"
    "\<not> is_object (oget (oget x ''runner'') ''id'')"
  using assms
proof (rule createExecutionEvidenceBundle_run, goal_cases)
  case (1 x evs items)
  have "\<forall>item\<in>set evs. evidence_bound x item" using createEvidence_bound by (auto dest: mapR_in_set [OF 1(3)])
  with 1(1) [OF 1(6)] createTestExecution_consistent [OF 1(2)] createTestExecution_version [OF 1(2)] show ?case by iprover
qed

lemma app_ingest_execution_run:
  assumes "app_ingestExecutionEvidence env authorize p input s = Inr (s', r)"
  obtains b u1 u2 u3 r' where "createExecutionEvidenceBundle input (ae_clock env) = Inr b"
    "check_runner env p (JObj (spread (props b) [(''attestation'', oget input ''attestation'')])) = Inr u1"
    "check_executed_spec env p (oget b ''execution'') s = Inr u2"
    "check_components p (oget (oget b ''execution'') ''snapshotManifestId'') (elems (oget b ''evidence'')) s = Inr u3"
    "appendExecutionEvidenceBundle p (JObj (spread (props b) [(''attestation'', oget input ''attestation'')])) s = Inr (s', r')"
  using assms unfolding app_ingestExecutionEvidence_def Let_def
  apply (simp only: bnd_eq_Inr split_paired_Ex prod.case sum.inject prod.inject)
  apply (elim exE conjE)
  apply (rule that)
      apply assumption
     apply assumption
    apply assumption
   apply assumption
  apply simp
  done

lemma created_execution_attested:
  assumes step: "app_ingestExecutionEvidence env authorize p input s = Inr (s', r)" and inv: "spec_inv p s"
  obtains b m executions v where "put_once same_value m (st_executions s) (store_key p b) v = Inr executions"
    "st_executions s' = executions" "attested_run env p (project_part p (st_testSpecs s)) v"
    "st_testSpecs s' = st_testSpecs s" "st_factBundles s' = st_factBundles s"
  using step
proof (rule app_ingest_execution_run, goal_cases)
  case (1 b u1 u2 u3 r')
  let ?att = "oget input ''attestation''" and ?ab = "JObj (spread (props b) [(''attestation'', oget input ''attestation'')])"
  from 1(2) obtain x evs where b: "b = JObj [(''execution'', x), (''evidence'', JArr evs)]" and x: "consistent_execution x"
    "oget x ''testSpecVersion'' \<noteq> JNull" "\<forall>item\<in>set evs. evidence_bound x item" by (rule created_execution_of_bundle)
  have ab: "?ab = JObj [(''execution'', x), (''evidence'', JArr evs), (''attestation'', ?att)]"
    by (simp add: b spread_def)
  have m: "oget b ''execution'' = x" "oget b ''evidence'' = JArr evs" "oget ?ab ''execution'' = x"
    "oget ?ab ''attestation'' = ?att" by (simp_all add: b map_of_spread)
  let ?r = "JObj [(''execution'', x), (''attestation'', ?att)]"
  let ?t = "getTestSpec p (oget x ''testSpecId'') (oget x ''testSpecVersion'') s"
  from 1(4) have t: "truthy ?t" "va_executable (validateTestSpec ?t (ae_clock env))"
    unfolding check_executed_spec_def Let_def m by (simp_all add: throw_if_eq_Inr app_validateTestSpec_def)
  from getTestSpec_versioned [OF refl x(2) t(1)]
  have stored: "(store_key p (pair_key (oget x ''testSpecId'') (oget x ''testSpecVersion'')), ?t)
      \<in> set (project_part p (st_testSpecs s))" .
  then have "?t \<in> set (project_values p (st_testSpecs s))" by (force simp: project_values_part)
  with inv obtain i now where "createTestSpec i now = Inr ?t" unfolding spec_inv_def by blast
  from created_again [OF this] t(2) have safe: "safe_to_execute ?t" by (auto simp: executable_iff_safe)
  from check_runner_Inr [OF 1(3)] obtain secret where runner:
    "ae_runnerKeyResolver env (oget (oget x ''runner'') ''id'') p = JStr secret" "secret \<noteq> []"
    "verifyExecutionEvidenceAttestation p ?ab secret = Inr True" unfolding m by iprover
  from check_components_Inr [OF 1(5)] obtain cs where
    cs: "\<forall>item\<in>set evs. same_value (oget (oget item ''manifest'') ''snapshotComponents'') cs" unfolding m elems.simps by iprover
  have run: "attested_run env p (project_part p (st_testSpecs s)) ?r"
    unfolding attested_run_def Let_def
    using x stored safe runner [unfolded ab] cs by simp blast
  from execution_append [OF 1(6)] obtain msg executions where
    "put_once same_value msg (st_executions s) (store_key p (js_string (oget x ''id''))) ?r = Inr executions"
    "st_executions s' = executions" unfolding m .
  from 1(1) [OF this run execution_frame(3,4) [OF 1(6)]] show ?case .
qed

lemma ingest_inv_execution:
  assumes inv: "ingest_inv env p s" and step: "app_ingestExecutionEvidence env authorize p input s = Inr (s', r)"
  shows "ingest_inv env p s'"
proof -
  from inv have "spec_inv p s" by (simp add: ingest_inv_def)
  from step this obtain b m executions v where "put_once same_value m (st_executions s) (store_key p b) v = Inr executions"
    "st_executions s' = executions" and v: "attested_run env p (project_part p (st_testSpecs s)) v"
    "st_testSpecs s' = st_testSpecs s" "st_factBundles s' = st_factBundles s" by (rule created_execution_attested)
  then have "set (project_values p (st_executions s')) \<subseteq> insert v (set (project_values p (st_executions s)))"
    by (simp only: put_once_part)
  with inv v show ?thesis unfolding ingest_inv_def spec_inv_def by simp blast
qed

lemma createFactNode_object: "createFactNode input = Inr n \<Longrightarrow> is_plain_object n"
  unfolding createFactNode_def by (simp only: bnd_eq_Inr split_paired_Ex prod.case sum.inject) (elim exE conjE, hypsubst, simp)

lemma createFactEdge_object: "createFactEdge input = Inr e \<Longrightarrow> is_plain_object e"
  unfolding createFactEdge_def Let_def
  by (simp only: bnd_eq_Inr throw_if_eq_Inr sum.inject) (elim exE conjE, hypsubst, simp)

lemma created_bundle_plain:
  assumes "createFactBundle lc input = Inr b"
  shows "plain_items b \<and> (\<exists>fs. b = JObj fs)"
  using assms
proof (rule createFactBundle_run, goal_cases)
  case (1 p m c x at created createdEdges ds i sd u)
  have "list_all is_plain_object created" "list_all is_plain_object createdEdges"
    using createFactNode_object createFactEdge_object
    by (auto simp: list_all_iff bnd_eq_Inr dest!: mapR_in_set [OF 1(1)] mapR_in_set [OF 1(3)])
  then show ?case by (simp add: plain_items_def 1(7) list_all_iff)
qed

lemma closed_bundle_spread:
  assumes "b = JObj fs"
  shows "closed_bundle (JObj (spread fs [(''attestation'', a)])) = closed_bundle b"
    and "plain_items (JObj (spread fs [(''attestation'', a)])) = plain_items b"
    and "oget (JObj (spread fs [(''attestation'', a)])) ''projectId'' = oget b ''projectId''"
  unfolding closed_bundle_def plain_items_def assms by (simp_all add: map_of_spread map_add_def)

lemma created_bundle_members:
  assumes "createFactBundle lc input = Inr b"
  shows "oget b ''projectId'' = oget input ''projectId''" "oget b ''snapshotManifestId'' = oget input ''snapshotManifestId''"
    "oget b ''sourceComponentId'' = oget input ''sourceComponentId''" "oget b ''sourceDigest'' = oget input ''sourceDigest''"
proof -
  from assms obtain i q m c d f1 f2 f3 f4 rest where
    "requireNonEmptyString (oget input ''projectId'') f1 = Inr q" "requireNonEmptyString (oget input ''snapshotManifestId'') f2 = Inr m"
    "requireNonEmptyString (oget input ''sourceComponentId'') f3 = Inr c" "requireNonEmptyString (oget input ''sourceDigest'') f4 = Inr d"
    "b = JObj ((''id'', i) # [(''projectId'', q), (''snapshotManifestId'', m), (''sourceComponentId'', c), (''sourceDigest'', d)] @ rest)"
    unfolding createFactBundle_def Let_def
    apply (simp only: bnd_eq_Inr throw_if_eq_Inr sum.inject append.simps)
    apply (elim exE conjE)
    apply (rule that)
        apply assumption
       apply assumption
      apply assumption
     apply assumption
    apply (simp only: append.simps)
    apply (erule sym)
    done
  then show "oget b ''projectId'' = oget input ''projectId''" "oget b ''snapshotManifestId'' = oget input ''snapshotManifestId''"
    "oget b ''sourceComponentId'' = oget input ''sourceComponentId''" "oget b ''sourceDigest'' = oget input ''sourceDigest''"
    by (simp_all add: requireNonEmptyString_Inr)
qed

lemma app_ingest_facts_run:
  assumes "app_ingestFactBundle env authorize lc p input s = Inr (s', r)"
  obtains b u where "oget input ''projectId'' = JStr p" "createFactBundle lc input = Inr b"
    "check_scanner env p (JObj (spread (props b) [(''attestation'', oget input ''attestation'')])) = Inr u"
    "appendFactBundle p (JObj (spread (props b) [(''attestation'', oget input ''attestation'')])) s = Inr (s', r)"
  using assms unfolding app_ingestFactBundle_def Let_def
  apply (simp only: bnd_eq_Inr throw_if_eq_Inr not_not)
  apply (elim exE conjE)
  apply (rule that)
     apply assumption
    apply assumption
   apply assumption
  apply assumption
  done

lemma fact_bundle_append:
  assumes "appendFactBundle p v s = Inr (s', r)"
  obtains m coll where "put_once same_value m (st_factBundles s) (store_key p (js_string (oget v ''id''))) v = Inr coll"
    "s' = s\<lparr>st_factBundles := coll\<rparr>"
  using assms unfolding appendFactBundle_def Let_def by (auto simp: build_simps split: option.splits)

lemma ingest_inv_facts:
  assumes inv: "ingest_inv env p s" and step: "app_ingestFactBundle env authorize lc p input s = Inr (s', r)"
  shows "ingest_inv env p s'"
  using step
proof (rule app_ingest_facts_run, goal_cases)
  case (1 b u)
  let ?ab = "JObj (spread (props b) [(''attestation'', oget input ''attestation'')])"
  from created_bundle_plain [OF 1(2)] obtain fs where b: "b = JObj fs" "plain_items b" by iprover
  note same = closed_bundle_spread [OF b(1), of "oget input ''attestation''"]
  from 1(3) have "verifyFactBundleAttestation ?ab (ae_scannerKeyResolver env (oget (oget ?ab ''extractor'') ''id'') p)"
    unfolding check_scanner_def Let_def by (simp only: throw_if_eq_Inr de_Morgan_disj not_not)
  moreover have "closed_bundle ?ab" "plain_items ?ab" "oget ?ab ''projectId'' = JStr p"
    using same bundle_closed [OF 1(2)] b(2) created_bundle_members(1) [OF 1(2)] 1(1) by (simp_all only: b(1) props.simps)
  ultimately have ab: "attested_facts env p ?ab" unfolding attested_facts_def by iprover
  from 1(4) obtain m coll where
    "put_once same_value m (st_factBundles s) (store_key p (js_string (oget ?ab ''id''))) ?ab = Inr coll"
    and s': "s' = s\<lparr>st_factBundles := coll\<rparr>" by (rule fact_bundle_append)
  from put_once_part [OF this(1)] inv ab show ?case unfolding ingest_inv_def spec_inv_def s' by simp blast
qed

lemma ingested_inv: "ingested env authorize lc p s \<Longrightarrow> ingest_inv env p s"
proof (induction rule: ingested.induct)
  case (ing_start s)
  then show ?case by (simp add: ingest_inv_def specified_inv project_values_part)
next
  case (ing_draft s input s' r)
  from draft_appends [OF ing_draft(2)] obtain t where t: "appendTestSpec p t s = Inr (s', r)" ..
  from ing_draft(3) have "spec_inv p s" by (simp add: ingest_inv_def)
  from ingest_inv_specs [OF ing_draft(3) spec_inv_draft [OF this ing_draft(2)] t] show ?case .
next
  case (ing_approve s i input ctx s' r)
  from ing_approve(3) have "spec_inv p s" by (simp add: ingest_inv_def)
  from ingest_inv_specs [OF ing_approve(3) spec_inv_approve [OF this ing_approve(2)]]
  show ?case using approve_appends [OF ing_approve(2)] ing_approve(3) by (elim disjE exE) simp_all
next
  case (ing_execution s input s' r)
  from ing_execution(3,2) show ?case by (rule ingest_inv_execution)
next
  case (ing_facts s input s' r)
  from ing_facts(3,2) show ?case by (rule ingest_inv_facts)
next
  case (ing_other s s')
  then show ?case by (simp add: ingest_inv_def spec_inv_def project_values_part)
qed

subsection \<open>Honest reports are accepted\<close>

lemma createFactBundle_unattested:
  "createFactBundle lc (JObj (spread fs [(''attestation'', a)])) = createFactBundle lc (JObj fs)"
  by (simp add: createFactBundle_def map_of_spread map_add_def)

definition names_source :: "string \<Rightarrow> jsv \<Rightarrow> store \<Rightarrow> bool" where
  "names_source p b s \<longleftrightarrow>
     (let manifest = getSnapshotManifest p (js_string (oget b ''snapshotManifestId'')) s;
          source = oget (oget manifest ''components'') ''source''
      in truthy manifest \<and> strict_eq (oget source ''id'') (oget b ''sourceComponentId'') \<and>
         strict_eq (oget source ''digest'') (oget b ''sourceDigest''))"

lemma getSnapshotManifest_stored:
  "truthy (getSnapshotManifest p m s) \<Longrightarrow> map_of (st_manifests s) (store_key p m) = Some (getSnapshotManifest p m s)"
  by (auto simp: getSnapshotManifest_def get_def split: option.splits)

lemma createFactBundle_signable:
  assumes "createFactBundle lc input = Inr b"
  obtains fs where "b = JObj fs" "''attestation'' \<notin> fst ` set fs" "\<not> is_object (oget (oget b ''extractor'') ''id'')"
  using assms
proof (rule createFactBundle_run, goal_cases)
  case (1 p m c x at created createdEdges ds i sd u)
  from 1(7) have "\<not> is_object (oget x ''id'')" by (auto simp: extractor_def build_simps requireNonEmptyString_Inr is_string_iff)
  with 1(1,8) show ?case by simp
qed

lemma fact_report_accepted:
  assumes input: "input = JObj fs" "oget input ''projectId'' = JStr p" "js_trim p \<noteq> []"
    and b: "createFactBundle lc input = Inr b" "signFactBundle b secret = Inr attested"
    and key: "ae_scannerKeyResolver env (oget (oget b ''extractor'') ''id'') p = JStr secret" "secret \<noteq> []"
    and auth: "authorize (oget (oget b ''extractor'') ''id'') p = Inr ()"
    and s: "names_source p b s" "map_of (st_factBundles s) (store_key p (js_string (oget b ''id''))) = None"
  shows "\<exists>r. app_ingestFactBundle env authorize lc p (JObj (spread fs [(''attestation'', oget attested ''attestation'')])) s =
     Inr (s\<lparr>st_factBundles := st_factBundles s @ [(store_key p (js_string (oget b ''id'')), attested)]\<rparr>, r)"
proof -
  from b(1) obtain gs where gs: "b = JObj gs" "''attestation'' \<notin> fst ` set gs"
    and x: "\<not> is_object (oget (oget b ''extractor'') ''id'')" by (rule createFactBundle_signable)
  from gs(2) have "map_of gs ''attestation'' = None" by (simp add: map_of_eq_None_iff)
  then have none: "oget b ''attestation'' = JUndef" by (simp add: gs(1))
  note verifies = signed_fact_bundle_verifies [OF b(2) none gs(1) x key(2) gs(2)]
  from b(2) have at: "attested = JObj (spread gs [(''attestation'', oget attested ''attestation'')])"
    by (auto simp: signFactBundle_def bnd_eq_Inr gs(1) map_of_spread)
  have m: "oget attested k = oget b k" if "k \<noteq> ''attestation''" for k
    by (subst at) (use that in \<open>simp add: gs(1) map_of_spread map_add_def\<close>)
  let ?input = "JObj (spread fs [(''attestation'', oget attested ''attestation'')])"
  have i: "oget ?input ''projectId'' = JStr p" "oget ?input ''attestation'' = oget attested ''attestation''"
    "createFactBundle lc ?input = Inr b"
    using input(1,2) b(1) by (simp_all add: map_of_spread map_add_def createFactBundle_unattested)
  have ab: "JObj (spread (props b) [(''attestation'', oget attested ''attestation'')]) = attested"
    using at gs(1) by simp
  have scan: "check_scanner env p attested = Inr ()"
    unfolding check_scanner_def Let_def m [of "''extractor''", simplified] key(1) using verifies key(2) by simp
  let ?m = "getSnapshotManifest p (js_string (oget b ''snapshotManifestId'')) s"
  have src: "truthy ?m" "strict_eq (oget (oget (oget ?m ''components'') ''source'') ''id'') (oget b ''sourceComponentId'')"
    "strict_eq (oget (oget (oget ?m ''components'') ''source'') ''digest'') (oget b ''sourceDigest'')"
    using s(1) unfolding names_source_def Let_def by simp_all
  note man = getSnapshotManifest_stored [OF src(1)]
  have ap: "\<exists>r. appendFactBundle p attested s =
      Inr (s\<lparr>st_factBundles := st_factBundles s @ [(store_key p (js_string (oget b ''id'')), attested)]\<rparr>, r)"
    unfolding appendFactBundle_def Let_def by (simp add: m man src s(2) put_once_def update_fresh)
  have req: "requireId (JStr p) f = Inr (JStr p)" for f by (simp add: requireId_def input(3))
  show ?thesis
    unfolding app_ingestFactBundle_def Let_def i ab using ap by (simp add: req i ab scan auth src del: oget_simps)
qed

lemma createExecutionEvidenceBundle_unattested:
  "createExecutionEvidenceBundle (JObj (spread fs [(''attestation'', a)])) now = createExecutionEvidenceBundle (JObj fs) now"
  by (simp add: createExecutionEvidenceBundle_def map_of_spread map_add_def)

lemma signed_execution_bundle:
  assumes "signExecutionEvidenceBundle p (JObj [(''execution'', x), (''evidence'', e)]) secret = Inr attested"
  shows "attested = JObj [(''execution'', x), (''evidence'', e), (''attestation'', oget attested ''attestation'')]" and "secret \<noteq> []"
  using assms by (auto simp: signExecutionEvidenceBundle_def bnd_eq_Inr spread_def requireNonEmptyString_Inr js_trim_eq_Nil)

definition ready_for :: "app_env \<Rightarrow> string \<Rightarrow> jsv \<Rightarrow> jsv list \<Rightarrow> store \<Rightarrow> bool" where
  "ready_for env p x items s \<longleftrightarrow>
     (let t = getTestSpec p (oget x ''testSpecId'') (oget x ''testSpecVersion'') s;
          m = getSnapshotManifest p (js_string (oget x ''snapshotManifestId'')) s
      in truthy t \<and> va_executable (app_validateTestSpec env t) \<and> truthy m \<and>
         strict_eq (oget (oget (oget m ''components'') ''deployment'') ''id'') (oget x ''deploymentId'') \<and>
         (case expected_components m of Inl _ \<Rightarrow> False | Inr cs \<Rightarrow>
            list_all (\<lambda>item. same_value (oget (oget item ''manifest'') ''snapshotComponents'') cs) items) \<and>
         map_of (st_executions s) (store_key p (js_string (oget x ''id''))) = None \<and>
         list_all (\<lambda>item. map_of (st_evidence s) (evidence_key p item) = None \<and>
            map_of (st_evidenceHashes s) (hash_key p item) = None) items)"

lemma check_evidence_fresh:
  "list_all (\<lambda>item. map_of (st_evidence s) (evidence_key p item) = None \<and>
      map_of (st_evidenceHashes s) (hash_key p item) = None) items \<Longrightarrow>
   foldR (check_evidence p s) () items = Inr ()"
  by (induction items) (simp_all add: check_evidence_def)

lemma execution_appended:
  assumes "ready_for env p x items s" and "oget x ''testSpecVersion'' \<noteq> JNull"
  shows "\<exists>s' r. appendExecutionEvidenceBundle p
      (JObj [(''execution'', x), (''evidence'', JArr items), (''attestation'', a)]) s = Inr (s', r) \<and>
    st_executions s' = st_executions s @
      [(store_key p (js_string (oget x ''id'')), JObj [(''execution'', x), (''attestation'', a)])]"
proof -
  let ?m = "getSnapshotManifest p (js_string (oget x ''snapshotManifestId'')) s"
  have r: "truthy (getTestSpec p (oget x ''testSpecId'') (oget x ''testSpecVersion'') s)" "truthy ?m"
    "strict_eq (oget (oget (oget ?m ''components'') ''deployment'') ''id'') (oget x ''deploymentId'')"
    "map_of (st_executions s) (store_key p (js_string (oget x ''id''))) = None"
    "foldR (check_evidence p s) () items = Inr ()"
    using assms(1) unfolding ready_for_def Let_def by (auto intro: check_evidence_fresh)
  note man = getSnapshotManifest_stored [OF r(2)]
  obtain t where spec: "map_of (st_testSpecs s) (store_key p (pair_key (oget x ''testSpecId'') (oget x ''testSpecVersion''))) = Some t"
    using part_key_stored [OF getTestSpec_versioned [OF refl assms(2) r(1)]] by blast
  show ?thesis
    unfolding appendExecutionEvidenceBundle_def Let_def
    by (simp add: spec man r put_once_def update_fresh put_all_evidence_frame)
qed

lemma execution_report_accepted:
  assumes input: "input = JObj fs" "js_trim p \<noteq> []"
    and b: "createExecutionEvidenceBundle input (ae_clock env) = Inr b" "signExecutionEvidenceBundle p b secret = Inr attested"
    and key: "ae_runnerKeyResolver env (oget (oget (oget b ''execution'') ''runner'') ''id'') p = JStr secret"
    and auth: "authorize (oget (oget (oget b ''execution'') ''runner'') ''id'') p = Inr ()"
    and ready: "ready_for env p (oget b ''execution'') (elems (oget b ''evidence'')) s"
  shows "\<exists>s' r. app_ingestExecutionEvidence env authorize p
      (JObj (spread fs [(''attestation'', oget attested ''attestation'')])) s = Inr (s', r) \<and>
    st_executions s' = st_executions s @ [(store_key p (js_string (oget (oget b ''execution'') ''id'')),
      JObj [(''execution'', oget b ''execution''), (''attestation'', oget attested ''attestation'')])]"
proof -
  let ?input = "JObj (spread fs [(''attestation'', oget attested ''attestation'')])"
  from b(1) obtain x evs where bx: "b = JObj [(''execution'', x), (''evidence'', JArr evs)]" "oget x ''testSpecVersion'' \<noteq> JNull"
    "\<not> is_object (oget (oget x ''runner'') ''id'')" by (rule created_execution_of_bundle)
  have m: "oget b ''execution'' = x" "oget b ''evidence'' = JArr evs" by (simp_all add: bx(1))
  note at = signed_execution_bundle [OF b(2) [unfolded bx(1)]]
  have i: "oget ?input ''attestation'' = oget attested ''attestation''"
    "createExecutionEvidenceBundle ?input (ae_clock env) = Inr b"
    using b(1) input(1) by (simp_all add: map_of_spread createExecutionEvidenceBundle_unattested)
  have ab: "JObj (spread (props b) [(''attestation'', oget attested ''attestation'')]) = attested"
    by (subst at(1)) (simp add: bx(1) spread_def)
  have "\<not> is_object (oget (oget (oget b ''execution'') ''runner'') ''id'')" using bx(3) m by simp
  note verifies = signed_verifies [OF b(2) this]
  have "oget attested ''execution'' = x" by (subst at(1)) simp
  then have run: "check_runner env p attested = Inr ()"
    unfolding check_runner_def Let_def using key at(2) verifies by (simp add: m)
  have spec: "check_executed_spec env p x s = Inr ()"
    using ready unfolding ready_for_def check_executed_spec_def Let_def m by simp
  have comp: "check_components p (oget x ''snapshotManifestId'') evs s = Inr ()"
    using ready unfolding ready_for_def check_components_def Let_def m elems.simps
    by (auto simp: list_ex_iff list_all_iff same_value_def split: sum.splits)
  from execution_appended [OF ready [unfolded m elems.simps] bx(2)] at(1) obtain s' r where
    ap: "appendExecutionEvidenceBundle p attested s = Inr (s', r)"
      "st_executions s' = st_executions s @ [(store_key p (js_string (oget x ''id'')),
         JObj [(''execution'', x), (''attestation'', oget attested ''attestation'')])]" by metis
  have req: "requireId (JStr p) f = Inr (JStr p)" for f by (simp add: requireId_def input(2))
  show ?thesis
    unfolding app_ingestExecutionEvidence_def Let_def i ab m
    using ap by (simp add: req i ab m run auth [unfolded m] spec comp del: oget_simps)
qed

subsection \<open>The guarantees\<close>

text \<open>
  C6: No execution without attestation, for an executable specification, on the named components. In
  every store reached by drafts, approvals and ingestion, a stored execution is consistent, its version
  of the test specification is stored and satisfies the declarative safety condition, and the key of its
  runner verifies the attestation over the execution and the evidence it came with, each item of which
  is bound to the execution and to one and the same set of snapshot components.
\<close>
theorem stored_executions_are_attested:
  assumes "ingested env authorize lc p s" and "r \<in> set (project_values p (st_executions s))"
  shows "attested_run env p (project_part p (st_testSpecs s)) r"
  using ingested_inv [OF assms(1)] assms(2) by (simp add: ingest_inv_def)

text \<open>
  C7: No facts without attestation. In every store reached by drafts, approvals and ingestion, a stored
  fact bundle is closed, belongs to the project and carries an attestation that the key of its scanner
  verifies.
\<close>
theorem stored_facts_are_attested:
  assumes "ingested env authorize lc p s" and "b \<in> set (project_values p (st_factBundles s))"
  shows "attested_facts env p b"
  using ingested_inv [OF assms(1)] assms(2) by (simp add: ingest_inv_def)

text \<open>
  C8: A fact query answers with a bounded graph. In every store reached by ingestion, the answer holds
  at most 500 matched nodes and at most 4000 edges, whatever limit was asked for; the matched nodes are
  among its nodes; and each of its edges comes with both its ends, as nodes of the edge's own bundle.
\<close>
theorem fact_query_is_a_bounded_graph:
  assumes "ingested env authorize lc p s" and "app_queryFacts lc p filters s = Inr v"
  shows "length (fv_matchedNodeIds v) \<le> 500 \<and> length (fv_edges v) \<le> 4000 \<and>
    set (fv_matchedNodeIds v) \<subseteq> set (ids_of (fv_nodes v)) \<and>
    (\<forall>e\<in>set (fv_edges v). \<forall>k\<in>set [''subjectId'', ''objectId''].
       \<exists>n\<in>set (fv_nodes v). oget n ''bundleId'' = oget e ''bundleId'' \<and> oget n ''id'' = oget e k)"
  using ingested_inv [OF assms(1)] by (intro query_answers_graph [OF assms(2)]) (simp add: ingest_inv_def attested_facts_def)

text \<open>
  C10: An honest scanner is heard. When a scanner creates a bundle for the project, signs it with the
  secret that the application resolves for it, is authorised, and names the source component of a stored
  manifest, the ingestion of the signed report succeeds and stores exactly the signed bundle.
\<close>
theorem honest_fact_report_is_stored:
  assumes "input = JObj fs" and "oget input ''projectId'' = JStr p" and "js_trim p \<noteq> []"
    and "createFactBundle lc input = Inr b" and "signFactBundle b secret = Inr attested" and "secret \<noteq> []"
    and "ae_scannerKeyResolver env (oget (oget b ''extractor'') ''id'') p = JStr secret"
    and "authorize (oget (oget b ''extractor'') ''id'') p = Inr ()"
    and "names_source p b s" and "map_of (st_factBundles s) (store_key p (js_string (oget b ''id''))) = None"
  shows "\<exists>r. app_ingestFactBundle env authorize lc p (JObj (spread fs [(''attestation'', oget attested ''attestation'')])) s =
     Inr (s\<lparr>st_factBundles := st_factBundles s @ [(store_key p (js_string (oget b ''id'')), attested)]\<rparr>, r)"
  using assms by (intro fact_report_accepted)

text \<open>
  C9: An honest runner is heard. When a runner signs the bundle of its execution with the secret that
  the application resolves for it, is authorised, and the store is ready for it (the specification is
  executable, the manifest has the components and the deployment the evidence names, the identifiers
  are new), the ingestion of the signed report succeeds and stores exactly its execution.
\<close>
theorem honest_execution_report_is_stored:
  assumes "input = JObj fs" and "js_trim p \<noteq> []"
    and "createExecutionEvidenceBundle input (ae_clock env) = Inr b" and "signExecutionEvidenceBundle p b secret = Inr attested"
    and "ae_runnerKeyResolver env (oget (oget (oget b ''execution'') ''runner'') ''id'') p = JStr secret"
    and "authorize (oget (oget (oget b ''execution'') ''runner'') ''id'') p = Inr ()"
    and "ready_for env p (oget b ''execution'') (elems (oget b ''evidence'')) s"
  shows "\<exists>s' r. app_ingestExecutionEvidence env authorize p
      (JObj (spread fs [(''attestation'', oget attested ''attestation'')])) s = Inr (s', r) \<and>
    st_executions s' = st_executions s @ [(store_key p (js_string (oget (oget b ''execution'') ''id'')),
      JObj [(''execution'', oget b ''execution''), (''attestation'', oget attested ''attestation'')])]"
  using assms by (intro execution_report_accepted)

subsection \<open>A run of both ingestions\<close>

definition keyed_env :: app_env where
  "keyed_env = reviewer_env\<lparr>ae_runnerKeyResolver := \<lambda>_ _. JStr ''k'', ae_scannerKeyResolver := \<lambda>_ _. JStr ''k''\<rparr>"

definition run_components :: jsv where
  "run_components = (let c = \<lambda>i. JObj [(''id'', JStr i), (''digest'', JStr fact_digest)] in
     JObj [(''source'', c ''c''), (''build'', c ''b''), (''deployment'', c ''d''), (''runtime'', c ''u'')])"

definition run_execution :: jsv where
  "run_execution = set_member (set_member sample_execution ''testSpecId'' (JStr ''T'')) ''testSpecVersion'' (JNum 2)"

definition run_manifest :: jsv where
  "run_manifest = set_member (set_member (set_member sample_manifest ''testSpecId'' (JStr ''T'')) ''testSpecVersion'' (JNum 2))
     ''snapshotComponents'' run_components"

definition run_members :: "(string \<times> jsv) list" where
  "run_members = [(''execution'', run_execution),
     (''evidence'', JArr [JObj [(''id'', JStr ''e''), (''type'', JStr ''ASSERTION''), (''manifest'', run_manifest), (''createdAt'', t0)]])]"

definition bound_store :: "string \<Rightarrow> store" where
  "bound_store fp = (approved_store fp)\<lparr>st_manifests := [(store_key ''p'' ''m'', JObj [(''id'', JStr ''m''), (''components'', run_components)])]\<rparr>"

lemma run_execution_created: "createTestExecution run_execution = Inr run_execution"
  by code_simp

lemma run_manifest_bound: "bound_manifest run_manifest (JStr ''ASSERTION'') run_execution = Inr run_manifest"
  by code_simp

lemma run_expected: "expected_components (JObj [(''id'', JStr ''m''), (''components'', run_components)]) = Inr run_components"
  by code_simp

lemma run_members_simps:
  "oget run_execution ''id'' = JStr ''x''" "oget run_execution ''testSpecId'' = JStr ''T''"
  "oget run_execution ''testSpecVersion'' = JNum 2" "oget run_execution ''snapshotManifestId'' = JStr ''m''"
  "oget run_execution ''deploymentId'' = JStr ''d''" "oget (oget run_execution ''runner'') ''id'' = JStr ''r''"
  "oget run_execution ''finishedAt'' = t0" "is_plain_object run_manifest" "is_plain_object run_execution"
  "oget run_manifest ''snapshotComponents'' = run_components" "oget (oget run_components ''deployment'') ''id'' = JStr ''d''"
  "oget (oget run_components ''source'') ''id'' = JStr ''c''"
  "oget (oget run_components ''source'') ''digest'' = JStr fact_digest"
  by code_simp+

lemma run_bundle_created:
  "\<exists>ev. createExecutionEvidenceBundle (JObj run_members) now = Inr (JObj [(''execution'', run_execution), (''evidence'', JArr [ev])]) \<and>
     oget ev ''id'' = JStr ''e'' \<and> oget ev ''manifest'' = run_manifest"
proof -
  from assertion_evidence_created [OF run_manifest_bound run_members_simps(8,7), of now] obtain ev where
    ev: "createEvidence run_execution (JObj [(''id'', JStr ''e''), (''type'', JStr ''ASSERTION''),
        (''manifest'', run_manifest), (''createdAt'', t0)]) now = Inr ev"
    and m: "oget ev ''id'' = JStr ''e''" "oget ev ''type'' = JStr ''ASSERTION''" "oget ev ''manifest'' = run_manifest"
    by (elim exE conjE)
  have "createExecutionEvidenceBundle (JObj run_members) now = Inr (JObj [(''execution'', run_execution), (''evidence'', JArr [ev])])"
    by (simp add: createExecutionEvidenceBundle_def run_members_def run_execution_created requireArray_def ev m(2))
  with m show ?thesis by iprover
qed

lemma run_signed:
  "\<exists>attested. signExecutionEvidenceBundle ''p'' (JObj [(''execution'', run_execution), (''evidence'', e)]) ''k'' = Inr attested"
proof -
  have "\<not> nullish run_execution" "\<not> nullish (oget run_execution ''runner'')" by code_simp+
  then show ?thesis
    using sample_trims by (simp add: signExecutionEvidenceBundle_def executionBundleSigningPayload_def pget_def)
qed

lemma bound_store_parts:
  "getTestSpec ''p'' (JStr ''T'') (JNum 2) (bound_store fp) = spec_at 2 True (approval_of fp)"
  "getSnapshotManifest ''p'' ''m'' (bound_store fp) = JObj [(''id'', JStr ''m''), (''components'', run_components)]"
  by code_simp+

lemma bound_store_empty:
  "st_executions (bound_store fp) = []" "st_factBundles (bound_store fp) = []" "st_evidence (bound_store fp) = []"
  "st_evidenceHashes (bound_store fp) = []" "st_testSpecs (bound_store fp) = st_testSpecs (approved_store fp)"
  by (simp_all add: bound_store_def approved_store_def drafted_store_def claimed_store_def empty_store_def)

lemma bound_store_ready:
  assumes "js_trim fp \<noteq> []" and "oget ev ''manifest'' = run_manifest"
  shows "ready_for keyed_env ''p'' run_execution [ev] (bound_store fp)"
proof -
  have t: "truthy (spec_at 2 True (approval_of fp))" by (simp add: spec_at_def)
  have m: "oget (JObj [(''id'', JStr ''m''), (''components'', run_components)]) ''components'' = run_components" by simp
  show ?thesis
    unfolding ready_for_def Let_def run_members_simps js_string.simps bound_store_parts m run_expected sum.case
    using t by (simp add: app_validateTestSpec_def approved_executable [OF assms(1)] bound_store_empty assms(2)
        run_members_simps same_value_def)
qed

lemma bound_store_ingested: "specified ''p'' (approved_store fp) \<Longrightarrow> ingested env authorize lc ''p'' (bound_store fp)"
  by (rule ing_start, erule spec_other) (simp_all add: bound_store_empty project_part_def)

theorem stored_executions_are_attested_witness:
  "\<exists>(s::store) r. ingested keyed_env (\<lambda>_ _. Inr ()) (\<lambda>_ _. 0) ''p'' s \<and> r \<in> set (project_values ''p'' (st_executions s)) \<and>
     attested_run keyed_env ''p'' (project_part ''p'' (st_testSpecs s)) r"
proof -
  let ?auth = "\<lambda>_ _. Inr ()"
  obtain fp where fp: "js_trim fp \<noteq> []" "specified ''p'' (approved_store fp)" using approved_store_reached by blast
  obtain ev where ev: "createExecutionEvidenceBundle (JObj run_members) (ae_clock keyed_env) =
      Inr (JObj [(''execution'', run_execution), (''evidence'', JArr [ev])])" "oget ev ''manifest'' = run_manifest"
    using run_bundle_created by blast
  obtain a where a: "signExecutionEvidenceBundle ''p'' (JObj [(''execution'', run_execution), (''evidence'', JArr [ev])]) ''k'' = Inr a"
    using run_signed by blast
  have m: "oget (JObj [(''execution'', run_execution), (''evidence'', JArr [ev])]) ''execution'' = run_execution"
    "elems (oget (JObj [(''execution'', run_execution), (''evidence'', JArr [ev])]) ''evidence'') = [ev]" by simp_all
  have key: "ae_runnerKeyResolver keyed_env i p = JStr ''k''" for i p by (simp add: keyed_env_def)
  from execution_report_accepted [OF refl sample_trims(3) ev(1) a key, of ?auth, unfolded m,
      OF refl bound_store_ready [OF fp(1) ev(2)]]
  obtain s r where s: "app_ingestExecutionEvidence keyed_env ?auth ''p''
      (JObj (spread run_members [(''attestation'', oget a ''attestation'')])) (bound_store fp) = Inr (s, r)"
    and st: "st_executions s = st_executions (bound_store fp) @ [(store_key ''p'' (js_string (oget run_execution ''id'')),
      JObj [(''execution'', run_execution), (''attestation'', oget a ''attestation'')])]" by (elim exE conjE)
  have i: "ingested keyed_env ?auth (\<lambda>_ _. 0) ''p'' s"
    by (rule ing_execution [OF bound_store_ingested [OF fp(2)] s])
  have m: "JObj [(''execution'', run_execution), (''attestation'', oget a ''attestation'')] \<in>
      set (project_values ''p'' (st_executions s))"
    unfolding st by (simp add: project_values_part part_snoc)
  show ?thesis using i m stored_executions_are_attested [OF i m] by iprover
qed

lemma run_key: "ae_scannerKeyResolver keyed_env i p = JStr ''k''" "ae_runnerKeyResolver keyed_env i p = JStr ''k''"
  by (simp_all add: keyed_env_def)

lemma facts_signed:
  assumes "createFactBundle lc input = Inr b"
  shows "\<exists>attested. signFactBundle b ''k'' = Inr attested"
  using assms
proof (rule createFactBundle_run, goal_cases)
  case (1 p m c x at created createdEdges ds i sd u)
  have "oget b ''extractor'' = x" "\<not> nullish b" by (simp_all add: 1(7))
  moreover have "\<not> nullish x" using 1(6) by (auto simp: extractor_def mk_obj_Inr)
  ultimately show ?case using sample_trims by (simp add: signFactBundle_def pget_def)
qed

lemma run_names_source:
  assumes "createFactBundle lc sample_facts_input = Inr b"
  shows "names_source ''p'' b (bound_store fp)"
  unfolding names_source_def Let_def created_bundle_members [OF assms] sample_facts_members js_string.simps bound_store_parts
  by (simp add: run_members_simps)

text \<open>The sample facts, signed and ingested into the store.\<close>

lemma facts_to_ingest:
  "\<exists>fs b a. sample_facts_input = JObj fs \<and> createFactBundle (\<lambda>_ _. 0) sample_facts_input = Inr b \<and> signFactBundle b ''k'' = Inr a"
proof -
  obtain b where b: "createFactBundle (\<lambda>_ _. 0) sample_facts_input = Inr b" using sample_facts_created by blast
  obtain a where "signFactBundle b ''k'' = Inr a" using facts_signed [OF b] by blast
  with b show ?thesis unfolding sample_facts_input_def by iprover
qed

theorem honest_fact_report_is_stored_witness:
  "\<exists>input s s' r. app_ingestFactBundle keyed_env (\<lambda>_ _. Inr ()) (\<lambda>_ _. 0) ''p'' input s = Inr (s', r) \<and> st_factBundles s' \<noteq> []"
proof -
  from facts_to_ingest obtain fs b a where fs: "sample_facts_input = JObj fs"
    and b: "createFactBundle (\<lambda>_ _. 0) sample_facts_input = Inr b" and a: "signFactBundle b ''k'' = Inr a" by (elim exE conjE)
  have "''k'' \<noteq> []" by simp
  from honest_fact_report_is_stored [OF fs sample_facts_members(1) sample_trims(3) b a this run_key(1), of "\<lambda>_ _. Inr ()",
      OF refl run_names_source [OF b, of "[]"]]
  obtain r x where "app_ingestFactBundle keyed_env (\<lambda>_ _. Inr ()) (\<lambda>_ _. 0) ''p''
      (JObj (spread fs [(''attestation'', oget a ''attestation'')])) (bound_store []) =
    Inr ((bound_store [])\<lparr>st_factBundles := st_factBundles (bound_store []) @ [x]\<rparr>, r)"
    by (auto simp: bound_store_empty)
  moreover have "st_factBundles ((bound_store [])\<lparr>st_factBundles := st_factBundles (bound_store []) @ [x]\<rparr>) \<noteq> []" by simp
  ultimately show ?thesis by iprover
qed

lemma facts_ingested:
  "\<exists>(s::store) b. ingested keyed_env (\<lambda>_ _. Inr ()) (\<lambda>_ _. 0) ''p'' s \<and> b \<in> set (project_values ''p'' (st_factBundles s))"
proof -
  obtain fp where fp: "specified ''p'' (approved_store fp)" using approved_store_reached by blast
  from facts_to_ingest obtain fs b a where fs: "sample_facts_input = JObj fs"
    and b: "createFactBundle (\<lambda>_ _. 0) sample_facts_input = Inr b" and a: "signFactBundle b ''k'' = Inr a" by (elim exE conjE)
  let ?s = "(bound_store fp)\<lparr>st_factBundles := st_factBundles (bound_store fp) @ [(store_key ''p'' (js_string (oget b ''id'')), a)]\<rparr>"
  have "''k'' \<noteq> []" by simp
  from fact_report_accepted [OF fs sample_facts_members(1) sample_trims(3) b a run_key(1) this, of "\<lambda>_ _. Inr ()",
      OF refl run_names_source [OF b]]
  obtain r where "app_ingestFactBundle keyed_env (\<lambda>_ _. Inr ()) (\<lambda>_ _. 0) ''p''
      (JObj (spread fs [(''attestation'', oget a ''attestation'')])) (bound_store fp) = Inr (?s, r)"
    by (auto simp: bound_store_empty)
  then have "ingested keyed_env (\<lambda>_ _. Inr ()) (\<lambda>_ _. 0) ''p'' ?s" by (rule ing_facts [OF bound_store_ingested [OF fp]])
  moreover have "a \<in> set (project_values ''p'' (st_factBundles ?s))" by (simp add: project_values_part part_snoc)
  ultimately show ?thesis by iprover
qed

theorem stored_facts_are_attested_witness:
  "\<exists>(s::store) b. b \<in> set (project_values ''p'' (st_factBundles s)) \<and> attested_facts keyed_env ''p'' b"
proof -
  from facts_ingested obtain s :: store and b where s: "ingested keyed_env (\<lambda>_ _. Inr ()) (\<lambda>_ _. 0) ''p'' s"
    and b: "b \<in> set (project_values ''p'' (st_factBundles s))" by (elim exE conjE)
  from stored_facts_are_attested [OF s b] b show ?thesis by iprover
qed

theorem fact_query_is_a_bounded_graph_witness:
  "\<exists>(s::store) v. project_values ''p'' (st_factBundles s) \<noteq> [] \<and> app_queryFacts (\<lambda>_ _. 0) ''p'' (JObj []) s = Inr v \<and>
     length (fv_matchedNodeIds v) \<le> 500 \<and> set (fv_matchedNodeIds v) \<subseteq> set (ids_of (fv_nodes v))"
proof -
  from facts_ingested obtain s :: store and b where s: "ingested keyed_env (\<lambda>_ _. Inr ()) (\<lambda>_ _. 0) ''p'' s"
    and b: "b \<in> set (project_values ''p'' (st_factBundles s))" by (elim exE conjE)
  obtain v where v: "app_queryFacts (\<lambda>_ _. 0) ''p'' (JObj []) s = Inr v"
    by (simp add: js_trim_eq_Nil is_space_def app_queryFacts_def enum_filter_def limit_filter_def query_filter_def requireId_def)
  from b have "project_values ''p'' (st_factBundles s) \<noteq> []" by auto
  with v fact_query_is_a_bounded_graph [OF s v] show ?thesis by iprover
qed

theorem honest_execution_report_is_stored_witness:
  "\<exists>input s s' r. app_ingestExecutionEvidence keyed_env (\<lambda>_ _. Inr ()) ''p'' input s = Inr (s', r) \<and> st_executions s' \<noteq> []"
proof -
  let ?b = "\<lambda>ev. JObj [(''execution'', run_execution), (''evidence'', JArr [ev])]"
  obtain fp where fp: "js_trim fp \<noteq> []" using approved_store_reached by blast
  obtain ev where ev: "createExecutionEvidenceBundle (JObj run_members) (ae_clock keyed_env) = Inr (?b ev)"
    "oget ev ''manifest'' = run_manifest" using run_bundle_created by blast
  obtain a where a: "signExecutionEvidenceBundle ''p'' (?b ev) ''k'' = Inr a" using run_signed by blast
  have m: "oget (?b ev) ''execution'' = run_execution" "elems (oget (?b ev) ''evidence'') = [ev]" by simp_all
  from honest_execution_report_is_stored [OF refl sample_trims(3) ev(1) a run_key(2), of "\<lambda>_ _. Inr ()", unfolded m,
      OF refl bound_store_ready [OF fp ev(2)]]
  obtain s r x where "app_ingestExecutionEvidence keyed_env (\<lambda>_ _. Inr ()) ''p''
      (JObj (spread run_members [(''attestation'', oget a ''attestation'')])) (bound_store fp) = Inr (s, r)"
    "st_executions s = st_executions (bound_store fp) @ [x]" by (elim exE conjE)
  moreover from this(2) have "st_executions s \<noteq> []" by simp
  ultimately show ?thesis by iprover
qed

end
