(* ===== verification/Business_Process.thy ===== *)
theory Business_Process
  imports Model
begin

section \<open>Business process models\<close>

text \<open>
  The state machine a feature is confirmed with (\<open>src/domain/business-process.js\<close>): actors, states,
  transitions and design elements, the checks that make them one connected machine, and the facts they
  refer to. The \<open>while (changed)\<close> loop over the transitions is a function whose termination is proved.
  Shown: the loop computes exactly the states reachable from its start, and a created model is a closed,
  connected machine.
\<close>

definition uniqueById :: "jsv \<Rightarrow> string \<Rightarrow> (jsv \<Rightarrow> string \<Rightarrow> jsv res) \<Rightarrow> jsv list res" where
  "uniqueById items fieldName normalizeItem =
     bnd (requireArray True items fieldName) (\<lambda>xs.
     bnd (mapiR (\<lambda>index item. normalizeItem item (at_index fieldName index)) 0 xs) (\<lambda>normalized.
     throw_if (length (js_set (map (\<lambda>item. oget item ''id'') normalized)) \<noteq> length normalized)
       (TypeErr (fieldName @ '' ids must be unique'')) (Inr normalized)))"

definition process_strings :: "bool \<Rightarrow> jsv \<Rightarrow> string \<Rightarrow> jsv res" where
  "process_strings required v fieldName =
     (if v = JUndef \<and> \<not> required then Inr (JArr [])
      else
        bnd (requireArray required v fieldName) (\<lambda>xs.
        bnd (mapiR (\<lambda>index item. requireNonEmptyString item (at_index fieldName index)) 0 xs) (\<lambda>result.
        throw_if (length (js_set result) \<noteq> length result)
          (TypeErr (fieldName @ '' must not contain duplicates'')) (Inr (JArr result)))))"

text \<open>\<open>`${item.snapshotManifestId}\u0000${item.factId}`\<close>\<close>

definition fact_ref_key :: "jsv \<Rightarrow> string" where
  "fact_ref_key item = js_string (oget item ''snapshotManifestId'') @ [CHR 0x00] @ js_string (oget item ''factId'')"

definition factRefs :: "jsv \<Rightarrow> string \<Rightarrow> jsv res" where
  "factRefs v fieldName =
     (if v = JUndef then Inr (JArr [])
      else
        bnd (requireArray False v fieldName) (\<lambda>xs.
        bnd (mapiR (\<lambda>index item. mk_obj
            [(''snapshotManifestId'', requireNonEmptyString (oget item ''snapshotManifestId'')
                (at_index fieldName index @ ''.snapshotManifestId'')),
             (''factId'', requireNonEmptyString (oget item ''factId'') (at_index fieldName index @ ''.factId''))]) 0 xs)
          (\<lambda>result.
        throw_if (length (js_set (map fact_ref_key result)) \<noteq> length (map fact_ref_key result))
          (TypeErr (fieldName @ '' must not contain duplicates'')) (Inr (JArr result)))))"

definition normalizeActor :: "jsv \<Rightarrow> string \<Rightarrow> jsv res" where
  "normalizeActor item fieldName = mk_obj
     [(''id'', requireNonEmptyString (oget item ''id'') (fieldName @ ''.id'')),
      (''name'', requireNonEmptyString (oget item ''name'') (fieldName @ ''.name'')),
      (''role'', requireNonEmptyString (oget item ''role'') (fieldName @ ''.role'')),
      (''responsibilities'', process_strings False (oget item ''responsibilities'') (fieldName @ ''.responsibilities''))]"

definition normalizeState :: "jsv \<Rightarrow> string \<Rightarrow> jsv res" where
  "normalizeState item fieldName = mk_obj
     [(''id'', requireNonEmptyString (oget item ''id'') (fieldName @ ''.id'')),
      (''name'', requireNonEmptyString (oget item ''name'') (fieldName @ ''.name'')),
      (''kind'', assertEnum BusinessStateKind (oget item ''kind'') (fieldName @ ''.kind'')),
      (''description'', optionalString (oget item ''description'') (fieldName @ ''.description''))]"

definition normalizeTransition :: "jsv \<Rightarrow> string \<Rightarrow> jsv res" where
  "normalizeTransition item fieldName = mk_obj
     [(''id'', requireNonEmptyString (oget item ''id'') (fieldName @ ''.id'')),
      (''name'', requireNonEmptyString (oget item ''name'') (fieldName @ ''.name'')),
      (''fromStateId'', requireNonEmptyString (oget item ''fromStateId'') (fieldName @ ''.fromStateId'')),
      (''toStateId'', requireNonEmptyString (oget item ''toStateId'') (fieldName @ ''.toStateId'')),
      (''trigger'', requireNonEmptyString (oget item ''trigger'') (fieldName @ ''.trigger'')),
      (''actorIds'', process_strings True (oget item ''actorIds'') (fieldName @ ''.actorIds'')),
      (''guards'', process_strings False (oget item ''guards'') (fieldName @ ''.guards'')),
      (''exception'', optionalString (oget item ''exception'') (fieldName @ ''.exception'')),
      (''nextFeatureId'', optionalString (oget item ''nextFeatureId'') (fieldName @ ''.nextFeatureId'')),
      (''implementationFactRefs'', factRefs (oget item ''implementationFactRefs'') (fieldName @ ''.implementationFactRefs''))]"

definition normalizeDesignElement :: "jsv \<Rightarrow> string \<Rightarrow> jsv res" where
  "normalizeDesignElement item fieldName = mk_obj
     [(''id'', requireNonEmptyString (oget item ''id'') (fieldName @ ''.id'')),
      (''name'', requireNonEmptyString (oget item ''name'') (fieldName @ ''.name'')),
      (''type'', assertEnum DesignElementType (oget item ''type'') (fieldName @ ''.type'')),
      (''description'', optionalString (oget item ''description'') (fieldName @ ''.description'')),
      (''implementationFactRefs'', factRefs (oget item ''implementationFactRefs'') (fieldName @ ''.implementationFactRefs''))]"

subsection \<open>The machine\<close>

definition member_ids :: "jsv list \<Rightarrow> jsv list" where
  "member_ids items = map (\<lambda>item. oget item ''id'') items"

definition of_kind :: "string \<Rightarrow> jsv list \<Rightarrow> jsv list" where
  "of_kind kind states = filter (\<lambda>item. oget item ''kind'' = JStr kind) states"

definition check_transition :: "jsv list \<Rightarrow> jsv list \<Rightarrow> jsv \<Rightarrow> unit res" where
  "check_transition stateIds actorIds transition =
     (let from = oget transition ''fromStateId''; to = oget transition ''toStateId'';
          subject = ''Transition '' @ js_string (oget transition ''id'')
      in
      throw_if (from \<notin> set stateIds \<or> to \<notin> set stateIds)
        (TypeErr (subject @ '' must reference states in the same process model'')) (
      throw_if (list_ex (\<lambda>i. i \<notin> set actorIds) (elems (oget transition ''actorIds'')))
        (TypeErr (subject @ '' must reference actors in the same process model'')) (
      throw_if (strict_eq from to) (TypeErr (subject @ '' must change business state'')) (Inr ()))))"

text \<open>One round of the loop: the states reached after it, and whether any was added.\<close>

definition reach_transition :: "jsv list \<times> bool \<Rightarrow> jsv \<Rightarrow> jsv list \<times> bool" where
  "reach_transition st transition =
     (if oget transition ''fromStateId'' \<in> set (fst st) \<and> oget transition ''toStateId'' \<notin> set (fst st)
      then (fst st @ [oget transition ''toStateId''], True) else st)"

definition reach_round :: "jsv list \<Rightarrow> jsv list \<Rightarrow> jsv list \<times> bool" where
  "reach_round transitions reachable = foldl reach_transition (reachable, False) transitions"

definition targets :: "jsv list \<Rightarrow> jsv set" where
  "targets transitions = (\<lambda>t. oget t ''toStateId'') ` set transitions"

lemma reach_transition_cases:
  "oget t ''fromStateId'' \<in> set r \<and> oget t ''toStateId'' \<notin> set r \<Longrightarrow> reach_transition (r, c) t = (r @ [oget t ''toStateId''], True)"
  "\<not> (oget t ''fromStateId'' \<in> set r \<and> oget t ''toStateId'' \<notin> set r) \<Longrightarrow> reach_transition (r, c) t = (r, c)"
  by (auto simp: reach_transition_def)

lemma reach_fold:
  assumes "foldl reach_transition (r, c) ts = (r', c')"
  shows "set r \<subseteq> set r' \<and> set r' \<subseteq> set r \<union> targets ts \<and> (c \<longrightarrow> c') \<and> (c' \<and> \<not> c \<longrightarrow> set r \<noteq> set r') \<and>
    (\<not> c' \<longrightarrow> r' = r \<and> (\<forall>t\<in>set ts. oget t ''fromStateId'' \<in> set r \<longrightarrow> oget t ''toStateId'' \<in> set r))"
  using assms
proof (induction ts arbitrary: r c)
  case (Cons t ts)
  show ?case
  proof (cases "oget t ''fromStateId'' \<in> set r \<and> oget t ''toStateId'' \<notin> set r")
    case True
    with Cons.prems have "foldl reach_transition (r @ [oget t ''toStateId''], True) ts = (r', c')"
      by (simp only: foldl_Cons reach_transition_cases(1) [OF True])
    from Cons.IH [OF this] True show ?thesis unfolding targets_def by auto
  next
    case False
    with Cons.prems have "foldl reach_transition (r, c) ts = (r', c')" by (simp only: foldl_Cons reach_transition_cases(2) [OF False])
    from Cons.IH [OF this] False show ?thesis unfolding targets_def by auto
  qed
qed simp

text \<open>\<open>while (changed) { changed = false; for (const transition of transitions) ... }\<close>\<close>

function reach_states :: "jsv list \<Rightarrow> jsv list \<Rightarrow> jsv list" where
  "reach_states transitions reachable =
     (if snd (reach_round transitions reachable)
      then reach_states transitions (fst (reach_round transitions reachable))
      else fst (reach_round transitions reachable))"
  by auto

termination
proof (relation "measure (\<lambda>(ts, r). card (targets ts - set r))", goal_cases)
  case (2 ts r)
  have "foldl reach_transition (r, False) ts = (fst (reach_round ts r), True)"
    using 2 by (metis reach_round_def prod.collapse)
  from reach_fold [OF this] have "set r \<subset> set (fst (reach_round ts r))" "set (fst (reach_round ts r)) \<subseteq> set r \<union> targets ts"
    by auto
  then have "targets ts - set (fst (reach_round ts r)) \<subset> targets ts - set r" by auto
  then show ?case by (simp add: targets_def psubset_card_mono)
qed simp

declare reach_states.simps [simp del]

definition check_reachable :: "jsv list \<Rightarrow> jsv list \<Rightarrow> unit res" where
  "check_reachable states transitions =
     (let reachable = reach_states transitions (js_set (member_ids (of_kind ''INITIAL'' states)));
          unreachable = filter (\<lambda>i. i \<notin> set reachable) (member_ids states)
      in throw_if (unreachable \<noteq> [])
           (TypeErr (''processModel contains unreachable states: '' @ join '', '' (map js_string unreachable))) (Inr ()))"

definition check_machine :: "jsv list \<Rightarrow> jsv list \<Rightarrow> jsv list \<Rightarrow> unit res" where
  "check_machine actors states transitions =
     throw_if (length (of_kind ''INITIAL'' states) \<noteq> 1)
       (TypeErr ''processModel.states must contain exactly one INITIAL state'') (
     throw_if (of_kind ''TERMINAL'' states = [])
       (TypeErr ''processModel.states must contain at least one TERMINAL state'') (
     bnd (eachR (check_transition (member_ids states) (member_ids actors)) transitions) (\<lambda>_.
     check_reachable states transitions)))"

definition process_authority :: "jsv \<Rightarrow> int option \<Rightarrow> jsv res" where
  "process_authority authority now = mk_obj
     [(''actorId'', requireNonEmptyString (oget authority ''actorId'') ''processModel.authority.actorId''),
      (''actorRole'', requireNonEmptyString (oget authority ''actorRole'') ''processModel.authority.actorRole''),
      (''rationale'', requireNonEmptyString (oget authority ''rationale'') ''processModel.authority.rationale''),
      (''decisionRefs'', process_strings False (oget authority ''decisionRefs'') ''processModel.authority.decisionRefs''),
      (''confirmedAt'', if nullish (oget authority ''confirmedAt'') then now_iso now else Inr (oget authority ''confirmedAt''))]"

definition createBusinessProcessModel :: "jsv \<Rightarrow> int option \<Rightarrow> jsv res" where
  "createBusinessProcessModel input now =
     bnd (uniqueById (oget input ''actors'') ''processModel.actors'' normalizeActor) (\<lambda>actors.
     bnd (uniqueById (oget input ''states'') ''processModel.states'' normalizeState) (\<lambda>states.
     bnd (uniqueById (oget input ''transitions'') ''processModel.transitions'' normalizeTransition) (\<lambda>transitions.
     bnd (if oget input ''designElements'' = JUndef then Inr []
          else uniqueById (oget input ''designElements'') ''processModel.designElements'' normalizeDesignElement)
       (\<lambda>designElements.
     bnd (check_machine actors states transitions) (\<lambda>_.
     mk_obj
      [(''id'', requireNonEmptyString (oget input ''id'') ''processModel.id''),
       (''version'', requirePositiveInteger (oget input ''version'') ''processModel.version''),
       (''featureId'', requireNonEmptyString (oget input ''featureId'') ''processModel.featureId''),
       (''featureVersion'', requirePositiveInteger (oget input ''featureVersion'') ''processModel.featureVersion''),
       (''name'', requireNonEmptyString (oget input ''name'') ''processModel.name''),
       (''description'', optionalString (oget input ''description'') ''processModel.description''),
       (''actors'', Inr (JArr actors)), (''states'', Inr (JArr states)), (''transitions'', Inr (JArr transitions)),
       (''designElements'', Inr (JArr designElements)),
       (''authority'', process_authority (oget input ''authority'') now),
       (''createdAt'', created_at input now)])))))"

definition listBusinessProcessFactRefs :: "jsv \<Rightarrow> jsv list" where
  "listBusinessProcessFactRefs processModel =
     (let refs = concat (map (\<lambda>item. elems (oget item ''implementationFactRefs'')) (elems (oget processModel ''transitions'')))
        @ concat (map (\<lambda>item. elems (oget item ''implementationFactRefs'')) (elems (oget processModel ''designElements'')))
      in map snd (js_map (map (\<lambda>item. (fact_ref_key item, item)) refs)))"

subsection \<open>The loop finds the reachable states\<close>

definition flow :: "jsv list \<Rightarrow> (jsv \<times> jsv) set" where
  "flow transitions = (\<lambda>t. (oget t ''fromStateId'', oget t ''toStateId'')) ` set transitions"

lemma reach_fold_sound:
  "foldl reach_transition (r, c) ts = (r', c') \<Longrightarrow> set ts \<subseteq> set all \<Longrightarrow> set r' \<subseteq> (flow all)\<^sup>* `` set r"
proof (induction ts arbitrary: r c)
  case (Cons t ts)
  let ?f = "oget t ''fromStateId''" and ?t = "oget t ''toStateId''"
  show ?case
  proof (cases "?f \<in> set r \<and> ?t \<notin> set r")
    case True
    with Cons.prems have "foldl reach_transition (r @ [?t], True) ts = (r', c')"
      by (simp only: foldl_Cons reach_transition_cases(1) [OF True])
    from Cons.IH [OF this] Cons.prems(2) have "set r' \<subseteq> (flow all)\<^sup>* `` set (r @ [?t])" by simp
    moreover have "(?f, ?t) \<in> flow all" using Cons.prems(2) by (auto simp: flow_def)
    ultimately show ?thesis using True by (auto intro: converse_rtrancl_into_rtrancl)
  next
    case False
    with Cons.prems(1) have "foldl reach_transition (r, c) ts = (r', c')"
      by (simp only: foldl_Cons reach_transition_cases(2) [OF False])
    from Cons.IH [OF this] Cons.prems(2) show ?thesis by simp
  qed
qed auto

lemma reach_states_exact: "set (reach_states ts r) = (flow ts)\<^sup>* `` set r"
proof (induction ts r rule: reach_states.induct)
  case (1 ts r)
  obtain r' c where round: "foldl reach_transition (r, False) ts = (r', c)" by fastforce
  note facts = reach_fold [OF round]
  have eq: "reach_round ts r = (r', c)" using round by (simp add: reach_round_def)
  show ?case
  proof (cases c)
    case True
    with 1 eq have "set (reach_states ts r') = (flow ts)\<^sup>* `` set r'" by simp
    moreover have "set r \<subseteq> set r'" "set r' \<subseteq> (flow ts)\<^sup>* `` set r"
      using facts reach_fold_sound [OF round subset_refl] by auto
    then have "(flow ts)\<^sup>* `` set r' = (flow ts)\<^sup>* `` set r"
      using Image_mono [OF subset_refl, of "set r'" "(flow ts)\<^sup>* `` set r" "(flow ts)\<^sup>*"]
      by (auto simp: relcomp_Image [symmetric])
    ultimately show ?thesis using True eq by (subst reach_states.simps) simp
  next
    case False
    with facts have "r' = r" "(flow ts) `` set r \<subseteq> set r" by (auto simp: flow_def)
    from Image_closed_trancl [OF this(2)] this(1) False eq show ?thesis by (subst reach_states.simps) simp
  qed
qed

subsection \<open>What a created model is\<close>

text \<open>
  A closed, connected machine: distinct identifiers, one initial state from which every state is
  reached, a terminal state, and transitions that change the state and are made by the model's actors.
\<close>

definition connected_machine :: "jsv \<Rightarrow> bool" where
  "connected_machine b \<longleftrightarrow>
     (let actors = elems (oget b ''actors''); states = elems (oget b ''states''); transitions = elems (oget b ''transitions'')
      in distinct (member_ids actors) \<and> distinct (member_ids states) \<and> distinct (member_ids transitions) \<and>
         (\<exists>start\<in>set states. of_kind ''INITIAL'' states = [start] \<and>
            (\<forall>s\<in>set states. (oget start ''id'', oget s ''id'') \<in> (flow transitions)\<^sup>*)) \<and>
         (\<exists>s\<in>set states. oget s ''kind'' = JStr ''TERMINAL'') \<and>
         (\<forall>t\<in>set transitions. oget t ''fromStateId'' \<in> set (member_ids states) \<and>
            oget t ''toStateId'' \<in> set (member_ids states) \<and> oget t ''fromStateId'' \<noteq> oget t ''toStateId'' \<and>
            elems (oget t ''actorIds'') \<noteq> [] \<and> set (elems (oget t ''actorIds'')) \<subseteq> set (member_ids actors)))"

lemma uniqueById_Inr:
  assumes "uniqueById items f g = Inr xs"
  shows "distinct (member_ids xs)" and "x \<in> set xs \<Longrightarrow> \<exists>v h. g v h = Inr x"
proof -
  from assms obtain ys where xs: "mapiR (\<lambda>index item. g item (at_index f index)) 0 ys = Inr xs"
    and d: "length (js_set (map (\<lambda>item. oget item ''id'') xs)) = length xs"
    by (auto simp: uniqueById_def bnd_eq_Inr throw_if_eq_Inr)
  from d show "distinct (member_ids xs)" unfolding member_ids_def by (metis length_js_set_iff length_map)
  show "\<exists>v h. g v h = Inr x" if "x \<in> set xs" using mapiR_in_set [OF xs that] by blast
qed

lemma process_strings_filled: "process_strings True v f = Inr w \<Longrightarrow> elems w \<noteq> []"
  by (auto simp: process_strings_def bnd_eq_Inr throw_if_eq_Inr requireArray_Inr dest!: mapiR_length split: if_splits)

lemma normalizeTransition_members:
  assumes "normalizeTransition item f = Inr t"
  shows "is_string (oget t ''fromStateId'')" and "elems (oget t ''actorIds'') \<noteq> []"
proof -
  note m = mk_obj_member [OF assms [unfolded normalizeTransition_def]]
  from m [of "''fromStateId''"] show "is_string (oget t ''fromStateId'')" by (auto simp: requireNonEmptyString_Inr)
  from m [of "''actorIds''"] have "process_strings True (oget item ''actorIds'') (f @ ''.actorIds'') = Inr (oget t ''actorIds'')"
    by simp
  then show "elems (oget t ''actorIds'') \<noteq> []" by (rule process_strings_filled)
qed

lemma check_transition_Inr:
  assumes "check_transition states actors t = Inr u" and "is_string (oget t ''fromStateId'')"
  shows "oget t ''fromStateId'' \<in> set states \<and> oget t ''toStateId'' \<in> set states \<and>
    oget t ''fromStateId'' \<noteq> oget t ''toStateId'' \<and> set (elems (oget t ''actorIds'')) \<subseteq> set actors"
  using assms unfolding check_transition_def Let_def
  by (auto simp: throw_if_eq_Inr list_ex_iff is_string_iff)

lemma check_reachable_Inr:
  assumes "check_reachable states ts = Inr u" and "of_kind ''INITIAL'' states = [start]" and "s \<in> set states"
  shows "(oget start ''id'', oget s ''id'') \<in> (flow ts)\<^sup>*"
proof -
  from assms(1,3) have "oget s ''id'' \<in> set (reach_states ts (js_set (member_ids (of_kind ''INITIAL'' states))))"
    by (auto simp: check_reachable_def Let_def throw_if_eq_Inr filter_empty_conv member_ids_def)
  then show ?thesis by (simp add: reach_states_exact assms(2) member_ids_def)
qed

lemma createBusinessProcessModel_run:
  assumes "createBusinessProcessModel input now = Inr b"
  obtains actors states ts ds u where
    "uniqueById (oget input ''actors'') ''processModel.actors'' normalizeActor = Inr actors"
    "uniqueById (oget input ''states'') ''processModel.states'' normalizeState = Inr states"
    "uniqueById (oget input ''transitions'') ''processModel.transitions'' normalizeTransition = Inr ts"
    "check_machine actors states ts = Inr u"
    "oget b ''actors'' = JArr actors" "oget b ''states'' = JArr states" "oget b ''transitions'' = JArr ts"
    "oget b ''designElements'' = JArr ds" "oget b ''featureId'' = oget input ''featureId''"
    "\<forall>d\<in>set ds. \<exists>v h. normalizeDesignElement v h = Inr d"
proof -
  from assms obtain actors states ts ds u es where r:
    "uniqueById (oget input ''actors'') ''processModel.actors'' normalizeActor = Inr actors"
    "uniqueById (oget input ''states'') ''processModel.states'' normalizeState = Inr states"
    "uniqueById (oget input ''transitions'') ''processModel.transitions'' normalizeTransition = Inr ts"
    "check_machine actors states ts = Inr u" "mk_obj es = Inr b"
    and ds: "(if oget input ''designElements'' = JUndef then Inr []
      else uniqueById (oget input ''designElements'') ''processModel.designElements'' normalizeDesignElement) = Inr ds"
    and es: "map_of es ''actors'' = Some (Inr (JArr actors))" "map_of es ''states'' = Some (Inr (JArr states))"
      "map_of es ''transitions'' = Some (Inr (JArr ts))" "map_of es ''designElements'' = Some (Inr (JArr ds))"
      "map_of es ''featureId'' = Some (requireNonEmptyString (oget input ''featureId'') ''processModel.featureId'')"
    unfolding createBusinessProcessModel_def
    apply (simp only: bnd_eq_Inr)
    apply (elim exE conjE)
    apply (rule that)
              apply assumption+
         apply simp_all
    done
  have des: "\<forall>d\<in>set ds. \<exists>v h. normalizeDesignElement v h = Inr d"
    using ds uniqueById_Inr(2) [of "oget input ''designElements''" _ normalizeDesignElement ds] by (auto split: if_splits)
  note m = es [THEN mk_obj_member [OF r(5)]]
  from m have "oget b ''actors'' = JArr actors" "oget b ''states'' = JArr states" "oget b ''transitions'' = JArr ts"
    "oget b ''designElements'' = JArr ds" "oget b ''featureId'' = oget input ''featureId''"
    by (auto simp: requireNonEmptyString_Inr)
  from that [OF r(1-4) this des] show ?thesis .
qed

lemma created_model_connected:
  assumes "createBusinessProcessModel input now = Inr b"
  shows "connected_machine b"
  using assms
proof (rule createBusinessProcessModel_run, goal_cases)
  case (1 actors states ts ds u)
  note d = uniqueById_Inr [OF 1(1)] uniqueById_Inr [OF 1(2)] uniqueById_Inr [OF 1(3)]
  from 1(4) have c: "length (of_kind ''INITIAL'' states) = 1" "of_kind ''TERMINAL'' states \<noteq> []"
    "eachR (check_transition (member_ids states) (member_ids actors)) ts = Inr ()" "check_reachable states ts = Inr u"
    by (auto simp: check_machine_def throw_if_eq_Inr bnd_eq_Inr)
  from c(1) obtain start where start: "of_kind ''INITIAL'' states = [start]" by (auto simp: length_Suc_conv)
  then have "start \<in> set states" by (auto simp: of_kind_def filter_eq_Cons_iff)
  moreover from c(2) have "\<exists>s\<in>set states. oget s ''kind'' = JStr ''TERMINAL''" by (auto simp: of_kind_def filter_empty_conv)
  moreover have "oget t ''fromStateId'' \<in> set (member_ids states) \<and> oget t ''toStateId'' \<in> set (member_ids states) \<and>
      oget t ''fromStateId'' \<noteq> oget t ''toStateId'' \<and> elems (oget t ''actorIds'') \<noteq> [] \<and>
      set (elems (oget t ''actorIds'')) \<subseteq> set (member_ids actors)" if t: "t \<in> set ts" for t
  proof -
    from d(6) [OF t] obtain v h where n: "normalizeTransition v h = Inr t" by blast
    from c(3) t have "check_transition (member_ids states) (member_ids actors) t = Inr ()" by (simp add: eachR_Inr)
    from check_transition_Inr [OF this normalizeTransition_members(1) [OF n]] normalizeTransition_members(2) [OF n]
    show ?thesis by simp
  qed
  ultimately show ?case
    using d(1,3,5) start check_reachable_Inr [OF c(4) start]
    unfolding connected_machine_def Let_def 1(5-7) elems.simps by blast
qed

subsection \<open>The references to the implementation\<close>

definition implementation_refs :: "jsv \<Rightarrow> jsv list" where
  "implementation_refs processModel =
     concat (map (\<lambda>item. elems (oget item ''implementationFactRefs''))
       (elems (oget processModel ''transitions'') @ elems (oget processModel ''designElements'')))"

lemma factRefs_strings:
  assumes "factRefs v f = Inr w" and "r \<in> set (elems w)"
  shows "is_string (oget r ''factId'')"
proof (cases "v = JUndef")
  case False
  with assms(1) obtain xs rs where w: "w = JArr rs" and rs: "mapiR (\<lambda>index item. mk_obj
            [(''snapshotManifestId'', requireNonEmptyString (oget item ''snapshotManifestId'')
                (at_index f index @ ''.snapshotManifestId'')),
             (''factId'', requireNonEmptyString (oget item ''factId'') (at_index f index @ ''.factId''))]) 0 xs = Inr rs"
    by (auto simp: factRefs_def bnd_eq_Inr throw_if_eq_Inr)
  from assms(2) w have "r \<in> set rs" by simp
  from mapiR_in_set [OF rs this] obtain index item where
    r: "mk_obj [(''snapshotManifestId'', requireNonEmptyString (oget item ''snapshotManifestId'')
                (at_index f index @ ''.snapshotManifestId'')),
             (''factId'', requireNonEmptyString (oget item ''factId'') (at_index f index @ ''.factId''))] = Inr r" by blast
  from mk_obj_member [OF r, of "''factId''"] show ?thesis by (auto simp: requireNonEmptyString_Inr)
qed (use assms in \<open>auto simp: factRefs_def\<close>)

lemma created_refs_strings:
  assumes "createBusinessProcessModel input now = Inr b" and "r \<in> set (implementation_refs b)"
  shows "is_string (oget r ''factId'')"
  using assms(1)
proof (rule createBusinessProcessModel_run, goal_cases)
  case (1 actors states ts ds u)
  from assms(2) obtain item where "item \<in> set ts \<or> item \<in> set ds" and r: "r \<in> set (elems (oget item ''implementationFactRefs''))"
    unfolding implementation_refs_def 1(7,8) elems.simps by auto
  then have "\<exists>v h. factRefs v h = Inr (oget item ''implementationFactRefs'')"
  proof (elim disjE)
    assume "item \<in> set ts"
    from uniqueById_Inr(2) [OF 1(3) this] obtain v h where "normalizeTransition v h = Inr item" by (elim exE)
    from mk_obj_member [OF this [unfolded normalizeTransition_def], of "''implementationFactRefs''"] show ?thesis
      by (simp, intro exI)
  next
    assume "item \<in> set ds"
    with 1(10) obtain v h where "normalizeDesignElement v h = Inr item" by blast
    from mk_obj_member [OF this [unfolded normalizeDesignElement_def], of "''implementationFactRefs''"] show ?thesis
      by (simp, intro exI)
  qed
  then obtain v h where "factRefs v h = Inr (oget item ''implementationFactRefs'')" by (elim exE)
  from factRefs_strings [OF this r] show ?case .
qed

lemma refs_listed:
  assumes "r \<in> set (implementation_refs b)"
  shows "\<exists>r'\<in>set (listBusinessProcessFactRefs b). fact_ref_key r' = fact_ref_key r"
proof -
  let ?es = "map (\<lambda>item. (fact_ref_key item, item)) (implementation_refs b)"
  have l: "listBusinessProcessFactRefs b = map snd (js_map ?es)"
    by (simp add: listBusinessProcessFactRefs_def implementation_refs_def Let_def)
  have "fact_ref_key r \<in> set (map fst (js_map ?es))" using assms unfolding keys_js_map by (simp add: image_image)
  then obtain e where e: "e \<in> set (js_map ?es)" "fst e = fact_ref_key r" by auto
  from js_map_in_set [OF e(1)] have "fst e = fact_ref_key (snd e)" by auto
  with e show ?thesis unfolding l by force
qed

lemma listed_refs: "r \<in> set (listBusinessProcessFactRefs b) \<Longrightarrow> r \<in> set (implementation_refs b)"
  by (auto simp: listBusinessProcessFactRefs_def implementation_refs_def Let_def dest!: js_map_in_set)

subsection \<open>The guarantees\<close>

text \<open>
  C29: The loop over the transitions ends and is exact. For every list of transitions and every start
  set, the states it returns are exactly those reachable from the start along the transitions.
\<close>
theorem process_loop_finds_reachable_states:
  "set (reach_states transitions start) = (flow transitions)\<^sup>* `` set start"
  by (rule reach_states_exact)

text \<open>
  C30: A created model is a closed, connected machine. The identifiers of its actors, states and
  transitions are distinct; it has exactly one initial state, from which every state is reached, and a
  terminal state; every transition joins two different states of the model and is made by at least one
  actor, all of them of the model.
\<close>
theorem created_process_is_connected:
  assumes "createBusinessProcessModel input now = Inr b"
  shows "connected_machine b"
  using assms by (rule created_model_connected)

definition sample_process_fields :: "jsv \<Rightarrow> (string \<times> jsv) list" where
  "sample_process_fields refs =
     (let n = \<lambda>i. [(''id'', JStr i), (''name'', JStr i)];
          state = \<lambda>i k. JObj (n i @ [(''kind'', JStr k)]);
          move = \<lambda>i a b. JObj (n i @ [(''fromStateId'', JStr a), (''toStateId'', JStr b), (''trigger'', JStr ''go''),
             (''actorIds'', JArr [JStr ''u'']), (''implementationFactRefs'', refs)])
      in [(''id'', JStr ''P''), (''version'', JNum 1), (''featureVersion'', JNum 1), (''name'', JStr ''order''),
          (''actors'', JArr [JObj (n ''u'' @ [(''role'', JStr ''buyer'')])]),
          (''states'', JArr [state ''s2'' ''TERMINAL'', state ''s1'' ''INTERMEDIATE'', state ''s0'' ''INITIAL'']),
          (''transitions'', JArr [move ''b'' ''s1'' ''s2'', move ''a'' ''s0'' ''s1'']),
          (''authority'', JObj [(''rationale'', JStr ''ok'')])])"

definition sample_process :: jsv where
  "sample_process = JObj (spread (sample_process_fields JUndef)
     [(''featureId'', JStr ''F''),
      (''authority'', JObj [(''actorId'', JStr ''ann''), (''actorRole'', JStr ''owner''), (''rationale'', JStr ''ok'')])])"

lemma sample_process_created: "is_ok (createBusinessProcessModel sample_process (Some 0))"
  by code_simp

theorem created_process_is_connected_witness:
  "\<exists>b. createBusinessProcessModel sample_process (Some 0) = Inr b \<and> connected_machine b"
proof -
  obtain b where b: "createBusinessProcessModel sample_process (Some 0) = Inr b"
    using sample_process_created by (cases "createBusinessProcessModel sample_process (Some 0)") simp_all
  from created_process_is_connected [OF b] b show ?thesis by iprover
qed

end
