(* ===== verification/Process_Workflow.thy ===== *)
theory Process_Workflow
  imports Project_Parts Fact_Queries Business_Process
begin

section \<open>Confirming business process models\<close>

text \<open>
  \<open>appendBusinessProcessModel\<close> and \<open>getBusinessProcessModel\<close> of the application
  (\<open>src/application/traceability-application.js\<close>) and the lookup of facts by reference in the store
  (\<open>src/storage/memory-traceability-store.js\<close>). Shown: every stored model is a closed, connected
  machine, and each of its references to the implementation names a fact of a stored bundle.
\<close>

record fact_graph =
  fg_nodes :: "jsv list"
  fg_edges :: "jsv list"
  fg_missingFactRefs :: "jsv list"

definition manifest_bundles :: "string \<Rightarrow> jsv \<Rightarrow> store \<Rightarrow> jsv list" where
  "manifest_bundles projectId snapshotManifestId s =
     filter (\<lambda>b. strict_eq (oget b ''snapshotManifestId'') snapshotManifestId) (project_values projectId (st_factBundles s))"

definition getFactGraphByReferences :: "string \<Rightarrow> jsv \<Rightarrow> jsv list \<Rightarrow> store \<Rightarrow> fact_graph" where
  "getFactGraphByReferences projectId snapshotManifestId refs s =
     (let requested = js_value_set refs;
          bundles = manifest_bundles projectId snapshotManifestId s;
          selectedNodes = filter (\<lambda>n. oget n ''factId'' \<in> set requested) (tagged ''nodes'' bundles);
          selectedEdges = filter (\<lambda>e. oget e ''id'' \<in> set requested) (tagged ''edges'' bundles);
          endpointKeys = concat (map (\<lambda>e. [graph_key e ''subjectId'', graph_key e ''objectId'']) selectedEdges);
          endpointNodes = filter (\<lambda>n. graph_key n ''id'' \<in> set endpointKeys) (tagged ''nodes'' bundles);
          nodes = map snd (js_map (map (\<lambda>n. (graph_key n ''id'', n)) (selectedNodes @ endpointNodes)));
          found = map (\<lambda>n. oget n ''factId'') selectedNodes @ map (\<lambda>e. oget e ''id'') selectedEdges
      in \<lparr>fg_nodes = nodes, fg_edges = selectedEdges,
          fg_missingFactRefs = filter (\<lambda>f. f \<notin> set found) requested\<rparr>)"

definition add_ref :: "(jsv \<times> jsv list) list \<Rightarrow> jsv \<Rightarrow> (jsv \<times> jsv list) list" where
  "add_ref refsBySnapshot ref =
     (let m = oget ref ''snapshotManifestId'';
          refs = (case map_of refsBySnapshot m of None \<Rightarrow> [] | Some fs \<Rightarrow> fs)
      in AList.update m (refs @ [oget ref ''factId'']) refsBySnapshot)"

definition check_snapshot_refs :: "string \<Rightarrow> store \<Rightarrow> jsv \<times> jsv list \<Rightarrow> unit res" where
  "check_snapshot_refs projectId s entry =
     (let snapshotManifestId = fst entry;
          missing = fg_missingFactRefs (getFactGraphByReferences projectId snapshotManifestId (snd entry) s)
      in
      throw_if (\<not> truthy (getSnapshotManifest projectId (js_string snapshotManifestId) s))
        (ConflictErr (''SnapshotManifest '' @ js_string snapshotManifestId @ '' does not exist in project '' @ projectId)) (
      throw_if (missing \<noteq> [])
        (ConflictErr (''Business process implementation references are missing from Snapshot ''
           @ js_string snapshotManifestId @ '': '' @ join '', '' (map js_string missing))) (Inr ())))"

text \<open>Who may confirm which model: the checks before the model is built.\<close>

definition process_request :: "app_env \<Rightarrow> string \<Rightarrow> string \<Rightarrow> jsv \<Rightarrow> jsv \<Rightarrow> (jsv \<times> jsv) res" where
  "process_request env projectId featureId input requestContext =
     bnd (requireId (JStr projectId) ''projectId'') (\<lambda>_.
     bnd (requireId (JStr featureId) ''featureId'') (\<lambda>_.
     bnd (require_input input ''process model input'') (\<lambda>_.
     throw_if (has_own input ''featureId'' \<or> has_own input ''createdAt'')
       (TypeErr ''processModel.featureId and processModel.createdAt are assigned by the server or route'') (
     bnd (forbid_server_fields (coalesce (oget input ''authority'') (JObj [])) ''processModel.authority''
            [''actorId'', ''actorRole'', ''confirmedAt'']) (\<lambda>_.
     let reviewer = ae_reviewerResolver env projectId requestContext in
     bnd (resolve_actor reviewer) (\<lambda>(actorId, actorRole).
     let policy = coalesce (ae_reviewPolicyResolver env projectId
           (JObj [(''reviewer'', reviewer), (''featureId'', JStr featureId), (''processModelInput'', input)])) (JObj [])
     in
     bnd (require_role (oget policy ''allowedProcessModelRoles'') actorRole
            '' cannot confirm business process models in this project'') (\<lambda>_.
     Inr (actorId, actorRole))))))))"

definition app_appendBusinessProcessModel ::
  "app_env \<Rightarrow> string \<Rightarrow> string \<Rightarrow> jsv \<Rightarrow> jsv \<Rightarrow> store \<Rightarrow> (store \<times> jsv) res" where
  "app_appendBusinessProcessModel env projectId featureId input requestContext s =
     bnd (process_request env projectId featureId input requestContext) (\<lambda>(actorId, actorRole).
     bnd (createBusinessProcessModel
            (with_fields input
              [(''featureId'', JStr featureId),
               (''authority'', with_fields (oget input ''authority'') [(''actorId'', actorId), (''actorRole'', actorRole)])])
            (ae_clock env)) (\<lambda>processModel.
     bnd (eachR (check_snapshot_refs projectId s) (foldl add_ref [] (listBusinessProcessFactRefs processModel))) (\<lambda>_.
     bnd (appendBusinessProcessModel projectId processModel s) (\<lambda>(s', _).
     Inr (s', processModel)))))"

definition app_getBusinessProcessModel ::
  "(string \<Rightarrow> string \<Rightarrow> int) \<Rightarrow> string \<Rightarrow> jsv \<Rightarrow> store \<Rightarrow> jsv res" where
  "app_getBusinessProcessModel lc projectId featureId s =
     bnd (requireId (JStr projectId) ''projectId'') (\<lambda>_.
     bnd (requireId featureId ''featureId'') (\<lambda>_.
     Inr (getLatestBusinessProcessModel lc projectId featureId s)))"

subsection \<open>References that resolve\<close>

text \<open>A reference names a node by its fact identifier or an edge by its identifier, in a bundle of its snapshot.\<close>

definition resolves :: "jsv list \<Rightarrow> jsv \<Rightarrow> bool" where
  "resolves bundles ref \<longleftrightarrow> (\<exists>b\<in>set bundles. \<exists>f.
     (f \<in> (\<lambda>n. oget n ''factId'') ` set (tagged ''nodes'' [b]) \<or> f \<in> set (ids_of (tagged ''edges'' [b]))) \<and>
     fact_ref_key ref = js_string (oget b ''snapshotManifestId'') @ nul @ js_string f)"

lemma resolves_mono: "resolves bs r \<Longrightarrow> set bs \<subseteq> set bs' \<Longrightarrow> resolves bs' r"
  unfolding resolves_def by (elim bexE, rule bexI) (assumption, erule subsetD)

lemma tagged_split: "v \<in> set (tagged k bs) \<Longrightarrow> \<exists>b\<in>set bs. v \<in> set (tagged k [b])"
  by (auto simp: tagged_def)

lemma map_of_add_ref:
  "map_of (add_ref acc r) = (map_of acc)(oget r ''snapshotManifestId'' \<mapsto>
     (case map_of acc (oget r ''snapshotManifestId'') of None \<Rightarrow> [] | Some fs \<Rightarrow> fs) @ [oget r ''factId''])"
  unfolding add_ref_def Let_def by (rule update_conv')

lemma grouped_keeps:
  "map_of acc m = Some fs \<Longrightarrow> \<exists>fs'. map_of (foldl add_ref acc refs) m = Some fs' \<and> set fs \<subseteq> set fs'"
proof (induction refs arbitrary: acc fs)
  case (Cons r refs)
  then have "\<exists>fs'. map_of (add_ref acc r) m = Some fs' \<and> set fs \<subseteq> set fs'"
    by (cases "m = oget r ''snapshotManifestId''") (auto simp: map_of_add_ref)
  then obtain fs1 where fs1: "map_of (add_ref acc r) m = Some fs1" "set fs \<subseteq> set fs1" by (elim exE conjE)
  from Cons.IH [OF fs1(1)] obtain fs' where "map_of (foldl add_ref (add_ref acc r) refs) m = Some fs'" "set fs1 \<subseteq> set fs'"
    by (elim exE conjE)
  with fs1(2) have "map_of (foldl add_ref acc (r # refs)) m = Some fs' \<and> set fs \<subseteq> set fs'" by auto
  then show ?case by (rule exI)
qed auto

lemma grouped:
  "r \<in> set refs \<Longrightarrow> \<exists>fs. map_of (foldl add_ref acc refs) (oget r ''snapshotManifestId'') = Some fs \<and> oget r ''factId'' \<in> set fs"
proof (induction refs arbitrary: acc)
  case (Cons r' refs)
  show ?case
  proof (cases "r \<in> set refs")
    case True
    with Cons.IH show ?thesis by simp
  next
    case False
    with Cons.prems have "r' = r" by simp
    then obtain fs where fs: "map_of (add_ref acc r') (oget r ''snapshotManifestId'') = Some fs" "oget r ''factId'' \<in> set fs"
      by (simp add: map_of_add_ref)
    from grouped_keeps [OF fs(1), of refs] obtain fs' where
      "map_of (foldl add_ref (add_ref acc r') refs) (oget r ''snapshotManifestId'') = Some fs'" "set fs \<subseteq> set fs'"
      by (elim exE conjE)
    with fs(2) have "map_of (foldl add_ref acc (r' # refs)) (oget r ''snapshotManifestId'') = Some fs' \<and>
        oget r ''factId'' \<in> set fs'" by auto
    then show ?thesis by (rule exI)
  qed
qed simp

lemma check_snapshot_refs_resolves:
  assumes "check_snapshot_refs p s (m, fs) = Inr u" and "f \<in> set fs" and "list_all is_string fs"
    and "oget r ''snapshotManifestId'' = m" "oget r ''factId'' = f"
  shows "resolves (project_values p (st_factBundles s)) r"
proof -
  let ?bs = "manifest_bundles p m s"
  have "set (js_value_set fs) = set fs" using js_value_set_strs [of fs] assms(3) by simp
  with assms(1,2) have "f \<in> (\<lambda>n. oget n ''factId'') ` set (tagged ''nodes'' ?bs) \<or> f \<in> set (ids_of (tagged ''edges'' ?bs))"
    unfolding check_snapshot_refs_def Let_def fst_conv snd_conv getFactGraphByReferences_def
    by (auto simp: throw_if_eq_Inr filter_empty_conv ids_of_def)
  then have "\<exists>b\<in>set ?bs. f \<in> (\<lambda>n. oget n ''factId'') ` set (tagged ''nodes'' [b]) \<or> f \<in> set (ids_of (tagged ''edges'' [b]))"
  proof
    assume "f \<in> (\<lambda>n. oget n ''factId'') ` set (tagged ''nodes'' ?bs)"
    then obtain n where n: "n \<in> set (tagged ''nodes'' ?bs)" "f = oget n ''factId''" by (rule imageE)
    from tagged_split [OF n(1)] n(2) show ?thesis by (elim bexE) (rule bexI, rule disjI1, rule image_eqI)
  next
    assume "f \<in> set (ids_of (tagged ''edges'' ?bs))"
    then obtain e where e: "e \<in> set (tagged ''edges'' ?bs)" "f = oget e ''id''" unfolding ids_of_def set_map by (rule imageE)
    from tagged_split [OF e(1)] e(2) show ?thesis
      unfolding ids_of_def set_map by (elim bexE) (rule bexI, rule disjI2, rule image_eqI)
  qed
  then obtain b where b: "b \<in> set ?bs"
    "f \<in> (\<lambda>n. oget n ''factId'') ` set (tagged ''nodes'' [b]) \<or> f \<in> set (ids_of (tagged ''edges'' [b]))"
    by (elim bexE)
  from b(1) have "b \<in> set (project_values p (st_factBundles s))" "oget b ''snapshotManifestId'' = m"
    by (auto simp: manifest_bundles_def dest: strict_eqD)
  with b(2) show ?thesis
    unfolding resolves_def fact_ref_key_def assms(4,5) nul_def by (intro bexI exI conjI) simp_all
qed

subsection \<open>Every stored model is connected and implemented\<close>

inductive modelled :: "string \<Rightarrow> store \<Rightarrow> bool" for p where
  mod_start: "project_part p (st_businessProcessModels s) = [] \<Longrightarrow> modelled p s"
| mod_confirm: "modelled p s \<Longrightarrow> app_appendBusinessProcessModel env p i input ctx s = Inr (s', r) \<Longrightarrow> modelled p s'"
| mod_other: "modelled p s \<Longrightarrow> project_part p (st_businessProcessModels s') = project_part p (st_businessProcessModels s) \<Longrightarrow>
    set (project_values p (st_factBundles s)) \<subseteq> set (project_values p (st_factBundles s')) \<Longrightarrow> modelled p s'"

definition process_inv :: "string \<Rightarrow> store \<Rightarrow> bool" where
  "process_inv p s \<longleftrightarrow> (\<forall>b\<in>set (project_values p (st_businessProcessModels s)). connected_machine b \<and>
     (\<forall>r\<in>set (implementation_refs b). resolves (project_values p (st_factBundles s)) r))"

lemma app_process_run:
  assumes "app_appendBusinessProcessModel env p i input ctx s = Inr (s', r)"
  obtains j u where "createBusinessProcessModel j (ae_clock env) = Inr r"
    "eachR (check_snapshot_refs p s) (foldl add_ref [] (listBusinessProcessFactRefs r)) = Inr u"
    "\<exists>r'. appendBusinessProcessModel p r s = Inr (s', r')"
  using assms unfolding app_appendBusinessProcessModel_def
  apply (simp only: bnd_eq_Inr split_paired_Ex prod.case sum.inject prod.inject)
  apply (elim exE conjE)
  apply hypsubst
  apply (rule that)
    apply assumption
   apply assumption
  apply (rule exI, assumption)
  done

lemma group_strings:
  assumes "\<forall>r\<in>set refs. is_string (oget r ''factId'')" and "\<And>fs. map_of acc m = Some fs \<Longrightarrow> list_all is_string fs"
    and "map_of (foldl add_ref acc refs) m = Some fs"
  shows "list_all is_string fs"
  using assms
proof (induction refs arbitrary: acc)
  case (Cons r refs)
  have ok: "list_all is_string fs'" if "map_of (add_ref acc r) m = Some fs'" for fs'
    using that Cons.prems(1,2) by (auto simp: map_of_add_ref split: if_splits option.splits)
  show ?case by (rule Cons.IH [OF _ ok]) (use Cons.prems in simp_all)
qed simp

lemma confirmed_refs_resolve:
  assumes b: "createBusinessProcessModel j now = Inr b"
    and c: "eachR (check_snapshot_refs p s) (foldl add_ref [] (listBusinessProcessFactRefs b)) = Inr u"
    and r: "r \<in> set (implementation_refs b)"
  shows "resolves (project_values p (st_factBundles s)) r"
proof -
  let ?g = "foldl add_ref [] (listBusinessProcessFactRefs b)"
  from refs_listed [OF r] obtain r' where r': "r' \<in> set (listBusinessProcessFactRefs b)" "fact_ref_key r' = fact_ref_key r" by blast
  from grouped [OF r'(1)] obtain fs where fs: "map_of ?g (oget r' ''snapshotManifestId'') = Some fs" "oget r' ''factId'' \<in> set fs"
    by blast
  have mem: "(oget r' ''snapshotManifestId'', fs) \<in> set ?g" using fs(1) by (rule map_of_SomeD)
  have "check_snapshot_refs p s (oget r' ''snapshotManifestId'', fs) = Inr ()" using c mem by (simp add: eachR_Inr)
  moreover have "list_all is_string fs"
    using created_refs_strings [OF b listed_refs] by (intro group_strings [OF _ _ fs(1)]) simp_all
  ultimately have "resolves (project_values p (st_factBundles s)) r'"
    using fs(2) by (intro check_snapshot_refs_resolves) simp_all
  then show ?thesis unfolding resolves_def r'(2) .
qed

lemma process_append:
  assumes "appendBusinessProcessModel p b s = Inr (s', r)"
  shows "set (project_values p (st_businessProcessModels s')) \<subseteq> insert b (set (project_values p (st_businessProcessModels s)))"
    and "st_factBundles s' = st_factBundles s"
proof -
  from assms obtain l coll where coll: "appendVersion (st_businessProcessModels s) (store_key p (version_key b)) b l = Inr coll"
    and s': "s' = s\<lparr>st_businessProcessModels := coll\<rparr>"
    unfolding appendBusinessProcessModel_def by (auto simp: throw_if_eq_Inr bnd_eq_Inr)
  from coll show "set (project_values p (st_businessProcessModels s')) \<subseteq> insert b (set (project_values p (st_businessProcessModels s)))"
    by (cases rule: appendVersion_part) (auto simp: s' project_values_part)
  show "st_factBundles s' = st_factBundles s" by (simp add: s')
qed

lemma modelled_inv: "modelled p s \<Longrightarrow> process_inv p s"
proof (induction rule: modelled.induct)
  case (mod_start s)
  then show ?case by (simp add: process_inv_def project_values_part)
next
  case (mod_confirm s env i input ctx s' r)
  from mod_confirm(2) show ?case
  proof (rule app_process_run, goal_cases)
    case (1 j u)
    from 1(3) obtain r' where ap: "appendBusinessProcessModel p r s = Inr (s', r')" ..
    have "\<forall>x\<in>set (implementation_refs r). resolves (project_values p (st_factBundles s)) x"
      using confirmed_refs_resolve [OF 1(1,2)] by (rule ballI)
    with mod_confirm(3) created_model_connected [OF 1(1)] process_append [OF ap] show ?case
      unfolding process_inv_def by (metis insertE subsetD)
  qed
next
  case (mod_other s s')
  then show ?case unfolding process_inv_def project_values_part [of p "st_businessProcessModels s'"]
    by (auto simp: project_values_part [of p "st_businessProcessModels s"] intro: resolves_mono)
qed

text \<open>
  C16: A confirmed process is connected and implemented. In every store in which the process models of a
  project come from confirmations while facts are only added, each stored model is a closed, connected
  machine and each reference of a transition or a design element names a node or an edge of a stored
  bundle of its snapshot.
\<close>
theorem stored_processes_are_implemented:
  assumes "modelled p s" and "b \<in> set (project_values p (st_businessProcessModels s))"
  shows "connected_machine b \<and> (\<forall>r\<in>set (implementation_refs b). resolves (project_values p (st_factBundles s)) r)"
  using modelled_inv [OF assms(1)] assms(2) by (simp add: process_inv_def)

subsection \<open>A confirmation\<close>

definition process_env :: app_env where
  "process_env = \<lparr>ae_reviewerResolver = \<lambda>_ _. JObj [(''actorId'', JStr ''ann''), (''actorRole'', JStr ''owner'')],
     ae_reviewPolicyResolver = \<lambda>_ _. JObj [(''allowedProcessModelRoles'', JArr [JStr ''owner''])],
     ae_actorIdentityResolver = \<lambda>i. i, ae_runnerKeyResolver = \<lambda>_ _. JUndef, ae_scannerKeyResolver = \<lambda>_ _. JUndef,
     ae_clock = Some 0\<rparr>"

definition process_input :: jsv where
  "process_input = JObj (sample_process_fields (JArr [JObj [(''snapshotManifestId'', JStr ''m''), (''factId'', JStr ''f'')]]))"

definition implemented_store :: store where
  "implemented_store = empty_store\<lparr>
     st_features := [(store_key ''p'' (pair_key (JStr ''F'') (JNum 1)), JObj [(''id'', JStr ''F''), (''version'', JNum 1)])],
     st_manifests := [(store_key ''p'' ''m'', JObj [(''id'', JStr ''m'')])],
     st_factBundles := [(store_key ''p'' ''b'', JObj [(''id'', JStr ''b''), (''snapshotManifestId'', JStr ''m''),
        (''nodes'', JArr [JObj [(''id'', JStr ''n''), (''factId'', JStr ''f'')]]), (''edges'', JArr [])])]\<rparr>"

lemma confirmation_ok:
  "case app_appendBusinessProcessModel process_env ''p'' ''F'' process_input JNull implemented_store of
     Inl _ \<Rightarrow> False | Inr (s, r) \<Rightarrow> st_businessProcessModels s = [(store_key ''p'' (pair_key (JStr ''P'') (JNum 1)), r)] \<and>
       implementation_refs r \<noteq> []"
  by code_simp

theorem stored_processes_are_implemented_witness:
  "\<exists>(s::store) b. b \<in> set (project_values ''p'' (st_businessProcessModels s)) \<and> implementation_refs b \<noteq> [] \<and> connected_machine b"
proof -
  from confirmation_ok obtain s b where
    run: "app_appendBusinessProcessModel process_env ''p'' ''F'' process_input JNull implemented_store = Inr (s, b)"
    and st: "st_businessProcessModels s = [(store_key ''p'' (pair_key (JStr ''P'') (JNum 1)), b)]" "implementation_refs b \<noteq> []"
    by (rule resE) (auto split: prod.splits)
  have "modelled ''p'' implemented_store"
    by (rule mod_start) (simp add: implemented_store_def empty_store_def project_part_def)
  then have m: "modelled ''p'' s" using run by (rule mod_confirm)
  have b: "b \<in> set (project_values ''p'' (st_businessProcessModels s))" by (simp add: st(1) project_values_part project_part_def)
  from stored_processes_are_implemented [OF m b] b st(2) show ?thesis by iprover
qed

end
