(* ===== verification/Continuous_Protection.thy ===== *)
theory Continuous_Protection
  imports Model
begin

section \<open>The quality gate of continuous protection\<close>

text \<open>
  The regression plan and the quality gate for a change (\<open>src/domain/continuous-protection.js\<close>): which
  tests are selected and why, which features are assessed, and what the gate decides. The collation of
  \<open>localeCompare\<close> is the parameter \<open>lc\<close>. Shown: the gate passes exactly when the change is fully
  analysed and everything it touches is tested and proved, and under an enforcing policy the exit code
  is zero exactly then; no affected test is dropped from the plan.
\<close>

definition gate_modes :: "string list" where
  "gate_modes = [''ADVISORY'', ''MANUAL_APPROVAL'', ''ENFORCED'']"

definition protection_strings :: "jsv \<Rightarrow> string \<Rightarrow> jsv list res" where
  "protection_strings v fieldName =
     (if nullish v then Inr []
      else throw_if (\<not> is_array v \<or> list_ex (\<lambda>item. \<not> is_string item \<or> js_trim (str_of item) = []) (elems v))
             (TypeErr (fieldName @ '' must be an array of non-empty strings''))
             (Inr (js_sort (js_set (map (\<lambda>item. JStr (js_trim (str_of item))) (elems v))))))"

record protection_policy =
  pp_mode :: string
  pp_highRiskFeatureIds :: "jsv list"
  pp_fixedHighRiskTestSpecIds :: "jsv list"
  pp_conservativeTestSpecIds :: "jsv list"

definition normalizePolicy :: "jsv \<Rightarrow> protection_policy res" where
  "normalizePolicy given =
     (let input = (if given = JUndef then JObj [] else given) in
      throw_if (\<not> is_plain_object input) (TypeErr ''continuous protection policy must be an object'') (
      let mode = coalesce (oget input ''mode'') (JStr ''ADVISORY'') in
      throw_if (\<not> one_of gate_modes mode) (TypeErr ''policy.mode must be ADVISORY, MANUAL_APPROVAL, or ENFORCED'') (
      bnd (protection_strings (oget input ''highRiskFeatureIds'') ''policy.highRiskFeatureIds'') (\<lambda>highRisk.
      bnd (protection_strings (oget input ''fixedHighRiskTestSpecIds'') ''policy.fixedHighRiskTestSpecIds'') (\<lambda>fixed.
      bnd (protection_strings (oget input ''conservativeTestSpecIds'') ''policy.conservativeTestSpecIds'') (\<lambda>conservative.
      Inr \<lparr>pp_mode = str_of mode, pp_highRiskFeatureIds = highRisk, pp_fixedHighRiskTestSpecIds = fixed,
           pp_conservativeTestSpecIds = conservative\<rparr>))))))"

text \<open>\<open>v.length\<close> of an array or string, compared with zero; what has no numeric length is neither.\<close>

definition has_length :: "jsv \<Rightarrow> bool" where
  "has_length v \<longleftrightarrow> (case oget v ''length'' of JNum n \<Rightarrow> n > 0 | _ \<Rightarrow> False)"

definition no_length :: "jsv \<Rightarrow> bool" where
  "no_length v \<longleftrightarrow> oget v ''length'' = JNum 0"

definition traceabilityComplete :: "jsv \<Rightarrow> bool res" where
  "traceabilityComplete traceability =
     (if \<not> truthy traceability \<or> \<not> has_length (coalesce (oget traceability ''traceChains'') (JArr [])) then Inr False
      else bnd (array_elems (oget traceability ''traceChains'')) (\<lambda>chains.
           bnd (someR (\<lambda>chain. bnd (pget chain ''complete'') (\<lambda>c. Inr (c \<noteq> JBool True))) chains) (\<lambda>incomplete.
           Inr (\<not> incomplete \<and> no_length (coalesce (oget traceability ''gaps'') (JArr []))))))"

definition enforcementFor :: "string \<Rightarrow> string \<Rightarrow> string" where
  "enforcementFor status mode =
     (if status = ''PASS'' then ''PASS''
      else if mode = ''ENFORCED'' then ''FAIL''
      else if mode = ''MANUAL_APPROVAL'' then ''REQUIRE_APPROVAL''
      else ''WARN'')"

subsection \<open>The selected tests\<close>

definition changeset_sound :: "jsv \<Rightarrow> bool" where
  "changeset_sound changeSet \<longleftrightarrow>
     oget changeSet ''complete'' = JBool True \<and> \<not> has_length (coalesce (oget changeSet ''warnings'') (JArr []))"

text \<open>The \<open>Map\<close> from a selected test to the reasons of its selection.\<close>

definition select_test :: "string \<Rightarrow> (jsv \<times> jsv list) list \<Rightarrow> jsv \<Rightarrow> (jsv \<times> jsv list) list res" where
  "select_test reason reasonsByTest testSpecId =
     bnd (requireNonEmptyString testSpecId ''selected testSpecId'') (\<lambda>_.
     let reasons = (case map_of reasonsByTest testSpecId of None \<Rightarrow> [] | Some rs \<Rightarrow> rs) in
     Inr (AList.update testSpecId (js_set (reasons @ [JStr reason])) reasonsByTest))"

definition select_tests :: "protection_policy \<Rightarrow> jsv \<Rightarrow> jsv \<Rightarrow> (jsv \<times> jsv list) list res" where
  "select_tests policy changeSet impact =
     bnd (array_elems (coalesce (oget impact ''affectedTestSpecIds'') (JArr []))) (\<lambda>affected.
     bnd (foldR (select_test ''MAPPED_IMPLEMENTATION_CHANGE'') [] affected) (\<lambda>m.
     bnd (foldR (select_test ''FIXED_HIGH_RISK_SET'') m (pp_fixedHighRiskTestSpecIds policy)) (\<lambda>m.
     if changeset_sound changeSet then Inr m
     else foldR (select_test ''CONSERVATIVE_FALLBACK'') m (pp_conservativeTestSpecIds policy))))"

definition selected_test :: "jsv \<Rightarrow> jsv list \<Rightarrow> jsv" where
  "selected_test testSpec reasons = JObj
     [(''id'', oget testSpec ''id''), (''version'', oget testSpec ''version''), (''featureId'', oget testSpec ''featureId''),
      (''name'', oget testSpec ''name''), (''approved'', JBool (oget testSpec ''approved'' = JBool True)),
      (''operationLevel'', coalesce (oget (oget testSpec ''environment'') ''operationLevel'')
         (coalesce (oget testSpec ''operationLevel'') (JStr ''UNKNOWN''))),
      (''reasons'', JArr (js_sort reasons))]"

definition selected_tests :: "(string \<Rightarrow> string \<Rightarrow> int) \<Rightarrow> (jsv \<times> jsv) list \<Rightarrow> (jsv \<times> jsv list) list \<Rightarrow> jsv list" where
  "selected_tests lc testSpecsById reasonsByTest =
     sort_by (\<lambda>l r. let c = lc (str_of (oget l ''featureId'')) (str_of (oget r ''featureId'')) in
                if c \<noteq> 0 then c < 0 else lc (str_of (oget l ''id'')) (str_of (oget r ''id'')) < 0)
       (map (\<lambda>(i, reasons). selected_test (the (map_of testSpecsById i)) reasons)
         (filter (\<lambda>(i, _). map_of testSpecsById i \<noteq> None) reasonsByTest))"

subsection \<open>The assessed features\<close>

definition feature_assessment :: "protection_policy \<Rightarrow> (jsv \<times> jsv) list \<Rightarrow> jsv \<Rightarrow> jsv res" where
  "feature_assessment policy traceabilityByFeature featureId =
     (let traceability = coalesce (case map_of traceabilityByFeature featureId of None \<Rightarrow> JUndef | Some t \<Rightarrow> t) JNull in
      bnd (traceabilityComplete traceability) (\<lambda>complete.
      Inr (JObj
        [(''featureId'', featureId), (''highRisk'', JBool (featureId \<in> set (pp_highRiskFeatureIds policy))),
         (''available'', JBool (traceability \<noteq> JNull)), (''chainComplete'', JBool complete),
         (''dimensions'', coalesce (oget traceability ''dimensions'') JNull),
         (''gaps'', coalesce (oget traceability ''gaps'') (JArr []))])))"

subsection \<open>The gate\<close>

text \<open>Each finding of the gate, whether it applies, and the actions it requires, in the order of the code.\<close>

definition gate_findings :: "protection_policy \<Rightarrow> jsv \<Rightarrow> jsv list \<Rightarrow> jsv list \<Rightarrow> jsv list \<Rightarrow> (string \<times> string list) list" where
  "gate_findings policy changeSet unresolved selected features =
     (if oget changeSet ''complete'' \<noteq> JBool True
      then [(''CHANGESET_INCOMPLETE'', [''EXPAND_REGRESSION_SCOPE'', ''REPAIR_FACT_COLLECTION''])] else []) @
     (if has_length (coalesce (oget changeSet ''warnings'') (JArr []))
      then [(''CHANGESET_WARNINGS'', [''REVIEW_CHANGESET_WARNINGS''])] else []) @
     (if unresolved \<noteq> [] then [(''TEST_SPEC_UNRESOLVED'', [''REPAIR_TEST_CATALOG''])] else []) @
     (if list_ex (\<lambda>t. oget t ''approved'' \<noteq> JBool True) selected
      then [(''TEST_SPEC_NOT_APPROVED'', [''APPROVE_SELECTED_TEST_SPECS''])] else []) @
     (if list_ex (\<lambda>f. \<not> list_ex (\<lambda>t. strict_eq (oget t ''featureId'') f) selected) (pp_highRiskFeatureIds policy)
      then [(''HIGH_RISK_TEST_SET_MISSING'', [''CONFIGURE_HIGH_RISK_REGRESSION_SET''])] else []) @
     (if list_ex (\<lambda>f. oget f ''available'' \<noteq> JBool True) features
      then [(''FEATURE_TRACEABILITY_UNAVAILABLE'', [''RECOMPUTE_FEATURE_TRACEABILITY''])] else []) @
     (if list_ex (\<lambda>f. oget f ''available'' = JBool True \<and> oget f ''chainComplete'' \<noteq> JBool True) features
      then [(''FEATURE_PROOF_CHAIN_INCOMPLETE'', [''REPAIR_TRACE_GAPS'', ''RERUN_SELECTED_TESTS''])] else [])"

definition unknown_reasons :: "string list" where
  "unknown_reasons = [''CHANGESET_INCOMPLETE'', ''CHANGESET_WARNINGS'', ''TEST_SPEC_UNRESOLVED'',
     ''FEATURE_TRACEABILITY_UNAVAILABLE'', ''HIGH_RISK_TEST_SET_MISSING'']"

definition blocking_reasons :: "string list" where
  "blocking_reasons = [''TEST_SPEC_NOT_APPROVED'', ''FEATURE_PROOF_CHAIN_INCOMPLETE'']"

definition gate_status :: "string list \<Rightarrow> string" where
  "gate_status reasons =
     (if list_ex (\<lambda>r. r \<in> set unknown_reasons) reasons then ''UNKNOWN''
      else if list_ex (\<lambda>r. r \<in> set blocking_reasons) reasons then ''BLOCKED'' else ''PASS'')"

definition specs_by_id :: "jsv \<Rightarrow> (jsv \<times> jsv) list res" where
  "specs_by_id testSpecs =
     bnd (mapR (\<lambda>t. bnd (pget t ''id'') (\<lambda>i. Inr (i, t))) (elems testSpecs)) (\<lambda>es. Inr (js_map es))"

definition traceability_by_feature :: "jsv \<Rightarrow> (jsv \<times> jsv) list" where
  "traceability_by_feature traceabilities =
     js_map (map (\<lambda>t. (oget (oget t ''feature'') ''id'', t)) (filter truthy (elems traceabilities)))"

definition assessed_features :: "protection_policy \<Rightarrow> jsv \<Rightarrow> jsv list \<Rightarrow> jsv list res" where
  "assessed_features policy impact selected =
     bnd (array_elems (coalesce (oget impact ''affectedFeatureIds'') (JArr []))) (\<lambda>affected.
     Inr (js_sort (js_value_set (affected @ map (\<lambda>t. oget t ''featureId'') selected @ pp_highRiskFeatureIds policy))))"

definition regression_plan :: "jsv \<Rightarrow> jsv list \<Rightarrow> jsv list \<Rightarrow> (string \<times> string list) list \<Rightarrow> jsv res" where
  "regression_plan changeSet selected unresolved findings =
     bnd (array_elems (coalesce (oget changeSet ''warnings'') (JArr []))) (\<lambda>warnings.
     Inr (JObj
      [(''selectionStrategy'', JStr (if oget changeSet ''complete'' = JBool True \<and> no_length (coalesce (oget changeSet ''warnings'') (JArr []))
          then ''TARGETED_UNION_HIGH_RISK'' else ''CONSERVATIVE_UNION'')),
       (''complete'', JBool (gate_status (map fst findings) \<noteq> ''UNKNOWN'')), (''selectedTests'', JArr selected),
       (''unresolvedTestSpecIds'', JArr unresolved), (''changeSetWarnings'', JArr warnings)]))"

definition quality_gate :: "protection_policy \<Rightarrow> (string \<times> string list) list \<Rightarrow> jsv" where
  "quality_gate policy findings =
     (let status = gate_status (map fst findings) in JObj
      [(''status'', JStr status), (''policyMode'', JStr (pp_mode policy)),
       (''enforcement'', JStr (enforcementFor status (pp_mode policy))),
       (''reasons'', JArr (js_set (map (\<lambda>(r, _). JStr r) findings))),
       (''requiredActions'', JArr (js_set (map JStr (concat (map snd findings)))))])"

definition createContinuousProtectionAssessment ::
  "(string \<Rightarrow> string \<Rightarrow> int) \<Rightarrow> jsv \<Rightarrow> int option \<Rightarrow> jsv res" where
  "createContinuousProtectionAssessment lc input now =
     throw_if (\<not> is_plain_object input) (TypeErr ''continuous protection assessment input must be an object'') (
     let changeImpact = oget input ''changeImpact'' in
     throw_if (\<not> is_plain_object changeImpact) (TypeErr ''changeImpact must be an object'') (
     let changeSet = oget changeImpact ''changeSet''; impact = oget changeImpact ''impact'';
         testSpecs = coalesce (oget input ''testSpecs'') (JArr []);
         traceabilities = coalesce (oget input ''traceabilities'') (JArr [])
     in
     bnd (requireNonEmptyString (oget changeSet ''id'') ''changeImpact.changeSet.id'') (\<lambda>changeSetId.
     bnd (requireNonEmptyString (oget impact ''toSnapshotManifestId'') ''changeImpact.impact.toSnapshotManifestId'') (\<lambda>toId.
     throw_if (\<not> is_array testSpecs) (TypeErr ''testSpecs must be an array'') (
     throw_if (\<not> is_array traceabilities) (TypeErr ''traceabilities must be an array'') (
     bnd (normalizePolicy (oget input ''policy'')) (\<lambda>policy.
     bnd (specs_by_id testSpecs) (\<lambda>testSpecsById.
     bnd (select_tests policy changeSet impact) (\<lambda>reasonsByTest.
     let unresolved = js_sort (filter (\<lambda>i. map_of testSpecsById i = None) (map fst reasonsByTest));
         selected = selected_tests lc testSpecsById reasonsByTest
     in
     bnd (assessed_features policy impact selected) (\<lambda>featureIds.
     bnd (mapR (feature_assessment policy (traceability_by_feature traceabilities)) featureIds) (\<lambda>features.
     let findings = gate_findings policy changeSet unresolved selected features in
     bnd (created_at input now) (\<lambda>createdAt.
     bnd (requireIsoTimestamp createdAt ''createdAt'') (\<lambda>_.
     mk_obj
      [(''id'', Inr (JStr (contentId ''CONTINUOUS-PROTECTION''
          (JObj [(''changeSetId'', changeSetId), (''toSnapshotManifestId'', toId)])))),
       (''projectId'', requireNonEmptyString (oget input ''projectId'') ''projectId''),
       (''changeSetId'', Inr changeSetId), (''snapshotManifestId'', Inr toId), (''createdAt'', Inr createdAt),
       (''regressionPlan'', regression_plan changeSet selected unresolved findings),
       (''featureAssessments'', Inr (JArr features)),
       (''qualityGate'', Inr (quality_gate policy findings))])))))))))))))"

definition qualityGateExitCode :: "jsv \<Rightarrow> int res" where
  "qualityGateExitCode assessment =
     (let enforcement = oget (oget assessment ''qualityGate'') ''enforcement'' in
      if one_of [''PASS'', ''WARN''] enforcement then Inr 0
      else if enforcement = JStr ''FAIL'' then Inr 1
      else if enforcement = JStr ''REQUIRE_APPROVAL'' then Inr 2
      else Inl (TypeErr ''assessment.qualityGate.enforcement is invalid''))"

subsection \<open>What the gate decides\<close>

lemma set_js_value_set: "set (js_value_set xs) = set xs"
  by (induction xs) (auto dest: strict_eqD)

text \<open>The tests a change selects, and when a change is protected.\<close>

definition selection :: "protection_policy \<Rightarrow> jsv \<Rightarrow> jsv \<Rightarrow> jsv set" where
  "selection policy changeSet impact =
     set (elems (oget impact ''affectedTestSpecIds'')) \<union> set (pp_fixedHighRiskTestSpecIds policy) \<union>
     (if changeset_sound changeSet then {} else set (pp_conservativeTestSpecIds policy))"

definition proved_feature :: "(jsv \<times> jsv) list \<Rightarrow> jsv \<Rightarrow> bool" where
  "proved_feature traces f \<longleftrightarrow> (\<exists>t. map_of traces f = Some t \<and> \<not> nullish t \<and> traceabilityComplete t = Inr True)"

definition protected_change :: "protection_policy \<Rightarrow> (jsv \<times> jsv) list \<Rightarrow> (jsv \<times> jsv) list \<Rightarrow> jsv \<Rightarrow> jsv \<Rightarrow> bool" where
  "protected_change policy specs traces changeSet impact \<longleftrightarrow>
     (let ids = selection policy changeSet impact; feature = \<lambda>i. oget (the (map_of specs i)) ''featureId'' in
      changeset_sound changeSet \<and>
      (\<forall>i\<in>ids. \<exists>t. map_of specs i = Some t \<and> oget t ''approved'' = JBool True) \<and>
      (\<forall>f\<in>set (pp_highRiskFeatureIds policy). \<exists>i\<in>ids. strict_eq (feature i) f) \<and>
      (\<forall>f\<in>set (elems (oget impact ''affectedFeatureIds'')) \<union> feature ` ids \<union> set (pp_highRiskFeatureIds policy).
         proved_feature traces f))"

lemma select_fold_keys:
  "foldR (select_test reason) m ids = Inr m' \<Longrightarrow> set (map fst m') = set (map fst m) \<union> set ids"
proof (induction ids arbitrary: m)
  case (Cons i ids)
  from Cons.prems obtain m1 where m1: "select_test reason m i = Inr m1" "foldR (select_test reason) m1 ids = Inr m'"
    by (auto simp: bnd_eq_Inr)
  from m1(1) obtain rs where "m1 = AList.update i rs m" by (auto simp: select_test_def bnd_eq_Inr Let_def)
  then have "set (map fst m1) = insert i (set (map fst m))" by (simp add: dom_update)
  with Cons.IH [OF m1(2)] show ?case by auto
qed simp

lemma array_or_empty: "array_elems (coalesce v (JArr [])) = Inr xs \<Longrightarrow> xs = elems v"
  by (cases v) auto

lemma select_tests_keys:
  assumes "select_tests policy changeSet impact = Inr m"
  shows "set (map fst m) = selection policy changeSet impact"
proof -
  from assms obtain affected m1 m2 where
    a: "array_elems (coalesce (oget impact ''affectedTestSpecIds'') (JArr [])) = Inr affected"
    "foldR (select_test ''MAPPED_IMPLEMENTATION_CHANGE'') [] affected = Inr m1"
    "foldR (select_test ''FIXED_HIGH_RISK_SET'') m1 (pp_fixedHighRiskTestSpecIds policy) = Inr m2"
    "(if changeset_sound changeSet then Inr m2
      else foldR (select_test ''CONSERVATIVE_FALLBACK'') m2 (pp_conservativeTestSpecIds policy)) = Inr m"
    unfolding select_tests_def bnd_eq_Inr by (elim exE conjE)
  have "affected = elems (oget impact ''affectedTestSpecIds'')" using a(1) by (rule array_or_empty)
  with select_fold_keys [OF a(2)] select_fold_keys [OF a(3)]
  have m2: "set (map fst m2) = set (elems (oget impact ''affectedTestSpecIds'')) \<union> set (pp_fixedHighRiskTestSpecIds policy)"
    by simp
  show ?thesis
  proof (cases "changeset_sound changeSet")
    case True
    with a(4) m2 show ?thesis by (simp add: selection_def)
  next
    case False
    with a(4) have "foldR (select_test ''CONSERVATIVE_FALLBACK'') m2 (pp_conservativeTestSpecIds policy) = Inr m" by simp
    from select_fold_keys [OF this] m2 False show ?thesis by (simp add: selection_def)
  qed
qed

lemma selected_tests_set:
  "set (selected_tests lc specs m) = (\<lambda>(i, rs). selected_test (the (map_of specs i)) rs) ` {e \<in> set m. map_of specs (fst e) \<noteq> None}"
  by (auto simp: selected_tests_def)

lemma gate_status_pass: "set rs \<subseteq> set unknown_reasons \<union> set blocking_reasons \<Longrightarrow> gate_status rs = ''PASS'' \<longleftrightarrow> rs = []"
  by (cases rs) (auto simp: gate_status_def list_ex_iff)

lemma one_finding: "set (map fst (if c then [x] else [])) \<subseteq> {fst x}"
  by (cases c) simp_all

lemma gate_reasons_known:
  "set (map fst (gate_findings policy cs un sel fs)) \<subseteq> set unknown_reasons \<union> set blocking_reasons"
  unfolding gate_findings_def map_append set_append
  by (intro Un_least) (rule subset_trans [OF one_finding], simp add: unknown_reasons_def blocking_reasons_def)+

lemma gate_findings_none:
  "gate_findings policy cs un sel fs = [] \<longleftrightarrow>
     changeset_sound cs \<and> un = [] \<and> (\<forall>t\<in>set sel. oget t ''approved'' = JBool True) \<and>
     (\<forall>f\<in>set (pp_highRiskFeatureIds policy). \<exists>t\<in>set sel. strict_eq (oget t ''featureId'') f) \<and>
     (\<forall>f\<in>set fs. oget f ''available'' = JBool True \<and> oget f ''chainComplete'' = JBool True)"
  unfolding gate_findings_def changeset_sound_def append_is_Nil_conv list_ex_iff
  by (simp del: oget_simps add: if_splits) blast

lemma feature_assessment_proved:
  assumes "feature_assessment policy traces f = Inr a"
  shows "oget a ''available'' = JBool True \<and> oget a ''chainComplete'' = JBool True \<longleftrightarrow> proved_feature traces f"
proof -
  let ?t = "coalesce (case map_of traces f of None \<Rightarrow> JUndef | Some t \<Rightarrow> t) JNull"
  from assms obtain c where c: "traceabilityComplete ?t = Inr c"
    and a: "oget a ''available'' = JBool (?t \<noteq> JNull)" "oget a ''chainComplete'' = JBool c"
    by (auto simp: feature_assessment_def Let_def bnd_eq_Inr)
  have t: "?t \<noteq> JNull \<longleftrightarrow> (\<exists>t. map_of traces f = Some t \<and> \<not> nullish t \<and> ?t = t)"
    by (cases "map_of traces f") (auto simp: coalesce_def)
  show ?thesis
    unfolding a proved_feature_def using c t by (cases "map_of traces f") (auto simp: coalesce_def split: if_splits)
qed

lemma features_proved:
  assumes "mapR (feature_assessment policy traces) ids = Inr fs"
  shows "(\<forall>a\<in>set fs. oget a ''available'' = JBool True \<and> oget a ''chainComplete'' = JBool True) \<longleftrightarrow>
    (\<forall>f\<in>set ids. proved_feature traces f)"
proof -
  have "list_all2 (\<lambda>f a. feature_assessment policy traces f = Inr a) ids fs" using assms by (simp add: mapR_Inr_iff)
  then show ?thesis
    by (induction rule: list_all2_induct) (simp_all only: list.set ball_simps simp_thms feature_assessment_proved)
qed

lemma assessed_features_set:
  assumes "assessed_features policy impact selected = Inr ids"
  shows "set ids = set (elems (oget impact ''affectedFeatureIds'')) \<union> (\<lambda>t. oget t ''featureId'') ` set selected \<union>
    set (pp_highRiskFeatureIds policy)"
proof -
  from assms obtain xs where xs: "array_elems (coalesce (oget impact ''affectedFeatureIds'') (JArr [])) = Inr xs"
    "ids = js_sort (js_value_set (xs @ map (\<lambda>t. oget t ''featureId'') selected @ pp_highRiskFeatureIds policy))"
    by (auto simp: assessed_features_def bnd_eq_Inr)
  from array_or_empty [OF xs(1)] xs(2) show ?thesis by (simp add: set_js_value_set Un_assoc)
qed

lemma gate_protects:
  assumes m: "set (map fst m) = selection policy cs impact"
    and fids: "assessed_features policy impact (selected_tests lc specs m) = Inr ids"
    and fs: "mapR (feature_assessment policy traces) ids = Inr fs"
  shows "gate_findings policy cs (js_sort (filter (\<lambda>i. map_of specs i = None) (map fst m))) (selected_tests lc specs m) fs = [] \<longleftrightarrow>
    protected_change policy specs traces cs impact"
proof -
  let ?S = "selection policy cs impact" and ?sel = "selected_tests lc specs m"
  let ?un = "js_sort (filter (\<lambda>i. map_of specs i = None) (map fst m))"
  have un: "?un = [] \<longleftrightarrow> (\<forall>i\<in>?S. \<exists>t. map_of specs i = Some t)"
  proof -
    have "set ?un = {i\<in>?S. map_of specs i = None}" unfolding set_js_sort set_filter m ..
    then have "?un = [] \<longleftrightarrow> {i\<in>?S. map_of specs i = None} = {}" by (metis set_empty)
    then show ?thesis by auto
  qed
  show ?thesis
  proof (cases "\<forall>i\<in>?S. \<exists>t. map_of specs i = Some t")
    case False
    then show ?thesis unfolding gate_findings_none un protected_change_def Let_def by blast
  next
    case True
    have keys: "fst ` set m = ?S" using m by simp
    have sel: "set ?sel = (\<lambda>(i, rs). selected_test (the (map_of specs i)) rs) ` set m"
      unfolding selected_tests_set using True keys by force
    have approved: "oget (selected_test t rs) ''approved'' = JBool (oget t ''approved'' = JBool True)"
      and feature: "oget (selected_test t rs) ''featureId'' = oget t ''featureId''" for t rs
      by (simp_all add: selected_test_def)
    have a: "(\<forall>t\<in>set ?sel. oget t ''approved'' = JBool True) \<longleftrightarrow> (\<forall>i\<in>?S. oget (the (map_of specs i)) ''approved'' = JBool True)"
      unfolding sel keys [symmetric] by (auto simp: approved split: prod.splits)
    have fe: "(\<lambda>t. oget t ''featureId'') ` set ?sel = (\<lambda>i. oget (the (map_of specs i)) ''featureId'') ` ?S"
      unfolding sel keys [symmetric] image_image by (rule image_cong) (auto simp: feature split: prod.splits)
    have h: "(\<exists>t\<in>set ?sel. strict_eq (oget t ''featureId'') f) \<longleftrightarrow>
        (\<exists>i\<in>?S. strict_eq (oget (the (map_of specs i)) ''featureId'') f)" for f
      using fe by (metis (no_types, lifting) imageE image_eqI)
    have b: "(\<forall>i\<in>?S. \<exists>t. map_of specs i = Some t \<and> oget t ''approved'' = JBool True) \<longleftrightarrow>
        (\<forall>i\<in>?S. oget (the (map_of specs i)) ''approved'' = JBool True)"
      by (rule ball_cong [OF refl]) (use True in \<open>auto dest!: bspec\<close>)
    have "?un = []" unfolding un by (rule True)
    then show ?thesis
      unfolding gate_findings_none a h features_proved [OF fs] assessed_features_set [OF fids] fe
        protected_change_def Let_def b
      by (simp only: simp_thms)
  qed
qed

lemma normalizePolicy_mode:
  assumes "normalizePolicy given = Inr policy"
  shows "pp_mode policy \<in> set gate_modes"
proof -
  from assms have "\<exists>mode. one_of gate_modes mode \<and> pp_mode policy = str_of mode"
    unfolding normalizePolicy_def Let_def throw_if_eq_Inr bnd_eq_Inr not_not sum.inject by (elim exE conjE) auto
  then show ?thesis by (auto simp: one_of_iff)
qed

lemma regression_plan_members:
  assumes "regression_plan changeSet selected unresolved findings = Inr plan"
  shows "oget plan ''selectedTests'' = JArr selected" "oget plan ''unresolvedTestSpecIds'' = JArr unresolved"
    "oget plan ''complete'' = JBool (gate_status (map fst findings) \<noteq> ''UNKNOWN'')"
proof -
  from assms obtain strategy warnings where "plan = JObj
     [(''selectionStrategy'', strategy), (''complete'', JBool (gate_status (map fst findings) \<noteq> ''UNKNOWN'')),
      (''selectedTests'', JArr selected), (''unresolvedTestSpecIds'', JArr unresolved), (''changeSetWarnings'', warnings)]"
    unfolding regression_plan_def bnd_eq_Inr sum.inject by (elim exE conjE) (rule that, erule sym)
  then show "oget plan ''selectedTests'' = JArr selected" "oget plan ''unresolvedTestSpecIds'' = JArr unresolved"
    "oget plan ''complete'' = JBool (gate_status (map fst findings) \<noteq> ''UNKNOWN'')"
    by simp_all
qed

lemma specs_by_id_own:
  assumes "specs_by_id testSpecs = Inr specs" and "map_of specs i = Some t"
  shows "oget t ''id'' = i"
proof -
  from assms(1) obtain es where es: "mapR (\<lambda>t. bnd (pget t ''id'') (\<lambda>i. Inr (i, t))) (elems testSpecs) = Inr es" "specs = js_map es"
    by (auto simp: specs_by_id_def bnd_eq_Inr)
  have "\<forall>(i, t)\<in>set es. oget t ''id'' = i"
    using es(1) unfolding mapR_Inr_iff by (induction rule: list_all2_induct) (auto simp: bnd_eq_Inr pget_Inr)
  moreover have "(i, t) \<in> set es" using js_map_in_set [OF map_of_SomeD [OF assms(2) [unfolded es(2)]]] .
  ultimately show ?thesis by auto
qed

text \<open>What an accepted assessment was computed from.\<close>

lemma createContinuousProtectionAssessment_run:
  assumes "createContinuousProtectionAssessment lc input now = Inr a"
  obtains policy specs m ids features findings where
    "normalizePolicy (oget input ''policy'') = Inr policy"
    "specs_by_id (coalesce (oget input ''testSpecs'') (JArr [])) = Inr specs"
    "select_tests policy (oget (oget input ''changeImpact'') ''changeSet'') (oget (oget input ''changeImpact'') ''impact'') = Inr m"
    "assessed_features policy (oget (oget input ''changeImpact'') ''impact'') (selected_tests lc specs m) = Inr ids"
    "mapR (feature_assessment policy (traceability_by_feature (coalesce (oget input ''traceabilities'') (JArr [])))) ids = Inr features"
    "findings = gate_findings policy (oget (oget input ''changeImpact'') ''changeSet'')
       (js_sort (filter (\<lambda>i. map_of specs i = None) (map fst m))) (selected_tests lc specs m) features"
    "oget a ''qualityGate'' = quality_gate policy findings"
    "regression_plan (oget (oget input ''changeImpact'') ''changeSet'') (selected_tests lc specs m)
       (js_sort (filter (\<lambda>i. map_of specs i = None) (map fst m))) findings = Inr (oget a ''regressionPlan'')"
proof -
  from assms obtain policy specs m ids features es where r:
    "normalizePolicy (oget input ''policy'') = Inr policy"
    "specs_by_id (coalesce (oget input ''testSpecs'') (JArr [])) = Inr specs"
    "select_tests policy (oget (oget input ''changeImpact'') ''changeSet'') (oget (oget input ''changeImpact'') ''impact'') = Inr m"
    "assessed_features policy (oget (oget input ''changeImpact'') ''impact'') (selected_tests lc specs m) = Inr ids"
    "mapR (feature_assessment policy (traceability_by_feature (coalesce (oget input ''traceabilities'') (JArr [])))) ids = Inr features"
    "mk_obj es = Inr a"
    and es: "map_of es ''qualityGate'' = Some (Inr (quality_gate policy (gate_findings policy (oget (oget input ''changeImpact'') ''changeSet'')
       (js_sort (filter (\<lambda>i. map_of specs i = None) (map fst m))) (selected_tests lc specs m) features)))"
    "map_of es ''regressionPlan'' = Some (regression_plan (oget (oget input ''changeImpact'') ''changeSet'') (selected_tests lc specs m)
       (js_sort (filter (\<lambda>i. map_of specs i = None) (map fst m))) (gate_findings policy (oget (oget input ''changeImpact'') ''changeSet'')
       (js_sort (filter (\<lambda>i. map_of specs i = None) (map fst m))) (selected_tests lc specs m) features))"
    unfolding createContinuousProtectionAssessment_def Let_def
    apply (simp only: throw_if_eq_Inr bnd_eq_Inr)
    apply (elim exE conjE)
    apply (rule that)
           apply assumption+
     apply simp_all
    done
  note m = es [THEN mk_obj_member [OF r(6)]]
  from that [OF r(1-5) refl] m show ?thesis by simp
qed

definition sample_change :: jsv where
  "sample_change = JObj
     [(''projectId'', JStr ''shop''), (''createdAt'', JStr ''2026-01-01T00:00:00.000Z''),
      (''policy'', JObj [(''mode'', JStr ''ENFORCED''), (''highRiskFeatureIds'', JArr [JStr ''F1''])]),
      (''testSpecs'', JArr [JObj [(''id'', JStr ''T1''), (''featureId'', JStr ''F1''), (''approved'', JBool True)]]),
      (''changeImpact'', JObj
        [(''changeSet'', JObj [(''id'', JStr ''C1''), (''complete'', JBool True)]),
         (''impact'', JObj [(''toSnapshotManifestId'', JStr ''S1''), (''affectedTestSpecIds'', JArr [JStr ''T1'', JStr ''T2''])])])]"

abbreviation sample_change_set :: jsv where
  "sample_change_set \<equiv> oget (oget sample_change ''changeImpact'') ''changeSet''"

abbreviation sample_impact :: jsv where
  "sample_impact \<equiv> oget (oget sample_change ''changeImpact'') ''impact''"

definition sample_policy :: protection_policy where
  "sample_policy = \<lparr>pp_mode = ''ENFORCED'', pp_highRiskFeatureIds = [JStr ''F1''], pp_fixedHighRiskTestSpecIds = [],
     pp_conservativeTestSpecIds = []\<rparr>"

definition sample_selected :: "jsv list" where
  "sample_selected = [selected_test (elems (oget sample_change ''testSpecs'') ! 0) [JStr ''MAPPED_IMPLEMENTATION_CHANGE'']]"

lemma sample_parts:
  "normalizePolicy (oget sample_change ''policy'') = Inr sample_policy"
  "is_plain_object sample_change" "is_plain_object (oget sample_change ''changeImpact'')"
  "requireNonEmptyString (oget sample_change_set ''id'') h = Inr (JStr ''C1'')"
  "requireNonEmptyString (oget sample_impact ''toSnapshotManifestId'') h = Inr (JStr ''S1'')"
  "is_array (coalesce (oget sample_change ''testSpecs'') (JArr []))"
  "is_array (coalesce (oget sample_change ''traceabilities'') (JArr []))"
  "specs_by_id (coalesce (oget sample_change ''testSpecs'') (JArr [])) =
     Inr [(JStr ''T1'', elems (oget sample_change ''testSpecs'') ! 0)]"
  "select_tests sample_policy sample_change_set sample_impact =
     Inr [(JStr ''T1'', [JStr ''MAPPED_IMPLEMENTATION_CHANGE'']), (JStr ''T2'', [JStr ''MAPPED_IMPLEMENTATION_CHANGE''])]"
  "selected_tests (\<lambda>l r. 0) [(JStr ''T1'', elems (oget sample_change ''testSpecs'') ! 0)]
     [(JStr ''T1'', [JStr ''MAPPED_IMPLEMENTATION_CHANGE'']), (JStr ''T2'', [JStr ''MAPPED_IMPLEMENTATION_CHANGE''])] = sample_selected"
  "assessed_features sample_policy sample_impact sample_selected = Inr [JStr ''F1'']"
  "traceability_by_feature (coalesce (oget sample_change ''traceabilities'') (JArr [])) = []"
  "is_ok (regression_plan sample_change_set sample_selected us fs)"
  "requireNonEmptyString (oget sample_change ''projectId'') h = Inr (JStr ''shop'')"
  "created_at sample_change now = Inr (JStr ''2026-01-01T00:00:00.000Z'')"
  "is_ok (requireIsoTimestamp (JStr ''2026-01-01T00:00:00.000Z'') h)"
  by code_simp+

lemma sample_change_assessed: "is_ok (createContinuousProtectionAssessment (\<lambda>l r. 0) sample_change now)"
proof -
  have f: "is_ok (mapR (feature_assessment sample_policy []) [JStr ''F1''])"
    by (simp add: feature_assessment_def Let_def traceabilityComplete_def coalesce_def)
  show ?thesis
    apply (simp only: createContinuousProtectionAssessment_def Let_def sample_parts bnd_simps throw_if_def if_False not_True_eq_False)
    by (intro ok_bndI f sample_parts(15)) (auto simp: mk_obj_def sample_parts intro!: ok_bndI sample_parts(13,16))
qed

text \<open>
  C11: Whatever the policy and the change, an accepted assessment reports the status PASS exactly when the
  change is protected: the change set is complete and free of warnings, each selected test exists and is
  approved, each high-risk feature has a selected test, and each affected, tested or high-risk feature has
  complete trace chains without gaps. The process exit code is 0 exactly then under ENFORCED (else 1) and
  under MANUAL_APPROVAL (else 2), and always 0 under ADVISORY.
\<close>

theorem gate_passes_iff_change_protected:
  assumes "createContinuousProtectionAssessment lc input now = Inr a"
  shows "\<exists>policy specs. normalizePolicy (oget input ''policy'') = Inr policy \<and>
    specs_by_id (coalesce (oget input ''testSpecs'') (JArr [])) = Inr specs \<and>
    (let p = protected_change policy specs (traceability_by_feature (coalesce (oget input ''traceabilities'') (JArr [])))
               (oget (oget input ''changeImpact'') ''changeSet'') (oget (oget input ''changeImpact'') ''impact'') in
     (oget (oget a ''qualityGate'') ''status'' = JStr ''PASS'' \<longleftrightarrow> p) \<and>
     qualityGateExitCode a = Inr (if p \<or> pp_mode policy = ''ADVISORY'' then 0 else if pp_mode policy = ''ENFORCED'' then 1 else 2))"
using assms
proof (rule createContinuousProtectionAssessment_run, goal_cases)
  case (1 policy specs m ids features findings)
  let ?s = "gate_status (map fst findings)"
  have s: "?s = ''PASS'' \<longleftrightarrow> protected_change policy specs (traceability_by_feature (coalesce (oget input ''traceabilities'') (JArr [])))
      (oget (oget input ''changeImpact'') ''changeSet'') (oget (oget input ''changeImpact'') ''impact'')"
    using gate_status_pass [OF gate_reasons_known] gate_protects [OF select_tests_keys [OF 1(3)] 1(4,5)] 1(6)
    by (simp only: map_is_Nil_conv)
  have q: "oget (oget a ''qualityGate'') ''status'' = JStr ?s"
    "oget (oget a ''qualityGate'') ''enforcement'' = JStr (enforcementFor ?s (pp_mode policy))"
    unfolding 1(7) quality_gate_def Let_def by simp_all
  from normalizePolicy_mode [OF 1(1)] have "qualityGateExitCode a = Inr (if ?s = ''PASS'' \<or> pp_mode policy = ''ADVISORY'' then 0 else if pp_mode policy = ''ENFORCED'' then 1 else 2)"
    unfolding qualityGateExitCode_def q enforcementFor_def gate_modes_def by (auto simp: one_of_def)
  with q(1) s 1(1,2) show ?case by (auto simp: Let_def)
qed

theorem gate_passes_iff_change_protected_witness:
  "\<exists>a. createContinuousProtectionAssessment (\<lambda>l r. 0) sample_change (Some 0) = Inr a \<and> qualityGateExitCode a = Inr 1"
proof -
  obtain a where a: "createContinuousProtectionAssessment (\<lambda>l r. 0) sample_change (Some 0) = Inr a"
    using sample_change_assessed [of "Some 0"] by (auto simp: is_ok_def split: sum.splits)
  have "\<not> proved_feature (traceability_by_feature (coalesce (oget sample_change ''traceabilities'') (JArr []))) (JStr ''F1'')"
    by (simp add: proved_feature_def traceability_by_feature_def sample_change_def coalesce_def)
  then have np: "\<not> protected_change sample_policy specs (traceability_by_feature (coalesce (oget sample_change ''traceabilities'') (JArr []))) cs i"
    for specs cs i
    unfolding protected_change_def Let_def by (simp add: sample_policy_def del: oget_simps)
  from gate_passes_iff_change_protected [OF a] np a sample_parts(1) show ?thesis by (auto simp: Let_def sample_policy_def)
qed

text \<open>
  C27: No affected test is lost: the identifiers of the selected tests of an accepted assessment together with
  the ones reported as unresolved are exactly the affected tests, the fixed high-risk tests and, when the
  change set is incomplete or has warnings, the conservative tests of the policy.
\<close>

theorem regression_plan_covers_the_change:
  assumes "createContinuousProtectionAssessment lc input now = Inr a" "normalizePolicy (oget input ''policy'') = Inr policy"
  shows "(\<lambda>t. oget t ''id'') ` set (elems (oget (oget a ''regressionPlan'') ''selectedTests'')) \<union>
      set (elems (oget (oget a ''regressionPlan'') ''unresolvedTestSpecIds'')) =
    selection policy (oget (oget input ''changeImpact'') ''changeSet'') (oget (oget input ''changeImpact'') ''impact'')"
using assms(1)
proof (rule createContinuousProtectionAssessment_run, goal_cases)
  case (1 policy' specs m ids features findings)
  have policy: "policy' = policy" using 1(1) assms(2) by simp
  have own: "oget t ''id'' = i" if "map_of specs i = Some t" for i t
    using that by (rule specs_by_id_own [OF 1(2)])
  note plan = regression_plan_members [OF 1(8)]
  have "(\<lambda>t. oget t ''id'') ` set (selected_tests lc specs m) = {i \<in> fst ` set m. map_of specs i \<noteq> None}"
  proof -
    have "(\<lambda>t. oget t ''id'') ` set (selected_tests lc specs m) = fst ` {e \<in> set m. map_of specs (fst e) \<noteq> None}"
      unfolding selected_tests_set image_image
      by (rule image_cong [OF refl]) (use own in \<open>auto simp: selected_test_def split: prod.splits\<close>)
    then show ?thesis by force
  qed
  moreover have "set (js_sort (filter (\<lambda>i. map_of specs i = None) (map fst m))) = {i \<in> fst ` set m. map_of specs i = None}"
    by auto
  ultimately show ?case
    unfolding plan elems.simps select_tests_keys [OF 1(3), unfolded policy, symmetric] set_map by blast
qed

theorem regression_plan_covers_the_change_witness:
  "\<exists>a. createContinuousProtectionAssessment (\<lambda>l r. 0) sample_change (Some 0) = Inr a \<and>
     (\<lambda>t. oget t ''id'') ` set (elems (oget (oget a ''regressionPlan'') ''selectedTests'')) \<union>
     set (elems (oget (oget a ''regressionPlan'') ''unresolvedTestSpecIds'')) = {JStr ''T1'', JStr ''T2''}"
proof -
  obtain a where a: "createContinuousProtectionAssessment (\<lambda>l r. 0) sample_change (Some 0) = Inr a"
    using sample_change_assessed [of "Some 0"] by (auto simp: is_ok_def split: sum.splits)
  have "selection sample_policy (oget (oget sample_change ''changeImpact'') ''changeSet'') (oget (oget sample_change ''changeImpact'') ''impact'') =
      {JStr ''T1'', JStr ''T2''}"
    by (simp add: selection_def sample_policy_def sample_change_def)
  with regression_plan_covers_the_change [OF a sample_parts(1)] a show ?thesis by (intro exI conjI) simp_all
qed

end
