(* ===== verification/Change_Impact.thy ===== *)
theory Change_Impact
  imports Invalidation
begin

section \<open>Change sets and impact assessments\<close>

text \<open>
  The comparison of two fact graphs and what follows from it (\<open>src/domain/change-impact.js\<close>): the
  changes, the change set, the impact on the mapped claims and the continuity of an unchanged mapping.
  A node is identified by its stable identifier and its extractor, an edge by its ends, its predicate and
  its extractor; what the snapshot assigns (fact identifiers, times, bundle) is no part of the content.
  The collation of \<open>localeCompare\<close> is the parameter \<open>lc\<close>; the identifiers it compares are strings.
  Shown: the comparison reports exactly the differences in content, none on graphs of the same content,
  and an assessment of its changes invalidates the trace chain but never history or business intent.
\<close>

subsection \<open>Keys and content of nodes and edges\<close>

text \<open>The rest patterns \<open>{ factId: _factId, ..., ...semantic }\<close>.\<close>

definition semanticNode :: "jsv \<Rightarrow> jsv" where
  "semanticNode node =
     JObj (without [''factId'', ''snapshotManifestId'', ''observedAt'', ''validFrom'', ''validTo'', ''bundleId''] (props node))"

definition semanticEdge :: "jsv \<Rightarrow> jsv" where
  "semanticEdge edge = JObj (without [''id'', ''snapshotManifestId'', ''observedAt'', ''bundleId''] (props edge))"

definition nodeKey :: "jsv \<Rightarrow> string res" where
  "nodeKey node = bnd (pget node ''id'') (\<lambda>stableId.
     Inr (canonical_text (JObj
       [(''stableId'', stableId), (''extractorId'', coalesce (oget (oget node ''extractor'') ''id'') JNull)])))"

definition edgeKey :: "jsv \<Rightarrow> string res" where
  "edgeKey edge = bnd (pget edge ''subjectId'') (\<lambda>subjectId.
     Inr (canonical_text (JObj
       [(''subjectId'', subjectId), (''predicate'', oget edge ''predicate''), (''objectId'', oget edge ''objectId''),
        (''extractorId'', coalesce (oget (oget edge ''extractor'') ''id'') JNull)])))"

subsection \<open>Change records\<close>

definition node_change_types :: "(string \<times> jsv) list" where
  "node_change_types =
     [(''ENDPOINT'', JStr ''API_CONTRACT''), (''CONFIGURATION'', JStr ''CONFIGURATION''),
      (''EXTERNAL_DEPENDENCY'', JStr ''DEPENDENCY''), (''TEST_ASSET'', JStr ''TEST_SPEC'')]"

definition changeTypeForNode :: "jsv \<Rightarrow> jsv res" where
  "changeTypeForNode node =
     bnd (pget node ''type'') (\<lambda>type.
     Inr (if type = JStr ''DATA_OBJECT''
          then (if to_lower (js_string (coalesce (oget (oget node ''attributes'') ''kind'') (JStr []))) \<in>
                   set [''table'', ''column'', ''schema'', ''constraint'', ''view'']
                then JStr ''DATABASE_SCHEMA'' else JStr ''SQL'')
          else coalesce (literal_get node_change_types type) (JStr ''SOURCE_CODE'')))"

definition changeTypeForEdge :: "jsv \<Rightarrow> jsv res" where
  "changeTypeForEdge edge =
     bnd (pget edge ''predicate'') (\<lambda>predicate.
     Inr (JStr (if one_of [''READS'', ''WRITES''] predicate then ''SQL''
                else if predicate = JStr ''CONTROLLED_BY'' then ''CONFIGURATION''
                else if predicate = JStr ''DEPENDS_ON'' then ''DEPENDENCY''
                else if predicate = JStr ''EXERCISES'' then ''TEST_SPEC''
                else ''SOURCE_CODE'')))"

definition entity_fact_id :: "jsv \<Rightarrow> jsv" where
  "entity_fact_id v = coalesce (oget v ''factId'') (coalesce (oget v ''id'') JNull)"

definition changeRecord :: "string \<Rightarrow> string \<Rightarrow> jsv \<Rightarrow> jsv \<Rightarrow> jsv \<Rightarrow> jsv \<Rightarrow> jsv" where
  "changeRecord kind entityType stableId before after changeType =
     (let artifact = coalesce (oget (oget after ''source'') ''artifact'')
            (coalesce (oget (oget before ''source'') ''artifact'') JNull);
          identity = [(''kind'', JStr kind), (''entityType'', JStr entityType), (''stableId'', stableId),
            (''beforeFactId'', entity_fact_id before), (''afterFactId'', entity_fact_id after)]
      in JObj ((''id'', JStr (contentId ''FACT-CHANGE'' (JObj identity))) # identity @
        [(''changeType'', changeType), (''artifact'', artifact),
         (''nodeType'', coalesce (oget after ''type'') (coalesce (oget before ''type'') JNull)),
         (''predicate'', coalesce (oget after ''predicate'') (coalesce (oget before ''predicate'') JNull))]))"

subsection \<open>The comparison\<close>

text \<open>\<open>new Map((graph?.nodes ?? []).map((node) => [nodeKey(node), node]))\<close>\<close>

definition keyed_entities :: "(jsv \<Rightarrow> string res) \<Rightarrow> jsv \<Rightarrow> (string \<times> jsv) list res" where
  "keyed_entities key entities =
     bnd (array_elems (coalesce entities (JArr []))) (\<lambda>xs.
     bnd (mapR (\<lambda>x. bnd (key x) (\<lambda>k. Inr (k, x))) xs) (\<lambda>es. Inr (js_map es)))"

definition compare_entity ::
  "string \<Rightarrow> (jsv \<Rightarrow> jsv res) \<Rightarrow> (jsv \<Rightarrow> jsv) \<Rightarrow> jsv \<Rightarrow> jsv \<Rightarrow> jsv \<Rightarrow> jsv list res" where
  "compare_entity entityType changeTypeFor semantic stableId before after =
     (if \<not> truthy before
      then bnd (changeTypeFor after) (\<lambda>t. Inr [changeRecord ''ADDED'' entityType stableId JNull after t])
      else if \<not> truthy after
      then bnd (changeTypeFor before) (\<lambda>t. Inr [changeRecord ''REMOVED'' entityType stableId before JNull t])
      else if canonicalJson (semantic before) \<noteq> canonicalJson (semantic after)
      then bnd (changeTypeFor after) (\<lambda>t. Inr [changeRecord ''MODIFIED'' entityType stableId before after t])
      else Inr [])"

definition entity_at :: "(string \<times> jsv) list \<Rightarrow> string \<Rightarrow> jsv" where
  "entity_at m k = (case map_of m k of None \<Rightarrow> JNull | Some v \<Rightarrow> coalesce v JNull)"

definition compare_entities ::
  "string \<Rightarrow> (jsv \<Rightarrow> jsv res) \<Rightarrow> (jsv \<Rightarrow> jsv) \<Rightarrow> (string \<Rightarrow> jsv \<Rightarrow> jsv \<Rightarrow> jsv) \<Rightarrow>
   (string \<times> jsv) list \<Rightarrow> (string \<times> jsv) list \<Rightarrow> jsv list res" where
  "compare_entities entityType changeTypeFor semantic stableId from to =
     bnd (mapR (\<lambda>k. let before = entity_at from k; after = entity_at to k in
              compare_entity entityType changeTypeFor semantic (stableId k before after) before after)
            (js_set (map fst from @ map fst to))) (\<lambda>changes. Inr (concat changes))"

definition node_stable_id :: "string \<Rightarrow> jsv \<Rightarrow> jsv \<Rightarrow> jsv" where
  "node_stable_id key before after = coalesce (oget after ''id'') (oget before ''id'')"

definition edge_stable_id :: "string \<Rightarrow> jsv \<Rightarrow> jsv \<Rightarrow> jsv" where
  "edge_stable_id key before after = JStr key"

definition change_before :: "(string \<Rightarrow> string \<Rightarrow> int) \<Rightarrow> jsv \<Rightarrow> jsv \<Rightarrow> bool" where
  "change_before lc l r =
     (let c = lc (str_of (oget l ''entityType'')) (str_of (oget r ''entityType'')) in
      if c \<noteq> 0 then c < 0 else lc (str_of (oget l ''stableId'')) (str_of (oget r ''stableId'')) < 0)"

definition compareFactGraphs :: "(string \<Rightarrow> string \<Rightarrow> int) \<Rightarrow> jsv \<Rightarrow> jsv \<Rightarrow> jsv list res" where
  "compareFactGraphs lc fromGraph toGraph =
     bnd (keyed_entities nodeKey (oget fromGraph ''nodes'')) (\<lambda>fromNodes.
     bnd (keyed_entities nodeKey (oget toGraph ''nodes'')) (\<lambda>toNodes.
     bnd (keyed_entities edgeKey (oget fromGraph ''edges'')) (\<lambda>fromEdges.
     bnd (keyed_entities edgeKey (oget toGraph ''edges'')) (\<lambda>toEdges.
     bnd (compare_entities ''NODE'' changeTypeForNode semanticNode node_stable_id fromNodes toNodes) (\<lambda>nodeChanges.
     bnd (compare_entities ''EDGE'' changeTypeForEdge semanticEdge edge_stable_id fromEdges toEdges) (\<lambda>edgeChanges.
     Inr (sort_by (change_before lc) (nodeChanges @ edgeChanges))))))))"

subsection \<open>Change sets\<close>

definition createChangeSet :: "jsv \<Rightarrow> int option \<Rightarrow> jsv res" where
  "createChangeSet input now =
     throw_if (\<not> is_plain_object input) (TypeErr ''changeSet must be an object'') (
     bnd (created_at input now) (\<lambda>createdAt.
     bnd (requireIsoTimestamp createdAt ''changeSet.createdAt'') (\<lambda>_.
     bnd (requireNonEmptyString (oget input ''fromSnapshotManifestId'') ''changeSet.fromSnapshotManifestId'') (\<lambda>fromId.
     bnd (requireNonEmptyString (oget input ''toSnapshotManifestId'') ''changeSet.toSnapshotManifestId'') (\<lambda>toId.
     throw_if (strict_eq fromId toId) (TypeErr ''changeSet Snapshot Manifest ids must differ'') (
     throw_if (\<not> is_array (coalesce (oget input ''warnings'') (JArr []))) (TypeErr ''changeSet.warnings must be an array'') (
     throw_if (\<not> is_array (oget input ''changes'')) (TypeErr ''changeSet.changes must be an array'') (
     bnd (mapiR (\<lambda>i w. requireNonEmptyString w (''changeSet.warnings['' @ nat_str i @ '']'')) 0 (elems (oget input ''warnings''))) (\<lambda>warnings.
     mk_obj
      [(''id'', requireNonEmptyString (oget input ''id'') ''changeSet.id''),
       (''fromSnapshotManifestId'', Inr fromId), (''toSnapshotManifestId'', Inr toId),
       (''complete'', Inr (JBool (oget input ''complete'' = JBool True))), (''warnings'', Inr (JArr (js_set warnings))),
       (''changes'', Inr (oget input ''changes'')), (''createdAt'', Inr createdAt)])))))))))"

subsection \<open>Impact\<close>

definition recommendedActionByLayer :: "(string \<times> string) list" where
  "recommendedActionByLayer =
     [(''IMPLEMENTATION_MAPPING'', ''REMAP_IMPLEMENTATION_FACTS''), (''CONFORMANCE'', ''RECOMPUTE_IMPLEMENTATION_CONFORMANCE''),
      (''TEST_COVERAGE'', ''REVIEW_TEST_COVERAGE''), (''VERIFICATION'', ''RERUN_AFFECTED_TESTS''),
      (''TRACE_CHAIN'', ''RECOMPUTE_TRACE_CHAIN''), (''CLAIM_SCOPE_MATCH'', ''REVIEW_CLAIM_SCOPE''),
      (''TEST_APPROVAL'', ''REAPPROVE_TEST_SPEC''), (''EVIDENCE_FRESHNESS'', ''REFRESH_EXECUTION_EVIDENCE''),
      (''CONFLICT_STATUS'', ''REVIEW_EVIDENCE_CONFLICT'')]"

text \<open>The changes of the set a mapping names, in the order of the set.\<close>

definition relevant_changes :: "jsv \<Rightarrow> jsv \<Rightarrow> string \<Rightarrow> (jsv list \<times> jsv list) res" where
  "relevant_changes changeSet mapping prefix =
     throw_if (\<not> is_array (oget mapping ''changeIds'') \<or> elems (oget mapping ''changeIds'') = [])
       (TypeErr (prefix @ ''.changeIds must be a non-empty array'')) (
     bnd (mapiR (\<lambda>i c. requireNonEmptyString c (prefix @ ''.changeIds['' @ nat_str i @ '']'')) 0 (elems (oget mapping ''changeIds''))) (\<lambda>given.
     let changeIds = js_set given in
     bnd (array_elems (oget changeSet ''changes'')) (\<lambda>changes.
     bnd (filterR (\<lambda>change. bnd (pget change ''id'') (\<lambda>i. Inr (arr_includes changeIds i))) changes) (\<lambda>relevant.
     throw_if (length relevant \<noteq> length changeIds) (TypeErr (prefix @ ''.changeIds must reference changes in the ChangeSet''))
       (Inr (changeIds, relevant))))))"

definition mapping_invalidation :: "jsv \<Rightarrow> nat \<Rightarrow> jsv \<Rightarrow> jsv res" where
  "mapping_invalidation changeSet index mapping =
     (let prefix = ''impactAssessment.affectedMappings['' @ nat_str index @ '']'' in
      bnd (requireNonEmptyString (oget mapping ''featureId'') (prefix @ ''.featureId'')) (\<lambda>featureId.
      bnd (requireNonEmptyString (oget mapping ''claimId'') (prefix @ ''.claimId'')) (\<lambda>claimId.
      bnd (requirePositiveInteger (oget mapping ''claimVersion'') (prefix @ ''.claimVersion'')) (\<lambda>claimVersion.
      bnd (requireNonEmptyString (oget mapping ''scopeId'') (prefix @ ''.scopeId'')) (\<lambda>scopeId.
      bnd (requirePositiveInteger (oget mapping ''scopeVersion'') (prefix @ ''.scopeVersion'')) (\<lambda>scopeVersion.
      bnd (requireNonEmptyString (oget mapping ''id'') (prefix @ ''.id'')) (\<lambda>mappingId.
      bnd (relevant_changes changeSet mapping prefix) (\<lambda>(changeIds, relevant).
      bnd (mapR (\<lambda>change. invalidationFor (JObj [(''type'', oget change ''changeType'')])) relevant) (\<lambda>rules.
      let layers = js_set (concat (map inv_invalidates rules)); preserves = js_set (concat (map inv_preserves rules));
          actions = js_set (List.map_filter (map_of recommendedActionByLayer) layers)
      in
      bnd (array_elems (coalesce (oget mapping ''testSpecIds'') (JArr []))) (\<lambda>tests.
      bnd (mapiR (\<lambda>i t. requireNonEmptyString t (prefix @ ''.testSpecIds['' @ nat_str i @ '']'')) 0 tests) (\<lambda>testSpecIds.
      Inr (JObj
        [(''id'', JStr (contentId ''TRACE-INVALIDATION'' (JObj
            [(''changeSetId'', oget changeSet ''id''), (''mappingId'', mappingId), (''claimId'', claimId), (''claimVersion'', claimVersion)]))),
         (''featureId'', featureId), (''claimId'', claimId), (''claimVersion'', claimVersion), (''scopeId'', scopeId),
         (''scopeVersion'', scopeVersion), (''mappingId'', mappingId), (''testSpecIds'', JArr (js_set testSpecIds)),
         (''changeIds'', JArr changeIds), (''layers'', JArr (map JStr layers)), (''preserves'', JArr (map JStr preserves)),
         (''reason'', JStr ''Mapped deterministic implementation facts changed between Snapshot Manifests.''),
         (''recommendedActions'', JArr (map JStr actions))]))))))))))))"

text \<open>The last claim reference of each identifier and version.\<close>

definition affected_claim_refs :: "jsv list \<Rightarrow> jsv list" where
  "affected_claim_refs invalidations =
     map snd (js_map (map (\<lambda>i. (js_string (oget i ''claimId'') @ [CHR 0x00] @ js_string (oget i ''claimVersion''),
       JObj [(''id'', oget i ''claimId''), (''version'', oget i ''claimVersion'')])) invalidations))"

definition createImpactAssessment :: "jsv \<Rightarrow> int option \<Rightarrow> jsv res" where
  "createImpactAssessment input now =
     throw_if (\<not> is_plain_object input) (TypeErr ''impactAssessment must be an object'') (
     bnd (created_at input now) (\<lambda>createdAt.
     bnd (requireIsoTimestamp createdAt ''impactAssessment.createdAt'') (\<lambda>_.
     let changeSet = oget input ''changeSet''; continuities = coalesce (oget input ''continuities'') (JArr []) in
     throw_if (\<not> is_plain_object changeSet) (TypeErr ''impactAssessment.changeSet must be an object'') (
     throw_if (\<not> is_array (oget input ''affectedMappings'')) (TypeErr ''impactAssessment.affectedMappings must be an array'') (
     throw_if (\<not> is_array continuities) (TypeErr ''impactAssessment.continuities must be an array'') (
     bnd (mapiR (mapping_invalidation changeSet) 0 (elems (oget input ''affectedMappings''))) (\<lambda>invalidations.
     mk_obj
      [(''id'', Inr (JStr (contentId ''IMPACT-ASSESSMENT'' (JObj [(''changeSetId'', oget changeSet ''id'')])))),
       (''changeSetId'', Inr (oget changeSet ''id'')),
       (''fromSnapshotManifestId'', Inr (oget changeSet ''fromSnapshotManifestId'')),
       (''toSnapshotManifestId'', Inr (oget changeSet ''toSnapshotManifestId'')),
       (''invalidations'', Inr (JArr invalidations)), (''continuities'', Inr continuities),
       (''affectedFeatureIds'', Inr (JArr (js_set (map (\<lambda>i. oget i ''featureId'') invalidations)))),
       (''affectedClaimRefs'', Inr (JArr (affected_claim_refs invalidations))),
       (''affectedTestSpecIds'', Inr (JArr (js_set (concat (map (\<lambda>i. elems (oget i ''testSpecIds'')) invalidations))))),
       (''continuedFeatureIds'', bnd (mapR (\<lambda>c. pget c ''featureId'') (elems continuities)) (\<lambda>fs. Inr (JArr (js_value_set fs)))),
       (''createdAt'', Inr createdAt)])))))))"

subsection \<open>Continuity\<close>

definition rebinding :: "nat \<Rightarrow> jsv \<Rightarrow> jsv res" where
  "rebinding index item =
     (let field = \<lambda>k. requireNonEmptyString (oget item k) (''implementationContinuity.factRefRebindings['' @ nat_str index @ ''].'' @ k) in
      mk_obj [(''fromFactId'', field ''fromFactId''), (''toFactId'', field ''toFactId''), (''relation'', field ''relation'')])"

definition createImplementationContinuity :: "jsv \<Rightarrow> jsv res" where
  "createImplementationContinuity input =
     throw_if (\<not> is_plain_object input) (TypeErr ''implementationContinuity must be an object'') (
     let str = \<lambda>k. requireNonEmptyString (oget input k) (''implementationContinuity.'' @ k);
         num = \<lambda>k. requirePositiveInteger (oget input k) (''implementationContinuity.'' @ k)
     in
     bnd (str ''featureId'') (\<lambda>featureId. bnd (str ''claimId'') (\<lambda>claimId. bnd (num ''claimVersion'') (\<lambda>claimVersion.
     bnd (str ''scopeId'') (\<lambda>scopeId. bnd (num ''scopeVersion'') (\<lambda>scopeVersion.
     bnd (str ''fromMappingId'') (\<lambda>fromMappingId. bnd (str ''toMappingId'') (\<lambda>toMappingId.
     bnd (str ''fromConformanceId'') (\<lambda>fromConformanceId. bnd (str ''toConformanceId'') (\<lambda>toConformanceId.
     throw_if (\<not> is_array (oget input ''factRefRebindings'') \<or> elems (oget input ''factRefRebindings'') = [])
       (TypeErr ''implementationContinuity.factRefRebindings must be a non-empty array'') (
     bnd (mapiR rebinding 0 (elems (oget input ''factRefRebindings''))) (\<lambda>rebindings.
     bnd (str ''changeSetId'') (\<lambda>changeSetId.
     let identity = [(''changeSetId'', changeSetId), (''fromMappingId'', fromMappingId), (''toMappingId'', toMappingId)] in
     mk_obj
      ((''id'', Inr (JStr (contentId ''IMPLEMENTATION-CONTINUITY'' (JObj identity)))) # map (\<lambda>(k, v). (k, Inr v)) identity @
       [(''featureId'', Inr featureId), (''claimId'', Inr claimId), (''claimVersion'', Inr claimVersion),
        (''scopeId'', Inr scopeId), (''scopeVersion'', Inr scopeVersion),
        (''fromSnapshotManifestId'', str ''fromSnapshotManifestId''), (''toSnapshotManifestId'', str ''toSnapshotManifestId''),
        (''fromConformanceId'', Inr fromConformanceId), (''toConformanceId'', Inr toConformanceId),
        (''factRefRebindings'', Inr (JArr rebindings)),
        (''reason'', Inr (JStr ''All mapped facts remained semantically identical and were rebound to the new Snapshot Manifest.''))]))))))))))))))"

subsection \<open>What the comparison reports\<close>

text \<open>The node or edge a graph has under a key: the last one, as in the code's \<open>Map\<close>.\<close>

definition entity_with :: "(jsv \<Rightarrow> string res) \<Rightarrow> jsv \<Rightarrow> string \<Rightarrow> jsv option" where
  "entity_with key entities k = find (\<lambda>x. key x = Inr k) (rev (elems entities))"

definition entity_delta ::
  "string \<Rightarrow> (jsv \<Rightarrow> jsv res) \<Rightarrow> (jsv \<Rightarrow> jsv) \<Rightarrow> (jsv \<Rightarrow> jsv \<Rightarrow> jsv) \<Rightarrow> jsv option \<Rightarrow> jsv option \<Rightarrow> jsv set" where
  "entity_delta entityType changeTypeFor semantic stableId before after =
     (case (before, after) of
        (None, None) \<Rightarrow> {}
      | (None, Some a) \<Rightarrow> {c. \<exists>t. changeTypeFor a = Inr t \<and> c = changeRecord ''ADDED'' entityType (stableId JNull a) JNull a t}
      | (Some b, None) \<Rightarrow> {c. \<exists>t. changeTypeFor b = Inr t \<and> c = changeRecord ''REMOVED'' entityType (stableId b JNull) b JNull t}
      | (Some b, Some a) \<Rightarrow> if same_json (semantic b) (semantic a) then {}
          else {c. \<exists>t. changeTypeFor a = Inr t \<and> c = changeRecord ''MODIFIED'' entityType (stableId b a) b a t})"

definition same_entities :: "(jsv \<Rightarrow> string res) \<Rightarrow> (jsv \<Rightarrow> jsv) \<Rightarrow> jsv \<Rightarrow> jsv \<Rightarrow> bool" where
  "same_entities key semantic from to \<longleftrightarrow>
     (\<forall>k. rel_option (\<lambda>b a. same_json (semantic b) (semantic a)) (entity_with key from k) (entity_with key to k))"

text \<open>The lists of JSON objects a stored graph holds.\<close>

definition object_list :: "jsv \<Rightarrow> bool" where
  "object_list v \<longleftrightarrow> list_all (\<lambda>x. is_plain_object x \<and> json_value x) (elems v)"

lemma map_of_keyed: "map_of (map (\<lambda>x. (f x, x)) xs) k = find (\<lambda>x. f x = k) xs"
  by (induction xs) auto

lemma keyed_entities_lookup:
  assumes "keyed_entities key v = Inr m"
  shows "map_of m = entity_with key v"
proof -
  from assms obtain xs es where xs: "array_elems (coalesce v (JArr [])) = Inr xs"
    and es: "mapR (\<lambda>x. bnd (key x) (\<lambda>k. Inr (k, x))) xs = Inr es" and m: "m = js_map es"
    by (auto simp: keyed_entities_def bnd_eq_Inr)
  have "elems v = xs" using xs by (cases v) (auto simp: coalesce_def)
  moreover have "map_of (rev es) k = find (\<lambda>x. key x = Inr k) (rev xs)" for k
  proof -
    have "list_all2 (\<lambda>x e. key x = Inr (fst e) \<and> snd e = x) xs es"
      using es unfolding mapR_Inr_iff by (rule list_all2_mono) (auto simp: bnd_eq_Inr)
    then have "list_all2 (\<lambda>x e. key x = Inr (fst e) \<and> snd e = x) (rev xs) (rev es)" by simp
    then show ?thesis by (induction rule: list_all2_induct) auto
  qed
  ultimately show ?thesis by (simp add: m map_of_js_map entity_with_def fun_eq_iff)
qed

lemma semantic_json:
  "json_value v \<Longrightarrow> json_value (semanticNode v)" "json_value v \<Longrightarrow> json_value (semanticEdge v)"
  by (cases v; auto simp: semanticNode_def semanticEdge_def without_def distinct_map_filter)+

lemma entity_with_object:
  "object_list v \<Longrightarrow> entity_with key v k = Some x \<Longrightarrow> is_plain_object x \<and> json_value x"
  unfolding entity_with_def find_Some_iff object_list_def list_all_iff by (metis nth_mem set_rev)

lemma compare_entity_delta:
  assumes m: "map_of from = f" "map_of to = t"
    and obj: "\<And>x. f k = Some x \<or> t k = Some x \<Longrightarrow> is_plain_object x \<and> json_value x"
    and sem: "\<And>x. json_value x \<Longrightarrow> json_value (semantic x)" and some: "f k \<noteq> None \<or> t k \<noteq> None"
    and c: "compare_entity ty changeTypeFor semantic (stableId k (entity_at from k) (entity_at to k)) (entity_at from k) (entity_at to k) = Inr cs"
  shows "set cs = entity_delta ty changeTypeFor semantic (stableId k) (f k) (t k)"
proof -
  have po: "is_plain_object x \<Longrightarrow> coalesce x JNull = x" and tr: "is_plain_object x \<Longrightarrow> truthy x" for x by (cases x; simp)+
  have at: "entity_at from k = (case f k of None \<Rightarrow> JNull | Some x \<Rightarrow> x)" "entity_at to k = (case t k of None \<Rightarrow> JNull | Some x \<Rightarrow> x)"
    unfolding entity_at_def m using obj po by (auto split: option.split)
  show ?thesis
  proof (cases "f k"; cases "t k")
    fix b a assume fk: "f k = Some b" and tk: "t k = Some a"
    have o: "truthy b" "truthy a" "json_value b" "json_value a" using obj fk tk tr by auto
    have eq: "canonicalJson (semantic b) = canonicalJson (semantic a) \<longleftrightarrow> same_json (semantic b) (semantic a)"
      by (rule canonicalJson_eq_iff) (simp_all add: sem o)
    show ?thesis
      using c unfolding at fk tk entity_delta_def compare_entity_def option.case prod.case eq
      by (cases "same_json (semantic b) (semantic a)") (auto simp: o bnd_eq_Inr)
  next
    fix b assume fk: "f k = Some b" and tk: "t k = None"
    have "truthy b" using obj fk tr by auto
    then show ?thesis
      using c unfolding at fk tk entity_delta_def compare_entity_def option.case prod.case by (auto simp: bnd_eq_Inr)
  next
    fix a assume "f k = None" "t k = Some a"
    then show ?thesis
      using c unfolding at entity_delta_def compare_entity_def by (auto simp: bnd_eq_Inr)
  qed (use some in simp)
qed

lemma compare_entities_delta:
  assumes "compare_entities ty changeTypeFor semantic stableId from to = Inr cs"
    and "map_of from = f" "map_of to = t"
    and obj: "\<And>k x. f k = Some x \<or> t k = Some x \<Longrightarrow> is_plain_object x \<and> json_value x"
    and sem: "\<And>x. json_value x \<Longrightarrow> json_value (semantic x)"
  shows "set cs = (\<Union>k. entity_delta ty changeTypeFor semantic (stableId k) (f k) (t k))"
proof -
  let ?D = "\<lambda>k. entity_delta ty changeTypeFor semantic (stableId k) (f k) (t k)"
  let ?K = "js_set (map fst from @ map fst to)"
  from assms(1) obtain css where css: "list_all2 (\<lambda>k c. compare_entity ty changeTypeFor semantic
      (stableId k (entity_at from k) (entity_at to k)) (entity_at from k) (entity_at to k) = Inr c) ?K css" and cs: "cs = concat css"
    by (auto simp: compare_entities_def Let_def bnd_eq_Inr mapR_Inr_iff)
  have K: "k \<in> set ?K \<longleftrightarrow> f k \<noteq> None \<or> t k \<noteq> None" for k
    using assms(2,3) by (auto simp: map_of_eq_None_iff simp flip: assms(2,3))
  have "set (concat css) = (\<Union>k\<in>set ks. ?D k)"
    if "list_all2 (\<lambda>k c. compare_entity ty changeTypeFor semantic
      (stableId k (entity_at from k) (entity_at to k)) (entity_at from k) (entity_at to k) = Inr c) ks css" "set ks \<subseteq> set ?K" for ks css
    using that
  proof (induction rule: list_all2_induct)
    case (Cons k ks c css)
    from Cons.prems K have "f k \<noteq> None \<or> t k \<noteq> None" by auto
    with Cons.hyps(1) have "set c = ?D k" by (intro compare_entity_delta [OF assms(2,3) obj sem, where cs = c])
    with Cons.IH Cons.prems show ?case by simp
  qed simp
  from this [OF css] cs have "set cs = (\<Union>k\<in>set ?K. ?D k)" by simp
  moreover have "?D k = {}" if "k \<notin> set ?K" for k
    using that K [of k] by (simp add: entity_delta_def)
  ultimately show ?thesis by blast
qed

lemma no_delta:
  assumes "\<And>x. is_plain_object x \<Longrightarrow> \<exists>ct. changeTypeFor x = Inr ct"
    and "\<And>x. b = Some x \<or> a = Some x \<Longrightarrow> is_plain_object x"
  shows "entity_delta ty changeTypeFor semantic st b a = {} \<longleftrightarrow> rel_option (\<lambda>b a. same_json (semantic b) (semantic a)) b a"
  using assms by (cases b; cases a) (auto simp: entity_delta_def)

lemma change_types_total:
  "is_plain_object x \<Longrightarrow> \<exists>ct. changeTypeForNode x = Inr ct" "is_plain_object x \<Longrightarrow> \<exists>ct. changeTypeForEdge x = Inr ct"
  by (auto simp: is_plain_object_iff changeTypeForNode_def changeTypeForEdge_def)

lemma no_deltas:
  assumes "\<And>x. is_plain_object x \<Longrightarrow> \<exists>ct. changeTypeFor x = Inr ct"
    and "\<And>k x. f k = Some x \<or> t k = Some x \<Longrightarrow> is_plain_object x \<and> json_value x"
  shows "(\<Union>k. entity_delta ty changeTypeFor semantic (st k) (f k) (t k)) = {} \<longleftrightarrow>
    (\<forall>k. rel_option (\<lambda>b a. same_json (semantic b) (semantic a)) (f k) (t k))"
proof -
  have "entity_delta ty changeTypeFor semantic (st k) (f k) (t k) = {} \<longleftrightarrow>
      rel_option (\<lambda>b a. same_json (semantic b) (semantic a)) (f k) (t k)" for k
    by (rule no_delta) (use assms in blast)+
  then show ?thesis by auto
qed

lemma object_lists:
  "object_list v \<Longrightarrow> object_list w \<Longrightarrow> entity_with key v k = Some x \<or> entity_with key w k = Some x \<Longrightarrow>
     is_plain_object x \<and> json_value x"
  using entity_with_object by blast

lemma comparison_differences:
  assumes "compareFactGraphs lc g h = Inr changes"
    and "object_list (oget g ''nodes'')" "object_list (oget h ''nodes'')" "object_list (oget g ''edges'')" "object_list (oget h ''edges'')"
  shows "set changes =
      (\<Union>k. entity_delta ''NODE'' changeTypeForNode semanticNode (node_stable_id k)
        (entity_with nodeKey (oget g ''nodes'') k) (entity_with nodeKey (oget h ''nodes'') k)) \<union>
      (\<Union>k. entity_delta ''EDGE'' changeTypeForEdge semanticEdge (edge_stable_id k)
        (entity_with edgeKey (oget g ''edges'') k) (entity_with edgeKey (oget h ''edges'') k)) \<and>
    (changes = [] \<longleftrightarrow> same_entities nodeKey semanticNode (oget g ''nodes'') (oget h ''nodes'') \<and>
      same_entities edgeKey semanticEdge (oget g ''edges'') (oget h ''edges''))"
  (is "_ = ?N \<union> ?E \<and> _")
proof -
  from assms(1) obtain fn tn fe te ns es where r:
    "keyed_entities nodeKey (oget g ''nodes'') = Inr fn" "keyed_entities nodeKey (oget h ''nodes'') = Inr tn"
    "keyed_entities edgeKey (oget g ''edges'') = Inr fe" "keyed_entities edgeKey (oget h ''edges'') = Inr te"
    "compare_entities ''NODE'' changeTypeForNode semanticNode node_stable_id fn tn = Inr ns"
    "compare_entities ''EDGE'' changeTypeForEdge semanticEdge edge_stable_id fe te = Inr es"
    "changes = sort_by (change_before lc) (ns @ es)"
    by (auto simp: compareFactGraphs_def bnd_eq_Inr)
  have "set ns = ?N"
    by (rule compare_entities_delta [OF r(5) r(1,2) [THEN keyed_entities_lookup] object_lists [OF assms(2,3)] semantic_json(1)])
  moreover have "set es = ?E"
    by (rule compare_entities_delta [OF r(6) r(3,4) [THEN keyed_entities_lookup] object_lists [OF assms(4,5)] semantic_json(2)])
  ultimately have s: "set changes = ?N \<union> ?E" by (simp add: r(7))
  have "?N = {} \<longleftrightarrow> same_entities nodeKey semanticNode (oget g ''nodes'') (oget h ''nodes'')"
    unfolding same_entities_def by (rule no_deltas [OF change_types_total(1) object_lists [OF assms(2,3)]])
  moreover have "?E = {} \<longleftrightarrow> same_entities edgeKey semanticEdge (oget g ''edges'') (oget h ''edges'')"
    unfolding same_entities_def by (rule no_deltas [OF change_types_total(2) object_lists [OF assms(4,5)]])
  moreover have "changes = [] \<longleftrightarrow> ?N = {} \<and> ?E = {}" unfolding set_empty [symmetric] s by (rule Un_empty)
  ultimately show ?thesis using s by (simp only: simp_thms)
qed

text \<open>
  C15: the comparison of two graphs of JSON objects reports exactly the differences in content: its
  records are one ADDED, REMOVED or MODIFIED record for each key that only the new graph has, only the old
  graph has, or whose node or edge differs in more than what the snapshot assigns. It reports nothing
  exactly when both graphs have the same content under every key.
\<close>

theorem comparison_reports_the_differences:
  assumes "compareFactGraphs lc g h = Inr changes"
    and "object_list (oget g ''nodes'')" "object_list (oget h ''nodes'')" "object_list (oget g ''edges'')" "object_list (oget h ''edges'')"
  shows "set changes =
      (\<Union>k. entity_delta ''NODE'' changeTypeForNode semanticNode (node_stable_id k)
        (entity_with nodeKey (oget g ''nodes'') k) (entity_with nodeKey (oget h ''nodes'') k)) \<union>
      (\<Union>k. entity_delta ''EDGE'' changeTypeForEdge semanticEdge (edge_stable_id k)
        (entity_with edgeKey (oget g ''edges'') k) (entity_with edgeKey (oget h ''edges'') k)) \<and>
    (changes = [] \<longleftrightarrow> same_entities nodeKey semanticNode (oget g ''nodes'') (oget h ''nodes'') \<and>
      same_entities edgeKey semanticEdge (oget g ''edges'') (oget h ''edges''))"
  by (rule comparison_differences [OF assms])

subsection \<open>What an impact assessment invalidates\<close>

text \<open>The change types a comparison can report; the placeholder of a built-in member is no change type.\<close>

definition technical_changes :: "string list" where
  "technical_changes = [''API_CONTRACT'', ''CONFIGURATION'', ''DEPENDENCY'', ''TEST_SPEC'', ''DATABASE_SCHEMA'', ''SQL'', ''SOURCE_CODE'']"

lemma change_types_technical:
  "changeTypeForNode x = Inr t \<Longrightarrow> one_of technical_changes t \<or> t = JObj []"
  "changeTypeForEdge x = Inr t \<Longrightarrow> one_of technical_changes t \<or> t = JObj []"
  by (auto simp: changeTypeForNode_def changeTypeForEdge_def bnd_eq_Inr one_of_def technical_changes_def literal_get_def
      node_change_types_def split: if_splits option.splits)

lemma changeRecord_type: "oget (changeRecord kind ty i b a t) ''changeType'' = t"
  by (simp add: changeRecord_def Let_def)

lemma compare_entities_types:
  assumes "compare_entities ty changeTypeFor semantic stableId from to = Inr cs" "c \<in> set cs"
  shows "\<exists>x. changeTypeFor x = Inr (oget c ''changeType'')"
proof -
  from assms obtain dss ds where d: "mapR (\<lambda>k. compare_entity ty changeTypeFor semantic
      (stableId k (entity_at from k) (entity_at to k)) (entity_at from k) (entity_at to k)) (js_set (map fst from @ map fst to)) = Inr dss"
    "ds \<in> set dss" "c \<in> set ds"
    by (auto simp: compare_entities_def Let_def bnd_eq_Inr)
  from mapR_in_set [OF d(1,2)] obtain k where
    "compare_entity ty changeTypeFor semantic (stableId k (entity_at from k) (entity_at to k)) (entity_at from k) (entity_at to k) = Inr ds"
    by (elim bexE)
  with d(3) show ?thesis
    by (auto simp: compare_entity_def bnd_eq_Inr changeRecord_type split: if_splits)
qed

lemma compareFactGraphs_technical:
  assumes "compareFactGraphs lc g h = Inr changes" "c \<in> set changes"
  shows "one_of technical_changes (oget c ''changeType'') \<or> oget c ''changeType'' = JObj []"
proof -
  from assms obtain fn tn fe te ns es where r:
    "compare_entities ''NODE'' changeTypeForNode semanticNode node_stable_id fn tn = Inr ns"
    "compare_entities ''EDGE'' changeTypeForEdge semanticEdge edge_stable_id fe te = Inr es" "c \<in> set ns \<union> set es"
    by (auto simp: compareFactGraphs_def bnd_eq_Inr)
  with compare_entities_types [OF r(1)] compare_entities_types [OF r(2)] change_types_technical show ?thesis by blast
qed

text \<open>What a technical change may invalidate, and what it must leave alone.\<close>

definition derived_conclusions :: "string list" where
  "derived_conclusions =
     [''IMPLEMENTATION_MAPPING'', ''CONFORMANCE'', ''TEST_COVERAGE'', ''TEST_APPROVAL'', ''VERIFICATION'', ''TRACE_CHAIN'']"

definition kept_conclusions :: "string list" where
  "kept_conclusions = [''HISTORICAL_FACT'', ''HISTORICAL_EVIDENCE'', ''AUDIT_EVENT'', ''NORMATIVE_CLAIM'', ''BUSINESS_DECISION'']"

text \<open>What the rules say of a technical change.\<close>

lemma technical_rules:
  "list_all (\<lambda>t. case map_of rules t of None \<Rightarrow> False | Some xs \<Rightarrow> ''TRACE_CHAIN'' \<in> set xs \<and> ''VERIFICATION'' \<in> set xs \<and> t \<in> set ChangeType \<and>
     t \<notin> set [''BUSINESS_AUTHORITY'', ''CLAIM_SCOPE''] \<and> list_all (\<lambda>x. x \<in> set derived_conclusions) xs) technical_changes"
  by code_simp

lemma invalidation_of_technical:
  assumes "invalidationFor (JObj [(''type'', t)]) = Inr r" "one_of technical_changes t \<or> t = JObj []"
  shows "''TRACE_CHAIN'' \<in> set (inv_invalidates r) \<and> ''VERIFICATION'' \<in> set (inv_invalidates r) \<and>
    inv_preserves r = kept_conclusions \<and> set (inv_invalidates r) \<subseteq> set derived_conclusions"
proof (cases "t = JObj []")
  case True
  then have False using assms(1) by (simp add: invalidationFor_def assertEnum_def ChangeType_def)
  then show ?thesis ..
next
  case False
  with assms(2) obtain ty where ty: "t = JStr ty" "ty \<in> set technical_changes" by (auto simp: one_of_iff)
  from technical_rules ty(2) obtain xs where xs: "map_of rules ty = Some xs" "''TRACE_CHAIN'' \<in> set xs"
    "ty \<notin> set [''BUSINESS_AUTHORITY'', ''CLAIM_SCOPE'']" "''VERIFICATION'' \<in> set xs" "set xs \<subseteq> set derived_conclusions"
    unfolding list_all_iff by (fastforce split: option.splits)
  from assms(1) have "r = \<lparr>inv_changeType = t, inv_scope = JNull, inv_invalidates = xs, inv_preserves = kept_conclusions\<rparr>"
    unfolding ty(1) invalidationFor_def kept_conclusions_def
    by (simp add: alwaysPreserved_def bnd_eq_Inr assertEnum_Inr xs(1) one_of_str [of _ ty] xs(3) [simplified])
  with xs show ?thesis by simp
qed

lemma strings_unchanged: "mapiR (\<lambda>i x. requireNonEmptyString x (h i)) n xs = Inr ys \<Longrightarrow> ys = xs"
  by (induction xs arbitrary: n ys) (auto simp: bnd_eq_Inr requireNonEmptyString_Inr)

lemma relevant_changes_Inr:
  assumes "relevant_changes changeSet mapping prefix = Inr (ids, relevant)"
  shows "relevant \<noteq> []" "set relevant \<subseteq> set (elems (oget changeSet ''changes''))" "set ids = set (elems (oget mapping ''changeIds''))"
proof -
  from assms obtain given changes where r: "elems (oget mapping ''changeIds'') \<noteq> []"
    "mapiR (\<lambda>i c. requireNonEmptyString c (prefix @ ''.changeIds['' @ nat_str i @ '']'')) 0 (elems (oget mapping ''changeIds'')) = Inr given"
    "array_elems (oget changeSet ''changes'') = Inr changes" "ids = js_set given"
    "filterR (\<lambda>change. bnd (pget change ''id'') (\<lambda>i. Inr (arr_includes ids i))) changes = Inr relevant"
    "length relevant = length ids"
    by (auto simp: relevant_changes_def throw_if_eq_Inr bnd_eq_Inr Let_def)
  have given: "given = elems (oget mapping ''changeIds'')" by (rule strings_unchanged [OF r(2)])
  then show "set ids = set (elems (oget mapping ''changeIds''))" using r(4) by simp
  have "ids \<noteq> []" using r(1,4) given by simp
  with r(6) show "relevant \<noteq> []" by auto
  have "changes = elems (oget changeSet ''changes'')" using r(3) by (cases "oget changeSet ''changes''") auto
  with filterR_Inr [OF r(5)] show "set relevant \<subseteq> set (elems (oget changeSet ''changes''))" by auto
qed

text \<open>An invalidation names the mapping it is of, with its feature, claim and scope.\<close>

definition equal_named :: "jsv \<Rightarrow> jsv \<Rightarrow> bool" where
  "equal_named v mapping \<longleftrightarrow> oget v ''mappingId'' = oget mapping ''id'' \<and>
     list_all (\<lambda>k. oget v k = oget mapping k) [''featureId'', ''claimId'', ''claimVersion'', ''scopeId'', ''scopeVersion'']"

lemma mapping_invalidation_run:
  assumes "mapping_invalidation changeSet index mapping = Inr v"
  obtains ids relevant rules tests where
    "relevant_changes changeSet mapping (''impactAssessment.affectedMappings['' @ nat_str index @ '']'') = Inr (ids, relevant)"
    "mapR (\<lambda>change. invalidationFor (JObj [(''type'', oget change ''changeType'')])) relevant = Inr rules"
    "oget v ''layers'' = JArr (map JStr (js_set (concat (map inv_invalidates rules))))"
    "oget v ''preserves'' = JArr (map JStr (js_set (concat (map inv_preserves rules))))"
    "oget v ''recommendedActions'' = JArr (map JStr (js_set (List.map_filter (map_of recommendedActionByLayer)
       (js_set (concat (map inv_invalidates rules))))))"
    "oget v ''featureId'' = oget mapping ''featureId''" "oget v ''testSpecIds'' = JArr (js_set tests)"
    "set tests = set (elems (oget mapping ''testSpecIds''))" "oget v ''changeIds'' = JArr ids"
    "equal_named v mapping" "set ids = set (elems (oget mapping ''changeIds''))"
proof -
  let ?p = "''impactAssessment.affectedMappings['' @ nat_str index @ '']''"
  from assms obtain f c cv sc sv mi ids relevant rules given tests where r:
    "requireNonEmptyString (oget mapping ''featureId'') (?p @ ''.featureId'') = Inr f"
    "requireNonEmptyString (oget mapping ''claimId'') (?p @ ''.claimId'') = Inr c"
    "requirePositiveInteger (oget mapping ''claimVersion'') (?p @ ''.claimVersion'') = Inr cv"
    "requireNonEmptyString (oget mapping ''scopeId'') (?p @ ''.scopeId'') = Inr sc"
    "requirePositiveInteger (oget mapping ''scopeVersion'') (?p @ ''.scopeVersion'') = Inr sv"
    "requireNonEmptyString (oget mapping ''id'') (?p @ ''.id'') = Inr mi"
    "relevant_changes changeSet mapping ?p = Inr (ids, relevant)"
    "mapR (\<lambda>change. invalidationFor (JObj [(''type'', oget change ''changeType'')])) relevant = Inr rules"
    "array_elems (coalesce (oget mapping ''testSpecIds'') (JArr [])) = Inr given"
    "mapiR (\<lambda>i t. requireNonEmptyString t (?p @ ''.testSpecIds['' @ nat_str i @ '']'')) 0 given = Inr tests"
    and v: "v = JObj
        [(''id'', JStr (contentId ''TRACE-INVALIDATION'' (JObj
            [(''changeSetId'', oget changeSet ''id''), (''mappingId'', mi), (''claimId'', c), (''claimVersion'', cv)]))),
         (''featureId'', f), (''claimId'', c), (''claimVersion'', cv), (''scopeId'', sc),
         (''scopeVersion'', sv), (''mappingId'', mi), (''testSpecIds'', JArr (js_set tests)),
         (''changeIds'', JArr ids), (''layers'', JArr (map JStr (js_set (concat (map inv_invalidates rules))))),
         (''preserves'', JArr (map JStr (js_set (concat (map inv_preserves rules))))),
         (''reason'', JStr ''Mapped deterministic implementation facts changed between Snapshot Manifests.''),
         (''recommendedActions'', JArr (map JStr (js_set (List.map_filter (map_of recommendedActionByLayer)
             (js_set (concat (map inv_invalidates rules)))))))]"
    unfolding mapping_invalidation_def Let_def
    apply (simp only: bnd_eq_Inr split_paired_Ex prod.case sum.inject)
    apply (elim exE conjE)
    apply (rule that)
              apply assumption+
    apply (erule sym)
    done
  have given: "given = elems (oget mapping ''testSpecIds'')"
    using r(9) by (cases "oget mapping ''testSpecIds''") auto
  have "tests = given" by (rule strings_unchanged [OF r(10)])
  with given have t: "set tests = set (elems (oget mapping ''testSpecIds''))" by simp
  have f: "f = oget mapping ''featureId''" "c = oget mapping ''claimId''" "cv = oget mapping ''claimVersion''"
    "sc = oget mapping ''scopeId''" "sv = oget mapping ''scopeVersion''" "mi = oget mapping ''id''"
    using r(1-6) by (simp_all add: requireNonEmptyString_Inr requirePositiveInteger_Inr)
  have n: "equal_named v mapping" unfolding equal_named_def v f by simp
  show ?thesis
    by (rule that [OF r(7,8) _ _ _ _ _ t _ n relevant_changes_Inr(3) [OF r(7)]]) (simp_all add: v f(1))
qed

text \<open>What one mapping loses by technical changes.\<close>

lemma technical_invalidation:
  assumes run: "mapping_invalidation changeSet index mapping = Inr v"
    and tech: "\<And>c. c \<in> set (elems (oget changeSet ''changes'')) \<Longrightarrow> one_of technical_changes (oget c ''changeType'') \<or> oget c ''changeType'' = JObj []"
  shows "JStr ''TRACE_CHAIN'' \<in> set (elems (oget v ''layers''))"
    "set (elems (oget v ''preserves'')) = JStr ` set kept_conclusions"
    "set (elems (oget v ''layers'')) \<subseteq> JStr ` set derived_conclusions"
    "JStr ''RECOMPUTE_TRACE_CHAIN'' \<in> set (elems (oget v ''recommendedActions''))"
    "JStr ''VERIFICATION'' \<in> set (elems (oget v ''layers''))"
    "JStr ''RERUN_AFFECTED_TESTS'' \<in> set (elems (oget v ''recommendedActions''))"
using run
proof (atomize (full), rule mapping_invalidation_run, goal_cases)
  case (1 ids relevant rules tests)
  note rel = relevant_changes_Inr [OF 1(1)]
  have rule: "''TRACE_CHAIN'' \<in> set (inv_invalidates r) \<and> ''VERIFICATION'' \<in> set (inv_invalidates r) \<and>
      inv_preserves r = kept_conclusions \<and> set (inv_invalidates r) \<subseteq> set derived_conclusions" if "r \<in> set rules" for r
  proof -
    from mapR_in_set [OF 1(2) that] obtain c where "c \<in> set relevant" "invalidationFor (JObj [(''type'', oget c ''changeType'')]) = Inr r"
      by (elim bexE)
    with invalidation_of_technical tech rel(2) show ?thesis by blast
  qed
  have "rules \<noteq> []" using rel(1) mapR_length [OF 1(2)] by auto
  then obtain r where r: "r \<in> set rules" by (cases rules) auto
  let ?ls = "js_set (concat (map inv_invalidates rules))"
  have t: "''TRACE_CHAIN'' \<in> set ?ls" "''VERIFICATION'' \<in> set ?ls" using rule [OF r] r by auto
  have p: "set (concat (map inv_preserves rules)) = set kept_conclusions" using rule r by auto
  have l: "set ?ls \<subseteq> set derived_conclusions" using rule by auto
  have "map_of recommendedActionByLayer ''TRACE_CHAIN'' = Some ''RECOMPUTE_TRACE_CHAIN''"
    "map_of recommendedActionByLayer ''VERIFICATION'' = Some ''RERUN_AFFECTED_TESTS''" by code_simp+
  with t have a: "''RECOMPUTE_TRACE_CHAIN'' \<in> set (List.map_filter (map_of recommendedActionByLayer) ?ls)"
    "''RERUN_AFFECTED_TESTS'' \<in> set (List.map_filter (map_of recommendedActionByLayer) ?ls)"
    by (force simp: List.map_filter_def)+
  show ?case
    unfolding 1(3-5) elems.simps set_map set_js_set image_comp [symmetric] p
    using t l a by (auto simp: image_comp)
qed

lemma createImpactAssessment_run:
  assumes "createImpactAssessment input now = Inr a"
  obtains vs where "mapiR (mapping_invalidation (oget input ''changeSet'')) 0 (elems (oget input ''affectedMappings'')) = Inr vs"
    "oget a ''invalidations'' = JArr vs"
    "oget a ''affectedFeatureIds'' = JArr (js_set (map (\<lambda>i. oget i ''featureId'') vs))"
    "oget a ''affectedTestSpecIds'' = JArr (js_set (concat (map (\<lambda>i. elems (oget i ''testSpecIds'')) vs)))"
proof -
  from assms obtain vs es where vs: "mapiR (mapping_invalidation (oget input ''changeSet'')) 0 (elems (oget input ''affectedMappings'')) = Inr vs"
    and mk: "mk_obj es = Inr a" and es: "map_of es ''invalidations'' = Some (Inr (JArr vs))"
    "map_of es ''affectedFeatureIds'' = Some (Inr (JArr (js_set (map (\<lambda>i. oget i ''featureId'') vs))))"
    "map_of es ''affectedTestSpecIds'' = Some (Inr (JArr (js_set (concat (map (\<lambda>i. elems (oget i ''testSpecIds'')) vs)))))"
    unfolding createImpactAssessment_def Let_def
    apply (simp only: throw_if_eq_Inr bnd_eq_Inr)
    apply (elim exE conjE)
    apply (rule that)
        apply assumption+
      apply simp_all
    done
  from that [OF vs] es [THEN mk_obj_member [OF mk]] show ?thesis by simp
qed

text \<open>The affected features and tests are those of the mappings, no more and no fewer.\<close>

lemma impact_accounts_for_mappings:
  assumes "createImpactAssessment input now = Inr a"
  shows "set (elems (oget a ''affectedFeatureIds'')) = (\<lambda>m. oget m ''featureId'') ` set (elems (oget input ''affectedMappings''))"
    "set (elems (oget a ''affectedTestSpecIds'')) = (\<Union>m\<in>set (elems (oget input ''affectedMappings'')). set (elems (oget m ''testSpecIds'')))"
using assms
proof (atomize (full), rule createImpactAssessment_run, goal_cases)
  case (1 vs)
  have *: "map (\<lambda>i. oget i ''featureId'') vs = map (\<lambda>m. oget m ''featureId'') ms \<and>
      map (\<lambda>i. set (elems (oget i ''testSpecIds''))) vs = map (\<lambda>m. set (elems (oget m ''testSpecIds''))) ms"
    if "mapiR (mapping_invalidation (oget input ''changeSet'')) n ms = Inr vs" for n ms vs
    using that
  proof (induction ms arbitrary: n vs)
    case (Cons m ms)
    from Cons.prems obtain v vs' where v: "mapping_invalidation (oget input ''changeSet'') n m = Inr v"
      and vs: "mapiR (mapping_invalidation (oget input ''changeSet'')) (Suc n) ms = Inr vs'" "vs = v # vs'"
      by (auto simp: bnd_eq_Inr)
    have "oget v ''featureId'' = oget m ''featureId'' \<and> set (elems (oget v ''testSpecIds'')) = set (elems (oget m ''testSpecIds''))"
      using v by (rule mapping_invalidation_run) simp
    with Cons.IH [OF vs(1)] vs(2) show ?case by simp
  qed simp
  note eq = * [OF 1(1)]
  from eq have "set (map (\<lambda>i. oget i ''featureId'') vs) = set (map (\<lambda>m. oget m ''featureId'') (elems (oget input ''affectedMappings'')))"
    "set (map (\<lambda>i. set (elems (oget i ''testSpecIds''))) vs) = set (map (\<lambda>m. set (elems (oget m ''testSpecIds''))) (elems (oget input ''affectedMappings'')))"
    by simp_all
  with 1(3,4) show ?case by (simp add: image_image)
qed

lemma spared_conclusions: "list_all (\<lambda>k. k \<notin> set (''DECISION'' # ''NORMATIVE_CLAIM_VERSION'' # kept_conclusions)) derived_conclusions"
  by code_simp

text \<open>What the invalidation of a mapping must say, and what it must spare.\<close>

definition spares_history_and_intent :: "jsv \<Rightarrow> jsv \<Rightarrow> bool" where
  "spares_history_and_intent mapping v \<longleftrightarrow> equal_named v mapping \<and>
     set (elems (oget v ''changeIds'')) = set (elems (oget mapping ''changeIds'')) \<and>
     set (elems (oget v ''testSpecIds'')) = set (elems (oget mapping ''testSpecIds'')) \<and>
     {JStr ''TRACE_CHAIN'', JStr ''VERIFICATION''} \<subseteq> set (elems (oget v ''layers'')) \<and>
     {JStr ''RECOMPUTE_TRACE_CHAIN'', JStr ''RERUN_AFFECTED_TESTS''} \<subseteq> set (elems (oget v ''recommendedActions'')) \<and>
     set (elems (oget v ''layers'')) \<subseteq> JStr ` set derived_conclusions \<and>
     set (elems (oget v ''preserves'')) = JStr ` set kept_conclusions \<and>
     set (elems (oget v ''layers'')) \<inter> JStr ` set (''DECISION'' # ''NORMATIVE_CLAIM_VERSION'' # kept_conclusions) = {}"

text \<open>
  C39: an impact assessment of the changes a comparison reports has one invalidation for each affected mapping, in
  their order: it names the mapping with its feature, claim and scope, its changes and its tests, invalidates at
  least the trace chain and the verification and asks for the chain to be recomputed and the tests to be run again;
  what it invalidates are conclusions derived from the implementation only. It preserves exactly the
  historical facts, the historical evidence, the audit events, the normative claim and the business decision, and
  invalidates none of them, nor a version of the claim or a decision.
\<close>

theorem impact_spares_history_and_intent:
  assumes "compareFactGraphs lc g h = Inr changes" and "oget (oget input ''changeSet'') ''changes'' = JArr changes"
    and "createImpactAssessment input now = Inr a"
  shows "list_all2 spares_history_and_intent (elems (oget input ''affectedMappings'')) (elems (oget a ''invalidations''))"
using assms(3)
proof (rule createImpactAssessment_run, goal_cases)
  case (1 vs)
  have tech: "one_of technical_changes (oget c ''changeType'') \<or> oget c ''changeType'' = JObj []"
    if "c \<in> set (elems (oget (oget input ''changeSet'') ''changes''))" for c
    using that assms(2) by (intro compareFactGraphs_technical [OF assms(1)]) simp
  have spares: "spares_history_and_intent m v" if run: "mapping_invalidation (oget input ''changeSet'') n m = Inr v" for n m v
  proof -
    have named: "equal_named v m \<and> set (elems (oget v ''changeIds'')) = set (elems (oget m ''changeIds'')) \<and>
        set (elems (oget v ''testSpecIds'')) = set (elems (oget m ''testSpecIds''))"
      using run by (rule mapping_invalidation_run) simp
    have "JStr ` set derived_conclusions \<inter> JStr ` set (''DECISION'' # ''NORMATIVE_CLAIM_VERSION'' # kept_conclusions) = {}"
      using spared_conclusions by (auto simp only: list_all_iff image_iff jsv.inject)
    with named technical_invalidation [OF run tech] show ?thesis
      unfolding spares_history_and_intent_def by blast
  qed
  show ?case
    unfolding 1(2) elems.simps list_all2_conv_all_nth
    using mapiR_length [OF 1(1)] spares mapiR_nth [OF 1(1)] by auto
qed

subsection \<open>A node that appears\<close>

lemma added_node:
  assumes "is_plain_object node" and "nodeKey node = Inr k" and "changeTypeForNode node = Inr t"
  shows "compareFactGraphs lc (JObj []) (JObj [(''nodes'', JArr [node])]) =
    Inr [changeRecord ''ADDED'' ''NODE'' (node_stable_id k JNull node) JNull node t]"
  using assms
  by (auto simp: compareFactGraphs_def keyed_entities_def compare_entities_def compare_entity_def entity_at_def
      is_plain_object_iff js_map_def Let_def)

definition sample_node :: jsv where
  "sample_node = JObj [(''id'', JStr ''GET /cart''), (''type'', JStr ''ENDPOINT''), (''factId'', JStr ''FACT-1'')]"

definition sample_fact_change :: jsv where
  "sample_fact_change = changeRecord ''ADDED'' ''NODE'' (JStr ''GET /cart'') JNull sample_node (JStr ''API_CONTRACT'')"

definition sample_impact_input :: jsv where
  "sample_impact_input = JObj
     [(''createdAt'', JStr ''2026-01-01T00:00:00.000Z''),
      (''changeSet'', JObj [(''id'', JStr ''C1''), (''changes'', JArr [sample_fact_change])]),
      (''affectedMappings'', JArr [JObj [(''id'', JStr ''M1''), (''featureId'', JStr ''F1''), (''claimId'', JStr ''CL1''),
         (''claimVersion'', JNum 1), (''scopeId'', JStr ''SC1''), (''scopeVersion'', JNum 1),
         (''changeIds'', JArr [oget sample_fact_change ''id'']), (''testSpecIds'', JArr [JStr ''T1''])]])]"

lemma sample_comparison:
  "compareFactGraphs lc (JObj []) (JObj [(''nodes'', JArr [sample_node])]) = Inr [sample_fact_change]"
proof -
  have "changeTypeForNode sample_node = Inr (JStr ''API_CONTRACT'')" by code_simp
  moreover have "nodeKey sample_node = Inr (canonical_text (JObj [(''stableId'', JStr ''GET /cart''), (''extractorId'', JNull)]))"
    by (simp add: nodeKey_def sample_node_def)
  ultimately show ?thesis
    using added_node [of sample_node] by (simp add: sample_fact_change_def node_stable_id_def) (simp add: sample_node_def)
qed

theorem comparison_reports_the_differences_witness:
  "\<exists>changes. compareFactGraphs (\<lambda>l r. 0) (JObj []) (JObj [(''nodes'', JArr [sample_node])]) = Inr changes \<and>
     \<not> same_entities nodeKey semanticNode (oget (JObj []) ''nodes'') (oget (JObj [(''nodes'', JArr [sample_node])]) ''nodes'')"
proof -
  have "object_list (oget (JObj [(''nodes'', JArr [sample_node])]) ''nodes'')"
    by (simp add: object_list_def sample_node_def)
  from comparison_reports_the_differences [OF sample_comparison _ this] sample_comparison show ?thesis
    by (simp add: object_list_def same_entities_def [of edgeKey] entity_with_def [of edgeKey])
qed

text \<open>The sample mapping is accepted; its change identifier is a digest and is not evaluated.\<close>

lemma sample_change_id: "requireNonEmptyString (oget sample_fact_change ''id'') h = Inr (oget sample_fact_change ''id'')"
  by (simp add: requireNonEmptyString_Inr sample_fact_change_def changeRecord_def Let_def contentId_def js_trim_eq_Nil is_space_def)

abbreviation sample_impacted :: jsv where
  "sample_impacted \<equiv> elems (oget sample_impact_input ''affectedMappings'') ! 0"

lemma sample_impact_parts:
  "requireNonEmptyString (oget sample_impacted ''featureId'') h = Inr (JStr ''F1'')"
  "requireNonEmptyString (oget sample_impacted ''claimId'') h = Inr (JStr ''CL1'')"
  "requirePositiveInteger (oget sample_impacted ''claimVersion'') h = Inr (JNum 1)"
  "requireNonEmptyString (oget sample_impacted ''scopeId'') h = Inr (JStr ''SC1'')"
  "requirePositiveInteger (oget sample_impacted ''scopeVersion'') h = Inr (JNum 1)"
  "requireNonEmptyString (oget sample_impacted ''id'') h = Inr (JStr ''M1'')"
  by (simp_all add: sample_impact_input_def requireNonEmptyString_Inr js_trim_def is_space_def)

lemma sample_relevant:
  "relevant_changes (oget sample_impact_input ''changeSet'') sample_impacted h = Inr ([oget sample_fact_change ''id''], [sample_fact_change])"
proof -
  obtain i where i: "oget sample_fact_change ''id'' = JStr i" "requireNonEmptyString (JStr i) h' = Inr (JStr i)" for h'
    using sample_change_id by (auto simp: requireNonEmptyString_Inr)
  have p: "pget sample_fact_change ''id'' = Inr (JStr i)" using oget_not_undef [of sample_fact_change "''id''"] i(1) by (simp only: pget_Inr) simp
  show ?thesis
    unfolding relevant_changes_def throw_if_def Let_def
    by (simp add: sample_impact_input_def i p arr_includes_def)
qed

lemma sample_mapping_invalidated: "is_ok (mapping_invalidation (oget sample_impact_input ''changeSet'') n sample_impacted)"
proof -
  have t: "oget sample_fact_change ''changeType'' = JStr ''API_CONTRACT''"
    by (simp only: sample_fact_change_def changeRecord_type)
  have "is_ok (invalidationFor (JObj [(''type'', JStr ''API_CONTRACT'')]))" by code_simp
  then obtain r where r: "invalidationFor (JObj [(''type'', JStr ''API_CONTRACT'')]) = Inr r" by (auto simp: is_ok_def split: sum.splits)
  have "oget sample_impacted ''testSpecIds'' = JArr [JStr ''T1'']" by (simp add: sample_impact_input_def)
  then show ?thesis
    unfolding mapping_invalidation_def Let_def
    by (simp add: sample_impact_parts sample_relevant t r requireNonEmptyString_Inr js_trim_def is_space_def del: oget_simps)
qed

lemma sample_impact_assessed: "is_ok (createImpactAssessment sample_impact_input (Some 0))"
proof -
  obtain m where m: "elems (oget sample_impact_input ''affectedMappings'') = [m]" "m = sample_impacted"
    by (simp add: sample_impact_input_def)
  have "is_ok (mapping_invalidation (oget sample_impact_input ''changeSet'') 0 m)"
    unfolding m(2) by (rule sample_mapping_invalidated)
  then obtain v where v: "mapping_invalidation (oget sample_impact_input ''changeSet'') 0 m = Inr v"
    by (cases "mapping_invalidation (oget sample_impact_input ''changeSet'') 0 m") simp_all
  have parts: "is_plain_object sample_impact_input" "is_plain_object (oget sample_impact_input ''changeSet'')"
    "created_at sample_impact_input (Some 0) = Inr (JStr ''2026-01-01T00:00:00.000Z'')"
    "is_array (oget sample_impact_input ''affectedMappings'')" "is_array (coalesce (oget sample_impact_input ''continuities'') (JArr []))"
    "mapR (\<lambda>c. pget c ''featureId'') (elems (coalesce (oget sample_impact_input ''continuities'') (JArr []))) = Inr []"
    by (simp_all add: sample_impact_input_def)
  have "is_ok (requireIsoTimestamp (JStr ''2026-01-01T00:00:00.000Z'') ''impactAssessment.createdAt'')" by code_simp
  then obtain t where t: "requireIsoTimestamp (JStr ''2026-01-01T00:00:00.000Z'') ''impactAssessment.createdAt'' = Inr t"
    by (auto simp: is_ok_def split: sum.splits)
  show ?thesis
    by (simp only: createImpactAssessment_def Let_def throw_if_def parts t m(1) mapiR.simps v bnd_simps not_True_eq_False if_False
        mk_obj_def mk_props.simps is_ok_simps)
qed

theorem impact_spares_history_and_intent_witness:
  "\<exists>a v. createImpactAssessment sample_impact_input (Some 0) = Inr a \<and> elems (oget a ''invalidations'') = [v] \<and>
     spares_history_and_intent sample_impacted v"
proof -
  obtain a where a: "createImpactAssessment sample_impact_input (Some 0) = Inr a"
    using sample_impact_assessed by (auto simp: is_ok_def split: sum.splits)
  obtain m where m: "elems (oget sample_impact_input ''affectedMappings'') = [m]" "m = sample_impacted"
    by (simp add: sample_impact_input_def)
  have "oget (oget sample_impact_input ''changeSet'') ''changes'' = JArr [sample_fact_change]" by (simp add: sample_impact_input_def)
  from impact_spares_history_and_intent [OF sample_comparison this a] obtain v where
    "elems (oget a ''invalidations'') = [v]" "spares_history_and_intent m v"
    unfolding m(1) list_all2_Cons1 list_all2_Nil by (elim exE conjE) (simp only:)
  with a show ?thesis unfolding m(2) [symmetric] by (intro exI [of _ a] exI [of _ v]) (simp only: simp_thms)
qed

subsection \<open>Parallel edges\<close>

definition graph_of :: "jsv list \<Rightarrow> jsv list \<Rightarrow> jsv" where
  "graph_of nodes edges = JObj [(''nodes'', JArr nodes), (''edges'', JArr edges)]"

lemma graph_of_members [simp]:
  "oget (graph_of ns es) ''nodes'' = JArr ns" "oget (graph_of ns es) ''edges'' = JArr es"
  by (simp_all add: graph_of_def)

text \<open>An entry is invisible behind a later one of its key: it only marks the place of the key.\<close>

lemma keys_foldl_update_cong:
  "map fst es = map fst es' \<Longrightarrow> map fst m = map fst m' \<Longrightarrow>
   map fst (foldl (\<lambda>m e. AList.update (fst e) (snd e) m) m es) = map fst (foldl (\<lambda>m e. AList.update (fst e) (snd e) m) m' es')"
proof (induction es arbitrary: es' m m')
  case (Cons e es)
  then obtain d ds where "es' = d # ds" "fst d = fst e" "map fst es = map fst ds" by (cases es') auto
  with Cons show ?case by (auto simp: update_keys)
qed simp

lemma alist_eqI:
  "map fst xs = map fst ys \<Longrightarrow> map_of xs = map_of ys \<Longrightarrow> distinct (map fst xs) \<Longrightarrow> xs = ys"
proof (induction xs arbitrary: ys)
  case (Cons x xs)
  then obtain y ys' where y: "ys = y # ys'" "fst y = fst x" "map fst xs = map fst ys'" by (cases ys) auto
  have m: "map_of (x # xs) k = map_of (y # ys') k" for k using fun_cong [OF Cons.prems(2), of k] by (simp only: y(1))
  have "snd x = snd y" using m [of "fst x"] y(2) by (cases x; cases y) simp
  moreover have "map_of xs k = map_of ys' k" for k
  proof (cases "k = fst x")
    case True
    then have "k \<notin> set (map fst xs)" using Cons.prems(3) by simp
    moreover from this y(3) have "k \<notin> set (map fst ys')" by metis
    ultimately show ?thesis by (metis map_of_eq_None_iff set_map)
  next
    case False
    then show ?thesis using m [of k] y(2) by (cases x; cases y) simp
  qed
  ultimately show ?case using Cons.IH [OF y(3)] Cons.prems(3) y by (simp add: prod_eq_iff fun_eq_iff)
qed simp

lemma js_map_shadowed:
  assumes "k \<in> fst ` set ys"
  shows "js_map (xs @ (k, v) # ys) = js_map (xs @ (k, w) # ys)"
proof (rule alist_eqI)
  show "map fst (js_map (xs @ (k, v) # ys)) = map fst (js_map (xs @ (k, w) # ys))"
    unfolding js_map_def by (rule keys_foldl_update_cong) simp_all
  from assms obtain u where "map_of (rev ys) k = Some u" by (cases "map_of (rev ys) k") (auto simp: map_of_eq_None_iff)
  then show "map_of (js_map (xs @ (k, v) # ys)) = map_of (js_map (xs @ (k, w) # ys))"
    by (auto simp: map_of_js_map map_add_def fun_eq_iff split: option.splits)
qed simp

lemma mapR_append: "mapR f (xs @ ys) = bnd (mapR f xs) (\<lambda>a. bnd (mapR f ys) (\<lambda>b. Inr (a @ b)))"
  by (induction xs) (auto simp: bnd_assoc bnd_def split: sum.splits)

lemma keyed_entities_shadowed:
  assumes "key e = Inr k" "key e' = Inr k" "later \<in> set bs" "key later = Inr k"
  shows "keyed_entities key (JArr (as @ e # bs)) = keyed_entities key (JArr (as @ e' # bs))"
proof -
  let ?f = "\<lambda>x. bnd (key x) (\<lambda>k. Inr (k, x))"
  have k: "k \<in> fst ` set ys" if "mapR ?f bs = Inr ys" for ys
  proof -
    from assms(3) obtain i where i: "i < length bs" "bs ! i = later" by (auto simp: in_set_conv_nth)
    from that have "list_all2 (\<lambda>x y. ?f x = Inr y) bs ys" by (simp add: mapR_Inr_iff)
    from list_all2_nthD [OF this i(1)] i(2) assms(4) have "ys ! i = (k, later)" by simp
    with i(1) mapR_length [OF that] show ?thesis by (metis fst_conv image_eqI nth_mem)
  qed
  show ?thesis
    by (cases "mapR ?f as"; cases "mapR ?f bs") (simp_all add: keyed_entities_def mapR_append assms(1,2) js_map_shadowed [OF k])
qed

text \<open>Two maps with the same entries, in whatever order, compare as equal.\<close>

lemma compare_entities_same:
  assumes "map_of from = map_of to" and "\<And>k x. map_of to k = Some x \<Longrightarrow> is_plain_object x"
  shows "compare_entities ty changeTypeFor semantic stableId from to = Inr []"
proof -
  let ?ks = "js_set (map fst from @ map fst to)"
  have at: "entity_at from = entity_at to" by (simp add: entity_at_def assms(1) fun_eq_iff)
  have none: "compare_entity ty changeTypeFor semantic (stableId k (entity_at to k) (entity_at to k)) (entity_at to k) (entity_at to k) = Inr []"
    if "k \<in> set ?ks" for k
  proof -
    from that have "map_of from k \<noteq> None \<or> map_of to k \<noteq> None" by (simp add: map_of_eq_None_iff)
    then obtain x where x: "map_of to k = Some x" using assms(1) by auto
    from assms(2) [OF this] x have "truthy (entity_at to k)" by (cases x) (simp_all add: entity_at_def)
    then show ?thesis by (simp add: compare_entity_def)
  qed
  have "mapR f ks = Inr (map (\<lambda>_. []) ks)" if "\<And>k. k \<in> set ks \<Longrightarrow> f k = Inr []" for f :: "string \<Rightarrow> jsv list res" and ks
    using that by (induction ks) simp_all
  then have "mapR (\<lambda>k. compare_entity ty changeTypeFor semantic (stableId k (entity_at to k) (entity_at to k)) (entity_at to k) (entity_at to k))
      ?ks = Inr (map (\<lambda>_. []) ?ks)" using none .
  then show ?thesis by (simp add: compare_entities_def at Let_def)
qed

lemma keyed_objects:
  assumes "\<And>x. is_plain_object x \<Longrightarrow> \<exists>k. key x = Inr k" and "object_list (JArr xs)"
  obtains m where "keyed_entities key (JArr xs) = Inr m" "map_of m = entity_with key (JArr xs)"
    "\<And>k x. map_of m k = Some x \<Longrightarrow> is_plain_object x"
proof -
  from assms(2) have "\<exists>ys. mapR (\<lambda>x. bnd (key x) (\<lambda>k. Inr (k, x))) xs = Inr ys"
  proof (induction xs)
    case (Cons x xs)
    with assms(1) [of x] show ?case by (auto simp: object_list_def)
  qed simp
  then obtain m where m: "keyed_entities key (JArr xs) = Inr m" by (auto simp: keyed_entities_def)
  from that [OF m keyed_entities_lookup [OF m]] entity_with_object [OF assms(2)] keyed_entities_lookup [OF m]
  show ?thesis by metis
qed

lemma keys_total: "is_plain_object x \<Longrightarrow> \<exists>k. nodeKey x = Inr k" "is_plain_object x \<Longrightarrow> \<exists>k. edgeKey x = Inr k"
  by (auto simp: is_plain_object_iff nodeKey_def edgeKey_def)

lemma same_lookup_no_changes:
  assumes "object_list (JArr ns)" "object_list (JArr es)" "object_list (JArr es')"
    and "entity_with edgeKey (JArr es) = entity_with edgeKey (JArr es')"
  shows "compareFactGraphs lc (graph_of ns es) (graph_of ns es') = Inr []"
proof -
  obtain n where n: "keyed_entities nodeKey (JArr ns) = Inr n" "\<And>k x. map_of n k = Some x \<Longrightarrow> is_plain_object x"
    by (rule keyed_objects [of nodeKey, OF keys_total(1) assms(1)], assumption) (rule that)
  obtain m where m: "keyed_entities edgeKey (JArr es) = Inr m" "map_of m = entity_with edgeKey (JArr es)"
    by (rule keyed_objects [of edgeKey, OF keys_total(2) assms(2)], assumption) (rule that)
  obtain m' where m': "keyed_entities edgeKey (JArr es') = Inr m'" "map_of m' = entity_with edgeKey (JArr es')"
    "\<And>k x. map_of m' k = Some x \<Longrightarrow> is_plain_object x"
    by (rule keyed_objects [of edgeKey, OF keys_total(2) assms(3)], assumption) (rule that)
  have "map_of m = map_of m'" unfolding m(2) m'(2) assms(4) ..
  from compare_entities_same [OF refl n(2)] compare_entities_same [OF this m'(3)] show ?thesis
    by (simp add: compareFactGraphs_def n(1) m(1) m'(1))
qed

lemma find_append: "find P (xs @ ys) = (case find P xs of None \<Rightarrow> find P ys | Some x \<Rightarrow> Some x)"
  by (induction xs) simp_all

lemma entity_with_shadowed:
  assumes "key e = Inr k" "later \<in> set bs" "key later = Inr k"
  shows "entity_with key (JArr (as @ e # bs)) = entity_with key (JArr (as @ bs))"
proof
  fix j
  have "find (\<lambda>x. key x = Inr k) (rev bs) \<noteq> None" using assms(2,3) by (auto simp: find_None_iff)
  then show "entity_with key (JArr (as @ e # bs)) j = entity_with key (JArr (as @ bs)) j"
    using assms(1) by (cases "j = k") (auto simp: entity_with_def find_append split: option.splits)
qed

text \<open>
  C40: of several edges with the same ends, predicate and extractor the comparison sees the last one of a graph
  only. Replacing an earlier one by any other edge with these members changes no comparison with any other graph, on
  either side, and between two versions of a graph of JSON objects that differ only in that an earlier one was
  replaced, removed or added the comparison reports no change, whatever the contents of these edges.
\<close>

theorem parallel_edge_change_unnoticed:
  assumes "edgeKey e = Inr k" "edgeKey e' = Inr k" "later \<in> set bs" "edgeKey later = Inr k"
    and "object_list (JArr ns)" "object_list (JArr (as @ e # e' # bs))"
  shows "compareFactGraphs lc (graph_of ns (as @ e # bs)) h = compareFactGraphs lc (graph_of ns (as @ e' # bs)) h \<and>
    compareFactGraphs lc h (graph_of ns (as @ e # bs)) = compareFactGraphs lc h (graph_of ns (as @ e' # bs)) \<and>
    compareFactGraphs lc (graph_of ns (as @ e # bs)) (graph_of ns (as @ e' # bs)) = Inr [] \<and>
    compareFactGraphs lc (graph_of ns (as @ e # bs)) (graph_of ns (as @ bs)) = Inr [] \<and>
    compareFactGraphs lc (graph_of ns (as @ bs)) (graph_of ns (as @ e # bs)) = Inr []"
proof -
  note same = keyed_entities_shadowed [of edgeKey, OF assms(1-4)]
  have l: "object_list (JArr (as @ e # bs))" "object_list (JArr (as @ e' # bs))" "object_list (JArr (as @ bs))"
    using assms(6) by (simp_all add: object_list_def)
  note w = entity_with_shadowed [of edgeKey, OF assms(1,3,4)] entity_with_shadowed [of edgeKey, OF assms(2,3,4)]
  show ?thesis
    by (intro conjI; (simp add: compareFactGraphs_def same; fail)?; rule same_lookup_no_changes [OF assms(5)]; simp add: l w)
qed

text \<open>Calls of one function from another, told apart by their source line only.\<close>

definition call_edge :: "int \<Rightarrow> jsv" where
  "call_edge line = JObj
     [(''subjectId'', JStr ''checkout''), (''predicate'', JStr ''CALLS''), (''objectId'', JStr ''charge''),
      (''attributes'', JObj [(''line'', JNum line)]), (''extractor'', JObj [(''id'', JStr ''js'')])]"

theorem parallel_edge_change_unnoticed_witness:
  "compareFactGraphs (\<lambda>l r. 0) (graph_of [] [call_edge 10, call_edge 20]) (graph_of [] [call_edge 11, call_edge 20]) = Inr [] \<and>
   compareFactGraphs (\<lambda>l r. 0) (graph_of [] [call_edge 10, call_edge 20]) (graph_of [] [call_edge 20]) = Inr [] \<and>
   \<not> same_json (semanticEdge (call_edge 10)) (semanticEdge (call_edge 11))"
proof -
  obtain k where k: "edgeKey (call_edge l) = Inr k" for l
    by (simp add: edgeKey_def call_edge_def)
  have o: "object_list (JArr [])" "object_list (JArr ([] @ call_edge 10 # call_edge 11 # [call_edge 20]))"
    by (simp_all add: object_list_def call_edge_def)
  have "\<not> same_json (semanticEdge (call_edge 10)) (semanticEdge (call_edge 11))"
    by (simp add: semanticEdge_def call_edge_def without_def)
  moreover have "call_edge 20 \<in> set [call_edge 20]" by simp
  note c = parallel_edge_change_unnoticed [where lc = "\<lambda>l r. 0", OF k k this k o]
  ultimately show ?thesis using c [unfolded append.simps] by iprover
qed

end
