(* ===== verification/Implementation_Review.thy ===== *)
theory Implementation_Review
  imports Model
begin

section \<open>Implementation mappings and conformance\<close>

text \<open>
  The records that tie a claim to facts of the implementation (\<open>src/domain/review.js\<close>): mappings,
  conformances, the review of a reverse-engineered candidate, and the verdict on an observed constraint.
  Shown: the verdict depends on the content of the two constraints only, is symmetric, and says CONFORMS
  or DEVIATES exactly when the constraints agree or contradict each other.
\<close>

definition review_strings :: "jsv \<Rightarrow> string \<Rightarrow> jsv res" where
  "review_strings v fieldName =
     throw_if (\<not> is_array v) (TypeErr (fieldName @ '' must be an array'')) (
     bnd (mapiR (\<lambda>i item. requireNonEmptyString item (fieldName @ ''['' @ nat_str i @ '']'')) 0 (elems v)) (\<lambda>result.
     throw_if (length (js_set result) \<noteq> length result) (TypeErr (fieldName @ '' must not contain duplicates''))
       (Inr (JArr result))))"

text \<open>The references to facts; of two with the same canonical text the last one stands, at the place of the first.\<close>

definition mapping_fact_refs :: "jsv \<Rightarrow> string \<Rightarrow> jsv res" where
  "mapping_fact_refs v fieldName =
     throw_if (\<not> is_array v \<or> elems v = []) (TypeErr (fieldName @ '' must be a non-empty array'')) (
     bnd (mapiR (\<lambda>i item.
            let h = fieldName @ ''['' @ nat_str i @ '']'' in
            bnd (requireObject item h) (\<lambda>ref.
            throw_if (list_ex (\<lambda>f. f \<notin> {''factId'', ''relation''}) (map fst (props ref)))
              (TypeErr (h @ '' contains an unsupported field'')) (
            mk_obj [(''factId'', requireNonEmptyString (oget ref ''factId'') (h @ ''.factId'')),
                    (''relation'', requireNonEmptyString (oget ref ''relation'') (h @ ''.relation''))]))) 0 (elems v)) (\<lambda>result.
     Inr (JArr (map snd (js_map (map (\<lambda>r. (canonicalJson r, r)) result))))))"

definition given_or_now :: "jsv \<Rightarrow> int option \<Rightarrow> jsv res" where
  "given_or_now given now = (if nullish given then now_iso now else Inr given)"

definition createImplementationMapping :: "jsv \<Rightarrow> int option \<Rightarrow> jsv res" where
  "createImplementationMapping input now =
     (let str = \<lambda>k. requireNonEmptyString (oget input k) (''implementationMapping.'' @ k);
          num = \<lambda>k. requirePositiveInteger (oget input k) (''implementationMapping.'' @ k)
      in
      bnd (given_or_now (oget input ''createdAt'') now) (\<lambda>createdAt.
      bnd (requireIsoTimestamp createdAt ''implementationMapping.createdAt'') (\<lambda>_.
      bnd (mk_props
        [(''claimId'', str ''claimId''), (''claimVersion'', num ''claimVersion''), (''scopeId'', str ''scopeId''),
         (''scopeVersion'', num ''scopeVersion''), (''snapshotManifestId'', str ''snapshotManifestId''),
         (''sourceComponentId'', str ''sourceComponentId''), (''sourceRunId'', str ''sourceRunId''),
         (''sourceCandidateId'', str ''sourceCandidateId'')]) (\<lambda>identity.
      mk_obj
       ((''id'', Inr (coalesce (oget input ''id'') (JStr (contentId ''IMPLEMENTATION-MAPPING'' (JObj identity))))) #
        map (\<lambda>(k, v). (k, Inr v)) identity @
        [(''status'', assertEnum ImplementationMappingStatus (coalesce (oget input ''status'') (JStr ''ACTIVE''))
            ''implementationMapping.status''),
         (''factRefs'', mapping_fact_refs (oget input ''factRefs'') ''implementationMapping.factRefs''),
         (''createdAt'', Inr createdAt)])))))"

subsection \<open>The verdict on a constraint\<close>

definition review_constraint :: "jsv \<Rightarrow> string \<Rightarrow> jsv res" where
  "review_constraint v fieldName =
     (if nullish v then Inr JNull
      else bnd (requireObject v fieldName) (\<lambda>constraint.
        throw_if (\<not> has_own constraint ''dimension'' \<or> \<not> has_own constraint ''operator'' \<or> \<not> has_own constraint ''value'')
          (TypeErr (fieldName @ '' must contain dimension, operator, and value'')) (
        mk_obj
         [(''dimension'', requireNonEmptyString (oget constraint ''dimension'') (fieldName @ ''.dimension'')),
          (''operator'', requireNonEmptyString (oget constraint ''operator'') (fieldName @ ''.operator'')),
          (''value'', Inr (oget constraint ''value''))])))"

definition opposites :: "(string \<times> string) list" where
  "opposites = [(''EQUALS'', ''NOT_EQUALS''), (''ALLOWS'', ''FORBIDS'')]"

definition assessImplementationConformance :: "jsv \<Rightarrow> jsv \<Rightarrow> string res" where
  "assessImplementationConformance normativeConstraint observedConstraint =
     bnd (review_constraint normativeConstraint ''normativeConstraint'') (\<lambda>normative.
     bnd (review_constraint observedConstraint ''observedConstraint'') (\<lambda>observed.
     Inr (if \<not> truthy normative \<or> \<not> truthy observed \<or> \<not> strict_eq (oget normative ''dimension'') (oget observed ''dimension'')
          then ''UNKNOWN''
          else if canonicalJson normative = canonicalJson observed then ''CONFORMS''
          else
            let sameValue = canonicalJson (oget normative ''value'') = canonicalJson (oget observed ''value'');
                n = oget normative ''operator''; obs = oget observed ''operator''
            in if list_ex (\<lambda>(l, r). sameValue \<and> (n = JStr l \<and> obs = JStr r \<or> n = JStr r \<and> obs = JStr l)) opposites \<or>
                  n = JStr ''EQUALS'' \<and> obs = JStr ''EQUALS'' \<and> \<not> sameValue
               then ''DEVIATES'' else ''UNKNOWN'')))"

subsection \<open>Conformances and candidate reviews\<close>

definition createImplementationConformance :: "jsv \<Rightarrow> int option \<Rightarrow> jsv res" where
  "createImplementationConformance input now =
     (let str = \<lambda>k. requireNonEmptyString (oget input k) (''conformance.'' @ k);
          num = \<lambda>k. requirePositiveInteger (oget input k) (''conformance.'' @ k)
      in
      bnd (given_or_now (oget input ''computedAt'') now) (\<lambda>computedAt.
      bnd (requireIsoTimestamp computedAt ''conformance.computedAt'') (\<lambda>_.
      bnd (mk_props
        [(''claimId'', str ''claimId''), (''claimVersion'', num ''claimVersion''), (''scopeId'', str ''scopeId''),
         (''scopeVersion'', num ''scopeVersion''), (''snapshotManifestId'', str ''snapshotManifestId''),
         (''mappingId'', str ''mappingId'')]) (\<lambda>identity.
      mk_obj
       ((''id'', Inr (coalesce (oget input ''id'') (JStr (contentId ''IMPLEMENTATION-CONFORMANCE'' (JObj identity))))) #
        map (\<lambda>(k, v). (k, Inr v)) identity @
        [(''status'', assertEnum ConformanceStatus (oget input ''status'') ''conformance.status''),
         (''evidenceRefs'', review_strings (coalesce (oget input ''evidenceRefs'') (JArr [])) ''conformance.evidenceRefs''),
         (''analysisMethod'', requireObject (oget input ''analysisMethod'') ''conformance.analysisMethod''),
         (''computedAt'', Inr computedAt)])))))"

definition createReverseCandidateReview :: "jsv \<Rightarrow> int option \<Rightarrow> jsv res" where
  "createReverseCandidateReview input now =
     (let str = \<lambda>k. requireNonEmptyString (oget input k) (''candidateReview.'' @ k) in
      bnd (assertEnum CandidateReviewOutcome (oget input ''outcome'') ''candidateReview.outcome'') (\<lambda>outcome.
      bnd (given_or_now (oget input ''reviewedAt'') now) (\<lambda>reviewedAt.
      bnd (requireIsoTimestamp reviewedAt ''candidateReview.reviewedAt'') (\<lambda>_.
      let baselineRequired = one_of [''CONFIRMED'', ''EXCEPTION_RECORDED''] outcome in
      bnd (if nullish (oget input ''baselineRefs'') then Inr JNull
           else requireObject (oget input ''baselineRefs'') ''candidateReview.baselineRefs'') (\<lambda>baselineRefs.
      throw_if (baselineRequired \<noteq> truthy baselineRefs)
        (TypeErr (''candidateReview.baselineRefs must be '' @ (if baselineRequired then ''present'' else ''absent'') @ '' for '' @ js_string outcome)) (
      mk_obj
       [(''id'', str ''id''), (''requestFingerprint'', str ''requestFingerprint''), (''runId'', str ''runId''),
        (''candidateId'', str ''candidateId''), (''candidateType'', Inr (JStr ''CLAIM'')), (''outcome'', Inr outcome),
        (''rationale'', str ''rationale''), (''actorId'', str ''actorId''), (''actorRole'', str ''actorRole''),
        (''acknowledgedConflictIds'', review_strings (coalesce (oget input ''acknowledgedConflictIds'') (JArr []))
           ''candidateReview.acknowledgedConflictIds''),
        (''baselineRefs'', Inr baselineRefs), (''reviewedAt'', Inr reviewedAt)]))))))"

subsection \<open>What the verdict means\<close>

definition contradictory :: "jsv \<Rightarrow> jsv \<Rightarrow> bool" where
  "contradictory n c \<longleftrightarrow>
     (let same = same_json (oget n ''value'') (oget c ''value'') in
      (oget n ''operator'', oget c ''operator'') \<in> (\<lambda>(l, r). (JStr l, JStr r)) ` (set opposites \<union> (set opposites)\<inverse>) \<and> same \<or>
      oget n ''operator'' = JStr ''EQUALS'' \<and> oget c ''operator'' = JStr ''EQUALS'' \<and> \<not> same)"

definition verdict :: "jsv \<Rightarrow> jsv \<Rightarrow> string" where
  "verdict n c =
     (if nullish n \<or> nullish c \<or> oget n ''dimension'' \<noteq> oget c ''dimension'' then ''UNKNOWN''
      else if oget n ''operator'' = oget c ''operator'' \<and> same_json (oget n ''value'') (oget c ''value'') then ''CONFORMS''
      else if contradictory n c then ''DEVIATES'' else ''UNKNOWN'')"

lemma json_member: "json_value v \<Longrightarrow> map_of (props v) k = Some x \<Longrightarrow> json_value x"
  by (cases v) (auto dest: map_of_SomeD)

lemma review_constraint_cases:
  assumes "review_constraint v h = Inr w" "json_value v"
  obtains "nullish v" "w = JNull"
  | d p where "\<not> nullish v" "w = JObj [(''dimension'', JStr d), (''operator'', JStr p), (''value'', oget v ''value'')]"
    "oget v ''dimension'' = JStr d" "oget v ''operator'' = JStr p" "json_value (oget v ''value'')"
proof (cases "nullish v")
  case True
  with assms(1) that(1) show ?thesis by (simp add: review_constraint_def)
next
  case False
  with assms(1) obtain d p where r: "is_plain_object v" "has_own v ''value''" "oget v ''dimension'' = JStr d" "oget v ''operator'' = JStr p"
    "w = JObj [(''dimension'', JStr d), (''operator'', JStr p), (''value'', oget v ''value'')]"
    by (auto simp: review_constraint_def requireObject_def res_simps simp del: oget_simps has_own_obj split: if_splits)
  from r(1) obtain fs where fs: "v = JObj fs" by (auto simp: is_plain_object_iff)
  from r(2) obtain x where "map_of fs ''value'' = Some x" by (auto simp: fs has_own_def simp del: has_own_obj)
  then have "json_value (oget v ''value'')" using assms(2) json_member [of v "''value''"] by (simp add: fs)
  with that(2) False r show ?thesis by blast
qed

lemma same_json_sym: "json_value v \<Longrightarrow> json_value w \<Longrightarrow> same_json v w \<longleftrightarrow> same_json w v"
  by (metis canonicalJson_eq_iff)

lemma normal_constraints_equal:
  assumes "json_value v" "json_value v'"
  shows "canonicalJson (JObj [(''dimension'', JStr d), (''operator'', JStr p), (''value'', v)]) =
    canonicalJson (JObj [(''dimension'', JStr d'), (''operator'', JStr p'), (''value'', v')]) \<longleftrightarrow> d = d' \<and> p = p' \<and> same_json v v'"
  by (subst canonicalJson_eq_iff) (auto simp: assms)

text \<open>
  on JSON constraints the verdict is the declarative one, in particular symmetric: CONFORMS exactly
  for constraints on one dimension with the same operator and structurally equal values, DEVIATES exactly
  for opposite operators on equal values or two EQUALS on different values, UNKNOWN otherwise.
\<close>

theorem conformance_verdict_is_sound:
  assumes "assessImplementationConformance n c = Inr v" "json_value n" "json_value c"
  shows "v = verdict n c \<and> assessImplementationConformance c n = Inr v"
proof -
  from assms(1) obtain wn wc where r: "review_constraint n ''normativeConstraint'' = Inr wn" "review_constraint c ''observedConstraint'' = Inr wc"
    by (auto simp: assessImplementationConformance_def bnd_eq_Inr)
  have h: "review_constraint x h = Inr w \<Longrightarrow> review_constraint x h' = Inr w" for x w h h'
    by (cases "nullish x") (auto simp: review_constraint_def requireObject_def res_simps simp del: oget_simps has_own_obj split: if_splits)
  note swap = h [OF r(2), of "''normativeConstraint''"] h [OF r(1), of "''observedConstraint''"]
  show ?thesis
    using r(1) assms(2)
  proof (rule review_constraint_cases)
    assume "nullish n" "wn = JNull"
    with assms(1) r swap show ?thesis by (simp add: assessImplementationConformance_def verdict_def)
  next
    fix d p assume n: "\<not> nullish n" "wn = JObj [(''dimension'', JStr d), (''operator'', JStr p), (''value'', oget n ''value'')]"
      "oget n ''dimension'' = JStr d" "oget n ''operator'' = JStr p" "json_value (oget n ''value'')"
    show ?thesis
      using r(2) assms(3)
    proof (rule review_constraint_cases)
      assume "nullish c" "wc = JNull"
      with assms(1) r swap show ?thesis by (simp add: assessImplementationConformance_def verdict_def)
    next
      fix d' p' assume c: "\<not> nullish c" "wc = JObj [(''dimension'', JStr d'), (''operator'', JStr p'), (''value'', oget c ''value'')]"
        "oget c ''dimension'' = JStr d'" "oget c ''operator'' = JStr p'" "json_value (oget c ''value'')"
      note eq = normal_constraints_equal [OF n(5) c(5)] normal_constraints_equal [OF c(5) n(5)]
        canonicalJson_eq_iff [OF n(5) c(5)] canonicalJson_eq_iff [OF c(5) n(5)] same_json_sym [OF c(5) n(5)]
      have v: "assessImplementationConformance n c = Inr (verdict n c)"
        unfolding assessImplementationConformance_def r swap bnd_simps
        by (auto simp: n(1-4) c(1-4) eq verdict_def contradictory_def opposites_def Let_def)
      moreover have "assessImplementationConformance c n = Inr (verdict n c)"
        unfolding assessImplementationConformance_def r swap bnd_simps
        by (auto simp: n(1-4) c(1-4) eq verdict_def contradictory_def opposites_def Let_def)
      ultimately show ?thesis using assms(1) by simp
    qed
  qed
qed

theorem conformance_verdict_is_sound_witness:
  "assessImplementationConformance
     (JObj [(''dimension'', JStr ''amount''), (''operator'', JStr ''FORBIDS''), (''value'', JNum 0)])
     (JObj [(''value'', JNum 0), (''operator'', JStr ''ALLOWS''), (''dimension'', JStr ''amount'')]) = Inr ''DEVIATES''"
proof -
  let ?n = "JObj [(''dimension'', JStr ''amount''), (''operator'', JStr ''FORBIDS''), (''value'', JNum 0)]"
  let ?c = "JObj [(''value'', JNum 0), (''operator'', JStr ''ALLOWS''), (''dimension'', JStr ''amount'')]"
  have "assessImplementationConformance ?c ?n = Inr ''DEVIATES''" by code_simp
  from conformance_verdict_is_sound [OF this] show ?thesis by simp
qed

end
