(* ===== verification/Mapping_Store.thy ===== *)
theory Mapping_Store
  imports Process_Workflow
begin

section \<open>Implementation mappings in the store\<close>

text \<open>
  The collections of \<open>src/storage/memory-traceability-store.js\<close> that tie claims to the implementation:
  reverse runs, candidate reviews, implementation mappings, conformances and change impacts, over the
  governed records of the store, with the operations that append to them and read them. An operation
  checks everything before its first write. Shown: no operation changes a stored record, in every reachable
  store each conformance belongs to a stored mapping, and each snapshot pair has at most one change set.
\<close>

record mapping_store =
  ms_store :: store
  ms_reverseRuns :: collection
  ms_candidateReviews :: collection
  ms_candidateReviewIds :: "(string \<times> string) list"
  ms_implementationMappings :: collection
  ms_conformances :: collection
  ms_changeImpacts :: collection

definition empty_mapping_store :: mapping_store where
  "empty_mapping_store = \<lparr>ms_store = empty_store, ms_reverseRuns = [], ms_candidateReviews = [], ms_candidateReviewIds = [],
     ms_implementationMappings = [], ms_conformances = [], ms_changeImpacts = []\<rparr>"

definition id_key :: "string \<Rightarrow> jsv \<Rightarrow> string" where
  "id_key projectId i = store_key projectId (js_string i)"

subsection \<open>Reverse runs\<close>

definition appendReverseRun :: "string \<Rightarrow> jsv \<Rightarrow> mapping_store \<Rightarrow> (mapping_store \<times> jsv) res" where
  "appendReverseRun projectId run s =
     bnd (put_once same_value (''ReverseRun '' @ js_string (oget run ''id'') @ '' conflicts with an existing immutable record'')
            (ms_reverseRuns s) (id_key projectId (oget run ''id'')) run)
       (\<lambda>coll. Inr (s\<lparr>ms_reverseRuns := coll\<rparr>, JObj [(''runId'', oget run ''id''), (''status'', oget run ''status'')]))"

definition getReverseRun :: "string \<Rightarrow> jsv \<Rightarrow> mapping_store \<Rightarrow> jsv" where
  "getReverseRun projectId runId s = get (ms_reverseRuns s) (id_key projectId runId)"

subsection \<open>Facts, claims and manifests a mapping refers to\<close>

definition snapshot_fact_ids :: "string \<Rightarrow> jsv \<Rightarrow> store \<Rightarrow> jsv list" where
  "snapshot_fact_ids projectId snapshotManifestId s =
     concat (map (\<lambda>b. map (\<lambda>n. oget n ''factId'') (elems (oget b ''nodes'')) @ map (\<lambda>e. oget e ''id'') (elems (oget b ''edges'')))
       (manifest_bundles projectId snapshotManifestId s))"

definition foreign_fact :: "string \<Rightarrow> jsv \<Rightarrow> store \<Rightarrow> bool" where
  "foreign_fact projectId mapping s \<longleftrightarrow>
     list_ex (\<lambda>ref. oget ref ''factId'' \<notin> set (snapshot_fact_ids projectId (oget mapping ''snapshotManifestId'') s))
       (elems (oget mapping ''factRefs''))"

definition governed_scope :: "string \<Rightarrow> jsv \<Rightarrow> store \<Rightarrow> bool" where
  "governed_scope projectId mapping s =
     (case claim_of projectId mapping s of None \<Rightarrow> False | Some claim \<Rightarrow> scope_matches claim mapping)"

definition mapping_manifest :: "string \<Rightarrow> jsv \<Rightarrow> store \<Rightarrow> jsv" where
  "mapping_manifest projectId mapping s = get (st_manifests s) (id_key projectId (oget mapping ''snapshotManifestId''))"

definition from_manifest_source :: "jsv \<Rightarrow> jsv \<Rightarrow> bool" where
  "from_manifest_source manifest mapping \<longleftrightarrow>
     strict_eq (oget (oget (oget manifest ''components'') ''source'') ''id'') (oget mapping ''sourceComponentId'')"

definition no_snapshot :: "string \<Rightarrow> jsv \<Rightarrow> err" where
  "no_snapshot projectId mapping = ConflictErr (''Snapshot manifest '' @ js_string (oget mapping ''snapshotManifestId'')
     @ '' does not exist in project '' @ projectId)"

definition equal_members :: "jsv \<Rightarrow> jsv \<Rightarrow> string list \<Rightarrow> bool" where
  "equal_members a b ks \<longleftrightarrow> list_all (\<lambda>k. strict_eq (oget a k) (oget b k)) ks"

subsection \<open>Implementation analyses\<close>

definition check_analysis :: "string \<Rightarrow> jsv \<Rightarrow> jsv \<Rightarrow> mapping_store \<Rightarrow> unit res" where
  "check_analysis projectId mapping conformance s =
     (let manifest = mapping_manifest projectId mapping (ms_store s);
          run = getReverseRun projectId (oget mapping ''sourceRunId'') s
      in
      throw_if (\<not> governed_scope projectId mapping (ms_store s))
        (ConflictErr ''Implementation analysis must preserve an existing governed Claim and Scope'') (
      throw_if (\<not> truthy manifest) (no_snapshot projectId mapping) (
      throw_if (\<not> from_manifest_source manifest mapping)
        (ConflictErr ''Implementation analysis source must belong to the target Snapshot Manifest'') (
      throw_if (\<not> truthy run \<or> \<not> equal_members run mapping [''snapshotManifestId'', ''sourceComponentId''] \<or>
          \<not> list_ex (\<lambda>c. strict_eq (oget c ''id'') (oget mapping ''sourceCandidateId''))
              (elems (oget (oget run ''mergedOutput'') ''candidateClaims'')))
        (ConflictErr ''Implementation analysis must reference a candidate from the target Snapshot ReverseRun'') (
      throw_if (foreign_fact projectId mapping (ms_store s))
        (ConflictErr ''Implementation analysis Fact references must belong to the target Snapshot Manifest'') (
      throw_if (\<not> strict_eq (oget conformance ''mappingId'') (oget mapping ''id'') \<or>
          \<not> equal_members conformance mapping [''claimId'', ''claimVersion'', ''scopeId'', ''scopeVersion'', ''snapshotManifestId''])
        (ConflictErr ''Implementation analysis mapping and conformance references are inconsistent'') (Inr ())))))))"

definition appendImplementationAnalysis :: "string \<Rightarrow> jsv \<Rightarrow> mapping_store \<Rightarrow> (mapping_store \<times> jsv) res" where
  "appendImplementationAnalysis projectId analysisPackage s =
     (let mapping = oget analysisPackage ''implementationMapping''; conformance = oget analysisPackage ''conformance'';
          mappingKey = id_key projectId (oget mapping ''id''); conformanceKey = id_key projectId (oget conformance ''id'');
          existingMapping = map_of (ms_implementationMappings s) mappingKey;
          existingConformance = map_of (ms_conformances s) conformanceKey;
          package = \<lambda>m c. JObj [(''implementationMapping'', m), (''conformance'', c)]
      in
      if existingMapping \<noteq> None \<or> existingConformance \<noteq> None
      then (case (existingMapping, existingConformance) of
          (Some m, Some c) \<Rightarrow> throw_if (\<not> same_value m mapping \<or> \<not> same_value c conformance)
            (ConflictErr (''Implementation analysis '' @ js_string (oget mapping ''id'') @ '' conflicts with an existing record''))
            (Inr (s, package m c))
        | _ \<Rightarrow> Inl (ConflictErr (''Implementation analysis '' @ js_string (oget mapping ''id'') @ '' conflicts with an existing record'')))
      else bnd (check_analysis projectId mapping conformance s) (\<lambda>_.
        Inr (s\<lparr>ms_implementationMappings := AList.update mappingKey mapping (ms_implementationMappings s),
               ms_conformances := AList.update conformanceKey conformance (ms_conformances s)\<rparr>,
             package mapping conformance)))"

definition listImplementationMappings :: "string \<Rightarrow> mapping_store \<Rightarrow> jsv list" where
  "listImplementationMappings projectId s =
     map (\<lambda>mapping. JObj (spread (props mapping)
            [(''featureId'', case claim_of projectId mapping (ms_store s) of
                None \<Rightarrow> JNull | Some claim \<Rightarrow> coalesce (oget claim ''featureId'') JNull)]))
       (project_values projectId (ms_implementationMappings s))"

subsection \<open>Candidate reviews\<close>

text \<open>The records a confirming review adds, with the collection each belongs to.\<close>

definition check_baseline_package :: "string \<Rightarrow> jsv \<Rightarrow> mapping_store \<Rightarrow> unit res" where
  "check_baseline_package projectId package s =
     (let feature = oget package ''feature''; scope = oget package ''scope''; claim = oget package ''claim'';
          decision = oget package ''decision''; mapping = oget package ''implementationMapping''; conformance = oget package ''conformance'';
          st = ms_store s;
          featureExists = feature_exists projectId (oget claim ''featureId'') st;
          taken = \<lambda>coll k what. throw_if (map_of coll k \<noteq> None) (ConflictErr (what @ '' already exists'')) (Inr ())
      in
      throw_if (truthy feature \<and> featureExists) (ConflictErr (''Feature '' @ js_string (oget feature ''id'') @ '' already exists'')) (
      throw_if (\<not> truthy feature \<and> \<not> featureExists) (ConflictErr (''Feature '' @ js_string (oget claim ''featureId'') @ '' does not exist'')) (
      bnd (if truthy feature then taken (st_features st) (store_key projectId (version_key feature)) (''Feature '' @ js_string (oget feature ''id''))
           else Inr ()) (\<lambda>_.
      bnd (taken (st_scopes st) (store_key projectId (version_key scope)) (''ClaimScope '' @ js_string (oget scope ''id''))) (\<lambda>_.
      bnd (taken (st_claims st) (store_key projectId (version_key claim)) (''Claim '' @ js_string (oget claim ''id''))) (\<lambda>_.
      bnd (taken (st_decisions st) (id_key projectId (oget decision ''id'')) (''Decision '' @ js_string (oget decision ''id''))) (\<lambda>_.
      bnd (taken (ms_implementationMappings s) (id_key projectId (oget mapping ''id'')) (''ImplementationMapping '' @ js_string (oget mapping ''id''))) (\<lambda>_.
      bnd (taken (ms_conformances s) (id_key projectId (oget conformance ''id'')) (''ImplementationConformance '' @ js_string (oget conformance ''id''))) (\<lambda>_.
      throw_if (\<not> strict_eq (oget claim ''scopeId'') (oget scope ''id'') \<or> \<not> strict_eq (oget claim ''scopeVersion'') (oget scope ''version''))
        (ConflictErr ''Candidate baseline Claim must bind the new Scope'') (
      throw_if (\<not> strict_eq (oget decision ''claimId'') (oget claim ''id'') \<or> \<not> strict_eq (oget decision ''claimVersion'') (oget claim ''version'') \<or>
          \<not> strict_eq (oget decision ''scopeId'') (oget scope ''id'') \<or> \<not> strict_eq (oget mapping ''claimId'') (oget claim ''id'') \<or>
          \<not> strict_eq (oget conformance ''mappingId'') (oget mapping ''id''))
        (ConflictErr ''Candidate baseline references are inconsistent'') (Inr ())))))))))))"

definition put_baseline_package :: "string \<Rightarrow> jsv \<Rightarrow> mapping_store \<Rightarrow> mapping_store" where
  "put_baseline_package projectId package s =
     (let feature = oget package ''feature''; scope = oget package ''scope''; claim = oget package ''claim'';
          decision = oget package ''decision''; mapping = oget package ''implementationMapping''; conformance = oget package ''conformance'';
          st = ms_store s;
          features = (if truthy feature then AList.update (store_key projectId (version_key feature)) feature (st_features st) else st_features st)
      in s\<lparr>ms_store := st\<lparr>st_features := features,
             st_scopes := AList.update (store_key projectId (version_key scope)) scope (st_scopes st),
             st_claims := AList.update (store_key projectId (version_key claim)) claim (st_claims st),
             st_decisions := AList.update (id_key projectId (oget decision ''id'')) decision (st_decisions st)\<rparr>,
           ms_implementationMappings := AList.update (id_key projectId (oget mapping ''id'')) mapping (ms_implementationMappings s),
           ms_conformances := AList.update (id_key projectId (oget conformance ''id'')) conformance (ms_conformances s)\<rparr>)"

definition complete_package :: "jsv \<Rightarrow> bool" where
  "complete_package package \<longleftrightarrow>
     (oget package ''feature'' = JNull \<or> is_object (oget package ''feature'')) \<and>
     list_all (\<lambda>k. is_object (oget package k)) [''scope'', ''claim'', ''decision'', ''implementationMapping'', ''conformance'']"

definition appendReverseCandidateReview :: "string \<Rightarrow> jsv \<Rightarrow> mapping_store \<Rightarrow> (mapping_store \<times> jsv) res" where
  "appendReverseCandidateReview projectId package s =
     (let review = oget package ''review'';
          reviewKey = store_key projectId (pair_key (oget review ''runId'') (oget review ''candidateId''));
          reviewIdKey = id_key projectId (oget review ''id'');
          baselining = (oget review ''baselineRefs'' \<noteq> JNull)
      in
      case map_of (ms_candidateReviews s) reviewKey of
        Some existing \<Rightarrow> throw_if (\<not> same_value existing package)
          (ConflictErr (''Candidate '' @ js_string (oget review ''candidateId'') @ '' already has a different immutable review'')) (Inr (s, existing))
      | None \<Rightarrow>
        throw_if (map_of (ms_candidateReviewIds s) reviewIdKey \<noteq> None)
          (ConflictErr (''Candidate review '' @ js_string (oget review ''id'') @ '' already belongs to another candidate'')) (
        throw_if (map_of (ms_reverseRuns s) (id_key projectId (oget review ''runId'')) = None)
          (ConflictErr (''ReverseRun '' @ js_string (oget review ''runId'') @ '' does not exist in project '' @ projectId)) (
        throw_if (baselining \<noteq> complete_package package) (ConflictErr ''Candidate review baseline package is incomplete'') (
        bnd (if baselining then check_baseline_package projectId package s else Inr ()) (\<lambda>_.
        let s' = (if baselining then put_baseline_package projectId package s else s) in
        Inr (s'\<lparr>ms_candidateReviews := AList.update reviewKey package (ms_candidateReviews s'),
                ms_candidateReviewIds := AList.update reviewIdKey reviewKey (ms_candidateReviewIds s')\<rparr>, package))))))"

definition getReverseCandidateReview :: "string \<Rightarrow> jsv \<Rightarrow> jsv \<Rightarrow> mapping_store \<Rightarrow> jsv" where
  "getReverseCandidateReview projectId runId candidateId s =
     get (ms_candidateReviews s) (store_key projectId (pair_key runId candidateId))"

definition listReverseCandidateReviews :: "(string \<Rightarrow> string \<Rightarrow> int) \<Rightarrow> string \<Rightarrow> jsv \<Rightarrow> mapping_store \<Rightarrow> jsv list" where
  "listReverseCandidateReviews lc projectId runId s =
     sort_by (\<lambda>l r. lc (str_of (oget (oget l ''review'') ''reviewedAt'')) (str_of (oget (oget r ''review'') ''reviewedAt'')) < 0)
       (filter (\<lambda>p. strict_eq (oget (oget p ''review'') ''runId'') runId) (project_values projectId (ms_candidateReviews s)))"

subsection \<open>Change impacts\<close>

definition same_pair :: "jsv \<Rightarrow> jsv \<Rightarrow> bool" where
  "same_pair a b \<longleftrightarrow> equal_members (oget a ''changeSet'') (oget b ''changeSet'') [''fromSnapshotManifestId'', ''toSnapshotManifestId'']"

definition check_continuity :: "string \<Rightarrow> mapping_store \<Rightarrow> jsv \<Rightarrow> unit res" where
  "check_continuity projectId s item =
     (let continuity = oget item ''continuity''; mapping = oget item ''implementationMapping''; conformance = oget item ''conformance'';
          sourceMapping = get (ms_implementationMappings s) (id_key projectId (oget continuity ''fromMappingId''));
          sourceConformance = get (ms_conformances s) (id_key projectId (oget continuity ''fromConformanceId''));
          manifest = mapping_manifest projectId mapping (ms_store s)
      in
      throw_if (\<not> truthy sourceMapping)
        (ConflictErr (''Continuity source mapping '' @ js_string (oget continuity ''fromMappingId'') @ '' does not exist'')) (
      throw_if (\<not> truthy sourceConformance \<or> \<not> strict_eq (oget sourceConformance ''mappingId'') (oget sourceMapping ''id''))
        (ConflictErr (''Continuity source conformance '' @ js_string (oget continuity ''fromConformanceId'') @ '' does not match its mapping'')) (
      throw_if (\<not> truthy manifest) (no_snapshot projectId mapping) (
      throw_if (\<not> from_manifest_source manifest mapping)
        (ConflictErr ''Continuity mapping source must belong to the target Snapshot Manifest'') (
      throw_if (map_of (ms_reverseRuns s) (id_key projectId (oget mapping ''sourceRunId'')) = None)
        (ConflictErr (''ReverseRun '' @ js_string (oget mapping ''sourceRunId'') @ '' does not exist'')) (
      throw_if (\<not> governed_scope projectId mapping (ms_store s))
        (ConflictErr ''Continuity mapping must preserve the governed Claim and Scope'') (
      throw_if (\<not> strict_eq (oget continuity ''featureId'') (case claim_of projectId mapping (ms_store s) of None \<Rightarrow> JUndef | Some c \<Rightarrow> oget c ''featureId'') \<or>
          \<not> equal_members continuity mapping [''claimId'', ''claimVersion'', ''scopeId'', ''scopeVersion''] \<or>
          \<not> strict_eq (oget continuity ''toMappingId'') (oget mapping ''id'') \<or>
          \<not> strict_eq (oget continuity ''toConformanceId'') (oget conformance ''id'') \<or>
          \<not> strict_eq (oget conformance ''mappingId'') (oget mapping ''id'') \<or>
          \<not> equal_members conformance mapping [''snapshotManifestId''])
        (ConflictErr ''Continuity mapping and conformance references are inconsistent'') (
      throw_if (foreign_fact projectId mapping (ms_store s))
        (ConflictErr ''Continuity mapping Fact references must belong to the target Snapshot Manifest'') (
      throw_if (map_of (ms_implementationMappings s) (id_key projectId (oget mapping ''id'')) \<noteq> None \<or>
          map_of (ms_conformances s) (id_key projectId (oget conformance ''id'')) \<noteq> None)
        (ConflictErr (''Continuity '' @ js_string (oget continuity ''id'') @ '' conflicts with an existing record'')) (Inr ()))))))))))"

definition put_continuity :: "string \<Rightarrow> mapping_store \<Rightarrow> jsv \<Rightarrow> mapping_store" where
  "put_continuity projectId s item =
     (let mapping = oget item ''implementationMapping''; conformance = oget item ''conformance'' in
      s\<lparr>ms_implementationMappings := AList.update (id_key projectId (oget mapping ''id'')) mapping (ms_implementationMappings s),
        ms_conformances := AList.update (id_key projectId (oget conformance ''id'')) conformance (ms_conformances s)\<rparr>)"

definition appendChangeImpact :: "string \<Rightarrow> jsv \<Rightarrow> mapping_store \<Rightarrow> (mapping_store \<times> jsv) res" where
  "appendChangeImpact projectId changeImpact s =
     (let changeSetId = oget (oget changeImpact ''changeSet'') ''id''; storageKey = id_key projectId changeSetId;
          existing = map_of (ms_changeImpacts s) storageKey;
          existingPair = find (\<lambda>item. same_pair item changeImpact) (project_values projectId (ms_changeImpacts s))
      in
      throw_if (case existingPair of None \<Rightarrow> False | Some item \<Rightarrow> \<not> strict_eq (oget (oget item ''changeSet'') ''id'') changeSetId)
        (ConflictErr (''Snapshot pair already belongs to immutable ChangeSet '' @
           js_string (oget (oget (the existingPair) ''changeSet'') ''id''))) (
      throw_if (case existing of None \<Rightarrow> False | Some item \<Rightarrow> \<not> same_value item changeImpact)
        (ConflictErr (''ChangeSet '' @ js_string changeSetId @ '' conflicts with an existing immutable record'')) (
      case existing of
        Some item \<Rightarrow> Inr (s, item)
      | None \<Rightarrow>
          bnd (array_elems (coalesce (oget changeImpact ''continuities'') (JArr []))) (\<lambda>items.
          bnd (eachR (check_continuity projectId s) items) (\<lambda>_.
          let s' = foldl (put_continuity projectId) s items in
          Inr (s'\<lparr>ms_changeImpacts := AList.update storageKey changeImpact (ms_changeImpacts s')\<rparr>, changeImpact))))))"

definition getChangeImpact :: "string \<Rightarrow> jsv \<Rightarrow> mapping_store \<Rightarrow> jsv" where
  "getChangeImpact projectId changeSetId s = get (ms_changeImpacts s) (id_key projectId changeSetId)"

subsection \<open>Every record stays\<close>

inductive mapping_step :: "string \<Rightarrow> mapping_store \<Rightarrow> mapping_store \<Rightarrow> bool" for p where
  governed_write: "store_step l (ms_store s) st \<Longrightarrow> mapping_step p s (s\<lparr>ms_store := st\<rparr>)"
| do_reverse_run: "appendReverseRun p v s = Inr (s', r) \<Longrightarrow> mapping_step p s s'"
| do_analysis: "appendImplementationAnalysis p v s = Inr (s', r) \<Longrightarrow> mapping_step p s s'"
| do_candidate_review: "appendReverseCandidateReview p v s = Inr (s', r) \<Longrightarrow> mapping_step p s s'"
| do_change_impact: "appendChangeImpact p v s = Inr (s', r) \<Longrightarrow> mapping_step p s s'"

inductive mapped :: "string \<Rightarrow> mapping_store \<Rightarrow> bool" for p where
  start: "mapped p empty_mapping_store"
| step: "mapped p s \<Longrightarrow> mapping_step p s s' \<Longrightarrow> mapped p s'"

definition mapping_extends :: "mapping_store \<Rightarrow> mapping_store \<Rightarrow> bool" where
  "mapping_extends s t \<longleftrightarrow> store_extends (ms_store s) (ms_store t) \<and>
     list_all (\<lambda>f. prefix (f s) (f t)) [ms_reverseRuns, ms_candidateReviews, ms_implementationMappings, ms_conformances, ms_changeImpacts]"

lemma mapping_extends_refl [simp]: "mapping_extends s s"
  by (simp add: mapping_extends_def)

lemma update_prefix: "map_of coll k = None \<Longrightarrow> prefix coll (AList.update k v coll)"
  by (simp add: update_fresh)

text \<open>The continuities of a change impact: what is put, after the checks on the store before it.\<close>

lemma update_beyond: "map_of coll k = None \<Longrightarrow> prefix coll xs \<Longrightarrow> prefix coll (AList.update k v xs)"
proof (induction coll arbitrary: xs)
  case (Cons e coll)
  from Cons.prems obtain ys where ys: "xs = e # ys" "prefix coll ys" by (auto simp: prefix_Cons prefix_def)
  with Cons show ?case by (cases e) (auto split: if_splits)
qed simp

lemma put_continuities:
  assumes "\<forall>item\<in>set items. map_of ms (id_key p (oget (oget item ''implementationMapping'') ''id'')) = None \<and>
      map_of cs (id_key p (oget (oget item ''conformance'') ''id'')) = None"
    and "prefix ms (ms_implementationMappings s)" "prefix cs (ms_conformances s)"
  shows "\<exists>m c. foldl (put_continuity p) s items = s\<lparr>ms_implementationMappings := m, ms_conformances := c\<rparr> \<and> prefix ms m \<and> prefix cs c"
  using assms
proof (induction items arbitrary: s)
  case Nil
  then show ?case by (intro exI [of _ "ms_implementationMappings s"] exI [of _ "ms_conformances s"]) simp
next
  case (Cons item items)
  let ?s = "put_continuity p s item"
  have put: "?s = s\<lparr>ms_implementationMappings := ms_implementationMappings ?s, ms_conformances := ms_conformances ?s\<rparr>"
    by (simp add: put_continuity_def Let_def)
  have "prefix ms (ms_implementationMappings ?s)" "prefix cs (ms_conformances ?s)"
    using Cons.prems by (simp_all add: put_continuity_def Let_def update_beyond)
  with Cons.IH [of ?s] Cons.prems(1) obtain m c where
    "foldl (put_continuity p) ?s items = ?s\<lparr>ms_implementationMappings := m, ms_conformances := c\<rparr>" "prefix ms m" "prefix cs c"
    by auto
  moreover have "?s\<lparr>ms_implementationMappings := m, ms_conformances := c\<rparr> = s\<lparr>ms_implementationMappings := m, ms_conformances := c\<rparr>"
    by (subst put) simp
  ultimately show ?case by (intro exI [of _ m] exI [of _ c]) simp
qed

lemma check_continuity_fresh:
  assumes "check_continuity p s item = Inr u"
  shows "map_of (ms_implementationMappings s) (id_key p (oget (oget item ''implementationMapping'') ''id'')) = None"
    "map_of (ms_conformances s) (id_key p (oget (oget item ''conformance'') ''id'')) = None"
    "strict_eq (oget (oget item ''conformance'') ''mappingId'') (oget (oget item ''implementationMapping'') ''id'')"
  using assms unfolding check_continuity_def Let_def throw_if_eq_Inr by (simp_all only: de_Morgan_disj not_not simp_thms)

lemma appendChangeImpact_cases:
  assumes "appendChangeImpact p v s = Inr (s', r)"
  obtains (kept) item where "map_of (ms_changeImpacts s) (id_key p (oget (oget v ''changeSet'') ''id'')) = Some item" "s' = s" "r = item"
      "same_value item v"
  | (fresh) items t where "map_of (ms_changeImpacts s) (id_key p (oget (oget v ''changeSet'') ''id'')) = None"
      "\<forall>item. find (\<lambda>i. same_pair i v) (project_values p (ms_changeImpacts s)) = Some item \<longrightarrow>
         strict_eq (oget (oget item ''changeSet'') ''id'') (oget (oget v ''changeSet'') ''id'')"
      "\<forall>item\<in>set items. check_continuity p s item = Inr ()" "t = foldl (put_continuity p) s items"
      "s' = t\<lparr>ms_changeImpacts := AList.update (id_key p (oget (oget v ''changeSet'') ''id'')) v (ms_changeImpacts t)\<rparr>" "r = v"
proof (cases "map_of (ms_changeImpacts s) (id_key p (oget (oget v ''changeSet'') ''id''))")
  case (Some item)
  have "same_value item v \<and> s' = s \<and> r = item"
    using assms unfolding appendChangeImpact_def Let_def throw_if_eq_Inr Some option.case sum.inject prod.inject not_not by iprover
  with kept [OF Some] show ?thesis by iprover
next
  case None
  with assms obtain items u where "\<not> (case find (\<lambda>i. same_pair i v) (project_values p (ms_changeImpacts s)) of
        None \<Rightarrow> False | Some item \<Rightarrow> \<not> strict_eq (oget (oget item ''changeSet'') ''id'') (oget (oget v ''changeSet'') ''id''))"
    "eachR (check_continuity p s) items = Inr u"
    "s' = (foldl (put_continuity p) s items)\<lparr>ms_changeImpacts := AList.update (id_key p (oget (oget v ''changeSet'') ''id'')) v
       (ms_changeImpacts (foldl (put_continuity p) s items))\<rparr>" "r = v"
    unfolding appendChangeImpact_def Let_def throw_if_eq_Inr None option.case bnd_eq_Inr sum.inject prod.inject
    apply (elim conjE exE)
    apply (rule that)
    apply assumption
    apply assumption
    apply (erule sym)+
    done
  note p = this
  from p(1) have "\<forall>item. find (\<lambda>i. same_pair i v) (project_values p (ms_changeImpacts s)) = Some item \<longrightarrow>
      strict_eq (oget (oget item ''changeSet'') ''id'') (oget (oget v ''changeSet'') ''id'')"
    by (cases "find (\<lambda>i. same_pair i v) (project_values p (ms_changeImpacts s))") simp_all
  from fresh [OF None this _ refl p(3,4)] p(2) show ?thesis by (simp only: eachR_Inr simp_thms)
qed

lemma put_continuities_frame:
  assumes "\<forall>item\<in>set items. check_continuity p s item = Inr ()"
  obtains m c where "foldl (put_continuity p) s items = s\<lparr>ms_implementationMappings := m, ms_conformances := c\<rparr>"
    "prefix (ms_implementationMappings s) m" "prefix (ms_conformances s) c"
  using put_continuities [of items "ms_implementationMappings s" p "ms_conformances s" s] assms check_continuity_fresh by auto

lemma check_baseline_package_fresh:
  assumes "check_baseline_package p package s = Inr u"
  shows "truthy (oget package ''feature'') \<Longrightarrow> map_of (st_features (ms_store s)) (store_key p (version_key (oget package ''feature''))) = None"
    "map_of (st_scopes (ms_store s)) (store_key p (version_key (oget package ''scope''))) = None"
    "map_of (st_claims (ms_store s)) (store_key p (version_key (oget package ''claim''))) = None"
    "map_of (st_decisions (ms_store s)) (id_key p (oget (oget package ''decision'') ''id'')) = None"
    "map_of (ms_implementationMappings s) (id_key p (oget (oget package ''implementationMapping'') ''id'')) = None"
    "map_of (ms_conformances s) (id_key p (oget (oget package ''conformance'') ''id'')) = None"
    "strict_eq (oget (oget package ''conformance'') ''mappingId'') (oget (oget package ''implementationMapping'') ''id'')"
  using assms unfolding check_baseline_package_def Let_def throw_if_eq_Inr bnd_eq_Inr
  by (simp_all only: de_Morgan_disj not_not if_True throw_if_eq_Inr simp_thms) iprover+

text \<open>The run of a candidate review: the baseline package if there is one, then the review.\<close>

lemma appendReverseCandidateReview_cases:
  assumes "appendReverseCandidateReview p package s = Inr (s', r)"
  obtains (kept) "s' = s"
  | (plain) k ids where "map_of (ms_candidateReviews s) k = None"
      "s' = s\<lparr>ms_candidateReviews := AList.update k package (ms_candidateReviews s), ms_candidateReviewIds := ids\<rparr>"
  | (baseline) k ids where "map_of (ms_candidateReviews s) k = None" "check_baseline_package p package s = Inr ()"
      "s' = (put_baseline_package p package s)\<lparr>ms_candidateReviews := AList.update k package (ms_candidateReviews s), ms_candidateReviewIds := ids\<rparr>"
proof -
  let ?k = "store_key p (pair_key (oget (oget package ''review'') ''runId'') (oget (oget package ''review'') ''candidateId''))"
  show ?thesis
  proof (cases "map_of (ms_candidateReviews s) ?k")
    case (Some existing)
    have "s' = s"
      using assms unfolding appendReverseCandidateReview_def Let_def Some option.case throw_if_eq_Inr sum.inject prod.inject by iprover
    then show ?thesis by (rule kept)
  next
    case None
    let ?b = "oget (oget package ''review'') ''baselineRefs'' \<noteq> JNull"
    let ?t = "if ?b then put_baseline_package p package s else s"
    from assms obtain u where u: "(if ?b then check_baseline_package p package s else Inr ()) = Inr u"
      and s': "?t\<lparr>ms_candidateReviews := AList.update ?k package (ms_candidateReviews ?t),
          ms_candidateReviewIds := AList.update (id_key p (oget (oget package ''review'') ''id'')) ?k (ms_candidateReviewIds ?t)\<rparr> = s'"
      unfolding appendReverseCandidateReview_def Let_def None option.case throw_if_eq_Inr bnd_eq_Inr sum.inject prod.inject
      by (elim conjE exE)
    show ?thesis
    proof (cases ?b)
      case True
      have fr: "ms_candidateReviews (put_baseline_package p package s) = ms_candidateReviews s"
        by (simp add: put_baseline_package_def Let_def)
      have c: "check_baseline_package p package s = Inr ()" using u unfolding if_P [OF True] by (cases u) (simp only:)
      from s' [unfolded if_P [OF True] fr, symmetric] show ?thesis by (rule baseline [OF None c])
    next
      case False
      from s' [unfolded if_not_P [OF False], symmetric] show ?thesis by (rule plain [OF None])
    qed
  qed
qed

lemma put_baseline_package_extends:
  assumes "check_baseline_package p package s = Inr u"
  shows "mapping_extends s (put_baseline_package p package s)"
proof -
  note f = check_baseline_package_fresh [OF assms]
  have "prefix (st_features (ms_store s)) (if truthy (oget package ''feature'')
      then AList.update (store_key p (version_key (oget package ''feature''))) (oget package ''feature'') (st_features (ms_store s))
      else st_features (ms_store s))"
    using f(1) by (simp add: update_prefix)
  then show ?thesis
    unfolding put_baseline_package_def mapping_extends_def store_extends_def Let_def
    by (simp add: update_prefix f(2-6) del: oget_simps)
qed

lemma appendImplementationAnalysis_cases:
  assumes "appendImplementationAnalysis p v s = Inr (s', r)"
  obtains (kept) "s' = s"
  | (fresh) "map_of (ms_implementationMappings s) (id_key p (oget (oget v ''implementationMapping'') ''id'')) = None"
      "map_of (ms_conformances s) (id_key p (oget (oget v ''conformance'') ''id'')) = None"
      "check_analysis p (oget v ''implementationMapping'') (oget v ''conformance'') s = Inr ()"
      "s' = s\<lparr>ms_implementationMappings := AList.update (id_key p (oget (oget v ''implementationMapping'') ''id''))
            (oget v ''implementationMapping'') (ms_implementationMappings s),
          ms_conformances := AList.update (id_key p (oget (oget v ''conformance'') ''id'')) (oget v ''conformance'') (ms_conformances s)\<rparr>"
proof -
  let ?m = "map_of (ms_implementationMappings s) (id_key p (oget (oget v ''implementationMapping'') ''id''))"
  let ?c = "map_of (ms_conformances s) (id_key p (oget (oget v ''conformance'') ''id''))"
  show ?thesis
  proof (cases "?m \<noteq> None \<or> ?c \<noteq> None")
    case True
    from assms have "s' = s"
      unfolding appendImplementationAnalysis_def Let_def if_P [OF True]
      by (cases ?m; cases ?c) (simp_all only: option.case prod.case throw_if_eq_Inr sum.inject prod.inject sum.distinct)
    then show ?thesis by (rule kept)
  next
    case False
    then have n: "?m = None" "?c = None" by simp_all
    from assms obtain u where u: "check_analysis p (oget v ''implementationMapping'') (oget v ''conformance'') s = Inr u"
      and s': "s\<lparr>ms_implementationMappings := AList.update (id_key p (oget (oget v ''implementationMapping'') ''id''))
            (oget v ''implementationMapping'') (ms_implementationMappings s),
          ms_conformances := AList.update (id_key p (oget (oget v ''conformance'') ''id'')) (oget v ''conformance'') (ms_conformances s)\<rparr> = s'"
      unfolding appendImplementationAnalysis_def Let_def if_not_P [OF False] bnd_eq_Inr sum.inject prod.inject by (elim conjE exE)
    from u have "check_analysis p (oget v ''implementationMapping'') (oget v ''conformance'') s = Inr ()" by (cases u) (simp only:)
    from fresh [OF n this s' [symmetric]] show ?thesis .
  qed
qed

lemma mapping_step_extends: "mapping_step p s s' \<Longrightarrow> mapping_extends s s'"
proof (induction rule: mapping_step.induct)
  case (governed_write l s st)
  then show ?case by (simp add: mapping_extends_def store_step_extends)
next
  case (do_reverse_run v s s' r)
  then show ?case by (auto simp: appendReverseRun_def bnd_eq_Inr mapping_extends_def dest: put_once_prefix)
next
  case (do_analysis v s s' r)
  then show ?case
    by (cases rule: appendImplementationAnalysis_cases) (simp_all add: mapping_extends_def update_prefix del: oget_simps)
next
  case (do_candidate_review v s s' r)
  then show ?case
  proof (cases rule: appendReverseCandidateReview_cases)
    case (plain k ids)
    then show ?thesis by (simp add: mapping_extends_def update_prefix)
  next
    case (baseline k ids)
    from put_baseline_package_extends [OF baseline(2)] baseline(1) show ?thesis
      unfolding baseline(3) by (simp add: mapping_extends_def update_prefix put_baseline_package_def Let_def del: oget_simps)
  qed simp
next
  case (do_change_impact v s s' r)
  then show ?case
  proof (cases rule: appendChangeImpact_cases)
    case (fresh items t)
    from put_continuities_frame [OF fresh(3)] obtain m c where
      "t = s\<lparr>ms_implementationMappings := m, ms_conformances := c\<rparr>" "prefix (ms_implementationMappings s) m" "prefix (ms_conformances s) c"
      unfolding fresh(4) .
    with fresh(1) show ?thesis unfolding fresh(5) by (simp add: mapping_extends_def update_prefix del: oget_simps)
  qed simp
qed

text \<open>
  Each conformance is stored under its own identifier and belongs to a stored mapping; each change impact
  is stored under the identifier of its change set, and no two compare the same pair of snapshots.
\<close>

definition mapping_inv :: "string \<Rightarrow> mapping_store \<Rightarrow> bool" where
  "mapping_inv p s \<longleftrightarrow>
     (\<forall>(k, c)\<in>set (ms_conformances s). \<exists>m. map_of (ms_implementationMappings s) (id_key p (oget c ''mappingId'')) = Some m) \<and>
     (\<forall>(k, v)\<in>set (ms_changeImpacts s). k = id_key p (oget (oget v ''changeSet'') ''id'')) \<and>
     (\<forall>(k, v)\<in>set (ms_changeImpacts s). \<forall>(k', v')\<in>set (ms_changeImpacts s). same_pair v v' \<longrightarrow> (k, v) = (k', v'))"

lemma prefix_lookup: "prefix xs ys \<Longrightarrow> map_of xs k = Some v \<Longrightarrow> map_of ys k = Some v"
  by (auto simp: prefix_def)

lemma mapping_inv_frame:
  assumes "mapping_inv p s" "prefix (ms_implementationMappings s) (ms_implementationMappings t)"
    "ms_changeImpacts t = ms_changeImpacts s"
    "\<And>k c. (k, c) \<in> set (ms_conformances t) \<Longrightarrow> (k, c) \<notin> set (ms_conformances s) \<Longrightarrow>
       \<exists>m. map_of (ms_implementationMappings t) (id_key p (oget c ''mappingId'')) = Some m"
  shows "mapping_inv p t"
proof -
  have "\<exists>m. map_of (ms_implementationMappings t) (id_key p (oget c ''mappingId'')) = Some m" if "(k, c) \<in> set (ms_conformances t)" for k c
  proof (cases "(k, c) \<in> set (ms_conformances s)")
    case True
    with assms(1) obtain m where "map_of (ms_implementationMappings s) (id_key p (oget c ''mappingId'')) = Some m"
      unfolding mapping_inv_def by blast
    from prefix_lookup [OF assms(2) this] show ?thesis by (rule exI)
  qed (rule assms(4) [OF that])
  then show ?thesis using assms(1) unfolding mapping_inv_def assms(3) by blast
qed

lemma in_set_update: "(k, c) \<in> set (AList.update k' v xs) \<Longrightarrow> k = k' \<and> c = v \<or> (k, c) \<in> set xs"
  by (induction xs) (auto split: if_splits)

lemma put_continuities_inv:
  assumes "\<And>k c. (k, c) \<in> set (ms_conformances s) \<Longrightarrow> \<exists>m. map_of (ms_implementationMappings s) (id_key p (oget c ''mappingId'')) = Some m"
    and "\<forall>item\<in>set items. strict_eq (oget (oget item ''conformance'') ''mappingId'') (oget (oget item ''implementationMapping'') ''id'')"
    and "(k, c) \<in> set (ms_conformances (foldl (put_continuity p) s items))"
  shows "\<exists>m. map_of (ms_implementationMappings (foldl (put_continuity p) s items)) (id_key p (oget c ''mappingId'')) = Some m"
  using assms
proof (induction items arbitrary: s)
  case (Cons item items)
  let ?mp = "oget item ''implementationMapping''" and ?cf = "oget item ''conformance''" and ?s = "put_continuity p s item"
  have ms: "map_of (ms_implementationMappings ?s) = (map_of (ms_implementationMappings s))(id_key p (oget ?mp ''id'') \<mapsto> ?mp)"
    by (simp add: put_continuity_def Let_def update_conv')
  have eq: "oget ?cf ''mappingId'' = oget ?mp ''id''" using Cons.prems(2) by (intro strict_eqD) simp
  have "\<exists>m. map_of (ms_implementationMappings ?s) (id_key p (oget c ''mappingId'')) = Some m" if "(k, c) \<in> set (ms_conformances ?s)" for k c
  proof -
    from that have "c = ?cf \<or> (k, c) \<in> set (ms_conformances s)"
      unfolding put_continuity_def Let_def by (auto simp del: oget_simps dest: in_set_update)
    then show ?thesis
    proof
      assume "c = ?cf"
      then show ?thesis unfolding ms by (simp only: eq fun_upd_same option.inject ex_simps simp_thms)
    next
      assume "(k, c) \<in> set (ms_conformances s)"
      from Cons.prems(1) [OF this] show ?thesis unfolding ms by (auto simp del: oget_simps)
    qed
  qed
  from Cons.IH [OF this] Cons.prems(2,3) show ?case by simp
qed simp

lemma strict_eq_commute: "strict_eq a b \<longleftrightarrow> strict_eq b a"
  by (auto simp: strict_eq_def)

lemma same_pair_sym: "same_pair a b \<Longrightarrow> same_pair b a"
  by (simp add: same_pair_def equal_members_def strict_eq_commute del: oget_simps)

lemma in_project_id_key [simp]: "in_project p (id_key p i)"
  by (simp add: id_key_def)

lemma append_impact_inv:
  assumes inv: "mapping_inv p s" and new: "map_of (ms_changeImpacts s) (id_key p (oget (oget v ''changeSet'') ''id'')) = None"
    and find: "\<forall>item. find (\<lambda>i. same_pair i v) (project_values p (ms_changeImpacts s)) = Some item \<longrightarrow>
         strict_eq (oget (oget item ''changeSet'') ''id'') (oget (oget v ''changeSet'') ''id'')"
    and t: "mapping_inv p t" "ms_changeImpacts t = ms_changeImpacts s"
  shows "mapping_inv p (t\<lparr>ms_changeImpacts := AList.update (id_key p (oget (oget v ''changeSet'') ''id'')) v (ms_changeImpacts t)\<rparr>)"
proof -
  let ?k = "id_key p (oget (oget v ''changeSet'') ''id'')"
  have keys: "k = id_key p (oget (oget w ''changeSet'') ''id'')" if "(k, w) \<in> set (ms_changeImpacts s)" for k w
    using inv that unfolding mapping_inv_def by blast
  have none: "\<not> same_pair w v" if w: "(k, w) \<in> set (ms_changeImpacts s)" for k w
  proof
    assume "same_pair w v"
    moreover have "w \<in> set (project_values p (ms_changeImpacts s))"
      unfolding project_values_def using w keys [OF w] by force
    ultimately obtain item where item: "find (\<lambda>i. same_pair i v) (project_values p (ms_changeImpacts s)) = Some item"
      by (cases "find (\<lambda>i. same_pair i v) (project_values p (ms_changeImpacts s))") (auto simp: find_None_iff)
    then have "item \<in> set (project_values p (ms_changeImpacts s))" by (auto simp: find_Some_iff)
    then obtain k' where k': "(k', item) \<in> set (ms_changeImpacts s)" by (auto simp: project_values_def)
    from find item have "oget (oget item ''changeSet'') ''id'' = oget (oget v ''changeSet'') ''id''" by (intro strict_eqD) simp
    with keys [OF k'] k' have "?k \<in> fst ` set (ms_changeImpacts s)" by force
    moreover have "?k \<notin> fst ` set (ms_changeImpacts s)" using new unfolding map_of_eq_None_iff .
    ultimately show False by (rule notE [rotated])
  qed
  have "set (AList.update ?k v (ms_changeImpacts s)) = insert (?k, v) (set (ms_changeImpacts s))"
    using new by (simp add: update_fresh)
  then show ?thesis
    using inv t(1) none same_pair_sym unfolding mapping_inv_def
    by (simp add: t(2) del: oget_simps) (intro conjI, blast+)
qed

lemma mapping_step_inv: "mapping_step p s s' \<Longrightarrow> mapping_inv p s \<Longrightarrow> mapping_inv p s'"
proof (induction rule: mapping_step.induct)
  case (governed_write l s st)
  then show ?case by (simp add: mapping_inv_def del: oget_simps)
next
  case (do_reverse_run v s s' r)
  then obtain x where "s' = s\<lparr>ms_reverseRuns := x\<rparr>" by (auto simp: appendReverseRun_def bnd_eq_Inr)
  with do_reverse_run(2) show ?case by (simp add: mapping_inv_def del: oget_simps)
next
  case (do_analysis v s s' r)
  from do_analysis(1) show ?case
  proof (cases rule: appendImplementationAnalysis_cases)
    case fresh
    from fresh(3) have "oget (oget v ''conformance'') ''mappingId'' = oget (oget v ''implementationMapping'') ''id''"
      unfolding check_analysis_def Let_def throw_if_eq_Inr by (intro strict_eqD) (simp only: de_Morgan_disj not_not simp_thms)
    with do_analysis(2) fresh(1,2) show ?thesis
      unfolding fresh(4) by (elim mapping_inv_frame) (auto simp: update_prefix update_fresh map_add_def simp del: oget_simps split: option.split)
  qed (simp add: do_analysis(2))
next
  case (do_candidate_review v s s' r)
  from do_candidate_review(1) show ?case
  proof (cases rule: appendReverseCandidateReview_cases)
    case (plain k ids)
    with do_candidate_review(2) show ?thesis by (simp add: mapping_inv_def del: oget_simps)
  next
    case (baseline k ids)
    note f = check_baseline_package_fresh [OF baseline(2)]
    have "oget (oget v ''conformance'') ''mappingId'' = oget (oget v ''implementationMapping'') ''id''" using f(7) by (rule strict_eqD)
    with do_candidate_review(2) f(5,6) show ?thesis
      unfolding baseline(3) put_baseline_package_def Let_def
      by (elim mapping_inv_frame) (auto simp: update_prefix update_fresh map_add_def simp del: oget_simps split: option.split)
  qed (simp add: do_candidate_review(2))
next
  case (do_change_impact v s s' r)
  from do_change_impact(1) show ?case
  proof (cases rule: appendChangeImpact_cases)
    case (fresh items t)
    from put_continuities_frame [OF fresh(3)] obtain m c where
      t: "t = s\<lparr>ms_implementationMappings := m, ms_conformances := c\<rparr>" "prefix (ms_implementationMappings s) m"
      unfolding fresh(4) .
    have inv: "mapping_inv p t"
    proof (rule mapping_inv_frame [OF do_change_impact(2)])
      show "\<exists>m. map_of (ms_implementationMappings t) (id_key p (oget c ''mappingId'')) = Some m" if "(k, c) \<in> set (ms_conformances t)" for k c
        using put_continuities_inv [of s p items k c] do_change_impact(2) fresh(3) check_continuity_fresh(3) that
        unfolding fresh(4) mapping_inv_def by blast
    qed (use t in simp_all)
    from append_impact_inv [OF do_change_impact(2) fresh(1,2) inv] show ?thesis unfolding fresh(5) by (simp add: t(1))
  qed (simp add: do_change_impact(2))
qed

lemma empty_mapping_inv: "mapping_inv p empty_mapping_store"
  by (simp add: mapping_inv_def empty_mapping_store_def)

lemma mapped_inv: "mapped p s \<Longrightarrow> mapping_inv p s"
  by (induction rule: mapped.induct) (simp_all only: empty_mapping_inv mapping_step_inv)

text \<open>
  no operation on the mapping store changes or removes what is stored: every collection of governed
  records, reverse runs, candidate reviews, mappings, conformances and change impacts grows at its end.
\<close>

theorem mapping_store_is_append_only:
  assumes "mapping_step p s s'"
  shows "mapping_extends s s'"
  using assms by (rule mapping_step_extends)

text \<open>
  C28: in every store reached by the operations of a project, each conformance belongs to a stored
  mapping, and two stored change impacts never compare the same pair of snapshots.
\<close>

theorem snapshot_pair_has_one_change_set:
  assumes "mapped p s"
  shows "(\<forall>(k, c)\<in>set (ms_conformances s). \<exists>m. map_of (ms_implementationMappings s) (id_key p (oget c ''mappingId'')) = Some m) \<and>
    (\<forall>(k, v)\<in>set (ms_changeImpacts s). \<forall>(k', v')\<in>set (ms_changeImpacts s). same_pair v v' \<longrightarrow> (k, v) = (k', v'))"
  using mapped_inv [OF assms] unfolding mapping_inv_def by (elim conjE) (intro conjI)

subsection \<open>A stored comparison\<close>

definition sample_change_impact :: "string \<Rightarrow> jsv" where
  "sample_change_impact i = JObj [(''changeSet'', JObj [(''id'', JStr i), (''fromSnapshotManifestId'', JStr ''S1''),
     (''toSnapshotManifestId'', JStr ''S2'')])]"

lemma sample_impact_stored:
  "\<exists>s. appendChangeImpact ''p'' (sample_change_impact ''C1'') empty_mapping_store = Inr (s, sample_change_impact ''C1'') \<and>
     ms_changeImpacts s = [(id_key ''p'' (JStr ''C1''), sample_change_impact ''C1'')]"
  by (simp add: appendChangeImpact_def empty_mapping_store_def sample_change_impact_def project_values_def)

theorem mapping_store_is_append_only_witness:
  "\<exists>s. mapping_step ''p'' empty_mapping_store s \<and> ms_changeImpacts s \<noteq> [] \<and> mapping_extends empty_mapping_store s"
proof -
  from sample_impact_stored obtain s where s: "appendChangeImpact ''p'' (sample_change_impact ''C1'') empty_mapping_store = Inr (s, sample_change_impact ''C1'')"
    "ms_changeImpacts s = [(id_key ''p'' (JStr ''C1''), sample_change_impact ''C1'')]" by (elim exE conjE)
  from do_change_impact [OF s(1)] have "mapping_step ''p'' empty_mapping_store s" .
  with mapping_store_is_append_only [OF this] s(2) show ?thesis by (intro exI [of _ s]) simp
qed

text \<open>Another change set for the same pair of snapshots is refused.\<close>

theorem snapshot_pair_has_one_change_set_witness:
  "\<exists>s. mapped ''p'' s \<and> length (ms_changeImpacts s) = 1 \<and>
     (\<exists>e. appendChangeImpact ''p'' (sample_change_impact ''C2'') s = Inl e) \<and>
     distinct (map fst (ms_changeImpacts s))"
proof -
  from sample_impact_stored obtain s where s: "appendChangeImpact ''p'' (sample_change_impact ''C1'') empty_mapping_store = Inr (s, sample_change_impact ''C1'')"
    "ms_changeImpacts s = [(id_key ''p'' (JStr ''C1''), sample_change_impact ''C1'')]" by (elim exE conjE)
  have m: "mapped ''p'' s" by (rule mapped.step [OF mapped.start do_change_impact [OF s(1)]])
  note one = snapshot_pair_has_one_change_set [OF m]
  have "\<exists>e. appendChangeImpact ''p'' (sample_change_impact ''C2'') s = Inl e"
    by (simp add: appendChangeImpact_def Let_def s(2) project_values_def same_pair_def equal_members_def throw_if_def
        sample_change_impact_def)
  with m s(2) one show ?thesis by (intro exI [of _ s]) simp
qed

end
