(* ===== verification/Snapshot_Comparison.thy ===== *)
theory Snapshot_Comparison
  imports Mapping_Store Change_Impact Implementation_Review
begin

section \<open>Comparing two snapshots\<close>

text \<open>
  \<open>compareAndPersistSnapshots\<close> of the application (\<open>src/application/traceability-application.js\<close>) with
  the reads it makes of the store (\<open>src/storage/memory-traceability-store.js\<close>): the fact graph of a
  snapshot, the baseline of a feature with its mappings, conformances and candidate reviews. A mapping of the
  old snapshot is either affected by a change or carried over to the new one with its conformance. Shown:
  a mapping is carried over only when each fact it refers to has the same content in both snapshots; the
  same comparison again returns the stored result and changes nothing.
\<close>

subsection \<open>The fact graph of a snapshot\<close>

definition newer_bundle :: "jsv \<Rightarrow> jsv \<Rightarrow> bool" where
  "newer_bundle b current \<longleftrightarrow>
     str_of (oget b ''observedAt'') > str_of (oget current ''observedAt'') \<or>
     strict_eq (oget b ''observedAt'') (oget current ''observedAt'') \<and> str_of (oget b ''id'') > str_of (oget current ''id'')"

definition keep_newest_bundle :: "(string \<times> jsv) list \<Rightarrow> jsv \<Rightarrow> (string \<times> jsv) list" where
  "keep_newest_bundle latest b =
     (let identity = pair_key (oget b ''sourceComponentId'') (oget (oget b ''extractor'') ''id'') in
      case map_of latest identity of
        None \<Rightarrow> AList.update identity b latest
      | Some current \<Rightarrow> if newer_bundle b current then AList.update identity b latest else latest)"

definition getSnapshotFactGraph :: "string \<Rightarrow> jsv \<Rightarrow> nat \<Rightarrow> store \<Rightarrow> jsv res" where
  "getSnapshotFactGraph projectId snapshotManifestId maxNodes s =
     (let bundles = map snd (foldl keep_newest_bundle [] (manifest_bundles projectId snapshotManifestId s));
          nodes = tagged ''nodes'' bundles
      in
      throw_if (length nodes > maxNodes) (RangeErr ''Snapshot Fact graph exceeds maxNodes'') (
      Inr (JObj
        [(''nodes'', JArr nodes), (''edges'', JArr (tagged ''edges'' bundles)),
         (''complete'', JBool (bundles \<noteq> [] \<and> list_all (\<lambda>b. truthy (oget b ''complete'')) bundles)),
         (''bundleIds'', JArr (ids_of bundles))])))"

subsection \<open>The baseline with mappings\<close>

record mapped_baseline = feature_baseline +
  fb_implementationMappings :: "jsv list"
  fb_conformances :: "jsv list"
  fb_candidateReviews :: "jsv list"

definition getMappedBaseline ::
  "(string \<Rightarrow> string \<Rightarrow> int) \<Rightarrow> string \<Rightarrow> jsv \<Rightarrow> mapping_store \<Rightarrow> mapped_baseline option" where
  "getMappedBaseline lc projectId featureId s =
     map_option (\<lambda>b.
       let currentClaimKeys = map (\<lambda>v. version_key (cv_claim v)) (fb_claims b);
           current = \<lambda>r. pair_key (oget r ''claimId'') (oget r ''claimVersion'') \<in> set currentClaimKeys
       in feature_baseline.extend b
         \<lparr>fb_implementationMappings = filter current (project_values projectId (ms_implementationMappings s)),
          fb_conformances = filter current (project_values projectId (ms_conformances s)),
          fb_candidateReviews = filter (\<lambda>p. strict_eq (oget (oget (oget p ''review'') ''baselineRefs'') ''featureId'') featureId)
            (project_values projectId (ms_candidateReviews s))\<rparr>)
       (getFeatureBaseline lc projectId featureId (ms_store s))"

subsection \<open>Indexes of a graph\<close>

definition node_producer :: "jsv \<Rightarrow> string" where
  "node_producer node = canonical_text (JObj
     [(''entityType'', JStr ''NODE''), (''stableId'', oget node ''id''),
      (''extractorId'', coalesce (oget (oget node ''extractor'') ''id'') JNull)])"

definition edge_producer :: "jsv \<Rightarrow> string" where
  "edge_producer edge = canonical_text (JObj
     [(''entityType'', JStr ''EDGE''), (''subjectId'', oget edge ''subjectId''), (''predicate'', oget edge ''predicate''),
      (''objectId'', oget edge ''objectId''), (''extractorId'', coalesce (oget (oget edge ''extractor'') ''id'') JNull)])"

definition by_fact_id :: "jsv \<Rightarrow> (jsv \<times> string) list" where
  "by_fact_id graph = js_map (map (\<lambda>n. (oget n ''factId'', node_producer n)) (elems (oget graph ''nodes'')) @
     map (\<lambda>e. (oget e ''id'', edge_producer e)) (elems (oget graph ''edges'')))"

definition by_stable_producer :: "jsv \<Rightarrow> (string \<times> jsv \<times> jsv) list" where
  "by_stable_producer graph = js_map (map (\<lambda>n. (node_producer n, oget n ''factId'', n)) (elems (oget graph ''nodes'')) @
     map (\<lambda>e. (edge_producer e, oget e ''id'', e)) (elems (oget graph ''edges'')))"

subsection \<open>What a change means for a mapping\<close>

record comparison =
  cp_projectId :: string
  cp_changeSetId :: jsv
  cp_fromId :: jsv
  cp_toId :: jsv
  cp_fromGraph :: jsv
  cp_toGraph :: jsv
  cp_toManifest :: jsv
  cp_changes :: "jsv list"

definition artifacts_by_ref :: "jsv \<Rightarrow> (jsv \<times> jsv) list" where
  "artifacts_by_ref graph =
     js_map (map (\<lambda>n. (oget n ''factId'', coalesce (oget (oget n ''source'') ''artifact'') JNull)) (elems (oget graph ''nodes'')) @
       map (\<lambda>e. (oget e ''id'', coalesce (oget (oget e ''source'') ''artifact'') JNull)) (elems (oget graph ''edges'')))"

definition changed_before :: "jsv list \<Rightarrow> (jsv \<times> jsv) list" where
  "changed_before changes = js_map (map (\<lambda>c. (oget c ''beforeFactId'', c)) (filter (\<lambda>c. truthy (oget c ''beforeFactId'')) changes))"

definition added_in :: "jsv list \<Rightarrow> jsv \<Rightarrow> jsv list" where
  "added_in changes artifact =
     filter (\<lambda>c. oget c ''kind'' = JStr ''ADDED'' \<and> truthy (oget c ''artifact'') \<and> strict_eq (oget c ''artifact'') artifact) changes"

text \<open>The changes of the facts a mapping refers to, and the additions to the artifacts they come from.\<close>

definition relevant_to_mapping :: "comparison \<Rightarrow> jsv \<Rightarrow> jsv list" where
  "relevant_to_mapping cp mapping =
     (let refs = map (\<lambda>r. oget r ''factId'') (elems (oget mapping ''factRefs''));
          directChanges = List.map_filter (map_of (changed_before (cp_changes cp))) refs;
          mappedArtifacts = js_value_set (filter truthy (List.map_filter (map_of (artifacts_by_ref (cp_fromGraph cp))) refs));
          conservativeAdditions = concat (map (added_in (cp_changes cp)) mappedArtifacts)
      in map snd (js_map (map (\<lambda>c. (oget c ''id'', c)) (directChanges @ conservativeAdditions))))"

definition verifying_tests :: "mapped_baseline option \<Rightarrow> jsv \<Rightarrow> jsv list" where
  "verifying_tests baseline mapping =
     ids_of (filter (\<lambda>t. list_ex (\<lambda>r. strict_eq (oget r ''id'') (oget mapping ''claimId'') \<and>
                            strict_eq (oget r ''version'') (oget mapping ''claimVersion'')) (elems (oget t ''verifiesClaims'')))
       (case baseline of None \<Rightarrow> [] | Some b \<Rightarrow> fb_testSpecs b))"

definition prior_conformance :: "(string \<Rightarrow> string \<Rightarrow> int) \<Rightarrow> comparison \<Rightarrow> mapped_baseline option \<Rightarrow> jsv \<Rightarrow> jsv" where
  "prior_conformance lc cp baseline mapping =
     (let cs = sort_by (\<lambda>l r. lc (str_of (oget l ''computedAt'')) (str_of (oget r ''computedAt'')) < 0)
          (filter (\<lambda>c. strict_eq (oget c ''mappingId'') (oget mapping ''id'') \<and> strict_eq (oget c ''snapshotManifestId'') (cp_fromId cp))
            (case baseline of None \<Rightarrow> [] | Some b \<Rightarrow> fb_conformances b))
      in if cs = [] then JNull else last cs)"

text \<open>The fact of the new graph that stands for a referenced fact of the old one.\<close>

definition rebind :: "comparison \<Rightarrow> jsv \<Rightarrow> jsv option" where
  "rebind cp ref =
     (case map_of (by_fact_id (cp_fromGraph cp)) (oget ref ''factId'') of
        None \<Rightarrow> None
      | Some producer \<Rightarrow>
          (case map_of (by_stable_producer (cp_toGraph cp)) producer of
             None \<Rightarrow> None
           | Some (factId, _) \<Rightarrow> Some (JObj
               [(''fromFactId'', oget ref ''factId''), (''toFactId'', factId), (''relation'', oget ref ''relation'')])))"

definition continuity_package :: "comparison \<Rightarrow> int option \<Rightarrow> jsv \<Rightarrow> jsv \<Rightarrow> jsv list \<Rightarrow> jsv res" where
  "continuity_package cp now mapping prior rebindings =
     (let governed = map (\<lambda>k. (k, oget mapping k)) [''claimId'', ''claimVersion'', ''scopeId'', ''scopeVersion''] in
      bnd (createImplementationMapping (JObj (governed @
         [(''snapshotManifestId'', cp_toId cp),
          (''sourceComponentId'', oget (oget (oget (cp_toManifest cp) ''components'') ''source'') ''id''),
          (''sourceRunId'', oget mapping ''sourceRunId''), (''sourceCandidateId'', oget mapping ''sourceCandidateId''),
          (''factRefs'', JArr (map (\<lambda>b. JObj [(''factId'', oget b ''toFactId''), (''relation'', oget b ''relation'')]) rebindings))])) now) (\<lambda>toMapping.
      bnd (createImplementationConformance (JObj (governed @
         [(''snapshotManifestId'', cp_toId cp), (''mappingId'', oget toMapping ''id''), (''status'', oget prior ''status''),
          (''evidenceRefs'', JArr (map (\<lambda>b. oget b ''toFactId'') rebindings)),
          (''analysisMethod'', JObj
            [(''type'', JStr ''SEMANTIC_FACT_CONTINUITY''), (''version'', JStr ''1.0.0''), (''changeSetId'', cp_changeSetId cp),
             (''derivedFromMappingId'', oget mapping ''id''), (''derivedFromConformanceId'', oget prior ''id'')])])) now) (\<lambda>conformance.
      bnd (createImplementationContinuity (JObj ([(''changeSetId'', cp_changeSetId cp), (''featureId'', oget mapping ''featureId'')] @ governed @
         [(''fromSnapshotManifestId'', cp_fromId cp), (''toSnapshotManifestId'', cp_toId cp),
          (''fromMappingId'', oget mapping ''id''), (''toMappingId'', oget toMapping ''id''),
          (''fromConformanceId'', oget prior ''id''), (''toConformanceId'', oget conformance ''id''),
          (''factRefRebindings'', JArr rebindings)]))) (\<lambda>continuity.
      Inr (JObj [(''continuity'', continuity), (''implementationMapping'', toMapping), (''conformance'', conformance)])))))"

text \<open>One mapping: affected, carried over, or neither. The two lists are the results so far.\<close>

definition compare_mapping ::
  "(string \<Rightarrow> string \<Rightarrow> int) \<Rightarrow> comparison \<Rightarrow> int option \<Rightarrow> mapping_store \<Rightarrow> jsv list \<times> jsv list \<Rightarrow> jsv \<Rightarrow> (jsv list \<times> jsv list) res" where
  "compare_mapping lc cp now s acc mapping =
     (let (affected, packages) = acc;
          relevant = relevant_to_mapping cp mapping;
          baseline = getMappedBaseline lc (cp_projectId cp) (oget mapping ''featureId'') s
      in
      if relevant \<noteq> []
      then Inr (affected @ [JObj (spread (props mapping)
        [(''changeIds'', JArr (ids_of relevant)), (''testSpecIds'', JArr (verifying_tests baseline mapping))])], packages)
      else
        let prior = prior_conformance lc cp baseline mapping;
            rebindings = map (rebind cp) (elems (oget mapping ''factRefs''))
        in if \<not> truthy prior \<or> None \<in> set rebindings then Inr acc
           else bnd (continuity_package cp now mapping prior (map the rebindings)) (\<lambda>package. Inr (affected, packages @ [package])))"

subsection \<open>The comparison\<close>

definition js_and :: "jsv \<Rightarrow> jsv \<Rightarrow> jsv" where
  "js_and a b = (if truthy a then b else a)"

definition comparison_request :: "string \<Rightarrow> jsv \<Rightarrow> (jsv \<times> jsv \<times> jsv) res" where
  "comparison_request projectId input =
     bnd (requireId (JStr projectId) ''projectId'') (\<lambda>_.
     bnd (require_input input ''change-set comparison input'') (\<lambda>_.
     bnd (assertOnlyFields input [''id'', ''fromSnapshotManifestId'', ''toSnapshotManifestId''] ''changeSet'') (\<lambda>_.
     bnd (requireId (oget input ''id'') ''changeSet.id'') (\<lambda>changeSetId.
     bnd (requireId (oget input ''fromSnapshotManifestId'') ''fromSnapshotManifestId'') (\<lambda>fromId.
     bnd (requireId (oget input ''toSnapshotManifestId'') ''toSnapshotManifestId'') (\<lambda>toId.
     throw_if (strict_eq fromId toId) (TypeErr ''fromSnapshotManifestId and toSnapshotManifestId must differ'')
       (Inr (changeSetId, fromId, toId))))))))"

definition compare_new_pair ::
  "(string \<Rightarrow> string \<Rightarrow> int) \<Rightarrow> int option \<Rightarrow> string \<Rightarrow> jsv \<Rightarrow> jsv \<Rightarrow> jsv \<Rightarrow> mapping_store \<Rightarrow> jsv res" where
  "compare_new_pair lc now projectId changeSetId fromId toId s =
     (let fromManifest = getSnapshotManifest projectId (js_string fromId) (ms_store s);
          toManifest = getSnapshotManifest projectId (js_string toId) (ms_store s)
      in
      bnd (getSnapshotFactGraph projectId fromId 100000 (ms_store s)) (\<lambda>fromGraph.
      bnd (getSnapshotFactGraph projectId toId 100000 (ms_store s)) (\<lambda>toGraph.
      throw_if (\<not> truthy fromManifest \<or> \<not> truthy toManifest) (ConflictErr ''Both Snapshot Manifests must exist in the project'') (
      bnd (compareFactGraphs lc fromGraph toGraph) (\<lambda>changes.
      bnd (createChangeSet (JObj
        [(''id'', changeSetId), (''fromSnapshotManifestId'', fromId), (''toSnapshotManifestId'', toId),
         (''complete'', js_and (oget fromManifest ''complete'') (js_and (oget toManifest ''complete'')
            (js_and (oget fromGraph ''complete'') (oget toGraph ''complete'')))),
         (''warnings'', JArr ((if truthy (oget fromGraph ''complete'') then [] else [JStr ''FROM_FACT_GRAPH_INCOMPLETE'']) @
            (if truthy (oget toGraph ''complete'') then [] else [JStr ''TO_FACT_GRAPH_INCOMPLETE'']))),
         (''changes'', JArr changes)]) now) (\<lambda>changeSet.
      let cp = \<lparr>cp_projectId = projectId, cp_changeSetId = changeSetId, cp_fromId = fromId, cp_toId = toId,
                cp_fromGraph = fromGraph, cp_toGraph = toGraph, cp_toManifest = toManifest, cp_changes = changes\<rparr>;
          mappings = filter (\<lambda>m. strict_eq (oget m ''snapshotManifestId'') fromId \<and> oget m ''status'' = JStr ''ACTIVE'')
            (listImplementationMappings projectId s)
      in
      bnd (foldR (compare_mapping lc cp now s) ([], []) mappings) (\<lambda>(affected, packages).
      bnd (createImpactAssessment (JObj
        [(''changeSet'', changeSet), (''affectedMappings'', JArr affected),
         (''continuities'', JArr (map (\<lambda>p. oget p ''continuity'') packages))]) now) (\<lambda>impact.
      Inr (JObj [(''changeSet'', changeSet), (''impact'', impact), (''continuities'', JArr packages)])))))))))"

definition app_compareAndPersistSnapshots ::
  "(string \<Rightarrow> string \<Rightarrow> int) \<Rightarrow> app_env \<Rightarrow> string \<Rightarrow> jsv \<Rightarrow> mapping_store \<Rightarrow> (mapping_store \<times> jsv) res" where
  "app_compareAndPersistSnapshots lc env projectId input s =
     bnd (comparison_request projectId input) (\<lambda>(changeSetId, fromId, toId).
     let existing = getChangeImpact projectId changeSetId s in
     if truthy existing
     then throw_if (\<not> strict_eq (oget (oget existing ''changeSet'') ''fromSnapshotManifestId'') fromId \<or>
              \<not> strict_eq (oget (oget existing ''changeSet'') ''toSnapshotManifestId'') toId)
            (ConflictErr (''ChangeSet '' @ js_string changeSetId @ '' already compares a different Snapshot pair'')) (Inr (s, existing))
     else bnd (compare_new_pair lc (ae_clock env) projectId changeSetId fromId toId s) (\<lambda>changeImpact.
          appendChangeImpact projectId changeImpact s))"

subsection \<open>Producers and keys\<close>

text \<open>
  The graphs of stored bundles: nodes and edges are JSON objects, named by non-empty strings. A node has
  a fact identifier, an edge has none of its own.
\<close>

definition fact_graph_ok :: "jsv \<Rightarrow> bool" where
  "fact_graph_ok g \<longleftrightarrow> object_list (oget g ''nodes'') \<and> object_list (oget g ''edges'') \<and>
     (\<forall>n\<in>set (elems (oget g ''nodes'')). is_string (oget n ''id'') \<and> is_string (oget n ''factId'') \<and> oget n ''factId'' \<noteq> JStr []) \<and>
     (\<forall>e\<in>set (elems (oget g ''edges'')). nullish (oget e ''factId'') \<and> oget e ''id'' \<noteq> JStr [] \<and>
        list_all (\<lambda>k. is_string (oget e k)) [''id'', ''subjectId'', ''predicate'', ''objectId''])"

text \<open>No two nodes and no two edges have the same key, so that the comparison sees each of them.\<close>

definition distinct_keys :: "jsv \<Rightarrow> bool" where
  "distinct_keys g \<longleftrightarrow> distinct (map nodeKey (elems (oget g ''nodes''))) \<and> distinct (map edgeKey (elems (oget g ''edges'')))"

lemma elem_at_set: "elem_at xs k = Some x \<Longrightarrow> x \<in> set xs"
  by (auto simp: elem_at_def split: option.splits if_splits)

lemma json_oget: "json_value v \<Longrightarrow> oget v k = JUndef \<or> json_value (oget v k)"
  by (cases v) (auto simp: oget_def dest: elem_at_set map_of_SomeD split: option.splits)

lemma json_or_null: "json_value v \<Longrightarrow> json_value (coalesce (oget (oget v a) b) JNull)"
  using json_oget [of v a] json_oget [of "oget v a" b]
  by (cases "oget v a = JUndef") (auto simp: coalesce_def simp del: oget_simps split: if_splits, simp)

lemma same_json_str: "same_json (JStr s) w \<longleftrightarrow> w = JStr s"
  by simp

lemma canonical_text_objects:
  assumes "json_value (JObj fs)" "json_value (JObj gs)"
  shows "canonical_text (JObj fs) = canonical_text (JObj gs) \<longleftrightarrow> same_json (JObj fs) (JObj gs)"
  using assms by (rule canonical_text_eq_iff)

text \<open>Two nodes have one producer exactly when they have one key; the same for edges; a node and an edge never.\<close>

lemma node_producer_key:
  assumes "json_value x" "json_value y" "is_plain_object x" "is_plain_object y" "is_string (oget x ''id'')" "is_string (oget y ''id'')"
  shows "node_producer x = node_producer y \<longleftrightarrow> nodeKey x = nodeKey y"
proof -
  obtain i j where ij: "oget x ''id'' = JStr i" "oget y ''id'' = JStr j" using assms(5,6) by (auto simp: is_string_iff)
  have p: "pget x k = Inr (oget x k)" "pget y k = Inr (oget y k)" for k using assms(3,4) by (auto simp: is_plain_object_iff)
  note j = json_or_null [OF assms(1), of "''extractor''" "''id''"] json_or_null [OF assms(2), of "''extractor''" "''id''"]
  show ?thesis
    unfolding node_producer_def nodeKey_def p bnd_simps sum.inject ij
    by (subst (1 2) canonical_text_objects) (simp_all add: j del: oget_simps)
qed

lemma edge_producer_key:
  assumes "json_value x" "json_value y" "is_plain_object x" "is_plain_object y"
    "list_all (\<lambda>k. is_string (oget x k)) [''id'', ''subjectId'', ''predicate'', ''objectId'']"
    "list_all (\<lambda>k. is_string (oget y k)) [''id'', ''subjectId'', ''predicate'', ''objectId'']"
  shows "edge_producer x = edge_producer y \<longleftrightarrow> edgeKey x = edgeKey y"
proof -
  obtain a b c where x: "oget x ''subjectId'' = JStr a" "oget x ''predicate'' = JStr b" "oget x ''objectId'' = JStr c"
    using assms(5) by (auto simp: is_string_iff simp del: oget_simps)
  obtain a' b' c' where y: "oget y ''subjectId'' = JStr a'" "oget y ''predicate'' = JStr b'" "oget y ''objectId'' = JStr c'"
    using assms(6) by (auto simp: is_string_iff simp del: oget_simps)
  have p: "pget x k = Inr (oget x k)" "pget y k = Inr (oget y k)" for k using assms(3,4) by (auto simp: is_plain_object_iff)
  note j = json_or_null [OF assms(1), of "''extractor''" "''id''"] json_or_null [OF assms(2), of "''extractor''" "''id''"]
  show ?thesis
    unfolding edge_producer_def edgeKey_def p bnd_simps sum.inject x y
    by (subst (1 2) canonical_text_objects) (simp_all add: j del: oget_simps)
qed

lemma node_edge_producer:
  assumes "json_value x" "json_value y" "is_string (oget x ''id'')"
    "list_all (\<lambda>k. is_string (oget y k)) [''id'', ''subjectId'', ''predicate'', ''objectId'']"
  shows "node_producer x \<noteq> edge_producer y"
proof -
  obtain i where i: "oget x ''id'' = JStr i" using assms(3) by (auto simp: is_string_iff)
  obtain a b c where y: "oget y ''subjectId'' = JStr a" "oget y ''predicate'' = JStr b" "oget y ''objectId'' = JStr c"
    using assms(4) by (auto simp: is_string_iff simp del: oget_simps)
  note j = json_or_null [OF assms(1), of "''extractor''" "''id''"] json_or_null [OF assms(2), of "''extractor''" "''id''"]
  show ?thesis
    unfolding node_producer_def edge_producer_def i y
    by (subst canonical_text_objects) (simp_all add: j del: oget_simps)
qed

lemma map_of_js_map_Some: "map_of (js_map es) k = Some v \<Longrightarrow> (k, v) \<in> set es"
  by (auto simp: map_of_js_map dest: map_of_SomeD)

lemma find_SomeD': "find P xs = Some z \<Longrightarrow> P z \<and> z \<in> set xs"
  by (induction xs) (auto split: if_splits)

text \<open>With distinct keys the entity under the key of an element is that element.\<close>

lemma entity_with_distinct:
  assumes "distinct (map key (elems v))" "x \<in> set (elems v)" "key x = Inr k"
  shows "entity_with key v k = Some x"
proof -
  have "find (\<lambda>x. key x = Inr k) (rev (elems v)) \<noteq> None"
    using assms(2,3) unfolding find_None_iff set_rev by (intro notI) simp
  then obtain z where z: "find (\<lambda>x. key x = Inr k) (rev (elems v)) = Some z" by (elim not_None_eq [THEN iffD1, THEN exE])
  from find_SomeD' [OF this] have zv: "key z = Inr k" "z \<in> set (elems v)" by simp_all
  have "inj_on key (set (elems v))" using assms(1) by (simp add: distinct_map)
  from inj_onD [OF this _ zv(2) assms(2)] zv(1) assms(3) have "z = x" by simp
  with z show ?thesis by (simp add: entity_with_def)
qed

text \<open>The last entry of a producer is the last entity with the key.\<close>

lemma last_with_producer:
  assumes "map_of (js_map (map (\<lambda>x. (producer x, g x, x)) xs @ other)) k = Some (i, y)"
    and "k \<notin> fst ` set other"
  shows "find (\<lambda>x. producer x = k) (rev xs) = Some y \<and> i = g y"
proof -
  have "map_of (rev other) k = None" using assms(2) by (simp add: map_of_eq_None_iff)
  with assms(1) have "map_of (rev (map (\<lambda>x. (producer x, g x, x)) xs)) k = Some (i, y)"
    by (simp add: map_of_js_map map_add_def split: option.splits)
  then have "map_of (map (\<lambda>x. (producer x, g x, x)) (rev xs)) k = Some (i, y)" by (simp add: rev_map)
  moreover have "map_of (map (\<lambda>x. (producer x, g x, x)) ys) k = Some (i, y) \<Longrightarrow> find (\<lambda>x. producer x = k) ys = Some y \<and> i = g y" for ys
    by (induction ys) (auto split: if_splits)
  ultimately show ?thesis by blast
qed

lemma fact_graph_ok_node:
  assumes "fact_graph_ok g" "n \<in> set (elems (oget g ''nodes''))"
  shows "is_plain_object n" "json_value n" "is_string (oget n ''id'')" "is_string (oget n ''factId'')" "oget n ''factId'' \<noteq> JStr []"
proof -
  have o: "\<forall>n\<in>set (elems (oget g ''nodes'')). is_plain_object n \<and> json_value n"
    and p: "\<forall>n\<in>set (elems (oget g ''nodes'')). is_string (oget n ''id'') \<and> is_string (oget n ''factId'') \<and> oget n ''factId'' \<noteq> JStr []"
    using assms(1) unfolding fact_graph_ok_def object_list_def list_all_iff by iprover+
  from bspec [OF o assms(2)] show "is_plain_object n" "json_value n" by iprover+
  from bspec [OF p assms(2)] show "is_string (oget n ''id'')" "is_string (oget n ''factId'')" "oget n ''factId'' \<noteq> JStr []"
    by iprover+
qed

lemma fact_graph_ok_edge:
  assumes "fact_graph_ok g" "e \<in> set (elems (oget g ''edges''))"
  shows "is_plain_object e" "json_value e" "nullish (oget e ''factId'')" "oget e ''id'' \<noteq> JStr []"
    "list_all (\<lambda>k. is_string (oget e k)) [''id'', ''subjectId'', ''predicate'', ''objectId'']"
proof -
  have o: "\<forall>e\<in>set (elems (oget g ''edges'')). is_plain_object e \<and> json_value e"
    using assms(1) unfolding fact_graph_ok_def object_list_def list_all_iff by iprover
  have p: "\<forall>e\<in>set (elems (oget g ''edges'')). nullish (oget e ''factId'') \<and> oget e ''id'' \<noteq> JStr [] \<and>
      list_all (\<lambda>k. is_string (oget e k)) [''id'', ''subjectId'', ''predicate'', ''objectId'']"
    using assms(1) unfolding fact_graph_ok_def by (elim conjE)
  from bspec [OF o assms(2)] show "is_plain_object e" "json_value e" by iprover+
  from bspec [OF p assms(2)] show "nullish (oget e ''factId'')" "oget e ''id'' \<noteq> JStr []"
    "list_all (\<lambda>k. is_string (oget e k)) [''id'', ''subjectId'', ''predicate'', ''objectId'']"
    by iprover+
qed

lemma record_before: "oget (changeRecord kind ty i b a t) ''beforeFactId'' = entity_fact_id b"
  by (simp add: changeRecord_def Let_def)

lemma coalesce_string: "is_string v \<Longrightarrow> coalesce v w = v" "nullish v \<Longrightarrow> coalesce v w = w"
  by (auto simp: is_string_iff coalesce_def)

lemma edge_id_string: "list_all (\<lambda>k. is_string (oget e k)) [''id'', ''subjectId'', ''predicate'', ''objectId''] \<Longrightarrow> is_string (oget e ''id'')"
  by (simp del: oget_simps)

lemma fact_graph_ok_lists: "fact_graph_ok g \<Longrightarrow> object_list (oget g ''nodes'')" "fact_graph_ok g \<Longrightarrow> object_list (oget g ''edges'')"
  by (simp_all only: fact_graph_ok_def)

text \<open>An unchanged fact: no record of the comparison names it as what was before.\<close>

lemma unchanged_node:
  assumes cmp: "compareFactGraphs lc g h = Inr changes" and ok: "fact_graph_ok g" "fact_graph_ok h" and dk: "distinct_keys g"
    and x: "x \<in> set (elems (oget g ''nodes''))" and no: "\<forall>c\<in>set changes. oget c ''beforeFactId'' \<noteq> oget x ''factId''"
    and y: "find (\<lambda>y. node_producer y = node_producer x) (rev (elems (oget h ''nodes''))) = Some y"
  shows "same_json (semanticNode x) (semanticNode y)"
proof (rule ccontr)
  assume diff: "\<not> same_json (semanticNode x) (semanticNode y)"
  note nx = fact_graph_ok_node [OF ok(1) x]
  obtain k where k: "nodeKey x = Inr k" using nx(1) by (auto simp: nodeKey_def is_plain_object_iff)
  have gx: "entity_with nodeKey (oget g ''nodes'') k = Some x"
    using dk x k unfolding distinct_keys_def by (elim conjE) (rule entity_with_distinct)
  have "find (\<lambda>z. nodeKey z = Inr k) ys = find (\<lambda>z. node_producer z = node_producer x) ys" if "set ys \<subseteq> set (elems (oget h ''nodes''))" for ys
    using that
  proof (induction ys)
    case (Cons z ys)
    then have z: "z \<in> set (elems (oget h ''nodes''))" by simp
    note nz = fact_graph_ok_node [OF ok(2) z]
    from node_producer_key [OF nz(2) nx(2) nz(1) nx(1) nz(3) nx(3)] Cons show ?case by (simp add: k)
  qed simp
  from this [of "rev (elems (oget h ''nodes''))"] y have hy: "entity_with nodeKey (oget h ''nodes'') k = Some y"
    by (simp add: entity_with_def)
  from find_SomeD' [OF y] have "y \<in> set (elems (oget h ''nodes''))" by simp
  from fact_graph_ok_node(1) [OF ok(2) this] obtain t where t: "changeTypeForNode y = Inr t" using change_types_total(1) by blast
  let ?c = "changeRecord ''MODIFIED'' ''NODE'' (node_stable_id k x y) x y t"
  have "?c \<in> entity_delta ''NODE'' changeTypeForNode semanticNode (node_stable_id k)
      (entity_with nodeKey (oget g ''nodes'') k) (entity_with nodeKey (oget h ''nodes'') k)"
    unfolding gx hy entity_delta_def prod.case option.case if_not_P [OF diff] mem_Collect_eq using t by iprover
  then have "?c \<in> set changes"
    unfolding comparison_differences [OF cmp fact_graph_ok_lists(1) [OF ok(1)] fact_graph_ok_lists(1) [OF ok(2)]
      fact_graph_ok_lists(2) [OF ok(1)] fact_graph_ok_lists(2) [OF ok(2)], THEN conjunct1] by blast
  moreover have "oget ?c ''beforeFactId'' = oget x ''factId''"
    unfolding record_before entity_fact_id_def by (rule coalesce_string(1) [OF nx(4)])
  ultimately show False using no by blast
qed

lemma unchanged_edge:
  assumes cmp: "compareFactGraphs lc g h = Inr changes" and ok: "fact_graph_ok g" "fact_graph_ok h" and dk: "distinct_keys g"
    and x: "x \<in> set (elems (oget g ''edges''))" and no: "\<forall>c\<in>set changes. oget c ''beforeFactId'' \<noteq> oget x ''id''"
    and y: "find (\<lambda>y. edge_producer y = edge_producer x) (rev (elems (oget h ''edges''))) = Some y"
  shows "same_json (semanticEdge x) (semanticEdge y)"
proof (rule ccontr)
  assume diff: "\<not> same_json (semanticEdge x) (semanticEdge y)"
  note nx = fact_graph_ok_edge [OF ok(1) x]
  obtain k where k: "edgeKey x = Inr k" using nx(1) by (auto simp: edgeKey_def is_plain_object_iff)
  have gx: "entity_with edgeKey (oget g ''edges'') k = Some x"
    using dk x k unfolding distinct_keys_def by (elim conjE) (rule entity_with_distinct)
  have "find (\<lambda>z. edgeKey z = Inr k) ys = find (\<lambda>z. edge_producer z = edge_producer x) ys" if "set ys \<subseteq> set (elems (oget h ''edges''))" for ys
    using that
  proof (induction ys)
    case (Cons z ys)
    then have z: "z \<in> set (elems (oget h ''edges''))" by simp
    note nz = fact_graph_ok_edge [OF ok(2) z]
    from edge_producer_key [OF nz(2) nx(2) nz(1) nx(1) nz(5) nx(5)] Cons show ?case by (simp add: k)
  qed simp
  from this [of "rev (elems (oget h ''edges''))"] y have hy: "entity_with edgeKey (oget h ''edges'') k = Some y"
    by (simp add: entity_with_def)
  from find_SomeD' [OF y] have "y \<in> set (elems (oget h ''edges''))" by simp
  from fact_graph_ok_edge(1) [OF ok(2) this] obtain t where t: "changeTypeForEdge y = Inr t" using change_types_total(2) by blast
  let ?c = "changeRecord ''MODIFIED'' ''EDGE'' (edge_stable_id k x y) x y t"
  have "?c \<in> entity_delta ''EDGE'' changeTypeForEdge semanticEdge (edge_stable_id k)
      (entity_with edgeKey (oget g ''edges'') k) (entity_with edgeKey (oget h ''edges'') k)"
    unfolding gx hy entity_delta_def prod.case option.case if_not_P [OF diff] mem_Collect_eq using t by iprover
  then have "?c \<in> set changes"
    unfolding comparison_differences [OF cmp fact_graph_ok_lists(1) [OF ok(1)] fact_graph_ok_lists(1) [OF ok(2)]
      fact_graph_ok_lists(2) [OF ok(1)] fact_graph_ok_lists(2) [OF ok(2)], THEN conjunct1] by blast
  moreover have "oget ?c ''beforeFactId'' = oget x ''id''"
    unfolding record_before entity_fact_id_def coalesce_string(2) [OF nx(3)] by (rule coalesce_string(1) [OF edge_id_string [OF nx(5)]])
  ultimately show False using no by blast
qed

subsection \<open>What is carried over\<close>

text \<open>The two ends of a rebinding are facts of the two graphs with the same content.\<close>

definition same_fact :: "jsv \<Rightarrow> jsv \<Rightarrow> jsv \<Rightarrow> bool" where
  "same_fact g h b \<longleftrightarrow>
     (\<exists>x\<in>set (elems (oget g ''nodes'')). \<exists>y\<in>set (elems (oget h ''nodes'')).
        oget x ''factId'' = oget b ''fromFactId'' \<and> oget y ''factId'' = oget b ''toFactId'' \<and> same_json (semanticNode x) (semanticNode y)) \<or>
     (\<exists>x\<in>set (elems (oget g ''edges'')). \<exists>y\<in>set (elems (oget h ''edges'')).
        oget x ''id'' = oget b ''fromFactId'' \<and> oget y ''id'' = oget b ''toFactId'' \<and> same_json (semanticEdge x) (semanticEdge y))"

lemma js_map_is_Nil: "js_map es = [] \<longleftrightarrow> es = []"
  using keys_js_map [of es] by auto

lemma no_direct_change:
  assumes "relevant_to_mapping cp mapping = []" "ref \<in> set (elems (oget mapping ''factRefs''))" "truthy (oget ref ''factId'')"
  shows "\<forall>c\<in>set (cp_changes cp). oget c ''beforeFactId'' \<noteq> oget ref ''factId''"
proof (rule ballI, rule notI)
  fix c assume c: "c \<in> set (cp_changes cp)" "oget c ''beforeFactId'' = oget ref ''factId''"
  have "List.map_filter (map_of (changed_before (cp_changes cp))) (map (\<lambda>r. oget r ''factId'') (elems (oget mapping ''factRefs''))) = []"
    using assms(1) unfolding relevant_to_mapping_def Let_def map_is_Nil_conv js_map_is_Nil by (simp only: append_is_Nil_conv)
  then have "map_of (changed_before (cp_changes cp)) (oget ref ''factId'') = None"
    using assms(2) unfolding List.map_filter_def map_is_Nil_conv filter_empty_conv by (simp del: oget_simps)
  then have "oget ref ''factId'' \<notin> set (map fst (changed_before (cp_changes cp)))" by (simp only: map_of_eq_None_iff set_map not_False_eq_True)
  then have "oget ref ''factId'' \<notin> fst ` set (map (\<lambda>c. (oget c ''beforeFactId'', c)) (filter (\<lambda>c. truthy (oget c ''beforeFactId'')) (cp_changes cp)))"
    unfolding changed_before_def keys_js_map .
  with c assms(3) show False by force
qed

lemma rebind_same_fact:
  assumes cmp: "compareFactGraphs lc (cp_fromGraph cp) (cp_toGraph cp) = Inr (cp_changes cp)"
    and ok: "fact_graph_ok (cp_fromGraph cp)" "fact_graph_ok (cp_toGraph cp)" and dk: "distinct_keys (cp_fromGraph cp)"
    and no: "relevant_to_mapping cp mapping = []" and ref: "ref \<in> set (elems (oget mapping ''factRefs''))"
    and b: "rebind cp ref = Some b"
  shows "same_fact (cp_fromGraph cp) (cp_toGraph cp) b"
proof -
  let ?g = "cp_fromGraph cp" and ?h = "cp_toGraph cp" and ?fid = "oget ref ''factId''"
  let ?en = "map (\<lambda>n. (node_producer n, oget n ''factId'', n)) (elems (oget ?h ''nodes''))"
  let ?ee = "map (\<lambda>e. (edge_producer e, oget e ''id'', e)) (elems (oget ?h ''edges''))"
  from b obtain pr i y where pr: "map_of (by_fact_id ?g) ?fid = Some pr" and iy: "map_of (by_stable_producer ?h) pr = Some (i, y)"
    and b': "b = JObj [(''fromFactId'', ?fid), (''toFactId'', i), (''relation'', oget ref ''relation'')]"
    unfolding rebind_def by (auto simp del: oget_simps split: option.splits)
  have bm: "oget b ''fromFactId'' = ?fid" "oget b ''toFactId'' = i" by (simp_all add: b')
  from map_of_js_map_Some [OF pr [unfolded by_fact_id_def]]
  have "(\<exists>x\<in>set (elems (oget ?g ''nodes'')). oget x ''factId'' = ?fid \<and> pr = node_producer x) \<or>
      (\<exists>x\<in>set (elems (oget ?g ''edges'')). oget x ''id'' = ?fid \<and> pr = edge_producer x)"
    by (simp only: set_append set_map Un_iff image_iff prod.inject) (elim disjE bexE conjE; simp only:; blast)
  then show ?thesis
  proof (elim disjE bexE conjE)
    fix x assume x: "x \<in> set (elems (oget ?g ''nodes''))" "oget x ''factId'' = ?fid" "pr = node_producer x"
    note nx = fact_graph_ok_node [OF ok(1) x(1)]
    have "pr \<notin> fst ` set ?ee"
    proof
      assume "pr \<in> fst ` set ?ee"
      then obtain e where e: "e \<in> set (elems (oget ?h ''edges''))" "pr = edge_producer e" by auto
      note ne = fact_graph_ok_edge [OF ok(2) e(1)]
      from node_edge_producer [OF nx(2) ne(2) nx(3) ne(5)] e(2) x(3) show False by simp
    qed
    from last_with_producer [OF iy [unfolded by_stable_producer_def] this]
    have y: "find (\<lambda>y. node_producer y = node_producer x) (rev (elems (oget ?h ''nodes''))) = Some y" "i = oget y ''factId''"
      by (simp_all only: x(3))
    have t: "truthy ?fid" using nx(4,5) x(2) by (auto simp: is_string_iff)
    have "same_json (semanticNode x) (semanticNode y)"
      by (rule unchanged_node [OF cmp ok dk x(1) _ y(1)]) (use no_direct_change [OF no ref t] x(2) in simp)
    moreover have "y \<in> set (elems (oget ?h ''nodes''))" using find_SomeD' [OF y(1)] by simp
    ultimately show ?thesis
      unfolding same_fact_def bm y(2) using x(1,2) by (intro disjI1 bexI [of _ x] bexI [of _ y] conjI refl)
  next
    fix x assume x: "x \<in> set (elems (oget ?g ''edges''))" "oget x ''id'' = ?fid" "pr = edge_producer x"
    note nx = fact_graph_ok_edge [OF ok(1) x(1)]
    have "pr \<notin> fst ` set ?en"
    proof
      assume "pr \<in> fst ` set ?en"
      then obtain n where n: "n \<in> set (elems (oget ?h ''nodes''))" "pr = node_producer n" by auto
      note nn = fact_graph_ok_node [OF ok(2) n(1)]
      from node_edge_producer [OF nn(2) nx(2) nn(3) nx(5)] n(2) x(3) show False by simp
    qed
    then have "map_of (rev ?en) pr = None" by (simp only: map_of_eq_None_iff set_rev not_False_eq_True)
    with iy have "map_of (js_map ?ee) pr = Some (i, y)"
      unfolding by_stable_producer_def map_of_js_map rev_append map_of_append map_add_Some_iff by (simp only: option.distinct simp_thms)
    from last_with_producer [of edge_producer "\<lambda>e. oget e ''id''" "elems (oget ?h ''edges'')" "[]" pr i y] this
    have y: "find (\<lambda>y. edge_producer y = edge_producer x) (rev (elems (oget ?h ''edges''))) = Some y" "i = oget y ''id''"
      by (simp_all only: x(3) append_Nil2 list.set image_empty empty_iff not_False_eq_True simp_thms)
    have t: "truthy ?fid" using edge_id_string [OF nx(5)] nx(4) x(2) by (auto simp: is_string_iff)
    have "same_json (semanticEdge x) (semanticEdge y)"
      by (rule unchanged_edge [OF cmp ok dk x(1) _ y(1)]) (use no_direct_change [OF no ref t] x(2) in simp)
    moreover have "y \<in> set (elems (oget ?h ''edges''))" using find_SomeD' [OF y(1)] by simp
    ultimately show ?thesis
      unfolding same_fact_def bm y(2) using x(1,2) by (intro disjI2 bexI [of _ x] bexI [of _ y] conjI refl)
  qed
qed

text \<open>A continuity keeps the ends of the rebindings it is created from.\<close>

definition continuity_bindings :: "jsv \<Rightarrow> jsv list" where
  "continuity_bindings package = elems (oget (oget package ''continuity'') ''factRefRebindings'')"

lemma rebinding_members:
  assumes "rebinding i item = Inr b"
  shows "oget b ''fromFactId'' = oget item ''fromFactId''" "oget b ''toFactId'' = oget item ''toFactId''"
  using mk_obj_member [OF assms [unfolded rebinding_def Let_def], of "''fromFactId''"]
    mk_obj_member [OF assms [unfolded rebinding_def Let_def], of "''toFactId''"]
  by (simp_all add: requireNonEmptyString_Inr del: oget_simps)

lemma same_fact_cong:
  "oget b ''fromFactId'' = oget b' ''fromFactId'' \<Longrightarrow> oget b ''toFactId'' = oget b' ''toFactId'' \<Longrightarrow> same_fact g h b \<longleftrightarrow> same_fact g h b'"
  by (simp only: same_fact_def)

lemma createImplementationContinuity_bindings:
  assumes "createImplementationContinuity input = Inr c"
  shows "\<exists>bs. mapiR rebinding 0 (elems (oget input ''factRefRebindings'')) = Inr bs \<and> oget c ''factRefRebindings'' = JArr bs"
proof -
  from assms obtain bs es where bs: "mapiR rebinding 0 (elems (oget input ''factRefRebindings'')) = Inr bs"
    and es: "mk_obj es = Inr c" "map_of es ''factRefRebindings'' = Some (Inr (JArr bs))"
    unfolding createImplementationContinuity_def Let_def
    apply (simp only: throw_if_eq_Inr bnd_eq_Inr)
    apply (elim exE conjE)
    apply (rule that)
      apply assumption
     apply assumption
    apply simp
    done
  from mk_obj_member [OF es] bs show ?thesis by simp
qed

lemma continuity_package_bindings:
  assumes "continuity_package cp now mapping prior rs = Inr package" "b \<in> set (continuity_bindings package)"
  shows "\<exists>r\<in>set rs. oget b ''fromFactId'' = oget r ''fromFactId'' \<and> oget b ''toFactId'' = oget r ''toFactId''"
proof -
  from assms(1) obtain input c m f where c: "createImplementationContinuity input = Inr c" "oget input ''factRefRebindings'' = JArr rs"
    and package: "package = JObj [(''continuity'', c), (''implementationMapping'', m), (''conformance'', f)]"
    unfolding continuity_package_def Let_def bnd_eq_Inr sum.inject
    apply (elim exE conjE)
    apply (rule that)
      apply assumption
     apply simp
    apply (erule sym)
    done
  from createImplementationContinuity_bindings [OF c(1)] obtain bs where
    bs: "mapiR rebinding 0 rs = Inr bs" "oget c ''factRefRebindings'' = JArr bs" unfolding c(2) elems.simps by (elim exE conjE)
  have "b \<in> set bs" using assms(2) by (simp add: continuity_bindings_def package bs(2) del: oget_simps) (simp add: bs(2))
  from mapiR_in_set [OF bs(1) this] obtain j r where "r \<in> set rs" "rebinding j r = Inr b" by (elim exE conjE)
  with rebinding_members show ?thesis by blast
qed

lemma compare_mapping_bindings:
  assumes cmp: "compareFactGraphs lc (cp_fromGraph cp) (cp_toGraph cp) = Inr (cp_changes cp)"
    and ok: "fact_graph_ok (cp_fromGraph cp)" "fact_graph_ok (cp_toGraph cp)" and dk: "distinct_keys (cp_fromGraph cp)"
    and acc: "\<forall>package\<in>set (snd acc). \<forall>b\<in>set (continuity_bindings package). same_fact (cp_fromGraph cp) (cp_toGraph cp) b"
    and run: "compare_mapping lc' cp now s acc mapping = Inr acc'"
  shows "\<forall>package\<in>set (snd acc'). \<forall>b\<in>set (continuity_bindings package). same_fact (cp_fromGraph cp) (cp_toGraph cp) b"
proof (cases "relevant_to_mapping cp mapping = []")
  case False
  with run acc show ?thesis by (auto simp: compare_mapping_def Let_def split: prod.splits simp del: oget_simps)
next
  case True
  let ?rs = "map (rebind cp) (elems (oget mapping ''factRefs''))"
  obtain affected packages where acc_eq: "acc = (affected, packages)" by (cases acc)
  show ?thesis
  proof (cases "\<not> truthy (prior_conformance lc' cp (getMappedBaseline lc' (cp_projectId cp) (oget mapping ''featureId'') s) mapping) \<or> None \<in> set ?rs")
    case stop: True
    have "acc' = acc"
      using run unfolding compare_mapping_def acc_eq Let_def prod.case True simp_thms if_False if_P [OF stop] by simp
    with acc show ?thesis by simp
  next
    case go: False
    then obtain package where p: "continuity_package cp now mapping (prior_conformance lc' cp
          (getMappedBaseline lc' (cp_projectId cp) (oget mapping ''featureId'') s) mapping) (map the ?rs) = Inr package"
      "acc' = (affected, packages @ [package])"
      using run unfolding compare_mapping_def acc_eq Let_def prod.case True simp_thms if_False if_not_P [OF go] bnd_eq_Inr sum.inject
      by (elim exE conjE) (rule that, assumption, erule sym)
    have "same_fact (cp_fromGraph cp) (cp_toGraph cp) b" if b: "b \<in> set (continuity_bindings package)" for b
    proof -
      from continuity_package_bindings [OF p(1) b] obtain r where r: "r \<in> the ` set ?rs"
        "oget b ''fromFactId'' = oget r ''fromFactId''" "oget b ''toFactId'' = oget r ''toFactId''" by (auto simp del: oget_simps)
      from r(1) obtain ref where ref: "ref \<in> set (elems (oget mapping ''factRefs''))" "r = the (rebind cp ref)"
        by (auto simp del: oget_simps)
      have "rebind cp ref \<in> set ?rs" using ref(1) by simp
      with go have "rebind cp ref \<noteq> None" by metis
      then have "rebind cp ref = Some r" by (simp add: ref(2))
      from rebind_same_fact [OF cmp ok dk True ref(1) this] show ?thesis unfolding same_fact_cong [OF r(2,3)] .
    qed
    with acc p(2) show ?thesis by (simp add: acc_eq)
  qed
qed

lemma createChangeSet_id: "createChangeSet input now = Inr c \<Longrightarrow> oget c ''id'' = oget input ''id''"
proof -
  assume "createChangeSet input now = Inr c"
  then obtain es where "mk_obj es = Inr c" "map_of es ''id'' = Some (requireNonEmptyString (oget input ''id'') ''changeSet.id'')"
    unfolding createChangeSet_def
    apply (simp only: throw_if_eq_Inr bnd_eq_Inr)
    apply (elim exE conjE)
    apply (rule that)
     apply assumption
    apply simp
    done
  from mk_obj_member [OF this] show ?thesis by (simp add: requireNonEmptyString_Inr)
qed

lemma compare_new_pair_run:
  assumes "compare_new_pair lc now p csId fromId toId s = Inr v"
  obtains g h changes affected packages m where
    "getSnapshotFactGraph p fromId 100000 (ms_store s) = Inr g" "getSnapshotFactGraph p toId 100000 (ms_store s) = Inr h"
    "compareFactGraphs lc g h = Inr changes"
    "foldR (compare_mapping lc \<lparr>cp_projectId = p, cp_changeSetId = csId, cp_fromId = fromId, cp_toId = toId,
                cp_fromGraph = g, cp_toGraph = h, cp_toManifest = m, cp_changes = changes\<rparr> now s) ([], [])
       (filter (\<lambda>m. strict_eq (oget m ''snapshotManifestId'') fromId \<and>
       oget m ''status'' = JStr ''ACTIVE'') (listImplementationMappings p s)) = Inr (affected, packages)"
    "oget v ''continuities'' = JArr packages" "oget (oget v ''changeSet'') ''id'' = csId"
proof -
  from assms obtain g h changes affected packages c i where r:
    "getSnapshotFactGraph p fromId 100000 (ms_store s) = Inr g" "getSnapshotFactGraph p toId 100000 (ms_store s) = Inr h"
    "compareFactGraphs lc g h = Inr changes"
    "foldR (compare_mapping lc \<lparr>cp_projectId = p, cp_changeSetId = csId, cp_fromId = fromId, cp_toId = toId,
                cp_fromGraph = g, cp_toGraph = h, cp_toManifest = getSnapshotManifest p (js_string toId) (ms_store s), cp_changes = changes\<rparr> now s) ([], [])
       (filter (\<lambda>m. strict_eq (oget m ''snapshotManifestId'') fromId \<and>
       oget m ''status'' = JStr ''ACTIVE'') (listImplementationMappings p s)) = Inr (affected, packages)"
    and c: "\<exists>rest. createChangeSet (JObj ((''id'', csId) # rest)) now = Inr c"
    and v: "JObj [(''changeSet'', c), (''impact'', i), (''continuities'', JArr packages)] = v"
    unfolding compare_new_pair_def Let_def throw_if_eq_Inr bnd_eq_Inr split_paired_Ex prod.case sum.inject
    apply (elim exE conjE)
    apply (rule that)
         apply assumption
        apply assumption
       apply assumption
      apply assumption
     apply (rule exI)
     apply assumption
    apply assumption
    done
  from c have "oget c ''id'' = csId" by (auto dest: createChangeSet_id)
  then have "oget v ''continuities'' = JArr packages" "oget (oget v ''changeSet'') ''id'' = csId" by (simp_all add: v [symmetric] del: oget_simps) (simp_all)
  from that [OF r this] show ?thesis .
qed

lemma comparison_bindings:
  assumes run: "compare_new_pair lc now p csId fromId toId s = Inr v"
    and g: "getSnapshotFactGraph p fromId 100000 (ms_store s) = Inr g" "getSnapshotFactGraph p toId 100000 (ms_store s) = Inr h"
    and ok: "fact_graph_ok g" "fact_graph_ok h" "distinct_keys g"
    and b: "package \<in> set (elems (oget v ''continuities''))" "b \<in> set (continuity_bindings package)"
  shows "same_fact g h b"
using run
proof (rule compare_new_pair_run, goal_cases)
  case (1 g' h' changes affected packages m)
  define cp where "cp = \<lparr>cp_projectId = p, cp_changeSetId = csId, cp_fromId = fromId, cp_toId = toId,
                cp_fromGraph = g', cp_toGraph = h', cp_toManifest = m, cp_changes = changes\<rparr>"
  have gh: "cp_fromGraph cp = g" "cp_toGraph cp = h" using g 1(1,2) by (simp_all add: cp_def)
  have cmp: "compareFactGraphs lc (cp_fromGraph cp) (cp_toGraph cp) = Inr (cp_changes cp)" using 1(3) by (simp add: cp_def)
  let ?I = "\<lambda>acc. \<forall>package\<in>set (snd acc). \<forall>b\<in>set (continuity_bindings package). same_fact (cp_fromGraph cp) (cp_toGraph cp) b"
  have "?I (affected, packages)"
  proof (rule foldR_invariant [OF 1(4) [folded cp_def]])
    show "?I ([], [])" by simp
    show "?I acc'" if "?I acc" "compare_mapping lc cp now s acc m = Inr acc'" for acc m acc'
      by (rule compare_mapping_bindings [OF cmp _ _ _ that]) (simp_all only: gh ok)
  qed
  with b 1(5) show ?case unfolding gh by (simp del: oget_simps)
qed

text \<open>
  C12: a comparison carries the conformance of a mapping over to the new snapshot only for unchanged facts:
  when the fact graphs are well formed and no two nodes or edges of the old one have the same key, each
  rebinding of each continuity it stores joins two nodes, or two edges, whose content is structurally the same.
\<close>

theorem continuity_only_for_identical_facts:
  assumes "app_compareAndPersistSnapshots lc env p input s = Inr (s', r)"
    and "\<not> truthy (getChangeImpact p (oget input ''id'') s)"
    and "getSnapshotFactGraph p (oget input ''fromSnapshotManifestId'') 100000 (ms_store s) = Inr g"
    and "getSnapshotFactGraph p (oget input ''toSnapshotManifestId'') 100000 (ms_store s) = Inr h"
    and "fact_graph_ok g" "fact_graph_ok h" "distinct_keys g"
    and "package \<in> set (elems (oget r ''continuities''))" "b \<in> set (continuity_bindings package)"
  shows "same_fact g h b"
proof -
  from assms(1) obtain cs f t where req: "comparison_request p input = Inr (cs, f, t)"
    and rest: "(let existing = getChangeImpact p cs s in
     if truthy existing
     then throw_if (\<not> strict_eq (oget (oget existing ''changeSet'') ''fromSnapshotManifestId'') f \<or>
              \<not> strict_eq (oget (oget existing ''changeSet'') ''toSnapshotManifestId'') t)
            (ConflictErr (''ChangeSet '' @ js_string cs @ '' already compares a different Snapshot pair'')) (Inr (s, existing))
     else bnd (compare_new_pair lc (ae_clock env) p cs f t s) (\<lambda>changeImpact. appendChangeImpact p changeImpact s)) = Inr (s', r)"
    unfolding app_compareAndPersistSnapshots_def bnd_eq_Inr split_paired_Ex prod.case by (elim exE conjE)
  have ids: "cs = oget input ''id''" "f = oget input ''fromSnapshotManifestId''" "t = oget input ''toSnapshotManifestId''"
    using req unfolding comparison_request_def throw_if_eq_Inr bnd_eq_Inr requireId_Inr sum.inject prod.inject by (elim exE conjE; simp only:)+
  from rest obtain v where v: "compare_new_pair lc (ae_clock env) p cs f t s = Inr v" "appendChangeImpact p v s = Inr (s', r)"
    unfolding Let_def ids(1) if_not_P [OF assms(2)] bnd_eq_Inr by (elim exE conjE)
  from v(2) show ?thesis
  proof (cases rule: appendChangeImpact_cases)
    case (kept item)
    have id: "oget (oget v ''changeSet'') ''id'' = oget input ''id''" using v(1) unfolding ids(1) [symmetric] by (rule compare_new_pair_run)
    have "getChangeImpact p (oget input ''id'') s = item" unfolding getChangeImpact_def get_def id [symmetric] kept(1) option.case ..
    with assms(2) have "\<not> truthy r" unfolding kept(3) by simp
    then have "elems (oget r ''continuities'') = []" by (cases r) (simp_all add: oget_def elem_at_def split: option.split)
    with assms(8) show ?thesis by simp
  next
    case (fresh items u)
    from comparison_bindings [OF v(1) assms(3,4) [folded ids] assms(5-7) _ assms(9)] assms(8) fresh(6) show ?thesis by simp
  qed
qed

subsection \<open>A comparison that carries a conformance over\<close>

text \<open>
  A project with one endpoint, observed with the same content in the snapshots \<open>S1\<close> and \<open>S2\<close> under two fact
  identifiers, and a claim mapped to it and found conforming in \<open>S1\<close>. Digests are not evaluated: \<open>d1\<close> and \<open>d2\<close>
  stand for the identifiers of the carried mapping and conformance.
\<close>

definition kept_node :: "string \<Rightarrow> jsv" where
  "kept_node i = JObj [(''id'', JStr ''GET /cart''), (''type'', JStr ''ENDPOINT''), (''factId'', JStr i)]"

definition kept_graph :: "string \<Rightarrow> string \<Rightarrow> jsv" where
  "kept_graph b i = JObj
     [(''nodes'', JArr [JObj (spread (props (kept_node i)) [(''bundleId'', JStr b)])]), (''edges'', JArr []),
      (''complete'', JBool True), (''bundleIds'', JArr [JStr b])]"

definition kept_bundle :: "string \<Rightarrow> string \<Rightarrow> string \<Rightarrow> jsv" where
  "kept_bundle b snapshot i = JObj
     [(''id'', JStr b), (''snapshotManifestId'', JStr snapshot), (''sourceComponentId'', JStr ''c''), (''observedAt'', JStr ''t''),
      (''extractor'', JObj [(''id'', JStr ''x'')]), (''complete'', JBool True), (''nodes'', JArr [kept_node i]), (''edges'', JArr [])]"

definition kept_manifest :: "string \<Rightarrow> jsv" where
  "kept_manifest snapshot = JObj [(''id'', JStr snapshot), (''complete'', JBool True),
     (''components'', JObj [(''source'', JObj [(''id'', JStr ''c'')])])]"

abbreviation kept_governed :: "(string \<times> jsv) list" where
  "kept_governed \<equiv> [(''claimId'', JStr ''CL1''), (''claimVersion'', JNum 1), (''scopeId'', JStr ''SC1''), (''scopeVersion'', JNum 1)]"

definition kept_mapping :: jsv where
  "kept_mapping = JObj ((''id'', JStr ''M1'') # kept_governed @
     [(''snapshotManifestId'', JStr ''S1''), (''sourceComponentId'', JStr ''c''), (''sourceRunId'', JStr ''R1''),
      (''sourceCandidateId'', JStr ''K1''), (''status'', JStr ''ACTIVE''),
      (''factRefs'', JArr [JObj [(''factId'', JStr ''FACT-1''), (''relation'', JStr ''IMPLEMENTS'')]])])"

definition kept_conformance :: jsv where
  "kept_conformance = JObj ((''id'', JStr ''N1'') # kept_governed @
     [(''snapshotManifestId'', JStr ''S1''), (''mappingId'', JStr ''M1''), (''status'', JStr ''CONFORMS''), (''computedAt'', JStr ''t'')])"

definition kept_store :: mapping_store where
  "kept_store = empty_mapping_store
     \<lparr>ms_store := empty_store
        \<lparr>st_manifests := [(store_key ''p'' ''S1'', kept_manifest ''S1''), (store_key ''p'' ''S2'', kept_manifest ''S2'')],
         st_features := [(store_key ''p'' (version_key (JObj [(''id'', JStr ''F1''), (''version'', JNum 1)])), JObj [(''id'', JStr ''F1''), (''version'', JNum 1)])],
         st_claims := [(store_key ''p'' (pair_key (JStr ''CL1'') (JNum 1)), JObj
           [(''id'', JStr ''CL1''), (''version'', JNum 1), (''featureId'', JStr ''F1''), (''scopeId'', JStr ''SC1''), (''scopeVersion'', JNum 1)])],
         st_factBundles := [(store_key ''p'' ''B1'', kept_bundle ''B1'' ''S1'' ''FACT-1''), (store_key ''p'' ''B2'', kept_bundle ''B2'' ''S2'' ''FACT-2'')]\<rparr>,
      ms_reverseRuns := [(store_key ''p'' ''R1'', JObj [(''id'', JStr ''R1'')])],
      ms_implementationMappings := [(store_key ''p'' ''M1'', kept_mapping)],
      ms_conformances := [(store_key ''p'' ''N1'', kept_conformance)]\<rparr>"

definition kept_request :: jsv where
  "kept_request = JObj [(''id'', JStr ''C1''), (''fromSnapshotManifestId'', JStr ''S1''), (''toSnapshotManifestId'', JStr ''S2'')]"

abbreviation kept_time :: jsv where
  "kept_time \<equiv> JStr ''1970-01-01T00:00:00.000Z''"

definition kept_changeSet :: jsv where
  "kept_changeSet = JObj
     [(''id'', JStr ''C1''), (''fromSnapshotManifestId'', JStr ''S1''), (''toSnapshotManifestId'', JStr ''S2''), (''complete'', JBool True),
      (''warnings'', JArr []), (''changes'', JArr []), (''createdAt'', kept_time)]"

definition kept_rebinding :: jsv where
  "kept_rebinding = JObj [(''fromFactId'', JStr ''FACT-1''), (''toFactId'', JStr ''FACT-2''), (''relation'', JStr ''IMPLEMENTS'')]"

definition carried_mapping :: "string \<Rightarrow> jsv" where
  "carried_mapping d = JObj ((''id'', JStr d) # kept_governed @
     [(''snapshotManifestId'', JStr ''S2''), (''sourceComponentId'', JStr ''c''), (''sourceRunId'', JStr ''R1''),
      (''sourceCandidateId'', JStr ''K1''), (''status'', JStr ''ACTIVE''),
      (''factRefs'', JArr [JObj [(''factId'', JStr ''FACT-2''), (''relation'', JStr ''IMPLEMENTS'')]]), (''createdAt'', kept_time)])"

definition carried_conformance :: "string \<Rightarrow> string \<Rightarrow> jsv" where
  "carried_conformance d1 d2 = JObj ((''id'', JStr d2) # kept_governed @
     [(''snapshotManifestId'', JStr ''S2''), (''mappingId'', JStr d1), (''status'', JStr ''CONFORMS''), (''evidenceRefs'', JArr [JStr ''FACT-2'']),
      (''analysisMethod'', JObj
        [(''type'', JStr ''SEMANTIC_FACT_CONTINUITY''), (''version'', JStr ''1.0.0''), (''changeSetId'', JStr ''C1''),
         (''derivedFromMappingId'', JStr ''M1''), (''derivedFromConformanceId'', JStr ''N1'')]),
      (''computedAt'', kept_time)])"

definition kept_continuity :: "string \<Rightarrow> string \<Rightarrow> string \<Rightarrow> jsv" where
  "kept_continuity d1 d2 d3 = JObj
     ([(''id'', JStr d3), (''changeSetId'', JStr ''C1''), (''fromMappingId'', JStr ''M1''), (''toMappingId'', JStr d1), (''featureId'', JStr ''F1'')] @
      kept_governed @
      [(''fromSnapshotManifestId'', JStr ''S1''), (''toSnapshotManifestId'', JStr ''S2''), (''fromConformanceId'', JStr ''N1''),
       (''toConformanceId'', JStr d2), (''factRefRebindings'', JArr [kept_rebinding]),
       (''reason'', JStr ''All mapped facts remained semantically identical and were rebound to the new Snapshot Manifest.'')])"

definition kept_package :: "string \<Rightarrow> string \<Rightarrow> string \<Rightarrow> jsv" where
  "kept_package d1 d2 d3 = JObj [(''continuity'', kept_continuity d1 d2 d3), (''implementationMapping'', carried_mapping d1),
     (''conformance'', carried_conformance d1 d2)]"

definition kept_comparison :: comparison where
  "kept_comparison = \<lparr>cp_projectId = ''p'', cp_changeSetId = JStr ''C1'', cp_fromId = JStr ''S1'', cp_toId = JStr ''S2'',
     cp_fromGraph = kept_graph ''B1'' ''FACT-1'', cp_toGraph = kept_graph ''B2'' ''FACT-2'', cp_toManifest = kept_manifest ''S2'', cp_changes = []\<rparr>"

abbreviation kept_listed :: jsv where
  "kept_listed \<equiv> JObj (spread (props kept_mapping) [(''featureId'', JStr ''F1'')])"

lemma kept_bundles:
  "map snd (foldl keep_newest_bundle [] (manifest_bundles ''p'' (JStr ''S1'') (ms_store kept_store))) = [kept_bundle ''B1'' ''S1'' ''FACT-1'']"
  "map snd (foldl keep_newest_bundle [] (manifest_bundles ''p'' (JStr ''S2'') (ms_store kept_store))) = [kept_bundle ''B2'' ''S2'' ''FACT-2'']"
  by code_simp+

lemma kept_tagged:
  "tagged ''nodes'' [kept_bundle b m i] = [JObj (spread (props (kept_node i)) [(''bundleId'', JStr b)])]" "tagged ''edges'' [kept_bundle b m i] = []" "ids_of [kept_bundle b m i] = [JStr b]"
  "truthy (oget (kept_bundle b m i) ''complete'')"
  by code_simp+

lemma kept_graphs:
  "getSnapshotFactGraph ''p'' (JStr ''S1'') 100000 (ms_store kept_store) = Inr (kept_graph ''B1'' ''FACT-1'')"
  "getSnapshotFactGraph ''p'' (JStr ''S2'') 100000 (ms_store kept_store) = Inr (kept_graph ''B2'' ''FACT-2'')"
  by (simp_all add: getSnapshotFactGraph_def Let_def kept_bundles kept_tagged kept_graph_def)

lemma kept_manifests:
  "getSnapshotManifest ''p'' ''S1'' (ms_store kept_store) = kept_manifest ''S1''"
  "getSnapshotManifest ''p'' ''S2'' (ms_store kept_store) = kept_manifest ''S2''"
  by code_simp+

lemma unchanged_comparison:
  assumes "oget g ''nodes'' = JArr [x]" "oget h ''nodes'' = JArr [y]" "oget g ''edges'' = JArr []" "oget h ''edges'' = JArr []"
    and "nodeKey x = Inr k" "nodeKey y = Inr k" "semanticNode x = semanticNode y" "is_plain_object x" "is_plain_object y"
  shows "compareFactGraphs lc g h = Inr []"
  using assms
  by (auto simp: compareFactGraphs_def keyed_entities_def compare_entities_def compare_entity_def entity_at_def
      is_plain_object_iff js_map_def Let_def simp del: oget_simps)

lemma kept_changes:
  "compareFactGraphs lc (kept_graph ''B1'' ''FACT-1'') (kept_graph ''B2'' ''FACT-2'') = Inr []"
proof (rule unchanged_comparison)
  let ?x = "\<lambda>b i. JObj (spread (props (kept_node i)) [(''bundleId'', JStr b)])"
  show "nodeKey (?x ''B1'' ''FACT-1'') = Inr (canonical_text (JObj [(''stableId'', JStr ''GET /cart''), (''extractorId'', JNull)]))"
    "nodeKey (?x ''B2'' ''FACT-2'') = Inr (canonical_text (JObj [(''stableId'', JStr ''GET /cart''), (''extractorId'', JNull)]))"
    by (simp_all add: nodeKey_def kept_node_def spread_def)
  show "semanticNode (?x ''B1'' ''FACT-1'') = semanticNode (?x ''B2'' ''FACT-2'')" by code_simp
qed (simp_all add: kept_graph_def)

lemma kept_mappings:
  "filter (\<lambda>m. strict_eq (oget m ''snapshotManifestId'') (JStr ''S1'') \<and> oget m ''status'' = JStr ''ACTIVE'')
     (listImplementationMappings ''p'' kept_store) = [kept_listed]"
  by code_simp

lemma kept_relevant: "relevant_to_mapping kept_comparison kept_listed = []"
  by code_simp

lemma kept_prior:
  "prior_conformance (\<lambda>l r. 0) kept_comparison (getMappedBaseline (\<lambda>l r. 0) ''p'' (oget kept_listed ''featureId'') kept_store) kept_listed = kept_conformance"
  by code_simp

lemma kept_rebound:
  "map (rebind kept_comparison) (elems (oget kept_listed ''factRefs'')) = [Some kept_rebinding]"
  by code_simp

lemma kept_changeSet_created:
  "createChangeSet (JObj
     [(''id'', JStr ''C1''), (''fromSnapshotManifestId'', JStr ''S1''), (''toSnapshotManifestId'', JStr ''S2''),
      (''complete'', JBool True), (''warnings'', JArr []), (''changes'', JArr [])]) (Some 0) = Inr kept_changeSet"
  by code_simp

definition carried_mapping_id :: string where
  "carried_mapping_id = contentId ''IMPLEMENTATION-MAPPING'' (JObj (kept_governed @
     [(''snapshotManifestId'', JStr ''S2''), (''sourceComponentId'', JStr ''c''), (''sourceRunId'', JStr ''R1''),
      (''sourceCandidateId'', JStr ''K1'')]))"

definition carried_conformance_id :: string where
  "carried_conformance_id = contentId ''IMPLEMENTATION-CONFORMANCE'' (JObj (kept_governed @
     [(''snapshotManifestId'', JStr ''S2''), (''mappingId'', JStr carried_mapping_id)]))"

definition kept_continuity_id :: string where
  "kept_continuity_id = contentId ''IMPLEMENTATION-CONTINUITY'' (JObj
     [(''changeSetId'', JStr ''C1''), (''fromMappingId'', JStr ''M1''), (''toMappingId'', JStr carried_mapping_id)])"

lemma digest_id_string: "requireNonEmptyString (JStr (contentId (c # p) v)) h = Inr (JStr (contentId (c # p) v))" if "\<not> is_space c"
  using that by (simp add: requireNonEmptyString_Inr contentId_def js_trim_eq_Nil)

lemma carried_ids:
  "requireNonEmptyString (JStr carried_mapping_id) h = Inr (JStr carried_mapping_id)"
  "requireNonEmptyString (JStr carried_conformance_id) h = Inr (JStr carried_conformance_id)"
  unfolding carried_mapping_id_def carried_conformance_id_def by (rule digest_id_string, simp add: is_space_def)+

lemma kept_time_ok:
  "given_or_now JUndef (Some 0) = Inr kept_time" "requireIsoTimestamp kept_time h = Inr 0"
  by code_simp+

lemma kept_strings:
  "requireNonEmptyString (JStr ''C1'') h = Inr (JStr ''C1'')" "requireNonEmptyString (JStr ''F1'') h = Inr (JStr ''F1'')"
  "requireNonEmptyString (JStr ''CL1'') h = Inr (JStr ''CL1'')" "requireNonEmptyString (JStr ''SC1'') h = Inr (JStr ''SC1'')"
  "requireNonEmptyString (JStr ''S1'') h = Inr (JStr ''S1'')" "requireNonEmptyString (JStr ''S2'') h = Inr (JStr ''S2'')"
  "requireNonEmptyString (JStr ''M1'') h = Inr (JStr ''M1'')" "requireNonEmptyString (JStr ''N1'') h = Inr (JStr ''N1'')"
  "requireNonEmptyString (JStr ''c'') h = Inr (JStr ''c'')" "requireNonEmptyString (JStr ''R1'') h = Inr (JStr ''R1'')"
  "requireNonEmptyString (JStr ''K1'') h = Inr (JStr ''K1'')" "requirePositiveInteger (JNum 1) h = Inr (JNum 1)"
  by (simp_all add: requireNonEmptyString_Inr js_trim_def is_space_def)

lemma carried_mapping_created:
  "createImplementationMapping (JObj (kept_governed @
     [(''snapshotManifestId'', JStr ''S2''), (''sourceComponentId'', JStr ''c''), (''sourceRunId'', JStr ''R1''), (''sourceCandidateId'', JStr ''K1''),
      (''factRefs'', JArr [JObj [(''factId'', JStr ''FACT-2''), (''relation'', JStr ''IMPLEMENTS'')]])])) (Some 0)
   = Inr (carried_mapping carried_mapping_id)"
proof -
  have "mapping_fact_refs (JArr [JObj [(''factId'', JStr ''FACT-2''), (''relation'', JStr ''IMPLEMENTS'')]]) h
      = Inr (JArr [JObj [(''factId'', JStr ''FACT-2''), (''relation'', JStr ''IMPLEMENTS'')]])" for h by code_simp
  moreover have "assertEnum ImplementationMappingStatus (JStr ''ACTIVE'') h = Inr (JStr ''ACTIVE'')" for h by code_simp
  ultimately show ?thesis
    by (simp add: createImplementationMapping_def Let_def kept_time_ok kept_strings mk_obj_def carried_mapping_def
        carried_mapping_id_def del: One_nat_def)
qed

lemma carried_conformance_created:
  "createImplementationConformance (JObj (kept_governed @
     [(''snapshotManifestId'', JStr ''S2''), (''mappingId'', JStr carried_mapping_id), (''status'', JStr ''CONFORMS''),
      (''evidenceRefs'', JArr [JStr ''FACT-2'']),
      (''analysisMethod'', JObj
        [(''type'', JStr ''SEMANTIC_FACT_CONTINUITY''), (''version'', JStr ''1.0.0''), (''changeSetId'', JStr ''C1''),
         (''derivedFromMappingId'', JStr ''M1''), (''derivedFromConformanceId'', JStr ''N1'')])])) (Some 0)
   = Inr (carried_conformance carried_mapping_id carried_conformance_id)"
proof -
  have "review_strings (JArr [JStr ''FACT-2'']) h = Inr (JArr [JStr ''FACT-2''])" for h by code_simp
  moreover have "assertEnum ConformanceStatus (JStr ''CONFORMS'') h = Inr (JStr ''CONFORMS'')" for h by code_simp
  ultimately show ?thesis
    by (simp add: createImplementationConformance_def Let_def kept_time_ok kept_strings carried_ids mk_obj_def carried_conformance_def
        carried_conformance_id_def requireObject_def)
qed

lemma kept_continuity_created:
  "createImplementationContinuity (JObj ([(''changeSetId'', JStr ''C1''), (''featureId'', JStr ''F1'')] @ kept_governed @
     [(''fromSnapshotManifestId'', JStr ''S1''), (''toSnapshotManifestId'', JStr ''S2''), (''fromMappingId'', JStr ''M1''),
      (''toMappingId'', JStr carried_mapping_id), (''fromConformanceId'', JStr ''N1''), (''toConformanceId'', JStr carried_conformance_id),
      (''factRefRebindings'', JArr [kept_rebinding])]))
   = Inr (kept_continuity carried_mapping_id carried_conformance_id kept_continuity_id)"
proof -
  have "rebinding 0 kept_rebinding = Inr kept_rebinding" by code_simp
  then show ?thesis
    by (simp add: createImplementationContinuity_def Let_def kept_strings carried_ids mk_obj_def kept_continuity_def kept_continuity_id_def)
qed

abbreviation carried_package :: jsv where
  "carried_package \<equiv> kept_package carried_mapping_id carried_conformance_id kept_continuity_id"

lemma kept_package_created:
  "continuity_package kept_comparison (Some 0) kept_listed kept_conformance [kept_rebinding] = Inr carried_package"
proof -
  have m: "oget kept_listed k = v" if "map_of (props kept_mapping @ [(''featureId'', JStr ''F1'')]) k = Some v" for k v
    using that by (simp add: kept_mapping_def oget_def spread_def)
  have r: "oget kept_rebinding ''toFactId'' = JStr ''FACT-2''" "oget kept_rebinding ''relation'' = JStr ''IMPLEMENTS''"
    by (simp_all add: kept_rebinding_def)
  have c: "oget kept_conformance ''id'' = JStr ''N1''" "oget kept_conformance ''status'' = JStr ''CONFORMS''" by (simp_all add: kept_conformance_def)
  have s: "oget (oget (oget (kept_manifest ''S2'') ''components'') ''source'') ''id'' = JStr ''c''" by (simp add: kept_manifest_def)
  have ids: "oget (carried_mapping d) ''id'' = JStr d" "oget (carried_conformance d e) ''id'' = JStr e" for d e
    by (simp_all add: carried_mapping_def carried_conformance_def)
  have l: "oget kept_listed ''id'' = JStr ''M1''" "oget kept_listed ''claimId'' = JStr ''CL1''" "oget kept_listed ''claimVersion'' = JNum 1"
    "oget kept_listed ''scopeId'' = JStr ''SC1''" "oget kept_listed ''scopeVersion'' = JNum 1" "oget kept_listed ''featureId'' = JStr ''F1''"
    "oget kept_listed ''sourceRunId'' = JStr ''R1''" "oget kept_listed ''sourceCandidateId'' = JStr ''K1''"
    by (rule m, simp add: kept_mapping_def)+
  have cp: "cp_toId kept_comparison = JStr ''S2''" "cp_fromId kept_comparison = JStr ''S1''" "cp_changeSetId kept_comparison = JStr ''C1''"
    "cp_toManifest kept_comparison = kept_manifest ''S2''" by (simp_all add: kept_comparison_def)
  show ?thesis
    unfolding continuity_package_def Let_def list.map l r c s cp
    using carried_mapping_created carried_conformance_created kept_continuity_created
    by (simp add: ids kept_package_def)
qed

lemma kept_mapping_carried:
  "compare_mapping (\<lambda>l r. 0) kept_comparison (Some 0) kept_store ([], []) kept_listed = Inr ([], [carried_package])"
proof -
  have t: "truthy kept_conformance" by (simp add: kept_conformance_def)
  have n: "None \<notin> set [Some kept_rebinding]" by simp
  have p: "cp_projectId kept_comparison = ''p''" by (simp add: kept_comparison_def)
  show ?thesis
    unfolding compare_mapping_def prod.case Let_def p kept_relevant kept_prior kept_rebound
    using t n kept_package_created by simp
qed

lemma kept_impact_assessed:
  "\<exists>i. createImpactAssessment (JObj [(''changeSet'', kept_changeSet), (''affectedMappings'', JArr []),
     (''continuities'', JArr [oget carried_package ''continuity''])]) (Some 0) = Inr i"
proof -
  have c: "oget carried_package ''continuity'' = kept_continuity carried_mapping_id carried_conformance_id kept_continuity_id"
    by (simp add: kept_package_def)
  have f: "pget (kept_continuity d e i) ''featureId'' = Inr (JStr ''F1'')" for d e i by (simp add: kept_continuity_def)
  have "is_plain_object kept_changeSet" "created_at (JObj [(''changeSet'', kept_changeSet), (''affectedMappings'', JArr []),
     (''continuities'', JArr [x])]) (Some 0) = Inr kept_time" for x
    using kept_time_ok(1) by (simp_all add: kept_changeSet_def created_at_def given_or_now_def)
  then show ?thesis
    unfolding c by (simp add: createImpactAssessment_def Let_def kept_time_ok f mk_obj_def)
qed

lemma kept_continuity_accepted: "check_continuity ''p'' kept_store carried_package = Inr ()"
proof -
  have "check_continuity ''p'' kept_store (kept_package (''IMPLEMENTATION-MAPPING'' @ d) (''IMPLEMENTATION-CONFORMANCE'' @ e) i) = Inr ()" for d e i
    by code_simp
  then show ?thesis unfolding carried_mapping_id_def carried_conformance_id_def contentId_def by (simp only: append_assoc)
qed

lemma kept_pair_compared:
  "\<exists>c. compare_new_pair (\<lambda>l r. 0) (Some 0) ''p'' (JStr ''C1'') (JStr ''S1'') (JStr ''S2'') kept_store =
     Inr (JObj [(''changeSet'', kept_changeSet), (''impact'', c), (''continuities'', JArr [carried_package])])"
proof -
  from kept_impact_assessed obtain i where i: "createImpactAssessment (JObj [(''changeSet'', kept_changeSet), (''affectedMappings'', JArr []),
     (''continuities'', JArr [oget carried_package ''continuity''])]) (Some 0) = Inr i" ..
  have t: "truthy (kept_manifest m)" "oget (kept_manifest m) ''complete'' = JBool True" "oget (kept_graph b f) ''complete'' = JBool True" for m b f
    by (simp_all add: kept_manifest_def kept_graph_def)
  have ss: "js_string (JStr ''S1'') = ''S1''" "js_string (JStr ''S2'') = ''S2''" by simp_all
  show ?thesis
    unfolding compare_new_pair_def Let_def ss kept_graphs kept_manifests bnd_simps kept_changes t throw_if_def js_and_def truthy.simps
      kept_mappings kept_comparison_def [symmetric]
    using i by (simp add: kept_changeSet_created kept_mapping_carried t del: oget_simps)
qed

lemma kept_comparison_stored:
  "\<exists>s c. app_compareAndPersistSnapshots (\<lambda>l r. 0) \<lparr>ae_reviewerResolver = \<lambda>p a. JNull, ae_reviewPolicyResolver = \<lambda>p c. JNull,
       ae_actorIdentityResolver = \<lambda>a. JNull, ae_runnerKeyResolver = \<lambda>r p. JNull, ae_scannerKeyResolver = \<lambda>r p. JNull, ae_clock = Some 0\<rparr>
     ''p'' kept_request kept_store =
     Inr (s, JObj [(''changeSet'', kept_changeSet), (''impact'', c), (''continuities'', JArr [carried_package])])"
proof -
  from kept_pair_compared obtain c where c: "compare_new_pair (\<lambda>l r. 0) (Some 0) ''p'' (JStr ''C1'') (JStr ''S1'') (JStr ''S2'') kept_store =
     Inr (JObj [(''changeSet'', kept_changeSet), (''impact'', c), (''continuities'', JArr [carried_package])])" ..
  have r: "comparison_request ''p'' kept_request = Inr (JStr ''C1'', JStr ''S1'', JStr ''S2'')" by code_simp
  have n: "ms_changeImpacts kept_store = []" by (simp add: kept_store_def empty_mapping_store_def)
  have "\<exists>s. appendChangeImpact ''p'' (JObj [(''changeSet'', kept_changeSet), (''impact'', c), (''continuities'', JArr [carried_package])]) kept_store =
     Inr (s, JObj [(''changeSet'', kept_changeSet), (''impact'', c), (''continuities'', JArr [carried_package])])"
    by (simp add: appendChangeImpact_def Let_def n project_values_def kept_continuity_accepted)
  then obtain s where s: "appendChangeImpact ''p'' (JObj [(''changeSet'', kept_changeSet), (''impact'', c), (''continuities'', JArr [carried_package])]) kept_store =
     Inr (s, JObj [(''changeSet'', kept_changeSet), (''impact'', c), (''continuities'', JArr [carried_package])])" ..
  show ?thesis
    by (rule exI [of _ s], rule exI [of _ c])
      (simp add: app_compareAndPersistSnapshots_def r c s Let_def getChangeImpact_def n get_def)
qed

theorem continuity_only_for_identical_facts_witness:
  "\<exists>env s c. app_compareAndPersistSnapshots (\<lambda>l r. 0) env ''p'' kept_request kept_store =
     Inr (s, JObj [(''changeSet'', kept_changeSet), (''impact'', c), (''continuities'', JArr [carried_package])]) \<and>
     kept_rebinding \<in> set (continuity_bindings carried_package) \<and>
     same_fact (kept_graph ''B1'' ''FACT-1'') (kept_graph ''B2'' ''FACT-2'') kept_rebinding"
proof -
  from kept_comparison_stored obtain env s c where run: "app_compareAndPersistSnapshots (\<lambda>l r. 0) env ''p'' kept_request kept_store =
     Inr (s, JObj [(''changeSet'', kept_changeSet), (''impact'', c), (''continuities'', JArr [carried_package])])" by blast
  have q: "oget kept_request ''id'' = JStr ''C1''" "oget kept_request ''fromSnapshotManifestId'' = JStr ''S1''"
    "oget kept_request ''toSnapshotManifestId'' = JStr ''S2''" by (simp_all add: kept_request_def)
  have new: "\<not> truthy (getChangeImpact ''p'' (JStr ''C1'') kept_store)" by code_simp
  have b: "kept_rebinding \<in> set (continuity_bindings carried_package)"
    by (simp add: continuity_bindings_def kept_package_def kept_continuity_def)
  have ok: "fact_graph_ok (kept_graph b i)" if "i \<noteq> []" for b i
    using that by (simp add: fact_graph_ok_def kept_graph_def kept_node_def object_list_def spread_def)
  have dk: "distinct_keys (kept_graph b i)" for b i
    by (simp add: distinct_keys_def kept_graph_def)
  have "same_fact (kept_graph ''B1'' ''FACT-1'') (kept_graph ''B2'' ''FACT-2'') kept_rebinding"
    by (rule continuity_only_for_identical_facts [OF run, unfolded q, OF new kept_graphs _ _ dk _ b]) (simp_all add: ok)
  with run b show ?thesis by blast
qed

subsection \<open>Repeated comparisons\<close>

lemma canonical_object_truthy:
  assumes "canonicalJson item = canonicalJson (JObj fs)"
  shows "truthy item"
proof -
  have "int_str 0 = ''0''" "quote_string [] = [CHR 0x22, CHR 0x22]" by code_simp+
  with assms show ?thesis by (cases item) (auto simp: canonicalJson_def split: if_splits)
qed

lemma comparison_request_strings:
  assumes "comparison_request p input = Inr (c, f, t)"
  shows "\<exists>sf st. f = JStr sf \<and> t = JStr st"
proof -
  from assms obtain sf st where "oget input ''fromSnapshotManifestId'' = JStr sf" "oget input ''toSnapshotManifestId'' = JStr st"
    "f = oget input ''fromSnapshotManifestId''" "t = oget input ''toSnapshotManifestId''"
    unfolding comparison_request_def throw_if_eq_Inr bnd_eq_Inr requireId_Inr sum.inject prod.inject
    apply (elim exE conjE)
    apply (rule that)
       apply assumption
      apply assumption
     apply (simp only:)
    apply (simp only:)
    done
  then show ?thesis by iprover
qed

lemma compare_new_pair_value:
  assumes "compare_new_pair lc now p csId fromId toId s = Inr v"
  shows "(\<exists>c i q. v = JObj [(''changeSet'', c), (''impact'', i), (''continuities'', q)] \<and>
     oget c ''id'' = csId \<and> oget c ''fromSnapshotManifestId'' = fromId \<and> oget c ''toSnapshotManifestId'' = toId)"
proof -
  from assms obtain c i q rest where c: "createChangeSet (JObj ((''id'', csId) # (''fromSnapshotManifestId'', fromId) # (''toSnapshotManifestId'', toId) # rest)) now = Inr c"
    and v: "JObj [(''changeSet'', c), (''impact'', i), (''continuities'', q)] = v"
    unfolding compare_new_pair_def Let_def throw_if_eq_Inr bnd_eq_Inr split_paired_Ex prod.case sum.inject
    apply (elim exE conjE)
    apply (rule that)
     apply assumption
    apply assumption
    done
  from c obtain es where "mk_obj es = Inr c" 
    "map_of es ''fromSnapshotManifestId'' = Some (Inr fromId)" "map_of es ''toSnapshotManifestId'' = Some (Inr toId)"
    unfolding createChangeSet_def throw_if_eq_Inr bnd_eq_Inr requireNonEmptyString_Inr
    apply (elim exE conjE)
    apply (rule that)
      apply assumption
     apply simp_all
    done
  from mk_obj_member [OF this(1,2)] mk_obj_member [OF this(1,3)] createChangeSet_id [OF c] v show ?thesis
    by (intro exI [of _ c] exI [of _ i] exI [of _ q]) simp
qed


text \<open>
  C25: a comparison is idempotent: repeating an accepted one on the store it left, at whatever time, answers
  the same record and changes nothing.
\<close>

theorem repeated_comparison_changes_nothing:
  assumes "app_compareAndPersistSnapshots lc env p input s = Inr (s', r)"
  shows "app_compareAndPersistSnapshots lc' env' p input s' = Inr (s', r)"
proof -
  from assms obtain cs f t where req: "comparison_request p input = Inr (cs, f, t)"
    and rest: "(let existing = getChangeImpact p cs s in
     if truthy existing
     then throw_if (\<not> strict_eq (oget (oget existing ''changeSet'') ''fromSnapshotManifestId'') f \<or>
              \<not> strict_eq (oget (oget existing ''changeSet'') ''toSnapshotManifestId'') t)
            (ConflictErr (''ChangeSet '' @ js_string cs @ '' already compares a different Snapshot pair'')) (Inr (s, existing))
     else bnd (compare_new_pair lc (ae_clock env) p cs f t s) (\<lambda>changeImpact. appendChangeImpact p changeImpact s)) = Inr (s', r)"
    unfolding app_compareAndPersistSnapshots_def bnd_eq_Inr split_paired_Ex prod.case by (elim exE conjE)
  from comparison_request_strings [OF req] obtain sf st where str: "f = JStr sf" "t = JStr st" by (elim exE conjE)
  have again: "app_compareAndPersistSnapshots lc' env' p input s' = Inr (s', r)"
    if "getChangeImpact p cs s' = r" "truthy r" "strict_eq (oget (oget r ''changeSet'') ''fromSnapshotManifestId'') f"
      "strict_eq (oget (oget r ''changeSet'') ''toSnapshotManifestId'') t"
    unfolding app_compareAndPersistSnapshots_def req bnd_simps prod.case Let_def that(1) if_P [OF that(2)] throw_if_def
    using that(3,4) by (simp del: oget_simps)
  show ?thesis
  proof (cases "truthy (getChangeImpact p cs s)")
    case True
    have h: "s' = s \<and> r = getChangeImpact p cs s \<and> strict_eq (oget (oget r ''changeSet'') ''fromSnapshotManifestId'') f \<and>
        strict_eq (oget (oget r ''changeSet'') ''toSnapshotManifestId'') t"
      using rest unfolding Let_def if_P [OF True] throw_if_eq_Inr sum.inject prod.inject by (elim conjE) (simp del: oget_simps)
    show ?thesis by (rule again [OF _ _ h [THEN conjunct2, THEN conjunct2, THEN conjunct1] h [THEN conjunct2, THEN conjunct2, THEN conjunct2]])
        (simp_all only: h [THEN conjunct1] h [THEN conjunct2, THEN conjunct1] True)
  next
    case False
    obtain v where v: "compare_new_pair lc (ae_clock env) p cs f t s = Inr v" "appendChangeImpact p v s = Inr (s', r)"
      using rest unfolding Let_def if_not_P [OF False] bnd_eq_Inr by (elim exE conjE)
    from compare_new_pair_value [OF v(1)] obtain c i q where vv: "v = JObj [(''changeSet'', c), (''impact'', i), (''continuities'', q)]"
      "oget c ''id'' = cs" "oget c ''fromSnapshotManifestId'' = f" "oget c ''toSnapshotManifestId'' = t" by (elim exE conjE)
    have c: "oget v ''changeSet'' = c" by (simp add: vv(1))
    from v(2) show ?thesis
    proof (cases rule: appendChangeImpact_cases)
      case (kept item)
      have "getChangeImpact p cs s = item" unfolding getChangeImpact_def get_def vv(2) [symmetric] c [symmetric] kept(1) option.case ..
      moreover have "truthy item" using kept(4) unfolding same_value_def vv(1) by (rule canonical_object_truthy)
      ultimately show ?thesis using False by simp
    next
      case (fresh items u)
      have "getChangeImpact p cs s' = r"
        unfolding fresh(5,6) getChangeImpact_def get_def vv(2) [symmetric] c [symmetric] by (simp add: update_conv' del: oget_simps)
      moreover have "truthy r" by (simp add: fresh(6) vv(1))
      ultimately show ?thesis by (rule again) (simp_all add: fresh(6) c vv(3,4) str del: oget_simps)
    qed
  qed
qed

theorem repeated_comparison_changes_nothing_witness:
  "\<exists>env s r. app_compareAndPersistSnapshots (\<lambda>l r. 0) env ''p'' kept_request kept_store = Inr (s, r) \<and>
     app_compareAndPersistSnapshots (\<lambda>l r. 0) env ''p'' kept_request s = Inr (s, r)"
  using kept_comparison_stored repeated_comparison_changes_nothing by blast

end
