(* ===== verification/Candidate_Review.thy ===== *)
theory Candidate_Review
  imports Snapshot_Comparison Governance
begin

section \<open>Human review of reverse-engineered candidates\<close>

text \<open>
  The two operations of \<open>TraceabilityApplication\<close> by which a person turns the output of a reverse run
  into governed records (\<open>src/application/traceability-application.js\<close>): \<open>reviewReverseCandidate\<close>, which
  records an outcome and, where it confirms, a baseline of feature, scope, claim, decision, mapping and
  conformance; and \<open>reanalyzeImplementation\<close>, which ties a governed claim to the candidate of a newer run.
  Shown: a baseline needs an authorised reviewer, a reviewable run and the acknowledgement of every conflict,
  and adds one record of each kind; any other outcome adds none; a repeated review answers the stored one; a
  reanalysis never touches what is governed.
\<close>

record review_env = app_env +
  re_implementationReviewerResolver :: "string \<Rightarrow> jsv \<Rightarrow> jsv"
  re_implementationPolicyResolver :: "string \<Rightarrow> jsv \<Rightarrow> jsv"

subsection \<open>Candidates and their conflicts\<close>

text \<open>\<open>items.find((item) => item.id === id)\<close>; \<open>undefined\<close> when there is none.\<close>

fun find_item :: "jsv \<Rightarrow> jsv list \<Rightarrow> jsv res" where
  "find_item i [] = Inr JUndef"
| "find_item i (x # xs) = bnd (pget x ''id'') (\<lambda>j. if strict_eq j i then Inr x else find_item i xs)"

text \<open>\<open>v.includes(x)\<close> on an array, or on a string for a string.\<close>

definition js_includes :: "jsv \<Rightarrow> jsv \<Rightarrow> bool res" where
  "js_includes v x =
     (case v of
        JArr xs \<Rightarrow> Inr (arr_includes xs x)
      | JStr s \<Rightarrow> Inr (includes_str (js_string x) s)
      | _ \<Rightarrow> Inl (NativeErr ''includes is not a function''))"

definition related_conflicts :: "jsv \<Rightarrow> jsv \<Rightarrow> jsv list res" where
  "related_conflicts mergedOutput candidateId =
     bnd (array_elems (oget mergedOutput ''conflicts'')) (\<lambda>conflicts.
     filterR (\<lambda>c. bnd (pget c ''candidateIds'') (\<lambda>ids. js_includes ids candidateId)) conflicts)"

definition unrelated_acknowledged :: "jsv list \<Rightarrow> jsv list \<Rightarrow> bool" where
  "unrelated_acknowledged acknowledged conflicts \<longleftrightarrow>
     list_ex (\<lambda>i. \<not> arr_includes (map (\<lambda>c. oget c ''id'') conflicts) i) acknowledged"

definition unacknowledged :: "jsv list \<Rightarrow> jsv list \<Rightarrow> bool" where
  "unacknowledged acknowledged conflicts \<longleftrightarrow> list_ex (\<lambda>c. \<not> arr_includes acknowledged (oget c ''id'')) conflicts"

definition evidence_fact_ids :: "jsv \<Rightarrow> jsv list res" where
  "evidence_fact_ids candidate =
     bnd (array_elems (oget candidate ''evidence'')) (\<lambda>es.
     bnd (mapR (\<lambda>item. pget item ''factId'') es) (\<lambda>ids. Inr (js_value_set ids)))"

definition conformance_status :: "jsv list \<Rightarrow> jsv \<Rightarrow> jsv \<Rightarrow> jsv res" where
  "conformance_status conflicts normative observed =
     (if conflicts \<noteq> [] then Inr (JStr ''CONFLICTED'')
      else bnd (assessImplementationConformance normative observed) (\<lambda>v. Inr (JStr v)))"

subsection \<open>The request\<close>

definition baselining_outcomes :: "string list" where
  "baselining_outcomes = [''CONFIRMED'', ''EXCEPTION_RECORDED'']"

record candidate_review =
  cr_actorId :: jsv
  cr_actorRole :: jsv
  cr_run :: jsv
  cr_candidate :: jsv
  cr_acknowledged :: "jsv list"
  cr_conflicts :: "jsv list"

text \<open>The member checks on the input, up to its outcome.\<close>

definition check_review_input :: "string \<Rightarrow> string \<Rightarrow> string \<Rightarrow> jsv \<Rightarrow> unit res" where
  "check_review_input projectId runId candidateId input =
     bnd (requireId (JStr projectId) ''projectId'') (\<lambda>_.
     bnd (requireId (JStr runId) ''runId'') (\<lambda>_.
     bnd (requireId (JStr candidateId) ''candidateId'') (\<lambda>_.
     bnd (require_input input ''candidate review input'') (\<lambda>_.
     bnd (assertOnlyFields input
       [''id'', ''outcome'', ''rationale'', ''candidateFeatureId'', ''acknowledgedConflictIds'', ''target'', ''normative''] ''candidateReview'') (\<lambda>_.
     throw_if (js_string (oget input ''outcome'') \<notin> set CandidateReviewOutcome)
       (TypeErr (''candidateReview.outcome must be one of: '' @ join '', '' CandidateReviewOutcome)) (Inr ()))))))"

text \<open>
  The six fields of the server cannot be among the supported ones, so the loop over them that follows the
  check of the supported fields never throws.
\<close>

text \<open>The run and the candidate under review.\<close>

definition reviewable_candidate :: "string \<Rightarrow> string \<Rightarrow> string \<Rightarrow> string \<Rightarrow> mapping_store \<Rightarrow> (jsv \<times> jsv) res" where
  "reviewable_candidate projectId runId candidateId refusal s =
     (let run = getReverseRun projectId (JStr runId) s in
      throw_if (\<not> truthy run) (ConflictErr (''ReverseRun '' @ runId @ '' does not exist in project '' @ projectId)) (
      throw_if (oget run ''status'' \<noteq> JStr ''WAITING_REVIEW'' \<or> \<not> truthy (oget run ''mergedOutput'')) (ConflictErr refusal) (
      bnd (array_elems (oget (oget run ''mergedOutput'') ''candidateClaims'')) (\<lambda>claims.
      bnd (find_item (JStr candidateId) claims) (\<lambda>candidate.
      throw_if (\<not> truthy candidate)
        (ConflictErr (''Candidate Claim '' @ candidateId @ '' does not exist in ReverseRun '' @ runId)) (Inr (run, candidate)))))))"

definition review_request :: "review_env \<Rightarrow> string \<Rightarrow> string \<Rightarrow> string \<Rightarrow> jsv \<Rightarrow> jsv \<Rightarrow> mapping_store \<Rightarrow> candidate_review res" where
  "review_request env projectId runId candidateId input requestContext s =
     bnd (check_review_input projectId runId candidateId input) (\<lambda>_.
     let reviewer = ae_reviewerResolver env projectId requestContext; outcome = oget input ''outcome'' in
     bnd (resolve_actor reviewer) (\<lambda>(actorId, actorRole).
     bnd (reviewable_candidate projectId runId candidateId ''Only a successful ReverseRun waiting for review can be baselined'' s) (\<lambda>(run, candidate).
     let policy = coalesce (ae_reviewPolicyResolver env projectId
            (JObj [(''reviewer'', reviewer), (''run'', run), (''candidate'', candidate)])) (JObj []) in
     bnd (require_role (oget policy ''allowedRoles'') actorRole '' cannot review reverse candidates in this project'') (\<lambda>_.
     throw_if (\<not> role_allowed (oget policy ''allowedOutcomes'') outcome)
       (AuthorizationErr (''Outcome '' @ js_string outcome @ '' is not allowed by the review policy'')) (
     let acknowledgedIds = coalesce (oget input ''acknowledgedConflictIds'') (JArr []); acknowledged = elems acknowledgedIds in
     throw_if (\<not> is_array acknowledgedIds \<or> length (js_value_set acknowledged) \<noteq> length acknowledged)
       (TypeErr ''acknowledgedConflictIds must be an array without duplicates'') (
     bnd (related_conflicts (oget run ''mergedOutput'') (JStr candidateId)) (\<lambda>conflicts.
     throw_if (unrelated_acknowledged acknowledged conflicts)
       (TypeErr ''acknowledgedConflictIds contains a conflict unrelated to the candidate'') (
     throw_if (outcome = JStr ''CONFIRMED'' \<and> conflicts \<noteq> [])
       (ConflictErr ''A conflicted candidate cannot be confirmed until the conflict is resolved or recorded as an exception'') (
     throw_if (outcome = JStr ''EXCEPTION_RECORDED'' \<and> unacknowledged acknowledged conflicts)
       (TypeErr ''Every related conflict must be explicitly acknowledged for EXCEPTION_RECORDED'')
       (Inr \<lparr>cr_actorId = actorId, cr_actorRole = actorRole, cr_run = run, cr_candidate = candidate,
             cr_acknowledged = acknowledged, cr_conflicts = conflicts\<rparr>))))))))))"

definition request_fingerprint :: "string \<Rightarrow> string \<Rightarrow> string \<Rightarrow> candidate_review \<Rightarrow> jsv \<Rightarrow> string" where
  "request_fingerprint projectId runId candidateId cr input =
     contentId ''CANDIDATE-REVIEW-REQUEST'' (JObj
       [(''projectId'', JStr projectId), (''runId'', JStr runId), (''candidateId'', JStr candidateId),
        (''actorId'', cr_actorId cr), (''actorRole'', cr_actorRole cr), (''input'', input)])"

text \<open>The review record of an outcome.\<close>

definition review_record ::
  "int option \<Rightarrow> string \<Rightarrow> string \<Rightarrow> string \<Rightarrow> candidate_review \<Rightarrow> jsv \<Rightarrow> jsv \<Rightarrow> jsv res" where
  "review_record now fingerprint runId candidateId cr input baselineRefs =
     createReverseCandidateReview (JObj
       [(''id'', oget input ''id''), (''requestFingerprint'', JStr fingerprint), (''runId'', JStr runId), (''candidateId'', JStr candidateId),
        (''outcome'', oget input ''outcome''), (''rationale'', oget input ''rationale''),
        (''actorId'', cr_actorId cr), (''actorRole'', cr_actorRole cr),
        (''acknowledgedConflictIds'', JArr (cr_acknowledged cr)), (''baselineRefs'', baselineRefs)]) now"

subsection \<open>The baseline of a confirmed candidate\<close>

text \<open>The feature the claim belongs to: the new one, or \<open>null\<close> for an existing feature, and the version the review names.\<close>

definition new_feature :: "int option \<Rightarrow> string \<Rightarrow> candidate_review \<Rightarrow> jsv \<Rightarrow> jsv \<Rightarrow> jsv res" where
  "new_feature now runId cr input featureId =
     (let target = oget input ''target'' in
      bnd (requireId (oget input ''candidateFeatureId'') ''candidateFeatureId'') (\<lambda>candidateFeatureId.
      bnd (array_elems (oget (oget (cr_run cr) ''mergedOutput'') ''candidateFeatures'')) (\<lambda>features.
      bnd (find_item candidateFeatureId features) (\<lambda>candidateFeature.
      throw_if (\<not> truthy candidateFeature)
        (ConflictErr (''Candidate Feature '' @ js_string candidateFeatureId @ '' does not exist in ReverseRun '' @ runId)) (
      throw_if (\<not> strict_eq (oget candidateFeature ''externalKey'') (oget (cr_candidate cr) ''subjectKey'') \<and>
          \<not> truthy (oget target ''associationRationale''))
        (TypeErr ''target.associationRationale is required when Feature and Claim candidate keys differ'') (
      bnd (if nullish (oget target ''featureDescription'')
           then bnd (pget (oget candidateFeature ''descriptions'') ''0'') (\<lambda>d. Inr (coalesce d JNull))
           else Inr (oget target ''featureDescription'')) (\<lambda>description.
      createFeatureVersion (JObj
        [(''id'', featureId), (''version'', JNum 1),
         (''name'', coalesce (oget target ''featureName'') (oget candidateFeature ''name'')),
         (''businessDomain'', oget target ''businessDomain''), (''description'', description)]) now)))))))"

definition check_existing_feature :: "string \<Rightarrow> candidate_review \<Rightarrow> jsv \<Rightarrow> unit res" where
  "check_existing_feature runId cr input =
     throw_if (\<not> truthy (oget (oget input ''target'') ''associationRationale''))
       (TypeErr ''target.associationRationale is required when attaching a reverse candidate to an existing Feature'') (
     if oget input ''candidateFeatureId'' = JUndef then Inr ()
     else
       bnd (requireId (oget input ''candidateFeatureId'') ''candidateFeatureId'') (\<lambda>candidateFeatureId.
       bnd (array_elems (oget (oget (cr_run cr) ''mergedOutput'') ''candidateFeatures'')) (\<lambda>features.
       bnd (find_item candidateFeatureId features) (\<lambda>candidateFeature.
       throw_if (\<not> truthy candidateFeature)
         (ConflictErr (''Candidate Feature '' @ js_string candidateFeatureId @ '' does not exist in ReverseRun '' @ runId)) (Inr ())))))"

definition selected_feature ::
  "(string \<Rightarrow> string \<Rightarrow> int) \<Rightarrow> int option \<Rightarrow> string \<Rightarrow> string \<Rightarrow> candidate_review \<Rightarrow> jsv \<Rightarrow> mapping_store \<Rightarrow> (jsv \<times> jsv \<times> jsv) res" where
  "selected_feature lc now projectId runId cr input s =
     (let target = oget input ''target''; featureMode = oget target ''featureMode'' in
      throw_if (\<not> one_of [''CREATE'', ''EXISTING''] featureMode) (TypeErr ''target.featureMode must be CREATE or EXISTING'') (
      bnd (requireId (oget target ''featureId'') ''target.featureId'') (\<lambda>featureId.
      case (getMappedBaseline lc projectId featureId s, featureMode = JStr ''CREATE'') of
        (None, True) \<Rightarrow> bnd (new_feature now runId cr input featureId) (\<lambda>feature. Inr (featureId, feature, feature))
      | (Some _, True) \<Rightarrow> Inl (ConflictErr (''Feature '' @ js_string featureId @ '' already exists''))
      | (None, False) \<Rightarrow> Inl (ConflictErr (''Feature '' @ js_string featureId @ '' does not exist''))
      | (Some b, False) \<Rightarrow> bnd (check_existing_feature runId cr input) (\<lambda>_. Inr (featureId, JNull, fb_feature b)))))"

definition evidence_support :: "candidate_review \<Rightarrow> jsv res" where
  "evidence_support cr =
     (if cr_conflicts cr \<noteq> [] then Inr (JStr ''CONTRADICTED'')
      else bnd (pget (oget (cr_candidate cr) ''sources'') ''length'') (\<lambda>n.
        Inr (JStr (if num_gt n (JNum 1) then ''MULTI_SOURCE'' else ''SINGLE_SOURCE''))))"

definition candidate_claim ::
  "int option \<Rightarrow> string \<Rightarrow> string \<Rightarrow> candidate_review \<Rightarrow> jsv \<Rightarrow> jsv \<Rightarrow> jsv \<Rightarrow> jsv \<Rightarrow> jsv res" where
  "candidate_claim now runId candidateId cr input featureId evidenceSupport scope =
     (let target = oget input ''target''; normative = oget input ''normative''; candidate = cr_candidate cr in
      createClaim (JObj
        [(''id'', oget target ''claimId''), (''version'', JNum 1), (''featureId'', featureId), (''type'', JStr ''NORMATIVE_REQUIREMENT''),
         (''statement'', oget normative ''statement''), (''sourceType'', JStr ''HUMAN''), (''evidenceSupport'', evidenceSupport),
         (''constraint'', oget normative ''constraint''), (''scopeId'', oget scope ''id''), (''scopeVersion'', oget scope ''version''),
         (''provenance'', JObj
           [(''kind'', JStr ''REVERSE_CANDIDATE_HUMAN_BASELINE''), (''reverseRunId'', JStr runId), (''candidateId'', JStr candidateId),
            (''candidateFeatureId'', coalesce (oget input ''candidateFeatureId'') JNull),
            (''candidateFeatureAssociationRationale'', coalesce (oget target ''associationRationale'') JNull),
            (''candidateStatements'', oget candidate ''statements''), (''candidateConstraint'', oget candidate ''constraint''),
            (''candidateSources'', oget candidate ''sources''), (''factEvidence'', oget candidate ''evidence'')])]) now)"

definition candidate_decision ::
  "int option \<Rightarrow> candidate_review \<Rightarrow> jsv \<Rightarrow> jsv \<Rightarrow> jsv \<Rightarrow> jsv list \<Rightarrow> jsv res" where
  "candidate_decision now cr input scope claim factIds =
     (let normative = oget input ''normative'';
          authorityEvidenceRefs = coalesce (oget normative ''authorityEvidenceRefs'') (JArr [])
      in
      throw_if (\<not> is_array authorityEvidenceRefs) (TypeErr ''normative.authorityEvidenceRefs must be an array'') (
      createDecision (JObj
        [(''id'', oget (oget input ''target'') ''decisionId''), (''claimId'', oget claim ''id''), (''claimVersion'', oget claim ''version''),
         (''scopeId'', oget scope ''id''), (''scopeVersion'', oget scope ''version''), (''type'', oget input ''outcome''),
         (''content'', oget normative ''decisionContent''), (''actorId'', cr_actorId cr), (''actorRole'', cr_actorRole cr),
         (''evidenceRefs'', JArr (factIds @ elems authorityEvidenceRefs)), (''validUntil'', oget normative ''validUntil'')]) now))"

text \<open>The mapping and the conformance of a claim to the facts of a candidate.\<close>

definition governed_members :: "jsv \<Rightarrow> jsv \<Rightarrow> (string \<times> jsv) list" where
  "governed_members claim scope =
     [(''claimId'', oget claim ''id''), (''claimVersion'', oget claim ''version''),
      (''scopeId'', oget scope ''id''), (''scopeVersion'', oget scope ''version'')]"

definition candidate_mapping :: "int option \<Rightarrow> string \<Rightarrow> string \<Rightarrow> jsv \<Rightarrow> jsv \<Rightarrow> (string \<times> jsv) list \<Rightarrow> jsv res" where
  "candidate_mapping now runId candidateId run candidate governed =
     createImplementationMapping (JObj (governed @
       [(''snapshotManifestId'', oget run ''snapshotManifestId''), (''sourceComponentId'', oget run ''sourceComponentId''),
        (''sourceRunId'', JStr runId), (''sourceCandidateId'', JStr candidateId), (''factRefs'', oget candidate ''evidence'')])) now"

definition candidate_conformance ::
  "int option \<Rightarrow> jsv \<Rightarrow> (string \<times> jsv) list \<Rightarrow> jsv \<Rightarrow> jsv \<Rightarrow> jsv list \<Rightarrow> (string \<times> jsv) list \<Rightarrow> jsv res" where
  "candidate_conformance now run governed mapping status factIds analysisMethod =
     createImplementationConformance (JObj (governed @
       [(''snapshotManifestId'', oget run ''snapshotManifestId''), (''mappingId'', oget mapping ''id''), (''status'', status),
        (''evidenceRefs'', JArr factIds), (''analysisMethod'', JObj analysisMethod)])) now"

definition check_baseline_input :: "jsv \<Rightarrow> unit res" where
  "check_baseline_input input =
     throw_if (\<not> is_plain_object (oget input ''target'')) (TypeErr ''target is required'') (
     throw_if (\<not> is_plain_object (oget input ''normative'')) (TypeErr ''normative is required'') (
     bnd (assertOnlyFields (oget input ''target'')
       [''featureMode'', ''featureId'', ''claimId'', ''scopeId'', ''decisionId'', ''featureName'', ''businessDomain'', ''featureDescription'',
        ''associationRationale''] ''target'') (\<lambda>_.
     assertOnlyFields (oget input ''normative'')
       [''statement'', ''constraint'', ''scope'', ''effectiveFrom'', ''effectiveTo'', ''authorityEvidenceRefs'', ''decisionContent'', ''validUntil'']
       ''normative'')))"

definition candidate_baseline ::
  "(string \<Rightarrow> string \<Rightarrow> int) \<Rightarrow> int option \<Rightarrow> string \<Rightarrow> string \<Rightarrow> string \<Rightarrow> string \<Rightarrow> candidate_review \<Rightarrow> jsv \<Rightarrow> mapping_store \<Rightarrow> jsv res" where
  "candidate_baseline lc now fingerprint projectId runId candidateId cr input s =
     (let normative = oget input ''normative'' in
      bnd (check_baseline_input input) (\<lambda>_.
      bnd (selected_feature lc now projectId runId cr input s) (\<lambda>(featureId, feature, selectedFeature).
      throw_if (\<not> is_plain_object (oget normative ''constraint''))
        (TypeErr ''normative.constraint is required for deterministic conformance assessment'') (
      bnd (createClaimScope (JObj
        [(''id'', oget (oget input ''target'') ''scopeId''), (''version'', JNum 1), (''scope'', oget normative ''scope''),
         (''effectiveFrom'', oget normative ''effectiveFrom''), (''effectiveTo'', oget normative ''effectiveTo'')]) now) (\<lambda>scope.
      bnd (evidence_support cr) (\<lambda>evidenceSupport.
      bnd (evidence_fact_ids (cr_candidate cr)) (\<lambda>factIds.
      bnd (candidate_claim now runId candidateId cr input featureId evidenceSupport scope) (\<lambda>claim.
      bnd (candidate_decision now cr input scope claim factIds) (\<lambda>decision.
      let governed = governed_members claim scope in
      bnd (candidate_mapping now runId candidateId (cr_run cr) (cr_candidate cr) governed) (\<lambda>mapping.
      bnd (conformance_status (cr_conflicts cr) (oget claim ''constraint'') (oget (cr_candidate cr) ''constraint'')) (\<lambda>status.
      bnd (candidate_conformance now (cr_run cr) governed mapping status factIds
             [(''type'', JStr ''DETERMINISTIC_CONSTRAINT_COMPARISON''), (''version'', JStr ''1.0.0''), (''reverseRunId'', JStr runId),
              (''candidateId'', JStr candidateId)]) (\<lambda>conformance.
      bnd (review_record now fingerprint runId candidateId cr input (JObj
             [(''featureId'', featureId), (''featureVersion'', oget selectedFeature ''version''), (''scopeId'', oget scope ''id''),
              (''scopeVersion'', oget scope ''version''), (''claimId'', oget claim ''id''), (''claimVersion'', oget claim ''version''),
              (''decisionId'', oget decision ''id''), (''implementationMappingId'', oget mapping ''id''),
              (''conformanceId'', oget conformance ''id'')])) (\<lambda>review.
      Inr (JObj
        [(''review'', review), (''feature'', feature), (''scope'', scope), (''claim'', claim), (''decision'', decision),
         (''implementationMapping'', mapping), (''conformance'', conformance)]))))))))))))))"

subsection \<open>The review\<close>

definition declined_candidate :: "int option \<Rightarrow> string \<Rightarrow> string \<Rightarrow> string \<Rightarrow> candidate_review \<Rightarrow> jsv \<Rightarrow> jsv res" where
  "declined_candidate now fingerprint runId candidateId cr input =
     throw_if (oget input ''target'' \<noteq> JUndef \<or> oget input ''normative'' \<noteq> JUndef \<or> oget input ''candidateFeatureId'' \<noteq> JUndef)
       (TypeErr (js_string (oget input ''outcome'') @ '' review must not create a normative baseline'')) (
     bnd (review_record now fingerprint runId candidateId cr input JNull) (\<lambda>review.
     Inr (JObj ((''review'', review) #
       map (\<lambda>k. (k, JNull)) [''feature'', ''scope'', ''claim'', ''decision'', ''implementationMapping'', ''conformance'']))))"

definition app_reviewReverseCandidate ::
  "(string \<Rightarrow> string \<Rightarrow> int) \<Rightarrow> review_env \<Rightarrow> string \<Rightarrow> string \<Rightarrow> string \<Rightarrow> jsv \<Rightarrow> jsv \<Rightarrow> mapping_store \<Rightarrow> (mapping_store \<times> jsv) res" where
  "app_reviewReverseCandidate lc env projectId runId candidateId input requestContext s =
     bnd (review_request env projectId runId candidateId input requestContext s) (\<lambda>cr.
     let fingerprint = request_fingerprint projectId runId candidateId cr input;
         existingReview = getReverseCandidateReview projectId (JStr runId) (JStr candidateId) s
     in
     if truthy existingReview
     then throw_if (\<not> strict_eq (oget (oget existingReview ''review'') ''id'') (oget input ''id'') \<or>
              oget (oget existingReview ''review'') ''requestFingerprint'' \<noteq> JStr fingerprint)
            (ConflictErr (''Candidate '' @ candidateId @ '' already has an immutable review'')) (Inr (s, existingReview))
     else bnd (if one_of baselining_outcomes (oget input ''outcome'')
               then candidate_baseline lc (ae_clock env) fingerprint projectId runId candidateId cr input s
               else declined_candidate (ae_clock env) fingerprint runId candidateId cr input) (\<lambda>package.
          appendReverseCandidateReview projectId package s))"

definition app_listReverseCandidateReviews :: "(string \<Rightarrow> string \<Rightarrow> int) \<Rightarrow> string \<Rightarrow> string \<Rightarrow> mapping_store \<Rightarrow> jsv list res" where
  "app_listReverseCandidateReviews lc projectId runId s =
     bnd (requireId (JStr projectId) ''projectId'') (\<lambda>_.
     bnd (requireId (JStr runId) ''runId'') (\<lambda>_. Inr (listReverseCandidateReviews lc projectId (JStr runId) s)))"

subsection \<open>Reanalysis of a governed claim\<close>

definition string_without_text :: "jsv \<Rightarrow> bool" where
  "string_without_text v \<longleftrightarrow> \<not> is_string v \<or> js_trim (str_of v) = []"

record reanalysis_input =
  ri_analysisId :: jsv
  ri_sourceRunId :: string
  ri_sourceCandidateId :: string
  ri_rationale :: jsv
  ri_acknowledged :: "jsv list"

definition check_reanalysis_input :: "string \<Rightarrow> string \<Rightarrow> string \<Rightarrow> jsv \<Rightarrow> reanalysis_input res" where
  "check_reanalysis_input projectId featureId claimId input =
     bnd (requireId (JStr projectId) ''projectId'') (\<lambda>_.
     bnd (requireId (JStr featureId) ''featureId'') (\<lambda>_.
     bnd (requireId (JStr claimId) ''claimId'') (\<lambda>_.
     bnd (require_input input ''implementation reanalysis input'') (\<lambda>_.
     bnd (assertOnlyFields input [''id'', ''sourceRunId'', ''sourceCandidateId'', ''rationale'', ''acknowledgedConflictIds'']
       ''implementationReanalysis'') (\<lambda>_.
     bnd (requireId (oget input ''id'') ''implementationReanalysis.id'') (\<lambda>analysisId.
     bnd (requireId (oget input ''sourceRunId'') ''implementationReanalysis.sourceRunId'') (\<lambda>sourceRunId.
     bnd (requireId (oget input ''sourceCandidateId'') ''implementationReanalysis.sourceCandidateId'') (\<lambda>sourceCandidateId.
     bnd (requireId (oget input ''rationale'') ''implementationReanalysis.rationale'') (\<lambda>rationale.
     let acknowledgedIds = coalesce (oget input ''acknowledgedConflictIds'') (JArr []); acknowledged = elems acknowledgedIds in
     throw_if (\<not> is_array acknowledgedIds \<or> list_ex string_without_text acknowledged \<or>
         length (js_value_set acknowledged) \<noteq> length acknowledged)
       (TypeErr ''acknowledgedConflictIds must be an array of unique non-empty strings'')
       (Inr \<lparr>ri_analysisId = analysisId, ri_sourceRunId = str_of sourceRunId, ri_sourceCandidateId = str_of sourceCandidateId,
             ri_rationale = rationale, ri_acknowledged = acknowledged\<rparr>))))))))))"

definition resolve_implementation_actor :: "jsv \<Rightarrow> (jsv \<times> jsv) res" where
  "resolve_implementation_actor reviewer =
     throw_if (\<not> truthy reviewer) (AuthenticationErr ''A trusted implementation reviewer identity is required'') (
     bnd (requireId (oget reviewer ''actorId'') ''implementationReviewer.actorId'') (\<lambda>actorId.
     bnd (requireId (oget reviewer ''actorRole'') ''implementationReviewer.actorRole'') (\<lambda>actorRole.
     Inr (actorId, actorRole))))"

text \<open>The claim to analyse: the current version of it in the feature, with a confirming latest decision.\<close>

definition governed_claim ::
  "(string \<Rightarrow> string \<Rightarrow> int) \<Rightarrow> string \<Rightarrow> string \<Rightarrow> string \<Rightarrow> mapping_store \<Rightarrow> (mapped_baseline \<times> claim_view) res" where
  "governed_claim lc projectId featureId claimId s =
     (case getMappedBaseline lc projectId (JStr featureId) s of
        None \<Rightarrow> Inl (ConflictErr (''Feature '' @ featureId @ '' does not exist in project '' @ projectId))
      | Some baseline \<Rightarrow>
          (case find (\<lambda>v. strict_eq (oget (cv_claim v) ''id'') (JStr claimId)) (fb_claims baseline) of
             None \<Rightarrow> Inl (ConflictErr (''Claim '' @ claimId @ '' does not belong to Feature '' @ featureId))
           | Some governed \<Rightarrow>
               throw_if (\<not> one_of baselining_outcomes (oget (cv_latestDecision governed) ''type''))
                 (ConflictErr ''Implementation reanalysis requires a currently authorized normative Claim'')
                 (Inr (baseline, governed))))"

definition candidate_conflicts :: "reanalysis_input \<Rightarrow> jsv \<Rightarrow> jsv list res" where
  "candidate_conflicts ri run =
     bnd (related_conflicts (oget run ''mergedOutput'') (JStr (ri_sourceCandidateId ri))) (\<lambda>conflicts.
     throw_if (unrelated_acknowledged (ri_acknowledged ri) conflicts)
       (TypeErr ''acknowledgedConflictIds contains a conflict unrelated to the candidate'') (
     throw_if (unacknowledged (ri_acknowledged ri) conflicts)
       (TypeErr ''Every related conflict must be explicitly acknowledged for implementation reanalysis'') (Inr conflicts)))"

definition reanalysis_fingerprint :: "string \<Rightarrow> string \<Rightarrow> jsv \<Rightarrow> jsv \<Rightarrow> jsv \<Rightarrow> jsv \<Rightarrow> string" where
  "reanalysis_fingerprint projectId featureId claim actorId actorRole input =
     contentId ''IMPLEMENTATION-REANALYSIS-REQUEST'' (JObj
       [(''projectId'', JStr projectId), (''featureId'', JStr featureId), (''claimId'', oget claim ''id''),
        (''claimVersion'', oget claim ''version''), (''actorId'', actorId), (''actorRole'', actorRole), (''input'', input)])"

definition claim_members :: "jsv \<Rightarrow> (string \<times> jsv) list" where
  "claim_members claim =
     [(''claimId'', oget claim ''id''), (''claimVersion'', oget claim ''version''),
      (''scopeId'', oget claim ''scopeId''), (''scopeVersion'', oget claim ''scopeVersion'')]"

text \<open>The stored analysis when the mapping or the conformance is known, otherwise the new one is appended.\<close>

definition put_analysis ::
  "string \<Rightarrow> mapped_baseline \<Rightarrow> jsv \<Rightarrow> string \<Rightarrow> jsv \<Rightarrow> jsv \<Rightarrow> mapping_store \<Rightarrow> (mapping_store \<times> jsv) res" where
  "put_analysis projectId baseline analysisId fingerprint mapping conformance s =
     (let with_id = \<lambda>v. find (\<lambda>x. strict_eq (oget x ''id'') (oget v ''id''));
          package = \<lambda>m c. JObj [(''implementationMapping'', m), (''conformance'', c)]
      in
      case (with_id mapping (fb_implementationMappings baseline), with_id conformance (fb_conformances baseline)) of
        (None, None) \<Rightarrow> appendImplementationAnalysis projectId (package mapping conformance) s
      | (Some m, Some c) \<Rightarrow>
          throw_if (\<not> strict_eq (oget (oget c ''analysisMethod'') ''analysisId'') analysisId \<or>
              oget (oget c ''analysisMethod'') ''requestFingerprint'' \<noteq> JStr fingerprint)
            (ConflictErr (''Implementation mapping '' @ js_string (oget mapping ''id'') @ '' already has a different immutable analysis''))
            (Inr (s, package m c))
      | _ \<Rightarrow> Inl (ConflictErr (''Implementation mapping '' @ js_string (oget mapping ''id'') @ '' already has a different immutable analysis'')))"

definition app_reanalyzeImplementation ::
  "(string \<Rightarrow> string \<Rightarrow> int) \<Rightarrow> review_env \<Rightarrow> string \<Rightarrow> string \<Rightarrow> string \<Rightarrow> jsv \<Rightarrow> jsv \<Rightarrow> mapping_store \<Rightarrow> (mapping_store \<times> jsv) res" where
  "app_reanalyzeImplementation lc env projectId featureId claimId input requestContext s =
     bnd (check_reanalysis_input projectId featureId claimId input) (\<lambda>ri.
     let reviewer = re_implementationReviewerResolver env projectId requestContext; now = ae_clock env in
     bnd (resolve_implementation_actor reviewer) (\<lambda>(actorId, actorRole).
     let policy = coalesce (re_implementationPolicyResolver env projectId
            (JObj [(''reviewer'', reviewer), (''featureId'', JStr featureId), (''claimId'', JStr claimId)])) (JObj []) in
     bnd (require_role (oget policy ''allowedRoles'') actorRole '' cannot approve implementation reanalysis in this project'') (\<lambda>_.
     bnd (governed_claim lc projectId featureId claimId s) (\<lambda>(baseline, governed).
     bnd (reviewable_candidate projectId (ri_sourceRunId ri) (ri_sourceCandidateId ri)
            ''Implementation reanalysis requires a successful ReverseRun waiting for review'' s) (\<lambda>(run, candidate).
     bnd (candidate_conflicts ri run) (\<lambda>conflicts.
     let claim = cv_claim governed; members = claim_members claim;
         fingerprint = reanalysis_fingerprint projectId featureId claim actorId actorRole input
     in
     bnd (candidate_mapping now (ri_sourceRunId ri) (ri_sourceCandidateId ri) run candidate members) (\<lambda>mapping.
     bnd (evidence_fact_ids candidate) (\<lambda>factIds.
     bnd (conformance_status conflicts (oget claim ''constraint'') (oget candidate ''constraint'')) (\<lambda>status.
     bnd (candidate_conformance now run members mapping status factIds
            [(''type'', JStr ''AUTHORIZED_REVERSE_REANALYSIS''), (''version'', JStr ''1.0.0''), (''analysisId'', ri_analysisId ri),
             (''requestFingerprint'', JStr fingerprint), (''sourceRunId'', JStr (ri_sourceRunId ri)),
             (''sourceCandidateId'', JStr (ri_sourceCandidateId ri)), (''actorId'', actorId), (''actorRole'', actorRole),
             (''rationale'', ri_rationale ri), (''acknowledgedConflictIds'', JArr (ri_acknowledged ri))]) (\<lambda>conformance.
     put_analysis projectId baseline (ri_analysisId ri) fingerprint mapping conformance s))))))))))"

subsection \<open>What a request passes\<close>

lemma find_item_Inr:
  "find_item i xs = Inr x \<Longrightarrow> x \<noteq> JUndef \<Longrightarrow> x \<in> set xs \<and> strict_eq (oget x ''id'') i"
  by (induction xs) (auto simp: bnd_eq_Inr pget_Inr simp del: oget_simps split: if_splits)

text \<open>The run waits for review and has the candidate.\<close>

definition reviewable :: "string \<Rightarrow> string \<Rightarrow> string \<Rightarrow> mapping_store \<Rightarrow> jsv \<Rightarrow> jsv \<Rightarrow> bool" where
  "reviewable p runId candidateId s run candidate \<longleftrightarrow>
     map_of (ms_reverseRuns s) (id_key p (JStr runId)) = Some run \<and> oget run ''status'' = JStr ''WAITING_REVIEW'' \<and>
     candidate \<in> set (elems (oget (oget run ''mergedOutput'') ''candidateClaims'')) \<and> oget candidate ''id'' = JStr candidateId"

lemma get_truthy: "truthy (get coll k) \<Longrightarrow> map_of coll k = Some (get coll k)"
  by (auto simp: get_def split: option.splits)

lemma reviewable_candidate_Inr:
  assumes "reviewable_candidate p runId candidateId m s = Inr (run, candidate)"
  shows "reviewable p runId candidateId s run candidate"
proof -
  from assms obtain claims where r: "run = getReverseRun p (JStr runId) s" "truthy (getReverseRun p (JStr runId) s)"
    "oget run ''status'' = JStr ''WAITING_REVIEW''" "array_elems (oget (oget run ''mergedOutput'') ''candidateClaims'') = Inr claims"
    "find_item (JStr candidateId) claims = Inr candidate" "truthy candidate"
    unfolding reviewable_candidate_def Let_def throw_if_eq_Inr bnd_eq_Inr sum.inject prod.inject de_Morgan_disj not_not
    apply (elim exE conjE)
    apply (rule that)
         apply (erule sym)
        apply assumption
       apply (simp only:)
      apply (simp only:)
     apply (simp only:)
    apply (simp only:)
    done
  have "candidate \<noteq> JUndef" using r(6) by auto
  from find_item_Inr [OF r(5) this] have c: "candidate \<in> set claims" "oget candidate ''id'' = JStr candidateId" by simp_all
  have "elems (oget (oget run ''mergedOutput'') ''candidateClaims'') = claims" using r(4) by (cases "oget (oget run ''mergedOutput'') ''candidateClaims''") simp_all
  with c r(1,3) get_truthy [OF r(2) [unfolded getReverseRun_def]] show ?thesis
    unfolding reviewable_def getReverseRun_def by (simp only: simp_thms)
qed

text \<open>The conflicts of a run that name a candidate.\<close>

definition naming_conflicts :: "jsv \<Rightarrow> string \<Rightarrow> jsv set" where
  "naming_conflicts run candidateId = {c \<in> set (elems (oget (oget run ''mergedOutput'') ''conflicts'')).
     JStr candidateId \<in> set (elems (oget c ''candidateIds''))}"

lemma arr_includes_str: "arr_includes xs (JStr i) \<longleftrightarrow> JStr i \<in> set xs"
  by (auto simp: arr_includes_def list_ex_iff)

lemma related_conflicts_naming:
  assumes "related_conflicts (oget run ''mergedOutput'') (JStr candidateId) = Inr cs"
  shows "naming_conflicts run candidateId \<subseteq> set cs"
proof
  fix c assume c: "c \<in> naming_conflicts run candidateId"
  from assms obtain xs where xs: "array_elems (oget (oget run ''mergedOutput'') ''conflicts'') = Inr xs"
    "filterR (\<lambda>c. bnd (pget c ''candidateIds'') (\<lambda>ids. js_includes ids (JStr candidateId))) xs = Inr cs"
    unfolding related_conflicts_def bnd_eq_Inr by (elim exE conjE)
  have "elems (oget (oget run ''mergedOutput'') ''conflicts'') = xs"
    using xs(1) by (cases "oget (oget run ''mergedOutput'') ''conflicts''") simp_all
  with c have "c \<in> set xs" "JStr candidateId \<in> set (elems (oget c ''candidateIds''))"
    by (simp_all add: naming_conflicts_def del: oget_simps)
  moreover from this(2) obtain ids where ids: "oget c ''candidateIds'' = JArr ids" "JStr candidateId \<in> set ids"
    by (cases "oget c ''candidateIds''") simp_all
  have "pget c ''candidateIds'' = Inr (JArr ids)" using oget_not_undef [of c "''candidateIds''"] ids(1) by (simp add: pget_Inr del: oget_simps)
  ultimately show "c \<in> set cs"
    using ids(2) unfolding filterR_Inr [OF xs(2)] by (simp add: js_includes_def arr_includes_str)
qed

lemma unacknowledged_iff: "\<not> unacknowledged as cs \<Longrightarrow> c \<in> set cs \<Longrightarrow> oget c ''id'' \<in> set as"
  by (auto simp: unacknowledged_def list_ex_iff arr_includes_def simp del: oget_simps dest!: strict_eqD)

lemma review_request_run:
  assumes "review_request env p runId candidateId input ctx s = Inr cr"
  obtains reviewer policy where
    "reviewer = ae_reviewerResolver env p ctx"
    "policy = coalesce (ae_reviewPolicyResolver env p (JObj [(''reviewer'', reviewer), (''run'', cr_run cr), (''candidate'', cr_candidate cr)])) (JObj [])"
    "cr_actorId cr = oget reviewer ''actorId''" "cr_actorRole cr = oget reviewer ''actorRole''"
    "reviewable p runId candidateId s (cr_run cr) (cr_candidate cr)"
    "role_allowed (oget policy ''allowedRoles'') (cr_actorRole cr)"
    "role_allowed (oget policy ''allowedOutcomes'') (oget input ''outcome'')"
    "cr_acknowledged cr = elems (coalesce (oget input ''acknowledgedConflictIds'') (JArr []))"
    "related_conflicts (oget (cr_run cr) ''mergedOutput'') (JStr candidateId) = Inr (cr_conflicts cr)"
    "oget input ''outcome'' = JStr ''CONFIRMED'' \<longrightarrow> cr_conflicts cr = []"
    "oget input ''outcome'' = JStr ''EXCEPTION_RECORDED'' \<longrightarrow> \<not> unacknowledged (cr_acknowledged cr) (cr_conflicts cr)"
  using assms unfolding review_request_def Let_def bnd_eq_Inr throw_if_eq_Inr split_paired_Ex prod.case resolve_actor_Inr require_role_Inr sum.inject
  apply (elim exE conjE)
  apply hypsubst
  apply (rule that)
            apply (rule refl)
           apply (rule refl)
          apply (simp only: candidate_review.simps)
         apply (simp only: candidate_review.simps)
        apply (simp only: candidate_review.simps reviewable_candidate_Inr)
       apply (simp only: candidate_review.simps not_not)
      apply (simp only: candidate_review.simps not_not)
     apply (simp only: candidate_review.simps)
    apply (simp only: candidate_review.simps)
   apply (simp only: candidate_review.simps simp_thms de_Morgan_conj not_not, iprover)
  apply (simp only: candidate_review.simps simp_thms de_Morgan_conj, iprover)
  done

subsection \<open>The records of a review\<close>

lemma review_record_members:
  assumes "review_record now fingerprint runId candidateId cr input baselineRefs = Inr v"
  shows "is_string (oget input ''id'')" "oget v ''id'' = oget input ''id''" "oget v ''requestFingerprint'' = JStr fingerprint"
    "oget v ''runId'' = JStr runId" "oget v ''candidateId'' = JStr candidateId"
    "nullish baselineRefs \<Longrightarrow> oget v ''baselineRefs'' = JNull" "is_plain_object baselineRefs \<Longrightarrow> oget v ''baselineRefs'' = baselineRefs"
    "one_of baselining_outcomes (oget input ''outcome'') \<longleftrightarrow> oget v ''baselineRefs'' \<noteq> JNull"
proof -
  let ?in = "JObj
       [(''id'', oget input ''id''), (''requestFingerprint'', JStr fingerprint), (''runId'', JStr runId), (''candidateId'', JStr candidateId),
        (''outcome'', oget input ''outcome''), (''rationale'', oget input ''rationale''),
        (''actorId'', cr_actorId cr), (''actorRole'', cr_actorRole cr),
        (''acknowledgedConflictIds'', JArr (cr_acknowledged cr)), (''baselineRefs'', baselineRefs)]"
  have m0: "oget ?in ''id'' = oget input ''id''" "oget ?in ''requestFingerprint'' = JStr fingerprint" "oget ?in ''runId'' = JStr runId"
    "oget ?in ''candidateId'' = JStr candidateId" "oget ?in ''outcome'' = oget input ''outcome''" "oget ?in ''baselineRefs'' = baselineRefs"
    by simp_all
  from assms obtain es refs where es: "mk_obj es = Inr v"
    and refs: "(if nullish baselineRefs then Inr JNull else requireObject baselineRefs ''candidateReview.baselineRefs'') = Inr refs"
    and b: "one_of [''CONFIRMED'', ''EXCEPTION_RECORDED''] (oget input ''outcome'') = truthy refs"
    and m: "map_of es ''id'' = Some (requireNonEmptyString (oget input ''id'') ''candidateReview.id'')"
      "map_of es ''requestFingerprint'' = Some (requireNonEmptyString (JStr fingerprint) ''candidateReview.requestFingerprint'')"
      "map_of es ''runId'' = Some (requireNonEmptyString (JStr runId) ''candidateReview.runId'')"
      "map_of es ''candidateId'' = Some (requireNonEmptyString (JStr candidateId) ''candidateReview.candidateId'')"
      "map_of es ''baselineRefs'' = Some (Inr refs)"
    unfolding review_record_def createReverseCandidateReview_def Let_def m0 throw_if_eq_Inr bnd_eq_Inr assertEnum_Inr not_not
    apply (elim exE conjE)
    apply (rule that)
           apply assumption
          apply assumption
         apply (simp only:)
        apply simp_all
    done
  note mm = mk_obj_member [OF es m(1)] mk_obj_member [OF es m(2)] mk_obj_member [OF es m(3)] mk_obj_member [OF es m(4)] mk_obj_member [OF es m(5)]
  show "is_string (oget input ''id'')" "oget v ''id'' = oget input ''id''" "oget v ''requestFingerprint'' = JStr fingerprint"
    "oget v ''runId'' = JStr runId" "oget v ''candidateId'' = JStr candidateId"
    using mm by (auto simp: requireNonEmptyString_Inr is_string_iff simp del: oget_simps)
  have r: "oget v ''baselineRefs'' = refs" using mm(5) by simp
  show "nullish baselineRefs \<Longrightarrow> oget v ''baselineRefs'' = JNull" "is_plain_object baselineRefs \<Longrightarrow> oget v ''baselineRefs'' = baselineRefs"
    using refs unfolding r by (auto simp: is_plain_object_iff requireObject_Inr)
  have "truthy refs \<longleftrightarrow> refs \<noteq> JNull"
    using refs by (auto simp: requireObject_Inr is_plain_object_iff split: if_splits)
  with b show "one_of baselining_outcomes (oget input ''outcome'') \<longleftrightarrow> oget v ''baselineRefs'' \<noteq> JNull"
    unfolding r baselining_outcomes_def by simp
qed

lemma candidate_baseline_run:
  assumes "candidate_baseline lc now fingerprint p runId candidateId cr input s = Inr package"
  obtains review feature scope claim decision mapping conformance status factIds how refs where
    "package = JObj [(''review'', review), (''feature'', feature), (''scope'', scope), (''claim'', claim), (''decision'', decision),
         (''implementationMapping'', mapping), (''conformance'', conformance)]"
    "candidate_decision now cr input scope claim factIds = Inr decision"
    "conformance_status (cr_conflicts cr) (oget claim ''constraint'') (oget (cr_candidate cr) ''constraint'') = Inr status"
    "candidate_conformance now (cr_run cr) (governed_members claim scope) mapping status factIds how = Inr conformance"
    "candidate_mapping now runId candidateId (cr_run cr) (cr_candidate cr) (governed_members claim scope) = Inr mapping"
    "review_record now fingerprint runId candidateId cr input (JObj refs) = Inr review"
  using assms unfolding candidate_baseline_def Let_def throw_if_eq_Inr bnd_eq_Inr split_paired_Ex prod.case sum.inject
  apply (elim exE conjE)
  apply (rule that)
       apply (erule sym)
      apply assumption
     apply assumption
    apply assumption
   apply assumption
  apply assumption
  done

lemma declined_candidate_run:
  assumes "declined_candidate now fingerprint runId candidateId cr input = Inr package"
  obtains review fs where "oget package ''review'' = review" "package = JObj fs" "review_record now fingerprint runId candidateId cr input JNull = Inr review"
  using assms unfolding declined_candidate_def throw_if_eq_Inr bnd_eq_Inr sum.inject
  by (elim exE conjE) (rule that, auto)

lemma appendReverseCandidateReview_run:
  assumes "appendReverseCandidateReview p package s = Inr (s', r)"
  defines "k \<equiv> store_key p (pair_key (oget (oget package ''review'') ''runId'') (oget (oget package ''review'') ''candidateId''))"
  obtains (kept) existing where "map_of (ms_candidateReviews s) k = Some existing" "same_value existing package" "s' = s" "r = existing"
  | (fresh) t where "map_of (ms_candidateReviews s) k = None" "r = package"
      "oget (oget package ''review'') ''baselineRefs'' \<noteq> JNull \<Longrightarrow> check_baseline_package p package s = Inr ()"
      "t = (if oget (oget package ''review'') ''baselineRefs'' \<noteq> JNull then put_baseline_package p package s else s)"
      "s' = t\<lparr>ms_candidateReviews := AList.update k package (ms_candidateReviews t),
          ms_candidateReviewIds := AList.update (id_key p (oget (oget package ''review'') ''id'')) k (ms_candidateReviewIds t)\<rparr>"
proof (cases "map_of (ms_candidateReviews s) k")
  case (Some existing)
  have "same_value existing package \<and> s' = s \<and> r = existing"
    using assms(1) unfolding appendReverseCandidateReview_def Let_def k_def [symmetric] Some option.case throw_if_eq_Inr not_not sum.inject prod.inject by iprover
  with kept [OF Some] show ?thesis by iprover
next
  case None
  let ?b = "oget (oget package ''review'') ''baselineRefs'' \<noteq> JNull"
  let ?t = "if ?b then put_baseline_package p package s else s"
  from assms(1) obtain u where u: "(if ?b then check_baseline_package p package s else Inr ()) = Inr u"
    and s': "?t\<lparr>ms_candidateReviews := AList.update k package (ms_candidateReviews ?t),
        ms_candidateReviewIds := AList.update (id_key p (oget (oget package ''review'') ''id'')) k (ms_candidateReviewIds ?t)\<rparr> = s'"
    and r: "package = r"
    unfolding appendReverseCandidateReview_def Let_def k_def [symmetric] None option.case throw_if_eq_Inr bnd_eq_Inr sum.inject prod.inject
    by (elim conjE exE)
  have "check_baseline_package p package s = Inr ()" if ?b using u unfolding if_P [OF that] by (cases u) (simp only:)
  from fresh [OF None r [symmetric] this refl s' [symmetric]] show ?thesis by assumption
qed

text \<open>The package of an accepted review.\<close>

lemma app_review_run:
  assumes "app_reviewReverseCandidate lc env p runId candidateId input ctx s = Inr (s', r)"
  obtains (stored) cr where "review_request env p runId candidateId input ctx s = Inr cr"
      "truthy (getReverseCandidateReview p (JStr runId) (JStr candidateId) s)"
      "strict_eq (oget (oget r ''review'') ''id'') (oget input ''id'')"
      "oget (oget r ''review'') ''requestFingerprint'' = JStr (request_fingerprint p runId candidateId cr input)"
      "s' = s" "r = getReverseCandidateReview p (JStr runId) (JStr candidateId) s"
  | (new) cr package where "review_request env p runId candidateId input ctx s = Inr cr"
      "\<not> truthy (getReverseCandidateReview p (JStr runId) (JStr candidateId) s)"
      "(if one_of baselining_outcomes (oget input ''outcome'')
        then candidate_baseline lc (ae_clock env) (request_fingerprint p runId candidateId cr input) p runId candidateId cr input s
        else declined_candidate (ae_clock env) (request_fingerprint p runId candidateId cr input) runId candidateId cr input) = Inr package"
      "appendReverseCandidateReview p package s = Inr (s', r)"
proof (cases "truthy (getReverseCandidateReview p (JStr runId) (JStr candidateId) s)")
  case True
  from assms obtain cr where "review_request env p runId candidateId input ctx s = Inr cr"
    "strict_eq (oget (oget (getReverseCandidateReview p (JStr runId) (JStr candidateId) s) ''review'') ''id'') (oget input ''id'')"
    "oget (oget (getReverseCandidateReview p (JStr runId) (JStr candidateId) s) ''review'') ''requestFingerprint'' = JStr (request_fingerprint p runId candidateId cr input)"
    "s' = s" "r = getReverseCandidateReview p (JStr runId) (JStr candidateId) s"
    unfolding app_reviewReverseCandidate_def Let_def bnd_eq_Inr if_P [OF True] throw_if_eq_Inr de_Morgan_disj not_not sum.inject prod.inject
    apply (elim exE conjE)
    apply (rule that)
        apply assumption
       apply assumption
      apply assumption
     apply (erule sym)
    apply (erule sym)
    done
  from stored [OF this(1) True _ _ this(4,5)] this(2,3) show ?thesis unfolding \<open>r = _\<close> by iprover
next
  case False
  from assms show ?thesis
    unfolding app_reviewReverseCandidate_def Let_def bnd_eq_Inr if_not_P [OF False]
    by (elim exE conjE) (rule new [OF _ False])
qed

subsection \<open>Baselines need authority\<close>

definition reviewer_policy :: "review_env \<Rightarrow> string \<Rightarrow> jsv \<Rightarrow> jsv \<Rightarrow> jsv \<Rightarrow> jsv" where
  "reviewer_policy env p ctx run candidate = coalesce (ae_reviewPolicyResolver env p
     (JObj [(''reviewer'', ae_reviewerResolver env p ctx), (''run'', run), (''candidate'', candidate)])) (JObj [])"

text \<open>
  Who may record which outcome for a candidate: a role of the policy, an outcome of the policy, a run that
  waits for review, and an exception that acknowledges every conflict naming the candidate.
\<close>

definition authorised_baseline :: "review_env \<Rightarrow> string \<Rightarrow> string \<Rightarrow> jsv \<Rightarrow> jsv \<Rightarrow> jsv \<Rightarrow> jsv \<Rightarrow> bool" where
  "authorised_baseline env p candidateId ctx input run candidate \<longleftrightarrow>
     (let policy = reviewer_policy env p ctx run candidate in
      role_allowed (oget policy ''allowedRoles'') (oget (ae_reviewerResolver env p ctx) ''actorRole'') \<and>
      role_allowed (oget policy ''allowedOutcomes'') (oget input ''outcome'')) \<and>
     one_of baselining_outcomes (oget input ''outcome'') \<and>
     (\<forall>c\<in>naming_conflicts run candidateId. oget input ''outcome'' = JStr ''EXCEPTION_RECORDED'' \<and>
        oget c ''id'' \<in> set (elems (oget input ''acknowledgedConflictIds'')))"

lemma elems_given: "elems (coalesce v (JArr [])) = elems v"
  by (cases v) simp_all

lemma request_authorised:
  assumes "review_request env p runId candidateId input ctx s = Inr cr" "one_of baselining_outcomes (oget input ''outcome'')"
  shows "authorised_baseline env p candidateId ctx input (cr_run cr) (cr_candidate cr)"
  using assms(1)
proof (rule review_request_run, goal_cases)
  case (1 reviewer policy)
  have p: "policy = reviewer_policy env p ctx (cr_run cr) (cr_candidate cr)" unfolding 1(2,1) reviewer_policy_def ..
  have "\<forall>c\<in>naming_conflicts (cr_run cr) candidateId. oget input ''outcome'' = JStr ''EXCEPTION_RECORDED'' \<and>
      oget c ''id'' \<in> set (elems (oget input ''acknowledgedConflictIds''))"
  proof
    fix c assume that: "c \<in> naming_conflicts (cr_run cr) candidateId"
    have c: "c \<in> set (cr_conflicts cr)" using related_conflicts_naming [OF 1(9)] that by blast
    then have "oget input ''outcome'' \<noteq> JStr ''CONFIRMED''" using 1(10) by auto
    with assms(2) have e: "oget input ''outcome'' = JStr ''EXCEPTION_RECORDED''"
      by (simp add: one_of_iff baselining_outcomes_def del: oget_simps)
    with 1(11) unacknowledged_iff [OF _ c] show "oget input ''outcome'' = JStr ''EXCEPTION_RECORDED'' \<and>
      oget c ''id'' \<in> set (elems (oget input ''acknowledgedConflictIds''))" unfolding 1(8) elems_given by simp
  qed
  with 1(6,7) assms(2) show ?case unfolding authorised_baseline_def Let_def p [symmetric] 1(4,1) by iprover
qed

lemma candidate_decision_members:
  assumes "candidate_decision now cr input scope claim factIds = Inr d"
  shows "oget d ''type'' = oget input ''outcome''" "oget d ''actorId'' = cr_actorId cr" "oget d ''actorRole'' = cr_actorRole cr"
    "oget d ''claimId'' = oget claim ''id''"
proof -
  from assms obtain refs where "createDecision (JObj
        [(''id'', oget (oget input ''target'') ''decisionId''), (''claimId'', oget claim ''id''), (''claimVersion'', oget claim ''version''),
         (''scopeId'', oget scope ''id''), (''scopeVersion'', oget scope ''version''), (''type'', oget input ''outcome''),
         (''content'', oget (oget input ''normative'') ''decisionContent''), (''actorId'', cr_actorId cr), (''actorRole'', cr_actorRole cr),
         (''evidenceRefs'', refs), (''validUntil'', oget (oget input ''normative'') ''validUntil'')]) now = Inr d"
    unfolding candidate_decision_def Let_def throw_if_eq_Inr by (elim conjE)
  then show "oget d ''type'' = oget input ''outcome''" "oget d ''actorId'' = cr_actorId cr" "oget d ''actorRole'' = cr_actorRole cr"
    "oget d ''claimId'' = oget claim ''id''"
    by (rule createDecision_run, simp add: assertEnum_Inr requireNonEmptyString_Inr del: One_nat_def)+
qed

lemma put_review_store:
  "ms_store (put_baseline_package p package s\<lparr>ms_candidateReviews := a, ms_candidateReviewIds := b\<rparr>) = ms_store (put_baseline_package p package s)"
  by simp

lemma reviewed_baseline:
  assumes run: "app_reviewReverseCandidate lc env p runId candidateId input ctx s = Inr (s', r)" and new: "ms_store s' \<noteq> ms_store s"
  shows "\<exists>run candidate. reviewable p runId candidateId s run candidate \<and> authorised_baseline env p candidateId ctx input run candidate \<and>
    check_baseline_package p r s = Inr () \<and> ms_store s' = ms_store (put_baseline_package p r s) \<and>
    oget (oget r ''decision'') ''type'' = oget input ''outcome'' \<and>
    oget (oget r ''decision'') ''actorId'' = oget (ae_reviewerResolver env p ctx) ''actorId'' \<and>
    oget (oget r ''decision'') ''claimId'' = oget (oget r ''claim'') ''id''"
  using run
proof (cases rule: app_review_run)
  case (new cr package)
  from new(4) show ?thesis
  proof (cases rule: appendReverseCandidateReview_run)
    case (fresh t)
    have b: "oget (oget package ''review'') ''baselineRefs'' \<noteq> JNull"
    proof
      assume "oget (oget package ''review'') ''baselineRefs'' = JNull"
      then have "t = s" using fresh(4) by (simp only: simp_thms if_False)
      with fresh(5) \<open>ms_store s' \<noteq> ms_store s\<close> show False by simp
    qed
    have o: "one_of baselining_outcomes (oget input ''outcome'')"
    proof (rule ccontr)
      assume n: "\<not> one_of baselining_outcomes (oget input ''outcome'')"
      from new(3) [unfolded if_not_P [OF n]] show False
      proof (rule declined_candidate_run)
        fix review fs assume r: "oget package ''review'' = review"
          "review_record (ae_clock env) (request_fingerprint p runId candidateId cr input) runId candidateId cr input JNull = Inr review"
        from review_record_members(6) [OF r(2)] b r(1) show False by simp
      qed
    qed
    have req: "reviewable p runId candidateId s (cr_run cr) (cr_candidate cr) \<and> cr_actorId cr = oget (ae_reviewerResolver env p ctx) ''actorId''"
      using new(1) by (rule review_request_run) iprover
    from new(3) [unfolded if_P [OF o]] show ?thesis
    proof (rule candidate_baseline_run)
      fix review feature scope claim decision mapping conformance status factIds how refs
      assume pk: "package = JObj [(''review'', review), (''feature'', feature), (''scope'', scope), (''claim'', claim), (''decision'', decision),
           (''implementationMapping'', mapping), (''conformance'', conformance)]"
        and d: "candidate_decision (ae_clock env) cr input scope claim factIds = Inr decision"
      have m: "oget r ''decision'' = decision" "oget r ''claim'' = claim" unfolding fresh(2) pk by simp_all
      have st: "ms_store s' = ms_store (put_baseline_package p r s)" unfolding fresh(5,4) fresh(2) if_P [OF b] by simp
      from req request_authorised [OF new(1) o] fresh(3) [OF b] st candidate_decision_members [OF d] show ?thesis
        unfolding m fresh(2) [symmetric] by (intro exI [of _ "cr_run cr"] exI [of _ "cr_candidate cr"]) (simp only: simp_thms)
    qed
  qed (use \<open>ms_store s' \<noteq> ms_store s\<close> in simp)
qed (use \<open>ms_store s' \<noteq> ms_store s\<close> in simp)

text \<open>
  C13: a candidate becomes a governed baseline only by an authorised human review. When a review changes the
  governed records, its run was waiting for review and holds the candidate, the policy allows the role of the
  reviewer and the outcome, which confirms or records an exception, and an outcome other than an exception
  leaves no conflict naming the candidate, an exception none unacknowledged. The change is exactly the baseline
  package, none of whose records existed, with a decision of that outcome by that reviewer on the new claim.
\<close>

theorem baseline_needs_authorised_review:
  assumes "app_reviewReverseCandidate lc env p runId candidateId input ctx s = Inr (s', r)" and "ms_store s' \<noteq> ms_store s"
  shows "\<exists>run candidate. reviewable p runId candidateId s run candidate \<and> authorised_baseline env p candidateId ctx input run candidate \<and>
    check_baseline_package p r s = Inr () \<and> ms_store s' = ms_store (put_baseline_package p r s) \<and>
    oget (oget r ''decision'') ''type'' = oget input ''outcome'' \<and>
    oget (oget r ''decision'') ''actorId'' = oget (ae_reviewerResolver env p ctx) ''actorId'' \<and>
    oget (oget r ''decision'') ''claimId'' = oget (oget r ''claim'') ''id''"
  using assms by (rule reviewed_baseline)

subsection \<open>A repeated review\<close>

lemma accepted_package:
  assumes "(if one_of baselining_outcomes (oget input ''outcome'')
      then candidate_baseline lc now fp p runId candidateId cr input s
      else declined_candidate now fp runId candidateId cr input) = Inr package"
  shows "\<exists>refs fs. package = JObj fs \<and> review_record now fp runId candidateId cr input refs = Inr (oget package ''review'')"
proof (cases "one_of baselining_outcomes (oget input ''outcome'')")
  case True
  from assms [unfolded if_P [OF True]] show ?thesis
  proof (rule candidate_baseline_run)
    fix review feature scope claim decision mapping conformance refs
    assume pk: "package = JObj [(''review'', review), (''feature'', feature), (''scope'', scope), (''claim'', claim), (''decision'', decision),
         (''implementationMapping'', mapping), (''conformance'', conformance)]"
      and "review_record now fp runId candidateId cr input (JObj refs) = Inr review"
    moreover have "oget package ''review'' = review" unfolding pk by simp
    ultimately show ?thesis by (simp only:) iprover
  qed
next
  case False
  from assms [unfolded if_not_P [OF False]] show ?thesis
    by (rule declined_candidate_run) (simp only:, iprover)
qed

lemma review_request_frame:
  assumes "ms_reverseRuns s' = ms_reverseRuns s"
  shows "review_request env p runId candidateId input ctx s' = review_request env p runId candidateId input ctx s"
  unfolding review_request_def reviewable_candidate_def getReverseRun_def get_def assms ..

text \<open>
  C26: a review is idempotent: the same request to the store it left, at whatever time, answers the stored
  review and changes nothing.
\<close>

theorem repeated_review_changes_nothing:
  assumes "app_reviewReverseCandidate lc env p runId candidateId input ctx s = Inr (s', r)"
  shows "app_reviewReverseCandidate lc' (env\<lparr>ae_clock := now\<rparr>) p runId candidateId input ctx s' = Inr (s', r)"
proof -
  have env: "review_request (env\<lparr>ae_clock := now\<rparr>) = review_request env" by (simp add: review_request_def fun_eq_iff)
  have again: "app_reviewReverseCandidate lc' (env\<lparr>ae_clock := now\<rparr>) p runId candidateId input ctx s' = Inr (s', r)"
    if "review_request env p runId candidateId input ctx s' = Inr cr" "getReverseCandidateReview p (JStr runId) (JStr candidateId) s' = r" "truthy r"
      "strict_eq (oget (oget r ''review'') ''id'') (oget input ''id'')"
      "oget (oget r ''review'') ''requestFingerprint'' = JStr (request_fingerprint p runId candidateId cr input)" for cr
    unfolding app_reviewReverseCandidate_def env that(1) bnd_simps Let_def that(2) if_P [OF that(3)] throw_if_def
    using that(4,5) by (simp del: oget_simps)
  from assms show ?thesis
  proof (cases rule: app_review_run)
    case (stored cr)
    from stored(1) stored(6) stored(2) stored(3,4) show ?thesis unfolding stored(5) [symmetric] by (intro again) (simp_all only:)
  next
    case (new cr package)
    let ?fp = "request_fingerprint p runId candidateId cr input"
    from accepted_package [OF new(3)] obtain refs fs where rec: "package = JObj fs"
      "review_record (ae_clock env) ?fp runId candidateId cr input refs = Inr (oget package ''review'')" by (elim exE conjE)
    note m = review_record_members [OF rec(2)]
    from new(4) show ?thesis
    proof (cases rule: appendReverseCandidateReview_run)
      case (kept existing)
      have "getReverseCandidateReview p (JStr runId) (JStr candidateId) s = existing"
        unfolding getReverseCandidateReview_def get_def using kept(1) unfolding m(4,5) by simp
      moreover have "truthy existing" using kept(2) unfolding same_value_def rec(1) by (rule canonical_object_truthy)
      ultimately show ?thesis using new(2) by simp
    next
      case (fresh t)
      have g: "getReverseCandidateReview p (JStr runId) (JStr candidateId) s' = r"
        unfolding fresh(5,2) getReverseCandidateReview_def get_def m(4,5) by (simp add: update_conv')
      have rr: "ms_reverseRuns s' = ms_reverseRuns s"
        unfolding fresh(5) by (simp add: fresh(4) put_baseline_package_def Let_def)
      have "truthy r" unfolding fresh(2) rec(1) by simp
      show ?thesis
      proof (rule again [OF _ g \<open>truthy r\<close>])
        show "review_request env p runId candidateId input ctx s' = Inr cr" using new(1) unfolding review_request_frame [OF rr] .
        show "strict_eq (oget (oget r ''review'') ''id'') (oget input ''id'')" unfolding fresh(2) m(2) using m(1) by (auto simp: is_string_iff)
        show "oget (oget r ''review'') ''requestFingerprint'' = JStr ?fp" unfolding fresh(2) m(3) ..
      qed
    qed
  qed
qed

subsection \<open>Reanalyses spare what is governed\<close>

lemma map_of_Inr_pairs: "map_of (map (\<lambda>(k, v). (k, Inr v)) es) k = map_option Inr (map_of es k)"
  by (induction es) auto

lemma createImplementationMapping_claim:
  assumes "createImplementationMapping input now = Inr m"
  shows "oget m ''claimId'' = oget input ''claimId''" "oget m ''claimVersion'' = oget input ''claimVersion''"
proof -
  let ?str = "\<lambda>k. requireNonEmptyString (oget input k) (''implementationMapping.'' @ k)"
  let ?num = "\<lambda>k. requirePositiveInteger (oget input k) (''implementationMapping.'' @ k)"
  from assms obtain identity i rest where
    p: "mk_props [(''claimId'', ?str ''claimId''), (''claimVersion'', ?num ''claimVersion''), (''scopeId'', ?str ''scopeId''),
         (''scopeVersion'', ?num ''scopeVersion''), (''snapshotManifestId'', ?str ''snapshotManifestId''),
         (''sourceComponentId'', ?str ''sourceComponentId''), (''sourceRunId'', ?str ''sourceRunId''),
         (''sourceCandidateId'', ?str ''sourceCandidateId'')] = Inr identity"
    and m: "mk_obj ((''id'', i) # map (\<lambda>(k, v). (k, Inr v)) identity @ rest) = Inr m"
    unfolding createImplementationMapping_def Let_def bnd_eq_Inr
    by (elim exE conjE) (rule that)
  have "oget m k = v" if "map_of identity k = Some v" "k \<noteq> ''id''" for k v
    using mk_obj_member [OF m, of k "Inr v"] that by (simp add: map_of_Inr_pairs)
  moreover obtain v where "?str ''claimId'' = Inr v" "map_of identity ''claimId'' = Some v"
    using mk_props_map_of [OF p, of "''claimId''"] by auto
  moreover obtain w where "?num ''claimVersion'' = Inr w" "map_of identity ''claimVersion'' = Some w"
    using mk_props_map_of [OF p, of "''claimVersion''"] by auto
  ultimately show "oget m ''claimId'' = oget input ''claimId''" "oget m ''claimVersion'' = oget input ''claimVersion''"
    by (auto simp: requireNonEmptyString_Inr requirePositiveInteger_Inr)
qed

definition implementation_policy :: "review_env \<Rightarrow> string \<Rightarrow> string \<Rightarrow> string \<Rightarrow> jsv \<Rightarrow> jsv" where
  "implementation_policy env p featureId claimId ctx = coalesce (re_implementationPolicyResolver env p
     (JObj [(''reviewer'', re_implementationReviewerResolver env p ctx), (''featureId'', JStr featureId), (''claimId'', JStr claimId)])) (JObj [])"

lemma resolve_implementation_actor_Inr:
  "resolve_implementation_actor reviewer = Inr (a, r) \<Longrightarrow> a = oget reviewer ''actorId'' \<and> r = oget reviewer ''actorRole''"
  by (auto simp: resolve_implementation_actor_def throw_if_eq_Inr bnd_eq_Inr requireId_Inr)

lemma check_reanalysis_input_Inr:
  assumes "check_reanalysis_input p featureId claimId input = Inr ri"
  shows "JStr (ri_sourceRunId ri) = oget input ''sourceRunId'' \<and> JStr (ri_sourceCandidateId ri) = oget input ''sourceCandidateId'' \<and>
    ri_acknowledged ri = elems (oget input ''acknowledgedConflictIds'')"
proof -
  from assms obtain a b c d where
    "ri = \<lparr>ri_analysisId = a, ri_sourceRunId = str_of b, ri_sourceCandidateId = str_of c, ri_rationale = d,
       ri_acknowledged = elems (coalesce (oget input ''acknowledgedConflictIds'') (JArr []))\<rparr>"
    "requireId (oget input ''sourceRunId'') ''implementationReanalysis.sourceRunId'' = Inr b"
    "requireId (oget input ''sourceCandidateId'') ''implementationReanalysis.sourceCandidateId'' = Inr c"
    unfolding check_reanalysis_input_def Let_def bnd_eq_Inr throw_if_eq_Inr sum.inject
    apply (elim exE conjE)
    apply (rule that)
      apply (erule sym)
     apply assumption
    apply assumption
    done
  then show ?thesis by (auto simp: requireId_Inr elems_given)
qed

lemma candidate_conflicts_acknowledged:
  assumes "candidate_conflicts ri run = Inr cs" "c \<in> naming_conflicts run (ri_sourceCandidateId ri)"
  shows "oget c ''id'' \<in> set (ri_acknowledged ri)"
proof -
  from assms(1) obtain ds where "related_conflicts (oget run ''mergedOutput'') (JStr (ri_sourceCandidateId ri)) = Inr ds"
    "\<not> unacknowledged (ri_acknowledged ri) ds" "ds = cs"
    unfolding candidate_conflicts_def bnd_eq_Inr throw_if_eq_Inr sum.inject by (elim exE conjE) (rule that)
  then have r: "related_conflicts (oget run ''mergedOutput'') (JStr (ri_sourceCandidateId ri)) = Inr cs" "\<not> unacknowledged (ri_acknowledged ri) cs"
    by (simp_all only: not_False_eq_True)
  from related_conflicts_naming [OF r(1)] assms(2) have "c \<in> set cs" by (rule subsetD)
  from unacknowledged_iff [OF r(2) this] show ?thesis .
qed

lemma governed_claim_Inr:
  assumes "governed_claim lc p featureId claimId s = Inr (baseline, governed)"
  shows "getMappedBaseline lc p (JStr featureId) s = Some baseline \<and> governed \<in> set (fb_claims baseline) \<and>
    oget (cv_claim governed) ''id'' = JStr claimId \<and> one_of baselining_outcomes (oget (cv_latestDecision governed) ''type'')"
proof -
  obtain b where b: "getMappedBaseline lc p (JStr featureId) s = Some b"
    using assms unfolding governed_claim_def by (cases "getMappedBaseline lc p (JStr featureId) s") (simp_all only: option.case sum.distinct)
  let ?find = "find (\<lambda>v. strict_eq (oget (cv_claim v) ''id'') (JStr claimId)) (fb_claims b)"
  obtain g where g: "?find = Some g"
    using assms unfolding governed_claim_def b option.case by (cases ?find) (simp_all only: option.case sum.distinct)
  have "one_of baselining_outcomes (oget (cv_latestDecision g) ''type'') \<and> b = baseline \<and> g = governed"
    using assms unfolding governed_claim_def b g option.case throw_if_eq_Inr not_not sum.inject prod.inject .
  with b find_SomeD' [OF g] show ?thesis by (simp only: strict_eq_str simp_thms) iprover
qed

lemma put_analysis_new:
  assumes "put_analysis p baseline a fp mapping conformance s = Inr (s', r)" "s' \<noteq> s"
  shows "appendImplementationAnalysis p (JObj [(''implementationMapping'', mapping), (''conformance'', conformance)]) s = Inr (s', r)"
  using assms by (auto simp: put_analysis_def Let_def throw_if_eq_Inr simp del: oget_simps split: option.splits)

text \<open>
  C14: a reanalysis ties the implementation to what is governed and changes none of it. When it changes the
  store, the policy allows the role of the reviewer, the claim is the current version of the claim in the
  feature and its latest decision confirms it or records an exception, the source run was waiting for review and
  holds the candidate, every conflict naming the candidate is acknowledged, and the change is one mapping of that
  version of the claim with one conformance, which passed the checks of the store and whose ids the project had
  not used: no stored mapping and no stored conformance is replaced, and nothing else in the store changes.
\<close>

theorem reanalysis_spares_governed_records:
  assumes "app_reanalyzeImplementation lc env p featureId claimId input ctx s = Inr (s', r)" and "s' \<noteq> s"
  shows "\<exists>baseline governed run candidate runId candidateId mapping conformance.
    role_allowed (oget (implementation_policy env p featureId claimId ctx) ''allowedRoles'')
      (oget (re_implementationReviewerResolver env p ctx) ''actorRole'') \<and>
    getMappedBaseline lc p (JStr featureId) s = Some baseline \<and> governed \<in> set (fb_claims baseline) \<and>
    oget (cv_claim governed) ''id'' = JStr claimId \<and> one_of baselining_outcomes (oget (cv_latestDecision governed) ''type'') \<and>
    oget input ''sourceRunId'' = JStr runId \<and> oget input ''sourceCandidateId'' = JStr candidateId \<and>
    reviewable p runId candidateId s run candidate \<and>
    (\<forall>c\<in>naming_conflicts run candidateId. oget c ''id'' \<in> set (elems (oget input ''acknowledgedConflictIds''))) \<and>
    oget mapping ''claimId'' = JStr claimId \<and> oget mapping ''claimVersion'' = oget (cv_claim governed) ''version'' \<and>
    check_analysis p mapping conformance s = Inr () \<and>
    map_of (ms_implementationMappings s) (id_key p (oget mapping ''id'')) = None \<and>
    map_of (ms_conformances s) (id_key p (oget conformance ''id'')) = None \<and>
    s' = s\<lparr>ms_implementationMappings := AList.update (id_key p (oget mapping ''id'')) mapping (ms_implementationMappings s),
           ms_conformances := AList.update (id_key p (oget conformance ''id'')) conformance (ms_conformances s)\<rparr>"
proof -
  let ?reviewer = "re_implementationReviewerResolver env p ctx"
  from assms(1) obtain ri actorId actorRole baseline governed run candidate cs mapping conformance fp now where
    ri: "check_reanalysis_input p featureId claimId input = Inr ri"
    and actor: "resolve_implementation_actor ?reviewer = Inr (actorId, actorRole)"
    and role: "role_allowed (oget (implementation_policy env p featureId claimId ctx) ''allowedRoles'') actorRole"
    and governed: "governed_claim lc p featureId claimId s = Inr (baseline, governed)"
    and run: "reviewable_candidate p (ri_sourceRunId ri) (ri_sourceCandidateId ri)
      ''Implementation reanalysis requires a successful ReverseRun waiting for review'' s = Inr (run, candidate)"
    and cs: "candidate_conflicts ri run = Inr cs"
    and mapping: "candidate_mapping now (ri_sourceRunId ri) (ri_sourceCandidateId ri) run candidate (claim_members (cv_claim governed)) = Inr mapping"
    and put: "put_analysis p baseline (ri_analysisId ri) fp mapping conformance s = Inr (s', r)"
    unfolding app_reanalyzeImplementation_def Let_def bnd_eq_Inr split_paired_Ex prod.case require_role_Inr
    apply (elim exE conjE)
    apply (rule that)
           apply assumption
          apply assumption
         apply (unfold implementation_policy_def, assumption)
        apply assumption
       apply assumption
      apply assumption
     apply assumption
    apply assumption
    done
  have actor': "actorRole = oget ?reviewer ''actorRole''" using resolve_implementation_actor_Inr [OF actor] by simp
  note g = governed_claim_Inr [OF governed] and i = check_reanalysis_input_Inr [OF ri]
  have m: "oget mapping ''claimId'' = JStr claimId" "oget mapping ''claimVersion'' = oget (cv_claim governed) ''version''"
    using createImplementationMapping_claim [OF mapping [unfolded candidate_mapping_def]] g by (simp_all add: claim_members_def)
  have ack: "\<forall>c\<in>naming_conflicts run (ri_sourceCandidateId ri). oget c ''id'' \<in> set (elems (oget input ''acknowledgedConflictIds''))"
    using candidate_conflicts_acknowledged [OF cs] i by simp
  from put_analysis_new [OF put assms(2)] show ?thesis
  proof (cases rule: appendImplementationAnalysis_cases)
    case fresh
    have o: "oget (JObj [(''implementationMapping'', mapping), (''conformance'', conformance)]) ''implementationMapping'' = mapping"
      "oget (JObj [(''implementationMapping'', mapping), (''conformance'', conformance)]) ''conformance'' = conformance" by simp_all
    from role g i reviewable_candidate_Inr [OF run] ack m fresh [unfolded o] show ?thesis
      unfolding actor'
      by (intro exI [of _ baseline] exI [of _ governed] exI [of _ run] exI [of _ candidate] exI [of _ "ri_sourceRunId ri"]
          exI [of _ "ri_sourceCandidateId ri"] exI [of _ mapping] exI [of _ conformance]) (simp only: simp_thms)
  qed (use assms(2) in simp)
qed

subsection \<open>A confirmed candidate\<close>

definition observed_constraint :: jsv where
  "observed_constraint = JObj [(''dimension'', JStr ''amount''), (''operator'', JStr ''EQUALS''), (''value'', JNum 1)]"

definition found_candidate :: jsv where
  "found_candidate = JObj
     [(''id'', JStr ''K1''), (''subjectKey'', JStr ''cart''), (''statements'', JArr []), (''constraint'', observed_constraint),
      (''sources'', JArr [JStr ''scan'']),
      (''evidence'', JArr [JObj [(''factId'', JStr ''FACT-2''), (''relation'', JStr ''IMPLEMENTS'')]])]"

definition waiting_run :: jsv where
  "waiting_run = JObj
     [(''id'', JStr ''R1''), (''status'', JStr ''WAITING_REVIEW''), (''snapshotManifestId'', JStr ''S2''), (''sourceComponentId'', JStr ''c''),
      (''mergedOutput'', JObj
        [(''candidateClaims'', JArr [found_candidate]), (''conflicts'', JArr []),
         (''candidateFeatures'', JArr [JObj
           [(''id'', JStr ''KF''), (''externalKey'', JStr ''cart''), (''name'', JStr ''Cart''), (''descriptions'', JArr [])]])])]"

definition waiting_store :: mapping_store where
  "waiting_store = empty_mapping_store\<lparr>ms_reverseRuns := [(store_key ''p'' ''R1'', waiting_run)]\<rparr>"

definition trusted_env :: review_env where
  "trusted_env = \<lparr>ae_reviewerResolver = \<lambda>p a. JObj [(''actorId'', JStr ''ana''), (''actorRole'', JStr ''OWNER'')],
     ae_reviewPolicyResolver = \<lambda>p c. JObj [(''allowedRoles'', JArr [JStr ''OWNER'']), (''allowedOutcomes'', JArr [JStr ''CONFIRMED''])],
     ae_actorIdentityResolver = \<lambda>a. JNull, ae_runnerKeyResolver = \<lambda>r p. JNull, ae_scannerKeyResolver = \<lambda>r p. JNull, ae_clock = Some 0,
     re_implementationReviewerResolver = \<lambda>p a. JObj [(''actorId'', JStr ''ben''), (''actorRole'', JStr ''LEAD'')],
     re_implementationPolicyResolver = \<lambda>p c. JObj [(''allowedRoles'', JArr [JStr ''LEAD''])]\<rparr>"

definition confirming_input :: jsv where
  "confirming_input = JObj
     [(''id'', JStr ''V1''), (''outcome'', JStr ''CONFIRMED''), (''rationale'', JStr ''ok''), (''candidateFeatureId'', JStr ''KF''),
      (''target'', JObj
        [(''featureMode'', JStr ''CREATE''), (''featureId'', JStr ''F1''), (''claimId'', JStr ''CL1''), (''scopeId'', JStr ''SC1''),
         (''decisionId'', JStr ''D1''), (''featureDescription'', JStr ''basket'')]),
      (''normative'', JObj
        [(''statement'', JStr ''one item''), (''constraint'', observed_constraint), (''scope'', JObj [])])]"

definition waiting_review :: candidate_review where
  "waiting_review = \<lparr>cr_actorId = JStr ''ana'', cr_actorRole = JStr ''OWNER'', cr_run = waiting_run, cr_candidate = found_candidate,
     cr_acknowledged = [], cr_conflicts = []\<rparr>"

definition new_cart :: jsv where
  "new_cart = JObj [(''id'', JStr ''F1''), (''version'', JNum 1), (''name'', JStr ''Cart''), (''businessDomain'', JNull),
     (''description'', JStr ''basket''), (''createdAt'', kept_time)]"

definition new_scope :: jsv where
  "new_scope = JObj [(''id'', JStr ''SC1''), (''version'', JNum 1), (''scope'', JObj []), (''effectiveFrom'', JNull),
     (''effectiveTo'', JNull), (''createdAt'', kept_time)]"

definition new_claim :: jsv where
  "new_claim = JObj
     [(''id'', JStr ''CL1''), (''version'', JNum 1), (''featureId'', JStr ''F1''), (''type'', JStr ''NORMATIVE_REQUIREMENT''),
      (''statement'', JStr ''one item''), (''sourceType'', JStr ''HUMAN''), (''evidenceSupport'', JStr ''SINGLE_SOURCE''),
      (''constraint'', observed_constraint), (''scopeId'', JStr ''SC1''), (''scopeVersion'', JNum 1),
      (''provenance'', JObj
        [(''kind'', JStr ''REVERSE_CANDIDATE_HUMAN_BASELINE''), (''reverseRunId'', JStr ''R1''), (''candidateId'', JStr ''K1''),
         (''candidateFeatureId'', JStr ''KF''), (''candidateFeatureAssociationRationale'', JNull),
         (''candidateStatements'', JArr []), (''candidateConstraint'', observed_constraint), (''candidateSources'', JArr [JStr ''scan'']),
         (''factEvidence'', oget found_candidate ''evidence'')]),
      (''createdAt'', kept_time)]"

definition new_decision :: jsv where
  "new_decision = JObj
     [(''id'', JStr ''D1''), (''claimId'', JStr ''CL1''), (''claimVersion'', JNum 1), (''scopeId'', JStr ''SC1''), (''scopeVersion'', JNum 1),
      (''type'', JStr ''CONFIRMED''), (''content'', JNull), (''actorId'', JStr ''ana''), (''actorRole'', JStr ''OWNER''),
      (''evidenceRefs'', JArr [JStr ''FACT-2'']), (''validUntil'', JNull), (''createdAt'', kept_time)]"

lemma confirming_request:
  "review_request trusted_env ''p'' ''R1'' ''K1'' confirming_input JNull waiting_store = Inr waiting_review"
  by code_simp

lemma confirming_input_ok:
  "check_baseline_input confirming_input = Inr ()"
  by code_simp

lemma confirming_feature:
  "selected_feature lc (Some 0) ''p'' ''R1'' waiting_review confirming_input waiting_store = Inr (JStr ''F1'', new_cart, new_cart)"
proof -
  have "getMappedBaseline lc ''p'' (JStr ''F1'') waiting_store = None"
    by (simp add: getMappedBaseline_def getFeatureBaseline_def waiting_store_def empty_mapping_store_def empty_store_def)
  moreover have "new_feature (Some 0) ''R1'' waiting_review confirming_input (JStr ''F1'') = Inr new_cart" by code_simp
  moreover have "oget (oget confirming_input ''target'') ''featureMode'' = JStr ''CREATE''"
    "oget (oget confirming_input ''target'') ''featureId'' = JStr ''F1''" by (simp_all add: confirming_input_def)
  ultimately show ?thesis
    by (simp add: selected_feature_def Let_def requireId_def js_trim_def is_space_def del: oget_simps)
qed

lemma confirming_support:
  "evidence_support waiting_review = Inr (JStr ''SINGLE_SOURCE'')"
  by code_simp

lemma confirming_facts:
  "evidence_fact_ids found_candidate = Inr [JStr ''FACT-2'']"
  by code_simp

lemma confirming_claim:
  "candidate_claim (Some 0) ''R1'' ''K1'' waiting_review confirming_input (JStr ''F1'') (JStr ''SINGLE_SOURCE'') new_scope = Inr new_claim"
  by code_simp

lemma confirming_decision:
  "candidate_decision (Some 0) waiting_review confirming_input new_scope new_claim [JStr ''FACT-2''] = Inr new_decision"
  by code_simp

lemma confirming_status:
  "conformance_status [] observed_constraint observed_constraint = Inr (JStr ''CONFORMS'')"
  by code_simp

lemma confirming_scope:
  "createClaimScope (JObj
     [(''id'', oget (oget confirming_input ''target'') ''scopeId''), (''version'', JNum 1),
      (''scope'', oget (oget confirming_input ''normative'') ''scope''),
      (''effectiveFrom'', oget (oget confirming_input ''normative'') ''effectiveFrom''),
      (''effectiveTo'', oget (oget confirming_input ''normative'') ''effectiveTo'')]) (Some 0) = Inr new_scope"
  by code_simp

lemma found_mapping:
  "governed = kept_governed \<Longrightarrow> candidate_mapping (Some 0) ''R1'' ''K1'' waiting_run found_candidate governed = Inr (carried_mapping carried_mapping_id)"
  using carried_mapping_created by (simp add: candidate_mapping_def waiting_run_def found_candidate_def)

text \<open>The conformance found, for whatever how of analysis.\<close>

definition found_conformance :: "(string \<times> jsv) list \<Rightarrow> jsv" where
  "found_conformance how = JObj ((''id'', JStr carried_conformance_id) # kept_governed @
     [(''snapshotManifestId'', JStr ''S2''), (''mappingId'', JStr carried_mapping_id), (''status'', JStr ''CONFORMS''),
      (''evidenceRefs'', JArr [JStr ''FACT-2'']), (''analysisMethod'', JObj how), (''computedAt'', kept_time)])"

lemma found_conformance_created:
  "governed = kept_governed \<Longrightarrow>
   candidate_conformance (Some 0) waiting_run governed (carried_mapping carried_mapping_id) (JStr ''CONFORMS'') [JStr ''FACT-2''] how
     = Inr (found_conformance how)"
proof -
  assume g: "governed = kept_governed"
  have "review_strings (JArr [JStr ''FACT-2'']) h = Inr (JArr [JStr ''FACT-2''])" for h by code_simp
  moreover have "assertEnum ConformanceStatus (JStr ''CONFORMS'') h = Inr (JStr ''CONFORMS'')" for h by code_simp
  moreover have "oget waiting_run ''snapshotManifestId'' = JStr ''S2''" by (simp add: waiting_run_def)
  moreover have "oget (carried_mapping d) ''id'' = JStr d" for d by (simp add: carried_mapping_def)
  ultimately show ?thesis
    by (simp add: g candidate_conformance_def createImplementationConformance_def Let_def kept_time_ok kept_strings carried_ids mk_obj_def
        found_conformance_def carried_conformance_id_def requireObject_def)
qed

lemma confirming_review_recorded:
  "\<exists>v. review_record (Some 0) (contentId (CHR ''C'' # p) w) ''R1'' ''K1'' waiting_review confirming_input (JObj refs) = Inr v"
proof -
  have i: "oget confirming_input ''id'' = JStr ''V1''" "oget confirming_input ''outcome'' = JStr ''CONFIRMED''"
    "oget confirming_input ''rationale'' = JStr ''ok''" by (simp_all add: confirming_input_def)
  have w: "cr_actorId waiting_review = JStr ''ana''" "cr_actorRole waiting_review = JStr ''OWNER''" "cr_acknowledged waiting_review = []"
    by (simp_all add: waiting_review_def)
  have "review_strings (JArr []) h = Inr (JArr [])" for h by code_simp
  moreover have "assertEnum CandidateReviewOutcome (JStr ''CONFIRMED'') h = Inr (JStr ''CONFIRMED'')" for h by code_simp
  moreover have "requireNonEmptyString (JStr ''V1'') h = Inr (JStr ''V1'')" "requireNonEmptyString (JStr ''ok'') h = Inr (JStr ''ok'')"
    "requireNonEmptyString (JStr ''ana'') h = Inr (JStr ''ana'')" "requireNonEmptyString (JStr ''OWNER'') h = Inr (JStr ''OWNER'')" for h
    by (simp_all add: requireNonEmptyString_Inr js_trim_def is_space_def)
  ultimately show ?thesis
    unfolding review_record_def createReverseCandidateReview_def i w
    by (simp add: Let_def kept_time_ok kept_strings mk_obj_def requireObject_def digest_id_string is_space_def)
qed

abbreviation confirming_fingerprint :: string where
  "confirming_fingerprint \<equiv> request_fingerprint ''p'' ''R1'' ''K1'' waiting_review confirming_input"

definition confirmed_package :: "jsv \<Rightarrow> (string \<times> jsv) list \<Rightarrow> jsv" where
  "confirmed_package review how = JObj
     [(''review'', review), (''feature'', new_cart), (''scope'', new_scope), (''claim'', new_claim), (''decision'', new_decision),
      (''implementationMapping'', carried_mapping carried_mapping_id), (''conformance'', found_conformance how)]"

lemma new_record_members:
  "oget new_scope ''id'' = JStr ''SC1''" "oget new_scope ''version'' = JNum 1" "oget new_claim ''id'' = JStr ''CL1''" "oget new_claim ''version'' = JNum 1"
  "oget new_claim ''constraint'' = observed_constraint" "oget found_candidate ''constraint'' = observed_constraint"
  "cr_run waiting_review = waiting_run" "cr_candidate waiting_review = found_candidate" "cr_conflicts waiting_review = []"
  "governed_members new_claim new_scope = kept_governed"
  by (simp_all add: new_scope_def new_claim_def found_candidate_def waiting_review_def governed_members_def)

lemma confirmed_baseline:
  "\<exists>review refs how. candidate_baseline lc (Some 0) confirming_fingerprint ''p'' ''R1'' ''K1'' waiting_review confirming_input waiting_store
     = Inr (confirmed_package review how) \<and>
     review_record (Some 0) confirming_fingerprint ''R1'' ''K1'' waiting_review confirming_input (JObj refs) = Inr review"
proof -
  define refs where "refs = [(''featureId'', JStr ''F1''), (''featureVersion'', oget new_cart ''version''), (''scopeId'', JStr ''SC1''),
              (''scopeVersion'', JNum 1), (''claimId'', JStr ''CL1''), (''claimVersion'', JNum 1),
              (''decisionId'', oget new_decision ''id''), (''implementationMappingId'', oget (carried_mapping carried_mapping_id) ''id''),
              (''conformanceId'', oget (found_conformance
                [(''type'', JStr ''DETERMINISTIC_CONSTRAINT_COMPARISON''), (''version'', JStr ''1.0.0''), (''reverseRunId'', JStr ''R1''),
                 (''candidateId'', JStr ''K1'')]) ''id'')]"
  obtain review where r: "review_record (Some 0) confirming_fingerprint ''R1'' ''K1'' waiting_review confirming_input (JObj refs) = Inr review"
    using confirming_review_recorded unfolding request_fingerprint_def by blast
  have c: "is_plain_object (oget (oget confirming_input ''normative'') ''constraint'')"
    by (simp add: confirming_input_def observed_constraint_def)
  have "candidate_baseline lc (Some 0) confirming_fingerprint ''p'' ''R1'' ''K1'' waiting_review confirming_input waiting_store
     = Inr (confirmed_package review [(''type'', JStr ''DETERMINISTIC_CONSTRAINT_COMPARISON''), (''version'', JStr ''1.0.0''),
         (''reverseRunId'', JStr ''R1''), (''candidateId'', JStr ''K1'')])"
    unfolding candidate_baseline_def Let_def confirming_input_ok confirming_feature bnd_simps prod.case throw_if_def
      if_not_P [OF c [THEN not_not [THEN iffD2]]] confirming_scope confirming_support new_record_members confirming_facts confirming_claim
      confirming_decision found_mapping [OF refl] confirming_status found_conformance_created [OF refl] refs_def [symmetric] r confirmed_package_def ..
  with r show ?thesis by iprover
qed

lemma confirmed_package_members:
  "oget (confirmed_package review how) ''review'' = review" "oget (confirmed_package review how) ''feature'' = new_cart"
  "oget (confirmed_package review how) ''scope'' = new_scope" "oget (confirmed_package review how) ''claim'' = new_claim"
  "oget (confirmed_package review how) ''decision'' = new_decision"
  "oget (confirmed_package review how) ''implementationMapping'' = carried_mapping carried_mapping_id"
  "oget (confirmed_package review how) ''conformance'' = found_conformance how"
  by (simp_all add: confirmed_package_def)

lemma confirmed_package_fresh: "check_baseline_package ''p'' (confirmed_package review how) waiting_store = Inr ()"
  by (simp add: project_values_def check_baseline_package_def confirmed_package_members Let_def waiting_store_def empty_mapping_store_def empty_store_def
      feature_exists_def new_cart_def new_scope_def new_claim_def new_decision_def carried_mapping_def found_conformance_def)

lemma confirmed_package_appended:
  assumes "review_record (Some 0) fp ''R1'' ''K1'' waiting_review confirming_input (JObj refs) = Inr review"
  shows "\<exists>s. appendReverseCandidateReview ''p'' (confirmed_package review how) waiting_store = Inr (s, confirmed_package review how) \<and>
    st_claims (ms_store s) \<noteq> []"
proof -
  note m = review_record_members [OF assms]
  have b: "oget review ''baselineRefs'' \<noteq> JNull" using m(7) by simp
  have "complete_package (confirmed_package review how)"
    by (simp add: complete_package_def confirmed_package_members new_cart_def new_scope_def new_claim_def new_decision_def
        carried_mapping_def found_conformance_def)
  moreover have "map_of (ms_reverseRuns waiting_store) (id_key ''p'' (JStr ''R1'')) = Some waiting_run"
    by (simp add: waiting_store_def id_key_def)
  moreover have "ms_candidateReviews waiting_store = []" "ms_candidateReviewIds waiting_store = []"
    by (simp_all add: waiting_store_def empty_mapping_store_def)
  moreover have "st_claims (ms_store (put_baseline_package ''p'' (confirmed_package review how) waiting_store)) \<noteq> []"
    by (simp add: put_baseline_package_def Let_def waiting_store_def empty_mapping_store_def empty_store_def)
  ultimately show ?thesis
    by (simp add: appendReverseCandidateReview_def Let_def confirmed_package_members(1) b m(4) confirmed_package_fresh del: oget_simps)
qed

lemma candidate_confirmed:
  "\<exists>s review how. app_reviewReverseCandidate lc trusted_env ''p'' ''R1'' ''K1'' confirming_input JNull waiting_store
     = Inr (s, confirmed_package review how) \<and> ms_store s \<noteq> ms_store waiting_store"
proof -
  from confirmed_baseline [of lc] obtain review refs how where
    c: "candidate_baseline lc (Some 0) confirming_fingerprint ''p'' ''R1'' ''K1'' waiting_review confirming_input waiting_store
       = Inr (confirmed_package review how)"
    and r: "review_record (Some 0) confirming_fingerprint ''R1'' ''K1'' waiting_review confirming_input (JObj refs) = Inr review" by iprover
  from confirmed_package_appended [OF r, of how] obtain s where
    s: "appendReverseCandidateReview ''p'' (confirmed_package review how) waiting_store = Inr (s, confirmed_package review how)"
      "st_claims (ms_store s) \<noteq> []" by (elim exE conjE)
  have "getReverseCandidateReview ''p'' (JStr ''R1'') (JStr ''K1'') waiting_store = JNull"
    by (simp add: getReverseCandidateReview_def get_def waiting_store_def empty_mapping_store_def)
  moreover have "one_of baselining_outcomes (oget confirming_input ''outcome'')" by (simp add: confirming_input_def baselining_outcomes_def)
  moreover have "ae_clock trusted_env = Some 0" by (simp add: trusted_env_def)
  ultimately have "app_reviewReverseCandidate lc trusted_env ''p'' ''R1'' ''K1'' confirming_input JNull waiting_store = Inr (s, confirmed_package review how)"
    by (simp add: app_reviewReverseCandidate_def confirming_request Let_def c s(1))
  moreover have "ms_store s \<noteq> ms_store waiting_store"
  proof
    assume "ms_store s = ms_store waiting_store"
    with s(2) show False by (simp add: waiting_store_def empty_mapping_store_def empty_store_def)
  qed
  ultimately show ?thesis by iprover
qed

theorem baseline_needs_authorised_review_witness:
  "\<exists>s r run candidate. app_reviewReverseCandidate (\<lambda>l r. 0) trusted_env ''p'' ''R1'' ''K1'' confirming_input JNull waiting_store = Inr (s, r) \<and>
     authorised_baseline trusted_env ''p'' ''K1'' JNull confirming_input run candidate \<and>
     oget (oget r ''decision'') ''actorId'' = JStr ''ana''"
proof -
  from candidate_confirmed [of "\<lambda>l r. 0"] obtain s review how where
    run: "app_reviewReverseCandidate (\<lambda>l r. 0) trusted_env ''p'' ''R1'' ''K1'' confirming_input JNull waiting_store
       = Inr (s, confirmed_package review how)" "ms_store s \<noteq> ms_store waiting_store" by (elim exE conjE)
  from baseline_needs_authorised_review [OF run] obtain r c where
    "authorised_baseline trusted_env ''p'' ''K1'' JNull confirming_input r c" by (elim exE conjE)
  moreover have "oget (oget (confirmed_package review how) ''decision'') ''actorId'' = JStr ''ana''"
    unfolding confirmed_package_members by (simp add: new_decision_def)
  ultimately show ?thesis using run(1) by iprover
qed

theorem repeated_review_changes_nothing_witness:
  "\<exists>s r. app_reviewReverseCandidate (\<lambda>l r. 0) trusted_env ''p'' ''R1'' ''K1'' confirming_input JNull waiting_store = Inr (s, r) \<and>
     app_reviewReverseCandidate (\<lambda>l r. 0) (trusted_env\<lparr>ae_clock := None\<rparr>) ''p'' ''R1'' ''K1'' confirming_input JNull s = Inr (s, r)"
proof -
  from candidate_confirmed [of "\<lambda>l r. 0"] obtain s r where
    run: "app_reviewReverseCandidate (\<lambda>l r. 0) trusted_env ''p'' ''R1'' ''K1'' confirming_input JNull waiting_store = Inr (s, r)" by (elim exE conjE)
  from repeated_review_changes_nothing [OF run] run show ?thesis by iprover
qed

subsection \<open>A reanalysed claim\<close>

definition confirmed_claim :: jsv where
  "confirmed_claim = JObj
     [(''id'', JStr ''CL1''), (''version'', JNum 1), (''featureId'', JStr ''F1''), (''scopeId'', JStr ''SC1''), (''scopeVersion'', JNum 1),
      (''constraint'', observed_constraint)]"

definition dated_confirmation :: "jsv \<Rightarrow> jsv" where
  "dated_confirmation until = JObj
     [(''id'', JStr ''D0''), (''claimId'', JStr ''CL1''), (''claimVersion'', JNum 1), (''type'', JStr ''CONFIRMED''), (''validUntil'', until)]"

definition confirmed_store :: "jsv \<Rightarrow> mapping_store" where
  "confirmed_store until = kept_store
     \<lparr>ms_store := (ms_store kept_store)
        \<lparr>st_claims := [(store_key ''p'' (pair_key (JStr ''CL1'') (JNum 1)), confirmed_claim)],
         st_decisions := [(store_key ''p'' ''D0'', dated_confirmation until)]\<rparr>,
      ms_reverseRuns := [(store_key ''p'' ''R1'', waiting_run)]\<rparr>"

definition reanalysis_request :: jsv where
  "reanalysis_request = JObj
     [(''id'', JStr ''A1''), (''sourceRunId'', JStr ''R1''), (''sourceCandidateId'', JStr ''K1''), (''rationale'', JStr ''rescan'')]"

definition requested_reanalysis :: reanalysis_input where
  "requested_reanalysis = \<lparr>ri_analysisId = JStr ''A1'', ri_sourceRunId = ''R1'', ri_sourceCandidateId = ''K1'',
     ri_rationale = JStr ''rescan'', ri_acknowledged = []\<rparr>"

lemma reanalysis_requested:
  "check_reanalysis_input ''p'' ''F1'' ''CL1'' reanalysis_request = Inr requested_reanalysis"
  "resolve_implementation_actor (re_implementationReviewerResolver trusted_env ''p'' JNull) = Inr (JStr ''ben'', JStr ''LEAD'')"
  "require_role (oget (coalesce (re_implementationPolicyResolver trusted_env ''p'' v) (JObj [])) ''allowedRoles'') (JStr ''LEAD'') m = Inr ()"
  "reviewable_candidate ''p'' ''R1'' ''K1'' ''Implementation reanalysis requires a successful ReverseRun waiting for review'' (confirmed_store until)
     = Inr (waiting_run, found_candidate)"
  "candidate_conflicts requested_reanalysis waiting_run = Inr []"
  by code_simp+

lemma confirmed_claim_governed:
  obtains b v where "governed_claim (\<lambda>l r. 0) ''p'' ''F1'' ''CL1'' (confirmed_store until) = Inr (b, v)" "cv_claim v = confirmed_claim"
    "fb_implementationMappings b = [kept_mapping]" "fb_conformances b = [kept_conformance]"
proof -
  have "case governed_claim (\<lambda>l r. 0) ''p'' ''F1'' ''CL1'' (confirmed_store until) of
      Inl _ \<Rightarrow> False
    | Inr bv \<Rightarrow> cv_claim (snd bv) = confirmed_claim \<and> fb_implementationMappings (fst bv) = [kept_mapping] \<and>
        fb_conformances (fst bv) = [kept_conformance]"
    by code_simp
  with that show ?thesis by (auto split: sum.splits)
qed

lemma confirmed_members: "claim_members confirmed_claim = kept_governed" "oget confirmed_claim ''constraint'' = observed_constraint"
  by (simp_all add: claim_members_def confirmed_claim_def)

lemma reanalysis_accepted:
  "check_analysis ''p'' (carried_mapping carried_mapping_id) (found_conformance how) (confirmed_store until) = Inr ()"
proof -
  have "check_analysis ''p'' (carried_mapping (''IMPLEMENTATION-MAPPING'' @ d)) (JObj ((''id'', JStr e) # kept_governed @
     [(''snapshotManifestId'', JStr ''S2''), (''mappingId'', JStr (''IMPLEMENTATION-MAPPING'' @ d)), (''status'', JStr ''CONFORMS''),
      (''evidenceRefs'', JArr [JStr ''FACT-2'']), (''analysisMethod'', JObj m), (''computedAt'', kept_time)])) (confirmed_store until) = Inr ()" for d e m
    by code_simp
  then show ?thesis unfolding found_conformance_def carried_mapping_id_def contentId_def by (simp only: append_assoc)
qed

lemma reanalysis_put:
  assumes "fb_implementationMappings b = [kept_mapping]" "fb_conformances b = [kept_conformance]"
  shows "\<exists>s r. put_analysis ''p'' b i fp (carried_mapping carried_mapping_id) (found_conformance how) (confirmed_store until) = Inr (s, r) \<and>
    ms_implementationMappings s \<noteq> ms_implementationMappings (confirmed_store until)"
proof -
  have ids: "oget (carried_mapping d) ''id'' = JStr d" "oget (found_conformance how) ''id'' = JStr carried_conformance_id"
    "oget kept_mapping ''id'' = JStr ''M1''" "oget kept_conformance ''id'' = JStr ''N1''" for d
    by (simp_all add: carried_mapping_def found_conformance_def kept_mapping_def kept_conformance_def)
  have new: "carried_mapping_id \<noteq> ''M1''" "carried_conformance_id \<noteq> ''N1''"
    by (simp_all add: carried_mapping_id_def carried_conformance_id_def contentId_def)
  have st: "ms_implementationMappings (confirmed_store until) = [(store_key ''p'' ''M1'', kept_mapping)]"
    "ms_conformances (confirmed_store until) = [(store_key ''p'' ''N1'', kept_conformance)]"
    by (simp_all add: confirmed_store_def kept_store_def)
  show ?thesis
    using new by (simp add: put_analysis_def Let_def assms ids appendImplementationAnalysis_def st id_key_def store_key_def reanalysis_accepted)
qed

lemma claim_reanalysed:
  "\<exists>s r. app_reanalyzeImplementation (\<lambda>l r. 0) trusted_env ''p'' ''F1'' ''CL1'' reanalysis_request JNull (confirmed_store until) = Inr (s, r) \<and> s \<noteq> (confirmed_store until)"
proof -
  obtain b v where g: "governed_claim (\<lambda>l r. 0) ''p'' ''F1'' ''CL1'' (confirmed_store until) = Inr (b, v)" "cv_claim v = confirmed_claim"
    and b: "fb_implementationMappings b = [kept_mapping]" "fb_conformances b = [kept_conformance]" by (rule confirmed_claim_governed)
  have ri: "ri_sourceRunId requested_reanalysis = ''R1''" "ri_sourceCandidateId requested_reanalysis = ''K1''"
    "ri_analysisId requested_reanalysis = JStr ''A1''" "ae_clock trusted_env = Some 0"
    by (simp_all add: requested_reanalysis_def trusted_env_def)
  note put = reanalysis_put [OF b, of "JStr ''A1''"]
  have "\<exists>fp how. app_reanalyzeImplementation (\<lambda>l r. 0) trusted_env ''p'' ''F1'' ''CL1'' reanalysis_request JNull (confirmed_store until)
    = put_analysis ''p'' b (JStr ''A1'') fp (carried_mapping carried_mapping_id) (found_conformance how) (confirmed_store until)"
    unfolding app_reanalyzeImplementation_def Let_def reanalysis_requested bnd_simps prod.case ri g confirmed_members found_mapping [OF refl] confirming_facts
      new_record_members confirming_status found_conformance_created [OF refl] by iprover
  then obtain fp how where eq: "app_reanalyzeImplementation (\<lambda>l r. 0) trusted_env ''p'' ''F1'' ''CL1'' reanalysis_request JNull (confirmed_store until)
    = put_analysis ''p'' b (JStr ''A1'') fp (carried_mapping carried_mapping_id) (found_conformance how) (confirmed_store until)" by (elim exE)
  from put [of fp how until] obtain s r where
    s: "put_analysis ''p'' b (JStr ''A1'') fp (carried_mapping carried_mapping_id) (found_conformance how) (confirmed_store until) = Inr (s, r)"
      "ms_implementationMappings s \<noteq> ms_implementationMappings (confirmed_store until)" by (elim exE conjE)
  from s(2) have "s \<noteq> (confirmed_store until)" by (rule contrapos_nn) (simp only:)
  with s(1) show ?thesis unfolding eq by iprover
qed

theorem reanalysis_spares_governed_records_witness:
  "\<exists>s r. app_reanalyzeImplementation (\<lambda>l r. 0) trusted_env ''p'' ''F1'' ''CL1'' reanalysis_request JNull (confirmed_store JNull) = Inr (s, r) \<and>
     s \<noteq> (confirmed_store JNull) \<and> ms_store s = ms_store (confirmed_store JNull)"
proof -
  from claim_reanalysed [of JNull] obtain s r where
    run: "app_reanalyzeImplementation (\<lambda>l r. 0) trusted_env ''p'' ''F1'' ''CL1'' reanalysis_request JNull (confirmed_store JNull) = Inr (s, r)" "s \<noteq> (confirmed_store JNull)"
    by (elim exE conjE)
  have "ms_store s = ms_store (confirmed_store JNull)"
    using reanalysis_spares_governed_records [OF run] by (elim exE conjE) simp
  with run show ?thesis by iprover
qed

text \<open>
  An expired confirmation still counts as current: the claim of a decision that the authority function calls
  deprecated at the time of the request is reanalysed.
\<close>

theorem expired_confirmation_is_reanalysed:
  "authorityFromDecision (dated_confirmation kept_time) (ae_clock trusted_env) = ''DEPRECATED'' \<and>
   (\<exists>s r. app_reanalyzeImplementation (\<lambda>l r. 0) trusted_env ''p'' ''F1'' ''CL1'' reanalysis_request JNull (confirmed_store kept_time) = Inr (s, r) \<and>
      s \<noteq> confirmed_store kept_time)"
proof
  show "authorityFromDecision (dated_confirmation kept_time) (ae_clock trusted_env) = ''DEPRECATED''" by code_simp
qed (rule claim_reanalysed)

end
