(* ===== verification/Governed_Store.thy ===== *)
theory Governed_Store
  imports Candidate_Review
begin

section \<open>The records of a project over whole runs\<close>

text \<open>
  Everything that writes governed records together: the operations of the store, the reverse runs,
  analyses, candidate reviews and change impacts of \<open>src/storage/memory-traceability-store.js\<close>, and the
  review of the application above them. Shown: over any sequence of these operations no stored record
  changes, and every reference in a store they reach can be followed.
\<close>

subsection \<open>Records stay\<close>

text \<open>The hash index has no list of its own to grow: an entry that names an owner keeps it.\<close>

definition owners_kept :: "collection \<Rightarrow> collection \<Rightarrow> bool" where
  "owners_kept a b \<longleftrightarrow> (\<forall>k v. map_of a k = Some v \<and> truthy v \<longrightarrow> map_of b k = Some v)"

definition records_kept :: "mapping_store \<Rightarrow> mapping_store \<Rightarrow> bool" where
  "records_kept s t \<longleftrightarrow> mapping_extends s t \<and> prefix (ms_candidateReviewIds s) (ms_candidateReviewIds t) \<and>
     owners_kept (st_evidenceHashes (ms_store s)) (st_evidenceHashes (ms_store t))"

lemma owners_kept_refl [simp]: "owners_kept a a"
  by (simp add: owners_kept_def)

lemma mapping_extends_trans: "mapping_extends s t \<Longrightarrow> mapping_extends t u \<Longrightarrow> mapping_extends s u"
  unfolding mapping_extends_def list_all_iff by (meson store_extends_trans prefix_order.trans)

lemma records_kept_refl [simp]: "records_kept s s"
  by (simp add: records_kept_def)

lemma records_kept_trans: "records_kept s t \<Longrightarrow> records_kept t u \<Longrightarrow> records_kept s u"
  unfolding records_kept_def owners_kept_def by (meson mapping_extends_trans prefix_order.trans)

text \<open>The owner check of a bundle is made on the store before it, for every item.\<close>

lemma checked_owners:
  assumes "foldR (check_evidence p s) () items = Inr u" and "item \<in> set items"
    and "map_of (st_evidenceHashes s) (hash_key p item) = Some v" and "truthy v"
  shows "oget item ''id'' = v"
  using assms
  by (induction items) (auto simp: check_evidence_def build_simps dest!: strict_eqD split: option.splits)

lemma put_all_evidence_owner:
  assumes "map_of (st_evidenceHashes s) k = Some v"
    and "\<And>item. item \<in> set items \<Longrightarrow> hash_key p item = k \<Longrightarrow> oget item ''id'' = v"
  shows "map_of (st_evidenceHashes (foldl (put_evidence p) s items)) k = Some v"
  using assms
proof (induction items arbitrary: s)
  case (Cons item items)
  have "map_of (st_evidenceHashes (put_evidence p s item)) k = Some v"
    using Cons.prems by (auto simp: put_evidence_def update_conv' simp del: oget_simps)
  with Cons show ?case by simp
qed simp

lemma execution_owners:
  assumes "appendExecutionEvidenceBundle p v s = Inr (s', r)"
  shows "owners_kept (st_evidenceHashes s) (st_evidenceHashes s')"
proof -
  from assms obtain executions evidence u where
    c: "foldR (check_evidence p s) () evidence = Inr u"
    and s': "s' = foldl (put_evidence p) (s\<lparr>st_executions := executions\<rparr>) evidence"
    by (auto simp: appendExecutionEvidenceBundle_def Let_def build_simps split: option.splits)
  show ?thesis
    unfolding owners_kept_def s' by (intro allI impI put_all_evidence_owner) (use checked_owners [OF c] in auto)
qed

lemma step_owners: "store_step l s s' \<Longrightarrow> owners_kept (st_evidenceHashes s) (st_evidenceHashes s')"
proof (induction rule: store_step.induct)
  case (do_execution p v s s' r)
  then show ?case by (rule execution_owners)
next
  case (do_review_event p v d s s' r)
  then obtain s1 m e where s1: "(truthy d \<and> appendDecision p d s = Inr (s1, d)) \<or> (\<not> truthy d \<and> s1 = s)"
    and s': "s' = s1\<lparr>st_decisionReviewMaterializations := m, st_decisionReviewEvents := e\<rparr>"
    by (rule review_event_run)
  have eq: "s1 = s\<lparr>st_decisions := st_decisions s1\<rparr>" using s1 appendDecision_result by auto
  show ?case unfolding s' by (simp, subst eq, simp)
qed (auto simp: operation_defs Let_def build_simps split: option.splits)

lemma candidate_review_ids:
  assumes "appendReverseCandidateReview p v s = Inr (s', r)"
  shows "prefix (ms_candidateReviewIds s) (ms_candidateReviewIds s') \<and>
    st_evidenceHashes (ms_store s') = st_evidenceHashes (ms_store s)"
proof -
  let ?k = "store_key p (pair_key (oget (oget v ''review'') ''runId'') (oget (oget v ''review'') ''candidateId''))"
  show ?thesis
  proof (cases "map_of (ms_candidateReviews s) ?k")
    case (Some existing)
    have "s' = s"
      using assms unfolding appendReverseCandidateReview_def Let_def Some option.case throw_if_eq_Inr sum.inject prod.inject by iprover
    then show ?thesis by simp
  next
    case None
    let ?b = "oget (oget v ''review'') ''baselineRefs'' \<noteq> JNull"
    let ?t = "if ?b then put_baseline_package p v s else s"
    have t: "ms_candidateReviewIds ?t = ms_candidateReviewIds s" "st_evidenceHashes (ms_store ?t) = st_evidenceHashes (ms_store s)"
      by (simp_all add: put_baseline_package_def Let_def)
    from assms obtain u where "(if ?b then check_baseline_package p v s else Inr ()) = Inr u" and n: "\<not> map_of (ms_candidateReviewIds s) (id_key p (oget (oget v ''review'') ''id'')) \<noteq> None"
      and s': "?t\<lparr>ms_candidateReviews := AList.update ?k v (ms_candidateReviews ?t),
          ms_candidateReviewIds := AList.update (id_key p (oget (oget v ''review'') ''id'')) ?k (ms_candidateReviewIds ?t)\<rparr> = s'"
      unfolding appendReverseCandidateReview_def Let_def None option.case throw_if_eq_Inr bnd_eq_Inr sum.inject prod.inject
      by (elim conjE exE) (rule that)
    have "ms_candidateReviewIds s' = AList.update (id_key p (oget (oget v ''review'') ''id'')) ?k (ms_candidateReviewIds s)"
      "st_evidenceHashes (ms_store s') = st_evidenceHashes (ms_store s)"
      unfolding s' [symmetric] t(1) [symmetric] t(2) [symmetric] by simp_all
    with n show ?thesis by (simp add: update_prefix)
  qed
qed

lemma mapping_step_keeps: "mapping_step p s s' \<Longrightarrow> records_kept s s'"
proof (frule mapping_step_extends, induction rule: mapping_step.induct)
  case (governed_write l s st)
  then show ?case by (simp add: records_kept_def step_owners)
next
  case (do_reverse_run v s s' r)
  then show ?case by (auto simp: records_kept_def appendReverseRun_def bnd_eq_Inr)
next
  case (do_analysis v s s' r)
  then show ?case
    by (cases rule: appendImplementationAnalysis_cases) (simp_all add: records_kept_def del: oget_simps)
next
  case (do_candidate_review v s s' r)
  then show ?case by (simp add: records_kept_def candidate_review_ids)
next
  case (do_change_impact v s s' r)
  from do_change_impact(1) show ?case
  proof (cases rule: appendChangeImpact_cases)
    case (fresh items t)
    from put_continuities_frame [OF fresh(3)] obtain m c where
      "t = s\<lparr>ms_implementationMappings := m, ms_conformances := c\<rparr>" unfolding fresh(4) .
    with do_change_impact(2) show ?thesis unfolding fresh(5) by (simp add: records_kept_def del: oget_simps)
  qed simp
qed

subsection \<open>References can be followed\<close>

text \<open>
  The package an accepted review stores: its records refer to each other. The store compares the scope of
  the decision by its identifier only and the feature of the claim not at all
  (\<open>appendReverseCandidateReview\<close>); it is the application that builds them to agree.
\<close>

lemma createFeatureVersion_id: "createFeatureVersion input now = Inr f \<Longrightarrow> oget f ''id'' = oget input ''id''"
  by (auto simp: createFeatureVersion_def build_simps requireNonEmptyString_Inr)

lemma createClaim_refs:
  assumes "createClaim input now = Inr c"
  shows "oget c ''featureId'' = oget input ''featureId''" "oget c ''scopeId'' = oget input ''scopeId''"
    "oget c ''scopeVersion'' = oget input ''scopeVersion''" "is_string (oget c ''featureId'')"
proof -
  note m = mk_obj_member [OF assms [unfolded createClaim_def]]
  have "requireNonEmptyString (oget input ''featureId'') ''claim.featureId'' = Inr (oget c ''featureId'')" by (rule m) simp
  moreover have "requireNonEmptyString (oget input ''scopeId'') ''claim.scopeId'' = Inr (oget c ''scopeId'')" by (rule m) simp
  moreover have "requirePositiveInteger (oget input ''scopeVersion'') ''claim.scopeVersion'' = Inr (oget c ''scopeVersion'')"
    by (rule m) simp
  ultimately show "oget c ''featureId'' = oget input ''featureId''" "oget c ''scopeId'' = oget input ''scopeId''"
    "oget c ''scopeVersion'' = oget input ''scopeVersion''" "is_string (oget c ''featureId'')"
    by (auto simp: requireNonEmptyString_Inr requirePositiveInteger_Inr simp del: oget_simps)
qed

lemma candidate_decision_refs:
  assumes "candidate_decision now cr input scope claim factIds = Inr d"
  shows "oget d ''claimId'' = oget claim ''id'' \<and> oget d ''claimVersion'' = oget claim ''version'' \<and>
    oget d ''scopeId'' = oget scope ''id'' \<and> oget d ''scopeVersion'' = oget scope ''version''"
proof -
  from assms obtain refs where "createDecision (JObj
        [(''id'', oget (oget input ''target'') ''decisionId''), (''claimId'', oget claim ''id''), (''claimVersion'', oget claim ''version''),
         (''scopeId'', oget scope ''id''), (''scopeVersion'', oget scope ''version''), (''type'', oget input ''outcome''),
         (''content'', oget (oget input ''normative'') ''decisionContent''), (''actorId'', cr_actorId cr), (''actorRole'', cr_actorRole cr),
         (''evidenceRefs'', refs), (''validUntil'', oget (oget input ''normative'') ''validUntil'')]) now = Inr d"
    unfolding candidate_decision_def Let_def throw_if_eq_Inr by (elim conjE)
  then show ?thesis
    by (rule createDecision_run) (simp add: requireNonEmptyString_Inr requirePositiveInteger_Inr)
qed

lemma selected_feature_id:
  assumes "selected_feature lc now p runId cr input s = Inr (featureId, feature, selected)"
  shows "feature = JNull \<or> oget feature ''id'' = featureId"
proof -
  let ?create = "oget (oget input ''target'') ''featureMode'' = JStr ''CREATE''"
  from assms obtain i where run: "(case (getMappedBaseline lc p i s, ?create) of
        (None, True) \<Rightarrow> bnd (new_feature now runId cr input i) (\<lambda>feature. Inr (i, feature, feature))
      | (Some _, True) \<Rightarrow> Inl (ConflictErr (''Feature '' @ js_string i @ '' already exists''))
      | (None, False) \<Rightarrow> Inl (ConflictErr (''Feature '' @ js_string i @ '' does not exist''))
      | (Some b, False) \<Rightarrow> bnd (check_existing_feature runId cr input) (\<lambda>_. Inr (i, JNull, fb_feature b)))
      = Inr (featureId, feature, selected)"
    unfolding selected_feature_def Let_def throw_if_eq_Inr bnd_eq_Inr by (elim exE conjE) (rule that)
  have "oget f ''id'' = i" if "new_feature now runId cr input i = Inr f" for f
  proof -
    from that obtain es where "createFeatureVersion (JObj ((''id'', i) # es)) now = Inr f"
      unfolding new_feature_def Let_def throw_if_eq_Inr bnd_eq_Inr by (elim exE conjE) (rule that)
    from createFeatureVersion_id [OF this] show ?thesis by simp
  qed
  with run show ?thesis
    by (cases "getMappedBaseline lc p i s"; cases ?create) (auto simp: bnd_eq_Inr simp del: oget_simps)
qed

definition linked_package :: "jsv \<Rightarrow> bool" where
  "linked_package package \<longleftrightarrow>
     (let feature = oget package ''feature''; scope = oget package ''scope''; claim = oget package ''claim'';
          decision = oget package ''decision''
      in (feature = JNull \<or> oget feature ''id'' = oget claim ''featureId'') \<and> is_string (oget claim ''featureId'') \<and>
        oget claim ''scopeId'' = oget scope ''id'' \<and> oget claim ''scopeVersion'' = oget scope ''version'' \<and>
        oget decision ''claimId'' = oget claim ''id'' \<and> oget decision ''claimVersion'' = oget claim ''version'' \<and>
        oget decision ''scopeId'' = oget scope ''id'' \<and> oget decision ''scopeVersion'' = oget scope ''version'')"

lemma candidate_baseline_linked:
  assumes "candidate_baseline lc now fingerprint p runId candidateId cr input s = Inr package"
  shows "linked_package package"
proof -
  from assms obtain featureId feature selected scope support claim factIds decision review mapping conformance where
    f: "selected_feature lc now p runId cr input s = Inr (featureId, feature, selected)"
    and c: "candidate_claim now runId candidateId cr input featureId support scope = Inr claim"
    and d: "candidate_decision now cr input scope claim factIds = Inr decision"
    and pk: "package = JObj [(''review'', review), (''feature'', feature), (''scope'', scope), (''claim'', claim), (''decision'', decision),
         (''implementationMapping'', mapping), (''conformance'', conformance)]"
    unfolding candidate_baseline_def Let_def throw_if_eq_Inr bnd_eq_Inr split_paired_Ex prod.case sum.inject
    apply (elim exE conjE)
    apply (rule that)
       apply assumption
      apply assumption
     apply assumption
    apply (erule sym)
    done
  have m: "oget package ''feature'' = feature" "oget package ''scope'' = scope" "oget package ''claim'' = claim"
    "oget package ''decision'' = decision" unfolding pk by simp_all
  note cl = createClaim_refs [OF c [unfolded candidate_claim_def Let_def]]
  have "oget claim ''featureId'' = featureId" "oget claim ''scopeId'' = oget scope ''id''"
    "oget claim ''scopeVersion'' = oget scope ''version''" unfolding cl(1-3) by simp_all
  with selected_feature_id [OF f] candidate_decision_refs [OF d] cl(4) show ?thesis
    unfolding linked_package_def Let_def m by (simp del: oget_simps)
qed

lemma entries_ok_mono: "entries_ok ok coll \<Longrightarrow> (\<And>k v. ok k v \<Longrightarrow> ok' k v) \<Longrightarrow> entries_ok ok' coll"
  unfolding entries_ok_def by blast

lemma put_linked_package_integrity:
  assumes ok: "check_baseline_package p package s = Inr ()" and linked: "linked_package package"
    and int: "store_integrity (ms_store s)"
  shows "store_integrity (ms_store (put_baseline_package p package s))"
proof -
  let ?f = "oget package ''feature''" and ?sc = "oget package ''scope''" and ?c = "oget package ''claim''"
    and ?d = "oget package ''decision''" and ?t = "ms_store (put_baseline_package p package s)"
  note fresh = check_baseline_package_fresh [OF ok]
  have ext: "store_extends (ms_store s) ?t"
    using put_baseline_package_extends [OF ok] by (simp add: mapping_extends_def)
  note l = linked [unfolded linked_package_def Let_def]
  have put: "st_features ?t = (if truthy ?f then AList.update (store_key p (version_key ?f)) ?f (st_features (ms_store s))
      else st_features (ms_store s))"
    "st_scopes ?t = AList.update (store_key p (version_key ?sc)) ?sc (st_scopes (ms_store s))"
    "st_claims ?t = st_claims (ms_store s) @ [(store_key p (version_key ?c), ?c)]"
    "st_decisions ?t = st_decisions (ms_store s) @ [(store_key p (js_string (oget ?d ''id'')), ?d)]"
    "st_testSpecs ?t = st_testSpecs (ms_store s)" "st_executions ?t = st_executions (ms_store s)"
    "st_factBundles ?t = st_factBundles (ms_store s)" "st_evidence ?t = st_evidence (ms_store s)"
    "st_chains ?t = st_chains (ms_store s)"
    using fresh(3,4) by (simp_all add: put_baseline_package_def Let_def update_fresh id_key_def del: oget_simps)
  have feature: "feature_exists p (oget ?c ''featureId'') ?t"
  proof (cases "truthy ?f")
    case True
    then have "?f \<noteq> JNull" by auto
    with l have i: "oget ?f ''id'' = oget ?c ''featureId''" by blast
    from l obtain n where "oget ?c ''featureId'' = JStr n" by (auto simp: is_string_iff simp del: oget_simps)
    moreover have "?f \<in> set (project_values p (st_features ?t))"
      using fresh(1) [OF True] True unfolding put(1) by (simp add: project_values_def update_fresh del: oget_simps)
    ultimately show ?thesis using i unfolding feature_exists_def list_ex_iff by (intro bexI [of _ ?f]) simp_all
  next
    case False
    with ok have "feature_exists p (oget ?c ''featureId'') (ms_store s)"
      unfolding check_baseline_package_def Let_def throw_if_eq_Inr by blast
    then show ?thesis by (rule extends_feature [OF ext])
  qed
  have scope: "map_of (st_scopes ?t) (store_key p (pair_key (oget ?c ''scopeId'') (oget ?c ''scopeVersion''))) = Some ?sc"
    unfolding put(2) using l by (simp add: version_key_def update_conv' del: oget_simps)
  have c_ok: "claim_ok ?t (store_key p (version_key ?c)) ?c" by (rule claim_okI [OF feature scope])
  have "map_of (st_claims ?t) (store_key p (version_key ?c)) = Some ?c"
    unfolding put(3) using fresh(3) by (simp add: map_add_def)
  then have "claim_of p ?d ?t = Some ?c" unfolding claim_of_def using l by (simp add: version_key_def del: oget_simps)
  then have d_ok: "decision_ok ?t (store_key p (js_string (oget ?d ''id''))) ?d"
  proof (rule decision_okI)
    from ok have "strict_eq (oget ?c ''scopeId'') (oget ?sc ''id'')" "strict_eq (oget ?c ''scopeVersion'') (oget ?sc ''version'')"
      unfolding check_baseline_package_def Let_def throw_if_eq_Inr bnd_eq_Inr by (simp_all only: de_Morgan_disj not_not simp_thms) iprover+
    with l show "scope_matches ?c ?d" unfolding scope_matches_def by (simp del: oget_simps)
  qed
  note i = int [unfolded store_integrity_def]
  have "entries_ok (claim_ok ?t) (st_claims ?t)"
  proof -
    have "entries_ok (claim_ok ?t) (st_claims (ms_store s))"
      by (rule entries_ok_mono [OF _ claim_ok_mono [OF ext]]) (use i in blast)
    with c_ok show ?thesis unfolding put(3) by (simp add: entries_ok_def del: oget_simps)
  qed
  moreover have "entries_ok (decision_ok ?t) (st_decisions ?t)"
  proof -
    have "entries_ok (decision_ok ?t) (st_decisions (ms_store s))"
      by (rule entries_ok_mono [OF _ decision_ok_mono [OF ext]]) (use i in blast)
    with d_ok show ?thesis unfolding put(4) by (simp add: entries_ok_def del: oget_simps)
  qed
  moreover have "entries_ok (test_spec_ok ?t) (st_testSpecs ?t)"
    unfolding put by (rule entries_ok_mono [OF _ test_spec_ok_mono [OF ext]]) (use i in blast)
  moreover have "entries_ok (execution_ok ?t) (st_executions ?t)"
    unfolding put by (rule entries_ok_mono [OF _ execution_ok_mono [OF ext]]) (use i in blast)
  moreover have "entries_ok (fact_bundle_ok ?t) (st_factBundles ?t)"
    unfolding put by (rule entries_ok_mono [OF _ fact_bundle_ok_mono [OF ext]]) (use i in blast)
  ultimately show ?thesis using i unfolding store_integrity_def put(8,9) by blast
qed

lemma reviewed_package_linked:
  assumes run: "app_reviewReverseCandidate lc env p runId candidateId input ctx s = Inr (s', r)" and new: "ms_store s' \<noteq> ms_store s"
  shows "linked_package r"
  using run
proof (cases rule: app_review_run)
  case (new cr package)
  from new(4) show ?thesis
  proof (cases rule: appendReverseCandidateReview_run)
    case (fresh t)
    have b: "oget (oget package ''review'') ''baselineRefs'' \<noteq> JNull"
    proof
      assume "oget (oget package ''review'') ''baselineRefs'' = JNull"
      then have "t = s" using fresh(4) by (simp only: simp_thms if_False)
      with fresh(5) \<open>ms_store s' \<noteq> ms_store s\<close> show False by simp
    qed
    have o: "one_of baselining_outcomes (oget input ''outcome'')"
    proof (rule ccontr)
      assume n: "\<not> one_of baselining_outcomes (oget input ''outcome'')"
      from new(3) [unfolded if_not_P [OF n]] show False
      proof (rule declined_candidate_run)
        fix review fs assume r: "oget package ''review'' = review"
          "review_record (ae_clock env) (request_fingerprint p runId candidateId cr input) runId candidateId cr input JNull = Inr review"
        from review_record_members(6) [OF r(2)] b r(1) show False by simp
      qed
    qed
    from new(3) [unfolded if_P [OF o]] show ?thesis unfolding fresh(2) by (rule candidate_baseline_linked)
  qed (use \<open>ms_store s' \<noteq> ms_store s\<close> in simp)
qed (use \<open>ms_store s' \<noteq> ms_store s\<close> in simp)

text \<open>
  The stores that any sequence of these operations reaches from the empty one, for any projects. Candidate
  reviews enter as the application makes them.
\<close>

inductive records_reached :: "mapping_store \<Rightarrow> bool" where
  rr_start: "records_reached empty_mapping_store"
| rr_store: "records_reached s \<Longrightarrow> store_step l (ms_store s) st \<Longrightarrow> records_reached (s\<lparr>ms_store := st\<rparr>)"
| rr_reverse_run: "records_reached s \<Longrightarrow> appendReverseRun p v s = Inr (s', r) \<Longrightarrow> records_reached s'"
| rr_analysis: "records_reached s \<Longrightarrow> appendImplementationAnalysis p v s = Inr (s', r) \<Longrightarrow> records_reached s'"
| rr_review: "records_reached s \<Longrightarrow>
    app_reviewReverseCandidate lc env p runId candidateId input ctx s = Inr (s', r) \<Longrightarrow> records_reached s'"
| rr_change_impact: "records_reached s \<Longrightarrow> appendChangeImpact p v s = Inr (s', r) \<Longrightarrow> records_reached s'"

lemma records_reached_integrity: "records_reached s \<Longrightarrow> store_integrity (ms_store s)"
proof (induction rule: records_reached.induct)
  case rr_start
  then show ?case by (simp add: empty_mapping_store_def integrity_start)
next
  case (rr_store s l st)
  from integrity_step [OF rr_store.hyps(2) rr_store.IH] show ?case by simp
next
  case (rr_reverse_run s p v s' r)
  from rr_reverse_run.hyps(2) have "ms_store s' = ms_store s" by (auto simp: appendReverseRun_def bnd_eq_Inr)
  with rr_reverse_run.IH show ?case by simp
next
  case (rr_analysis s p v s' r)
  from rr_analysis.hyps(2) have "ms_store s' = ms_store s"
    by (cases rule: appendImplementationAnalysis_cases) (simp_all del: oget_simps)
  with rr_analysis.IH show ?case by simp
next
  case (rr_review s lc env p runId candidateId input ctx s' r)
  show ?case
  proof (cases "ms_store s' = ms_store s")
    case False
    from reviewed_baseline [OF rr_review.hyps(2) False] have
      "check_baseline_package p r s = Inr () \<and> ms_store s' = ms_store (put_baseline_package p r s)" by iprover
    then have "check_baseline_package p r s = Inr ()" "ms_store s' = ms_store (put_baseline_package p r s)" by simp_all
    with put_linked_package_integrity [OF this(1) reviewed_package_linked [OF rr_review.hyps(2) False] rr_review.IH]
    show ?thesis by simp
  qed (use rr_review.IH in simp)
next
  case (rr_change_impact s p v s' r)
  from rr_change_impact.hyps(2) have "ms_store s' = ms_store s"
  proof (cases rule: appendChangeImpact_cases)
    case (fresh items t)
    from put_continuities_frame [OF fresh(3)] obtain m c where
      "t = s\<lparr>ms_implementationMappings := m, ms_conformances := c\<rparr>" unfolding fresh(4) .
    then show ?thesis unfolding fresh(5) by simp
  qed simp
  with rr_change_impact.IH show ?case by simp
qed

subsection \<open>Properties\<close>

text \<open>
  C34: every reference in a reachable store can be followed. In every store reached by the operations of the
  store, reverse runs, analyses, change impacts and the candidate reviews of the application, each stored
  claim has its feature and its scope version, each decision the claim version it decides with that claim's
  scope, each test specification its feature and the claims it verifies within that feature, each execution
  its test specification and a manifest of its deployment, each fact bundle the manifest of its source; all
  stored evidence is \<open>VERIFIED\<close>, and the revisions of a trace chain are numbered from 1 on.
\<close>

theorem reached_records_have_integrity:
  assumes "records_reached s"
  shows "store_integrity (ms_store s)"
  using assms by (rule records_reached_integrity)

text \<open>
  C35: records stay. Over any sequence of operations of any projects that write governed records, reverse runs,
  analyses, candidate reviews and change impacts, every collection keeps the entries it had, in place and
  unchanged, every revision and event log keeps its rows as a prefix, and an entry of the evidence hash index
  that names an owner keeps that owner.
\<close>

theorem stored_records_are_kept:
  assumes "(\<lambda>s t. \<exists>p. mapping_step p s t)\<^sup>*\<^sup>* s s'"
  shows "records_kept s s'"
  using assms by induction (auto intro: records_kept_trans mapping_step_keeps)

subsection \<open>A project with a record of every kind\<close>

text \<open>The operations of a run one after another, each of which is a step of the store.\<close>

definition run_operations :: "(store \<Rightarrow> store res) list \<Rightarrow> store \<Rightarrow> store res" where
  "run_operations fs s = foldR (\<lambda>s f. f s) s fs"

definition steps_of_store :: "(store \<Rightarrow> store res) list \<Rightarrow> bool" where
  "steps_of_store fs \<longleftrightarrow> (\<forall>f\<in>set fs. \<forall>s s'. f s = Inr s' \<longrightarrow> (\<exists>l. store_step l s s'))"

lemma run_operations_reached:
  assumes "run_operations fs (ms_store s) = Inr t" and "steps_of_store fs" and "records_reached s"
  shows "records_reached (s\<lparr>ms_store := t\<rparr>)"
  using assms unfolding run_operations_def
proof (induction fs arbitrary: s)
  case (Cons f fs)
  from Cons.prems(1) obtain u where u: "f (ms_store s) = Inr u" "foldR (\<lambda>s f. f s) u fs = Inr t" by (auto simp: bnd_eq_Inr)
  from Cons.prems(2) u(1) obtain l where l: "store_step l (ms_store s) u"
    unfolding steps_of_store_def by (meson list.set_intros(1))
  from Cons.IH [of "s\<lparr>ms_store := u\<rparr>"] Cons.prems(2) u(2) rr_store [OF Cons.prems(3) l] show ?case
    by (simp add: steps_of_store_def)
qed auto

lemma run_operations_steps:
  assumes "run_operations fs (ms_store s) = Inr t" and "steps_of_store fs"
  shows "(\<lambda>s t. \<exists>p. mapping_step p s t)\<^sup>*\<^sup>* s (s\<lparr>ms_store := t\<rparr>)"
  using assms unfolding run_operations_def
proof (induction fs arbitrary: s)
  case (Cons f fs)
  from Cons.prems(1) obtain u where u: "f (ms_store s) = Inr u" "foldR (\<lambda>s f. f s) u fs = Inr t" by (auto simp: bnd_eq_Inr)
  from Cons.prems(2) u(1) obtain l where l: "store_step l (ms_store s) u"
    unfolding steps_of_store_def by (meson list.set_intros(1))
  have "\<exists>p. mapping_step p s (s\<lparr>ms_store := u\<rparr>)" using governed_write [OF l] by (rule exI)
  moreover from Cons.IH [of "s\<lparr>ms_store := u\<rparr>"] Cons.prems(2) u(2)
  have "(\<lambda>s t. \<exists>p. mapping_step p s t)\<^sup>*\<^sup>* (s\<lparr>ms_store := u\<rparr>) (s\<lparr>ms_store := t\<rparr>)" by (simp add: steps_of_store_def)
  ultimately show ?case by (rule converse_rtranclp_into_rtranclp)
qed auto

definition setup_operations :: "(store \<Rightarrow> store res) list" where
  "setup_operations =
     [\<lambda>s. next_store (appendSnapshotManifest ''p'' (JObj [(''id'', JStr ''S1''), (''components'', JObj
        [(''deployment'', JObj [(''id'', JStr ''dep'')]), (''source'', JObj [(''id'', JStr ''src''), (''digest'', JStr ''x'')])])]) s),
      \<lambda>s. next_store (appendFeatureVersion ''p'' (JObj [(''id'', JStr ''F''), (''version'', JNum 1)]) s),
      \<lambda>s. next_store (appendClaimScope ''p'' (JObj [(''id'', JStr ''SC''), (''version'', JNum 1)]) s),
      \<lambda>s. next_store (appendClaim ''p'' (JObj [(''id'', JStr ''C''), (''version'', JNum 1), (''featureId'', JStr ''F''),
        (''scopeId'', JStr ''SC''), (''scopeVersion'', JNum 1)]) s),
      \<lambda>s. next_store (appendDecision ''p'' (JObj [(''id'', JStr ''D''), (''claimId'', JStr ''C''), (''claimVersion'', JNum 1),
        (''scopeId'', JStr ''SC''), (''scopeVersion'', JNum 1)]) s)]"

definition evidence_operations :: "(store \<Rightarrow> store res) list" where
  "evidence_operations =
     [\<lambda>s. next_store (appendTestSpec ''p'' (JObj [(''id'', JStr ''T''), (''version'', JNum 1), (''featureId'', JStr ''F''),
        (''verifiesClaims'', JArr [JObj [(''id'', JStr ''C''), (''version'', JNum 1)]])]) s),
      \<lambda>s. next_store (appendExecutionEvidenceBundle ''p'' (JObj [(''execution'', JObj [(''id'', JStr ''E''), (''testSpecId'', JStr ''T''),
          (''testSpecVersion'', JNum 1), (''snapshotManifestId'', JStr ''S1''), (''deploymentId'', JStr ''dep'')]),
        (''attestation'', JNull), (''evidence'', JArr [JObj [(''id'', JStr ''V''), (''contentHash'', JStr ''h'')]])]) s),
      \<lambda>s. next_store (appendFactBundle ''p'' (JObj [(''id'', JStr ''B''), (''snapshotManifestId'', JStr ''S1''),
        (''sourceComponentId'', JStr ''src''), (''sourceDigest'', JStr ''x'')]) s),
      \<lambda>s. next_store (appendTraceChainRevision ''p'' (JObj [(''id'', JStr ''X''), (''snapshotManifestId'', JStr ''S1'')]) JUndef s)]"

definition later_operations :: "(store \<Rightarrow> store res) list" where
  "later_operations =
     [\<lambda>s. next_store (appendExecutionEvidenceBundle ''p'' (JObj [(''execution'', JObj [(''id'', JStr ''E2''), (''testSpecId'', JStr ''T''),
          (''testSpecVersion'', JNum 1), (''snapshotManifestId'', JStr ''S1''), (''deploymentId'', JStr ''dep'')]),
        (''attestation'', JNull), (''evidence'', JArr [JObj [(''id'', JStr ''V''), (''contentHash'', JStr ''h'')],
          JObj [(''id'', JStr ''V2''), (''contentHash'', JStr ''h2'')]])]) s),
      \<lambda>s. next_store (appendTraceChainRevision ''p'' (JObj [(''id'', JStr ''X''), (''snapshotManifestId'', JStr ''S1'')]) JUndef s)]"

lemma next_store_Inr: "next_store r = Inr s \<longleftrightarrow> (\<exists>x. r = Inr (s, x))"
  by (auto simp: next_store_def bnd_eq_Inr)

lemma operations_are_steps:
  "steps_of_store setup_operations" "steps_of_store evidence_operations" "steps_of_store later_operations"
  unfolding steps_of_store_def setup_operations_def evidence_operations_def later_operations_def
  by (simp_all only: list.set ball_simps next_store_Inr)
     (intro conjI allI impI TrueI; elim exE; rule exI, erule store_step.intros)+

lemma setup_run:
  "case run_operations (setup_operations @ evidence_operations) empty_store of
     Inl _ \<Rightarrow> False
   | Inr s \<Rightarrow> map length [st_claims s, st_decisions s, st_testSpecs s, st_executions s, st_evidence s, st_factBundles s] = [1, 1, 1, 1, 1, 1] \<and>
       length (rows (st_chains s) (store_key ''p'' ''X'')) = 1 \<and>
       map_of (st_evidenceHashes s) (store_key ''p'' ''h'') = Some (JStr ''V'') \<and>
       (case run_operations later_operations s of
          Inl _ \<Rightarrow> False
        | Inr t \<Rightarrow> map length [st_executions t, st_evidence t] = [2, 2] \<and>
            length (rows (st_chains t) (store_key ''p'' ''X'')) = 2)"
  by code_simp

lemma setup_runs:
  obtains s t where "run_operations (setup_operations @ evidence_operations) empty_store = Inr s"
    "map length [st_claims s, st_decisions s, st_testSpecs s, st_executions s, st_evidence s, st_factBundles s] = [1, 1, 1, 1, 1, 1]"
    "length (rows (st_chains s) (store_key ''p'' ''X'')) = 1"
    "map_of (st_evidenceHashes s) (store_key ''p'' ''h'') = Some (JStr ''V'')"
    "run_operations later_operations s = Inr t" "map length [st_executions t, st_evidence t] = [2, 2]"
    "length (rows (st_chains t) (store_key ''p'' ''X'')) = 2"
  using setup_run by (elim resE) (elim conjE resE, rule that)

lemma steps_append: "steps_of_store fs \<Longrightarrow> steps_of_store gs \<Longrightarrow> steps_of_store (fs @ gs)"
  by (auto simp: steps_of_store_def)

theorem reached_records_have_integrity_witness:
  "(\<exists>s. records_reached s \<and> store_integrity (ms_store s) \<and>
     map length [st_claims (ms_store s), st_decisions (ms_store s), st_testSpecs (ms_store s), st_executions (ms_store s),
       st_evidence (ms_store s), st_factBundles (ms_store s)] = [1, 1, 1, 1, 1, 1] \<and>
     length (rows (st_chains (ms_store s)) (store_key ''p'' ''X'')) = 1) \<and>
   (\<exists>s r. app_reviewReverseCandidate (\<lambda>l r. 0) trusted_env ''p'' ''R1'' ''K1'' confirming_input JNull waiting_store = Inr (s, r) \<and>
     records_reached s \<and> ms_store s \<noteq> empty_store \<and> store_integrity (ms_store s))"
proof
  obtain s where s: "run_operations (setup_operations @ evidence_operations) empty_store = Inr s"
    "map length [st_claims s, st_decisions s, st_testSpecs s, st_executions s, st_evidence s, st_factBundles s] = [1, 1, 1, 1, 1, 1]"
    "length (rows (st_chains s) (store_key ''p'' ''X'')) = 1" by (rule setup_runs)
  have e: "ms_store empty_mapping_store = empty_store" by (simp add: empty_mapping_store_def)
  have r: "records_reached (empty_mapping_store\<lparr>ms_store := s\<rparr>)"
    by (rule run_operations_reached [OF _ steps_append [OF operations_are_steps(1,2)] rr_start]) (simp only: e s(1))
  from reached_records_have_integrity [OF r] r s(2,3) show "\<exists>s. records_reached s \<and> store_integrity (ms_store s) \<and>
     map length [st_claims (ms_store s), st_decisions (ms_store s), st_testSpecs (ms_store s), st_executions (ms_store s),
       st_evidence (ms_store s), st_factBundles (ms_store s)] = [1, 1, 1, 1, 1, 1] \<and>
     length (rows (st_chains (ms_store s)) (store_key ''p'' ''X'')) = 1"
    by (intro exI [of _ "empty_mapping_store\<lparr>ms_store := s\<rparr>"]) simp
next
  from candidate_confirmed [of "\<lambda>l r. 0"] obtain s v where
    run: "app_reviewReverseCandidate (\<lambda>l r. 0) trusted_env ''p'' ''R1'' ''K1'' confirming_input JNull waiting_store = Inr (s, v)"
      "ms_store s \<noteq> ms_store waiting_store" by (elim exE conjE)
  have w: "appendReverseRun ''p'' waiting_run empty_mapping_store =
      Inr (waiting_store, JObj [(''runId'', oget waiting_run ''id''), (''status'', oget waiting_run ''status'')])"
    by (simp add: appendReverseRun_def put_once_def waiting_store_def empty_mapping_store_def id_key_def waiting_run_def)
  have r: "records_reached s" by (rule rr_review [OF rr_reverse_run [OF rr_start w] run(1)])
  have "ms_store waiting_store = empty_store" by (simp add: waiting_store_def empty_mapping_store_def)
  with run reached_records_have_integrity [OF r] r show "\<exists>s r.
     app_reviewReverseCandidate (\<lambda>l r. 0) trusted_env ''p'' ''R1'' ''K1'' confirming_input JNull waiting_store = Inr (s, r) \<and>
     records_reached s \<and> ms_store s \<noteq> empty_store \<and> store_integrity (ms_store s)"
    by (intro exI [of _ s] exI [of _ v]) simp
qed

theorem stored_records_are_kept_witness:
  "\<exists>s t. (\<lambda>s t. \<exists>p. mapping_step p s t)\<^sup>*\<^sup>* s t \<and> records_kept s t \<and>
     map length [st_executions (ms_store s), st_evidence (ms_store s), st_executions (ms_store t), st_evidence (ms_store t)] = [1, 1, 2, 2] \<and>
     map_of (st_evidenceHashes (ms_store s)) (store_key ''p'' ''h'') = Some (JStr ''V'') \<and>
     map_of (st_evidenceHashes (ms_store t)) (store_key ''p'' ''h'') = Some (JStr ''V'')"
proof -
  obtain s t where s: "map length [st_claims s, st_decisions s, st_testSpecs s, st_executions s, st_evidence s, st_factBundles s] = [1, 1, 1, 1, 1, 1]"
    "map_of (st_evidenceHashes s) (store_key ''p'' ''h'') = Some (JStr ''V'')"
    "run_operations later_operations s = Inr t" "map length [st_executions t, st_evidence t] = [2, 2]" by (rule setup_runs)
  let ?s = "empty_mapping_store\<lparr>ms_store := s\<rparr>" and ?t = "empty_mapping_store\<lparr>ms_store := t\<rparr>"
  have run: "(\<lambda>s t. \<exists>p. mapping_step p s t)\<^sup>*\<^sup>* ?s ?t"
    using run_operations_steps [of later_operations ?s t, OF _ operations_are_steps(3)] s(3) by simp
  note kept = stored_records_are_kept [OF run]
  then have "map_of (st_evidenceHashes t) (store_key ''p'' ''h'') = Some (JStr ''V'')"
    using s(2) by (simp add: records_kept_def owners_kept_def)
  with run kept s show ?thesis by (intro exI [of _ ?s] exI [of _ ?t]) simp
qed

text \<open>
  The operation of the store alone does not keep the references: a package whose decision names version 2 of the
  scope, while its claim and scope are version 1, is stored, though \<open>appendDecision\<close> refuses that decision.
\<close>

definition unlinked_package :: jsv where
  "unlinked_package = JObj
     [(''review'', JObj [(''id'', JStr ''V1''), (''runId'', JStr ''R1''), (''candidateId'', JStr ''K1''), (''baselineRefs'', JObj [])]),
      (''feature'', JObj [(''id'', JStr ''F1''), (''version'', JNum 1)]), (''scope'', JObj [(''id'', JStr ''SC1''), (''version'', JNum 1)]),
      (''claim'', JObj [(''id'', JStr ''CL1''), (''version'', JNum 1), (''featureId'', JStr ''F1''), (''scopeId'', JStr ''SC1''), (''scopeVersion'', JNum 1)]),
      (''decision'', JObj [(''id'', JStr ''D1''), (''claimId'', JStr ''CL1''), (''claimVersion'', JNum 1), (''scopeId'', JStr ''SC1''), (''scopeVersion'', JNum 2)]),
      (''implementationMapping'', JObj [(''id'', JStr ''M1''), (''claimId'', JStr ''CL1'')]),
      (''conformance'', JObj [(''id'', JStr ''N1''), (''mappingId'', JStr ''M1'')])]"

theorem stored_package_with_other_scope_version:
  "case appendReverseCandidateReview ''p'' unlinked_package waiting_store of
     Inl _ \<Rightarrow> False
   | Inr (s, _) \<Rightarrow> (case st_decisions (ms_store s) of
        [(k, d)] \<Rightarrow> (case claim_of ''p'' d (ms_store s) of None \<Rightarrow> False | Some c \<Rightarrow> \<not> scope_matches c d) \<and>
          (case appendDecision ''p'' d (ms_store s) of Inl e \<Rightarrow> e = ConflictErr ''Decision scope must match the claim version scope'' | Inr _ \<Rightarrow> False)
      | _ \<Rightarrow> False)"
  by code_simp

end
