(* ===== verification/Spec2Isabelle.thy ===== *)
theory Spec2Isabelle
  imports Trace_Chain Snapshot_Manifest Invalidation Governance Decision_Governance
    Store_Properties
    Evidence_Governance Execution_Evidence Decision_Workflow Feature_Evolution Test_Spec_Workflow Fact_Queries Ingestion
    Business_Process Process_Workflow Continuous_Protection Change_Impact Implementation_Review Mapping_Store Snapshot_Comparison
    Governed_Store
begin

text \<open>
  Verification development of the traceability platform under \<open>src/\<close>: the records of the domain kernel
  (\<open>src/domain\<close>), the append-only store (\<open>src/storage/memory-traceability-store.js\<close>) and the operations of
  \<open>src/application/traceability-application.js\<close> that govern them. The program keeps, per project, what the
  business promised (features, scopes, claims, decisions, process models), what was observed (snapshot
  manifests, fact bundles, executions, evidence) and how both are tied together (test specifications,
  implementation mappings, conformances, trace chains, change impacts).

  \<^bold>\<open>How the code is modelled.\<close> Every value of the code is a value of the type \<open>jsv\<close> of \<open>Js_Value\<close> (undefined,
  null, booleans, integers, other numbers by their literal, strings, arrays, objects as association lists in
  insertion order). A function that may throw returns \<open>err + 'a\<close> and is composed with \<open>bnd\<close>, so that
  each guard and early return is a branch in the order of the code. A handler of the application is a
  function from the store to an error or a new store and an answer. Definitions have the names of the
  functions they translate; a handler \<open>f\<close> of the application is \<open>app_f\<close>, and a block of a long function
  that has a name of its own here is mapped to that function.

  \<^bold>\<open>Theories, in the order they build on each other.\<close>
  \<^item> \<open>Prelude\<close>, \<open>Js_Value\<close>, \<open>Value_Tree\<close>: errors, traversals, insertion-ordered sets and maps, strings; values and
    the operators of the language on them; the parts of a value.
  \<^item> \<open>Sha256\<close>, \<open>Canonical\<close> (\<open>canonical-json.js\<close>), \<open>Js_Date\<close>: SHA-256 on words, the canonical text and the
    content identifiers, with the theorem that equal texts mean structurally equal values; date strings.
  \<^item> \<open>Model\<close> (\<open>model.js\<close>), \<open>Governance\<close>, \<open>Decision_Governance\<close>, \<open>Snapshot_Manifest\<close>, \<open>Invalidation\<close>,
    \<open>Trace_Chain\<close>, \<open>Evidence_Lifecycle\<close>, \<open>Execution_Evidence\<close>, \<open>Test_Spec\<close>, \<open>Facts\<close>, \<open>Business_Process\<close>,
    \<open>Continuous_Protection\<close>, \<open>Change_Impact\<close>, \<open>Implementation_Review\<close> (\<open>review.js\<close>): one theory per module of
    \<open>src/domain\<close>, each with its constructors and evaluations and what they guarantee.
  \<^item> \<open>Traceability_Store\<close>, \<open>Store_Queries\<close>, \<open>Store_Properties\<close>, \<open>Mapping_Store\<close>: the collections of the store as
    association lists in insertion order, its operations, and its reachable states by the inductive
    relations \<open>store_step\<close> and \<open>mapping_step\<close>. The locales \<open>immutable_records\<close> and \<open>replayable_records\<close> state
    the contract of an append operation and are interpreted on the collections of the store.
    \<open>Governed_Store\<close> joins both relations with the candidate reviews and shows, over any run, that records
    stay and references can be followed.
  \<^item> \<open>Application_Context\<close>, \<open>Project_Parts\<close>: the resolvers of the application, the checks all handlers share, and
    the isolation of projects.
  \<^item> \<open>Decision_Workflow\<close>, \<open>Evidence_Governance\<close>, \<open>Feature_Evolution\<close>, \<open>Test_Spec_Properties\<close>,
    \<open>Test_Spec_Workflow\<close>, \<open>Fact_Queries\<close>, \<open>Ingestion\<close>, \<open>Process_Workflow\<close>, \<open>Snapshot_Comparison\<close>,
    \<open>Candidate_Review\<close>: the handlers of the application over the store, as step relations where an invariant is shown.

  \<^bold>\<open>What is shown.\<close>
  \<^item> Governance: decisions are written only with authority and independent approvals, and the review and
    retention handlers refine abstract machines; a deletion of evidence is lawful; a reverse-engineered
    candidate becomes a baseline only by an authorised review that faces its conflicts, a repeated review
    changes nothing and a reanalysis leaves what is governed alone.
  \<^item> Observation: stored executions and fact bundles carry verified attestations, honest reports are
    accepted, queries answer bounded graphs closed under edges, sensitive values are redacted.
  \<^item> Structure: over the operations modelled the governed records, mappings and reviews of the store are
    append-only with referential integrity, and projects are separate; lineages are acyclic; process models are connected machines, implemented by stored facts.
  \<^item> Change: the comparison of two graphs reports exactly their differences in content, the impact spares
    history and intent, a conformance is carried to a new snapshot only for unchanged facts, a repeated
    comparison changes nothing, the regression plan loses no affected test and the quality gate passes
    exactly when the change is protected; a trace chain is complete exactly when its obligations are met.
  \<^item> Errors: an event of one policy version binds no other version and the comparison sees only the last of
    parallel edges, in general; and concrete inputs on which guards of the code are bypassed (values given as
    one-element arrays, separators in identifiers, expired confirmations, packages with another scope version).

  \<^bold>\<open>Bounds and termination.\<close> No fuel is used: the search for lineage cycles is a \<open>while_option\<close> proved to
  return, and the loop over process transitions, like every recursion on values, is a function with a
  termination proof. The limits of the code are kept as they are: 500 matched nodes and 4000 edges in a fact
  query, 100000 nodes in the graph of a snapshot.

  \<^bold>\<open>Parameters and simplifications.\<close> The resolvers of identities, policies and keys are arguments, as is the
  order \<open>lc\<close> of \<open>localeCompare\<close>, whose arguments are strings. A handler reads its clock once. Handlers run
  one after the other. Characters are those below 256, where NFKC is written out. Integers are unbounded;
  the code does no arithmetic on them near the limit of exact numbers. Freezing a value is the identity.

  \<^bold>\<open>Not modelled.\<close> The user interface, HTTP, command line and the PostgreSQL adapters (the same storage
  interface as SQL text, over a database whose semantics the source does not contain); accounts, source
  truth, deterministic facts, business knowledge, scanners, runners and analysis agents, which are
  services around processes, parsers and language models and meet this model only through the records they
  submit; in the application the start of reverse runs, the assembly of the trace chains of
  a feature for display, workspaces, understanding jobs, graph revisions, source slices and metrics; in the store
  the collections of those parts, among them the analysis checkpoints, which are overwritten in place.
\<close>

end
